(* ===== verification/Prelude.thy ===== *)
theory Prelude
  imports Main "HOL-Library.Word" "HOL-Library.List_Lexorder"
begin

text \<open>
  Shared vocabulary of the development.

  \<^item> Machine integers: \<open>u8\<close>, \<open>u16\<close>, \<open>u32\<close>, \<open>u64\<close> are words, whose \<open>+\<close> and \<open>-\<close> wrap as
    release-mode Rust does. \<open>usize\<close> quantities that are lengths or indices are natural numbers,
    and a subtraction of them that can go below zero is \<open>usize_sub\<close>, which wraps at \<open>2 ^ 64\<close>.
  \<^item> Panics: a computation that may panic has type \<open>'a rust\<close>, a sum whose left side names
    the reason; \<open>rbind\<close> sequences such computations and stops at the first panic.
  \<^item> Slices: \<open>split_at\<close>, \<open>index_slice\<close>, \<open>chunks\<close> and \<open>copy_from_slice_at\<close> follow the standard
    library, out-of-range cases included.
  \<^item> Byte order: \<open>le_bytes\<close> and \<open>le_nat\<close> are the little-endian encoding and its inverse;
    the big-endian forms reverse them.
\<close>

section \<open>Types\<close>

type_synonym u8 = "8 word"
type_synonym u16 = "16 word"
type_synonym u32 = "32 word"
type_synonym u64 = "64 word"
type_synonym usize = nat
type_synonym byte_string = "u8 list"

datatype panic =
    IndexOutOfBounds
  | SliceOutOfRange
  | ChunkSizeZero
  | UnwrapFailed
  | AssertionFailed
  | ExplicitPanic
  | CapacityExceeded
  | DivisionByZero
  | UndefinedBehaviour

type_synonym 'a rust = "panic + 'a"

section \<open>Panicking computations\<close>

definition rbind :: "'a rust \<Rightarrow> ('a \<Rightarrow> 'b rust) \<Rightarrow> 'b rust" where
  "rbind m f = (case m of Inl e \<Rightarrow> Inl e | Inr x \<Rightarrow> f x)"

definition rassert :: "bool \<Rightarrow> panic \<Rightarrow> unit rust" where
  "rassert b e = (if b then Inr () else Inl e)"

definition expect :: "'a option \<Rightarrow> 'a rust" where
  "expect x = (case x of None \<Rightarrow> Inl UnwrapFailed | Some y \<Rightarrow> Inr y)"

named_theorems rust_simps

lemma rbind_Inl [simp, rust_simps]: "rbind (Inl e) f = Inl e"
  by (simp add: rbind_def)

lemma rbind_Inr [simp, rust_simps]: "rbind (Inr x) f = f x"
  by (simp add: rbind_def)

lemma rbind_assoc: "rbind (rbind m f) g = rbind m (\<lambda>x. rbind (f x) g)"
  by (cases m) simp_all

lemma rbind_eq_Inr [simp]: "rbind m f = Inr y \<longleftrightarrow> (\<exists>x. m = Inr x \<and> f x = Inr y)"
  by (cases m) simp_all

lemma rassert_True [simp, rust_simps]: "rassert True e = Inr ()"
  by (simp add: rassert_def)

lemma rassert_False [simp, rust_simps]: "rassert False e = Inl e"
  by (simp add: rassert_def)

lemma rassert_eq_Inr [simp]: "rassert b e = Inr u \<longleftrightarrow> b"
  by (simp add: rassert_def)

lemma expect_simps [simp, rust_simps]:
  "expect None = Inl UnwrapFailed" "expect (Some y) = Inr y"
  by (simp_all add: expect_def)

lemma expect_eq_Inr [simp]: "expect x = Inr y \<longleftrightarrow> x = Some y"
  by (cases x) simp_all

section \<open>Sizes\<close>

definition usize_sub :: "usize \<Rightarrow> usize \<Rightarrow> usize" where
  "usize_sub a b = (if b \<le> a then a - b else 2 ^ 64 + a - b)"

lemma usize_sub_le [simp]: "b \<le> a \<Longrightarrow> usize_sub a b = a - b"
  by (simp add: usize_sub_def)

definition as_usize :: "nat \<Rightarrow> usize" where
  "as_usize n = n mod 2 ^ 64"

lemma as_usize_id [simp]: "n < 2 ^ 64 \<Longrightarrow> as_usize n = n"
  by (simp add: as_usize_def)

section \<open>Slices\<close>

definition index_slice :: "'a list \<Rightarrow> usize \<Rightarrow> 'a rust" where
  "index_slice xs i = (if i < length xs then Inr (xs ! i) else Inl IndexOutOfBounds)"

definition get_opt :: "'a list \<Rightarrow> usize \<Rightarrow> 'a option" where
  "get_opt xs i = (if i < length xs then Some (xs ! i) else None)"

definition split_at :: "'a list \<Rightarrow> usize \<Rightarrow> ('a list \<times> 'a list) rust" where
  "split_at xs n = (if n \<le> length xs then Inr (take n xs, drop n xs) else Inl SliceOutOfRange)"

text \<open>\<open>slice_range xs a b\<close> is \<open>&xs[a..b]\<close>.\<close>

definition slice_range :: "'a list \<Rightarrow> usize \<Rightarrow> usize \<Rightarrow> 'a list rust" where
  "slice_range xs a b =
     (if a \<le> b \<and> b \<le> length xs then Inr (take (b - a) (drop a xs)) else Inl SliceOutOfRange)"

text \<open>\<open>write_at i ys xs\<close> overwrites the elements of \<open>xs\<close> from index \<open>i\<close> on with \<open>ys\<close>.\<close>

definition write_at :: "usize \<Rightarrow> 'a list \<Rightarrow> 'a list \<Rightarrow> 'a list" where
  "write_at i ys xs = take i xs @ ys @ drop (i + length ys) xs"

text \<open>\<open>copy_from_slice_at a b src xs\<close> is \<open>xs[a..b].copy_from_slice(src)\<close>, which panics
  when the range is out of bounds or the lengths differ.\<close>

definition copy_from_slice_at :: "usize \<Rightarrow> usize \<Rightarrow> 'a list \<Rightarrow> 'a list \<Rightarrow> 'a list rust" where
  "copy_from_slice_at a b src xs =
     (if a \<le> b \<and> b \<le> length xs \<and> length src = b - a then Inr (write_at a src xs)
      else Inl SliceOutOfRange)"

function chunks_of :: "usize \<Rightarrow> 'a list \<Rightarrow> 'a list list" where
  "chunks_of n xs = (if n = 0 \<or> xs = [] then [] else take n xs # chunks_of n (drop n xs))"
  by pat_completeness auto
termination
  by (relation "measure (\<lambda>(n, xs). length xs)") auto

declare chunks_of.simps [simp del]

text \<open>\<open>slice::chunks\<close> panics for a chunk size of zero.\<close>

definition chunks :: "'a list \<Rightarrow> usize \<Rightarrow> 'a list list rust" where
  "chunks xs n = (if n = 0 then Inl ChunkSizeZero else Inr (chunks_of n xs))"

lemma split_at_ok [simp]: "n \<le> length xs \<Longrightarrow> split_at xs n = Inr (take n xs, drop n xs)"
  by (simp add: split_at_def)

lemma split_at_panic [simp]: "length xs < n \<Longrightarrow> split_at xs n = Inl SliceOutOfRange"
  by (simp add: split_at_def)

lemma split_at_append [simp]: "split_at (xs @ ys) (length xs) = Inr (xs, ys)"
  by (simp add: split_at_def)

lemma length_write_at [simp]: "i + length ys \<le> length xs \<Longrightarrow> length (write_at i ys xs) = length xs"
  by (simp add: write_at_def)

lemma take_write_at_before [simp]:
  "n \<le> i \<Longrightarrow> i \<le> length xs \<Longrightarrow> take n (write_at i ys xs) = take n xs"
  by (simp add: write_at_def min_absorb1)

lemma drop_write_at_after:
  "i + length ys \<le> n \<Longrightarrow> i + length ys \<le> length xs \<Longrightarrow> drop n (write_at i ys xs) = drop n xs"
  by (simp add: write_at_def add.commute)

lemma write_at_window:
  "i + length ys \<le> length xs \<Longrightarrow> take (length ys) (drop i (write_at i ys xs)) = ys"
  by (simp add: write_at_def)

lemma chunks_of_Nil [simp]: "chunks_of n [] = []"
  by (simp add: chunks_of.simps)

lemma chunks_of_exact:
  "length c = n \<Longrightarrow> 0 < n \<Longrightarrow> chunks_of n (c @ xs) = c # chunks_of n xs"
  by (subst chunks_of.simps) auto

lemma chunks_of_concat:
  assumes "\<forall>c \<in> set cs. length c = n" and "0 < n"
  shows "chunks_of n (concat cs) = cs"
  using assms by (induction cs) (simp_all add: chunks_of_exact)

lemma concat_chunks_of: "0 < n \<Longrightarrow> concat (chunks_of n xs) = xs"
proof (induction n xs rule: chunks_of.induct)
  case (1 n xs)
  then show ?case
    by (subst chunks_of.simps) auto
qed

section \<open>Byte order\<close>

fun le_bytes :: "nat \<Rightarrow> nat \<Rightarrow> byte_string" where
  "le_bytes 0 v = []"
| "le_bytes (Suc n) v = word_of_nat (v mod 256) # le_bytes n (v div 256)"

fun le_nat :: "byte_string \<Rightarrow> nat" where
  "le_nat [] = 0"
| "le_nat (b # bs) = unat b + 256 * le_nat bs"

definition be_bytes :: "nat \<Rightarrow> nat \<Rightarrow> byte_string" where
  "be_bytes n v = rev (le_bytes n v)"

definition be_nat :: "byte_string \<Rightarrow> nat" where
  "be_nat bs = le_nat (rev bs)"

lemma length_le_bytes [simp]: "length (le_bytes n v) = n"
  by (induction n arbitrary: v) simp_all

lemma length_be_bytes [simp]: "length (be_bytes n v) = n"
  by (simp add: be_bytes_def)

lemma unat_byte_lt: "unat (b :: u8) < 256"
  using unsigned_less [of b, where 'a = nat] by simp

lemma unat_word_of_byte: "v < 256 \<Longrightarrow> unat (word_of_nat v :: u8) = v"
  by (simp add: unat_of_nat)

lemma le_nat_bound: "le_nat bs < 256 ^ length bs"
proof (induction bs)
  case Nil
  then show ?case by simp
next
  case (Cons b bs)
  have "unat b < 256" by (rule unat_byte_lt)
  with Cons show ?case by simp
qed

lemma le_nat_le_bytes [simp]: "v < 256 ^ n \<Longrightarrow> le_nat (le_bytes n v) = v"
proof (induction n arbitrary: v)
  case 0
  then show ?case by simp
next
  case (Suc n)
  then have "v div 256 < 256 ^ n" by (simp add: less_mult_imp_div_less mult.commute)
  with Suc.IH have "le_nat (le_bytes n (v div 256)) = v div 256" by blast
  then show ?case by (simp add: unat_word_of_byte)
qed

lemma le_bytes_le_nat: "length bs = n \<Longrightarrow> le_bytes n (le_nat bs) = bs"
proof (induction bs arbitrary: n)
  case Nil
  then show ?case by simp
next
  case (Cons b bs)
  have "unat b < 256" by (rule unat_byte_lt)
  with Cons show ?case by auto
qed

lemma be_nat_be_bytes [simp]: "v < 256 ^ n \<Longrightarrow> be_nat (be_bytes n v) = v"
  by (simp add: be_nat_def be_bytes_def)

text \<open>Fixed-width fields of a packed structure.\<close>

definition enc_u16 :: "u16 \<Rightarrow> byte_string" where "enc_u16 w = le_bytes 2 (unat w)"
definition enc_u32 :: "u32 \<Rightarrow> byte_string" where "enc_u32 w = le_bytes 4 (unat w)"
definition enc_u64 :: "u64 \<Rightarrow> byte_string" where "enc_u64 w = le_bytes 8 (unat w)"

definition dec_u16 :: "byte_string \<Rightarrow> u16" where "dec_u16 bs = word_of_nat (le_nat bs)"
definition dec_u32 :: "byte_string \<Rightarrow> u32" where "dec_u32 bs = word_of_nat (le_nat bs)"
definition dec_u64 :: "byte_string \<Rightarrow> u64" where "dec_u64 bs = word_of_nat (le_nat bs)"

lemma length_enc [simp]:
  "length (enc_u16 a) = 2" "length (enc_u32 b) = 4" "length (enc_u64 c) = 8"
  by (simp_all add: enc_u16_def enc_u32_def enc_u64_def)

lemma dec_enc_u16 [simp]: "dec_u16 (enc_u16 w) = w"
  using unsigned_less [of w, where 'a = nat] by (simp add: enc_u16_def dec_u16_def)

lemma dec_enc_u32 [simp]: "dec_u32 (enc_u32 w) = w"
  using unsigned_less [of w, where 'a = nat] by (simp add: enc_u32_def dec_u32_def)

lemma dec_enc_u64 [simp]: "dec_u64 (enc_u64 w) = w"
  using unsigned_less [of w, where 'a = nat] by (simp add: enc_u64_def dec_u64_def)

lemma unat_of_nat_lt [simp]:
  "n < 2 ^ 16 \<Longrightarrow> unat (word_of_nat n :: u16) = n"
  "n < 2 ^ 32 \<Longrightarrow> unat (word_of_nat n :: u32) = n"
  "n < 2 ^ 64 \<Longrightarrow> unat (word_of_nat n :: u64) = n"
  by (simp_all add: unat_of_nat)

lemma unat_ucast_byte [simp]:
  "unat (ucast (b :: u8) :: u16) = unat b" "unat (ucast (b :: u8) :: u32) = unat b"
  using unat_byte_lt [of b]
  by (simp_all add: unsigned_ucast_eq take_bit_nat_eq_self)

lemma unat_u16_lt: "unat (w :: u16) < 65536"
  using unsigned_less [of w, where 'a = nat] by simp

lemma unat_u32_lt: "unat (w :: u32) < 4294967296"
  using unsigned_less [of w, where 'a = nat] by simp

lemma unat_u64_lt: "unat (w :: u64) < 18446744073709551616"
  using unsigned_less [of w, where 'a = nat] by simp

end
