(* ===== verification/Alloc.thy ===== *)
theory Alloc
  imports Prelude
begin

text \<open>
  The table heap (\<open>db/src/alloc.rs\<close>) and the buffers handed to extensions
  (\<open>sandstorm/src/buf.rs\<close>).

  A \<open>Bytes\<close> is its contents. A \<open>BytesMut\<close> is its contents and its capacity. How much
  capacity \<open>BytesMut::with_capacity(n)\<close> really grants is not fixed by the program (it
  ``could actually allocate more than size bytes''), so every operation that allocates takes a
  parameter \<open>grant\<close>; the program relies on \<open>n \<le> grant n\<close>. Writing past the
  capacity panics, as the comments and tests of \<open>buf.rs\<close> state.

  Each object is laid out as tenant id (4 bytes), table id (8), key length (2), key, value, with
  the numbers in little-endian order.
\<close>

section \<open>Byte buffers\<close>

record bytes_mut =
  bm_data :: byte_string
  bm_cap :: usize

definition with_capacity :: "(usize \<Rightarrow> usize) \<Rightarrow> usize \<Rightarrow> bytes_mut" where
  "with_capacity grant n = \<lparr>bm_data = [], bm_cap = grant n\<rparr>"

definition put_slice :: "byte_string \<Rightarrow> bytes_mut \<Rightarrow> bytes_mut rust" where
  "put_slice src b =
     (if length (bm_data b) + length src \<le> bm_cap b
      then Inr (b\<lparr>bm_data := bm_data b @ src\<rparr>)
      else Inl CapacityExceeded)"

section \<open>Allocator\<close>

definition meta_size :: usize where
  "meta_size = 4 + 8 + 2"

definition Allocator_alloc ::
    "(usize \<Rightarrow> usize) \<Rightarrow> u32 \<Rightarrow> u64 \<Rightarrow> u16 \<Rightarrow> u64 \<Rightarrow> bytes_mut option rust" where
  "Allocator_alloc grant tenant table key_len val_len =
     (let size = as_usize (meta_size + unat key_len + unat val_len);
          object = with_capacity grant size
      in rbind (put_slice (enc_u32 tenant) object) (\<lambda>object.
         rbind (put_slice (enc_u64 table) object) (\<lambda>object.
         rbind (put_slice (enc_u16 key_len) object) (\<lambda>object.
         Inr (Some object)))))"

definition Allocator_raw ::
    "(usize \<Rightarrow> usize) \<Rightarrow> u32 \<Rightarrow> u64 \<Rightarrow> byte_string \<Rightarrow> u64 \<Rightarrow> bytes_mut option rust" where
  "Allocator_raw grant tenant table key val_len =
     rbind (Allocator_alloc grant tenant table (word_of_nat (length key)) val_len) (\<lambda>r.
       case r of
         Some object \<Rightarrow> rbind (put_slice key object) (\<lambda>object. Inr (Some object))
       | None \<Rightarrow> Inr None)"

definition Allocator_object ::
    "(usize \<Rightarrow> usize) \<Rightarrow> u32 \<Rightarrow> u64 \<Rightarrow> byte_string \<Rightarrow> byte_string
      \<Rightarrow> (byte_string \<times> byte_string) option rust" where
  "Allocator_object grant tenant table key val =
     rbind (Allocator_alloc grant tenant table (word_of_nat (length key)) (word_of_nat (length val))) (\<lambda>r.
       case r of
         Some object \<Rightarrow>
           rbind (put_slice key object) (\<lambda>object.
           rbind (put_slice val object) (\<lambda>object.
             let object = bm_data object
             in rbind (slice_range object meta_size (meta_size + length key)) (\<lambda>k.
                Inr (Some (k, object)))))
       | None \<Rightarrow> Inr None)"

definition Allocator_resolve :: "byte_string \<Rightarrow> (byte_string \<times> byte_string) option rust" where
  "Allocator_resolve object =
     (case (get_opt object (meta_size - 2), get_opt object (meta_size - 1)) of
        (Some lb, Some rb) \<Rightarrow>
          let key_len = (ucast lb :: u16) + ucast rb * 256
          in rbind (slice_range object meta_size (meta_size + unat key_len)) (\<lambda>k.
             rbind (slice_range object (meta_size + unat key_len) (length object)) (\<lambda>v.
             Inr (Some (k, v))))
      | _ \<Rightarrow> Inr None)"

section \<open>Buffers of an extension\<close>

record read_buf =
  rb_inner :: byte_string

definition ReadBuf_new :: "byte_string \<Rightarrow> read_buf" where
  "ReadBuf_new buffer = \<lparr>rb_inner = buffer\<rparr>"

definition ReadBuf_len :: "read_buf \<Rightarrow> usize" where
  "ReadBuf_len b = length (rb_inner b)"

definition ReadBuf_is_empty :: "read_buf \<Rightarrow> bool" where
  "ReadBuf_is_empty b = (rb_inner b = [])"

definition ReadBuf_read :: "read_buf \<Rightarrow> byte_string" where
  "ReadBuf_read b = rb_inner b"

record write_buf =
  wb_table :: u64
  wb_inner :: bytes_mut
  wb_meta_len :: usize

definition WriteBuf_new :: "u64 \<Rightarrow> bytes_mut \<Rightarrow> write_buf" where
  "WriteBuf_new table buffer =
     \<lparr>wb_table = table, wb_inner = buffer, wb_meta_len = length (bm_data buffer)\<rparr>"

definition WriteBuf_len :: "write_buf \<Rightarrow> usize" where
  "WriteBuf_len b = usize_sub (length (bm_data (wb_inner b))) (wb_meta_len b)"

definition WriteBuf_capacity :: "write_buf \<Rightarrow> usize" where
  "WriteBuf_capacity b = usize_sub (bm_cap (wb_inner b)) (wb_meta_len b)"

definition write_slice :: "byte_string \<Rightarrow> write_buf \<Rightarrow> write_buf rust" where
  "write_slice data b = rbind (put_slice data (wb_inner b)) (\<lambda>i. Inr (b\<lparr>wb_inner := i\<rparr>))"

definition write_u8 :: "u8 \<Rightarrow> write_buf \<Rightarrow> write_buf rust" where
  "write_u8 data b = rbind (put_slice [data] (wb_inner b)) (\<lambda>i. Inr (b\<lparr>wb_inner := i\<rparr>))"

definition write_u16 :: "u16 \<Rightarrow> bool \<Rightarrow> write_buf \<Rightarrow> write_buf rust" where
  "write_u16 data le b =
     rbind (put_slice (if le then enc_u16 data else rev (enc_u16 data)) (wb_inner b))
       (\<lambda>i. Inr (b\<lparr>wb_inner := i\<rparr>))"

definition write_u32 :: "u32 \<Rightarrow> bool \<Rightarrow> write_buf \<Rightarrow> write_buf rust" where
  "write_u32 data le b =
     rbind (put_slice (if le then enc_u32 data else rev (enc_u32 data)) (wb_inner b))
       (\<lambda>i. Inr (b\<lparr>wb_inner := i\<rparr>))"

definition write_u64 :: "u64 \<Rightarrow> bool \<Rightarrow> write_buf \<Rightarrow> write_buf rust" where
  "write_u64 data le b =
     rbind (put_slice (if le then enc_u64 data else rev (enc_u64 data)) (wb_inner b))
       (\<lambda>i. Inr (b\<lparr>wb_inner := i\<rparr>))"

definition WriteBuf_freeze :: "write_buf \<Rightarrow> u64 \<times> byte_string" where
  "WriteBuf_freeze b = (wb_table b, bm_data (wb_inner b))"

record multi_read_buf =
  mr_inner :: "byte_string list"
  mr_index :: usize
  mr_panic :: bool

definition MultiReadBuf_new :: "byte_string list \<Rightarrow> multi_read_buf" where
  "MultiReadBuf_new list = \<lparr>mr_inner = list, mr_index = 0, mr_panic = False\<rparr>"

definition MultiReadBuf_num :: "multi_read_buf \<Rightarrow> usize" where
  "MultiReadBuf_num b = length (mr_inner b)"

definition MultiReadBuf_len :: "multi_read_buf \<Rightarrow> usize rust" where
  "MultiReadBuf_len b =
     (if mr_panic b then Inl ExplicitPanic
      else rbind (index_slice (mr_inner b) (mr_index b)) (\<lambda>x. Inr (length x)))"

definition MultiReadBuf_next :: "multi_read_buf \<Rightarrow> bool \<times> multi_read_buf" where
  "MultiReadBuf_next b =
     (if usize_sub (length (mr_inner b)) 1 \<le> mr_index b
      then (False, b\<lparr>mr_panic := True\<rparr>)
      else (True, b\<lparr>mr_index := mr_index b + 1\<rparr>))"

definition MultiReadBuf_prev :: "multi_read_buf \<Rightarrow> bool \<times> multi_read_buf" where
  "MultiReadBuf_prev b =
     (if mr_index b = 0 then (False, b\<lparr>mr_panic := True\<rparr>)
      else (True, b\<lparr>mr_index := mr_index b - 1\<rparr>))"

definition MultiReadBuf_read :: "multi_read_buf \<Rightarrow> byte_string rust" where
  "MultiReadBuf_read b =
     (if mr_panic b then Inl ExplicitPanic else index_slice (mr_inner b) (mr_index b))"

section \<open>Lemmas\<close>

named_theorems alloc_simps

lemma put_slice_fits [alloc_simps]:
  "length (bm_data b) + length src \<le> bm_cap b \<Longrightarrow>
   put_slice src b = Inr (b\<lparr>bm_data := bm_data b @ src\<rparr>)"
  by (simp add: put_slice_def)

lemma put_slice_Inr [alloc_simps]:
  "put_slice src b = Inr b' \<longleftrightarrow>
   length (bm_data b) + length src \<le> bm_cap b \<and> b' = b\<lparr>bm_data := bm_data b @ src\<rparr>"
  by (auto simp: put_slice_def)

lemma meta_size_value [simp]: "meta_size = 14"
  by (simp add: meta_size_def)

text \<open>The metadata that heads every object.\<close>

definition obj_meta :: "u32 \<Rightarrow> u64 \<Rightarrow> u16 \<Rightarrow> byte_string" where
  "obj_meta tenant table key_len = enc_u32 tenant @ enc_u64 table @ enc_u16 key_len"

lemma length_obj_meta [simp]: "length (obj_meta tn tb kl) = 14"
  by (simp add: obj_meta_def)

lemma Allocator_alloc_ok:
  assumes "14 \<le> grant (as_usize (14 + unat kl + unat vl))"
  shows "Allocator_alloc grant tn tb kl vl =
    Inr (Some \<lparr>bm_data = obj_meta tn tb kl, bm_cap = grant (as_usize (14 + unat kl + unat vl))\<rparr>)"
  using assms
  by (simp add: Allocator_alloc_def Let_def with_capacity_def put_slice_def obj_meta_def)

lemma Allocator_alloc_panic:
  assumes "\<not> 14 \<le> grant (as_usize (14 + unat kl + unat vl))"
  shows "Allocator_alloc grant tn tb kl vl = Inl CapacityExceeded"
  using assms
  by (auto simp: Allocator_alloc_def Let_def with_capacity_def put_slice_def)

lemma u16_of_two_bytes:
  "(ucast (word_of_nat (unat kl mod 256) :: u8) :: u16)
     + ucast (word_of_nat (unat kl div 256 mod 256) :: u8) * 256 = kl"
proof -
  have kl: "unat (kl :: u16) < 65536" by (rule unat_u16_lt)
  have a: "unat (word_of_nat (unat kl mod 256) :: u8) = unat kl mod 256"
    by (simp add: unat_word_of_byte)
  have b: "unat (word_of_nat (unat kl div 256) :: u8) = unat kl div 256"
    using kl by (simp add: unat_word_of_byte)
  have "unat ((ucast (word_of_nat (unat kl mod 256) :: u8) :: u16)
     + ucast (word_of_nat (unat kl div 256 mod 256) :: u8) * 256) = unat kl"
    using kl by (simp add: unat_word_ariths a b)
  then show ?thesis by (simp add: word_unat_eq_iff)
qed

lemma enc_u16_bytes:
  "enc_u16 kl = [word_of_nat (unat kl mod 256), word_of_nat (unat kl div 256 mod 256)]"
  by (simp add: enc_u16_def numeral_2_eq_2)

lemma obj_meta_key_len:
  "get_opt (obj_meta tn tb kl @ xs) 12 = Some (word_of_nat (unat kl mod 256))"
  "get_opt (obj_meta tn tb kl @ xs) 13 = Some (word_of_nat (unat kl div 256 mod 256))"
  by (simp_all add: get_opt_def obj_meta_def nth_append enc_u16_bytes)

lemma slice_range_middle:
  "length xs = a \<Longrightarrow> b = a + length ys \<Longrightarrow> slice_range (xs @ ys @ zs) a b = Inr ys"
  by (simp add: slice_range_def)

lemma slice_range_suffix:
  "length xs = a \<Longrightarrow> b = a + length ys \<Longrightarrow> slice_range (xs @ ys) a b = Inr ys"
  by (simp add: slice_range_def)

lemma resolve_object:
  assumes "length key = unat kl"
  shows "Allocator_resolve (obj_meta tn tb kl @ key @ val) = Inr (Some (key, val))"
proof -
  have k: "slice_range (obj_meta tn tb kl @ key @ val) 14 (14 + unat kl) = Inr key"
    using assms by (intro slice_range_middle) simp_all
  have v: "slice_range ((obj_meta tn tb kl @ key) @ val) (14 + unat kl)
             (14 + (unat kl + length val)) = Inr val"
    using assms by (intro slice_range_suffix) simp_all
  show ?thesis
    using k v assms
    by (simp add: Allocator_resolve_def obj_meta_key_len u16_of_two_bytes Let_def)
qed

text \<open>What \<open>Allocator::object\<close> builds when the key length fits in 16 bits.\<close>

lemma object_layout:
  assumes "\<And>n. n \<le> grant n" and "length key < 2 ^ 16" and "length val < 2 ^ 63"
  shows "Allocator_object grant tn tb key val =
    Inr (Some (key, obj_meta tn tb (word_of_nat (length key)) @ key @ val))"
proof -
  have size: "as_usize (14 + unat (word_of_nat (length key) :: u16)
      + unat (word_of_nat (length val) :: u64)) = 14 + length key + length val"
    using assms(2,3) by simp
  have grant: "14 + length key + length val \<le> grant (14 + length key + length val)"
    by (rule assms(1))
  then have a: "Allocator_alloc grant tn tb (word_of_nat (length key)) (word_of_nat (length val)) =
    Inr (Some \<lparr>bm_data = obj_meta tn tb (word_of_nat (length key)),
               bm_cap = grant (14 + length key + length val)\<rparr>)"
    using Allocator_alloc_ok [of grant "word_of_nat (length key)" "word_of_nat (length val)" tn tb]
    by (simp only: size)
  show ?thesis
    using grant by (simp add: Allocator_object_def a put_slice_def Let_def slice_range_middle)
qed

lemma raw_layout:
  assumes "\<And>n. n \<le> grant n" and "length key < 2 ^ 16" and "unat vl < 2 ^ 63"
  shows "\<exists>cap. Allocator_raw grant tn tb key vl =
    Inr (Some \<lparr>bm_data = obj_meta tn tb (word_of_nat (length key)) @ key, bm_cap = cap\<rparr>)
    \<and> 14 + length key + unat vl \<le> cap"
proof -
  have size: "as_usize (14 + unat (word_of_nat (length key) :: u16) + unat vl)
      = 14 + length key + unat vl"
    using assms(2,3) by simp
  have grant: "14 + length key + unat vl \<le> grant (14 + length key + unat vl)"
    by (rule assms(1))
  then have a: "Allocator_alloc grant tn tb (word_of_nat (length key)) vl =
    Inr (Some \<lparr>bm_data = obj_meta tn tb (word_of_nat (length key)),
               bm_cap = grant (14 + length key + unat vl)\<rparr>)"
    using Allocator_alloc_ok [of grant "word_of_nat (length key)" vl tn tb] by (simp only: size)
  show ?thesis
    using grant by (simp add: Allocator_raw_def a put_slice_def)
qed

end
