(* ===== verification/Table.thy ===== *)
theory Table
  imports Alloc
begin

unbundle bit_operations_syntax

text \<open>
  The hash tables and their transactions: \<open>Table\<close>, \<open>Version\<close> and \<open>Entry\<close> of
  \<open>db/src/table.rs\<close>, \<open>TX\<close> of \<open>db/src/tx.rs\<close> and \<open>Record\<close> of \<open>db/src/wireformat.rs\<close>.

  A table is an array of 128 hash maps, each under its own lock, and the highest version ever
  deleted. The operations are modelled one at a time, as the bucket locks make them. The
  transaction \<open>validate\<close> keeps its array of lock guards, its three phases (write
  locks, read locks with version checks, installation of the write set) and its assertions; it
  returns the table it leaves behind together with its outcome, since a panic in the middle of
  the installation does not undo the writes already made. The time stamp it reads from \<open>rdtsc\<close>
  is an argument.
\<close>

section \<open>Records and transactions\<close>

datatype op_type = SandstormRead | SandstormWrite | InvalidRecord

record rec =
  r_optype :: op_type
  r_version :: u64
  r_key :: byte_string
  r_object :: byte_string

definition Record_new :: "op_type \<Rightarrow> u64 \<Rightarrow> byte_string \<Rightarrow> byte_string \<Rightarrow> rec" where
  "Record_new optype version key obj =
     \<lparr>r_optype = optype, r_version = version, r_key = key, r_object = obj\<rparr>"

record tx =
  tx_reads :: "rec list"
  tx_writes :: "rec list"

definition TX_new :: tx where
  "TX_new = \<lparr>tx_reads = [], tx_writes = []\<rparr>"

definition TX_sort :: "tx \<Rightarrow> tx" where
  "TX_sort t = t\<lparr>tx_reads := sort_key r_key (tx_reads t), tx_writes := sort_key r_key (tx_writes t)\<rparr>"

definition record_get :: "rec \<Rightarrow> tx \<Rightarrow> tx" where
  "record_get r t = t\<lparr>tx_reads := tx_reads t @ [r]\<rparr>"

definition record_put :: "rec \<Rightarrow> tx \<Rightarrow> tx" where
  "record_put r t = t\<lparr>tx_writes := tx_writes t @ [r]\<rparr>"

section \<open>Tables\<close>

record entry =
  e_version :: u64
  e_value :: byte_string

type_synonym bucket_map = "byte_string \<rightharpoonup> entry"

definition N_BUCKETS :: usize where "N_BUCKETS = 128"

record table =
  maps :: "bucket_map list"
  max_deleted_version :: u64

definition Table_default :: table where
  "Table_default = \<lparr>maps = replicate N_BUCKETS Map.empty, max_deleted_version = 0\<rparr>"

definition bucket :: "byte_string \<Rightarrow> usize rust" where
  "bucket key = rbind (index_slice key 0) (\<lambda>b. Inr (unat b AND (N_BUCKETS - 1)))"

definition Table_get :: "table \<Rightarrow> byte_string \<Rightarrow> entry option rust" where
  "Table_get t key = rbind (bucket key) (\<lambda>b. Inr ((maps t ! b) key))"

definition Table_put :: "table \<Rightarrow> byte_string \<Rightarrow> byte_string \<Rightarrow> (table \<times> entry option) rust" where
  "Table_put t key val =
     rbind (bucket key) (\<lambda>b.
       let m = maps t ! b in
       case m key of
         Some e \<Rightarrow>
           let e' = e\<lparr>e_value := val, e_version := e_version e + 1\<rparr>
           in Inr (t\<lparr>maps := (maps t)[b := m(key \<mapsto> e')]\<rparr>, Some e')
       | None \<Rightarrow>
           let version = max_deleted_version t + 1
           in Inr (t\<lparr>maps := (maps t)[b := m(key \<mapsto> \<lparr>e_version = version, e_value = val\<rparr>)]\<rparr>, m key))"

definition Table_delete :: "table \<Rightarrow> byte_string \<Rightarrow> table rust" where
  "Table_delete t key =
     rbind (bucket key) (\<lambda>b.
       let m = maps t ! b in
       case m key of
         Some e \<Rightarrow>
           Inr (t\<lparr>maps := (maps t)[b := m(key := None)],
                  max_deleted_version := max (max_deleted_version t) (e_version e)\<rparr>)
       | None \<Rightarrow> Inr t)"

definition Table_version :: u64 where
  "Table_version = 0"

section \<open>Validation of a transaction\<close>

datatype lock = Unlocked | ReadLocked | WriteLocked

datatype decision = COMMIT | ABORT

fun acquire_write_locks :: "lock list \<Rightarrow> rec list \<Rightarrow> lock list rust" where
  "acquire_write_locks locks [] = Inr locks"
| "acquire_write_locks locks (r # rs) =
     rbind (bucket (r_key r)) (\<lambda>b.
       case locks ! b of
         Unlocked \<Rightarrow> acquire_write_locks (locks[b := WriteLocked]) rs
       | WriteLocked \<Rightarrow> acquire_write_locks locks rs
       | ReadLocked \<Rightarrow> Inl AssertionFailed)"

definition record_version_ok :: "bucket_map \<Rightarrow> rec \<Rightarrow> decision" where
  "record_version_ok m r =
     (case m (r_key r) of
        Some e \<Rightarrow> (if r_version r = e_version e then COMMIT else ABORT)
      | None \<Rightarrow> ABORT)"

fun validate_reads :: "table \<Rightarrow> lock list \<Rightarrow> rec list \<Rightarrow> (lock list \<times> decision) rust" where
  "validate_reads t locks [] = Inr (locks, COMMIT)"
| "validate_reads t locks (r # rs) =
     rbind (bucket (r_key r)) (\<lambda>b.
       let locks' = (case locks ! b of Unlocked \<Rightarrow> locks[b := ReadLocked] | _ \<Rightarrow> locks)
       in case record_version_ok (maps t ! b) r of
            COMMIT \<Rightarrow> validate_reads t locks' rs
          | ABORT \<Rightarrow> Inr (locks', ABORT))"

fun install_writes ::
    "(usize \<Rightarrow> usize) \<Rightarrow> u32 \<Rightarrow> u64 \<Rightarrow> u64 \<Rightarrow> lock list \<Rightarrow> table \<Rightarrow> rec list \<Rightarrow> table \<times> unit rust" where
  "install_writes grant tenant_id table_id version locks t [] = (t, Inr ())"
| "install_writes grant tenant_id table_id version locks t (r # rs) =
     (case bucket (r_key r) of
        Inl e \<Rightarrow> (t, Inl e)
      | Inr b \<Rightarrow>
          if locks ! b \<noteq> WriteLocked then (t, Inl AssertionFailed)
          else let m = maps t ! b in
            case m (r_key r) of
              None \<Rightarrow> (t, Inl AssertionFailed)
            | Some e \<Rightarrow>
                case rbind (Allocator_object grant tenant_id table_id (r_key r) (r_object r)) expect of
                  Inl err \<Rightarrow> (t, Inl err)
                | Inr obj \<Rightarrow>
                    install_writes grant tenant_id table_id version locks
                      (t\<lparr>maps := (maps t)[b := m(r_key r \<mapsto> e\<lparr>e_version := version, e_value := snd obj\<rparr>)]\<rparr>) rs)"

definition validate ::
    "(usize \<Rightarrow> usize) \<Rightarrow> u32 \<Rightarrow> u64 \<Rightarrow> u64 \<Rightarrow> table \<Rightarrow> tx \<Rightarrow> table \<times> tx \<times> decision rust" where
  "validate grant tenant_id table_id tsc t x0 =
     (let x = TX_sort x0;
          locks = replicate N_BUCKETS Unlocked
      in case acquire_write_locks locks (tx_writes x) of
           Inl e \<Rightarrow> (t, x, Inl e)
         | Inr locks \<Rightarrow>
             case validate_reads t locks (tx_reads x) of
               Inl e \<Rightarrow> (t, x, Inl e)
             | Inr (locks, ABORT) \<Rightarrow> (t, x, Inr ABORT)
             | Inr (locks, COMMIT) \<Rightarrow>
                 case install_writes grant tenant_id table_id tsc locks t (tx_writes x) of
                   (t', Inl e) \<Rightarrow> (t', x, Inl e)
                 | (t', Inr u) \<Rightarrow> (t', x, Inr COMMIT))"

section \<open>The contents of a table\<close>

text \<open>
  \<open>contents t\<close> is the finite map a table stands for: the abstract state its operations are
  specified on. \<open>table_wf\<close> says that every stored key lies in the bucket its first
  byte selects.
\<close>

definition bucket_of :: "byte_string \<Rightarrow> usize" where
  "bucket_of key = unat (hd key) mod 128"

definition contents :: "table \<Rightarrow> byte_string \<Rightarrow> entry option" where
  "contents t key = (if key = [] then None else (maps t ! bucket_of key) key)"

definition table_wf :: "table \<Rightarrow> bool" where
  "table_wf t \<longleftrightarrow> length (maps t) = 128 \<and>
     (\<forall>i < 128. \<forall>k e. (maps t ! i) k = Some e \<longrightarrow> k \<noteq> [] \<and> bucket_of k = i)"

named_theorems table_simps

lemma and_127_nat: "(n :: nat) AND 127 = n mod 128"
proof -
  have "n AND 127 = take_bit 7 n"
    by (simp add: take_bit_eq_mask mask_eq_exp_minus_1)
  then show ?thesis by (simp add: take_bit_eq_mod)
qed

lemma bucket_Cons [table_simps]: "bucket (b # bs) = Inr (unat b mod 128)"
  by (simp add: bucket_def index_slice_def N_BUCKETS_def and_127_nat)

lemma bucket_eq [table_simps]: "key \<noteq> [] \<Longrightarrow> bucket key = Inr (bucket_of key)"
  by (cases key) (simp_all add: table_simps bucket_of_def)

lemma bucket_Nil [table_simps]: "bucket [] = Inl IndexOutOfBounds"
  by (simp add: bucket_def index_slice_def)

lemma bucket_of_lt [simp]: "bucket_of key < 128"
  by (simp add: bucket_of_def)

lemma table_wf_length [simp]: "table_wf t \<Longrightarrow> length (maps t) = 128"
  by (simp add: table_wf_def)

lemma table_wf_default: "table_wf Table_default"
  by (simp add: table_wf_def Table_default_def N_BUCKETS_def)

lemma contents_default [simp]: "contents Table_default = Map.empty"
  by (rule ext) (simp add: contents_def Table_default_def N_BUCKETS_def bucket_of_def)

text \<open>Storing an entry under its key, in the bucket of that key: what \<open>put\<close>, \<open>delete\<close> and the
  installation of a write set all do.\<close>

definition store :: "table \<Rightarrow> byte_string \<Rightarrow> entry option \<Rightarrow> table" where
  "store t key e =
     t\<lparr>maps := (maps t)[bucket_of key := (maps t ! bucket_of key)(key := e)]\<rparr>"

lemma store_wf: "table_wf t \<Longrightarrow> key \<noteq> [] \<Longrightarrow> table_wf (store t key e)"
  unfolding table_wf_def store_def
  by (fastforce simp: nth_list_update split: if_splits)

lemma contents_store:
  "table_wf t \<Longrightarrow> key \<noteq> [] \<Longrightarrow> contents (store t key e) = (contents t)(key := e)"
  by (rule ext) (auto simp: contents_def store_def nth_list_update)

lemma max_deleted_store [simp]: "max_deleted_version (store t key e) = max_deleted_version t"
  by (simp add: store_def)

lemma Table_get_contents [table_simps]: "key \<noteq> [] \<Longrightarrow> Table_get t key = Inr (contents t key)"
  by (simp add: Table_get_def contents_def table_simps)

lemma entry_update [simp]:
  "e\<lparr>e_version := v, e_value := w\<rparr> = \<lparr>e_version = v, e_value = w\<rparr>"
  "e\<lparr>e_value := w, e_version := v\<rparr> = \<lparr>e_version = v, e_value = w\<rparr>"
  by (cases e, simp)+

lemma Table_put_store [table_simps]:
  assumes "key \<noteq> []"
  shows "Table_put t key val =
    (case contents t key of
       Some e \<Rightarrow>
         let e' = \<lparr>e_version = e_version e + 1, e_value = val\<rparr> in Inr (store t key (Some e'), Some e')
     | None \<Rightarrow>
         Inr (store t key (Some \<lparr>e_version = max_deleted_version t + 1, e_value = val\<rparr>), None))"
  using assms
  by (auto simp: Table_put_def table_simps contents_def store_def Let_def split: option.splits)

lemma Table_delete_store [table_simps]:
  assumes "key \<noteq> []"
  shows "Table_delete t key =
    (case contents t key of
       Some e \<Rightarrow> Inr ((store t key None)\<lparr>max_deleted_version :=
                        max (max_deleted_version t) (e_version e)\<rparr>)
     | None \<Rightarrow> Inr t)"
  using assms
  by (auto simp: Table_delete_def table_simps contents_def store_def Let_def split: option.splits)

lemma contents_max_deleted [simp]: "contents (t\<lparr>max_deleted_version := v\<rparr>) = contents t"
  by (rule ext) (simp add: contents_def)

lemma table_wf_max_deleted [simp]: "table_wf (t\<lparr>max_deleted_version := v\<rparr>) = table_wf t"
  by (simp add: table_wf_def)

lemma empty_key_panics [table_simps]:
  "Table_get t [] = Inl IndexOutOfBounds"
  "Table_put t [] val = Inl IndexOutOfBounds"
  "Table_delete t [] = Inl IndexOutOfBounds"
  by (simp_all add: Table_get_def Table_put_def Table_delete_def table_simps)

section \<open>Lemmas on validation\<close>

subsection \<open>Locks\<close>

lemma acquire_write_locks_ok:
  assumes "\<forall>r \<in> set rs. r_key r \<noteq> []" and "\<forall>b < 128. locks ! b \<noteq> ReadLocked"
    and "length locks = 128"
  shows "\<exists>locks'. acquire_write_locks locks rs = Inr locks' \<and> length locks' = 128 \<and>
    (\<forall>r \<in> set rs. locks' ! bucket_of (r_key r) = WriteLocked) \<and>
    (\<forall>b < 128. locks ! b = WriteLocked \<longrightarrow> locks' ! b = WriteLocked)"
  using assms
proof (induction rs arbitrary: locks)
  case Nil
  then show ?case by simp
next
  case (Cons r rs)
  let ?b = "bucket_of (r_key r)"
  have b: "bucket (r_key r) = Inr ?b"
    using Cons.prems by (simp add: table_simps)
  let ?l = "case locks ! ?b of Unlocked \<Rightarrow> locks[?b := WriteLocked] | _ \<Rightarrow> locks"
  have step: "acquire_write_locks locks (r # rs) = acquire_write_locks ?l rs"
    using Cons.prems b by (cases "locks ! ?b") simp_all
  have l: "\<forall>b < 128. ?l ! b \<noteq> ReadLocked" "length ?l = 128" "?l ! ?b = WriteLocked"
    "\<forall>b < 128. locks ! b = WriteLocked \<longrightarrow> ?l ! b = WriteLocked"
    using Cons.prems by (auto simp: nth_list_update split: lock.splits)
  obtain locks' where "acquire_write_locks ?l rs = Inr locks'" "length locks' = 128"
    "\<forall>r \<in> set rs. locks' ! bucket_of (r_key r) = WriteLocked"
    "\<forall>b < 128. ?l ! b = WriteLocked \<longrightarrow> locks' ! b = WriteLocked"
    using Cons.IH [OF _ l(1,2)] Cons.prems(1) by auto
  with l step show ?case by auto
qed

lemma validate_reads_locks:
  assumes "validate_reads t locks rs = Inr (locks', d)" and "locks ! b = WriteLocked"
  shows "locks' ! b = WriteLocked"
  using assms
proof (induction rs arbitrary: locks)
  case Nil
  then show ?case by simp
next
  case (Cons r rs)
  obtain c where c: "bucket (r_key r) = Inr c"
    using Cons.prems(1) by auto
  let ?l = "case locks ! c of Unlocked \<Rightarrow> locks[c := ReadLocked] | _ \<Rightarrow> locks"
  have "?l ! b = WriteLocked"
    using Cons.prems(2) by (cases "b = c") (auto split: lock.splits)
  with Cons c show ?case
    by (auto simp: Let_def split: decision.splits)
qed

subsection \<open>Reads\<close>

definition read_current :: "table \<Rightarrow> rec \<Rightarrow> bool" where
  "read_current t r \<longleftrightarrow> (\<exists>e. contents t (r_key r) = Some e \<and> r_version r = e_version e)"

lemma record_version_ok_iff:
  "r_key r \<noteq> [] \<Longrightarrow>
   record_version_ok (maps t ! bucket_of (r_key r)) r = (if read_current t r then COMMIT else ABORT)"
  by (auto simp: record_version_ok_def read_current_def contents_def split: option.splits)

lemma validate_reads_decision:
  assumes "\<forall>r \<in> set rs. r_key r \<noteq> []"
  shows "\<exists>locks'. validate_reads t locks rs =
    Inr (locks', if \<forall>r \<in> set rs. read_current t r then COMMIT else ABORT)"
  using assms
proof (induction rs arbitrary: locks)
  case Nil
  then show ?case by simp
next
  case (Cons r rs)
  then show ?case
    by (cases "read_current t r") (simp_all add: table_simps record_version_ok_iff Let_def)
qed

lemma validate_reads_all_current:
  "validate_reads t locks rs = Inr (locks', COMMIT) \<Longrightarrow> \<forall>r \<in> set rs. read_current t r"
proof (induction rs arbitrary: locks)
  case Nil
  then show ?case by simp
next
  case (Cons r rs)
  then have k: "r_key r \<noteq> []" by (auto simp: table_simps)
  with Cons show ?case
    by (cases "read_current t r") (auto simp: table_simps record_version_ok_iff Let_def)
qed

subsection \<open>Writes\<close>

definition last_write :: "rec list \<Rightarrow> byte_string \<Rightarrow> byte_string option" where
  "last_write rs k =
     (case filter (\<lambda>r. r_key r = k) rs of [] \<Rightarrow> None | ws \<Rightarrow> Some (r_object (last ws)))"

definition install_spec ::
    "u32 \<Rightarrow> u64 \<Rightarrow> u64 \<Rightarrow> rec list \<Rightarrow> (byte_string \<Rightarrow> entry option) \<Rightarrow> byte_string \<Rightarrow> entry option"
where
  "install_spec tn tb ts rs c k =
     (case last_write rs k of
        Some obj \<Rightarrow> Some \<lparr>e_version = ts,
          e_value = obj_meta tn tb (word_of_nat (length k)) @ k @ obj\<rparr>
      | None \<Rightarrow> c k)"

lemma last_write_sort: "last_write (sort_key r_key rs) = last_write rs"
  by (rule ext) (simp add: last_write_def sort_key_stable)

lemma last_write_Cons:
  "last_write (r # rs) k =
     (case last_write rs k of Some obj \<Rightarrow> Some obj
      | None \<Rightarrow> if r_key r = k then Some (r_object r) else None)"
  by (auto simp: last_write_def split: list.splits)

lemma install_spec_Cons:
  "install_spec tn tb ts (r # rs) c =
     install_spec tn tb ts rs (c(r_key r \<mapsto> \<lparr>e_version = ts,
       e_value = obj_meta tn tb (word_of_nat (length (r_key r))) @ r_key r @ r_object r\<rparr>))"
  by (rule ext) (auto simp: install_spec_def last_write_Cons split: option.splits)

text \<open>A write that the heap can store: its key is not empty and fits in 16 bits.\<close>

definition writable :: "rec \<Rightarrow> bool" where
  "writable r \<longleftrightarrow> r_key r \<noteq> [] \<and> length (r_key r) < 2 ^ 16 \<and> length (r_object r) < 2 ^ 63"

lemma install_writes_step:
  assumes "\<And>n. n \<le> grant n" and "writable r" and "contents t (r_key r) = Some e"
    and "locks ! bucket_of (r_key r) = WriteLocked"
  shows "install_writes grant tn tb ts locks t (r # rs) =
    install_writes grant tn tb ts locks (store t (r_key r) (Some \<lparr>e_version = ts,
      e_value = obj_meta tn tb (word_of_nat (length (r_key r))) @ r_key r @ r_object r\<rparr>)) rs"
proof -
  have k: "r_key r \<noteq> []" "length (r_key r) < 2 ^ 16" "length (r_object r) < 2 ^ 63"
    using assms(2) by (auto simp: writable_def)
  have "Allocator_object grant tn tb (r_key r) (r_object r) = Inr (Some (r_key r,
      obj_meta tn tb (word_of_nat (length (r_key r))) @ r_key r @ r_object r))"
    using assms(1) k(2,3) by (rule object_layout)
  then show ?thesis
    using assms(3,4) k(1) by (simp add: table_simps contents_def store_def Let_def)
qed

lemma install_writes_missing:
  "r_key r \<noteq> [] \<Longrightarrow> contents t (r_key r) = None \<Longrightarrow> locks ! bucket_of (r_key r) = WriteLocked \<Longrightarrow>
   install_writes grant tn tb ts locks t (r # rs) = (t, Inl AssertionFailed)"
  by (simp add: table_simps contents_def Let_def)

lemma install_writes_ok:
  assumes "\<And>n. n \<le> grant n" and "table_wf t"
    and "\<forall>r \<in> set rs. writable r" and "\<forall>r \<in> set rs. r_key r \<in> dom (contents t)"
    and "\<forall>r \<in> set rs. locks ! bucket_of (r_key r) = WriteLocked"
  shows "\<exists>t'. install_writes grant tn tb ts locks t rs = (t', Inr ()) \<and> table_wf t' \<and>
    max_deleted_version t' = max_deleted_version t \<and>
    contents t' = install_spec tn tb ts rs (contents t)"
  using assms(2-)
proof (induction rs arbitrary: t)
  case Nil
  then show ?case by (auto simp: install_spec_def last_write_def)
next
  case (Cons r rs)
  let ?k = "r_key r"
  let ?obj = "obj_meta tn tb (word_of_nat (length ?k)) @ ?k @ r_object r"
  let ?t = "store t ?k (Some \<lparr>e_version = ts, e_value = ?obj\<rparr>)"
  from Cons.prems have k: "?k \<noteq> []" by (auto simp: writable_def)
  from Cons.prems obtain e where e: "contents t ?k = Some e" by auto
  have step: "install_writes grant tn tb ts locks t (r # rs) = install_writes grant tn tb ts locks ?t rs"
    using Cons.prems by (intro install_writes_step [OF assms(1) _ e]) auto
  have wf: "table_wf ?t" using Cons.prems k by (simp add: store_wf)
  have c: "contents ?t = (contents t)(?k \<mapsto> \<lparr>e_version = ts, e_value = ?obj\<rparr>)"
    using Cons.prems k by (simp add: contents_store)
  have "\<forall>r \<in> set rs. r_key r \<in> dom (contents ?t)"
    using Cons.prems by (auto simp: c)
  then obtain t' where "install_writes grant tn tb ts locks ?t rs = (t', Inr ())" "table_wf t'"
    "max_deleted_version t' = max_deleted_version ?t"
    "contents t' = install_spec tn tb ts rs (contents ?t)"
    using Cons.IH [OF wf] Cons.prems by auto
  then show ?case using step by (auto simp: install_spec_Cons c)
qed

text \<open>Whatever the outcome, an installation only replaces entries that exist, and stamps them.\<close>

lemma install_writes_frame:
  assumes "install_writes grant tn tb ts locks t rs = (t', res)" and "table_wf t"
  shows "table_wf t' \<and> max_deleted_version t' = max_deleted_version t \<and>
    (\<forall>k. contents t' k = contents t k \<or>
       (\<exists>e e'. contents t k = Some e \<and> contents t' k = Some e' \<and> e_version e' = ts))"
  using assms
proof (induction rs arbitrary: t)
  case Nil
  then show ?case by simp
next
  case (Cons r rs)
  show ?case
  proof (cases "t' = t")
    case True
    then show ?thesis using Cons.prems by simp
  next
    case False
    then obtain e obj where k: "r_key r \<noteq> []" and e: "contents t (r_key r) = Some e"
      and rest: "install_writes grant tn tb ts locks
        (store t (r_key r) (Some (e\<lparr>e_version := ts, e_value := snd obj\<rparr>))) rs = (t', res)"
      using Cons.prems(1)
      by (cases "r_key r = []")
         (auto simp: table_simps contents_def store_def Let_def
               split: if_splits option.splits sum.splits)
    let ?t = "store t (r_key r) (Some (e\<lparr>e_version := ts, e_value := snd obj\<rparr>))"
    have "table_wf ?t" using Cons.prems(2) k by (rule store_wf)
    note IH = Cons.IH [OF rest this]
    show ?thesis
    proof (intro conjI allI)
      show "table_wf t'" "max_deleted_version t' = max_deleted_version t" using IH by simp_all
      show "contents t' k = contents t k \<or> (\<exists>e e'. contents t k = Some e \<and>
          contents t' k = Some e' \<and> e_version e' = ts)" for k
        using conjunct2 [OF conjunct2 [OF IH], THEN spec, of k] Cons.prems(2) k e
        by (cases "k = r_key r") (auto simp: contents_store)
    qed
  qed
qed

declare install_writes.simps(2) [simp del]

end
