(* ===== verification/Occ.thy ===== *)
theory Occ
  imports Table
begin

text \<open>
  What the tables promise to the code that uses them.

  \<^item> The locale \<open>versioned_store\<close> is the contract that optimistic concurrency control needs of a
    store: every change of an entry moves its version strictly upwards, a deletion leaves its
    version in the floor, and a new entry starts above the floor. Its client lemma says
    that a key found again with the same version was not touched in between, over any sequence
    of operations.
  \<^item> \<open>table_op\<close> and \<open>table_step\<close> are the operations of \<open>Table\<close> as one transition function
    (an operation that panics before changing anything leaves the table as it is; a validation
    that panics leaves the writes it made). The interpretation \<open>tbl\<close> discharges the
    contract for them.
  \<^item> The properties of \<open>validate\<close> are stated on \<open>contents\<close>: commit installs exactly the last
    write of every key, abort changes nothing, and a commit implies that everything the
    transaction read is still what it was.
\<close>

section \<open>The contract of a versioned store\<close>

fun adm_run :: "('o \<Rightarrow> nat \<Rightarrow> bool) \<Rightarrow> ('o \<Rightarrow> nat \<Rightarrow> nat) \<Rightarrow> nat \<Rightarrow> 'o list \<Rightarrow> bool" where
  "adm_run adm up B [] = True"
| "adm_run adm up B (op # ops) = (adm op B \<and> adm_run adm up (up op B) ops)"

locale versioned_store =
  fixes look :: "'t \<Rightarrow> 'k \<Rightarrow> 'e option"
    and ver :: "'e \<Rightarrow> nat"
    and floor :: "'t \<Rightarrow> nat"
    and bounded :: "'t \<Rightarrow> nat \<Rightarrow> bool"
    and step :: "'o \<Rightarrow> 't \<Rightarrow> 't"
    and admissible :: "'o \<Rightarrow> nat \<Rightarrow> bool"
    and raise_bound :: "'o \<Rightarrow> nat \<Rightarrow> nat"
  assumes bounded_step:
      "bounded t B \<Longrightarrow> admissible op B \<Longrightarrow> bounded (step op t) (raise_bound op B)"
    and floor_step: "bounded t B \<Longrightarrow> admissible op B \<Longrightarrow> floor t \<le> floor (step op t)"
    and change_raises:
      "bounded t B \<Longrightarrow> admissible op B \<Longrightarrow> look t k = Some e \<Longrightarrow> look (step op t) k = Some e' \<Longrightarrow>
       e' \<noteq> e \<Longrightarrow> ver e < ver e'"
    and removal_floor:
      "bounded t B \<Longrightarrow> admissible op B \<Longrightarrow> look t k = Some e \<Longrightarrow> look (step op t) k = None \<Longrightarrow>
       ver e \<le> floor (step op t)"
    and birth_above_floor:
      "bounded t B \<Longrightarrow> admissible op B \<Longrightarrow> look t k = None \<Longrightarrow> look (step op t) k = Some e' \<Longrightarrow>
       floor t < ver e'"
begin

text \<open>The version \<open>v\<close> of key \<open>k\<close> is in the past: what is there now, if anything, is newer.\<close>

definition passed :: "'t \<Rightarrow> 'k \<Rightarrow> nat \<Rightarrow> bool" where
  "passed t k v \<longleftrightarrow> (case look t k of Some e \<Rightarrow> v < ver e | None \<Rightarrow> v \<le> floor t)"

lemma passed_step:
  assumes "bounded t B" "admissible op B" "passed t k v"
  shows "passed (step op t) k v"
proof (cases "look t k")
  case None
  with assms floor_step [OF assms(1,2)] birth_above_floor [OF assms(1,2) None] show ?thesis
    by (fastforce simp: passed_def split: option.splits)
next
  case (Some e)
  with assms(3) have v: "v < ver e" by (simp add: passed_def)
  show ?thesis
  proof (cases "look (step op t) k")
    case None
    with removal_floor [OF assms(1,2) Some] v show ?thesis by (simp add: passed_def)
  next
    case (Some e')
    with change_raises [OF assms(1,2) \<open>look t k = Some e\<close> Some] v show ?thesis
      by (cases "e' = e") (auto simp: passed_def)
  qed
qed

lemma passed_run:
  "bounded t B \<Longrightarrow> adm_run admissible raise_bound B ops \<Longrightarrow> passed t k v \<Longrightarrow> passed (fold step ops t) k v"
proof (induction ops arbitrary: t B)
  case Nil
  then show ?case by simp
next
  case (Cons op ops)
  then show ?case
    using passed_step [of t B op k v] bounded_step [of t B op] by auto
qed

lemma change_passes:
  assumes "bounded t B" "admissible op B" "look t k = Some e" "look (step op t) k \<noteq> Some e"
  shows "passed (step op t) k (ver e)"
  using assms change_raises [OF assms(1-3)] removal_floor [OF assms(1-3)]
  by (cases "look (step op t) k") (auto simp: passed_def)

text \<open>The client's lemma: same version at the end, untouched at every point on the way.\<close>

lemma same_version_untouched:
  assumes "bounded t B" and "adm_run admissible raise_bound B (ops1 @ ops2)"
    and "look t k = Some e" and "look (fold step (ops1 @ ops2) t) k = Some e'" and "ver e' = ver e"
  shows "look (fold step ops1 t) k = Some e"
  using assms
proof (induction ops1 arbitrary: t B)
  case Nil
  then show ?case by simp
next
  case (Cons op ops)
  have b: "bounded (step op t) (raise_bound op B)"
    using Cons.prems bounded_step by simp
  show ?case
  proof (cases "look (step op t) k = Some e")
    case True
    with Cons b show ?thesis by simp
  next
    case False
    then have "passed (step op t) k (ver e)"
      using Cons.prems change_passes [of t B op k e] by simp
    then have "passed (fold step (ops @ ops2) (step op t)) k (ver e)"
      using Cons.prems by (intro passed_run [OF b]) simp_all
    then show ?thesis using Cons.prems by (simp add: passed_def)
  qed
qed

lemma version_never_decreases:
  assumes "bounded t B" and "adm_run admissible raise_bound B ops"
    and "look t k = Some e" and "look (fold step ops t) k = Some e'"
  shows "ver e \<le> ver e'"
  using assms
proof (induction ops arbitrary: t B)
  case Nil
  then show ?case by simp
next
  case (Cons op ops)
  have b: "bounded (step op t) (raise_bound op B)"
    using Cons.prems bounded_step by simp
  show ?case
  proof (cases "look (step op t) k = Some e")
    case True
    with Cons b show ?thesis by simp
  next
    case False
    then have "passed (fold step ops (step op t)) k (ver e)"
      using Cons.prems b passed_run change_passes [of t B op k e] by simp
    then show ?thesis using Cons.prems by (simp add: passed_def)
  qed
qed

end

section \<open>The operations of a table\<close>

datatype table_op = Put byte_string byte_string | Delete byte_string | Commit u32 u64 tx u64

fun table_step :: "(usize \<Rightarrow> usize) \<Rightarrow> table_op \<Rightarrow> table \<Rightarrow> table" where
  "table_step grant (Put k v) t = (case Table_put t k v of Inr (t', _) \<Rightarrow> t' | Inl _ \<Rightarrow> t)"
| "table_step grant (Delete k) t = (case Table_delete t k of Inr t' \<Rightarrow> t' | Inl _ \<Rightarrow> t)"
| "table_step grant (Commit tn tb x ts) t = fst (validate grant tn tb ts t x)"

text \<open>
  \<open>versions_upto t B\<close>: the table is well formed and no version in it, stored or deleted, exceeds
  \<open>B\<close>. A put uses at most one version more; a commit stamps its writes with the clock, which is
  admissible when the clock is ahead of every version in the table.
\<close>

definition versions_upto :: "table \<Rightarrow> nat \<Rightarrow> bool" where
  "versions_upto t B \<longleftrightarrow> table_wf t \<and> unat (max_deleted_version t) \<le> B \<and>
     (\<forall>k e. contents t k = Some e \<longrightarrow> unat (e_version e) \<le> B)"

fun op_admissible :: "table_op \<Rightarrow> nat \<Rightarrow> bool" where
  "op_admissible (Put k v) B = (B + 1 < 2 ^ 64)"
| "op_admissible (Delete k) B = True"
| "op_admissible (Commit tn tb x ts) B = (B < unat ts)"

fun op_bound :: "table_op \<Rightarrow> nat \<Rightarrow> nat" where
  "op_bound (Put k v) B = B + 1"
| "op_bound (Delete k) B = B"
| "op_bound (Commit tn tb x ts) B = unat ts"

lemma unat_plus_1_u64: "unat (v :: u64) + 1 < 2 ^ 64 \<Longrightarrow> unat (v + 1) = unat v + 1"
  by (simp add: unat_word_ariths)

lemma unat_max: "unat (max a b) = max (unat a) (unat b)"
  by (simp add: max_def word_le_nat_alt)

lemma validate_install:
  assumes "acquire_write_locks (replicate N_BUCKETS Unlocked) (tx_writes (TX_sort x)) = Inr locks"
    and "validate_reads t locks (tx_reads (TX_sort x)) = Inr (locks', COMMIT)"
    and "install_writes grant tn tb ts locks' t (tx_writes (TX_sort x)) = (t', r)"
  shows "validate grant tn tb ts t x = (t', TX_sort x, case r of Inl e \<Rightarrow> Inl e | Inr u \<Rightarrow> Inr COMMIT)"
  using assms by (cases r) (simp_all add: validate_def Let_def)

lemma validate_frame:
  assumes "validate grant tn tb ts t x = (t', x', res)" and "table_wf t"
  shows "table_wf t' \<and> max_deleted_version t' = max_deleted_version t \<and>
    (\<forall>k. contents t' k = contents t k \<or>
       (\<exists>e e'. contents t k = Some e \<and> contents t' k = Some e' \<and> e_version e' = ts))"
proof -
  have "t' = t \<or> (\<exists>locks res'. install_writes grant tn tb ts locks t (tx_writes (TX_sort x)) = (t', res'))"
  proof (cases "acquire_write_locks (replicate N_BUCKETS Unlocked) (tx_writes (TX_sort x))")
    case (Inl e)
    then show ?thesis using assms(1) by (simp add: validate_def)
  next
    case (Inr locks)
    note l = this
    show ?thesis
    proof (cases "validate_reads t locks (tx_reads (TX_sort x))")
      case (Inl e)
      then show ?thesis using l assms(1) by (simp add: validate_def)
    next
      case (Inr ld)
      obtain l' d where ld: "ld = (l', d)" by fastforce
      obtain t'' r where i: "install_writes grant tn tb ts l' t (tx_writes (TX_sort x)) = (t'', r)"
        by fastforce
      show ?thesis
      proof (cases d)
        case COMMIT
        then have "t' = t''" using validate_install [OF l _ i] Inr ld assms(1) by simp
        with i show ?thesis by blast
      next
        case ABORT
        then show ?thesis using l Inr ld assms(1) by (simp add: validate_def Let_def)
      qed
    qed
  qed
  then show ?thesis
  proof
    assume "t' = t"
    then show ?thesis using assms(2) by simp
  next
    assume "\<exists>locks res'. install_writes grant tn tb ts locks t (tx_writes (TX_sort x)) = (t', res')"
    then obtain locks res' where
      "install_writes grant tn tb ts locks t (tx_writes (TX_sort x)) = (t', res')" by blast
    then show ?thesis using assms(2) by (rule install_writes_frame)
  qed
qed

text \<open>
  One description of what all three kinds of step do to a key: nothing, or a newer
  version (above the floor if the key was absent), or a removal recorded in the floor.
\<close>

definition key_advances :: "table \<Rightarrow> table \<Rightarrow> nat \<Rightarrow> byte_string \<Rightarrow> bool" where
  "key_advances t t' B k \<longleftrightarrow> contents t' k = contents t k \<or>
     (case (contents t k, contents t' k) of
        (Some e, Some e') \<Rightarrow> unat (e_version e) < unat (e_version e') \<and> unat (e_version e') \<le> B
      | (None, Some e') \<Rightarrow> unat (max_deleted_version t) < unat (e_version e') \<and> unat (e_version e') \<le> B
      | (Some e, None) \<Rightarrow> unat (e_version e) \<le> unat (max_deleted_version t')
      | (None, None) \<Rightarrow> True)"

definition table_advances :: "table \<Rightarrow> table \<Rightarrow> nat \<Rightarrow> bool" where
  "table_advances t t' B \<longleftrightarrow> table_wf t' \<and> (\<forall>k. key_advances t t' B k) \<and>
     unat (max_deleted_version t) \<le> unat (max_deleted_version t') \<and>
     unat (max_deleted_version t') \<le> B"

lemma put_advances:
  assumes "versions_upto t B" "B + 1 < 2 ^ 64"
  shows "table_advances t (table_step grant (Put key val) t) (B + 1)"
proof (cases "key = []")
  case True
  then show ?thesis
    using assms by (simp add: table_simps table_advances_def key_advances_def versions_upto_def)
next
  case False
  have wf: "table_wf t" and md: "unat (max_deleted_version t) \<le> B"
    and ve: "\<And>k e. contents t k = Some e \<Longrightarrow> unat (e_version e) \<le> B"
    using assms(1) by (auto simp: versions_upto_def)
  show ?thesis
  proof (cases "contents t key")
    case None
    then show ?thesis
      using False wf md assms(2)
      by (simp add: table_simps store_wf contents_store unat_plus_1_u64 table_advances_def key_advances_def)
  next
    case (Some e)
    then show ?thesis
      using False wf md assms(2) ve [OF Some]
      by (simp add: table_simps store_wf contents_store unat_plus_1_u64 Let_def table_advances_def
          key_advances_def)
  qed
qed

lemma delete_advances:
  assumes "versions_upto t B"
  shows "table_advances t (table_step grant (Delete key) t) B"
proof (cases "key = [] \<or> contents t key = None")
  case True
  then show ?thesis
    using assms
    by (cases "key = []") (simp_all add: table_simps table_advances_def key_advances_def versions_upto_def)
next
  case False
  then obtain e where "contents t key = Some e" "key \<noteq> []" by auto
  then show ?thesis
    using assms
    by (simp add: table_simps store_wf contents_store unat_max table_advances_def key_advances_def
        versions_upto_def)
qed

lemma commit_advances:
  assumes "versions_upto t B" "B < unat ts"
  shows "table_advances t (table_step grant (Commit tn tb x ts) t) (unat ts)"
proof -
  obtain t' x' res where v: "validate grant tn tb ts t x = (t', x', res)"
    by (cases "validate grant tn tb ts t x") auto
  have wf: "table_wf t" and md: "unat (max_deleted_version t) \<le> B"
    and ve: "\<And>k e. contents t k = Some e \<Longrightarrow> unat (e_version e) \<le> B"
    using assms(1) by (auto simp: versions_upto_def)
  note f = validate_frame [OF v wf]
  have "key_advances t t' (unat ts) k" for k
  proof -
    have "contents t' k = contents t k \<or>
       (\<exists>e e'. contents t k = Some e \<and> contents t' k = Some e' \<and> e_version e' = ts)"
      using f by blast
    then show ?thesis
      using ve [of k] assms(2) by (force simp: key_advances_def)
  qed
  then show ?thesis using v f md assms(2) by (simp add: table_advances_def)
qed

lemma table_step_advances:
  "versions_upto t B \<Longrightarrow> op_admissible op B \<Longrightarrow>
   table_advances t (table_step grant op t) (op_bound op B)"
proof (cases op)
  case (Put k v)
  then show "versions_upto t B \<Longrightarrow> op_admissible op B \<Longrightarrow> ?thesis"
    using put_advances by simp
next
  case (Delete k)
  then show "versions_upto t B \<Longrightarrow> op_admissible op B \<Longrightarrow> ?thesis"
    using delete_advances by simp
next
  case (Commit tn tb x ts)
  then show "versions_upto t B \<Longrightarrow> op_admissible op B \<Longrightarrow> ?thesis"
    using commit_advances by simp
qed

lemma op_bound_ge: "op_admissible op B \<Longrightarrow> B \<le> op_bound op B"
  by (cases op) auto

interpretation tbl: versioned_store contents "\<lambda>e. unat (e_version e)"
  "\<lambda>t. unat (max_deleted_version t)" versions_upto "table_step grant" op_admissible op_bound
  for grant
proof unfold_locales
  fix t B op k e e'
  assume b: "versions_upto t B" and a: "op_admissible op B"
  note adv = table_step_advances [OF b a, of grant]
  have key: "key_advances t (table_step grant op t) (op_bound op B) k" for k
    using adv by (simp add: table_advances_def)
  show "unat (max_deleted_version t) \<le> unat (max_deleted_version (table_step grant op t))"
    using adv by (simp add: table_advances_def)
  show "versions_upto (table_step grant op t) (op_bound op B)"
    unfolding versions_upto_def
  proof (intro conjI allI impI)
    show "table_wf (table_step grant op t)"
      "unat (max_deleted_version (table_step grant op t)) \<le> op_bound op B"
      using adv by (simp_all add: table_advances_def)
    fix k e
    assume "contents (table_step grant op t) k = Some e"
    then show "unat (e_version e) \<le> op_bound op B"
      using key [of k] b op_bound_ge [OF a]
      by (fastforce simp: key_advances_def versions_upto_def split: option.splits)
  qed
  show "contents t k = Some e \<Longrightarrow> contents (table_step grant op t) k = Some e' \<Longrightarrow> e' \<noteq> e \<Longrightarrow>
      unat (e_version e) < unat (e_version e')"
    using key [of k] by (simp add: key_advances_def)
  show "contents t k = Some e \<Longrightarrow> contents (table_step grant op t) k = None \<Longrightarrow>
      unat (e_version e) \<le> unat (max_deleted_version (table_step grant op t))"
    using key [of k] by (simp add: key_advances_def)
  show "contents t k = None \<Longrightarrow> contents (table_step grant op t) k = Some e' \<Longrightarrow>
      unat (max_deleted_version t) < unat (e_version e')"
    using key [of k] by (simp add: key_advances_def)
qed

section \<open>Validation\<close>

text \<open>A transaction whose records have usable keys and whose writes are to existing keys.\<close>

definition tx_valid :: "table \<Rightarrow> tx \<Rightarrow> bool" where
  "tx_valid t x \<longleftrightarrow> (\<forall>r \<in> set (tx_reads x). r_key r \<noteq> []) \<and>
     (\<forall>r \<in> set (tx_writes x). writable r \<and> r_key r \<in> dom (contents t))"

definition reads_current :: "table \<Rightarrow> tx \<Rightarrow> bool" where
  "reads_current t x \<longleftrightarrow> (\<forall>r \<in> set (tx_reads x). read_current t r)"

lemma TX_sort_sets [simp]:
  "set (tx_reads (TX_sort x)) = set (tx_reads x)" "set (tx_writes (TX_sort x)) = set (tx_writes x)"
  by (simp_all add: TX_sort_def)

lemma validate_locks:
  assumes "\<forall>r \<in> set (tx_writes x). r_key r \<noteq> []"
  obtains locks where
    "acquire_write_locks (replicate N_BUCKETS Unlocked) (tx_writes (TX_sort x)) = Inr locks"
    "\<forall>r \<in> set (tx_writes x). locks ! bucket_of (r_key r) = WriteLocked"
  using acquire_write_locks_ok [of "tx_writes (TX_sort x)" "replicate N_BUCKETS Unlocked"] assms
  by (auto simp: N_BUCKETS_def)

lemma validate_abort:
  assumes "\<forall>r \<in> set (tx_writes x). r_key r \<noteq> []" "\<forall>r \<in> set (tx_reads x). r_key r \<noteq> []"
    and "\<not> reads_current t x"
  shows "validate grant tn tb ts t x = (t, TX_sort x, Inr ABORT)"
proof -
  obtain locks where l:
    "acquire_write_locks (replicate N_BUCKETS Unlocked) (tx_writes (TX_sort x)) = Inr locks"
    using assms(1) by (rule validate_locks)
  obtain locks' where "validate_reads t locks (tx_reads (TX_sort x)) = Inr (locks', ABORT)"
    using validate_reads_decision [of "tx_reads (TX_sort x)" t locks] assms(2,3)
    by (auto simp: reads_current_def split: if_splits)
  with l show ?thesis by (simp add: validate_def Let_def)
qed

lemma validate_reads_commit:
  assumes "\<forall>r \<in> set (tx_reads x). r_key r \<noteq> []" "reads_current t x"
    and "\<forall>r \<in> set (tx_writes x). locks ! bucket_of (r_key r) = WriteLocked"
  obtains locks' where "validate_reads t locks (tx_reads (TX_sort x)) = Inr (locks', COMMIT)"
    "\<forall>r \<in> set (tx_writes x). locks' ! bucket_of (r_key r) = WriteLocked"
proof -
  obtain locks' where "validate_reads t locks (tx_reads (TX_sort x)) = Inr (locks', COMMIT)"
    using validate_reads_decision [of "tx_reads (TX_sort x)" t locks] assms(1,2)
    by (auto simp: reads_current_def)
  with that validate_reads_locks assms(3) show thesis by blast
qed

lemma validate_commit:
  assumes "\<And>n. n \<le> grant n" "table_wf t" "tx_valid t x" "reads_current t x"
  shows "\<exists>t'. validate grant tn tb ts t x = (t', TX_sort x, Inr COMMIT) \<and> table_wf t' \<and>
    max_deleted_version t' = max_deleted_version t \<and>
    contents t' = install_spec tn tb ts (tx_writes x) (contents t)"
proof -
  have keys: "\<forall>r \<in> set (tx_writes x). r_key r \<noteq> []" "\<forall>r \<in> set (tx_reads x). r_key r \<noteq> []"
    using assms(3) by (auto simp: tx_valid_def writable_def)
  obtain locks where l:
    "acquire_write_locks (replicate N_BUCKETS Unlocked) (tx_writes (TX_sort x)) = Inr locks"
    "\<forall>r \<in> set (tx_writes x). locks ! bucket_of (r_key r) = WriteLocked"
    using keys(1) by (rule validate_locks)
  obtain locks' where l': "validate_reads t locks (tx_reads (TX_sort x)) = Inr (locks', COMMIT)"
    "\<forall>r \<in> set (tx_writes x). locks' ! bucket_of (r_key r) = WriteLocked"
    using keys(2) assms(4) l(2) by (rule validate_reads_commit)
  obtain t' where t': "install_writes grant tn tb ts locks' t (tx_writes (TX_sort x)) = (t', Inr ())"
    "table_wf t'" "max_deleted_version t' = max_deleted_version t"
    "contents t' = install_spec tn tb ts (tx_writes (TX_sort x)) (contents t)"
    using install_writes_ok [OF assms(1,2), of "tx_writes (TX_sort x)" locks' tn tb ts]
      assms(3) l'(2) by (auto simp: tx_valid_def)
  have "install_spec tn tb ts (tx_writes (TX_sort x)) = install_spec tn tb ts (tx_writes x)"
    by (rule ext)+ (simp add: install_spec_def TX_sort_def last_write_sort)
  with t' validate_install [OF l(1) l'(1) t'(1)] show ?thesis by simp
qed

lemma commit_read_current:
  assumes "r \<in> set (tx_reads x)"
    and "snd (snd (validate grant tn tb ts t x)) = Inr COMMIT"
  shows "read_current t r"
proof -
  obtain locks where l:
    "acquire_write_locks (replicate N_BUCKETS Unlocked) (tx_writes (TX_sort x)) = Inr locks"
    using assms(2)
    by (cases "acquire_write_locks (replicate N_BUCKETS Unlocked) (tx_writes (TX_sort x))")
       (simp_all add: validate_def Let_def)
  obtain l' d where v: "validate_reads t locks (tx_reads (TX_sort x)) = Inr (l', d)"
    using assms(2) l
    by (cases "validate_reads t locks (tx_reads (TX_sort x))") (auto simp: validate_def Let_def)
  have "d = COMMIT"
    using assms(2) l v by (cases d) (auto simp: validate_def Let_def)
  with v show ?thesis
    using validate_reads_all_current [of t locks "tx_reads (TX_sort x)" l'] assms(1) by simp
qed

lemma install_two_missing:
  assumes "\<And>n. n \<le> grant n" and "table_wf t" and "writable r1" and "writable r2"
    and "contents t (r_key r1) = Some e" and "contents t (r_key r2) = None"
    and "locks ! bucket_of (r_key r1) = WriteLocked" and "locks ! bucket_of (r_key r2) = WriteLocked"
  shows "\<exists>t'. install_writes grant tn tb ts locks t [r1, r2] = (t', Inl AssertionFailed) \<and>
    contents t' (r_key r1) = Some \<lparr>e_version = ts,
      e_value = obj_meta tn tb (word_of_nat (length (r_key r1))) @ r_key r1 @ r_object r1\<rparr>"
proof -
  let ?k = "r_key r1" and ?obj = "obj_meta tn tb (word_of_nat (length (r_key r1))) @ r_key r1 @ r_object r1"
  let ?t = "store t ?k (Some \<lparr>e_version = ts, e_value = ?obj\<rparr>)"
  have k: "?k \<noteq> []" "r_key r2 \<noteq> []" "?k \<noteq> r_key r2"
    using assms(3-6) by (auto simp: writable_def)
  have c: "contents ?t = (contents t)(?k \<mapsto> \<lparr>e_version = ts, e_value = ?obj\<rparr>)"
    using assms(2) k(1) by (rule contents_store)
  have "install_writes grant tn tb ts locks t [r1, r2] = install_writes grant tn tb ts locks ?t [r2]"
    by (rule install_writes_step [OF assms(1,3,5,7)])
  also have "\<dots> = (?t, Inl AssertionFailed)"
    using assms(6,8) k c by (intro install_writes_missing) simp_all
  finally show ?thesis using c by simp
qed

section \<open>Properties\<close>


text \<open>C2: Optimistic concurrency control is sound. Take a table, a transaction that read some
  entries there, and any later sequence of puts, deletes and other commits (the 64-bit
  versions do not overflow and the clock of each commit is ahead of the versions in the table).
  If the transaction commits afterwards, then every key it read held that very entry at every
  point in between.\<close>

theorem commit_reads_unchanged:
  assumes "versions_upto t B" and "adm_run op_admissible op_bound B (ops1 @ ops2)"
    and "r \<in> set (tx_reads x)" and "r_key r \<noteq> []"
    and "contents t (r_key r) = Some e" and "r_version r = e_version e"
    and "snd (snd (validate grant tn tb ts (fold (table_step grant) (ops1 @ ops2) t) x)) = Inr COMMIT"
  shows "contents (fold (table_step grant) ops1 t) (r_key r) = Some e"
proof -
  let ?t = "fold (table_step grant) (ops1 @ ops2) t"
  have "read_current ?t r"
    using assms(3,7) by (rule commit_read_current)
  then obtain e' where "contents ?t (r_key r) = Some e'" "e_version e' = r_version r"
    by (auto simp: read_current_def)
  then show ?thesis
    using tbl.same_version_untouched [OF assms(1,2,5)] assms(6) by simp
qed

text \<open>C33: Versions are monotone per key: over any admissible sequence of operations, deletions
  and re-insertions included, the version of a key never goes down.\<close>

theorem version_monotone:
  assumes "versions_upto t B" and "adm_run op_admissible op_bound B ops"
    and "contents t k = Some e" and "contents (fold (table_step grant) ops t) k = Some e'"
  shows "e_version e \<le> e_version e'"
  using tbl.version_never_decreases [OF assms] by (simp add: word_le_nat_alt)

text \<open>C34: The bucketed table implements a finite map: \<open>get\<close> reads it, \<open>put\<close> replaces one entry
  (with the next version of an existing key, or one above the highest deleted version) and
  returns the updated entry only when the key existed, \<open>delete\<close> removes one key; all keep the
  table well formed.\<close>

theorem table_refines_map:
  assumes "table_wf t" and "key \<noteq> []"
  shows "Table_get t key = Inr (contents t key)
    \<and> (\<exists>t'. Table_put t key val =
            Inr (t', map_option (\<lambda>e. \<lparr>e_version = e_version e + 1, e_value = val\<rparr>) (contents t key))
        \<and> table_wf t' \<and> contents t' = (contents t)(key \<mapsto> \<lparr>e_version =
            (case contents t key of Some e \<Rightarrow> e_version e | None \<Rightarrow> max_deleted_version t) + 1,
            e_value = val\<rparr>))
    \<and> (\<exists>t'. Table_delete t key = Inr t' \<and> table_wf t' \<and> contents t' = (contents t)(key := None))"
  using assms
  by (cases "contents t key") (auto simp: table_simps store_wf contents_store Let_def fun_upd_idem)

text \<open>C35: A transaction that writes an existing key and then a missing one is not atomic: the
  validation panics on its assertion and leaves the first write installed.\<close>

theorem validate_missing_key_partial:
  assumes "\<And>n. n \<le> grant n" and "table_wf t"
    and "tx_reads x = []" and "tx_writes x = [r1, r2]"
    and "writable r1" and "writable r2" and "r_key r1 < r_key r2"
    and "contents t (r_key r1) = Some e" and "contents t (r_key r2) = None"
  shows "\<exists>t'. validate grant tn tb ts t x = (t', TX_sort x, Inl AssertionFailed) \<and>
    contents t' (r_key r1) = Some \<lparr>e_version = ts,
      e_value = obj_meta tn tb (word_of_nat (length (r_key r1))) @ r_key r1 @ r_object r1\<rparr>"
proof -
  have keys: "r_key r1 \<noteq> []" "r_key r2 \<noteq> []" using assms(5,6) by (auto simp: writable_def)
  have sorted: "tx_writes (TX_sort x) = [r1, r2]" "tx_reads (TX_sort x) = []"
    using assms(3,4,7) by (simp_all add: TX_sort_def)
  obtain locks where l:
    "acquire_write_locks (replicate N_BUCKETS Unlocked) (tx_writes (TX_sort x)) = Inr locks"
    "\<forall>r \<in> set (tx_writes x). locks ! bucket_of (r_key r) = WriteLocked"
    using validate_locks [of x] assms(4) keys by auto
  obtain t' where t': "install_writes grant tn tb ts locks t [r1, r2] = (t', Inl AssertionFailed)"
    "contents t' (r_key r1) = Some \<lparr>e_version = ts,
      e_value = obj_meta tn tb (word_of_nat (length (r_key r1))) @ r_key r1 @ r_object r1\<rparr>"
    using install_two_missing [OF assms(1,2,5,6,8,9), of locks tn tb ts] l(2) assms(4) by auto
  have "validate_reads t locks (tx_reads (TX_sort x)) = Inr (locks, COMMIT)"
    by (simp add: sorted)
  then show ?thesis
    using validate_install [OF l(1) _ t'(1) [folded sorted(1)]] t'(2) by auto
qed

section \<open>Witnesses\<close>

text \<open>A table with one object under key \<open>[1]\<close>, a transaction that read it and writes it, and a
  transaction that writes the missing key \<open>[2]\<close>.\<close>

definition wit_table :: table where
  "wit_table = store Table_default [1] (Some \<lparr>e_version = 1, e_value = [9]\<rparr>)"

definition wit_tx :: tx where
  "wit_tx = \<lparr>tx_reads = [Record_new SandstormRead 1 [1] [9]],
             tx_writes = [Record_new SandstormWrite 0 [1] [7]]\<rparr>"

definition wit_tx_missing :: tx where
  "wit_tx_missing = \<lparr>tx_reads = [], tx_writes = [Record_new SandstormWrite 0 [1] [7],
                      Record_new SandstormWrite 0 [2] [8]]\<rparr>"

lemma wit_table_wf: "table_wf wit_table"
  by (simp add: wit_table_def store_wf table_wf_default)

lemma wit_table_contents: "contents wit_table = [[1] \<mapsto> \<lparr>e_version = 1, e_value = [9]\<rparr>]"
  by (simp add: wit_table_def contents_store table_wf_default)

lemma wit_table_bound: "versions_upto wit_table 1"
  by (simp add: versions_upto_def wit_table_wf wit_table_contents)
     (simp add: wit_table_def Table_default_def)

lemma wit_tx_valid: "tx_valid wit_table wit_tx" "reads_current wit_table wit_tx"
  by (simp_all add: tx_valid_def wit_tx_def writable_def Record_new_def wit_table_contents
      reads_current_def read_current_def)


theorem commit_reads_unchanged_witness:
  "contents (fold (table_step (\<lambda>n. n)) [Put [3] [4]] wit_table) [1] =
     Some \<lparr>e_version = 1, e_value = [9]\<rparr>"
proof -
  let ?r = "Record_new SandstormRead 1 [1] [9]"
  let ?t = "fold (table_step (\<lambda>n. n)) ([Put [3] [4]] @ []) wit_table"
  have t: "?t = store wit_table [3] (Some \<lparr>e_version = 1, e_value = [4]\<rparr>)"
    by (simp add: table_simps wit_table_contents) (simp add: wit_table_def Table_default_def)
  have c: "contents ?t = (contents wit_table)([3] \<mapsto> \<lparr>e_version = 1, e_value = [4]\<rparr>)"
    unfolding t by (simp add: contents_store wit_table_wf)
  have "table_wf ?t" unfolding t by (simp add: store_wf wit_table_wf)
  moreover have "tx_valid ?t wit_tx" "reads_current ?t wit_tx"
    unfolding tx_valid_def reads_current_def read_current_def c
    by (simp_all add: wit_tx_def writable_def Record_new_def wit_table_contents)
  ultimately have "snd (snd (validate (\<lambda>n. n) 1 1 50 ?t wit_tx)) = Inr COMMIT"
    using validate_commit [of "\<lambda>n. n" ?t wit_tx 1 1 50] by auto
  then have "contents (fold (table_step (\<lambda>n. n)) [Put [3] [4]] wit_table) (r_key ?r) =
      Some \<lparr>e_version = 1, e_value = [9]\<rparr>"
    by (intro commit_reads_unchanged [OF wit_table_bound, of "[Put [3] [4]]" "[]" ?r wit_tx])
       (simp_all add: wit_tx_def Record_new_def wit_table_contents)
  then show ?thesis by (simp add: Record_new_def)
qed

theorem version_monotone_witness:
  "\<exists>e'. contents (fold (table_step (\<lambda>n. n)) [Delete [1], Put [1] [5]] wit_table) [1] = Some e' \<and>
     1 \<le> e_version e'"
proof -
  let ?ops = "[Delete [1], Put [1] [5]]"
  have "\<exists>e'. contents (fold (table_step (\<lambda>n. n)) ?ops wit_table) [1] = Some e'"
    by (simp add: table_simps wit_table_contents contents_store store_wf wit_table_wf)
  then obtain e' where e': "contents (fold (table_step (\<lambda>n. n)) ?ops wit_table) [1] = Some e'" by blast
  have "e_version \<lparr>e_version = 1, e_value = [9]\<rparr> \<le> e_version e'"
    by (rule version_monotone [OF wit_table_bound _ _ e']) (simp_all add: wit_table_contents)
  with e' show ?thesis by auto
qed

theorem table_refines_map_witness:
  "Table_get wit_table [1] = Inr (Some \<lparr>e_version = 1, e_value = [9]\<rparr>) \<and>
   (\<exists>t'. Table_put wit_table [1] [5] = Inr (t', Some \<lparr>e_version = 2, e_value = [5]\<rparr>))"
  using table_refines_map [OF wit_table_wf, of "[1]" "[5]"] by (auto simp: wit_table_contents)

theorem validate_missing_key_partial_witness:
  "\<exists>t'. validate (\<lambda>n. n) 1 1 50 wit_table wit_tx_missing =
     (t', TX_sort wit_tx_missing, Inl AssertionFailed) \<and>
     contents t' [1] = Some \<lparr>e_version = 50, e_value = obj_meta 1 1 1 @ [1] @ [7]\<rparr>"
proof -
  have "\<exists>t'. validate (\<lambda>n. n) 1 1 50 wit_table wit_tx_missing =
      (t', TX_sort wit_tx_missing, Inl AssertionFailed) \<and>
      contents t' (r_key (Record_new SandstormWrite 0 [1] [7])) = Some \<lparr>e_version = 50,
        e_value = obj_meta 1 1 (word_of_nat (length (r_key (Record_new SandstormWrite 0 [1] [7]))))
          @ r_key (Record_new SandstormWrite 0 [1] [7]) @ r_object (Record_new SandstormWrite 0 [1] [7])\<rparr>"
    by (rule validate_missing_key_partial [OF _ wit_table_wf, where ?r2.0 = "Record_new SandstormWrite 0 [2] [8]"])
       (simp_all add: wit_tx_missing_def writable_def Record_new_def wit_table_contents)
  then show ?thesis by (simp add: Record_new_def)
qed

end
