(* ===== verification/Tenant.thy ===== *)
theory Tenant
  imports Occ
begin

text \<open>
  Tenants: \<open>db/src/tenant.rs\<close>. The lock around the map of tables makes each method atomic, and no
  caller keeps a table handle across a call of \<open>create_table\<close>, so the map holds the tables themselves.
\<close>

record tenant =
  tn_id :: u32
  tn_tables :: "u64 \<rightharpoonup> table"

definition Tenant_new :: "u32 \<Rightarrow> tenant" where
  "Tenant_new i = \<lparr>tn_id = i, tn_tables = Map.empty\<rparr>"

definition create_table :: "u64 \<Rightarrow> tenant \<Rightarrow> tenant" where
  "create_table table_id tn = tn\<lparr>tn_tables := (tn_tables tn)(table_id \<mapsto> Table_default)\<rparr>"

definition get_table :: "tenant \<Rightarrow> u64 \<Rightarrow> table option" where
  "get_table tn table_id = tn_tables tn table_id"

text \<open>The effect on a tenant of an operation on one of its tables.\<close>

definition put_table :: "u64 \<Rightarrow> table \<Rightarrow> tenant \<Rightarrow> tenant" where
  "put_table table_id t tn = tn\<lparr>tn_tables := (tn_tables tn)(table_id \<mapsto> t)\<rparr>"

definition tenant_wf :: "tenant \<Rightarrow> bool" where
  "tenant_wf tn \<longleftrightarrow> (\<forall>i t. get_table tn i = Some t \<longrightarrow> table_wf t)"

lemma tenant_wf_new: "tenant_wf (Tenant_new i)"
  by (simp add: tenant_wf_def get_table_def Tenant_new_def)

lemma tenant_wf_create: "tenant_wf tn \<Longrightarrow> tenant_wf (create_table i tn)"
  by (simp add: tenant_wf_def get_table_def create_table_def table_wf_default)

lemma tenant_wf_put: "tenant_wf tn \<Longrightarrow> table_wf t \<Longrightarrow> tenant_wf (put_table i t tn)"
  by (simp add: tenant_wf_def get_table_def put_table_def)

lemma get_put_table [simp]:
  "get_table (put_table i t tn) j = (if j = i then Some t else get_table tn j)"
  "tn_id (put_table i t tn) = tn_id tn"
  by (simp_all add: get_table_def put_table_def)

lemma get_create_table [simp]:
  "get_table (create_table i tn) j = (if j = i then Some Table_default else get_table tn j)"
  by (simp add: get_table_def create_table_def)

text \<open>\<open>create_table\<close> is documented to do nothing when the table exists; it replaces the table by
  an empty one, so every key of that table is lost, and leaves the other tables alone.\<close>

lemma create_table_discards:
  "\<exists>t. contents t = Map.empty \<and> get_table (create_table i tn) = (get_table tn)(i \<mapsto> t)"
proof (intro exI conjI)
  show "contents Table_default = Map.empty" by simp
  show "get_table (create_table i tn) = (get_table tn)(i \<mapsto> Table_default)" by (rule ext) simp
qed

end
