(* ===== verification/Packet.thy ===== *)
theory Packet
  imports Prelude
begin

unbundle bit_operations_syntax

text \<open>
  Message buffers and packets: \<open>MBuf\<close> of \<open>net/framework/src/native/zcsi/mbuf.rs\<close> and \<open>Packet\<close> of
  \<open>net/framework/src/interface/packet.rs\<close> (built without the feature \<open>packet_offset\<close>), with the
  \<open>EndOffset\<close> facts of every header type the server uses.

  A buffer is the byte array at \<open>buf_addr\<close> together with the integer fields the code reads
  and writes, at their widths. Pointers into the buffer are indices. The type parameter
  \<open>T\<close> of \<open>Packet<T, _>\<close> is the field \<open>p_ty\<close>: the code only ever uses it to find the header's size,
  its end and the type of the header before it. Reading or writing outside the buffer, and
  overlapping \<open>copy_nonoverlapping\<close>, are the outcome \<open>UndefinedBehaviour\<close>.

  The abstraction \<open>frame\<close> is the data of the packet as a byte string; the lemmas state
  every operation on it.
\<close>

section \<open>Message buffers\<close>

record mbuf =
  m_buf :: byte_string
  m_data_off :: u16
  m_refcnt :: u16
  m_pkt_len :: u32
  m_data_len :: u16
  m_buf_len :: u16
  m_meta :: "usize list"

definition METADATA_SLOTS :: nat where "METADATA_SLOTS = 16"
definition HEADER_SLOT :: nat where "HEADER_SLOT = 0"
definition OFFSET_SLOT :: nat where "OFFSET_SLOT = HEADER_SLOT + 1"
definition STACK_DEPTH_SLOT :: nat where "STACK_DEPTH_SLOT = OFFSET_SLOT + 1"
definition STACK_OFFSET_SLOT :: nat where "STACK_OFFSET_SLOT = STACK_DEPTH_SLOT + 1"
definition STACK_SIZE :: nat where "STACK_SIZE = 0"

definition read_metadata_slot :: "mbuf \<Rightarrow> usize \<Rightarrow> usize rust" where
  "read_metadata_slot m slot =
     (if slot < length (m_meta m) then Inr (m_meta m ! slot) else Inl UndefinedBehaviour)"

definition write_metadata_slot :: "mbuf \<Rightarrow> usize \<Rightarrow> usize \<Rightarrow> mbuf rust" where
  "write_metadata_slot m slot v =
     (if slot < length (m_meta m) then Inr (m\<lparr>m_meta := (m_meta m)[slot := v]\<rparr>)
      else Inl UndefinedBehaviour)"

definition data_address :: "mbuf \<Rightarrow> usize \<Rightarrow> usize" where
  "data_address m offset = unat (m_data_off m) + offset"

definition pkt_headroom :: "mbuf \<Rightarrow> usize" where
  "pkt_headroom m = unat (m_data_off m)"

definition pkt_tailroom :: "mbuf \<Rightarrow> usize" where
  "pkt_tailroom m =
     usize_sub (usize_sub (unat (m_buf_len m)) (unat (m_data_off m))) (unat (m_data_len m))"

definition add_data_beginning :: "mbuf \<Rightarrow> usize \<Rightarrow> usize \<times> mbuf" where
  "add_data_beginning m len =
     (if pkt_headroom m < len then (0, m)
      else (len, m\<lparr>m_data_off := m_data_off m - word_of_nat len,
                   m_data_len := m_data_len m + word_of_nat len,
                   m_pkt_len := m_pkt_len m + word_of_nat len\<rparr>))"

definition add_data_end :: "mbuf \<Rightarrow> usize \<Rightarrow> usize \<times> mbuf" where
  "add_data_end m len =
     (if pkt_tailroom m < len then (0, m)
      else (len, m\<lparr>m_data_len := m_data_len m + word_of_nat len,
                   m_pkt_len := m_pkt_len m + word_of_nat len\<rparr>))"

definition remove_data_beginning :: "mbuf \<Rightarrow> usize \<Rightarrow> usize \<times> mbuf" where
  "remove_data_beginning m len =
     (if unat (m_data_len m) < len then (0, m)
      else (len, m\<lparr>m_data_off := m_data_off m + word_of_nat len,
                   m_data_len := m_data_len m - word_of_nat len,
                   m_pkt_len := m_pkt_len m - word_of_nat len\<rparr>))"

definition remove_data_end :: "mbuf \<Rightarrow> usize \<Rightarrow> usize \<times> mbuf" where
  "remove_data_end m len =
     (if unat (m_data_len m) < len then (0, m)
      else (len, m\<lparr>m_data_len := m_data_len m - word_of_nat len,
                   m_pkt_len := m_pkt_len m - word_of_nat len\<rparr>))"

definition reference :: "mbuf \<Rightarrow> mbuf" where
  "reference m = m\<lparr>m_refcnt := m_refcnt m + 1\<rparr>"

section \<open>Header types\<close>

datatype hdr_type =
    NullHeader | MacHeader | IpHeader | UdpHeader
  | GetRequest | GetResponse | PutRequest | PutResponse
  | InvokeRequest | InvokeResponse | InstallRequest | InstallResponse
  | MultiGetRequest | MultiGetResponse | CommitRequest | CommitResponse

fun previous_header :: "hdr_type \<Rightarrow> hdr_type" where
  "previous_header NullHeader = NullHeader"
| "previous_header MacHeader = NullHeader"
| "previous_header IpHeader = MacHeader"
| "previous_header UdpHeader = IpHeader"
| "previous_header _ = UdpHeader"

text \<open>The packed sizes: an RPC header starts with 14 common bytes.\<close>

fun hdr_size :: "hdr_type \<Rightarrow> usize" where
  "hdr_size NullHeader = 0"
| "hdr_size MacHeader = 14"
| "hdr_size IpHeader = 20"
| "hdr_size UdpHeader = 8"
| "hdr_size GetRequest = 14 + 8 + 2 + 1"
| "hdr_size GetResponse = 14 + 4"
| "hdr_size PutRequest = 14 + 8 + 2"
| "hdr_size PutResponse = 14"
| "hdr_size InvokeRequest = 14 + 4 + 4"
| "hdr_size InvokeResponse = 14"
| "hdr_size InstallRequest = 14 + 4 + 4"
| "hdr_size InstallResponse = 14"
| "hdr_size MultiGetRequest = 14 + 8 + 2 + 4"
| "hdr_size MultiGetResponse = 14 + 4"
| "hdr_size CommitRequest = 14 + 8 + 2 + 2"
| "hdr_size CommitResponse = 14"

text \<open>\<open>EndOffset::offset\<close>. The Ethernet header compares its \<open>etype\<close> field as it lies in
  memory; the IP header reads its length from the low four bits of its first byte.\<close>

definition mac_offset :: "byte_string \<Rightarrow> usize" where
  "mac_offset h =
     (let etype = dec_u16 (take 2 (drop 12 h))
      in if etype = 0x8100 then 18 else if etype = 0x9100 then 22 else 14)"

definition ip_ihl :: "byte_string \<Rightarrow> u8" where
  "ip_ihl h = ucast (dec_u32 (take 4 h) AND 0x0f)"

definition hdr_offset :: "hdr_type \<Rightarrow> byte_string \<Rightarrow> usize" where
  "hdr_offset ty h =
     (case ty of
        MacHeader \<Rightarrow> mac_offset h
      | IpHeader \<Rightarrow> unat (ip_ihl h) * 4
      | _ \<Rightarrow> hdr_size ty)"

section \<open>Packets\<close>

record packet =
  p_mbuf :: mbuf
  p_ty :: hdr_type
  p_header :: usize
  p_offset :: usize

datatype pkt_error = FailedAllocation | BadOffset usize | MetadataTooLarge

definition peek :: "usize \<Rightarrow> usize \<Rightarrow> byte_string \<Rightarrow> byte_string rust" where
  "peek i n buf = (if i + n \<le> length buf then Inr (take n (drop i buf)) else Inl UndefinedBehaviour)"

definition poke :: "usize \<Rightarrow> byte_string \<Rightarrow> packet \<Rightarrow> packet rust" where
  "poke i bs p =
     (if i + length bs \<le> length (m_buf (p_mbuf p))
      then Inr (p\<lparr>p_mbuf := (p_mbuf p)\<lparr>m_buf := write_at i bs (m_buf (p_mbuf p))\<rparr>\<rparr>)
      else Inl UndefinedBehaviour)"

text \<open>\<open>ptr::copy_nonoverlapping\<close> inside the buffer of a packet.\<close>

definition copy_within :: "usize \<Rightarrow> usize \<Rightarrow> usize \<Rightarrow> packet \<Rightarrow> packet rust" where
  "copy_within from dst n p =
     (if n \<noteq> 0 \<and> from < dst + n \<and> dst < from + n then Inl UndefinedBehaviour
      else rbind (peek from n (m_buf (p_mbuf p))) (\<lambda>bs. poke dst bs p))"

definition packet_from_mbuf_no_increment :: "hdr_type \<Rightarrow> mbuf \<Rightarrow> usize \<Rightarrow> packet" where
  "packet_from_mbuf_no_increment ty m offset =
     \<lparr>p_mbuf = m, p_ty = ty, p_header = data_address m offset, p_offset = offset\<rparr>"

definition packet_from_mbuf :: "hdr_type \<Rightarrow> mbuf \<Rightarrow> usize \<Rightarrow> packet" where
  "packet_from_mbuf ty m offset = packet_from_mbuf_no_increment ty (reference m) offset"

text \<open>The allocation itself is DPDK's: \<open>new_packet\<close> takes what \<open>mbuf_alloc\<close> returned.\<close>

definition new_packet :: "mbuf option \<Rightarrow> packet option" where
  "new_packet m =
     (case m of None \<Rightarrow> None | Some m \<Rightarrow> Some (packet_from_mbuf_no_increment NullHeader m 0))"

definition get_header :: "packet \<Rightarrow> byte_string rust" where
  "get_header p = peek (p_header p) (hdr_size (p_ty p)) (m_buf (p_mbuf p))"

definition payload_offset :: "packet \<Rightarrow> usize rust" where
  "payload_offset p = rbind (get_header p) (\<lambda>h. Inr (hdr_offset (p_ty p) h))"

definition payload_size :: "packet \<Rightarrow> usize rust" where
  "payload_size p =
     rbind (payload_offset p) (\<lambda>po.
       Inr (usize_sub (usize_sub (unat (m_data_len (p_mbuf p))) (p_offset p)) po))"

definition get_payload :: "packet \<Rightarrow> byte_string rust" where
  "get_payload p =
     rbind (payload_size p) (\<lambda>len.
     rbind (payload_offset p) (\<lambda>po.
       peek (p_header p + po) len (m_buf (p_mbuf p))))"

definition push_header :: "hdr_type \<Rightarrow> byte_string \<Rightarrow> packet \<Rightarrow> packet option rust" where
  "push_header ty2 hdr p =
     (let len = unat (m_data_len (p_mbuf p));
          sz = hdr_offset ty2 hdr;
          (added, m) = add_data_end (p_mbuf p) sz;
          p1 = p\<lparr>p_mbuf := m\<rparr>
      in rbind (payload_offset p1) (\<lambda>po.
         let offset = p_offset p + po;
             dst = p_header p + po
         in if sz \<le> added then
              rbind (if len \<noteq> offset
                     then copy_within dst (dst + sz) (usize_sub len offset) p1
                     else Inr p1) (\<lambda>p2.
              rbind (poke dst hdr p2) (\<lambda>p3.
                Inr (Some (p3\<lparr>p_ty := ty2, p_header := dst, p_offset := offset\<rparr>))))
            else Inr None))"

definition remove_from_payload_head :: "usize \<Rightarrow> packet \<Rightarrow> (packet \<times> (pkt_error + unit)) rust" where
  "remove_from_payload_head sz p =
     (let base = data_address (p_mbuf p) 0
      in rbind (copy_within base (base + sz) sz p) (\<lambda>p1.
         Inr (p1\<lparr>p_mbuf := snd (remove_data_beginning (p_mbuf p1) sz)\<rparr>, Inr ())))"

definition add_to_payload_head :: "usize \<Rightarrow> packet \<Rightarrow> (packet \<times> (pkt_error + unit)) rust" where
  "add_to_payload_head sz p =
     (let (added, m) = add_data_end (p_mbuf p) sz;
          p1 = p\<lparr>p_mbuf := m\<rparr>
      in if sz \<le> added then
           rbind (payload_offset p1) (\<lambda>po.
           let s = p_header p1 + po
           in rbind (copy_within s (s + sz) sz p1) (\<lambda>p2. Inr (p2, Inr ())))
         else Inr (p1, Inl FailedAllocation))"

definition remove_from_payload_tail :: "usize \<Rightarrow> packet \<Rightarrow> packet \<times> (pkt_error + unit)" where
  "remove_from_payload_tail sz p =
     (p\<lparr>p_mbuf := snd (remove_data_end (p_mbuf p) sz)\<rparr>, Inr ())"

definition add_to_payload_tail ::
    "usize \<Rightarrow> byte_string \<Rightarrow> packet \<Rightarrow> (packet \<times> (pkt_error + unit)) rust" where
  "add_to_payload_tail sz data p =
     rbind (get_payload p) (\<lambda>pay.
     let (added, m) = add_data_end (p_mbuf p) sz;
         p1 = p\<lparr>p_mbuf := m\<rparr>
     in if sz \<le> added then
          rbind (index_slice data 0) (\<lambda>_.
          rbind (peek 0 sz data) (\<lambda>bs.
          rbind (payload_offset p1) (\<lambda>po.
          rbind (poke (p_header p1 + po + length pay) bs p1) (\<lambda>p2.
          Inr (p2, Inr ())))))
        else Inr (p1, Inl FailedAllocation))"

definition write_header :: "byte_string \<Rightarrow> usize \<Rightarrow> packet \<Rightarrow> (packet \<times> (pkt_error + unit)) rust" where
  "write_header hdr offset p =
     rbind (payload_size p) (\<lambda>n.
       if n < offset then Inr (p, Inl (BadOffset offset))
       else rbind (payload_offset p) (\<lambda>po.
            rbind (poke (p_header p + po + offset) hdr p) (\<lambda>p1. Inr (p1, Inr ()))))"

definition parse_header :: "hdr_type \<Rightarrow> packet \<Rightarrow> packet rust" where
  "parse_header ty2 p =
     rbind (payload_size p) (\<lambda>n.
     rbind (rassert (hdr_size ty2 \<le> n) AssertionFailed) (\<lambda>_.
     rbind (payload_offset p) (\<lambda>po.
     Inr (p\<lparr>p_ty := ty2, p_header := p_header p + po, p_offset := p_offset p + po\<rparr>))))"

definition push_offset :: "usize \<Rightarrow> packet \<Rightarrow> (packet \<times> usize option) rust" where
  "push_offset offset p =
     rbind (read_metadata_slot (p_mbuf p) STACK_DEPTH_SLOT) (\<lambda>depth.
       if depth < STACK_SIZE then
         rbind (write_metadata_slot (p_mbuf p) STACK_DEPTH_SLOT (depth + 1)) (\<lambda>m.
         rbind (write_metadata_slot m (STACK_OFFSET_SLOT + depth) offset) (\<lambda>m.
         Inr (p\<lparr>p_mbuf := m\<rparr>, Some (depth + 1))))
       else Inr (p, None))"

definition pop_offset :: "packet \<Rightarrow> (packet \<times> usize option) rust" where
  "pop_offset p =
     rbind (read_metadata_slot (p_mbuf p) STACK_DEPTH_SLOT) (\<lambda>depth.
       if 0 < depth then
         rbind (write_metadata_slot (p_mbuf p) STACK_DEPTH_SLOT (depth - 1)) (\<lambda>m.
         rbind (read_metadata_slot m (STACK_OFFSET_SLOT + (depth - 1))) (\<lambda>v.
         Inr (p\<lparr>p_mbuf := m\<rparr>, Some v)))
       else Inr (p, None))"

definition parse_header_and_record :: "hdr_type \<Rightarrow> packet \<Rightarrow> packet rust" where
  "parse_header_and_record ty2 p =
     rbind (payload_size p) (\<lambda>n.
     rbind (rassert (hdr_size ty2 \<le> n) AssertionFailed) (\<lambda>_.
     rbind (payload_offset p) (\<lambda>po.
     rbind (push_offset po p) (\<lambda>(p1, r).
     rbind (expect r) (\<lambda>_.
     Inr (p1\<lparr>p_ty := ty2, p_header := p_header p1 + po, p_offset := p_offset p1 + po\<rparr>))))))"

definition save_header_and_offset :: "packet \<Rightarrow> packet rust" where
  "save_header_and_offset p =
     rbind (write_metadata_slot (p_mbuf p) HEADER_SLOT (p_header p)) (\<lambda>m.
     rbind (write_metadata_slot m OFFSET_SLOT (p_offset p)) (\<lambda>m.
     Inr (p\<lparr>p_mbuf := m\<rparr>)))"

definition replace_header :: "byte_string \<Rightarrow> packet \<Rightarrow> packet rust" where
  "replace_header hdr p = poke (p_header p) hdr p"

text \<open>A write through \<open>get_mut_header\<close>: the header is read, changed and stored where it was.\<close>

definition modify_header :: "(byte_string \<Rightarrow> byte_string) \<Rightarrow> packet \<Rightarrow> packet rust" where
  "modify_header f p = rbind (get_header p) (\<lambda>h. replace_header (f h) p)"

definition deparse_header :: "usize \<Rightarrow> packet \<Rightarrow> packet rust" where
  "deparse_header offset p =
     (if offset \<le> p_header p
      then Inr (p\<lparr>p_ty := previous_header (p_ty p), p_header := p_header p - offset,
                  p_offset := usize_sub (p_offset p) offset\<rparr>)
      else Inl UndefinedBehaviour)"

definition deparse_header_stack :: "packet \<Rightarrow> packet option rust" where
  "deparse_header_stack p =
     rbind (pop_offset p) (\<lambda>(p1, r).
       case r of
         None \<Rightarrow> Inr None
       | Some offset \<Rightarrow> rbind (deparse_header offset p1) (\<lambda>p2. Inr (Some p2)))"

definition packet_reset :: "packet \<Rightarrow> packet" where
  "packet_reset p =
     p\<lparr>p_ty := NullHeader, p_header := data_address (p_mbuf p) 0, p_offset := 0\<rparr>"

definition increase_payload_size :: "usize \<Rightarrow> packet \<Rightarrow> usize \<times> packet" where
  "increase_payload_size n p =
     (let (r, m) = add_data_end (p_mbuf p) n in (r, p\<lparr>p_mbuf := m\<rparr>))"

definition trim_payload_size :: "usize \<Rightarrow> packet \<Rightarrow> usize \<times> packet" where
  "trim_payload_size n p =
     (let (r, m) = remove_data_end (p_mbuf p) n in (r, p\<lparr>p_mbuf := m\<rparr>))"

definition copy_payload :: "packet \<Rightarrow> packet \<Rightarrow> (packet \<times> usize) rust" where
  "copy_payload other p =
     rbind (payload_size other) (\<lambda>copy_len.
     rbind (payload_offset p) (\<lambda>po.
     rbind (payload_offset other) (\<lambda>oo.
     rbind (payload_size p) (\<lambda>n.
     let (should_copy, p1) =
       (if n < copy_len
        then let (added, p1) = increase_payload_size (copy_len - n) p in (n + added, p1)
        else (copy_len, p))
     in rbind (peek (p_header other + oo) should_copy (m_buf (p_mbuf other))) (\<lambda>bs.
        rbind (poke (p_header p1 + po) bs p1) (\<lambda>p2.
        Inr (p2, should_copy)))))))"

section \<open>Well-formed packets and their frames\<close>

text \<open>
  \<open>wf_mbuf\<close>: the data lies inside the buffer and there is one segment. \<open>wf_packet\<close>: the header
  pointer agrees with the offset and the header ends inside the data.
\<close>

definition wf_mbuf :: "mbuf \<Rightarrow> bool" where
  "wf_mbuf m \<longleftrightarrow> length (m_buf m) = unat (m_buf_len m) \<and>
     unat (m_data_off m) + unat (m_data_len m) \<le> unat (m_buf_len m) \<and>
     unat (m_pkt_len m) = unat (m_data_len m)"

definition frame :: "packet \<Rightarrow> byte_string" where
  "frame p = take (unat (m_data_len (p_mbuf p))) (drop (unat (m_data_off (p_mbuf p))) (m_buf (p_mbuf p)))"

definition header_bytes :: "packet \<Rightarrow> byte_string" where
  "header_bytes p = take (hdr_size (p_ty p)) (drop (p_offset p) (frame p))"

definition header_end :: "packet \<Rightarrow> usize" where
  "header_end p = p_offset p + hdr_offset (p_ty p) (header_bytes p)"

definition payload :: "packet \<Rightarrow> byte_string" where
  "payload p = drop (header_end p) (frame p)"

definition tailroom :: "packet \<Rightarrow> usize" where
  "tailroom p = pkt_tailroom (p_mbuf p)"

definition wf_packet :: "packet \<Rightarrow> bool" where
  "wf_packet p \<longleftrightarrow> wf_mbuf (p_mbuf p) \<and>
     p_header p = unat (m_data_off (p_mbuf p)) + p_offset p \<and>
     p_offset p + hdr_size (p_ty p) \<le> length (frame p) \<and>
     header_end p \<le> length (frame p)"

named_theorems packet_simps

lemma length_frame [simp]: "wf_mbuf (p_mbuf p) \<Longrightarrow> length (frame p) = unat (m_data_len (p_mbuf p))"
  by (auto simp: wf_mbuf_def frame_def min_def)

lemma view_updates [simp]:
  "frame (p\<lparr>p_ty := ty\<rparr>) = frame p" "frame (p\<lparr>p_header := h\<rparr>) = frame p"
  "frame (p\<lparr>p_offset := i\<rparr>) = frame p" "tailroom (p\<lparr>p_ty := ty\<rparr>) = tailroom p"
  "tailroom (p\<lparr>p_header := h\<rparr>) = tailroom p" "tailroom (p\<lparr>p_offset := i\<rparr>) = tailroom p"
  by (simp_all add: frame_def tailroom_def)

lemma wf_packet_mbuf: "wf_packet p \<Longrightarrow> wf_mbuf (p_mbuf p)"
  by (simp add: wf_packet_def)

lemma pkt_tailroom_wf:
  "wf_mbuf m \<Longrightarrow> pkt_tailroom m = unat (m_buf_len m) - unat (m_data_off m) - unat (m_data_len m)"
  by (auto simp: pkt_tailroom_def wf_mbuf_def)

text \<open>Reading inside the data of a buffer is reading the frame.\<close>

lemma peek_frame:
  assumes "wf_mbuf (p_mbuf p)" and "i + n \<le> length (frame p)"
  shows "peek (unat (m_data_off (p_mbuf p)) + i) n (m_buf (p_mbuf p)) = Inr (take n (drop i (frame p)))"
proof -
  have len: "i + n \<le> unat (m_data_len (p_mbuf p))" using assms by simp
  have "take n (drop i (frame p)) = take n (drop (unat (m_data_off (p_mbuf p)) + i) (m_buf (p_mbuf p)))"
    using len by (simp add: frame_def drop_take take_take add.commute)
  moreover have "unat (m_data_off (p_mbuf p)) + i + n \<le> length (m_buf (p_mbuf p))"
    using len assms(1) by (simp add: wf_mbuf_def)
  ultimately show ?thesis by (simp add: peek_def)
qed

lemma wf_packetD:
  assumes "wf_packet p"
  shows "wf_mbuf (p_mbuf p)" "p_header p = unat (m_data_off (p_mbuf p)) + p_offset p"
    "p_offset p + hdr_size (p_ty p) \<le> length (frame p)" "header_end p \<le> length (frame p)"
  using assms by (simp_all only: wf_packet_def)

lemma get_header_wf [packet_simps]:
  assumes "wf_packet p" shows "get_header p = Inr (header_bytes p)"
  unfolding get_header_def header_bytes_def wf_packetD(2) [OF assms]
  by (rule peek_frame [OF wf_packetD(1,3) [OF assms]])

lemma payload_offset_wf [packet_simps]:
  assumes "wf_packet p" shows "payload_offset p = Inr (hdr_offset (p_ty p) (header_bytes p))"
  unfolding payload_offset_def get_header_wf [OF assms] by (rule rbind_Inr)

lemma length_payload [simp]: "length (payload p) = length (frame p) - header_end p"
  by (simp add: payload_def)

lemma payload_size_wf [packet_simps]:
  assumes "wf_packet p" shows "payload_size p = Inr (length (payload p))"
proof -
  have len: "length (frame p) = unat (m_data_len (p_mbuf p))"
    by (rule length_frame [OF wf_packetD(1) [OF assms]])
  then have "header_end p \<le> unat (m_data_len (p_mbuf p))" using wf_packetD(4) [OF assms] by simp
  then show ?thesis
    unfolding payload_size_def payload_offset_wf [OF assms] rbind_Inr length_payload len header_end_def
    by (simp add: diff_diff_left)
qed

lemma get_payload_wf [packet_simps]:
  assumes "wf_packet p" shows "get_payload p = Inr (payload p)"
  using peek_frame [OF wf_packetD(1) [OF assms], of "header_end p" "length (payload p)"]
    wf_packetD(4) [OF assms]
  unfolding get_payload_def payload_size_wf [OF assms] payload_offset_wf [OF assms] rbind_Inr
    wf_packetD(2) [OF assms] header_end_def
  by (simp add: payload_def header_end_def add.assoc)

subsection \<open>Growing and shrinking at the tail\<close>

lemma unat_u16_plus:
  "unat (w :: u16) + n < 65536 \<Longrightarrow> unat (w + word_of_nat n) = unat w + n"
  by (simp add: unat_word_ariths unat_of_nat)

lemma unat_u16_minus:
  assumes "n \<le> unat (w :: u16)"
  shows "unat (w - word_of_nat n) = unat w - n"
proof -
  have "unat (word_of_nat n :: u16) = n"
    using assms unat_u16_lt [of w] by (simp add: unat_of_nat)
  moreover from this have "(word_of_nat n :: u16) \<le> w" using assms by (simp add: word_le_nat_alt)
  ultimately show ?thesis by (simp add: unat_sub)
qed

lemma unat_u32_plus:
  "unat (w :: u32) + n < 4294967296 \<Longrightarrow> unat (w + word_of_nat n) = unat w + n"
  by (simp add: unat_word_ariths unat_of_nat)

lemma unat_u32_minus:
  assumes "n \<le> unat (w :: u32)"
  shows "unat (w - word_of_nat n) = unat w - n"
proof -
  have "unat (word_of_nat n :: u32) = n"
    using assms unat_u32_lt [of w] by (simp add: unat_of_nat)
  moreover from this have "(word_of_nat n :: u32) \<le> w" using assms by (simp add: word_le_nat_alt)
  ultimately show ?thesis by (simp add: unat_sub)
qed

lemma add_data_end_wf:
  assumes "wf_mbuf m" and "n \<le> pkt_tailroom m"
  shows "\<exists>m'. add_data_end m n = (n, m') \<and> wf_mbuf m' \<and> m_buf m' = m_buf m \<and>
    m_data_off m' = m_data_off m \<and> m_buf_len m' = m_buf_len m \<and> m_meta m' = m_meta m \<and>
    unat (m_data_len m') = unat (m_data_len m) + n"
proof -
  have room: "unat (m_data_off m) + unat (m_data_len m) + n \<le> unat (m_buf_len m)"
    using assms pkt_tailroom_wf [of m] by (auto simp: wf_mbuf_def)
  have lt: "unat (m_data_len m) + n < 65536"
    using room unat_u16_lt [of "m_buf_len m"] by linarith
  have "unat (m_data_len m + word_of_nat n) = unat (m_data_len m) + n"
    using lt by (rule unat_u16_plus)
  moreover have "unat (m_pkt_len m + word_of_nat n) = unat (m_data_len m) + n"
    using lt assms(1) by (subst unat_u32_plus) (simp_all add: wf_mbuf_def)
  ultimately show ?thesis
    using assms room by (auto simp: add_data_end_def wf_mbuf_def)
qed

lemma add_data_end_full: "pkt_tailroom m < n \<Longrightarrow> add_data_end m n = (0, m)"
  by (simp add: add_data_end_def)

lemma remove_data_end_wf:
  assumes "wf_mbuf m" and "n \<le> unat (m_data_len m)"
  shows "\<exists>m'. remove_data_end m n = (n, m') \<and> wf_mbuf m' \<and> m_buf m' = m_buf m \<and>
    m_data_off m' = m_data_off m \<and> m_buf_len m' = m_buf_len m \<and> m_meta m' = m_meta m \<and>
    unat (m_data_len m') = unat (m_data_len m) - n"
proof -
  have "unat (m_data_len m - word_of_nat n) = unat (m_data_len m) - n"
    using assms(2) by (rule unat_u16_minus)
  moreover have "unat (m_pkt_len m - word_of_nat n) = unat (m_data_len m) - n"
    using assms by (subst unat_u32_minus) (simp_all add: wf_mbuf_def)
  ultimately show ?thesis
    using assms by (auto simp: remove_data_end_def wf_mbuf_def)
qed


lemma remove_data_end_short: "unat (m_data_len m) < n \<Longrightarrow> remove_data_end m n = (0, m)"
  by (simp add: remove_data_end_def)

subsection \<open>Writing inside the data\<close>

lemma write_at_take_drop:
  assumes "i + length ys \<le> n" and "k + n \<le> length xs"
  shows "take n (drop k (write_at (k + i) ys xs)) = write_at i ys (take n (drop k xs))"
  using assms
  by (cases "n = i") (auto simp: write_at_def drop_take min_def ac_simps)

definition poked :: "usize \<Rightarrow> byte_string \<Rightarrow> packet \<Rightarrow> packet" where
  "poked i bs p = p\<lparr>p_mbuf := (p_mbuf p)
     \<lparr>m_buf := write_at (unat (m_data_off (p_mbuf p)) + i) bs (m_buf (p_mbuf p))\<rparr>\<rparr>"

lemma poked_fields [simp]:
  "p_ty (poked i bs p) = p_ty p" "p_header (poked i bs p) = p_header p"
  "p_offset (poked i bs p) = p_offset p" "tailroom (poked i bs p) = tailroom p"
  "m_data_off (p_mbuf (poked i bs p)) = m_data_off (p_mbuf p)"
  "m_data_len (p_mbuf (poked i bs p)) = m_data_len (p_mbuf p)"
  by (simp_all add: poked_def tailroom_def pkt_tailroom_def)

lemma poke_frame:
  assumes "wf_mbuf (p_mbuf p)" and "i + length bs \<le> length (frame p)"
  shows "poke (unat (m_data_off (p_mbuf p)) + i) bs p = Inr (poked i bs p)"
    and "frame (poked i bs p) = write_at i bs (frame p)"
    and "wf_mbuf (p_mbuf (poked i bs p))"
proof -
  have len: "i + length bs \<le> unat (m_data_len (p_mbuf p))" using assms by simp
  moreover have room: "unat (m_data_off (p_mbuf p)) + unat (m_data_len (p_mbuf p)) \<le> length (m_buf (p_mbuf p))"
    using assms(1) by (simp add: wf_mbuf_def)
  ultimately have fit: "unat (m_data_off (p_mbuf p)) + i + length bs \<le> length (m_buf (p_mbuf p))"
    by linarith
  then show "poke (unat (m_data_off (p_mbuf p)) + i) bs p = Inr (poked i bs p)"
    by (simp add: poke_def poked_def)
  show "frame (poked i bs p) = write_at i bs (frame p)"
    using write_at_take_drop [OF len room] by (simp add: frame_def poked_def)
  show "wf_mbuf (p_mbuf (poked i bs p))"
    using assms(1) fit by (simp add: wf_mbuf_def poked_def)
qed

text \<open>A write after the header leaves the view of the packet alone.\<close>

lemma header_bytes_cong:
  assumes "take (p_offset p + hdr_size (p_ty p)) (frame p') = take (p_offset p + hdr_size (p_ty p)) (frame p)"
    and "p_ty p' = p_ty p" "p_offset p' = p_offset p"
  shows "header_bytes p' = header_bytes p" "header_end p' = header_end p"
proof -
  show "header_bytes p' = header_bytes p"
    using arg_cong [OF assms(1), of "drop (p_offset p)"] assms(2,3)
    by (simp add: header_bytes_def drop_take)
  then show "header_end p' = header_end p" using assms(2,3) by (simp add: header_end_def)
qed

lemma wf_packet_cong:
  assumes "wf_packet p" and "p_ty p' = p_ty p" and "p_offset p' = p_offset p"
    and "p_header p' = p_header p" and "m_data_off (p_mbuf p') = m_data_off (p_mbuf p)"
    and "wf_mbuf (p_mbuf p')"
    and "take (p_offset p + hdr_size (p_ty p)) (frame p') = take (p_offset p + hdr_size (p_ty p)) (frame p)"
    and "p_offset p + hdr_size (p_ty p) \<le> length (frame p')" and "header_end p \<le> length (frame p')"
  shows "wf_packet p'"
  using wf_packetD [OF assms(1)] assms(6,8,9)
  unfolding wf_packet_def header_bytes_cong [OF assms(7,2,3)] assms(2-5) by blast

text \<open>
  \<open>extends data p p'\<close>: the packet \<open>p'\<close> is \<open>p\<close> with \<open>data\<close> appended to its frame, looked at through
  the same header.
\<close>

definition extends :: "byte_string \<Rightarrow> packet \<Rightarrow> packet \<Rightarrow> bool" where
  "extends data p p' \<longleftrightarrow> wf_packet p' \<and> frame p' = frame p @ data \<and>
     tailroom p = tailroom p' + length data \<and> p_ty p' = p_ty p \<and> p_offset p' = p_offset p"

lemma extends_refl: "wf_packet p \<Longrightarrow> extends [] p p"
  by (simp add: extends_def)

lemma extends_trans: "extends xs p p1 \<Longrightarrow> extends ys p1 p2 \<Longrightarrow> extends (xs @ ys) p p2"
  by (simp add: extends_def)

lemma extends_view:
  assumes "wf_packet p" and "extends data p p'"
  shows "header_bytes p' = header_bytes p" "header_end p' = header_end p"
    "payload p' = payload p @ data"
proof -
  have t: "take (p_offset p + hdr_size (p_ty p)) (frame p') = take (p_offset p + hdr_size (p_ty p)) (frame p)"
    using assms wf_packetD(3) [OF assms(1)] by (simp add: extends_def)
  have v: "p_ty p' = p_ty p" "p_offset p' = p_offset p" using assms(2) by (simp_all add: extends_def)
  show "header_bytes p' = header_bytes p" "header_end p' = header_end p"
    by (rule header_bytes_cong [OF t v])+
  then show "payload p' = payload p @ data"
    using assms wf_packetD(4) [OF assms(1)] by (simp add: payload_def extends_def)
qed

subsection \<open>The tail of the payload\<close>

lemma grow_wf:
  assumes "wf_packet p" and "n \<le> tailroom p"
  obtains p1 where "add_data_end (p_mbuf p) n = (n, p_mbuf p1)" "p1 = p\<lparr>p_mbuf := p_mbuf p1\<rparr>"
    "wf_packet p1" "m_data_off (p_mbuf p1) = m_data_off (p_mbuf p)"
    "header_bytes p1 = header_bytes p" "length (frame p1) = length (frame p) + n"
    "take (length (frame p)) (frame p1) = frame p" "tailroom p1 = tailroom p - n"
proof -
  note wf = wf_packetD [OF assms(1)]
  obtain m where m: "add_data_end (p_mbuf p) n = (n, m)" "wf_mbuf m" "m_buf m = m_buf (p_mbuf p)"
    "m_data_off m = m_data_off (p_mbuf p)" "m_buf_len m = m_buf_len (p_mbuf p)"
    "unat (m_data_len m) = unat (m_data_len (p_mbuf p)) + n"
    using add_data_end_wf [OF wf(1) assms(2) [unfolded tailroom_def]] by blast
  define p1 where "p1 = p\<lparr>p_mbuf := m\<rparr>"
  have view: "p_ty p1 = p_ty p" "p_offset p1 = p_offset p" "p_header p1 = p_header p"
    "m_data_off (p_mbuf p1) = m_data_off (p_mbuf p)" "wf_mbuf (p_mbuf p1)"
    using m by (simp_all add: p1_def)
  have len: "length (frame p1) = length (frame p) + n" using m wf(1) by (simp add: p1_def)
  have old: "take (length (frame p)) (frame p1) = frame p"
    unfolding length_frame [OF wf(1)] using m by (simp add: frame_def p1_def min_def)
  have room: "tailroom p1 = tailroom p - n"
    using m wf(1) by (simp add: tailroom_def pkt_tailroom_wf p1_def)
  have "take (p_offset p + hdr_size (p_ty p)) (take (length (frame p)) (frame p1)) =
      take (p_offset p + hdr_size (p_ty p)) (frame p)"
    by (simp add: old)
  then have same: "take (p_offset p + hdr_size (p_ty p)) (frame p1) = take (p_offset p + hdr_size (p_ty p)) (frame p)"
    using wf(3) by (simp add: min_def)
  have "wf_packet p1"
    by (rule wf_packet_cong [OF assms(1) view same]) (use wf(3,4) len in simp_all)
  with header_bytes_cong(1) [OF same view(1,2)] m(1) len old room view show ?thesis
    by (intro that [of p1]) (simp_all add: p1_def)
qed

lemma add_to_payload_tail_room:
  assumes "wf_packet p" and "data \<noteq> []" and "length data \<le> tailroom p"
  shows "\<exists>p'. add_to_payload_tail (length data) data p = Inr (p', Inr ()) \<and> extends data p p'"
proof -
  let ?n = "length data" and ?len = "length (frame p)"
  note wf = wf_packetD [OF assms(1)]
  obtain p1 where add: "add_data_end (p_mbuf p) ?n = (?n, p_mbuf p1)" and p1: "p1 = p\<lparr>p_mbuf := p_mbuf p1\<rparr>"
    and wfp1: "wf_packet p1" and off: "m_data_off (p_mbuf p1) = m_data_off (p_mbuf p)"
    and hb: "header_bytes p1 = header_bytes p" and len: "length (frame p1) = ?len + ?n"
    and old: "take ?len (frame p1) = frame p" and room: "tailroom p1 = tailroom p - ?n"
    using grow_wf [OF assms(1,3)] .
  have view: "p_ty p1 = p_ty p" "p_offset p1 = p_offset p" "p_header p1 = p_header p"
    by (subst p1, simp)+
  define p2 where "p2 = poked ?len data p1"
  note pk = poke_frame [OF wf_packetD(1) [OF wfp1], of ?len data, unfolded len, OF order_refl, folded p2_def]
  have frame2: "frame p2 = frame p @ data" using pk(2) len old by (simp add: write_at_def)
  have he: "header_end p1 = header_end p" by (simp add: header_end_def view hb)
  have "wf_packet p2"
  proof (rule wf_packet_cong [OF wfp1])
    have "take (p_offset p1 + hdr_size (p_ty p1)) (frame p1) =
        take (p_offset p1 + hdr_size (p_ty p1)) (take ?len (frame p1))"
      using wf(3) view by (simp add: min_def)
    also have "\<dots> = take (p_offset p1 + hdr_size (p_ty p1)) (frame p2)"
      using wf(3) view old frame2 by simp
    finally show "take (p_offset p1 + hdr_size (p_ty p1)) (frame p2) = take (p_offset p1 + hdr_size (p_ty p1)) (frame p1)"
      by simp
  qed (use frame2 wf(3,4) pk(3) view he in \<open>simp_all add: p2_def\<close>)
  then have ext: "extends data p p2"
    using frame2 room assms(3) view by (simp add: extends_def p2_def)
  have dst: "p_header p1 + hdr_offset (p_ty p1) (header_bytes p1) + length (payload p) =
      unat (m_data_off (p_mbuf p1)) + ?len"
    using wf(4) unfolding length_payload view wf(2) off hb header_end_def by linarith
  have "add_to_payload_tail ?n data p = Inr (p2, Inr ())"
    unfolding add_to_payload_tail_def get_payload_wf [OF assms(1)] rbind_Inr add Let_def prod.case
      p1 [symmetric] payload_offset_wf [OF wfp1] dst
    using assms(2) pk(1) by (simp add: index_slice_def peek_def)
  then show ?thesis using ext by blast
qed

lemma add_to_payload_tail_full:
  assumes "wf_packet p" and "tailroom p < n"
  shows "add_to_payload_tail n data p = Inr (p, Inl FailedAllocation)"
  using assms add_data_end_full [of "p_mbuf p" n]
  by (simp add: add_to_payload_tail_def get_payload_wf tailroom_def)

lemma add_to_payload_tail_empty:
  assumes "wf_packet p"
  shows "add_to_payload_tail 0 [] p = Inl IndexOutOfBounds"
  using assms by (simp add: add_to_payload_tail_def get_payload_wf add_data_end_def index_slice_def)

lemma remove_from_payload_tail_wf:
  assumes "wf_packet p" and "n \<le> length (payload p)" and "hdr_size (p_ty p) \<le> header_end p - p_offset p"
  shows "\<exists>p'. remove_from_payload_tail n p = (p', Inr ()) \<and> wf_packet p' \<and>
    frame p' = take (length (frame p) - n) (frame p) \<and> payload p' = take (length (payload p) - n) (payload p) \<and>
    tailroom p' = tailroom p + n \<and> p_ty p' = p_ty p \<and> p_offset p' = p_offset p"
proof -
  note wf = wf_packetD [OF assms(1)]
  have n: "n \<le> unat (m_data_len (p_mbuf p))"
    using assms(2) wf(1) by simp
  obtain m where m: "remove_data_end (p_mbuf p) n = (n, m)" "wf_mbuf m" "m_buf m = m_buf (p_mbuf p)"
      "m_data_off m = m_data_off (p_mbuf p)" "m_buf_len m = m_buf_len (p_mbuf p)"
      "unat (m_data_len m) = unat (m_data_len (p_mbuf p)) - n"
    using remove_data_end_wf [OF wf(1) n] by blast
  define p' where "p' = p\<lparr>p_mbuf := m\<rparr>"
  have view: "p_ty p' = p_ty p" "p_offset p' = p_offset p" "p_header p' = p_header p"
    "m_data_off (p_mbuf p') = m_data_off (p_mbuf p)" "wf_mbuf (p_mbuf p')"
    using m by (simp_all add: p'_def)
  have frame: "frame p' = take (length (frame p) - n) (frame p)"
    unfolding length_frame [OF wf(1)] using m by (simp add: frame_def p'_def)
  have bound: "p_offset p + hdr_size (p_ty p) \<le> length (frame p) - n" "header_end p \<le> length (frame p) - n"
    using assms(2,3) wf(4) by (simp_all add: header_end_def)
  have same: "take (p_offset p + hdr_size (p_ty p)) (frame p') = take (p_offset p + hdr_size (p_ty p)) (frame p)"
    using frame bound by (simp add: min_def)
  have wf': "wf_packet p'"
    by (rule wf_packet_cong [OF assms(1) view same]) (use frame bound in simp_all)
  have pay: "payload p' = take (length (payload p) - n) (payload p)"
    using frame header_bytes_cong(2) [OF same view(1,2)] by (simp add: payload_def drop_take add.commute)
  have room: "tailroom p' = tailroom p + n"
    using m wf(1) n by (auto simp: tailroom_def pkt_tailroom_wf p'_def wf_mbuf_def)
  have "remove_from_payload_tail n p = (p', Inr ())"
    by (simp add: remove_from_payload_tail_def m(1) p'_def)
  then show ?thesis using wf' frame pay room view(1,2) by blast
qed

subsection \<open>Headers\<close>

text \<open>A header pushed when nothing follows the current one.\<close>

definition pushed :: "hdr_type \<Rightarrow> byte_string \<Rightarrow> packet \<Rightarrow> packet \<Rightarrow> bool" where
  "pushed ty hdr p p' \<longleftrightarrow> wf_packet p' \<and> frame p' = frame p @ hdr \<and> p_ty p' = ty \<and>
     p_offset p' = length (frame p) \<and> tailroom p = tailroom p' + length hdr"

lemma pushed_view:
  assumes "pushed ty hdr p p'" and "length hdr = hdr_size ty" and "hdr_offset ty hdr = hdr_size ty"
  shows "header_bytes p' = hdr" "header_end p' = length (frame p')" "payload p' = []"
proof -
  show hb: "header_bytes p' = hdr" using assms(1,2) by (simp add: pushed_def header_bytes_def)
  show he: "header_end p' = length (frame p')"
    using assms hb by (simp add: pushed_def header_end_def)
  show "payload p' = []" by (simp add: payload_def he)
qed

lemma push_header_end:
  assumes "wf_packet p" and "payload p = []"
    and "length hdr = hdr_size ty" and "hdr_offset ty hdr = hdr_size ty" and "hdr_size ty \<le> tailroom p"
  shows "\<exists>p'. push_header ty hdr p = Inr (Some p') \<and> pushed ty hdr p p'"
proof -
  let ?n = "hdr_size ty" and ?len = "length (frame p)"
  note wf = wf_packetD [OF assms(1)]
  obtain p1 where add: "add_data_end (p_mbuf p) ?n = (?n, p_mbuf p1)" and p1: "p1 = p\<lparr>p_mbuf := p_mbuf p1\<rparr>"
    and wfp1: "wf_packet p1" and off: "m_data_off (p_mbuf p1) = m_data_off (p_mbuf p)"
    and hb: "header_bytes p1 = header_bytes p" and len: "length (frame p1) = ?len + ?n"
    and old: "take ?len (frame p1) = frame p" and room: "tailroom p1 = tailroom p - ?n"
    using grow_wf [OF assms(1,5)] .
  have view: "p_ty p1 = p_ty p" by (subst p1, simp)
  have "header_end p = ?len" using assms(2) wf(4) by (simp add: payload_def)
  then have po: "hdr_offset (p_ty p1) (header_bytes p1) = ?len - p_offset p"
    using hb view by (simp add: header_end_def)
  have offset: "p_offset p + (?len - p_offset p) = ?len" using wf(3) by simp
  have dst: "p_header p + (?len - p_offset p) = unat (m_data_off (p_mbuf p1)) + ?len"
    using wf(2,3) off by simp
  have dlen: "unat (m_data_len (p_mbuf p)) = ?len" using wf(1) by simp
  note pk = poke_frame [OF wf_packetD(1) [OF wfp1], of ?len hdr, unfolded len assms(3), OF order_refl]
  define p3 where "p3 = (poked ?len hdr p1)\<lparr>p_ty := ty, p_header := unat (m_data_off (p_mbuf p1)) + ?len,
    p_offset := ?len\<rparr>"
  have eq: "push_header ty hdr p = Inr (Some p3)"
    unfolding push_header_def assms(4) add Let_def prod.case p1 [symmetric]
      payload_offset_wf [OF wfp1] po rbind_Inr offset dst dlen
    using pk(1) by (simp add: p3_def)
  have frame3: "frame p3 = frame p @ hdr"
    using pk(2) len old assms(3) by (simp add: p3_def write_at_def)
  have "header_bytes p3 = hdr" using frame3 assms(3) by (simp add: header_bytes_def p3_def)
  then have he3: "header_end p3 = ?len + ?n" using assms(4) by (simp add: header_end_def p3_def)
  have "wf_mbuf (p_mbuf p3)" using pk(3) by (simp add: p3_def)
  moreover have "p_header p3 = unat (m_data_off (p_mbuf p3)) + p_offset p3"
    "p_offset p3 + hdr_size (p_ty p3) = ?len + ?n"
    by (simp_all add: p3_def)
  ultimately have "wf_packet p3"
    unfolding wf_packet_def he3 frame3 length_append assms(3) by simp
  then show ?thesis
    using eq frame3 room assms(3,5) by (auto simp: pushed_def p3_def)
qed

lemma push_header_full:
  assumes "wf_packet p" and "tailroom p < hdr_offset ty hdr"
  shows "push_header ty hdr p = Inr None"
proof -
  have "p\<lparr>p_mbuf := p_mbuf p\<rparr> = p" by simp
  then show ?thesis
    using assms(2) unfolding push_header_def tailroom_def
    by (simp add: add_data_end_full payload_offset_wf [OF assms(1)] Let_def)
qed

text \<open>Parsing a header moves the view forward over the payload, deparsing moves it back.\<close>

definition parsed :: "hdr_type \<Rightarrow> packet \<Rightarrow> packet" where
  "parsed ty p = p\<lparr>p_ty := ty, p_header := p_header p + hdr_offset (p_ty p) (header_bytes p),
     p_offset := header_end p\<rparr>"

lemma parse_header_wf:
  assumes "wf_packet p" and "hdr_size ty \<le> length (payload p)"
  shows "parse_header ty p = Inr (parsed ty p)"
  using assms
  by (simp add: parse_header_def payload_size_wf payload_offset_wf parsed_def header_end_def)

lemma parse_header_short:
  assumes "wf_packet p" and "length (payload p) < hdr_size ty"
  shows "parse_header ty p = Inl AssertionFailed"
  using assms by (simp add: parse_header_def payload_size_wf rassert_def)

lemma parsed_fields [simp]:
  "p_ty (parsed ty p) = ty" "p_offset (parsed ty p) = header_end p" "frame (parsed ty p) = frame p"
  "tailroom (parsed ty p) = tailroom p"
  by (simp_all add: parsed_def)

lemma parsed_view:
  "header_bytes (parsed ty p) = take (hdr_size ty) (payload p)"
  "payload (parsed ty p) = drop (hdr_offset ty (take (hdr_size ty) (payload p))) (payload p)"
  by (simp_all add: header_bytes_def payload_def header_end_def add.commute)

lemma parsed_wf:
  assumes "wf_packet p" and "hdr_size ty \<le> length (payload p)"
    and "hdr_offset ty (take (hdr_size ty) (payload p)) \<le> length (payload p)"
  shows "wf_packet (parsed ty p)"
proof -
  note wf = wf_packetD [OF assms(1)]
  have "wf_mbuf (p_mbuf (parsed ty p))" using wf(1) by (simp add: parsed_def)
  moreover have "p_header (parsed ty p) = unat (m_data_off (p_mbuf (parsed ty p))) + header_end p"
    using wf(2) by (simp add: parsed_def header_end_def)
  moreover have "header_end (parsed ty p) = header_end p + hdr_offset ty (take (hdr_size ty) (payload p))"
    by (simp add: header_end_def parsed_view)
  ultimately show ?thesis
    using assms(2,3) wf(4) by (auto simp: wf_packet_def)
qed

lemma deparse_parsed:
  assumes "wf_packet p" and "previous_header ty = p_ty p"
  shows "deparse_header (hdr_offset (p_ty p) (header_bytes p)) (parsed ty p) = Inr p"
  using assms by (simp add: deparse_header_def parsed_def header_end_def)

lemma replace_header_wf:
  assumes "wf_packet p" and "length hdr = hdr_size (p_ty p)"
    and "hdr_offset (p_ty p) hdr = hdr_offset (p_ty p) (header_bytes p)"
  shows "\<exists>p'. replace_header hdr p = Inr p' \<and> wf_packet p' \<and> header_bytes p' = hdr \<and>
    header_end p' = header_end p \<and> payload p' = drop (header_end p) (write_at (p_offset p) hdr (frame p)) \<and>
    frame p' = write_at (p_offset p) hdr (frame p) \<and> p_ty p' = p_ty p \<and> p_offset p' = p_offset p \<and>
    tailroom p' = tailroom p"
proof -
  note wf = wf_packetD [OF assms(1)]
  have fit: "p_offset p + length hdr \<le> length (frame p)" using wf(3) assms(2) by simp
  note pk = poke_frame [OF wf(1) fit]
  let ?p = "poked (p_offset p) hdr p"
  have hb: "header_bytes ?p = hdr"
    using write_at_window [OF fit] assms(2) by (simp add: header_bytes_def pk(2))
  then have he: "header_end ?p = header_end p" using assms(3) by (simp add: header_end_def)
  have "wf_packet ?p"
    unfolding wf_packet_def he using pk fit wf by (simp add: pk(2))
  moreover have "replace_header hdr p = Inr ?p" unfolding replace_header_def wf(2) by (rule pk(1))
  moreover have "payload ?p = drop (header_end p) (write_at (p_offset p) hdr (frame p))"
    by (simp add: payload_def he pk(2))
  ultimately show ?thesis using pk(2) hb he by auto
qed

lemma new_packet_wf:
  assumes "wf_mbuf m" and "m_data_len m = 0"
  shows "\<exists>p. new_packet (Some m) = Some p \<and> wf_packet p \<and> frame p = [] \<and> payload p = [] \<and>
    p_ty p = NullHeader \<and> p_offset p = 0 \<and> tailroom p = pkt_tailroom m"
proof -
  define p where "p = packet_from_mbuf_no_increment NullHeader m 0"
  have f: "frame p = []" using assms by (simp add: frame_def p_def packet_from_mbuf_no_increment_def)
  have "wf_packet p"
    using assms f by (simp add: wf_packet_def p_def packet_from_mbuf_no_increment_def data_address_def
        header_end_def hdr_offset_def)
  then show ?thesis
    using f by (simp add: new_packet_def p_def [symmetric] payload_def)
       (simp add: p_def packet_from_mbuf_no_increment_def tailroom_def)
qed

lemma parse_header_and_record_panics:
  assumes "wf_packet p" and "STACK_DEPTH_SLOT < length (m_meta (p_mbuf p))"
  shows "\<exists>e. parse_header_and_record ty p = Inl e"
  using assms
  by (cases "hdr_size ty \<le> length (payload p)")
     (auto simp: parse_header_and_record_def payload_size_wf payload_offset_wf push_offset_def
        read_metadata_slot_def STACK_SIZE_def rassert_def)

section \<open>The interface of a response buffer\<close>

text \<open>
  What the code that builds responses relies on: bytes go to the end of the buffer while
  there is room, and a write for which there is none changes nothing and reports it.
  The client \<open>add_all\<close> is the sequence of writes a response is made of.
\<close>

locale tail_buffer =
  fixes inv :: "'s \<Rightarrow> bool"
    and bytes :: "'s \<Rightarrow> 'b list"
    and room :: "'s \<Rightarrow> nat"
    and view :: "'s \<Rightarrow> 'v"
    and add :: "'b list \<Rightarrow> 's \<Rightarrow> ('s \<times> ('e + unit)) rust"
  assumes add_room: "inv s \<Longrightarrow> xs \<noteq> [] \<Longrightarrow> length xs \<le> room s \<Longrightarrow>
      \<exists>s'. add xs s = Inr (s', Inr ()) \<and> inv s' \<and> bytes s' = bytes s @ xs \<and> room s = room s' + length xs \<and>
        view s' = view s"
    and add_full: "inv s \<Longrightarrow> room s < length xs \<Longrightarrow> \<exists>e. add xs s = Inr (s, Inl e)"
begin

fun add_all :: "'b list list \<Rightarrow> 's \<Rightarrow> ('s \<times> ('e + unit)) rust" where
  "add_all [] s = Inr (s, Inr ())"
| "add_all (xs # xss) s =
     rbind (add xs s) (\<lambda>(s', r). case r of Inl e \<Rightarrow> Inr (s', Inl e) | Inr u \<Rightarrow> add_all xss s')"

lemma add_all_room:
  assumes "inv s" and "[] \<notin> set xss" and "length (concat xss) \<le> room s"
  shows "\<exists>s'. add_all xss s = Inr (s', Inr ()) \<and> inv s' \<and> bytes s' = bytes s @ concat xss \<and>
    room s = room s' + length (concat xss) \<and> view s' = view s"
  using assms
proof (induction xss arbitrary: s)
  case Nil
  then show ?case by simp
next
  case (Cons xs xss)
  then have "xs \<noteq> []" "length xs \<le> room s" by auto
  then obtain s' where s': "add xs s = Inr (s', Inr ())" "inv s'" "bytes s' = bytes s @ xs"
      "room s = room s' + length xs" "view s' = view s"
    using add_room [OF Cons.prems(1)] by blast
  then have "length (concat xss) \<le> room s'" "[] \<notin> set xss" using Cons.prems by auto
  then obtain s2 where "add_all xss s' = Inr (s2, Inr ())" "inv s2" "bytes s2 = bytes s' @ concat xss"
      "room s' = room s2 + length (concat xss)" "view s2 = view s'"
    using Cons.IH [OF s'(2)] by blast
  with s' show ?case by auto
qed

lemma add_all_total:
  assumes "inv s" and "[] \<notin> set xss"
  shows "\<exists>s' r k. add_all xss s = Inr (s', r) \<and> inv s' \<and> bytes s' = bytes s @ concat (take k xss) \<and>
    (r = Inr () \<longleftrightarrow> length (concat xss) \<le> room s)"
  using assms
proof (induction xss arbitrary: s)
  case Nil
  then show ?case by simp
next
  case (Cons xs xss)
  show ?case
  proof (cases "length xs \<le> room s")
    case True
    then obtain s' where s': "add xs s = Inr (s', Inr ())" "inv s'" "bytes s' = bytes s @ xs"
        "room s = room s' + length xs"
      using add_room [OF Cons.prems(1), of xs] Cons.prems(2) by auto
    then obtain s2 r k where "add_all xss s' = Inr (s2, r)" "inv s2" "bytes s2 = bytes s' @ concat (take k xss)"
        "(r = Inr () \<longleftrightarrow> length (concat xss) \<le> room s')"
      using Cons.IH [OF s'(2)] Cons.prems(2) by auto
    with s' show ?thesis by (intro exI [of _ s2] exI [of _ r] exI [of _ "Suc k"]) auto
  next
    case False
    then obtain e where "add xs s = Inr (s, Inl e)" using add_full [OF Cons.prems(1), of xs] by auto
    with False Cons.prems(1) show ?thesis by (intro exI [of _ s] exI [of _ "Inl e"] exI [of _ 0]) auto
  qed
qed

end

interpretation pkt: tail_buffer wf_packet frame tailroom "\<lambda>p. (p_ty p, p_offset p)" "\<lambda>data. add_to_payload_tail (length data) data"
proof unfold_locales
  fix p :: packet and data :: byte_string
  assume "wf_packet p" "data \<noteq> []" "length data \<le> tailroom p"
  then show "\<exists>p'. add_to_payload_tail (length data) data p = Inr (p', Inr ()) \<and> wf_packet p' \<and>
      frame p' = frame p @ data \<and> tailroom p = tailroom p' + length data \<and>
      (p_ty p', p_offset p') = (p_ty p, p_offset p)"
    using add_to_payload_tail_room [of p data] by (auto simp: extends_def)
next
  fix p :: packet and data :: byte_string
  assume "wf_packet p" "tailroom p < length data"
  then show "\<exists>e. add_to_payload_tail (length data) data p = Inr (p, Inl e)"
    using add_to_payload_tail_full by blast
qed

section \<open>Positioned views\<close>

text \<open>
  \<open>view_at ty i fr r p\<close>: the packet \<open>p\<close> is well formed, its frame is \<open>fr\<close> with \<open>r\<close> bytes of room behind it,
  and it is looked at through a header of type \<open>ty\<close> at offset \<open>i\<close>. The rules below give the effect
  of every operation on such a view; code that builds or takes apart a packet is
  followed step by step with them.
\<close>

definition view_at :: "hdr_type \<Rightarrow> usize \<Rightarrow> byte_string \<Rightarrow> usize \<Rightarrow> packet \<Rightarrow> bool" where
  "view_at ty i fr r p \<longleftrightarrow>
     wf_packet p \<and> p_ty p = ty \<and> p_offset p = i \<and> frame p = fr \<and> tailroom p = r"

abbreviation hdr_at :: "hdr_type \<Rightarrow> usize \<Rightarrow> byte_string \<Rightarrow> byte_string" where
  "hdr_at ty i fr \<equiv> take (hdr_size ty) (drop i fr)"

abbreviation end_at :: "hdr_type \<Rightarrow> usize \<Rightarrow> byte_string \<Rightarrow> usize" where
  "end_at ty i fr \<equiv> i + hdr_offset ty (hdr_at ty i fr)"

lemma view_atD:
  assumes "view_at ty i fr r p"
  shows "wf_packet p" "p_ty p = ty" "p_offset p = i" "frame p = fr" "tailroom p = r"
    "header_bytes p = hdr_at ty i fr" "header_end p = end_at ty i fr"
    "payload p = drop (end_at ty i fr) fr"
  using assms by (simp_all add: view_at_def header_bytes_def header_end_def payload_def)

lemma view_at_bounds:
  assumes "view_at ty i fr r p"
  shows "i + hdr_size ty \<le> length fr" "end_at ty i fr \<le> length fr"
  using wf_packetD [OF view_atD(1) [OF assms]] view_atD [OF assms] by simp_all

lemma new_packet_view:
  assumes "wf_mbuf m" and "m_data_len m = 0"
  shows "\<exists>p. new_packet (Some m) = Some p \<and> view_at NullHeader 0 [] (pkt_tailroom m) p"
  using new_packet_wf [OF assms] by (auto simp: view_at_def)

lemma get_header_view: "view_at ty i fr r p \<Longrightarrow> get_header p = Inr (hdr_at ty i fr)"
  using get_header_wf [OF view_atD(1)] view_atD(6) by simp

lemma get_payload_view: "view_at ty i fr r p \<Longrightarrow> get_payload p = Inr (drop (end_at ty i fr) fr)"
  using get_payload_wf [OF view_atD(1)] view_atD(8) by simp

lemma push_header_view:
  assumes "view_at ty i fr r p" and "end_at ty i fr = length fr"
    and "length hdr = hdr_size ty2" and "hdr_offset ty2 hdr = hdr_size ty2" and "hdr_size ty2 \<le> r"
  shows "\<exists>p'. push_header ty2 hdr p = Inr (Some p') \<and>
    view_at ty2 (length fr) (fr @ hdr) (r - hdr_size ty2) p'"
proof -
  note v = view_atD [OF assms(1)]
  have "payload p = []" using v(8) assms(2) by simp
  then obtain p' where "push_header ty2 hdr p = Inr (Some p')" "pushed ty2 hdr p p'"
    using push_header_end [OF v(1) _ assms(3,4)] assms(5) v(5) by auto
  then show ?thesis using v assms(3) by (auto simp: view_at_def pushed_def)
qed

lemma add_tail_view:
  assumes "view_at ty i fr r p" and "data \<noteq> []" and "length data \<le> r"
  shows "\<exists>p'. add_to_payload_tail (length data) data p = Inr (p', Inr ()) \<and>
    view_at ty i (fr @ data) (r - length data) p'"
  using add_to_payload_tail_room [OF view_atD(1) [OF assms(1)] assms(2)] assms(3) view_atD [OF assms(1)]
  by (auto simp: extends_def view_at_def)

lemma add_tail_full_view:
  "view_at ty i fr r p \<Longrightarrow> r < n \<Longrightarrow> add_to_payload_tail n data p = Inr (p, Inl FailedAllocation)"
  using add_to_payload_tail_full [OF view_atD(1)] view_atD(5) by simp

lemma add_all_view:
  assumes "view_at ty i fr r p" and "[] \<notin> set fs" and "length (concat fs) \<le> r"
  shows "\<exists>p'. pkt.add_all fs p = Inr (p', Inr ()) \<and> view_at ty i (fr @ concat fs) (r - length (concat fs)) p'"
  using pkt.add_all_room [OF view_atD(1) [OF assms(1)] assms(2)] assms(3) view_atD [OF assms(1)]
  by (auto simp: view_at_def)

lemma parse_header_view:
  assumes "view_at ty i fr r p" and "end_at ty i fr + hdr_size ty2 \<le> length fr"
    and "end_at ty2 (end_at ty i fr) fr \<le> length fr"
  shows "\<exists>p'. parse_header ty2 p = Inr p' \<and> view_at ty2 (end_at ty i fr) fr r p'"
proof -
  note v = view_atD [OF assms(1)]
  have len: "hdr_size ty2 \<le> length (payload p)" using assms(2) v by simp
  moreover have "hdr_offset ty2 (take (hdr_size ty2) (payload p)) \<le> length (payload p)"
    using assms(3) v by simp
  ultimately have "wf_packet (parsed ty2 p)" by (rule parsed_wf [OF v(1)])
  then show ?thesis using parse_header_wf [OF v(1) len] v by (simp add: view_at_def)
qed

lemma parse_header_short_view:
  assumes "view_at ty i fr r p" and "length fr < end_at ty i fr + hdr_size ty2"
  shows "parse_header ty2 p = Inl AssertionFailed"
proof -
  have "length (payload p) < hdr_size ty2"
    using assms(2) view_atD [OF assms(1)] view_at_bounds(2) [OF assms(1)] by simp
  then show ?thesis by (rule parse_header_short [OF view_atD(1) [OF assms(1)]])
qed

lemma remove_tail_view:
  assumes "view_at ty i fr r p" and "n \<le> length fr - end_at ty i fr"
    and "hdr_size ty \<le> hdr_offset ty (hdr_at ty i fr)"
  shows "\<exists>p'. remove_from_payload_tail n p = (p', Inr ()) \<and> view_at ty i (take (length fr - n) fr) (r + n) p'"
proof -
  note v = view_atD [OF assms(1)]
  have "n \<le> length (payload p)" "hdr_size (p_ty p) \<le> header_end p - p_offset p"
    using assms(2,3) v by simp_all
  then show ?thesis using remove_from_payload_tail_wf [OF v(1)] v by (auto simp: view_at_def)
qed

lemma deparse_header_view:
  assumes "view_at ty i fr r p" and "n \<le> i" and "previous_header ty = ty2"
    and "i - n + hdr_size ty2 \<le> length fr" and "end_at ty2 (i - n) fr \<le> length fr"
  shows "\<exists>p'. deparse_header n p = Inr p' \<and> view_at ty2 (i - n) fr r p'"
proof -
  note v = view_atD [OF assms(1)]
  note wf = wf_packetD [OF v(1)]
  define p' where "p' = p\<lparr>p_ty := ty2, p_header := p_header p - n, p_offset := i - n\<rparr>"
  have "deparse_header n p = Inr p'"
    using assms(2,3) v wf(2) by (simp add: deparse_header_def p'_def)
  moreover have "frame p' = fr" "p_ty p' = ty2" "p_offset p' = i - n" "tailroom p' = r"
    using v by (simp_all add: p'_def)
  moreover from this have "header_end p' = end_at ty2 (i - n) fr"
    by (simp add: header_end_def header_bytes_def)
  moreover have "wf_mbuf (p_mbuf p')" "p_header p' = unat (m_data_off (p_mbuf p')) + (i - n)"
    using wf(1,2) v(3) assms(2) by (simp_all add: p'_def)
  ultimately show ?thesis using assms(4,5) by (simp add: view_at_def wf_packet_def)
qed

lemma replace_header_view:
  assumes "view_at ty i fr r p" and "length hdr = hdr_size ty"
    and "hdr_offset ty hdr = hdr_offset ty (hdr_at ty i fr)"
  shows "\<exists>p'. replace_header hdr p = Inr p' \<and> view_at ty i (write_at i hdr fr) r p'"
  using replace_header_wf [OF view_atD(1) [OF assms(1)], of hdr] assms(2,3) view_atD [OF assms(1)]
  by (auto simp: view_at_def)

lemma modify_header_view:
  assumes "view_at ty i fr r p" and "length (f (hdr_at ty i fr)) = hdr_size ty"
    and "hdr_offset ty (f (hdr_at ty i fr)) = hdr_offset ty (hdr_at ty i fr)"
  shows "\<exists>p'. modify_header f p = Inr p' \<and> view_at ty i (write_at i (f (hdr_at ty i fr)) fr) r p'"
  using replace_header_view [OF assms] get_header_view [OF assms(1)] by (simp add: modify_header_def)

end
