(* ===== verification/Headers.thy ===== *)
theory Headers
  imports Packet
begin

unbundle bit_operations_syntax

text \<open>
  The network headers of \<open>net/framework/src/headers\<close>: \<open>mac.rs\<close>, \<open>ip.rs\<close> and \<open>udp.rs\<close>.

  A header is a record with the fields of the packed structure, each as the integer that a
  little-endian host reads from memory; \<open>u16::to_be\<close>, \<open>u16::from_be\<close> and their 32-bit forms are
  \<open>swap16\<close> and \<open>swap32\<close>. \<open>enc_mac\<close>, \<open>enc_ip\<close> and \<open>enc_udp\<close> give the bytes of the structure and the
  \<open>dec_\<close> functions read it back, which is what \<open>get_header\<close> does with its pointer cast.
\<close>

section \<open>Byte order of a field\<close>

definition swap16 :: "u16 \<Rightarrow> u16" where
  "swap16 w = dec_u16 (rev (enc_u16 w))"

definition swap32 :: "u32 \<Rightarrow> u32" where
  "swap32 w = dec_u32 (rev (enc_u32 w))"

lemma enc_dec_u16 [simp]: "length bs = 2 \<Longrightarrow> enc_u16 (dec_u16 bs) = bs"
  using le_nat_bound [of bs] by (simp add: enc_u16_def dec_u16_def le_bytes_le_nat)

lemma enc_dec_u32 [simp]: "length bs = 4 \<Longrightarrow> enc_u32 (dec_u32 bs) = bs"
  using le_nat_bound [of bs] by (simp add: enc_u32_def dec_u32_def le_bytes_le_nat)

lemma enc_dec_u64 [simp]: "length bs = 8 \<Longrightarrow> enc_u64 (dec_u64 bs) = bs"
  using le_nat_bound [of bs] by (simp add: enc_u64_def dec_u64_def le_bytes_le_nat)

lemma swap16_swap16 [simp]: "swap16 (swap16 w) = w"
  by (simp add: swap16_def)

lemma swap32_swap32 [simp]: "swap32 (swap32 w) = w"
  by (simp add: swap32_def)

lemma enc_swap16: "enc_u16 (swap16 w) = be_bytes 2 (unat w)"
  by (simp add: swap16_def be_bytes_def enc_u16_def [symmetric])

lemma enc_swap32: "enc_u32 (swap32 w) = be_bytes 4 (unat w)"
  by (simp add: swap32_def be_bytes_def enc_u32_def [symmetric])

section \<open>Ethernet\<close>

type_synonym mac_address = byte_string

record mac_header =
  mac_dst :: mac_address
  mac_src :: mac_address
  mac_etype :: u16

definition MacAddress_new :: "u8 \<Rightarrow> u8 \<Rightarrow> u8 \<Rightarrow> u8 \<Rightarrow> u8 \<Rightarrow> u8 \<Rightarrow> mac_address" where
  "MacAddress_new a b c d e f = [a, b, c, d, e, f]"

definition MacAddress_new_from_slice :: "byte_string \<Rightarrow> mac_address rust" where
  "MacAddress_new_from_slice s =
     rbind (index_slice s 0) (\<lambda>a. rbind (index_slice s 1) (\<lambda>b. rbind (index_slice s 2) (\<lambda>c.
     rbind (index_slice s 3) (\<lambda>d. rbind (index_slice s 4) (\<lambda>e. rbind (index_slice s 5) (\<lambda>f.
     Inr [a, b, c, d, e, f]))))))"

definition MacHeader_new :: mac_header where
  "MacHeader_new = \<lparr>mac_dst = replicate 6 0, mac_src = replicate 6 0, mac_etype = 0\<rparr>"

definition etype :: "mac_header \<Rightarrow> u16" where
  "etype h = swap16 (mac_etype h)"

definition set_etype :: "u16 \<Rightarrow> mac_header \<Rightarrow> mac_header" where
  "set_etype e h = h\<lparr>mac_etype := swap16 e\<rparr>"

definition swap_addresses :: "mac_header \<Rightarrow> mac_header" where
  "swap_addresses h =
     (let src = mac_src h; h = h\<lparr>mac_src := mac_dst h\<rparr> in h\<lparr>mac_dst := src\<rparr>)"

definition set_mac_src :: "mac_address \<Rightarrow> mac_header \<Rightarrow> mac_header" where
  "set_mac_src a h = h\<lparr>mac_src := a\<rparr>"

definition set_mac_dst :: "mac_address \<Rightarrow> mac_header \<Rightarrow> mac_header" where
  "set_mac_dst a h = h\<lparr>mac_dst := a\<rparr>"

definition enc_mac :: "mac_header \<Rightarrow> byte_string" where
  "enc_mac h = mac_dst h @ mac_src h @ enc_u16 (mac_etype h)"

definition dec_mac :: "byte_string \<Rightarrow> mac_header" where
  "dec_mac bs = \<lparr>mac_dst = take 6 bs, mac_src = take 6 (drop 6 bs), mac_etype = dec_u16 (take 2 (drop 12 bs))\<rparr>"

definition wf_mac :: "mac_header \<Rightarrow> bool" where
  "wf_mac h \<longleftrightarrow> length (mac_dst h) = 6 \<and> length (mac_src h) = 6"

lemma enc_mac_length [simp]: "wf_mac h \<Longrightarrow> length (enc_mac h) = 14"
  by (simp add: enc_mac_def wf_mac_def)

lemma dec_enc_mac [simp]: "wf_mac h \<Longrightarrow> dec_mac (enc_mac h) = h"
  by (simp add: enc_mac_def dec_mac_def wf_mac_def)

lemma swap_addresses_swap [simp]: "swap_addresses (swap_addresses h) = h"
  by (simp add: swap_addresses_def Let_def)

lemma mac_offset_enc:
  "wf_mac h \<Longrightarrow> mac_offset (enc_mac h) =
     (if mac_etype h = 0x8100 then 18 else if mac_etype h = 0x9100 then 22 else 14)"
  by (simp add: mac_offset_def enc_mac_def wf_mac_def Let_def)

section \<open>UDP\<close>

record udp_header =
  udp_src_port :: u16
  udp_dst_port :: u16
  udp_len :: u16
  udp_csum :: u16

definition UdpHeader_new :: udp_header where
  "UdpHeader_new = \<lparr>udp_src_port = 0, udp_dst_port = 0, udp_len = 0, udp_csum = 0\<rparr>"

definition src_port :: "udp_header \<Rightarrow> u16" where "src_port h = swap16 (udp_src_port h)"
definition dst_port :: "udp_header \<Rightarrow> u16" where "dst_port h = swap16 (udp_dst_port h)"
definition udp_length :: "udp_header \<Rightarrow> u16" where "udp_length h = swap16 (udp_len h)"
definition checksum :: "udp_header \<Rightarrow> u16" where "checksum h = swap16 (udp_csum h)"

definition set_src_port :: "u16 \<Rightarrow> udp_header \<Rightarrow> udp_header" where
  "set_src_port v h = h\<lparr>udp_src_port := swap16 v\<rparr>"
definition set_dst_port :: "u16 \<Rightarrow> udp_header \<Rightarrow> udp_header" where
  "set_dst_port v h = h\<lparr>udp_dst_port := swap16 v\<rparr>"
definition set_udp_length :: "u16 \<Rightarrow> udp_header \<Rightarrow> udp_header" where
  "set_udp_length v h = h\<lparr>udp_len := swap16 v\<rparr>"
definition set_checksum :: "u16 \<Rightarrow> udp_header \<Rightarrow> udp_header" where
  "set_checksum v h = h\<lparr>udp_csum := swap16 v\<rparr>"

definition enc_udp :: "udp_header \<Rightarrow> byte_string" where
  "enc_udp h = enc_u16 (udp_src_port h) @ enc_u16 (udp_dst_port h) @ enc_u16 (udp_len h) @ enc_u16 (udp_csum h)"

definition dec_udp :: "byte_string \<Rightarrow> udp_header" where
  "dec_udp bs = \<lparr>udp_src_port = dec_u16 (take 2 bs), udp_dst_port = dec_u16 (take 2 (drop 2 bs)),
     udp_len = dec_u16 (take 2 (drop 4 bs)), udp_csum = dec_u16 (take 2 (drop 6 bs))\<rparr>"

lemma enc_udp_length [simp]: "length (enc_udp h) = 8"
  by (simp add: enc_udp_def)

lemma dec_enc_udp [simp]: "dec_udp (enc_udp h) = h"
  by (simp add: enc_udp_def dec_udp_def)

section \<open>IPv4\<close>

record ip_header =
  version_to_len :: u32
  id_to_foffset :: u32
  ttl_to_csum :: u32
  ip_src_ip :: u32
  ip_dst_ip :: u32

definition IpHeader_new :: ip_header where
  "IpHeader_new = \<lparr>version_to_len = 0, id_to_foffset = 0, ttl_to_csum = 0, ip_src_ip = 0, ip_dst_ip = 0\<rparr>"

definition ip_src :: "ip_header \<Rightarrow> u32" where "ip_src h = swap32 (ip_src_ip h)"
definition ip_dst :: "ip_header \<Rightarrow> u32" where "ip_dst h = swap32 (ip_dst_ip h)"
definition set_ip_src :: "u32 \<Rightarrow> ip_header \<Rightarrow> ip_header" where
  "set_ip_src v h = h\<lparr>ip_src_ip := swap32 v\<rparr>"
definition set_ip_dst :: "u32 \<Rightarrow> ip_header \<Rightarrow> ip_header" where
  "set_ip_dst v h = h\<lparr>ip_dst_ip := swap32 v\<rparr>"

definition ttl :: "ip_header \<Rightarrow> u8" where
  "ttl h = ucast (ttl_to_csum h AND 0x000000ff)"
definition set_ttl :: "u8 \<Rightarrow> ip_header \<Rightarrow> ip_header" where
  "set_ttl v h = h\<lparr>ttl_to_csum := (ttl_to_csum h AND NOT 0x000000ff) OR ucast v\<rparr>"

definition protocol :: "ip_header \<Rightarrow> u8" where
  "protocol h = ucast (drop_bit 8 (ttl_to_csum h AND 0xff00))"
definition set_protocol :: "u8 \<Rightarrow> ip_header \<Rightarrow> ip_header" where
  "set_protocol v h = h\<lparr>ttl_to_csum := (ttl_to_csum h AND NOT 0xff00) OR push_bit 8 (ucast v)\<rparr>"

definition csum :: "ip_header \<Rightarrow> u16" where
  "csum h = ucast (drop_bit 16 (ttl_to_csum h AND 0xffff0000))"
definition set_csum :: "u16 \<Rightarrow> ip_header \<Rightarrow> ip_header" where
  "set_csum v h = h\<lparr>ttl_to_csum := (ttl_to_csum h AND NOT 0xffff0000) OR push_bit 16 (ucast (swap16 v))\<rparr>"

definition ip_id :: "ip_header \<Rightarrow> u16" where
  "ip_id h = swap16 (ucast (id_to_foffset h AND 0xffff))"
definition set_ip_id :: "u16 \<Rightarrow> ip_header \<Rightarrow> ip_header" where
  "set_ip_id v h = h\<lparr>id_to_foffset := (id_to_foffset h AND NOT 0xffff) OR ucast (swap16 v)\<rparr>"

definition flags :: "ip_header \<Rightarrow> u8" where
  "flags h = ucast ((ucast (drop_bit 21 (id_to_foffset h)) :: u16) AND 0x7)"
definition set_flags :: "u8 \<Rightarrow> ip_header \<Rightarrow> ip_header" where
  "set_flags v h = h\<lparr>id_to_foffset := (id_to_foffset h AND NOT 0x00e00000) OR push_bit (16 + 5) (ucast (v AND 0x7))\<rparr>"

definition fragment_offset :: "ip_header \<Rightarrow> u16" where
  "fragment_offset h = swap16 (drop_bit 3 ((ucast (id_to_foffset h AND 0xffff) :: u16) AND NOT 0xe))"
definition set_fragment_offset :: "u16 \<Rightarrow> ip_header \<Rightarrow> ip_header" where
  "set_fragment_offset v h =
     h\<lparr>id_to_foffset := swap32 ((swap32 (id_to_foffset h) AND NOT 0x1fff) OR ucast v)\<rparr>"

definition version :: "ip_header \<Rightarrow> u8" where
  "version h = drop_bit 4 (ucast (version_to_len h AND 0xf0))"
definition set_version :: "u8 \<Rightarrow> ip_header \<Rightarrow> ip_header" where
  "set_version v h = h\<lparr>version_to_len := (version_to_len h AND NOT 0xf0) OR push_bit 4 (ucast (v AND 0xf))\<rparr>"

definition ihl :: "ip_header \<Rightarrow> u8" where
  "ihl h = ucast (version_to_len h AND 0x0f)"
definition set_ihl :: "u8 \<Rightarrow> ip_header \<Rightarrow> ip_header" where
  "set_ihl v h = h\<lparr>version_to_len := (version_to_len h AND NOT 0x0f) OR ucast (v AND 0x0f)\<rparr>"

definition dscp :: "ip_header \<Rightarrow> u8" where
  "dscp h = ucast (drop_bit 10 (version_to_len h AND 0xfc00))"
definition set_dscp :: "u8 \<Rightarrow> ip_header \<Rightarrow> ip_header" where
  "set_dscp v h = h\<lparr>version_to_len := (version_to_len h AND NOT 0xfc00) OR push_bit 10 (ucast (v AND 0x3f))\<rparr>"

definition ecn :: "ip_header \<Rightarrow> u8" where
  "ecn h = ucast (drop_bit 8 (version_to_len h AND 0x0300))"
definition set_ecn :: "u8 \<Rightarrow> ip_header \<Rightarrow> ip_header" where
  "set_ecn v h = h\<lparr>version_to_len := (version_to_len h AND NOT 0x0300) OR push_bit 8 (ucast (v AND 0x03))\<rparr>"

definition ip_length :: "ip_header \<Rightarrow> u16" where
  "ip_length h = swap16 (ucast (drop_bit 16 (version_to_len h AND 0xffff0000)))"
definition set_ip_length :: "u16 \<Rightarrow> ip_header \<Rightarrow> ip_header" where
  "set_ip_length v h = h\<lparr>version_to_len := (version_to_len h AND NOT 0xffff0000) OR push_bit 16 (ucast (swap16 v))\<rparr>"

definition enc_ip :: "ip_header \<Rightarrow> byte_string" where
  "enc_ip h = enc_u32 (version_to_len h) @ enc_u32 (id_to_foffset h) @ enc_u32 (ttl_to_csum h) @
     enc_u32 (ip_src_ip h) @ enc_u32 (ip_dst_ip h)"

definition dec_ip :: "byte_string \<Rightarrow> ip_header" where
  "dec_ip bs = \<lparr>version_to_len = dec_u32 (take 4 bs), id_to_foffset = dec_u32 (take 4 (drop 4 bs)),
     ttl_to_csum = dec_u32 (take 4 (drop 8 bs)), ip_src_ip = dec_u32 (take 4 (drop 12 bs)),
     ip_dst_ip = dec_u32 (take 4 (drop 16 bs))\<rparr>"

lemma enc_ip_length [simp]: "length (enc_ip h) = 20"
  by (simp add: enc_ip_def)

lemma dec_enc_ip [simp]: "dec_ip (enc_ip h) = h"
  by (simp add: enc_ip_def dec_ip_def)

lemma ip_ihl_enc: "ip_ihl (enc_ip h) = ihl h"
  by (simp add: ip_ihl_def ihl_def enc_ip_def)

subsection \<open>Bit fields\<close>

text \<open>Every mask of \<open>ip.rs\<close> is a run of ones, which is what the bit-wise reasoning needs.\<close>

lemma field_masks:
  "(0x000000ff :: u32) = mask 8" "(0xff00 :: u32) = push_bit 8 (mask 8)"
  "(0xffff0000 :: u32) = push_bit 16 (mask 16)" "(0xffff :: u32) = mask 16"
  "(0x00e00000 :: u32) = push_bit 21 (mask 3)" "(0xf0 :: u32) = push_bit 4 (mask 4)"
  "(0x0f :: u32) = mask 4" "(0xfc00 :: u32) = push_bit 10 (mask 6)"
  "(0x0300 :: u32) = push_bit 8 (mask 2)" "(0x7 :: u16) = mask 3"
  "(0x7 :: u8) = mask 3" "(0xf :: u8) = mask 4" "(0x3f :: u8) = mask 6" "(0x03 :: u8) = mask 2"
  by (simp_all add: mask_eq_decr_exp)

lemma bit_bound: "bit (w :: u32) n \<Longrightarrow> n < 32" "bit (b :: u8) n \<Longrightarrow> n < 8"
  using bit_imp_le_length [of w n] bit_imp_le_length [of b n] by simp_all

named_theorems ip_fields

lemmas ip_getters = ttl_def protocol_def csum_def ip_id_def flags_def version_def ihl_def dscp_def ecn_def ip_length_def
lemmas ip_setters = set_ttl_def set_protocol_def set_csum_def set_ip_id_def set_flags_def set_version_def
  set_ihl_def set_dscp_def set_ecn_def set_ip_length_def

lemma ttl_set_ttl [ip_fields]: "ttl (set_ttl v h) = v"
  unfolding ttl_def set_ttl_def field_masks by (auto intro!: bit_word_eqI simp: bit_simps dest: bit_bound)

lemma protocol_set_protocol [ip_fields]: "protocol (set_protocol v h) = v"
  unfolding protocol_def set_protocol_def field_masks by (auto intro!: bit_word_eqI simp: bit_simps dest: bit_bound)

lemma csum_set_csum: "csum (set_csum v h) = swap16 v"
  unfolding csum_def set_csum_def field_masks by (auto intro!: bit_word_eqI simp: bit_simps dest: bit_bound)

lemma low_field: "(ucast ((w AND NOT (mask 16)) OR ucast (v :: u16) AND mask 16 :: u32) :: u16) = v"
  by (auto intro!: bit_word_eqI simp: bit_simps dest: bit_bound)

lemma ip_id_set_ip_id [ip_fields]: "ip_id (set_ip_id v h) = v"
proof -
  have "(ucast (((id_to_foffset h AND NOT (mask 16)) OR ucast (swap16 v)) AND mask 16) :: u16) = swap16 v"
    by (auto intro!: bit_word_eqI simp: bit_simps dest: bit_bound)
  then show ?thesis by (simp add: ip_id_def set_ip_id_def field_masks)
qed

lemma ip_length_set_ip_length [ip_fields]: "ip_length (set_ip_length v h) = v"
proof -
  have "(ucast (drop_bit 16 (((version_to_len h AND NOT (push_bit 16 (mask 16))) OR
      push_bit 16 (ucast (swap16 v))) AND push_bit 16 (mask 16))) :: u16) = swap16 v"
    by (auto intro!: bit_word_eqI simp: bit_simps dest: bit_bound)
  then show ?thesis unfolding ip_length_def set_ip_length_def field_masks by simp
qed

lemma flags_set_flags [ip_fields]: "flags (set_flags v h) = v AND 0x7"
  unfolding flags_def set_flags_def field_masks by (auto intro!: bit_word_eqI simp: bit_simps dest: bit_bound)

lemma version_set_version [ip_fields]: "version (set_version v h) = v AND 0xf"
  unfolding version_def set_version_def field_masks by (auto intro!: bit_word_eqI simp: bit_simps dest: bit_bound)

lemma ihl_set_ihl [ip_fields]: "ihl (set_ihl v h) = v AND 0xf"
  unfolding ihl_def set_ihl_def field_masks by (auto intro!: bit_word_eqI simp: bit_simps dest: bit_bound)

lemma dscp_set_dscp [ip_fields]: "dscp (set_dscp v h) = v AND 0x3f"
  unfolding dscp_def set_dscp_def field_masks by (auto intro!: bit_word_eqI simp: bit_simps dest: bit_bound)

lemma ecn_set_ecn [ip_fields]: "ecn (set_ecn v h) = v AND 0x03"
  unfolding ecn_def set_ecn_def field_masks by (auto intro!: bit_word_eqI simp: bit_simps dest: bit_bound)

text \<open>The fields that share a word do not disturb each other.\<close>

lemma ihl_frame [ip_fields]:
  "ihl (set_version v h) = ihl h" "ihl (set_dscp v h) = ihl h" "ihl (set_ecn v h) = ihl h"
  "ihl (set_ip_length n h) = ihl h"
  unfolding ip_getters ip_setters field_masks by (auto intro!: bit_word_eqI simp: bit_simps dest: bit_bound)

lemma ihl_frame_words [ip_fields]:
  "ihl (set_ttl b h) = ihl h" "ihl (set_protocol b h) = ihl h" "ihl (set_csum n h) = ihl h"
  "ihl (set_ip_id n h) = ihl h" "ihl (set_flags b h) = ihl h" "ihl (set_fragment_offset n h) = ihl h"
  "ihl (set_ip_src w h) = ihl h" "ihl (set_ip_dst w h) = ihl h"
  by (simp_all add: ihl_def ip_setters set_fragment_offset_def set_ip_src_def set_ip_dst_def)

lemma version_frame [ip_fields]:
  "version (set_ihl v h) = version h" "version (set_dscp v h) = version h" "version (set_ecn v h) = version h"
  "version (set_ip_length n h) = version h"
  unfolding ip_getters ip_setters field_masks by (auto intro!: bit_word_eqI simp: bit_simps dest: bit_bound)

lemma ip_length_frame [ip_fields]:
  "ip_length (set_ihl v h) = ip_length h" "ip_length (set_version v h) = ip_length h"
  "ip_length (set_dscp v h) = ip_length h" "ip_length (set_ecn v h) = ip_length h"
proof -
  have "\<And>w :: u32. drop_bit 16 (w AND push_bit 16 (mask 16)) = drop_bit 16 w"
    by (auto intro!: bit_word_eqI simp: bit_simps) (drule bit_bound, simp)
  moreover have "drop_bit 16 (version_to_len (set_ihl v h)) = drop_bit 16 (version_to_len h)"
    "drop_bit 16 (version_to_len (set_version v h)) = drop_bit 16 (version_to_len h)"
    "drop_bit 16 (version_to_len (set_dscp v h)) = drop_bit 16 (version_to_len h)"
    "drop_bit 16 (version_to_len (set_ecn v h)) = drop_bit 16 (version_to_len h)"
    unfolding ip_setters field_masks by (auto intro!: bit_word_eqI simp: bit_simps) (drule bit_bound, simp)+
  ultimately show "ip_length (set_ihl v h) = ip_length h" "ip_length (set_version v h) = ip_length h"
    "ip_length (set_dscp v h) = ip_length h" "ip_length (set_ecn v h) = ip_length h"
    unfolding ip_length_def field_masks by simp_all
qed

lemma ttl_protocol_csum_frame [ip_fields]:
  "ttl (set_protocol v h) = ttl h" "ttl (set_csum n h) = ttl h"
  "protocol (set_ttl v h) = protocol h" "protocol (set_csum n h) = protocol h"
  "csum (set_protocol v h) = csum h"
  unfolding ip_getters ip_setters field_masks by (auto intro!: bit_word_eqI simp: bit_simps dest: bit_bound)

lemma csum_set_ttl [ip_fields]: "csum (set_ttl v h) = csum h"
  unfolding ip_getters ip_setters field_masks
  by (auto intro!: bit_word_eqI simp: bit_simps) (drule bit_bound, simp)

lemma ip_header_end: "hdr_offset IpHeader (enc_ip h) = unat (ihl h) * 4"
  by (simp add: hdr_offset_def ip_ihl_enc)

end
