(* ===== verification/Wireformat.thy ===== *)
theory Wireformat
  imports Headers Table
begin

text \<open>
  The wire format of \<open>db/src/wireformat.rs\<close>.

  The enumerations carry the source's discriminants (\<open>_code\<close>). Every RPC header starts with
  one of the two common headers, so the specific headers are record extensions of
  \<open>rpc_request_header\<close> and \<open>rpc_response_header\<close>. The structures are packed: \<open>enc_\<close> lists the fields' bytes in
  order, \<open>dec_\<close> reads them back, and a byte that is no discriminant of the enumeration read from
  it is \<open>UndefinedBehaviour\<close>.
\<close>

section \<open>Enumerations\<close>

datatype service = MasterService | InvalidService

datatype opcode =
    SandstormGetRpc | SandstormPutRpc | SandstormInvokeRpc | SandstormInstallRpc
  | SandstormMultiGetRpc | SandstormCommitRpc | InvalidOperation

datatype rpc_status =
    StatusOk | StatusTenantDoesNotExist | StatusTableDoesNotExist | StatusObjectDoesNotExist
  | StatusMalformedRequest | StatusInternalError | StatusInvalidExtension
  | StatusInvalidOperation | StatusPushback | StatusTxAbort

datatype get_generator = SandstormClient | SandstormExtension | InvalidGenerator

fun service_code :: "service \<Rightarrow> u8" where
  "service_code MasterService = 0x01"
| "service_code InvalidService = 0x02"

fun opcode_code :: "opcode \<Rightarrow> u8" where
  "opcode_code SandstormGetRpc = 0x01"
| "opcode_code SandstormPutRpc = 0x02"
| "opcode_code SandstormInvokeRpc = 0x03"
| "opcode_code SandstormInstallRpc = 0x04"
| "opcode_code SandstormMultiGetRpc = 0x05"
| "opcode_code SandstormCommitRpc = 0x06"
| "opcode_code InvalidOperation = 0x07"

fun status_code :: "rpc_status \<Rightarrow> u8" where
  "status_code StatusOk = 0x01"
| "status_code StatusTenantDoesNotExist = 0x02"
| "status_code StatusTableDoesNotExist = 0x03"
| "status_code StatusObjectDoesNotExist = 0x04"
| "status_code StatusMalformedRequest = 0x05"
| "status_code StatusInternalError = 0x06"
| "status_code StatusInvalidExtension = 0x07"
| "status_code StatusInvalidOperation = 0x08"
| "status_code StatusPushback = 0x09"
| "status_code StatusTxAbort = 0x10"

fun generator_code :: "get_generator \<Rightarrow> u8" where
  "generator_code SandstormClient = 0x1"
| "generator_code SandstormExtension = 0x2"
| "generator_code InvalidGenerator = 0x3"

fun optype_code :: "op_type \<Rightarrow> u8" where
  "optype_code SandstormRead = 0x1"
| "optype_code SandstormWrite = 0x2"
| "optype_code InvalidRecord = 0x3"

text \<open>\<open>transmute\<close> of a byte to an enumeration, given the values of the enumeration: no
  value with that discriminant is undefined behaviour.\<close>

definition transmute_u8 :: "('e \<Rightarrow> u8) \<Rightarrow> 'e list \<Rightarrow> u8 \<Rightarrow> 'e rust" where
  "transmute_u8 code vals b =
     (case filter (\<lambda>v. code v = b) vals of [] \<Rightarrow> Inl UndefinedBehaviour | v # _ \<Rightarrow> Inr v)"

definition service_of :: "u8 \<Rightarrow> service rust" where
  "service_of = transmute_u8 service_code [MasterService, InvalidService]"

definition opcode_of :: "u8 \<Rightarrow> opcode rust" where
  "opcode_of = transmute_u8 opcode_code
     [SandstormGetRpc, SandstormPutRpc, SandstormInvokeRpc, SandstormInstallRpc,
      SandstormMultiGetRpc, SandstormCommitRpc, InvalidOperation]"

definition status_of :: "u8 \<Rightarrow> rpc_status rust" where
  "status_of = transmute_u8 status_code
     [StatusOk, StatusTenantDoesNotExist, StatusTableDoesNotExist, StatusObjectDoesNotExist,
      StatusMalformedRequest, StatusInternalError, StatusInvalidExtension,
      StatusInvalidOperation, StatusPushback, StatusTxAbort]"

definition generator_of :: "u8 \<Rightarrow> get_generator rust" where
  "generator_of = transmute_u8 generator_code [SandstormClient, SandstormExtension, InvalidGenerator]"

definition optype_of :: "u8 \<Rightarrow> op_type rust" where
  "optype_of = transmute_u8 optype_code [SandstormRead, SandstormWrite, InvalidRecord]"

named_theorems wire_simps

lemma service_of_code [simp]: "service_of (service_code x) = Inr x"
  by (cases x) (simp_all add: service_of_def transmute_u8_def)

lemma opcode_of_code [simp]: "opcode_of (opcode_code x) = Inr x"
  by (cases x) (simp_all add: opcode_of_def transmute_u8_def)

lemma status_of_code [simp]: "status_of (status_code x) = Inr x"
  by (cases x) (simp_all add: status_of_def transmute_u8_def)

lemma generator_of_code [simp]: "generator_of (generator_code x) = Inr x"
  by (cases x) (simp_all add: generator_of_def transmute_u8_def)

lemma optype_of_code [simp]: "optype_of (optype_code x) = Inr x"
  by (cases x) (simp_all add: optype_of_def transmute_u8_def)

lemma optype_code_inject [simp]: "optype_code a = optype_code b \<longleftrightarrow> a = b"
  by (cases a; cases b) simp_all

section \<open>Common headers\<close>

record rpc_request_header =
  rq_service :: service
  rq_opcode :: opcode
  rq_tenant :: u32
  rq_stamp :: u64

record rpc_response_header =
  rs_status :: rpc_status
  rs_opcode :: opcode
  rs_tenant :: u32
  rs_stamp :: u64

definition RpcRequestHeader_new :: "service \<Rightarrow> opcode \<Rightarrow> u32 \<Rightarrow> u64 \<Rightarrow> rpc_request_header" where
  "RpcRequestHeader_new s c t st = \<lparr>rq_service = s, rq_opcode = c, rq_tenant = t, rq_stamp = st\<rparr>"

definition RpcResponseHeader_new :: "u64 \<Rightarrow> opcode \<Rightarrow> u32 \<Rightarrow> rpc_response_header" where
  "RpcResponseHeader_new st c t = \<lparr>rs_status = StatusOk, rs_opcode = c, rs_tenant = t, rs_stamp = st\<rparr>"

definition enc_request :: "'a rpc_request_header_scheme \<Rightarrow> byte_string" where
  "enc_request h =
     [service_code (rq_service h), opcode_code (rq_opcode h)] @ enc_u32 (rq_tenant h) @ enc_u64 (rq_stamp h)"

definition enc_response :: "'a rpc_response_header_scheme \<Rightarrow> byte_string" where
  "enc_response h =
     [status_code (rs_status h), opcode_code (rs_opcode h)] @ enc_u32 (rs_tenant h) @ enc_u64 (rs_stamp h)"

definition dec_request :: "byte_string \<Rightarrow> rpc_request_header rust" where
  "dec_request bs =
     rbind (index_slice bs 0) (\<lambda>b. rbind (service_of b) (\<lambda>s.
     rbind (index_slice bs 1) (\<lambda>b. rbind (opcode_of b) (\<lambda>c.
     Inr (RpcRequestHeader_new s c (dec_u32 (take 4 (drop 2 bs))) (dec_u64 (take 8 (drop 6 bs))))))))"

definition dec_response :: "byte_string \<Rightarrow> rpc_response_header rust" where
  "dec_response bs =
     rbind (index_slice bs 0) (\<lambda>b. rbind (status_of b) (\<lambda>s.
     rbind (index_slice bs 1) (\<lambda>b. rbind (opcode_of b) (\<lambda>c.
     Inr \<lparr>rs_status = s, rs_opcode = c, rs_tenant = dec_u32 (take 4 (drop 2 bs)),
          rs_stamp = dec_u64 (take 8 (drop 6 bs))\<rparr>))))"

lemma length_enc_common [simp]: "length (enc_request q) = 14" "length (enc_response r) = 14"
  by (simp_all add: enc_request_def enc_response_def)

lemma dec_enc_request [simp]:
  "dec_request (enc_request h @ bs) = Inr (rpc_request_header.truncate h)"
  by (simp add: dec_request_def enc_request_def index_slice_def RpcRequestHeader_new_def
      rpc_request_header.truncate_def)

lemma dec_enc_response [simp]:
  "dec_response (enc_response h @ bs) = Inr (rpc_response_header.truncate h)"
  by (simp add: dec_response_def enc_response_def index_slice_def rpc_response_header.truncate_def)

section \<open>RPC headers\<close>

subsection \<open>\<open>GetRequest\<close>\<close>

record get_request = rpc_request_header +
  gq_table_id :: u64
  gq_key_length :: u16
  gq_generator :: get_generator

definition GetRequest_new :: "u32 \<Rightarrow> u64 \<Rightarrow> u16 \<Rightarrow> u64 \<Rightarrow> get_generator \<Rightarrow> get_request" where
  "GetRequest_new tenant table_id key_length stamp generator =
     \<lparr>rq_service = MasterService, rq_opcode = SandstormGetRpc, rq_tenant = tenant, rq_stamp = stamp,
      gq_table_id = table_id, gq_key_length = key_length, gq_generator = generator\<rparr>"

definition enc_get_request :: "get_request \<Rightarrow> byte_string" where
  "enc_get_request h = enc_request h @ enc_u64 (gq_table_id h) @ enc_u16 (gq_key_length h) @ [generator_code (gq_generator h)]"

definition dec_get_request :: "byte_string \<Rightarrow> get_request rust" where
  "dec_get_request bs =
     rbind (dec_request bs) (\<lambda>h.
     rbind (index_slice bs 24) (\<lambda>b. rbind (generator_of b) (\<lambda>g.
     Inr \<lparr>rq_service = rq_service h, rq_opcode = rq_opcode h, rq_tenant = rq_tenant h, rq_stamp = rq_stamp h,
       gq_table_id = dec_u64 (take 8 (drop 14 bs)),
       gq_key_length = dec_u16 (take 2 (drop 22 bs)),
       gq_generator = g\<rparr>)))"

lemma enc_get_request_length [simp]: "length (enc_get_request h) = hdr_size GetRequest"
  by (simp add: enc_get_request_def)

lemma dec_enc_get_request [simp]: "dec_get_request (enc_get_request h) = Inr h"
  by (simp add: enc_get_request_def dec_get_request_def rpc_request_header.truncate_def index_slice_def nth_append)

subsection \<open>\<open>GetResponse\<close>\<close>

record get_response = rpc_response_header +
  gr_value_length :: u32

definition GetResponse_new :: "u64 \<Rightarrow> opcode \<Rightarrow> u32 \<Rightarrow> get_response" where
  "GetResponse_new stamp c tenant =
     \<lparr>rs_status = StatusOk, rs_opcode = c, rs_tenant = tenant, rs_stamp = stamp,
      gr_value_length = 0\<rparr>"

definition enc_get_response :: "get_response \<Rightarrow> byte_string" where
  "enc_get_response h = enc_response h @ enc_u32 (gr_value_length h)"

definition dec_get_response :: "byte_string \<Rightarrow> get_response rust" where
  "dec_get_response bs =
     rbind (dec_response bs) (\<lambda>h.
     Inr \<lparr>rs_status = rs_status h, rs_opcode = rs_opcode h, rs_tenant = rs_tenant h, rs_stamp = rs_stamp h,
       gr_value_length = dec_u32 (take 4 (drop 14 bs))\<rparr>)"

lemma enc_get_response_length [simp]: "length (enc_get_response h) = hdr_size GetResponse"
  by (simp add: enc_get_response_def)

lemma dec_enc_get_response [simp]: "dec_get_response (enc_get_response h) = Inr h"
  by (simp add: enc_get_response_def dec_get_response_def rpc_response_header.truncate_def index_slice_def nth_append)

subsection \<open>\<open>PutRequest\<close>\<close>

record put_request = rpc_request_header +
  pq_table_id :: u64
  pq_key_length :: u16

definition PutRequest_new :: "u32 \<Rightarrow> u64 \<Rightarrow> u16 \<Rightarrow> u64 \<Rightarrow> put_request" where
  "PutRequest_new tenant table_id key_length stamp =
     \<lparr>rq_service = MasterService, rq_opcode = SandstormPutRpc, rq_tenant = tenant, rq_stamp = stamp,
      pq_table_id = table_id, pq_key_length = key_length\<rparr>"

definition enc_put_request :: "put_request \<Rightarrow> byte_string" where
  "enc_put_request h = enc_request h @ enc_u64 (pq_table_id h) @ enc_u16 (pq_key_length h)"

definition dec_put_request :: "byte_string \<Rightarrow> put_request rust" where
  "dec_put_request bs =
     rbind (dec_request bs) (\<lambda>h.
     Inr \<lparr>rq_service = rq_service h, rq_opcode = rq_opcode h, rq_tenant = rq_tenant h, rq_stamp = rq_stamp h,
       pq_table_id = dec_u64 (take 8 (drop 14 bs)),
       pq_key_length = dec_u16 (take 2 (drop 22 bs))\<rparr>)"

lemma enc_put_request_length [simp]: "length (enc_put_request h) = hdr_size PutRequest"
  by (simp add: enc_put_request_def)

lemma dec_enc_put_request [simp]: "dec_put_request (enc_put_request h) = Inr h"
  by (simp add: enc_put_request_def dec_put_request_def rpc_request_header.truncate_def index_slice_def nth_append)

subsection \<open>\<open>PutResponse\<close>\<close>

type_synonym put_response = rpc_response_header

definition PutResponse_new :: "u64 \<Rightarrow> opcode \<Rightarrow> u32 \<Rightarrow> put_response" where
  "PutResponse_new stamp c tenant = RpcResponseHeader_new stamp c tenant"

subsection \<open>\<open>InvokeRequest\<close>\<close>

record invoke_request = rpc_request_header +
  iq_name_length :: u32
  iq_args_length :: u32

definition InvokeRequest_new :: "u32 \<Rightarrow> u32 \<Rightarrow> u32 \<Rightarrow> u64 \<Rightarrow> invoke_request" where
  "InvokeRequest_new tenant name_length args_length stamp =
     \<lparr>rq_service = MasterService, rq_opcode = SandstormInvokeRpc, rq_tenant = tenant, rq_stamp = stamp,
      iq_name_length = name_length, iq_args_length = args_length\<rparr>"

definition enc_invoke_request :: "invoke_request \<Rightarrow> byte_string" where
  "enc_invoke_request h = enc_request h @ enc_u32 (iq_name_length h) @ enc_u32 (iq_args_length h)"

definition dec_invoke_request :: "byte_string \<Rightarrow> invoke_request rust" where
  "dec_invoke_request bs =
     rbind (dec_request bs) (\<lambda>h.
     Inr \<lparr>rq_service = rq_service h, rq_opcode = rq_opcode h, rq_tenant = rq_tenant h, rq_stamp = rq_stamp h,
       iq_name_length = dec_u32 (take 4 (drop 14 bs)),
       iq_args_length = dec_u32 (take 4 (drop 18 bs))\<rparr>)"

lemma enc_invoke_request_length [simp]: "length (enc_invoke_request h) = hdr_size InvokeRequest"
  by (simp add: enc_invoke_request_def)

lemma dec_enc_invoke_request [simp]: "dec_invoke_request (enc_invoke_request h) = Inr h"
  by (simp add: enc_invoke_request_def dec_invoke_request_def rpc_request_header.truncate_def index_slice_def nth_append)

subsection \<open>\<open>InvokeResponse\<close>\<close>

type_synonym invoke_response = rpc_response_header

definition InvokeResponse_new :: "u64 \<Rightarrow> opcode \<Rightarrow> u32 \<Rightarrow> invoke_response" where
  "InvokeResponse_new stamp c tenant = RpcResponseHeader_new stamp c tenant"

subsection \<open>\<open>InstallRequest\<close>\<close>

record install_request = rpc_request_header +
  nq_name_length :: u32
  nq_extn_length :: u32

definition InstallRequest_new :: "u32 \<Rightarrow> u32 \<Rightarrow> u32 \<Rightarrow> u64 \<Rightarrow> install_request" where
  "InstallRequest_new tenant name_length extn_length stamp =
     \<lparr>rq_service = MasterService, rq_opcode = SandstormInstallRpc, rq_tenant = tenant, rq_stamp = stamp,
      nq_name_length = name_length, nq_extn_length = extn_length\<rparr>"

definition enc_install_request :: "install_request \<Rightarrow> byte_string" where
  "enc_install_request h = enc_request h @ enc_u32 (nq_name_length h) @ enc_u32 (nq_extn_length h)"

definition dec_install_request :: "byte_string \<Rightarrow> install_request rust" where
  "dec_install_request bs =
     rbind (dec_request bs) (\<lambda>h.
     Inr \<lparr>rq_service = rq_service h, rq_opcode = rq_opcode h, rq_tenant = rq_tenant h, rq_stamp = rq_stamp h,
       nq_name_length = dec_u32 (take 4 (drop 14 bs)),
       nq_extn_length = dec_u32 (take 4 (drop 18 bs))\<rparr>)"

lemma enc_install_request_length [simp]: "length (enc_install_request h) = hdr_size InstallRequest"
  by (simp add: enc_install_request_def)

lemma dec_enc_install_request [simp]: "dec_install_request (enc_install_request h) = Inr h"
  by (simp add: enc_install_request_def dec_install_request_def rpc_request_header.truncate_def index_slice_def nth_append)

subsection \<open>\<open>InstallResponse\<close>\<close>

type_synonym install_response = rpc_response_header

definition InstallResponse_new :: "u64 \<Rightarrow> opcode \<Rightarrow> u32 \<Rightarrow> install_response" where
  "InstallResponse_new stamp c tenant = RpcResponseHeader_new stamp c tenant"

subsection \<open>\<open>MultiGetRequest\<close>\<close>

record multiget_request = rpc_request_header +
  mq_table_id :: u64
  mq_key_len :: u16
  mq_num_keys :: u32

definition MultiGetRequest_new :: "u32 \<Rightarrow> u64 \<Rightarrow> u16 \<Rightarrow> u32 \<Rightarrow> u64 \<Rightarrow> multiget_request" where
  "MultiGetRequest_new tenant table_id key_len num_keys stamp =
     \<lparr>rq_service = MasterService, rq_opcode = SandstormMultiGetRpc, rq_tenant = tenant, rq_stamp = stamp,
      mq_table_id = table_id, mq_key_len = key_len, mq_num_keys = num_keys\<rparr>"

definition enc_multiget_request :: "multiget_request \<Rightarrow> byte_string" where
  "enc_multiget_request h = enc_request h @ enc_u64 (mq_table_id h) @ enc_u16 (mq_key_len h) @ enc_u32 (mq_num_keys h)"

definition dec_multiget_request :: "byte_string \<Rightarrow> multiget_request rust" where
  "dec_multiget_request bs =
     rbind (dec_request bs) (\<lambda>h.
     Inr \<lparr>rq_service = rq_service h, rq_opcode = rq_opcode h, rq_tenant = rq_tenant h, rq_stamp = rq_stamp h,
       mq_table_id = dec_u64 (take 8 (drop 14 bs)),
       mq_key_len = dec_u16 (take 2 (drop 22 bs)),
       mq_num_keys = dec_u32 (take 4 (drop 24 bs))\<rparr>)"

lemma enc_multiget_request_length [simp]: "length (enc_multiget_request h) = hdr_size MultiGetRequest"
  by (simp add: enc_multiget_request_def)

lemma dec_enc_multiget_request [simp]: "dec_multiget_request (enc_multiget_request h) = Inr h"
  by (simp add: enc_multiget_request_def dec_multiget_request_def rpc_request_header.truncate_def index_slice_def nth_append)

subsection \<open>\<open>MultiGetResponse\<close>\<close>

record multiget_response = rpc_response_header +
  mr_num_records :: u32

definition MultiGetResponse_new :: "u64 \<Rightarrow> opcode \<Rightarrow> u32 \<Rightarrow> u32 \<Rightarrow> multiget_response" where
  "MultiGetResponse_new stamp c tenant n_records =
     \<lparr>rs_status = StatusOk, rs_opcode = c, rs_tenant = tenant, rs_stamp = stamp,
      mr_num_records = n_records\<rparr>"

definition enc_multiget_response :: "multiget_response \<Rightarrow> byte_string" where
  "enc_multiget_response h = enc_response h @ enc_u32 (mr_num_records h)"

definition dec_multiget_response :: "byte_string \<Rightarrow> multiget_response rust" where
  "dec_multiget_response bs =
     rbind (dec_response bs) (\<lambda>h.
     Inr \<lparr>rs_status = rs_status h, rs_opcode = rs_opcode h, rs_tenant = rs_tenant h, rs_stamp = rs_stamp h,
       mr_num_records = dec_u32 (take 4 (drop 14 bs))\<rparr>)"

lemma enc_multiget_response_length [simp]: "length (enc_multiget_response h) = hdr_size MultiGetResponse"
  by (simp add: enc_multiget_response_def)

lemma dec_enc_multiget_response [simp]: "dec_multiget_response (enc_multiget_response h) = Inr h"
  by (simp add: enc_multiget_response_def dec_multiget_response_def rpc_response_header.truncate_def index_slice_def nth_append)

subsection \<open>\<open>CommitRequest\<close>\<close>

record commit_request = rpc_request_header +
  cq_table_id :: u64
  cq_key_length :: u16
  cq_value_length :: u16

definition CommitRequest_new :: "u32 \<Rightarrow> u64 \<Rightarrow> u64 \<Rightarrow> u16 \<Rightarrow> u16 \<Rightarrow> commit_request" where
  "CommitRequest_new tenant stamp table_id key_len val_len =
     \<lparr>rq_service = MasterService, rq_opcode = SandstormCommitRpc, rq_tenant = tenant, rq_stamp = stamp,
      cq_table_id = table_id, cq_key_length = key_len, cq_value_length = val_len\<rparr>"

definition enc_commit_request :: "commit_request \<Rightarrow> byte_string" where
  "enc_commit_request h = enc_request h @ enc_u64 (cq_table_id h) @ enc_u16 (cq_key_length h) @ enc_u16 (cq_value_length h)"

definition dec_commit_request :: "byte_string \<Rightarrow> commit_request rust" where
  "dec_commit_request bs =
     rbind (dec_request bs) (\<lambda>h.
     Inr \<lparr>rq_service = rq_service h, rq_opcode = rq_opcode h, rq_tenant = rq_tenant h, rq_stamp = rq_stamp h,
       cq_table_id = dec_u64 (take 8 (drop 14 bs)),
       cq_key_length = dec_u16 (take 2 (drop 22 bs)),
       cq_value_length = dec_u16 (take 2 (drop 24 bs))\<rparr>)"

lemma enc_commit_request_length [simp]: "length (enc_commit_request h) = hdr_size CommitRequest"
  by (simp add: enc_commit_request_def)

lemma dec_enc_commit_request [simp]: "dec_commit_request (enc_commit_request h) = Inr h"
  by (simp add: enc_commit_request_def dec_commit_request_def rpc_request_header.truncate_def index_slice_def nth_append)

subsection \<open>\<open>CommitResponse\<close>\<close>

type_synonym commit_response = rpc_response_header

definition CommitResponse_new :: "u64 \<Rightarrow> opcode \<Rightarrow> u32 \<Rightarrow> commit_response" where
  "CommitResponse_new stamp c tenant = RpcResponseHeader_new stamp c tenant"

end
