(* ===== verification/Rpc.thy ===== *)
theory Rpc
  imports Wireformat
begin

text \<open>
  Requests, as \<open>db/src/rpc.rs\<close> reads and builds them. The mempool is DPDK's: the functions that
  allocate take what \<open>mbuf_alloc\<close> returned.

  The lemmas follow a request from the client to the server: \<open>send_request_view\<close> gives the frame
  a \<open>create_\<close> function leaves behind, and \<open>receive_request\<close> what the server sees after parsing the
  three network headers.
\<close>

section \<open>Reading a request\<close>

definition parse_rpc_service :: "packet \<Rightarrow> service rust" where
  "parse_rpc_service request =
     rbind (get_payload request) (\<lambda>pay. rbind (index_slice pay 0) (\<lambda>service.
       if service < service_code InvalidService then service_of service else Inr InvalidService))"

definition parse_rpc_opcode :: "packet \<Rightarrow> opcode rust" where
  "parse_rpc_opcode request =
     rbind (get_payload request) (\<lambda>pay. rbind (index_slice pay 1) (\<lambda>opcode.
       if opcode < opcode_code InvalidOperation then opcode_of opcode else Inr InvalidOperation))"

definition parse_record_optype :: "byte_string \<Rightarrow> op_type rust" where
  "parse_record_optype record =
     rbind (index_slice record 0) (\<lambda>optype.
       if optype < optype_code InvalidRecord then optype_of optype else Inr InvalidRecord)"

section \<open>Building a request\<close>

definition set_udp :: "(udp_header \<Rightarrow> udp_header) \<Rightarrow> byte_string \<Rightarrow> byte_string" where
  "set_udp f h = enc_udp (f (dec_udp h))"

definition set_ip :: "(ip_header \<Rightarrow> ip_header) \<Rightarrow> byte_string \<Rightarrow> byte_string" where
  "set_ip f h = enc_ip (f (dec_ip h))"

definition create_request ::
    "mbuf option \<Rightarrow> mac_header \<Rightarrow> ip_header \<Rightarrow> udp_header \<Rightarrow> u16 \<Rightarrow> packet rust" where
  "create_request alloc mac ip udp dst =
     rbind (expect (new_packet alloc)) (\<lambda>p.
     rbind (push_header MacHeader (enc_mac mac) p) (\<lambda>r. rbind (expect r) (\<lambda>p.
     rbind (push_header IpHeader (enc_ip ip) p) (\<lambda>r. rbind (expect r) (\<lambda>p.
     rbind (push_header UdpHeader (enc_udp udp) p) (\<lambda>r. rbind (expect r) (\<lambda>p.
     modify_header (set_udp (set_dst_port dst)) p)))))))"

definition fixup_header_length_fields :: "packet \<Rightarrow> packet rust" where
  "fixup_header_length_fields request =
     rbind (get_payload request) (\<lambda>pay.
     let udp_len = (word_of_nat (8 + length pay) :: u16)
     in rbind (modify_header (set_udp (set_udp_length udp_len)) request) (\<lambda>request.
        rbind (deparse_header 20 request) (\<lambda>request.
        modify_header (set_ip (set_ip_length (20 + udp_len))) request)))"

text \<open>The end every \<open>create_\<close> function shares: the RPC header, the payload, the length fields.\<close>

definition add_expect :: "byte_string \<Rightarrow> packet \<Rightarrow> packet rust" where
  "add_expect data p =
     rbind (add_to_payload_tail (length data) data p) (\<lambda>(p, r).
       case r of Inl e \<Rightarrow> Inl UnwrapFailed | Inr u \<Rightarrow> Inr p)"

definition finish_request :: "hdr_type \<Rightarrow> byte_string \<Rightarrow> byte_string \<Rightarrow> packet \<Rightarrow> packet rust" where
  "finish_request ty hdr data request =
     rbind (push_header ty hdr request) (\<lambda>r. rbind (expect r) (\<lambda>request.
     rbind (add_expect data request) (\<lambda>request.
     rbind (deparse_header 8 request) (\<lambda>request.
     fixup_header_length_fields request))))"

definition create_get_rpc ::
    "mbuf option \<Rightarrow> mac_header \<Rightarrow> ip_header \<Rightarrow> udp_header \<Rightarrow> u32 \<Rightarrow> u64 \<Rightarrow> byte_string \<Rightarrow> u64 \<Rightarrow> u16 \<Rightarrow>
     get_generator \<Rightarrow> packet rust" where
  "create_get_rpc alloc mac ip udp tenant table_id key i dst generator =
     (if 65535 < length key then Inl ExplicitPanic
      else rbind (create_request alloc mac ip udp dst)
             (finish_request GetRequest
               (enc_get_request (GetRequest_new tenant table_id (word_of_nat (length key)) i generator)) key))"

definition create_put_rpc ::
    "mbuf option \<Rightarrow> mac_header \<Rightarrow> ip_header \<Rightarrow> udp_header \<Rightarrow> u32 \<Rightarrow> u64 \<Rightarrow> byte_string \<Rightarrow> byte_string \<Rightarrow>
     u64 \<Rightarrow> u16 \<Rightarrow> packet rust" where
  "create_put_rpc alloc mac ip udp tenant table_id key val i dst =
     (if 65535 < length key then Inl ExplicitPanic
      else rbind (create_request alloc mac ip udp dst)
             (finish_request PutRequest
               (enc_put_request (PutRequest_new tenant table_id (word_of_nat (length key)) i)) (key @ val)))"

definition create_multiget_rpc ::
    "mbuf option \<Rightarrow> mac_header \<Rightarrow> ip_header \<Rightarrow> udp_header \<Rightarrow> u32 \<Rightarrow> u64 \<Rightarrow> u16 \<Rightarrow> u32 \<Rightarrow> byte_string \<Rightarrow>
     u64 \<Rightarrow> u16 \<Rightarrow> packet rust" where
  "create_multiget_rpc alloc mac ip udp tenant table_id key_len num_keys keys i dst =
     rbind (create_request alloc mac ip udp dst)
       (finish_request MultiGetRequest
         (enc_multiget_request (MultiGetRequest_new tenant table_id key_len num_keys i)) keys)"

definition create_invoke_rpc ::
    "mbuf option \<Rightarrow> mac_header \<Rightarrow> ip_header \<Rightarrow> udp_header \<Rightarrow> u32 \<Rightarrow> u32 \<Rightarrow> byte_string \<Rightarrow> u64 \<Rightarrow> u16 \<Rightarrow>
     packet rust" where
  "create_invoke_rpc alloc mac ip udp tenant name_len pay i dst =
     (if 4294967295 < usize_sub (length pay) (unat name_len) then Inl ExplicitPanic
      else rbind (create_request alloc mac ip udp dst)
             (finish_request InvokeRequest
               (enc_invoke_request (InvokeRequest_new tenant name_len
                  (word_of_nat (usize_sub (length pay) (unat name_len))) i)) pay))"

text \<open>The first check of \<open>create_commit_rpc\<close> compares 16-bit values with the largest of them.\<close>

definition create_commit_rpc ::
    "mbuf option \<Rightarrow> mac_header \<Rightarrow> ip_header \<Rightarrow> udp_header \<Rightarrow> u32 \<Rightarrow> u64 \<Rightarrow> byte_string \<Rightarrow> u64 \<Rightarrow> u16 \<Rightarrow>
     u16 \<Rightarrow> u16 \<Rightarrow> packet rust" where
  "create_commit_rpc alloc mac ip udp tenant table_id pay i dst key_len val_len =
     (if 0xffff < key_len \<and> 0xffff < val_len then Inl ExplicitPanic
      else if 1436 < length pay then Inl ExplicitPanic
      else rbind (create_request alloc mac ip udp dst)
             (finish_request CommitRequest
               (enc_commit_request (CommitRequest_new tenant i table_id key_len val_len)) pay))"

section \<open>The frame of a request\<close>

definition plain_network :: "mac_header \<Rightarrow> ip_header \<Rightarrow> bool" where
  "plain_network mac ip \<longleftrightarrow> wf_mac mac \<and> mac_etype mac \<noteq> 0x8100 \<and> mac_etype mac \<noteq> 0x9100 \<and> ihl ip = 5"

text \<open>The three network headers of a request, and its whole frame.\<close>

definition network_bytes :: "mac_header \<Rightarrow> ip_header \<Rightarrow> udp_header \<Rightarrow> byte_string" where
  "network_bytes mac ip udp = enc_mac mac @ enc_ip ip @ enc_udp udp"

lemma plain_offsets:
  assumes "plain_network mac ip"
  shows "hdr_offset MacHeader (enc_mac mac) = 14" "hdr_offset IpHeader (enc_ip ip) = 20"
    "length (enc_mac mac) = 14"
  using assms by (simp_all add: plain_network_def hdr_offset_def mac_offset_enc ip_ihl_enc)

lemma udp_offset [simp]: "hdr_offset UdpHeader bs = 8" "hdr_offset NullHeader bs = 0"
  by (simp_all add: hdr_offset_def)

lemma length_set_udp [simp]: "length (set_udp f h) = 8"
  by (simp add: set_udp_def)

lemma length_set_ip [simp]: "length (set_ip f h) = 20"
  by (simp add: set_ip_def)

text \<open>The three network headers pushed onto a fresh packet.\<close>

lemma push_network_view:
  assumes "wf_mbuf m" and "m_data_len m = 0" and "42 \<le> pkt_tailroom m" and "plain_network mac ip"
  shows "\<exists>p0 p1 p2 p3. new_packet (Some m) = Some p0 \<and> push_header MacHeader (enc_mac mac) p0 = Inr (Some p1) \<and>
    push_header IpHeader (enc_ip ip) p1 = Inr (Some p2) \<and> push_header UdpHeader (enc_udp udp) p2 = Inr (Some p3) \<and>
    view_at UdpHeader 34 (network_bytes mac ip udp) (pkt_tailroom m - 42) p3"
proof -
  let ?r = "pkt_tailroom m"
  note off = plain_offsets [OF assms(4)]
  have room: "14 \<le> ?r" "20 \<le> ?r - 14" "8 \<le> ?r - 34" using assms(3) by linarith+
  obtain p0 where p0: "new_packet (Some m) = Some p0" "view_at NullHeader 0 [] ?r p0"
    using new_packet_view [OF assms(1,2)] by blast
  obtain p1 where p1: "push_header MacHeader (enc_mac mac) p0 = Inr (Some p1)"
      "view_at MacHeader 0 (enc_mac mac) (?r - 14) p1"
    using push_header_view [OF p0(2), of "enc_mac mac" MacHeader] off room by auto
  obtain p2 where p2: "push_header IpHeader (enc_ip ip) p1 = Inr (Some p2)"
      "view_at IpHeader 14 (enc_mac mac @ enc_ip ip) (?r - 34) p2"
    using push_header_view [OF p1(2), of "enc_ip ip" IpHeader] off room by auto
  obtain p3 where p3: "push_header UdpHeader (enc_udp udp) p2 = Inr (Some p3)"
      "view_at UdpHeader 34 (network_bytes mac ip udp) (?r - 42) p3"
    using push_header_view [OF p2(2), of "enc_udp udp" UdpHeader] off room by (auto simp: network_bytes_def)
  show ?thesis using p0(1) p1(1) p2(1) p3 by blast
qed

lemma modify_udp_view:
  assumes "plain_network mac ip" and "view_at UdpHeader 34 (network_bytes mac ip udp) r p"
  shows "\<exists>p'. modify_header (set_udp f) p = Inr p' \<and> view_at UdpHeader 34 (network_bytes mac ip (f udp)) r p'"
  using modify_header_view [OF assms(2), of "set_udp f"] plain_offsets [OF assms(1)]
  by (auto simp: network_bytes_def set_udp_def write_at_def)

lemma create_request_view:
  assumes "wf_mbuf m" and "m_data_len m = 0" and "42 \<le> pkt_tailroom m" and "plain_network mac ip"
  shows "\<exists>p. create_request (Some m) mac ip udp dst = Inr p \<and>
    view_at UdpHeader 34 (network_bytes mac ip (set_dst_port dst udp)) (pkt_tailroom m - 42) p"
proof -
  obtain p0 p1 p2 p3 where p: "new_packet (Some m) = Some p0" "push_header MacHeader (enc_mac mac) p0 = Inr (Some p1)"
      "push_header IpHeader (enc_ip ip) p1 = Inr (Some p2)" "push_header UdpHeader (enc_udp udp) p2 = Inr (Some p3)"
      "view_at UdpHeader 34 (network_bytes mac ip udp) (pkt_tailroom m - 42) p3"
    using push_network_view [OF assms] by blast
  obtain p4 where p4: "modify_header (set_udp (set_dst_port dst)) p3 = Inr p4"
      "view_at UdpHeader 34 (network_bytes mac ip (set_dst_port dst udp)) (pkt_tailroom m - 42) p4"
    using modify_udp_view [OF assms(4) p(5)] by blast
  have "create_request (Some m) mac ip udp dst = Inr p4"
    by (simp add: create_request_def p p4)
  then show ?thesis using p4(2) by blast
qed

text \<open>The headers that follow UDP.\<close>

definition rpc_type :: "hdr_type \<Rightarrow> bool" where
  "rpc_type ty \<longleftrightarrow> ty \<notin> {NullHeader, MacHeader, IpHeader, UdpHeader}"

lemma rpc_type_simps [simp]:
  assumes "rpc_type ty"
  shows "previous_header ty = UdpHeader" "hdr_offset ty bs = hdr_size ty"
  using assms by (cases ty; simp add: rpc_type_def hdr_offset_def)+

definition request_bytes ::
    "mac_header \<Rightarrow> ip_header \<Rightarrow> udp_header \<Rightarrow> u16 \<Rightarrow> byte_string \<Rightarrow> byte_string" where
  "request_bytes mac ip udp dst body =
     (let udp_len = word_of_nat (8 + length body)
      in network_bytes mac (set_ip_length (20 + udp_len) ip)
           (set_udp_length udp_len (set_dst_port dst udp)) @ body)"

lemma plain_network_length [simp]: "plain_network mac (set_ip_length n ip) = plain_network mac ip"
  by (simp add: plain_network_def ip_fields)

lemma fixup_view:
  assumes "plain_network mac ip" and "view_at UdpHeader 34 (network_bytes mac ip (set_dst_port dst udp) @ body) r p"
  shows "\<exists>p'. fixup_header_length_fields p = Inr p' \<and>
    view_at IpHeader 14 (request_bytes mac ip udp dst body) r p'"
proof -
  let ?udp = "set_dst_port dst udp" and ?n = "word_of_nat (8 + length body) :: u16"
  note off = plain_offsets [OF assms(1)]
  have pay: "get_payload p = Inr body"
    using get_payload_view [OF assms(2)] off by (simp add: network_bytes_def)
  obtain p1 where p1: "modify_header (set_udp (set_udp_length ?n)) p = Inr p1"
      "view_at UdpHeader 34 (network_bytes mac ip (set_udp_length ?n ?udp) @ body) r p1"
    using modify_header_view [OF assms(2), of "set_udp (set_udp_length ?n)"] off
    by (auto simp: network_bytes_def set_udp_def write_at_def)
  obtain p2 where p2: "deparse_header 20 p1 = Inr p2"
      "view_at IpHeader 14 (network_bytes mac ip (set_udp_length ?n ?udp) @ body) r p2"
    using deparse_header_view [OF p1(2), of 20 IpHeader] off by (auto simp: network_bytes_def)
  have ip': "hdr_offset IpHeader (enc_ip (set_ip_length (20 + ?n) ip)) = 20"
    using plain_offsets(2) [of mac "set_ip_length (20 + ?n) ip"] assms(1) by simp
  obtain p3 where "modify_header (set_ip (set_ip_length (20 + ?n))) p2 = Inr p3"
      "view_at IpHeader 14 (request_bytes mac ip udp dst body) r p3"
    using modify_header_view [OF p2(2), of "set_ip (set_ip_length (20 + ?n))"] off ip'
    by (auto simp: network_bytes_def set_ip_def write_at_def request_bytes_def Let_def)
  then show ?thesis using pay p1 p2 by (simp add: fixup_header_length_fields_def Let_def)
qed

lemma finish_request_view:
  assumes "plain_network mac ip" and "view_at UdpHeader 34 (network_bytes mac ip (set_dst_port dst udp)) r p"
    and "rpc_type ty" and "length hdr = hdr_size ty" and "data \<noteq> []" and "hdr_size ty + length data \<le> r"
  shows "\<exists>p'. finish_request ty hdr data p = Inr p' \<and>
    view_at IpHeader 14 (request_bytes mac ip udp dst (hdr @ data)) (r - hdr_size ty - length data) p'"
proof -
  let ?net = "network_bytes mac ip (set_dst_port dst udp)"
  note off = plain_offsets [OF assms(1)]
  have len: "length ?net = 42" by (simp add: network_bytes_def off)
  obtain p1 where p1: "push_header ty hdr p = Inr (Some p1)"
      "view_at ty 42 (?net @ hdr) (r - hdr_size ty) p1"
    using push_header_view [OF assms(2) _ assms(4)] len assms(3,6) by auto
  obtain p2 where p2: "add_to_payload_tail (length data) data p1 = Inr (p2, Inr ())"
      "view_at ty 42 ((?net @ hdr) @ data) (r - hdr_size ty - length data) p2"
    using add_tail_view [OF p1(2) assms(5)] assms(6) by force
  obtain p3 where p3: "deparse_header 8 p2 = Inr p3"
      "view_at UdpHeader 34 (?net @ hdr @ data) (r - hdr_size ty - length data) p3"
    using deparse_header_view [OF p2(2), of 8 UdpHeader] len assms(3) by auto
  obtain p4 where "fixup_header_length_fields p3 = Inr p4"
      "view_at IpHeader 14 (request_bytes mac ip udp dst (hdr @ data)) (r - hdr_size ty - length data) p4"
    using fixup_view [OF assms(1) p3(2)] by blast
  then show ?thesis by (simp add: finish_request_def add_expect_def p1 p2 p3)
qed

lemma send_request_view:
  assumes "wf_mbuf m" and "m_data_len m = 0" and "plain_network mac ip" and "rpc_type ty"
    and "length hdr = hdr_size ty" and "data \<noteq> []" and "42 + hdr_size ty + length data \<le> pkt_tailroom m"
  shows "\<exists>p. rbind (create_request (Some m) mac ip udp dst) (finish_request ty hdr data) = Inr p \<and>
    view_at IpHeader 14 (request_bytes mac ip udp dst (hdr @ data))
      (pkt_tailroom m - 42 - hdr_size ty - length data) p"
proof -
  obtain p where p: "create_request (Some m) mac ip udp dst = Inr p"
      "view_at UdpHeader 34 (network_bytes mac ip (set_dst_port dst udp)) (pkt_tailroom m - 42) p"
    using create_request_view [OF assms(1,2) _ assms(3)] assms(7) by force
  have "hdr_size ty + length data \<le> pkt_tailroom m - 42" using assms(7) by simp
  from finish_request_view [OF assms(3) p(2) assms(4-6) this] show ?thesis by (simp add: p(1))
qed

section \<open>Receiving a request\<close>

definition parse_network :: "packet \<Rightarrow> packet rust" where
  "parse_network p =
     rbind (parse_header MacHeader p) (\<lambda>p. rbind (parse_header IpHeader p) (parse_header UdpHeader))"

lemma receive_request:
  assumes "plain_network mac ip" and "view_at NullHeader 0 (request_bytes mac ip udp dst body) r p"
  shows "\<exists>p'. parse_network p = Inr p' \<and>
    view_at UdpHeader 34 (request_bytes mac ip udp dst body) r p' \<and> get_payload p' = Inr body"
proof -
  let ?n = "word_of_nat (8 + length body) :: u16"
  let ?ip = "set_ip_length (20 + ?n) ip"
  let ?udp = "set_udp_length ?n (set_dst_port dst udp)"
  have fr: "request_bytes mac ip udp dst body = enc_mac mac @ enc_ip ?ip @ enc_udp ?udp @ body"
    by (simp add: request_bytes_def network_bytes_def Let_def)
  have "plain_network mac ?ip" using assms(1) by simp
  note off = plain_offsets [OF this]
  obtain p1 where p1: "parse_header MacHeader p = Inr p1"
      "view_at MacHeader 0 (enc_mac mac @ enc_ip ?ip @ enc_udp ?udp @ body) r p1"
    using parse_header_view [OF assms(2), of MacHeader] off by (auto simp: fr)
  obtain p2 where p2: "parse_header IpHeader p1 = Inr p2"
      "view_at IpHeader 14 (enc_mac mac @ enc_ip ?ip @ enc_udp ?udp @ body) r p2"
    using parse_header_view [OF p1(2), of IpHeader] off by auto
  obtain p3 where p3: "parse_header UdpHeader p2 = Inr p3"
      "view_at UdpHeader 34 (enc_mac mac @ enc_ip ?ip @ enc_udp ?udp @ body) r p3"
    using parse_header_view [OF p2(2), of UdpHeader] off by auto
  moreover have "get_payload p3 = Inr body"
    using get_payload_view [OF p3(2)] off by simp
  ultimately show ?thesis by (simp add: parse_network_def p1 p2 fr)
qed

lemma packet_reset_view:
  assumes "view_at ty i fr r p"
  shows "view_at NullHeader 0 fr r (packet_reset p)"
proof -
  note v = view_atD [OF assms]
  have "wf_packet (packet_reset p)"
    using wf_packetD(1) [OF v(1)]
    by (simp add: wf_packet_def packet_reset_def data_address_def header_end_def)
  then show ?thesis using v by (simp add: view_at_def packet_reset_def)
qed

text \<open>\<open>receive ty p\<close> takes a frame apart the way the server does: the network headers, then the
  service and opcode bytes, then the RPC header of type \<open>ty\<close>.\<close>

definition receive :: "hdr_type \<Rightarrow> packet \<Rightarrow> (service \<times> opcode \<times> byte_string \<times> byte_string) rust" where
  "receive ty p =
     rbind (parse_network (packet_reset p)) (\<lambda>u.
     rbind (parse_rpc_service u) (\<lambda>s. rbind (parse_rpc_opcode u) (\<lambda>c.
     rbind (parse_header ty u) (\<lambda>g.
     rbind (get_header g) (\<lambda>h. rbind (get_payload g) (\<lambda>d. Inr (s, c, h, d)))))))"

lemma parse_service_opcode:
  assumes "get_payload u = Inr (enc_request h @ rest)"
  shows "parse_rpc_service u = Inr (rq_service h)" "parse_rpc_opcode u = Inr (rq_opcode h)"
proof -
  show "parse_rpc_service u = Inr (rq_service h)"
    using assms by (cases "rq_service h")
      (simp_all add: parse_rpc_service_def enc_request_def index_slice_def service_of_def transmute_u8_def)
  show "parse_rpc_opcode u = Inr (rq_opcode h)"
    using assms by (cases "rq_opcode h")
      (simp_all add: parse_rpc_opcode_def enc_request_def index_slice_def opcode_of_def transmute_u8_def)
qed

lemma receive_sent:
  assumes "plain_network mac ip" and "view_at ty0 i (request_bytes mac ip udp dst (hdr @ data)) r p"
    and "rpc_type ty" and "length hdr = hdr_size ty" and "hdr = enc_request h @ rest"
  shows "receive ty p = Inr (rq_service h, rq_opcode h, hdr, data)"
proof -
  let ?fr = "request_bytes mac ip udp dst (hdr @ data)"
  obtain u where u: "parse_network (packet_reset p) = Inr u" "view_at UdpHeader 34 ?fr r u"
      "get_payload u = Inr (hdr @ data)"
    using receive_request [OF assms(1) packet_reset_view [OF assms(2)]] by blast
  have body: "drop 42 ?fr = hdr @ data" "length ?fr = 42 + length (hdr @ data)"
    using assms(1) by (simp_all add: request_bytes_def network_bytes_def Let_def plain_network_def)
  obtain g where g: "parse_header ty u = Inr g" "view_at ty 42 ?fr r g"
    using parse_header_view [OF u(2), of ty] assms(3,4) body(2) by auto
  have h: "get_header g = Inr hdr" using get_header_view [OF g(2)] body(1) assms(4) by simp
  have "drop (42 + hdr_size ty) ?fr = data"
    using arg_cong [OF body(1), of "drop (hdr_size ty)"] assms(4) by (simp add: add.commute)
  then have d: "get_payload g = Inr data" using get_payload_view [OF g(2)] assms(3) by simp
  have "get_payload u = Inr (enc_request h @ rest @ data)" using u(3) assms(5) by simp
  from parse_service_opcode [OF this] show ?thesis by (simp add: receive_def u(1) g(1) h d)
qed

lemma request_round_trip:
  assumes "wf_mbuf m" and "m_data_len m = 0" and "plain_network mac ip" and "rpc_type ty"
    and "length hdr = hdr_size ty" and "data \<noteq> []" and "42 + hdr_size ty + length data \<le> pkt_tailroom m"
    and "hdr = enc_request h @ rest"
  shows "rbind (rbind (create_request (Some m) mac ip udp dst) (finish_request ty hdr data)) (receive ty) =
    Inr (rq_service h, rq_opcode h, hdr, data)"
proof -
  obtain p where p: "rbind (create_request (Some m) mac ip udp dst) (finish_request ty hdr data) = Inr p"
      "view_at IpHeader 14 (request_bytes mac ip udp dst (hdr @ data))
         (pkt_tailroom m - 42 - hdr_size ty - length data) p"
    using send_request_view [OF assms(1-7)] by blast
  show ?thesis using receive_sent [OF assms(3) p(2) assms(4,5,8)] by (simp add: p(1))
qed

text \<open>What the mempool and the client's configuration give every request.\<close>

definition fresh_mbuf :: "usize \<Rightarrow> mbuf \<Rightarrow> bool" where
  "fresh_mbuf n m \<longleftrightarrow> wf_mbuf m \<and> m_data_len m = 0 \<and> n \<le> pkt_tailroom m"

lemma rpc_types [simp]:
  "rpc_type GetRequest" "rpc_type PutRequest" "rpc_type MultiGetRequest" "rpc_type InvokeRequest"
  "rpc_type CommitRequest" "rpc_type InstallRequest"
  "rpc_type GetResponse" "rpc_type PutResponse" "rpc_type MultiGetResponse" "rpc_type InvokeResponse"
  "rpc_type CommitResponse" "rpc_type InstallResponse"
  by (simp_all add: rpc_type_def)

text \<open>A buffer of 1024 bytes and network headers for the concrete instances below.\<close>

definition demo_mbuf :: mbuf where
  "demo_mbuf = \<lparr>m_buf = replicate 1024 0, m_data_off = 0, m_refcnt = 1, m_pkt_len = 0, m_data_len = 0,
     m_buf_len = 1024, m_meta = replicate 16 0\<rparr>"

definition demo_mac :: mac_header where
  "demo_mac = set_etype 0x0800 MacHeader_new"

definition demo_ip :: ip_header where
  "demo_ip = set_ihl 5 (set_version 4 IpHeader_new)"

lemma demo_fresh: "n \<le> 1024 \<Longrightarrow> fresh_mbuf n demo_mbuf"
  by (simp add: fresh_mbuf_def demo_mbuf_def wf_mbuf_def pkt_tailroom_def)

lemma demo_plain: "plain_network demo_mac demo_ip"
  by code_simp

definition demo_packet :: "hdr_type \<Rightarrow> byte_string \<Rightarrow> packet" where
  "demo_packet ty bs =
     \<lparr>p_mbuf = demo_mbuf\<lparr>m_buf := bs @ replicate (1024 - length bs) 0,
        m_data_len := word_of_nat (length bs), m_pkt_len := word_of_nat (length bs)\<rparr>,
      p_ty = ty, p_header = 0, p_offset = 0\<rparr>"

lemma demo_packet_view:
  assumes "length bs \<le> 1024" and "hdr_size ty \<le> length bs"
    and "hdr_offset ty (take (hdr_size ty) bs) \<le> length bs"
  shows "view_at ty 0 bs (1024 - length bs) (demo_packet ty bs)"
proof -
  let ?p = "demo_packet ty bs"
  have fr: "frame ?p = bs"
    using assms(1) by (simp add: frame_def demo_packet_def demo_mbuf_def)
  have "wf_mbuf (p_mbuf ?p)" and "tailroom ?p = 1024 - length bs"
    using assms(1) by (simp_all add: wf_mbuf_def demo_packet_def demo_mbuf_def tailroom_def pkt_tailroom_def)
  moreover have "header_end ?p = hdr_offset ty (take (hdr_size ty) bs)"
    by (simp add: header_end_def header_bytes_def fr) (simp add: demo_packet_def)
  ultimately show ?thesis
    using assms(2,3) fr
    by (simp add: view_at_def wf_packet_def) (simp add: demo_packet_def demo_mbuf_def)
qed

section \<open>Properties\<close>

text \<open>C36: a get request built by the client arrives: the frame that \<open>create_get_rpc\<close> produces, parsed
  by the server through its network headers, names the master service and the get operation,
  and carries exactly the header and the key the client asked for.\<close>

theorem get_request_round_trip:
  assumes "plain_network mac ip" and "fresh_mbuf (67 + length key) m" and "key \<noteq> []" and "length key < 65536"
  shows "rbind (create_get_rpc (Some m) mac ip udp tenant table_id key i dst g) (receive GetRequest) =
    Inr (MasterService, SandstormGetRpc,
      enc_get_request (GetRequest_new tenant table_id (word_of_nat (length key)) i g), key)"
proof -
  let ?h = "GetRequest_new tenant table_id (word_of_nat (length key)) i g"
  have "rbind (rbind (create_request (Some m) mac ip udp dst) (finish_request GetRequest (enc_get_request ?h) key))
      (receive GetRequest) = Inr (rq_service ?h, rq_opcode ?h, enc_get_request ?h, key)"
    by (rule request_round_trip)
       (use assms in \<open>simp_all add: fresh_mbuf_def enc_get_request_def\<close>)
  then show ?thesis using assms(4) by (simp add: create_get_rpc_def GetRequest_new_def)
qed

theorem get_request_round_trip_witness:
  "rbind (create_get_rpc (Some demo_mbuf) demo_mac demo_ip UdpHeader_new 7 1 [1, 2, 3] 42 9 SandstormClient)
     (receive GetRequest) =
   Inr (MasterService, SandstormGetRpc, enc_get_request (GetRequest_new 7 1 3 42 SandstormClient), [1, 2, 3])"
  using get_request_round_trip [OF demo_plain, of "[1, 2, 3]" demo_mbuf UdpHeader_new 7 1 42 9 SandstormClient]
    demo_fresh by simp

text \<open>The same for a put request: the payload the server receives is the key followed by the
  value, with the key's length in the header.\<close>

lemma put_request_round_trip:
  assumes "plain_network mac ip" and "fresh_mbuf (66 + length key + length val) m"
    and "key @ val \<noteq> []" and "length key < 65536"
  shows "rbind (create_put_rpc (Some m) mac ip udp tenant table_id key val i dst) (receive PutRequest) =
    Inr (MasterService, SandstormPutRpc,
      enc_put_request (PutRequest_new tenant table_id (word_of_nat (length key)) i), key @ val)"
proof -
  let ?h = "PutRequest_new tenant table_id (word_of_nat (length key)) i"
  have "rbind (rbind (create_request (Some m) mac ip udp dst)
        (finish_request PutRequest (enc_put_request ?h) (key @ val)))
      (receive PutRequest) = Inr (rq_service ?h, rq_opcode ?h, enc_put_request ?h, key @ val)"
    by (rule request_round_trip)
       (use assms in \<open>simp_all add: fresh_mbuf_def enc_put_request_def\<close>)
  then show ?thesis using assms(4) by (simp add: create_put_rpc_def PutRequest_new_def)
qed

text \<open>The same for the commit request a client sends after running a transaction itself; a
  read-write set beyond 1436 bytes is refused before anything is allocated.\<close>

lemma commit_request_round_trip:
  assumes "plain_network mac ip" and "fresh_mbuf (68 + length pay) m" and "pay \<noteq> []"
  shows "rbind (create_commit_rpc (Some m) mac ip udp tenant table_id pay i dst klen vlen) (receive CommitRequest) =
    (if length pay \<le> 1436
     then Inr (MasterService, SandstormCommitRpc,
            enc_commit_request (CommitRequest_new tenant i table_id klen vlen), pay)
     else Inl ExplicitPanic)"
proof -
  let ?h = "CommitRequest_new tenant i table_id klen vlen"
  have "\<not> 0xffff < klen" using unat_u16_lt [of klen] by (simp add: word_less_nat_alt)
  moreover have "rbind (rbind (create_request (Some m) mac ip udp dst)
        (finish_request CommitRequest (enc_commit_request ?h) pay))
      (receive CommitRequest) = Inr (rq_service ?h, rq_opcode ?h, enc_commit_request ?h, pay)"
    by (rule request_round_trip)
       (use assms in \<open>simp_all add: fresh_mbuf_def enc_commit_request_def\<close>)
  ultimately show ?thesis by (simp add: create_commit_rpc_def CommitRequest_new_def)
qed

text \<open>The length fields: the IP and UDP headers of a request name the lengths of what follows
  them, truncated to 16 bits.\<close>

lemma request_length_fields:
  assumes "plain_network mac ip" and "fresh_mbuf (67 + length key) m" and "key \<noteq> []" and "length key < 65536"
  shows "\<exists>p. create_get_rpc (Some m) mac ip udp tenant table_id key i dst g = Inr p \<and>
    rbind (get_header p) (\<lambda>h. Inr (ip_length (dec_ip h))) = Inr (word_of_nat (53 + length key)) \<and>
    udp_length (dec_udp (take 8 (drop 34 (frame p)))) = word_of_nat (33 + length key) \<and>
    length (frame p) = 67 + length key"
proof -
  let ?hdr = "enc_get_request (GetRequest_new tenant table_id (word_of_nat (length key)) i g)"
  have "m_data_len m = 0" "wf_mbuf m" "42 + hdr_size GetRequest + length key \<le> pkt_tailroom m"
    using assms(2) by (simp_all add: fresh_mbuf_def)
  then obtain p where p: "create_get_rpc (Some m) mac ip udp tenant table_id key i dst g = Inr p"
      "view_at IpHeader 14 (request_bytes mac ip udp dst (?hdr @ key))
         (pkt_tailroom m - 42 - hdr_size GetRequest - length key) p"
    using send_request_view [of m mac ip GetRequest ?hdr key udp dst] assms
    by (auto simp: create_get_rpc_def)
  have fr: "frame p = request_bytes mac ip udp dst (?hdr @ key)" by (rule view_atD(4) [OF p(2)])
  have mac: "length (enc_mac mac) = 14" by (rule plain_offsets(3) [OF assms(1)])
  have len: "(20 :: u16) + word_of_nat (8 + (25 + length key)) = word_of_nat (53 + length key)" by simp
  have "rbind (get_header p) (\<lambda>h. Inr (ip_length (dec_ip h))) = Inr (word_of_nat (53 + length key))"
    using get_header_view [OF p(2)] mac len
    by (simp add: request_bytes_def network_bytes_def Let_def ip_fields)
  moreover have "udp_length (dec_udp (take 8 (drop 34 (frame p)))) = word_of_nat (33 + length key)"
    using mac by (simp add: fr request_bytes_def network_bytes_def Let_def udp_length_def set_udp_length_def)
  moreover have "length (frame p) = 67 + length key"
    using mac by (simp add: fr request_bytes_def network_bytes_def Let_def)
  ultimately show ?thesis using p(1) by blast
qed

text \<open>\<open>parse_rpc_opcode\<close> is documented to return \<open>InvalidOperation\<close> for every byte that is no opcode; it
  does so from 7 on and returns the opcode for 1 to 6, but for the byte 0 it transmutes to an
  enumeration value that does not exist.\<close>

lemma parse_rpc_opcode_bytes:
  assumes "get_payload u = Inr (a # b # rest)"
  shows "(b = 0 \<longrightarrow> parse_rpc_opcode u = Inl UndefinedBehaviour) \<and>
    (0 < b \<and> b < 7 \<longrightarrow> (\<exists>c. parse_rpc_opcode u = Inr c \<and> opcode_code c = b)) \<and>
    (7 \<le> b \<longrightarrow> parse_rpc_opcode u = Inr InvalidOperation)"
proof -
  have eq: "parse_rpc_opcode u = (if b < 7 then opcode_of b else Inr InvalidOperation)"
    by (simp add: parse_rpc_opcode_def assms index_slice_def)
  have "opcode_of 0 = Inl UndefinedBehaviour"
    by (simp add: opcode_of_def transmute_u8_def)
  moreover have "\<exists>c. opcode_of b = Inr c \<and> opcode_code c = b" if "0 < b" "b < 7"
  proof -
    have "unat b \<in> {1, 2, 3, 4, 5, 6}"
      using that by (auto simp: word_less_nat_alt)
    then have "b \<in> {1, 2, 3, 4, 5, 6}" by (auto simp: word_unat_eq_iff)
    then show ?thesis by (auto simp: opcode_of_def transmute_u8_def)
  qed
  ultimately show ?thesis using eq by (auto simp: not_less)
qed

end
