(* ===== verification/Context.thy ===== *)
theory Context
  imports Tenant Rpc
begin

unbundle bit_operations_syntax

text \<open>
  The execution context of an extension: \<open>db/src/context.rs\<close>.

  A context owns the request and response packets, the read and write set, the bytes charged
  to the extension and its credit. The tenant behind its \<open>Arc\<close> is shared, so it is an argument of
  the operations that look at it and a result of those that change it. An
  extension's panic is caught by its container, which goes on to use the context: every
  operation an extension can call returns the context it leaves behind next to its outcome.
  \<open>grant\<close> is the allocator's parameter of the theory \<open>Alloc\<close>; the values read from \<open>rdtsc\<close> are
  arguments.
\<close>

definition MAX_ALLOC :: usize where "MAX_ALLOC = 10240"
definition GET_CREDIT :: u64 where "GET_CREDIT = 0"
definition PUT_CREDIT :: u64 where "PUT_CREDIT = 0"
definition MULTIGET_CREDIT :: u64 where "MULTIGET_CREDIT = 0"

record ctxt =
  c_request :: packet
  c_args_offset :: usize
  c_args_length :: usize
  c_response :: packet
  c_allocs :: usize
  c_tx :: tx
  c_db_credit :: u64

definition Context_new :: "packet \<Rightarrow> usize \<Rightarrow> usize \<Rightarrow> packet \<Rightarrow> ctxt" where
  "Context_new req args_off args_len res =
     \<lparr>c_request = req, c_args_offset = args_off, c_args_length = args_len, c_response = res,
      c_allocs = 0, c_tx = TX_new, c_db_credit = 0\<rparr>"

section \<open>The database interface\<close>

definition charge :: "u64 \<Rightarrow> u64 \<Rightarrow> u64 \<Rightarrow> ctxt \<Rightarrow> ctxt" where
  "charge start now extra c = c\<lparr>c_db_credit := c_db_credit c + (now - start + extra)\<rparr>"

definition Context_get ::
    "u64 \<Rightarrow> u64 \<Rightarrow> tenant \<Rightarrow> u64 \<Rightarrow> byte_string \<Rightarrow> ctxt \<Rightarrow> ctxt \<times> read_buf option rust" where
  "Context_get start now tn table_id key c =
     (case get_table tn table_id of
        None \<Rightarrow> (c, Inr None)
      | Some t \<Rightarrow>
          case Table_get t key of
            Inl e \<Rightarrow> (c, Inl e)
          | Inr None \<Rightarrow> (c, Inr None)
          | Inr (Some entry) \<Rightarrow>
              case Allocator_resolve (e_value entry) of
                Inl e \<Rightarrow> (c, Inl e)
              | Inr None \<Rightarrow> (charge start now GET_CREDIT c, Inr None)
              | Inr (Some (k, v)) \<Rightarrow>
                  (charge start now GET_CREDIT
                     (c\<lparr>c_tx := record_get (Record_new SandstormRead (e_version entry) k v) (c_tx c)\<rparr>),
                   Inr (Some (ReadBuf_new v))))"

fun multiget_keys ::
    "table \<Rightarrow> usize \<Rightarrow> byte_string list \<Rightarrow> tx \<Rightarrow> byte_string list \<Rightarrow> tx \<times> byte_string list option rust" where
  "multiget_keys t key_len [] x objs = (x, Inr (Some objs))"
| "multiget_keys t key_len (key # keys) x objs =
     (if length key \<noteq> key_len then (x, Inr (Some objs))
      else case Table_get t key of
             Inl e \<Rightarrow> (x, Inl e)
           | Inr None \<Rightarrow> (x, Inr None)
           | Inr (Some entry) \<Rightarrow>
               case Allocator_resolve (e_value entry) of
                 Inl e \<Rightarrow> (x, Inl e)
               | Inr None \<Rightarrow> (x, Inr None)
               | Inr (Some (k, v)) \<Rightarrow>
                   multiget_keys t key_len keys
                     (record_get (Record_new SandstormRead (e_version entry) k v) x) (objs @ [v]))"

definition Context_multiget ::
    "u64 \<Rightarrow> u64 \<Rightarrow> tenant \<Rightarrow> u64 \<Rightarrow> u16 \<Rightarrow> byte_string \<Rightarrow> ctxt \<Rightarrow> ctxt \<times> multi_read_buf option rust" where
  "Context_multiget start now tn table_id key_len keys c =
     (case get_table tn table_id of
        None \<Rightarrow> (charge start now MULTIGET_CREDIT c, Inr None)
      | Some t \<Rightarrow>
          case chunks keys (unat key_len) of
            Inl e \<Rightarrow> (c, Inl e)
          | Inr ks \<Rightarrow>
              case multiget_keys t (unat key_len) ks (c_tx c) [] of
                (x, Inl e) \<Rightarrow> (c\<lparr>c_tx := x\<rparr>, Inl e)
              | (x, Inr None) \<Rightarrow> (charge start now MULTIGET_CREDIT (c\<lparr>c_tx := x\<rparr>), Inr None)
              | (x, Inr (Some objs)) \<Rightarrow>
                  (charge start now MULTIGET_CREDIT (c\<lparr>c_tx := x\<rparr>), Inr (Some (MultiReadBuf_new objs))))"

definition Context_alloc ::
    "(usize \<Rightarrow> usize) \<Rightarrow> tenant \<Rightarrow> u64 \<Rightarrow> byte_string \<Rightarrow> u64 \<Rightarrow> ctxt \<Rightarrow> ctxt \<times> write_buf option rust" where
  "Context_alloc grant tn table_id key val_len c =
     (if MAX_ALLOC \<le> c_allocs c then (c, Inr None)
      else case get_table tn table_id of
             None \<Rightarrow> (c, Inr None)
           | Some t \<Rightarrow>
               case Allocator_raw grant (tn_id tn) table_id key val_len of
                 Inl e \<Rightarrow> (c, Inl e)
               | Inr None \<Rightarrow> (c, Inr None)
               | Inr (Some buf) \<Rightarrow>
                   (c\<lparr>c_allocs := c_allocs c + length (bm_data buf)\<rparr>, Inr (Some (WriteBuf_new table_id buf))))"

definition Context_put ::
    "u64 \<Rightarrow> u64 \<Rightarrow> tenant \<Rightarrow> write_buf \<Rightarrow> ctxt \<Rightarrow> ctxt \<times> bool rust" where
  "Context_put start now tn wb c =
     (let (table_id, buf) = WriteBuf_freeze wb
      in case get_table tn table_id of
           None \<Rightarrow> (charge start now PUT_CREDIT c, Inr False)
         | Some t \<Rightarrow>
             case Allocator_resolve buf of
               Inl e \<Rightarrow> (c, Inl e)
             | Inr None \<Rightarrow> (c, Inr False)
             | Inr (Some (k, v)) \<Rightarrow>
                 (charge start now PUT_CREDIT
                    (c\<lparr>c_tx := record_put (Record_new SandstormWrite Table_version k v) (c_tx c)\<rparr>),
                  Inr True))"

definition Context_del :: "u64 \<Rightarrow> byte_string \<Rightarrow> tenant \<Rightarrow> tenant \<times> unit rust" where
  "Context_del table_id key tn =
     (case get_table tn table_id of
        None \<Rightarrow> (tn, Inr ())
      | Some t \<Rightarrow>
          case Table_delete t key of
            Inl e \<Rightarrow> (tn, Inl e)
          | Inr t' \<Rightarrow> (put_table table_id t' tn, Inr ()))"

definition Context_args :: "ctxt \<Rightarrow> byte_string rust" where
  "Context_args c =
     rbind (get_payload (c_request c)) (\<lambda>pay.
     rbind (split_at pay (c_args_offset c)) (\<lambda>(_, rest).
     rbind (split_at rest (c_args_length c)) (\<lambda>(args, _). Inr args)))"

definition Context_resp :: "byte_string \<Rightarrow> ctxt \<Rightarrow> ctxt \<times> unit rust" where
  "Context_resp data c =
     (case add_to_payload_tail (length data) data (c_response c) of
        Inl e \<Rightarrow> (c, Inl e)
      | Inr (p, Inl e) \<Rightarrow> (c\<lparr>c_response := p\<rparr>, Inl UnwrapFailed)
      | Inr (p, Inr u) \<Rightarrow> (c\<lparr>c_response := p\<rparr>, Inr ()))"

definition search_get_in_cache :: "bool \<times> bool \<times> read_buf option" where
  "search_get_in_cache = (True, False, None)"

definition search_multiget_in_cache :: "bool \<times> bool \<times> multi_read_buf option" where
  "search_multiget_in_cache = (True, False, None)"

section \<open>The end of an invocation\<close>

text \<open>The write of the status field through \<open>get_mut_header\<close>: the first byte of a response header.\<close>

definition set_status :: "rpc_status \<Rightarrow> byte_string \<Rightarrow> byte_string" where
  "set_status st h = h[0 := status_code st]"

text \<open>The table identifier at the head of the arguments, put together byte by byte.\<close>

definition table_id_of :: "byte_string \<Rightarrow> u64" where
  "table_id_of bs = fold (\<lambda>(idx, e) acc. acc OR push_bit (idx * 8) (ucast e)) (enumerate 0 bs) 0"

definition abort_response :: "packet \<Rightarrow> packet \<Rightarrow> packet rust" where
  "abort_response req res =
     rbind (get_payload res) (\<lambda>pay.
     let res = fst (remove_from_payload_tail (length pay) res)
     in rbind (get_payload req) (\<lambda>rpay.
        rbind (add_to_payload_tail (length rpay) rpay res) (\<lambda>(res, _).
        modify_header (set_status StatusTxAbort) res)))"

definition Context_commit ::
    "(usize \<Rightarrow> usize) \<Rightarrow> u64 \<Rightarrow> tenant \<Rightarrow> ctxt \<Rightarrow> tenant \<times> (packet \<times> packet) rust" where
  "Context_commit grant tsc tn c =
     (case rbind (Context_args c) (\<lambda>args. split_at args 8) of
        Inl e \<Rightarrow> (tn, Inl e)
      | Inr (table, _) \<Rightarrow>
          let table_id = table_id_of table
          in case get_table tn table_id of
               None \<Rightarrow> (tn, Inr (c_request c, c_response c))
             | Some t \<Rightarrow>
                 case validate grant (tn_id tn) table_id tsc t (c_tx c) of
                   (t', _, Inl e) \<Rightarrow> (put_table table_id t' tn, Inl e)
                 | (t', _, Inr COMMIT) \<Rightarrow> (put_table table_id t' tn, Inr (c_request c, c_response c))
                 | (t', _, Inr ABORT) \<Rightarrow>
                     (put_table table_id t' tn,
                      rbind (abort_response (c_request c) (c_response c)) (\<lambda>res. Inr (c_request c, res))))"

definition record_fields :: "rec \<Rightarrow> byte_string list" where
  "record_fields r = [[optype_code (r_optype r)], enc_u64 (r_version r), r_key r, r_object r]"

fun add_fields :: "byte_string list \<Rightarrow> packet \<Rightarrow> packet rust" where
  "add_fields [] p = Inr p"
| "add_fields (f # fs) p = rbind (add_expect f p) (add_fields fs)"

definition prepare_for_pushback :: "ctxt \<Rightarrow> (packet \<times> packet) rust" where
  "prepare_for_pushback c =
     rbind (modify_header (set_status StatusPushback) (c_response c)) (\<lambda>res.
     rbind (get_payload res) (\<lambda>pay.
     let res = fst (remove_from_payload_tail (length pay) res)
     in rbind (add_fields (concat (map record_fields (tx_reads (c_tx c)))) res) (\<lambda>res.
        rbind (add_fields (concat (map record_fields (tx_writes (c_tx c)))) res) (\<lambda>res.
        Inr (c_request c, res)))))"

section \<open>Responses\<close>

lemma add_fields_add_all:
  "add_fields fs p = rbind (pkt.add_all fs p) (\<lambda>(p, r). case r of Inl e \<Rightarrow> Inl UnwrapFailed | Inr u \<Rightarrow> Inr p)"
proof (induction fs arbitrary: p)
  case Nil
  then show ?case by simp
next
  case (Cons f fs)
  show ?case
  proof (cases "add_to_payload_tail (length f) f p")
    case (Inr q)
    then show ?thesis by (cases q; cases "snd q") (simp_all add: add_expect_def Cons.IH)
  qed (simp add: add_expect_def)
qed

lemma add_fields_view:
  assumes "view_at ty i fr r p" and "[] \<notin> set fs" and "length (concat fs) \<le> r"
  shows "\<exists>p'. add_fields fs p = Inr p' \<and> view_at ty i (fr @ concat fs) (r - length (concat fs)) p'"
  using add_all_view [OF assms] by (auto simp: add_fields_add_all)

lemma add_fields_append: "add_fields (fs @ gs) p = rbind (add_fields fs p) (add_fields gs)"
proof (induction fs arbitrary: p)
  case (Cons f fs)
  then show ?case by (cases "add_expect f p") simp_all
qed simp

lemma length_set_status [simp]: "length (set_status st h) = length h"
  by (simp add: set_status_def)

lemma set_status_view:
  assumes "view_at ty i fr r p" and "rpc_type ty"
  shows "\<exists>p'. modify_header (set_status st) p = Inr p' \<and>
    view_at ty i (write_at i (set_status st (hdr_at ty i fr)) fr) r p'"
  by (rule modify_header_view [OF assms(1)]) (use view_at_bounds(1) [OF assms(1)] assms(2) in simp_all)

text \<open>The frame of a response whose payload was cut off, with its header replaced.\<close>

lemma write_at_header:
  assumes "i + n \<le> length fr" and "length h = n"
  shows "length (write_at i h fr) = length fr" "take (i + n) (write_at i h fr) = take i fr @ h"
  using assms by (simp_all add: write_at_def)

lemma cut_payload_view:
  assumes "view_at ty i fr r p" and "rpc_type ty"
  shows "\<exists>p'. rbind (get_payload p) (\<lambda>pay. Inr (fst (remove_from_payload_tail (length pay) p))) = Inr p' \<and>
    view_at ty i (take (i + hdr_size ty) fr) (r + (length fr - (i + hdr_size ty))) p'"
  using remove_tail_view [OF assms(1), of "length fr - (i + hdr_size ty)"] get_payload_view [OF assms(1)]
    view_at_bounds [OF assms(1)] assms(2)
  by auto

definition record_bytes :: "rec \<Rightarrow> byte_string" where
  "record_bytes r = optype_code (r_optype r) # enc_u64 (r_version r) @ r_key r @ r_object r"

lemma concat_record_fields [simp]:
  "concat (concat (map record_fields rs)) = concat (map record_bytes rs)"
  by (induction rs) (simp_all add: record_fields_def record_bytes_def)

lemma Nil_record_fields:
  "[] \<in> set (concat (map record_fields rs)) \<longleftrightarrow> (\<exists>r \<in> set rs. r_key r = [] \<or> r_object r = [])"
proof -
  have "enc_u64 v \<noteq> []" for v using length_enc(3) [of v] by (metis list.size(3) zero_neq_numeral)
  then have "[] \<in> set (record_fields r) \<longleftrightarrow> r_key r = [] \<or> r_object r = []" for r
    by (simp add: record_fields_def eq_commute [of "[]"])
  then show ?thesis by simp
qed

lemma pushback_view:
  assumes "view_at InvokeResponse i fr r (c_response c)"
    and "\<forall>x \<in> set (tx_reads (c_tx c) @ tx_writes (c_tx c)). r_key x \<noteq> [] \<and> r_object x \<noteq> []"
    and "i + 14 + length (concat (map record_bytes (tx_reads (c_tx c) @ tx_writes (c_tx c)))) \<le> length fr + r"
  shows "\<exists>res r'. prepare_for_pushback c = Inr (c_request c, res) \<and>
    view_at InvokeResponse i (take i fr @ set_status StatusPushback (hdr_at InvokeResponse i fr) @
      concat (map record_bytes (tx_reads (c_tx c) @ tx_writes (c_tx c)))) r' res"
proof -
  let ?rs = "tx_reads (c_tx c) @ tx_writes (c_tx c)" and ?h = "set_status StatusPushback (hdr_at InvokeResponse i fr)"
  have fit: "i + 14 \<le> length fr" using view_at_bounds(1) [OF assms(1)] by simp
  then have h: "length ?h = 14" by simp
  note w = write_at_header [OF fit h]
  obtain p1 where p1: "modify_header (set_status StatusPushback) (c_response c) = Inr p1"
      "view_at InvokeResponse i (write_at i ?h fr) r p1"
    using set_status_view [OF assms(1)] by auto
  obtain p2 where p2: "rbind (get_payload p1) (\<lambda>pay. Inr (fst (remove_from_payload_tail (length pay) p1))) = Inr p2"
      "view_at InvokeResponse i (take i fr @ ?h) (r + (length fr - (i + 14))) p2"
    using cut_payload_view [OF p1(2)] w by auto
  have "[] \<notin> set (concat (map record_fields ?rs))"
    unfolding Nil_record_fields using assms(2) by blast
  moreover have "length (concat (concat (map record_fields ?rs))) \<le> r + (length fr - (i + 14))"
    unfolding concat_record_fields using assms(3) fit by linarith
  ultimately obtain p3 r' where p3: "add_fields (concat (map record_fields ?rs)) p2 = Inr p3"
      "view_at InvokeResponse i ((take i fr @ ?h) @ concat (map record_bytes ?rs)) r' p3"
    using add_fields_view [OF p2(2)] concat_record_fields by metis
  obtain pay where "get_payload p1 = Inr pay" "fst (remove_from_payload_tail (length pay) p1) = p2"
    using p2(1) by auto
  then have "prepare_for_pushback c = Inr (c_request c, p3)"
    using p1(1) p3(1) by (simp add: prepare_for_pushback_def add_fields_append)
  then show ?thesis using p3(2) by auto
qed

section \<open>An invocation\<close>

text \<open>The calls an extension makes while nobody else changes its tenant. An extension that
  panics makes no further call.\<close>

datatype db_op =
    DbGet u64 u64 u64 byte_string
  | DbMultiget u64 u64 u64 u16 byte_string
  | DbAlloc u64 byte_string u64
  | DbPut u64 u64 write_buf
  | DbResp byte_string

fun run_op :: "(usize \<Rightarrow> usize) \<Rightarrow> tenant \<Rightarrow> db_op \<Rightarrow> ctxt \<Rightarrow> ctxt \<times> unit rust" where
  "run_op grant tn (DbGet start now tb key) c =
     (case Context_get start now tn tb key c of (c', r) \<Rightarrow> (c', rbind r (\<lambda>_. Inr ())))"
| "run_op grant tn (DbMultiget start now tb key_len keys) c =
     (case Context_multiget start now tn tb key_len keys c of (c', r) \<Rightarrow> (c', rbind r (\<lambda>_. Inr ())))"
| "run_op grant tn (DbAlloc tb key val_len) c =
     (case Context_alloc grant tn tb key val_len c of (c', r) \<Rightarrow> (c', rbind r (\<lambda>_. Inr ())))"
| "run_op grant tn (DbPut start now wb) c =
     (case Context_put start now tn wb c of (c', r) \<Rightarrow> (c', rbind r (\<lambda>_. Inr ())))"
| "run_op grant tn (DbResp data) c = Context_resp data c"

fun run_ops :: "(usize \<Rightarrow> usize) \<Rightarrow> tenant \<Rightarrow> db_op list \<Rightarrow> ctxt \<Rightarrow> ctxt \<times> unit rust" where
  "run_ops grant tn [] c = (c, Inr ())"
| "run_ops grant tn (op # ops) c =
     (case run_op grant tn op c of
        (c', Inl e) \<Rightarrow> (c', Inl e)
      | (c', Inr u) \<Rightarrow> run_ops grant tn ops c')"

fun op_reads_table :: "u64 \<Rightarrow> db_op \<Rightarrow> bool" where
  "op_reads_table tb (DbGet _ _ tb' _) = (tb' = tb)"
| "op_reads_table tb (DbMultiget _ _ tb' _ _) = (tb' = tb)"
| "op_reads_table tb _ = True"

text \<open>Every stored object names its own key: what \<open>Allocator::object\<close> puts under it.\<close>

definition objects_ok :: "table \<Rightarrow> bool" where
  "objects_ok t \<longleftrightarrow>
     (\<forall>k e. contents t k = Some e \<longrightarrow> (\<exists>v. Allocator_resolve (e_value e) = Inr (Some (k, v))))"

lemma objects_okD:
  "objects_ok t \<Longrightarrow> contents t k = Some e \<Longrightarrow> \<exists>v. Allocator_resolve (e_value e) = Inr (Some (k, v))"
  by (simp add: objects_ok_def)

lemma objects_ok_default: "objects_ok Table_default"
  by (simp add: objects_ok_def)

lemma objects_ok_store:
  assumes "table_wf t" and "objects_ok t" and "k \<noteq> []" and "length k < 65536"
  shows "objects_ok (store t k (Some \<lparr>e_version = v, e_value = obj_meta a b (word_of_nat (length k)) @ k @ obj\<rparr>))"
  using assms resolve_object [of k "word_of_nat (length k)" a b obj]
  by (auto simp: objects_ok_def contents_store)

lemma objects_ok_install:
  assumes "objects_ok t" and "contents t' = install_spec a b ts ws (contents t)"
    and "\<forall>r \<in> set ws. writable r"
  shows "objects_ok t'"
  unfolding objects_ok_def
proof (intro allI impI)
  fix k e assume e: "contents t' k = Some e"
  show "\<exists>v. Allocator_resolve (e_value e) = Inr (Some (k, v))"
  proof (cases "last_write ws k")
    case None
    then show ?thesis using e assms(1,2) by (simp add: install_spec_def objects_ok_def)
  next
    case (Some obj)
    then have "\<exists>r \<in> set ws. r_key r = k"
      by (auto simp: last_write_def filter_eq_Cons_iff split: list.splits)
    then have "length k < 65536" using assms(3) by (auto simp: writable_def)
    then show ?thesis
      using Some e assms(2) resolve_object [of k "word_of_nat (length k)" a b obj]
      by (simp add: install_spec_def) (metis entry.select_convs(2))
  qed
qed

text \<open>The reads of an invocation are current for the table they were made from.\<close>

definition reads_ok :: "table \<Rightarrow> tx \<Rightarrow> bool" where
  "reads_ok t x \<longleftrightarrow> (\<forall>r \<in> set (tx_reads x). r_key r \<noteq> [] \<and> read_current t r)"

lemma reads_ok_new: "reads_ok t TX_new"
  by (simp add: reads_ok_def TX_new_def)

lemma reads_ok_get:
  assumes "reads_ok t x" and "contents t k = Some e"
  shows "reads_ok t (record_get (Record_new ot (e_version e) k v) x)"
proof -
  have "k \<noteq> []" using assms(2) by (auto simp: contents_def)
  then show ?thesis
    using assms by (auto simp: reads_ok_def record_get_def Record_new_def read_current_def)
qed

lemma reads_ok_put [simp]: "reads_ok t (record_put r x) = reads_ok t x"
  by (simp add: reads_ok_def record_put_def)

lemma multiget_keys_reads:
  assumes "objects_ok t" and "reads_ok t x"
  shows "reads_ok t (fst (multiget_keys t n ks x objs))"
  using assms(2)
proof (induction ks arbitrary: x objs)
  case Nil
  then show ?case by simp
next
  case (Cons key ks)
  show ?case
  proof (cases "key = []")
    case True
    then show ?thesis using Cons.prems by (simp add: table_simps)
  next
    case False
    then have get: "Table_get t key = Inr (contents t key)" by (simp add: table_simps)
    show ?thesis
    proof (cases "contents t key")
      case None
      then show ?thesis using Cons.prems get by simp
    next
      case (Some e)
      then obtain v where "Allocator_resolve (e_value e) = Inr (Some (key, v))"
        using objects_okD [OF assms(1)] by blast
      then show ?thesis using get Some Cons.IH [OF reads_ok_get [OF Cons.prems Some]] Cons.prems by simp
    qed
  qed
qed

lemma Context_get_spec:
  assumes "get_table tn tb = Some t" and "objects_ok t" and "key \<noteq> []"
  shows "Context_get start now tn tb key c =
    (case contents t key of
       None \<Rightarrow> (c, Inr None)
     | Some e \<Rightarrow>
         let v = (case Allocator_resolve (e_value e) of Inr (Some (k, v)) \<Rightarrow> v)
         in (charge start now GET_CREDIT
               (c\<lparr>c_tx := record_get (Record_new SandstormRead (e_version e) key v) (c_tx c)\<rparr>),
             Inr (Some (ReadBuf_new v))))"
proof (cases "contents t key")
  case None
  then show ?thesis using assms by (simp add: Context_get_def table_simps)
next
  case (Some e)
  then obtain v where "Allocator_resolve (e_value e) = Inr (Some (key, v))"
    using objects_okD [OF assms(2)] by blast
  then show ?thesis using assms Some by (simp add: Context_get_def table_simps Let_def)
qed

lemma charge_fields [simp]:
  "c_tx (charge a b d c) = c_tx c" "c_response (charge a b d c) = c_response c"
  "c_request (charge a b d c) = c_request c" "c_args_offset (charge a b d c) = c_args_offset c"
  "c_args_length (charge a b d c) = c_args_length c" "c_allocs (charge a b d c) = c_allocs c"
  by (simp_all add: charge_def)

lemma run_op_reads:
  assumes "get_table tn tb = Some t" and "objects_ok t" and "reads_ok t (c_tx c)" and "op_reads_table tb op"
  shows "reads_ok t (c_tx (fst (run_op grant tn op c)))"
proof (cases op)
  case (DbGet start now tb' key)
  then show ?thesis
  proof (cases "key = []")
    case True
    then show ?thesis using DbGet assms by (simp add: Context_get_def table_simps)
  next
    case False
    then show ?thesis
      using DbGet assms Context_get_spec [OF assms(1,2) False] reads_ok_get [OF assms(3)]
      by (simp add: Let_def split: option.splits)
  qed
next
  case (DbMultiget start now tb' n keys)
  obtain x r where m: "multiget_keys t (unat n) (chunks_of (unat n) keys) (c_tx c) [] = (x, r)" by fastforce
  then have "reads_ok t x" using multiget_keys_reads [OF assms(2,3)] by (metis fst_conv)
  then show ?thesis
    using DbMultiget assms m
    by (cases r) (auto simp: Context_multiget_def chunks_def split: option.splits)
next
  case (DbAlloc tb' key val_len)
  then show ?thesis
    using assms by (auto simp: Context_alloc_def split: option.splits sum.splits)
next
  case (DbPut start now wb)
  then show ?thesis
    using assms by (auto simp: Context_put_def Let_def split: option.splits sum.splits prod.splits)
next
  case (DbResp data)
  then show ?thesis
    using assms by (auto simp: Context_resp_def split: sum.splits prod.splits)
qed

lemma run_op_frame:
  "c_request (fst (run_op grant tn op c)) = c_request c"
  "c_args_offset (fst (run_op grant tn op c)) = c_args_offset c"
  "c_args_length (fst (run_op grant tn op c)) = c_args_length c"
  by (cases op; auto simp: Context_get_def Context_multiget_def Context_alloc_def Context_put_def
      Context_resp_def Let_def split: option.splits sum.splits prod.splits)+

lemma run_ops_Cons_fst:
  "fst (run_ops grant tn (op # ops) c) =
     (case snd (run_op grant tn op c) of
        Inl e \<Rightarrow> fst (run_op grant tn op c)
      | Inr u \<Rightarrow> fst (run_ops grant tn ops (fst (run_op grant tn op c))))"
  by (auto split: prod.splits sum.splits)

lemma run_ops_reads:
  assumes "get_table tn tb = Some t" and "objects_ok t" and "\<forall>op \<in> set ops. op_reads_table tb op"
    and "reads_ok t (c_tx c)"
  shows "reads_ok t (c_tx (fst (run_ops grant tn ops c)))"
  using assms(3,4)
proof (induction ops arbitrary: c)
  case Nil
  then show ?case by simp
next
  case (Cons op ops)
  have "reads_ok t (c_tx (fst (run_op grant tn op c)))"
    using run_op_reads [OF assms(1,2) Cons.prems(2)] Cons.prems(1) by simp
  then show ?case
    unfolding run_ops_Cons_fst using Cons by (simp split: sum.splits)
qed

lemma run_ops_frame:
  "c_request (fst (run_ops grant tn ops c)) = c_request c"
  "Context_args (fst (run_ops grant tn ops c)) = Context_args c"
proof -
  have "c_request (fst (run_ops grant tn ops c)) = c_request c \<and>
      c_args_offset (fst (run_ops grant tn ops c)) = c_args_offset c \<and>
      c_args_length (fst (run_ops grant tn ops c)) = c_args_length c"
  proof (induction ops arbitrary: c)
    case (Cons op ops)
    then show ?case
      unfolding run_ops_Cons_fst by (simp add: run_op_frame split: sum.splits)
  qed simp
  then show "c_request (fst (run_ops grant tn ops c)) = c_request c"
    "Context_args (fst (run_ops grant tn ops c)) = Context_args c"
    by (simp_all add: Context_args_def)
qed

section \<open>Commit\<close>

lemma Context_commit_table:
  assumes "Context_args c = Inr args" and "8 \<le> length args" and "table_id_of (take 8 args) = tb"
    and "get_table tn tb = Some t"
  shows "Context_commit grant tsc tn c =
    (case validate grant (tn_id tn) tb tsc t (c_tx c) of
       (t', _, Inl e) \<Rightarrow> (put_table tb t' tn, Inl e)
     | (t', _, Inr COMMIT) \<Rightarrow> (put_table tb t' tn, Inr (c_request c, c_response c))
     | (t', _, Inr ABORT) \<Rightarrow>
         (put_table tb t' tn, rbind (abort_response (c_request c) (c_response c)) (\<lambda>res. Inr (c_request c, res))))"
  using assms by (simp add: Context_commit_def Let_def)

lemma Context_commit_other_tables:
  assumes "Context_args c = Inr args" and "table_id_of (take 8 args) \<noteq> tb"
  shows "get_table (fst (Context_commit grant tsc tn c)) tb = get_table tn tb"
proof (cases "8 \<le> length args")
  case True
  then show ?thesis
    using assms by (auto simp: Context_commit_def Let_def split: option.splits sum.splits prod.splits decision.splits)
next
  case False
  then show ?thesis using assms(1) by (simp add: Context_commit_def)
qed

lemma abort_response_view:
  assumes "view_at InvokeResponse i fr r res" and "get_payload req = Inr pay" and "pay \<noteq> []"
    and "i + 14 + length pay \<le> length fr + r"
  shows "\<exists>res' r'. abort_response req res = Inr res' \<and>
    view_at InvokeResponse i (take i fr @ set_status StatusTxAbort (hdr_at InvokeResponse i fr) @ pay) r' res'"
proof -
  have fit: "i + 14 \<le> length fr" using view_at_bounds(1) [OF assms(1)] by simp
  then have min: "min (length fr - i) 14 = 14" by linarith
  obtain p1 where p1: "rbind (get_payload res) (\<lambda>pay. Inr (fst (remove_from_payload_tail (length pay) res))) = Inr p1"
      "view_at InvokeResponse i (take (i + 14) fr) (r + (length fr - (i + 14))) p1"
    using cut_payload_view [OF assms(1)] by auto
  have "length pay \<le> r + (length fr - (i + 14))" using assms(4) fit by linarith
  then obtain p2 r' where p2: "add_to_payload_tail (length pay) pay p1 = Inr (p2, Inr ())"
      "view_at InvokeResponse i (take (i + 14) fr @ pay) r' p2"
    using add_tail_view [OF p1(2) assms(3)] by auto
  have hdr: "hdr_at InvokeResponse i (take (i + 14) fr @ pay) = hdr_at InvokeResponse i fr"
    using fit by (simp add: drop_take)
  obtain p3 where p3: "modify_header (set_status StatusTxAbort) p2 = Inr p3"
      "view_at InvokeResponse i (write_at i (set_status StatusTxAbort (hdr_at InvokeResponse i fr))
         (take (i + 14) fr @ pay)) r' p3"
    using set_status_view [OF p2(2)] hdr by auto
  have fr: "write_at i (set_status StatusTxAbort (hdr_at InvokeResponse i fr)) (take (i + 14) fr @ pay) =
      take i fr @ set_status StatusTxAbort (hdr_at InvokeResponse i fr) @ pay"
    using fit min by (simp add: write_at_def)
  obtain q where "get_payload res = Inr q" "fst (remove_from_payload_tail (length q) res) = p1"
    using p1(1) by auto
  then have "abort_response req res = Inr p3"
    using assms(2) p2(1) p3(1) by (simp add: abort_response_def)
  then show ?thesis using p3(2) unfolding fr by blast
qed

section \<open>Properties\<close>


text \<open>Records carry no table. An extension that puts an object into another table than the
  one its arguments name is told that the put succeeded; the commit never touches that
  table.\<close>

lemma commit_ignores_other_tables:
  assumes "Context_args c = Inr args" and "table_id_of (take 8 args) \<noteq> wb_table wb"
    and "get_table tn (wb_table wb) = Some t" and "Allocator_resolve (bm_data (wb_inner wb)) = Inr (Some (k, v))"
  shows "\<exists>c'. Context_put start now tn wb c = (c', Inr True) \<and>
    get_table (fst (Context_commit grant tsc tn c')) (wb_table wb) = Some t"
proof -
  obtain c' where c': "Context_put start now tn wb c = (c', Inr True)" "Context_args c' = Context_args c"
    using assms(3,4) by (auto simp: Context_put_def WriteBuf_freeze_def Context_args_def)
  then show ?thesis using Context_commit_other_tables [of c' args] assms(1-3) by auto
qed

text \<open>The quota of an extension counts the metadata and the key of an allocation but not its
  value: as long as the count is below the limit, a buffer of any size is granted, and the
  count grows by the key's length and 14.\<close>

lemma alloc_quota_ignores_value:
  assumes "\<And>n. n \<le> grant n" and "get_table tn tb = Some t" and "c_allocs c < MAX_ALLOC"
    and "length key < 2 ^ 16" and "unat val_len < 2 ^ 63"
  shows "\<exists>wb. Context_alloc grant tn tb key val_len c =
      (c\<lparr>c_allocs := c_allocs c + 14 + length key\<rparr>, Inr (Some wb)) \<and> unat val_len \<le> WriteBuf_capacity wb"
proof -
  obtain cap where cap: "Allocator_raw grant (tn_id tn) tb key val_len =
      Inr (Some \<lparr>bm_data = obj_meta (tn_id tn) tb (word_of_nat (length key)) @ key, bm_cap = cap\<rparr>)"
      "14 + length key + unat val_len \<le> cap"
    using raw_layout [OF assms(1,4,5)] by blast
  then show ?thesis
    using assms(2,3) by (simp add: Context_alloc_def WriteBuf_capacity_def WriteBuf_new_def)
qed

text \<open>C16: a pushed-back invocation answers with the status \<open>StatusPushback\<close>, drops what the extension
  had put into the response, and returns its whole read set followed by its write set, each
  record as operation, version, key and value, when they fit into the packet and no value is
  empty.\<close>

theorem pushback_response:
  assumes "view_at InvokeResponse i fr r (c_response c)"
    and "\<forall>x \<in> set (tx_reads (c_tx c) @ tx_writes (c_tx c)). r_key x \<noteq> [] \<and> r_object x \<noteq> []"
    and "i + 14 + length (concat (map record_bytes (tx_reads (c_tx c) @ tx_writes (c_tx c)))) \<le> length fr + r"
  shows "\<exists>res. prepare_for_pushback c = Inr (c_request c, res) \<and> wf_packet res \<and>
    header_bytes res = set_status StatusPushback (header_bytes (c_response c)) \<and>
    payload res = concat (map record_bytes (tx_reads (c_tx c) @ tx_writes (c_tx c)))"
proof -
  obtain res r' where res: "prepare_for_pushback c = Inr (c_request c, res)"
      "view_at InvokeResponse i (take i fr @ set_status StatusPushback (hdr_at InvokeResponse i fr) @
        concat (map record_bytes (tx_reads (c_tx c) @ tx_writes (c_tx c)))) r' res"
    using pushback_view [OF assms] by blast
  have fit: "i + 14 \<le> length fr" using view_at_bounds(1) [OF assms(1)] by simp
  then have "min (length fr - i) 14 = 14" by linarith
  then show ?thesis
    using res(1) view_atD [OF res(2)] view_atD(6) [OF assms(1)] fit by simp
qed

section \<open>Witnesses\<close>

text \<open>A tenant with one object in table 1, and an invocation whose arguments name that table.\<close>

definition wit_object :: "u8 \<Rightarrow> byte_string" where
  "wit_object v = obj_meta 7 1 1 @ [1] @ [v]"

definition wit_tenant :: tenant where
  "wit_tenant = put_table 1 (store Table_default [1] (Some \<lparr>e_version = 1, e_value = wit_object 9\<rparr>))
     (create_table 2 (Tenant_new 7))"

definition wit_request :: packet where
  "wit_request = demo_packet InvokeRequest (enc_invoke_request (InvokeRequest_new 7 0 8 42) @ enc_u64 1)"

definition wit_response :: packet where
  "wit_response = demo_packet InvokeResponse (enc_response (InvokeResponse_new 42 SandstormInvokeRpc 7))"

abbreviation wit_ctxt :: ctxt where
  "wit_ctxt \<equiv> Context_new wit_request 0 8 wit_response"

abbreviation wit_write :: "u64 \<Rightarrow> write_buf" where
  "wit_write tb \<equiv> WriteBuf_new tb \<lparr>bm_data = wit_object 5, bm_cap = 64\<rparr>"

lemma wit_resolve: "Allocator_resolve (wit_object v) = Inr (Some ([1], [v]))"
  using resolve_object [of "[1]" 1 7 1 "[v]"] by (simp add: wit_object_def)

lemma wit_args: "Context_args wit_ctxt = Inr (enc_u64 1)"
  using get_payload_view [OF demo_packet_view [of "enc_invoke_request (InvokeRequest_new 7 0 8 42) @ enc_u64 1" InvokeRequest]]
  by (simp add: Context_args_def Context_new_def wit_request_def)

lemma wit_table_id: "table_id_of (take 8 (enc_u64 1)) = 1"
  by code_simp

lemma wit_contents:
  "contents (store Table_default [1] (Some \<lparr>e_version = 1, e_value = wit_object 9\<rparr>)) =
     [[1] \<mapsto> \<lparr>e_version = 1, e_value = wit_object 9\<rparr>]"
  by (simp add: contents_store table_wf_default)

lemma wit_tenant_table:
  "get_table wit_tenant 1 = Some (store Table_default [1] (Some \<lparr>e_version = 1, e_value = wit_object 9\<rparr>))"
  "get_table wit_tenant 2 = Some Table_default" "tn_id wit_tenant = 7"
  by (simp_all add: wit_tenant_def) (simp add: create_table_def Tenant_new_def)


theorem pushback_response_witness:
  "\<exists>c res. fst (Context_get 0 0 wit_tenant 1 [1] wit_ctxt) = c \<and>
     prepare_for_pushback c = Inr (wit_request, res) \<and> payload res = [1, 1, 0, 0, 0, 0, 0, 0, 0, 1, 9]"
proof -
  let ?fr = "enc_response (InvokeResponse_new 42 SandstormInvokeRpc 7)"
  obtain c where c: "fst (Context_get 0 0 wit_tenant 1 [1] wit_ctxt) = c"
      "tx_reads (c_tx c) = [Record_new SandstormRead 1 [1] [9]]" "tx_writes (c_tx c) = []"
      "c_response c = wit_response" "c_request c = wit_request"
    by (simp add: Context_get_def wit_tenant_table table_simps wit_contents wit_resolve
        Context_new_def TX_new_def record_get_def)
  have v: "view_at InvokeResponse 0 ?fr 1010 (c_response c)"
    using demo_packet_view [of ?fr InvokeResponse] by (simp add: c(4) wit_response_def)
  have "concat (map record_bytes (tx_reads (c_tx c) @ tx_writes (c_tx c))) = [1, 1, 0, 0, 0, 0, 0, 0, 0, 1, 9]"
    unfolding c(2,3) by code_simp
  then show ?thesis
    using pushback_response [OF v] c by (auto simp: Record_new_def)
qed

end
