(* ===== verification/Task.thy ===== *)
theory Task
  imports Context
begin

text \<open>
  Tasks: the states and the trait of \<open>db/src/task.rs\<close>, native operations of \<open>db/src/native.rs\<close> and
  the containers of extensions of \<open>db/src/container.rs\<close>.

  A generator is code the compiler turns into a state machine. For an extension it is loaded at
  run time, so it is a parameter: \<open>resume\<close> takes the generator's state and everything it may
  change and returns what it leaves behind with the way it came back (it yielded, it completed
  or, for an extension, it panicked). \<open>Arc<Tenant>\<close> is an address into the map of tenants \<open>world\<close>.
  The values read from \<open>rdtsc\<close> are arguments.
\<close>

datatype task_state = INITIALIZED | RUNNING | YIELDED | COMPLETED | STOPPED | WAITING
datatype task_priority = DISPATCH | REQUEST

type_synonym world = "nat \<rightharpoonup> tenant"
type_synonym packets = "(packet \<times> packet) option"

section \<open>The task trait\<close>

text \<open>The virtual table of \<open>Box<Task>\<close>: what the scheduler may call on a task of type \<open>'t\<close> when tasks
  run against a state \<open>'s\<close>.\<close>

record ('t, 's) task_impl =
  t_run :: "'t \<Rightarrow> 's \<Rightarrow> ('t \<times> (task_state \<times> u64) \<times> 's) rust"
  t_state :: "'t \<Rightarrow> task_state"
  t_time :: "'t \<Rightarrow> u64"
  t_db_time :: "'t \<Rightarrow> u64"
  t_priority :: "'t \<Rightarrow> task_priority"
  t_tear :: "'t \<Rightarrow> 's \<Rightarrow> ('t \<times> 's \<times> packets) rust"
  t_set_state :: "task_state \<Rightarrow> 't \<Rightarrow> 't"

section \<open>Native operations\<close>

datatype native_step = GenYielded u64 | GenComplete packets

record 'g native =
  n_state :: task_state
  n_time :: u64
  n_db_time :: u64
  n_priority :: task_priority
  n_gen :: 'g
  n_res :: packets

definition Native_new :: "task_priority \<Rightarrow> 'g \<Rightarrow> 'g native" where
  "Native_new prio g =
     \<lparr>n_state = INITIALIZED, n_time = 0, n_db_time = 0, n_priority = prio, n_gen = g, n_res = None\<rparr>"

definition runnable :: "task_state \<Rightarrow> bool" where
  "runnable s \<longleftrightarrow> s = INITIALIZED \<or> s = YIELDED"

definition Native_run ::
    "('g \<Rightarrow> 's \<Rightarrow> ('g \<times> native_step \<times> 's) rust) \<Rightarrow> u64 \<Rightarrow> u64 \<Rightarrow> 'g native \<Rightarrow> 's \<Rightarrow>
     ('g native \<times> (task_state \<times> u64) \<times> 's) rust" where
  "Native_run resume start now n s =
     rbind (if runnable (n_state n)
            then rbind (resume (n_gen n) s) (\<lambda>(g, r, s).
                   case r of
                     GenYielded time \<Rightarrow>
                       Inr (n\<lparr>n_gen := g, n_db_time := n_db_time n + time, n_state := YIELDED\<rparr>, s)
                   | GenComplete pkts \<Rightarrow> Inr (n\<lparr>n_gen := g, n_res := pkts, n_state := COMPLETED\<rparr>, s))
            else Inr (n, s)) (\<lambda>(n, s).
     let exec = now - start; n = n\<lparr>n_time := n_time n + exec\<rparr>
     in Inr (n, (n_state n, exec), s))"

definition Native_tear :: "'g native \<Rightarrow> 'g native \<times> packets" where
  "Native_tear n = (n\<lparr>n_res := None\<rparr>, n_res n)"

definition Native_set_state :: "task_state \<Rightarrow> 'g native \<Rightarrow> 'g native" where
  "Native_set_state st n = n\<lparr>n_state := st\<rparr>"

section \<open>Containers\<close>

datatype ext_step = ExtYielded u64 | ExtComplete u64 | ExtPanic

text \<open>The context is shared by the container and the generator; \<open>k_ctxt\<close> is what their \<open>Rc\<close> points to
  and \<open>k_db\<close> says whether the container still holds its handle.\<close>

record 'g container =
  k_state :: task_state
  k_priority :: task_priority
  k_time :: u64
  k_db_time :: u64
  k_ctxt :: ctxt
  k_db :: bool
  k_gen :: "'g option"
  k_tenant :: nat

definition Container_new :: "task_priority \<Rightarrow> ctxt \<Rightarrow> nat \<Rightarrow> 'g \<Rightarrow> 'g container" where
  "Container_new prio c tn g =
     \<lparr>k_state = INITIALIZED, k_priority = prio, k_time = 0, k_db_time = 0, k_ctxt = c, k_db = True,
      k_gen = Some g, k_tenant = tn\<rparr>"

definition Container_resume ::
    "('g \<Rightarrow> ctxt \<Rightarrow> world \<Rightarrow> 'g \<times> ext_step \<times> ctxt \<times> world) \<Rightarrow> 'g container \<Rightarrow> world \<Rightarrow> 'g container \<times> world" where
  "Container_resume resume k w =
     (case k_gen k of
        None \<Rightarrow> (k\<lparr>k_state := COMPLETED\<rparr>, w)
      | Some g \<Rightarrow>
          let (g, r, c, w) = resume g (k_ctxt k) w;
              k = k\<lparr>k_gen := Some g, k_ctxt := c\<rparr>;
              k' = (if k_db k then k\<lparr>k_db_time := c_db_credit c\<rparr> else k)
          in case r of
               ExtYielded _ \<Rightarrow> (k'\<lparr>k_state := YIELDED\<rparr>, w)
             | ExtComplete _ \<Rightarrow> (k'\<lparr>k_state := COMPLETED\<rparr>, w)
             | ExtPanic \<Rightarrow> (k\<lparr>k_state := COMPLETED\<rparr>, w))"

definition Container_run ::
    "('g \<Rightarrow> ctxt \<Rightarrow> world \<Rightarrow> 'g \<times> ext_step \<times> ctxt \<times> world) \<Rightarrow> u64 \<Rightarrow> u64 \<Rightarrow> 'g container \<Rightarrow> world \<Rightarrow>
     'g container \<times> (task_state \<times> u64) \<times> world" where
  "Container_run resume start now k w =
     (let (k, w) = (if runnable (k_state k) then Container_resume resume (k\<lparr>k_state := RUNNING\<rparr>) w else (k, w));
          exec = now - start;
          k = k\<lparr>k_time := k_time k + exec\<rparr>
      in (k, (k_state k, exec), w))"

text \<open>\<open>only_ref\<close> says that dropping the generator left no other handle to the context, which is when
  \<open>Rc::try_unwrap\<close> succeeds; \<open>PACKET_UDP_LEN\<close> is 8.\<close>

definition deparse_both :: "(packet \<times> packet) rust \<Rightarrow> packets rust" where
  "deparse_both r =
     rbind r (\<lambda>(req, res). rbind (deparse_header 8 req) (\<lambda>req. rbind (deparse_header 8 res) (\<lambda>res.
       Inr (Some (req, res)))))"

definition Container_tear ::
    "(usize \<Rightarrow> usize) \<Rightarrow> u64 \<Rightarrow> bool \<Rightarrow> 'g container \<Rightarrow> world \<Rightarrow> 'g container \<times> world \<times> packets rust" where
  "Container_tear grant tsc only_ref k w =
     (let held = k_db k;
          k = k\<lparr>k_gen := None, k_db := False\<rparr>
      in if \<not> held then (k, w, Inl UnwrapFailed)
         else if \<not> only_ref then (k, w, Inl ExplicitPanic)
         else if k_state k = STOPPED then (k, w, deparse_both (prepare_for_pushback (k_ctxt k)))
         else case w (k_tenant k) of
                None \<Rightarrow> (k, w, Inl UndefinedBehaviour)
              | Some tn \<Rightarrow>
                  case Context_commit grant tsc tn (k_ctxt k) of
                    (tn', r) \<Rightarrow> (k, w(k_tenant k \<mapsto> tn'), deparse_both r))"

definition Container_set_state :: "task_state \<Rightarrow> 'g container \<Rightarrow> 'g container" where
  "Container_set_state st k = k\<lparr>k_state := st\<rparr>"

section \<open>Life of a task\<close>

text \<open>The state changes a call of \<open>run\<close> can make.\<close>

inductive task_step :: "task_state \<Rightarrow> task_state \<Rightarrow> bool" where
  yields: "runnable s \<Longrightarrow> task_step s YIELDED"
| completes: "runnable s \<Longrightarrow> task_step s COMPLETED"
| idle: "\<not> runnable s \<Longrightarrow> task_step s s"

inductive_cases task_stepE: "task_step s s'"
inductive_simps task_step_COMPLETED: "task_step COMPLETED s"

lemma Container_resume_state:
  "k_state (fst (Container_resume resume k w)) \<in> {YIELDED, COMPLETED}"
  by (auto simp: Container_resume_def Let_def split: option.splits prod.splits ext_step.splits)

lemma Container_run_step:
  "task_step (k_state k) (fst (fst (snd (Container_run resume start now k w))))"
  using Container_resume_state [of resume "k\<lparr>k_state := RUNNING\<rparr>" w]
  by (auto simp: Container_run_def Let_def intro: task_step.intros split: prod.splits)

lemma Native_run_step:
  assumes "Native_run resume start now n s = Inr (n', (st, t), s')"
  shows "task_step (n_state n) st \<and> n_state n' = st"
proof (cases "runnable (n_state n)")
  case True
  then obtain g r s2 where "resume (n_gen n) s = Inr (g, r, s2)"
    using assms by (auto simp: Native_run_def Let_def split: prod.splits)
  with True assms show ?thesis
    by (cases r) (auto simp: Native_run_def Let_def intro: task_step.intros)
next
  case False
  with assms show ?thesis by (auto simp: Native_run_def Let_def intro: task_step.intros)
qed

lemma Container_run_panic:
  assumes "runnable (k_state k)" and "k_gen k = Some g" and "resume g (k_ctxt k) w = (g', ExtPanic, c, w')"
  shows "Container_run resume start now k w =
    (k\<lparr>k_gen := Some g', k_ctxt := c, k_state := COMPLETED, k_time := k_time k + (now - start)\<rparr>,
     (COMPLETED, now - start), w')"
  using assms by (cases k) (simp add: Container_run_def Container_resume_def Let_def)

section \<open>Properties\<close>

text \<open>C37: running a container or a native task follows the task state machine: only an
  initialised or yielded task executes, it ends up yielded or completed, and running it in any
  other state changes neither its state nor the database.\<close>

theorem task_runs_follow_states:
  "task_step (k_state k) (k_state (fst (Container_run resume start now k w)))
   \<and> fst (fst (snd (Container_run resume start now k w))) = k_state (fst (Container_run resume start now k w))
   \<and> (k_state k \<in> {RUNNING, COMPLETED, STOPPED, WAITING} \<longrightarrow>
        k_state (fst (Container_run resume start now k w)) = k_state k \<and>
        snd (snd (Container_run resume start now k w)) = w)"
proof -
  have eq: "fst (fst (snd (Container_run resume start now k w))) = k_state (fst (Container_run resume start now k w))"
    by (simp add: Container_run_def Let_def split: prod.splits)
  then show ?thesis
    using Container_run_step [of k resume start now w]
    by (auto simp: Container_run_def Let_def runnable_def)
qed

theorem task_runs_follow_states_witness:
  "\<exists>k. k_state k = COMPLETED \<and>
     snd (snd (Container_run (\<lambda>(g :: unit) c w. (g, ExtPanic, c, Map.empty)) 0 0 k [1 \<mapsto> wit_tenant])) = [1 \<mapsto> wit_tenant]"
  using task_runs_follow_states [of "Container_set_state COMPLETED (Container_new REQUEST wit_ctxt 1 ())"
      "\<lambda>g c w. (g, ExtPanic, c, Map.empty)" 0 0 "[1 \<mapsto> wit_tenant]"]
  by (intro exI [of _ "Container_set_state COMPLETED (Container_new REQUEST wit_ctxt 1 ())"])
     (simp add: Container_set_state_def)

text \<open>C38: an extension that panics is marked completed, and a completed container commits: the
  writes the extension made before it panicked are installed, and the client receives its
  response as if the invocation had succeeded.\<close>

theorem panicked_extension_commits:
  assumes "\<And>n. n \<le> grant n" and "runnable (k_state k)" and "k_db k" and "k_gen k = Some g"
    and "resume g (k_ctxt k) w = (g', ExtPanic, c, w')" and "w' (k_tenant k) = Some tn"
    and "Context_args c = Inr args" and "8 \<le> length args" and "table_id_of (take 8 args) = tb"
    and "get_table tn tb = Some t" and "table_wf t" and "tx_valid t (c_tx c)" and "reads_current t (c_tx c)"
    and "Container_run resume start now k w = (k', (st, exec), w2)"
  shows "st = COMPLETED \<and>
    (\<exists>t' k2. Container_tear grant tsc True k' w2 =
        (k2, w'(k_tenant k \<mapsto> put_table tb t' tn), deparse_both (Inr (c_request c, c_response c))) \<and>
      contents t' = install_spec (tn_id tn) tb tsc (tx_writes (c_tx c)) (contents t))"
proof -
  have run: "k' = k\<lparr>k_gen := Some g', k_ctxt := c, k_state := COMPLETED, k_time := k_time k + (now - start)\<rparr>"
      "st = COMPLETED" "w2 = w'"
    using Container_run_panic [where resume = resume and w = w, OF assms(2,4,5)] assms(14) by auto
  obtain t' where "validate grant (tn_id tn) tb tsc t (c_tx c) = (t', TX_sort (c_tx c), Inr COMMIT)"
      and t': "contents t' = install_spec (tn_id tn) tb tsc (tx_writes (c_tx c)) (contents t)"
    using validate_commit [OF assms(1,11-13)] by blast
  then have "Context_commit grant tsc tn c = (put_table tb t' tn, Inr (c_request c, c_response c))"
    using Context_commit_table [OF assms(7-10), of grant tsc] by simp
  then show ?thesis
    using run t' assms(3,6) by (auto simp: Container_tear_def Let_def)
qed

theorem panicked_extension_commits_witness:
  "\<exists>k' w2 k2 t'. Container_run (\<lambda>(g :: unit) c w. (g, ExtPanic, fst (Context_put 0 0 wit_tenant (wit_write 1) c), w))
       0 0 (Container_new REQUEST wit_ctxt 1 ()) [1 \<mapsto> wit_tenant] = (k', (COMPLETED, 0), w2) \<and>
     Container_tear (\<lambda>n. n) 50 True k' w2 =
       (k2, [1 \<mapsto> put_table 1 t' wit_tenant], deparse_both (Inr (wit_request, wit_response))) \<and>
     contents t' [1] = Some \<lparr>e_version = 50, e_value = wit_object 5\<rparr>"
proof -
  let ?resume = "\<lambda>(g :: unit) c w. (g, ExtPanic, fst (Context_put 0 0 wit_tenant (wit_write 1) c), w)"
  let ?k = "Container_new REQUEST wit_ctxt 1 ()" and ?w = "[1 \<mapsto> wit_tenant]"
  let ?t = "store Table_default [1] (Some \<lparr>e_version = 1, e_value = wit_object 9\<rparr>)"
  define c where "c = fst (Context_put 0 0 wit_tenant (wit_write 1) wit_ctxt)"
  have c: "c = charge 0 0 PUT_CREDIT (wit_ctxt\<lparr>c_tx := \<lparr>tx_reads = [],
      tx_writes = [Record_new SandstormWrite Table_version [1] [5]]\<rparr>\<rparr>)"
    by (simp add: c_def Context_put_def wit_tenant_table wit_resolve WriteBuf_freeze_def WriteBuf_new_def
        Context_new_def TX_new_def record_put_def)
  have tx: "tx_valid ?t (c_tx c)" "reads_current ?t (c_tx c)"
    by (simp_all add: c tx_valid_def reads_current_def writable_def Record_new_def wit_contents)
  have args: "Context_args c = Inr (enc_u64 1)"
    using wit_args by (simp add: c Context_args_def)
  have packets: "c_request c = wit_request" "c_response c = wit_response"
    by (simp_all add: c Context_new_def)
  have resume: "?resume () (k_ctxt ?k) ?w = ((), ExtPanic, c, ?w)"
    by (simp add: c_def Container_new_def)
  obtain k' w2 where run: "Container_run ?resume 0 0 ?k ?w = (k', (COMPLETED, 0), w2)"
    using Container_run_panic [of ?k "()" ?resume ?w "()" c ?w 0 0, OF _ _ resume]
    by (simp add: Container_new_def runnable_def)
  obtain k2 t' where "Container_tear (\<lambda>n. n) 50 True k' w2 =
      (k2, [1 \<mapsto> put_table 1 t' wit_tenant], deparse_both (Inr (wit_request, wit_response)))"
    "contents t' = install_spec 7 1 50 (tx_writes (c_tx c)) (contents ?t)"
    using panicked_extension_commits [of "\<lambda>n. n" ?k "()" ?resume ?w "()" c ?w wit_tenant "enc_u64 1" 1 ?t, OF _ _ _ _
        resume _ args _ wit_table_id wit_tenant_table(1) _ tx run, of 50]
      wit_tenant_table(3) packets
    by (auto simp: Container_new_def runnable_def store_wf table_wf_default)
  then show ?thesis
    using run by (auto simp: c install_spec_def last_write_def Record_new_def wit_object_def)
qed

end
