(* ===== verification/Sched.thy ===== *)
theory Sched
  imports Task
begin

text \<open>
  The round-robin scheduler: \<open>db/src/sched.rs\<close>.

  The queues and flags of \<open>RoundRobin\<close> are a record; its methods are one function each. \<open>poll\<close> is an
  endless loop that other threads stop by setting the compromised flag: \<open>poll_step\<close> is one turn of
  it, given the time stamp read at its start, and \<open>poll\<close> runs as many turns as there are
  time stamps. Tasks are trait objects, called through the record \<open>task_impl\<close> of the theory \<open>Task\<close>;
  they run against the scheduler itself (the dispatcher enqueues on it) and the rest of the
  server's state \<open>'w\<close>. The credit limit is a floating-point product the code truncates to
  an integer before use: \<open>credit\<close> is that integer. Cargo features are the record \<open>features\<close>.
\<close>

record features =
  f_pushback :: bool
  f_execution :: bool

definition MAX_RX_PACKETS :: usize where "MAX_RX_PACKETS = 32"

record 't round_robin =
  latest :: u64
  compromised :: bool
  thread :: u64
  core :: u32
  waiting :: "'t list"
  responses :: "packet list"
  task_completed :: u64

definition RoundRobin_new :: "u64 \<Rightarrow> u64 \<Rightarrow> u32 \<Rightarrow> 't round_robin" where
  "RoundRobin_new now th co =
     \<lparr>latest = now, compromised = False, thread = th, core = co, waiting = [], responses = [], task_completed = 0\<rparr>"

definition enqueue :: "'t \<Rightarrow> 't round_robin \<Rightarrow> 't round_robin" where
  "enqueue t s = s\<lparr>waiting := waiting s @ [t]\<rparr>"

definition enqueue_many :: "'t list \<Rightarrow> 't round_robin \<Rightarrow> 't round_robin" where
  "enqueue_many ts s = s\<lparr>waiting := waiting s @ ts\<rparr>"

definition dequeue_all :: "'t round_robin \<Rightarrow> 't list \<times> 't round_robin" where
  "dequeue_all s = (waiting s, s\<lparr>waiting := []\<rparr>)"

definition take_responses :: "'t round_robin \<Rightarrow> packet list \<times> 't round_robin" where
  "take_responses s = (responses s, s\<lparr>responses := []\<rparr>)"

definition append_resps :: "packet list \<Rightarrow> 't round_robin \<Rightarrow> 't round_robin" where
  "append_resps ps s = s\<lparr>responses := responses s @ ps\<rparr>"

definition set_compromised :: "'t round_robin \<Rightarrow> 't round_robin" where
  "set_compromised s = s\<lparr>compromised := True\<rparr>"

section \<open>The scheduling loop\<close>

text \<open>The packets of a torn task: the request is freed, the response gets its length fields and is
  queued.\<close>

definition emit :: "packets \<Rightarrow> 't round_robin \<Rightarrow> 't round_robin rust" where
  "emit pk s =
     (case pk of
        None \<Rightarrow> Inr s
      | Some (req, res) \<Rightarrow>
          rbind (fixup_header_length_fields res) (\<lambda>p. Inr (s\<lparr>responses := responses s @ [p]\<rparr>)))"

definition count_completed :: "features \<Rightarrow> 't round_robin \<Rightarrow> 't round_robin" where
  "count_completed ft s =
     (if f_execution ft
      then let count = task_completed s + 1
           in s\<lparr>task_completed := (if 1000000 \<le> count then 0 else count)\<rparr>
      else s)"

definition over_credit :: "('t, 's) task_impl \<Rightarrow> u64 \<Rightarrow> 't \<Rightarrow> bool" where
  "over_credit impl credit t \<longleftrightarrow>
     t_state impl t = YIELDED \<and> credit < t_time impl t - t_db_time impl t"

fun pushback_loop ::
    "('t, 't round_robin \<times> 'w) task_impl \<Rightarrow> u64 \<Rightarrow> usize \<Rightarrow> 't round_robin \<times> 'w \<Rightarrow> ('t round_robin \<times> 'w) rust" where
  "pushback_loop impl credit 0 (s, w) = Inr (s, w)"
| "pushback_loop impl credit (Suc n) (s, w) =
     (case waiting s of
        [] \<Rightarrow> Inl UnwrapFailed
      | y # ys \<Rightarrow>
          if over_credit impl credit y
          then rbind (t_tear impl (t_set_state impl STOPPED y) (s\<lparr>waiting := ys\<rparr>, w)) (\<lambda>(_, (s, w), pk).
               rbind (emit pk s) (\<lambda>s. pushback_loop impl credit n (s, w)))
          else pushback_loop impl credit n (s\<lparr>waiting := y # ys\<rparr>, w))"

definition poll_step ::
    "('t, 't round_robin \<times> 'w) task_impl \<Rightarrow> features \<Rightarrow> u64 \<Rightarrow> u64 \<Rightarrow> u64 \<Rightarrow> 't round_robin \<times> 'w \<Rightarrow>
     (('t round_robin \<times> 'w) \<times> u64 \<times> bool) rust" where
  "poll_step impl ft credit current prev sw =
     (let (s, w) = sw; s = s\<lparr>latest := current\<rparr>
      in if compromised s then Inr ((s, w), prev, False)
         else case waiting s of
           [] \<Rightarrow> Inr ((s, w), prev, True)
         | task # rest \<Rightarrow>
             let is_dispatcher = (t_priority impl task = DISPATCH);
                 queue_length = (if is_dispatcher then length rest else 0);
                 difference = (if is_dispatcher then current - prev else 0);
                 prev = (if is_dispatcher then current else prev)
             in rbind (t_run impl task (s\<lparr>waiting := rest\<rparr>, w)) (\<lambda>(task, (st, _), s, w).
                if st = COMPLETED
                then rbind (t_tear impl task (s, w)) (\<lambda>(_, (s, w), pk).
                     rbind (emit pk s) (\<lambda>s. Inr ((count_completed ft s, w), prev, True)))
                else rbind (if f_pushback ft \<and> is_dispatcher \<and>
                              (MAX_RX_PACKETS div 8 \<le> queue_length \<or> 2000 * credit < difference) \<and>
                              0 < usize_sub (length (waiting s)) queue_length
                            then pushback_loop impl credit queue_length (s, w)
                            else Inr (s, w)) (\<lambda>(s, w).
                     Inr ((s\<lparr>waiting := waiting s @ [task]\<rparr>, w), prev, True))))"

fun poll ::
    "('t, 't round_robin \<times> 'w) task_impl \<Rightarrow> features \<Rightarrow> u64 \<Rightarrow> u64 list \<Rightarrow> u64 \<Rightarrow> 't round_robin \<times> 'w \<Rightarrow>
     (('t round_robin \<times> 'w) \<times> u64 \<times> bool) rust" where
  "poll impl ft credit [] prev sw = Inr (sw, prev, True)"
| "poll impl ft credit (current # tscs) prev sw =
     rbind (poll_step impl ft credit current prev sw) (\<lambda>(sw, prev, continue).
       if continue then poll impl ft credit tscs prev sw else Inr (sw, prev, False))"

section \<open>Scheduling cooperative tasks\<close>

text \<open>
  What the scheduler relies on: a task that runs may add tasks at the end of the queue and
  nothing else, and tearing a task down leaves the queue alone.
\<close>

locale cooperative_tasks =
  fixes impl :: "('t, 't round_robin \<times> 'w) task_impl"
  assumes run_appends: "t_run impl t (s, w) = Inr (t', r, s', w') \<Longrightarrow>
      \<exists>new. waiting s' = waiting s @ new \<and> compromised s' = compromised s"
    and tear_keeps: "t_tear impl t (s, w) = Inr (t', (s', w'), pk) \<Longrightarrow>
      waiting s' = waiting s \<and> compromised s' = compromised s"
begin

lemma emit_keeps:
  "emit pk s = Inr s' \<Longrightarrow> waiting s' = waiting s \<and> compromised s' = compromised s"
  by (auto simp: emit_def split: option.splits prod.splits)

lemma count_keeps:
  "waiting (count_completed ft s) = waiting s" "compromised (count_completed ft s) = compromised s"
  by (simp_all add: count_completed_def Let_def)

text \<open>Without pushback a turn takes the head of the queue and at most adds to its end.\<close>

lemma poll_step_queue:
  assumes "poll_step impl ft credit current prev (s, w) = Inr ((s', w'), prev', b)"
    and "\<not> f_pushback ft" and "\<not> compromised s" and "waiting s = t # rest"
  shows "b \<and> (\<exists>new. waiting s' = rest @ new) \<and> \<not> compromised s'"
proof -
  let ?s = "s\<lparr>latest := current, waiting := rest\<rparr>"
  obtain t' st tm s1 w1 where run: "t_run impl t (?s, w) = Inr (t', (st, tm), s1, w1)"
    using assms by (auto simp: poll_step_def Let_def split: if_splits)
  obtain new where q: "waiting s1 = rest @ new" "\<not> compromised s1"
    using run_appends [OF run] assms(3) by auto
  show ?thesis
  proof (cases "st = COMPLETED")
    case True
    then obtain t2 s2 w2 pk s3 where tear: "t_tear impl t' (s1, w1) = Inr (t2, (s2, w2), pk)"
        and emit: "emit pk s2 = Inr s3" and s': "s' = count_completed ft s3" "b"
      using assms run by (auto simp: poll_step_def Let_def split: prod.splits)
    show ?thesis using tear_keeps [OF tear] emit_keeps [OF emit] s' q by (auto simp: count_keeps)
  next
    case False
    then have "s' = s1\<lparr>waiting := waiting s1 @ [t']\<rparr>" "b"
      using assms run by (auto simp: poll_step_def Let_def)
    then show ?thesis using q by simp
  qed
qed

text \<open>Fairness: the task at position \<open>k\<close> is at the head after \<open>k\<close> turns.\<close>

lemma reaches_head:
  assumes "poll impl ft credit tscs prev (s, w) = Inr ((s', w'), prev', b)"
    and "\<not> f_pushback ft" and "\<not> compromised s" and "length tscs < length (waiting s)"
  shows "b \<and> waiting s' \<noteq> [] \<and> hd (waiting s') = waiting s ! length tscs \<and> \<not> compromised s'"
  using assms
proof (induction tscs arbitrary: prev s w)
  case Nil
  then show ?case by (auto simp: hd_conv_nth)
next
  case (Cons current tscs)
  then obtain t rest where q: "waiting s = t # rest" by (cases "waiting s") auto
  obtain s1 w1 prev1 b1 where step: "poll_step impl ft credit current prev (s, w) = Inr ((s1, w1), prev1, b1)"
    using Cons.prems(1) by (cases "poll_step impl ft credit current prev (s, w)") auto
  obtain new where s1: "b1" "waiting s1 = rest @ new" "\<not> compromised s1"
    using poll_step_queue [OF step Cons.prems(2,3) q] by blast
  then have "poll impl ft credit tscs prev1 (s1, w1) = Inr ((s', w'), prev', b)"
    using Cons.prems(1) step by simp
  from Cons.IH [OF this Cons.prems(2) s1(3)] show ?case
    using Cons.prems(4) q s1(2) by (simp add: nth_append)
qed

end

section \<open>The tasks of the server\<close>

text \<open>The state behind the tasks: the clock, of which every reading consumes a value, and the
  tenants.\<close>

record machine =
  clock :: "nat \<Rightarrow> u64"
  ticks :: nat
  tenants :: world

definition rdtsc :: "machine \<Rightarrow> u64 \<times> machine" where
  "rdtsc m = (clock m (ticks m), m\<lparr>ticks := ticks m + 1\<rparr>)"

datatype ('g, 'h) server_task = NativeTask "'g native" | ContainerTask "'h container"

text \<open>What the tasks run: the native generators of the master service, the extensions it loads, the
  allocator's grant, and whether an extension left handles to its context behind.\<close>

record ('g, 'h) code =
  co_native :: "'g \<Rightarrow> machine \<Rightarrow> ('g \<times> native_step \<times> machine) rust"
  co_ext :: "'h \<Rightarrow> ctxt \<Rightarrow> world \<Rightarrow> 'h \<times> ext_step \<times> ctxt \<times> world"
  co_grant :: "usize \<Rightarrow> usize"
  co_only_ref :: "'h container \<Rightarrow> bool"

fun server_run ::
    "('g, 'h) code \<Rightarrow> ('g, 'h) server_task \<Rightarrow> 's \<times> machine \<Rightarrow>
     (('g, 'h) server_task \<times> (task_state \<times> u64) \<times> 's \<times> machine) rust" where
  "server_run co (NativeTask n) (s, m) =
     (let (start, m) = rdtsc m; (now, m) = rdtsc m
      in rbind (Native_run (co_native co) start now n m) (\<lambda>(n, r, m). Inr (NativeTask n, r, s, m)))"
| "server_run co (ContainerTask k) (s, m) =
     (let (start, m) = rdtsc m; (now, m) = rdtsc m;
          (k, r, w) = Container_run (co_ext co) start now k (tenants m)
      in Inr (ContainerTask k, r, s, m\<lparr>tenants := w\<rparr>))"

fun server_tear ::
    "('g, 'h) code \<Rightarrow> ('g, 'h) server_task \<Rightarrow> 's \<times> machine \<Rightarrow>
     (('g, 'h) server_task \<times> ('s \<times> machine) \<times> packets) rust" where
  "server_tear co (NativeTask n) (s, m) =
     (let (n, pk) = Native_tear n in Inr (NativeTask n, (s, m), pk))"
| "server_tear co (ContainerTask k) (s, m) =
     (let (tsc, m) = rdtsc m;
          (k', w, r) = Container_tear (co_grant co) tsc (co_only_ref co k) k (tenants m)
      in rbind r (\<lambda>pk. Inr (ContainerTask k', (s, m\<lparr>tenants := w\<rparr>), pk)))"

definition server_impl ::
    "('g, 'h) code \<Rightarrow> (('g, 'h) server_task, ('g, 'h) server_task round_robin \<times> machine) task_impl" where
  "server_impl co = \<lparr>
     t_run = server_run co,
     t_state = (\<lambda>t. case t of NativeTask n \<Rightarrow> n_state n | ContainerTask k \<Rightarrow> k_state k),
     t_time = (\<lambda>t. case t of NativeTask n \<Rightarrow> n_time n | ContainerTask k \<Rightarrow> k_time k),
     t_db_time = (\<lambda>t. case t of NativeTask n \<Rightarrow> n_db_time n | ContainerTask k \<Rightarrow> k_db_time k),
     t_priority = (\<lambda>t. case t of NativeTask n \<Rightarrow> n_priority n | ContainerTask k \<Rightarrow> k_priority k),
     t_tear = server_tear co,
     t_set_state = (\<lambda>st t. case t of NativeTask n \<Rightarrow> NativeTask (Native_set_state st n)
       | ContainerTask k \<Rightarrow> ContainerTask (Container_set_state st k))\<rparr>"

lemma server_run_sched:
  "server_run co t (s, m) = Inr (t', r, s', m') \<Longrightarrow> s' = s"
  by (cases t) (auto simp: Let_def split: prod.splits)

lemma server_tear_sched:
  "server_tear co t (s, m) = Inr (t', (s', m'), pk) \<Longrightarrow> s' = s"
  by (cases t) (auto simp: Let_def split: prod.splits)

interpretation sv: cooperative_tasks "server_impl co" for co :: "('g, 'h) code"
proof unfold_locales
  fix t t' r m m' and s s' :: "('g, 'h) server_task round_robin"
  assume "t_run (server_impl co) t (s, m) = Inr (t', r, s', m')"
  then have "server_run co t (s, m) = Inr (t', r, s', m')" by (simp add: server_impl_def)
  then have "s' = s" by (rule server_run_sched)
  then show "\<exists>new. waiting s' = waiting s @ new \<and> compromised s' = compromised s" by auto
next
  fix t t' m m' pk and s s' :: "('g, 'h) server_task round_robin"
  assume "t_tear (server_impl co) t (s, m) = Inr (t', (s', m'), pk)"
  then have "server_tear co t (s, m) = Inr (t', (s', m'), pk)" by (simp add: server_impl_def)
  then have "s' = s" by (rule server_tear_sched)
  then show "waiting s' = waiting s \<and> compromised s' = compromised s" by simp
qed

section \<open>Pushback\<close>

lemma pushback_loop_blocked:
  assumes "waiting s = y # ys" and "\<not> over_credit impl credit y"
  shows "pushback_loop impl credit n (s, w) = Inr (s, w)"
proof (induction n)
  case (Suc n)
  have same: "s\<lparr>waiting := y # ys\<rparr> = s" using assms(1) by (cases s) simp
  then show ?case using Suc assms by (simp add: same)
qed simp

lemma pushback_loop_prefix:
  assumes "\<And>t s w. \<exists>t' w'. t_tear impl t (s, w) = Inr (t', (s, w'), None)"
    and "n \<le> length (waiting s)"
  shows "\<exists>w'. pushback_loop impl credit n (s, w) =
    Inr (s\<lparr>waiting := drop (length (takeWhile (over_credit impl credit) (take n (waiting s)))) (waiting s)\<rparr>, w')"
  using assms(2)
proof (induction n arbitrary: s w)
  case 0
  then show ?case by (cases s) simp
next
  case (Suc n)
  then obtain y ys where q: "waiting s = y # ys" by (cases "waiting s") auto
  show ?case
  proof (cases "over_credit impl credit y")
    case True
    obtain t' w' where "t_tear impl (t_set_state impl STOPPED y) (s\<lparr>waiting := ys\<rparr>, w) = Inr (t', (s\<lparr>waiting := ys\<rparr>, w'), None)"
      using assms(1) by blast
    then show ?thesis
      using True q Suc.prems Suc.IH [of "s\<lparr>waiting := ys\<rparr>" w'] by (simp add: emit_def)
  next
    case False
    then have "s\<lparr>waiting := y # ys\<rparr> = s" using q by (cases s) simp
    then show ?thesis using pushback_loop_blocked [OF q False, of "Suc n" w] q False by simp
  qed
qed

section \<open>Properties\<close>

text \<open>The pushback scan looks at the head of the queue again and again: when the first task
  is not over its credit, the scan of any length pushes back nothing, whatever is queued
  behind it.\<close>

lemma pushback_blocked_by_head:
  assumes "waiting s = t # rest" and "\<not> over_credit (server_impl co) credit t"
  shows "pushback_loop (server_impl co) credit n (s, m) = Inr (s, m)"
  using pushback_loop_blocked [OF assms] .

text \<open>A compromised scheduler returns at its next turn, running no task and keeping every
  queue as it is.\<close>

lemma compromised_returns:
  assumes "compromised s"
  shows "poll (server_impl co) ft credit (tsc # tscs) prev (s, m) = Inr ((s\<lparr>latest := tsc\<rparr>, m), prev, False)"
  using assms by (simp add: poll_step_def Let_def)

section \<open>Witnesses\<close>

definition wit_code :: "(unit, unit) code" where
  "wit_code = \<lparr>co_native = (\<lambda>g m. Inr (g, GenYielded 5, m)), co_ext = (\<lambda>g c w. (g, ExtYielded 0, c, w)),
     co_grant = (\<lambda>n. n), co_only_ref = (\<lambda>_. True)\<rparr>"

definition wit_machine :: machine where
  "wit_machine = \<lparr>clock = word_of_nat, ticks = 0, tenants = Map.empty\<rparr>"

definition wit_native :: "u64 \<Rightarrow> (unit, unit) server_task" where
  "wit_native t = NativeTask ((Native_new REQUEST ())\<lparr>n_time := t, n_state := YIELDED\<rparr>)"

definition wit_sched :: "(unit, unit) server_task round_robin" where
  "wit_sched = enqueue_many [wit_native 1, wit_native 1000] (RoundRobin_new 0 0 0)"

abbreviation default_features :: features where
  "default_features \<equiv> \<lparr>f_pushback = False, f_execution = False\<rparr>"

end
