(* ===== verification/Ext.thy ===== *)
theory Ext
  imports Prelude
begin

unbundle bit_operations_syntax

text \<open>
  Loaded extensions: \<open>Extension\<close> and \<open>ExtensionManager\<close> of \<open>sandstorm/src/ext.rs\<close>, and the lookup by tenant
  in buckets that the manager shares with the tenants of \<open>db/src/master.rs\<close>.

  The dynamic loader is the crate \<open>libloading\<close>: opening a library and finding a symbol in it are
  the parameters \<open>dl_new\<close> and \<open>dl_get\<close>. A procedure \<open>'p\<close> is what the symbol \<open>init\<close> resolves to. Locks make each
  method atomic.
\<close>

section \<open>Buckets by tenant\<close>

definition tenant_bucket :: "usize \<Rightarrow> u32 \<Rightarrow> usize" where
  "tenant_bucket n t = unat (t AND 0xff) AND (n - 1)"

definition bucket_lookup :: "usize \<Rightarrow> ('k \<rightharpoonup> 'v) list \<Rightarrow> u32 \<Rightarrow> 'k \<Rightarrow> 'v option" where
  "bucket_lookup n ms t k = (ms ! tenant_bucket n t) k"

definition bucket_insert :: "usize \<Rightarrow> u32 \<Rightarrow> 'k \<Rightarrow> 'v \<Rightarrow> ('k \<rightharpoonup> 'v) list \<Rightarrow> ('k \<rightharpoonup> 'v) list" where
  "bucket_insert n t k v ms = ms[tenant_bucket n t := (ms ! tenant_bucket n t)(k \<mapsto> v)]"

lemma tenant_bucket_lt: "tenant_bucket 32 t < 32"
proof -
  have "unat (t AND 0xff) AND 31 = take_bit 5 (unat (t AND 0xff))"
    by (simp add: take_bit_eq_mask mask_eq_exp_minus_1)
  then show ?thesis by (simp add: tenant_bucket_def take_bit_eq_mod)
qed

text \<open>
  The contract of such a map, for a client that does not look at the buckets: what is inserted
  under a key is found under it, and nothing else changes.
\<close>

locale tenant_map =
  fixes inv :: "'m \<Rightarrow> bool"
    and lookup :: "'m \<Rightarrow> u32 \<Rightarrow> 'k \<Rightarrow> 'v option"
    and insert_at :: "u32 \<Rightarrow> 'k \<Rightarrow> 'v \<Rightarrow> 'm \<Rightarrow> 'm"
    and owner :: "'k \<Rightarrow> u32"
  assumes lookup_insert: "inv m \<Longrightarrow> t = owner k \<Longrightarrow> t' = owner k' \<Longrightarrow>
      lookup (insert_at t k v m) t' k' = (if k' = k then Some v else lookup m t' k')"
    and inv_insert: "inv m \<Longrightarrow> inv (insert_at t k v m)"
begin

fun insert_all :: "('k \<times> 'v) list \<Rightarrow> 'm \<Rightarrow> 'm" where
  "insert_all [] m = m"
| "insert_all ((k, v) # kvs) m = insert_all kvs (insert_at (owner k) k v m)"

lemma lookup_insert_all:
  assumes "inv m"
  shows "lookup (insert_all kvs m) (owner k) k =
    (case map_of (rev kvs) k of Some v \<Rightarrow> Some v | None \<Rightarrow> lookup m (owner k) k)"
  using assms
proof (induction kvs arbitrary: m)
  case (Cons kv kvs)
  obtain k1 v1 where kv: "kv = (k1, v1)" by fastforce
  show ?case
    using Cons.IH [OF inv_insert [OF Cons.prems]] lookup_insert [OF Cons.prems, of "owner k1" k1 "owner k" k v1]
    by (auto simp: kv map_add_def split: option.splits)
qed simp

end

section \<open>Extensions\<close>

definition Extension_load :: "('n \<Rightarrow> 'l option) \<Rightarrow> ('l \<Rightarrow> 'p option) \<Rightarrow> 'n \<Rightarrow> 'p option" where
  "Extension_load dl_new dl_get name =
     (case dl_new name of
        Some lib \<Rightarrow> (case dl_get lib of Some procedure \<Rightarrow> Some procedure | None \<Rightarrow> None)
      | None \<Rightarrow> None)"

definition EXT_BUCKETS :: usize where "EXT_BUCKETS = 32"

type_synonym 'p ext_manager = "(u32 \<times> byte_string \<rightharpoonup> 'p) list"

definition ExtensionManager_new :: "'p ext_manager" where
  "ExtensionManager_new = replicate EXT_BUCKETS Map.empty"

definition ext_get :: "'p ext_manager \<Rightarrow> u32 \<Rightarrow> byte_string \<Rightarrow> 'p option" where
  "ext_get em tenant name = bucket_lookup EXT_BUCKETS em tenant (tenant, name)"

definition ext_load ::
    "(byte_string \<Rightarrow> 'l option) \<Rightarrow> ('l \<Rightarrow> 'p option) \<Rightarrow> byte_string \<Rightarrow> u32 \<Rightarrow> byte_string \<Rightarrow> 'p ext_manager \<Rightarrow>
     'p ext_manager \<times> bool" where
  "ext_load dl_new dl_get path tenant name em =
     (case Extension_load dl_new dl_get path of
        Some ext \<Rightarrow> (bucket_insert EXT_BUCKETS tenant (tenant, name) ext em, True)
      | None \<Rightarrow> (em, False))"

definition ext_share :: "u32 \<Rightarrow> u32 \<Rightarrow> byte_string \<Rightarrow> 'p ext_manager \<Rightarrow> 'p ext_manager \<times> bool" where
  "ext_share own share name em =
     (case ext_get em own name of
        Some ext \<Rightarrow> (bucket_insert EXT_BUCKETS share (share, name) ext em, True)
      | None \<Rightarrow> (em, False))"

definition ext_wf :: "'p ext_manager \<Rightarrow> bool" where
  "ext_wf em \<longleftrightarrow> length em = EXT_BUCKETS"

lemma bucket_lookup_insert:
  assumes "length ms = 32" and "t = own k" and "t' = own k'"
  shows "bucket_lookup 32 (bucket_insert 32 t k v ms) t' k' = (if k' = k then Some v else bucket_lookup 32 ms t' k')"
  using assms tenant_bucket_lt [of t] tenant_bucket_lt [of t']
  by (auto simp: bucket_lookup_def bucket_insert_def nth_list_update)

interpretation exts: tenant_map ext_wf "bucket_lookup EXT_BUCKETS" "bucket_insert EXT_BUCKETS"
  "fst :: u32 \<times> byte_string \<Rightarrow> u32"
proof unfold_locales
  fix m :: "'p ext_manager" and t t' v and k k' :: "u32 \<times> byte_string"
  assume "ext_wf m" "t = fst k" "t' = fst k'"
  then show "bucket_lookup EXT_BUCKETS (bucket_insert EXT_BUCKETS t k v m) t' k' =
      (if k' = k then Some v else bucket_lookup EXT_BUCKETS m t' k')"
    using bucket_lookup_insert [of m t fst k t' k'] by (simp add: EXT_BUCKETS_def ext_wf_def)
next
  fix m :: "'p ext_manager" and t v and k :: "u32 \<times> byte_string"
  assume "ext_wf m"
  then show "ext_wf (bucket_insert EXT_BUCKETS t k v m)" by (simp add: ext_wf_def bucket_insert_def)
qed

section \<open>Properties\<close>

text \<open>Extensions are isolated by tenant. Loading an extension makes exactly the name it was
  loaded under available, to the owning tenant only; sharing hands the same procedure to
  one more tenant; a failed load or share changes nothing.\<close>

lemma extensions_isolated:
  assumes "ext_wf em"
  shows "ext_get (fst (ext_load dl_new dl_get path tenant name em)) t n =
      (if snd (ext_load dl_new dl_get path tenant name em) \<and> t = tenant \<and> n = name
       then Extension_load dl_new dl_get path else ext_get em t n)
    \<and> ext_get (fst (ext_share tenant other name em)) t n =
      (if ext_get em tenant name \<noteq> None \<and> t = other \<and> n = name then ext_get em tenant name else ext_get em t n)
    \<and> ext_wf (fst (ext_load dl_new dl_get path tenant name em)) \<and> ext_wf (fst (ext_share tenant other name em))"
  using exts.lookup_insert [OF assms] exts.inv_insert [OF assms] assms
  by (auto simp: ext_get_def ext_load_def ext_share_def split: option.splits)

end
