(* ===== verification/Master.thy ===== *)
theory Master
  imports Sched Ext
begin

unbundle bit_operations_syntax

text \<open>
  The master service: \<open>db/src/master.rs\<close>.

  Tenants are found by identifier in buckets of \<open>Arc<Tenant>\<close>, which are addresses into the map of
  tenants of the machine. A handler that makes a native task captures the parsed packets and
  the fields it read in a generator; the generators are the constructors of \<open>native_gen\<close>
  and \<open>run_native_gen\<close> is their code. None of them reaches its \<open>yield\<close>: they complete when first
  resumed. A handler returns \<open>Inr\<close> with a task or \<open>Inl\<close> with the two packets, inside the outcome of a
  computation that can panic. Header fields are read from the packed bytes; a field of an
  enumeration type is decoded only where the code reads it.
\<close>

section \<open>State\<close>

definition TENANT_BUCKETS :: usize where "TENANT_BUCKETS = 32"

record 'p master =
  ms_tenants :: "(u32 \<rightharpoonup> nat) list"
  ms_extensions :: "'p ext_manager"
  ms_next :: nat

definition Master_new :: "'p master" where
  "Master_new = \<lparr>ms_tenants = replicate TENANT_BUCKETS Map.empty, ms_extensions = ExtensionManager_new, ms_next = 0\<rparr>"

definition get_tenant :: "'p master \<Rightarrow> u32 \<Rightarrow> nat option" where
  "get_tenant ms tenant_id = bucket_lookup TENANT_BUCKETS (ms_tenants ms) tenant_id tenant_id"

definition insert_tenant :: "tenant \<Rightarrow> 'p master \<times> machine \<Rightarrow> 'p master \<times> machine" where
  "insert_tenant tn st =
     (let (ms, m) = st
      in (ms\<lparr>ms_tenants := bucket_insert TENANT_BUCKETS (tn_id tn) (tn_id tn) (ms_next ms) (ms_tenants ms),
             ms_next := ms_next ms + 1\<rparr>,
          m\<lparr>tenants := (tenants m)(ms_next ms \<mapsto> tn)\<rparr>))"

definition deref :: "world \<Rightarrow> nat \<Rightarrow> tenant rust" where
  "deref w a = (case w a of Some tn \<Rightarrow> Inr tn | None \<Rightarrow> Inl UndefinedBehaviour)"

section \<open>Header fields\<close>

definition hdr_tenant :: "byte_string \<Rightarrow> u32" where "hdr_tenant h = dec_u32 (take 4 (drop 2 h))"
definition hdr_stamp :: "byte_string \<Rightarrow> u64" where "hdr_stamp h = dec_u64 (take 8 (drop 6 h))"
definition hdr_u64 :: "usize \<Rightarrow> byte_string \<Rightarrow> u64" where "hdr_u64 i h = dec_u64 (take 8 (drop i h))"
definition hdr_u32 :: "usize \<Rightarrow> byte_string \<Rightarrow> u32" where "hdr_u32 i h = dec_u32 (take 4 (drop i h))"
definition hdr_u16 :: "usize \<Rightarrow> byte_string \<Rightarrow> u16" where "hdr_u16 i h = dec_u16 (take 2 (drop i h))"

definition set_u32 :: "usize \<Rightarrow> u32 \<Rightarrow> byte_string \<Rightarrow> byte_string" where
  "set_u32 i v h = write_at i (enc_u32 v) h"

definition finish :: "packet \<Rightarrow> packet \<Rightarrow> (packet \<times> packet) rust" where
  "finish req res =
     rbind (deparse_header 8 req) (\<lambda>req. rbind (deparse_header 8 res) (\<lambda>res. Inr (req, res)))"

definition malformed :: "packet \<Rightarrow> packet \<Rightarrow> (packet \<times> packet) rust" where
  "malformed req res = rbind (modify_header (set_status StatusMalformedRequest) res) (finish req)"

text \<open>\<open>add_to_payload_tail\<close> with its result as an option, and with its result dropped.\<close>

definition add_ok :: "byte_string \<Rightarrow> packet \<Rightarrow> (packet \<times> bool) rust" where
  "add_ok data p =
     rbind (add_to_payload_tail (length data) data p) (\<lambda>(p, r). Inr (p, (case r of Inl e \<Rightarrow> False | Inr u \<Rightarrow> True)))"

section \<open>Generators\<close>

datatype native_gen =
    GenGet packet packet "nat option" u64 u16
  | GenPut packet packet "nat option" u32 u64 u16
  | GenMultiget packet packet "nat option" u64 u16 u32
  | GenCommit packet packet "nat option" u32 u64 usize usize
  | GenDone

subsection \<open>Get\<close>

definition get_record :: "entry \<Rightarrow> packet \<Rightarrow> (packet \<times> rpc_status \<times> bool) rust" where
  "get_record entry res =
     rbind (Allocator_resolve (e_value entry)) (\<lambda>opt.
       case opt of
         None \<Rightarrow> Inr (res, StatusInternalError, False)
       | Some (k, v) \<Rightarrow>
           rbind (add_ok [1] res) (\<lambda>(res, _).
           rbind (add_ok (enc_u64 (e_version entry)) res) (\<lambda>(res, _).
           rbind (add_ok k res) (\<lambda>(res, ok).
             if ok then rbind (add_ok v res) (\<lambda>(res, ok).
                          Inr (res, if ok then StatusOk else StatusInternalError, ok))
             else Inr (res, StatusOk, True)))))"

definition get_lookup ::
    "packet \<Rightarrow> packet \<Rightarrow> tenant option \<Rightarrow> u64 \<Rightarrow> u16 \<Rightarrow> (packet \<times> rpc_status \<times> bool) rust" where
  "get_lookup req res tn table_id key_length =
     (case tn of
        None \<Rightarrow> Inr (res, StatusTenantDoesNotExist, False)
      | Some tn \<Rightarrow>
          case get_table tn table_id of
            None \<Rightarrow> Inr (res, StatusTableDoesNotExist, False)
          | Some t \<Rightarrow>
              rbind (get_payload req) (\<lambda>pay.
              rbind (split_at pay (unat key_length)) (\<lambda>(key, _).
              rbind (Table_get t key) (\<lambda>e.
                case e of
                  None \<Rightarrow> Inr (res, StatusObjectDoesNotExist, False)
                | Some entry \<Rightarrow> get_record entry res))))"

definition write_get_outcome :: "packet \<times> rpc_status \<times> bool \<Rightarrow> packet rust" where
  "write_get_outcome r =
     (let (res, status, outcome) = r
      in if outcome
         then rbind (get_payload res) (\<lambda>pay.
                modify_header (\<lambda>h. set_status status (set_u32 14 (word_of_nat (length pay)) h)) res)
         else modify_header (set_status status) res)"

definition deref_opt :: "world \<Rightarrow> nat option \<Rightarrow> tenant option rust" where
  "deref_opt w a = (case a of None \<Rightarrow> Inr None | Some a \<Rightarrow> rbind (deref w a) (\<lambda>tn. Inr (Some tn)))"

definition run_get ::
    "packet \<Rightarrow> packet \<Rightarrow> nat option \<Rightarrow> u64 \<Rightarrow> u16 \<Rightarrow> machine \<Rightarrow> ((packet \<times> packet) \<times> machine) rust" where
  "run_get req res tenant table_id key_length m =
     rbind (deref_opt (tenants m) tenant) (\<lambda>tn.
     rbind (get_lookup req res tn table_id key_length) (\<lambda>r.
     rbind (write_get_outcome r) (\<lambda>res.
     rbind (finish req res) (\<lambda>pk. Inr (pk, m)))))"

subsection \<open>Put\<close>

definition put_object ::
    "(usize \<Rightarrow> usize) \<Rightarrow> u32 \<Rightarrow> u64 \<Rightarrow> byte_string \<Rightarrow> byte_string \<Rightarrow> table \<Rightarrow> (table \<times> rpc_status) rust" where
  "put_object grant tenant_id table_id key val t =
     (if val = [] then Inr (t, StatusMalformedRequest)
      else rbind (Allocator_object grant tenant_id table_id key val) (\<lambda>r.
        case r of
          None \<Rightarrow> Inr (t, StatusInternalError)
        | Some (key, obj) \<Rightarrow> rbind (Table_put t key obj) (\<lambda>(t, _). Inr (t, StatusOk))))"

definition run_put ::
    "(usize \<Rightarrow> usize) \<Rightarrow> packet \<Rightarrow> packet \<Rightarrow> nat option \<Rightarrow> u32 \<Rightarrow> u64 \<Rightarrow> u16 \<Rightarrow> machine \<Rightarrow>
     ((packet \<times> packet) \<times> machine) rust" where
  "run_put grant req res tenant tenant_id table_id key_length m =
     rbind (case tenant of
              None \<Rightarrow> Inr (StatusTenantDoesNotExist, m)
            | Some a \<Rightarrow>
                rbind (deref (tenants m) a) (\<lambda>tn.
                  case get_table tn table_id of
                    None \<Rightarrow> Inr (StatusTableDoesNotExist, m)
                  | Some t \<Rightarrow>
                      rbind (get_payload req) (\<lambda>pay.
                      rbind (split_at pay (unat key_length)) (\<lambda>(key, val).
                      rbind (put_object grant tenant_id table_id key val t) (\<lambda>(t, status).
                        Inr (status, m\<lparr>tenants := (tenants m)(a \<mapsto> put_table table_id t tn)\<rparr>))))))
       (\<lambda>(status, m).
     rbind (modify_header (set_status status) res) (\<lambda>res.
     rbind (finish req res) (\<lambda>pk. Inr (pk, m))))"

subsection \<open>Multiget\<close>

text \<open>The loop over the chunks of the payload: \<open>n\<close> counts the chunks seen, \<open>n_recs\<close> the records written.\<close>

definition multiget_record :: "entry \<Rightarrow> packet \<Rightarrow> (packet \<times> bool) rust" where
  "multiget_record entry res =
     rbind (Allocator_resolve (e_value entry)) (\<lambda>opt.
       case opt of
         None \<Rightarrow> Inr (res, False)
       | Some (k, v) \<Rightarrow>
           rbind (add_ok [1] res) (\<lambda>(res, _).
           rbind (add_ok (enc_u64 (e_version entry)) res) (\<lambda>(res, _).
           rbind (add_ok k res) (\<lambda>(res, _). add_ok v res))))"

fun multiget_loop ::
    "(entry \<Rightarrow> packet \<Rightarrow> (packet \<times> bool) rust) \<Rightarrow> table \<Rightarrow> u16 \<Rightarrow> u32 \<Rightarrow> u32 \<Rightarrow> u32 \<Rightarrow> byte_string list \<Rightarrow> packet \<Rightarrow>
     (packet \<times> u32) rust" where
  "multiget_loop rec t key_length num_keys n n_recs [] res = Inr (res, n_recs)"
| "multiget_loop rec t key_length num_keys n n_recs (key # keys) res =
     (let n = n + 1
      in if num_keys < n \<or> length key \<noteq> unat key_length then Inr (res, n_recs)
         else rbind (Table_get t key) (\<lambda>e.
           case e of
             None \<Rightarrow> Inr (res, n_recs)
           | Some entry \<Rightarrow>
               rbind (rec entry res) (\<lambda>(res, ok).
                 if ok then multiget_loop rec t key_length num_keys n (n_recs + 1) keys res
                 else Inr (res, n_recs))))"

definition multiget_lookup ::
    "(entry \<Rightarrow> packet \<Rightarrow> (packet \<times> bool) rust) \<Rightarrow> packet \<Rightarrow> packet \<Rightarrow> tenant option \<Rightarrow> u64 \<Rightarrow> u16 \<Rightarrow> u32 \<Rightarrow>
     (packet \<times> rpc_status \<times> u32) rust" where
  "multiget_lookup rec req res tn table_id key_length num_keys =
     (case tn of
        None \<Rightarrow> Inr (res, StatusTenantDoesNotExist, 0)
      | Some tn \<Rightarrow>
          case get_table tn table_id of
            None \<Rightarrow> Inr (res, StatusTableDoesNotExist, 0)
          | Some t \<Rightarrow>
              rbind (get_payload req) (\<lambda>pay.
              rbind (chunks pay (unat key_length)) (\<lambda>keys.
              rbind (multiget_loop rec t key_length num_keys 0 0 keys res) (\<lambda>(res, n_recs).
                Inr (res, if n_recs = num_keys then StatusOk else StatusObjectDoesNotExist, n_recs)))))"

definition write_multiget_outcome :: "packet \<times> rpc_status \<times> u32 \<Rightarrow> packet rust" where
  "write_multiget_outcome r =
     (let (res, status, n_recs) = r
      in rbind (modify_header (set_status status) res) (\<lambda>res.
           if status = StatusOk then modify_header (set_u32 14 n_recs) res else Inr res))"

definition run_multiget ::
    "packet \<Rightarrow> packet \<Rightarrow> nat option \<Rightarrow> u64 \<Rightarrow> u16 \<Rightarrow> u32 \<Rightarrow> machine \<Rightarrow> ((packet \<times> packet) \<times> machine) rust" where
  "run_multiget req res tenant table_id key_length num_keys m =
     rbind (deref_opt (tenants m) tenant) (\<lambda>tn.
     rbind (multiget_lookup multiget_record req res tn table_id key_length num_keys) (\<lambda>r.
     rbind (write_multiget_outcome r) (\<lambda>res.
     rbind (finish req res) (\<lambda>pk. Inr (pk, m)))))"

subsection \<open>Commit\<close>

definition parse_record :: "usize \<Rightarrow> byte_string \<Rightarrow> (op_type \<times> u64 \<times> byte_string \<times> byte_string) rust" where
  "parse_record key_len record =
     rbind (split_at record 1) (\<lambda>(optype, rem).
     rbind (split_at rem 8) (\<lambda>(version, rem).
     rbind (split_at rem key_len) (\<lambda>(key, value).
     rbind (parse_record_optype optype) (\<lambda>ot. Inr (ot, dec_u64 version, key, value)))))"

fun commit_records :: "usize \<Rightarrow> byte_string list \<Rightarrow> tx \<Rightarrow> tx rust" where
  "commit_records key_len [] x = Inr x"
| "commit_records key_len (record # records) x =
     rbind (parse_record key_len record) (\<lambda>(ot, version, key, val).
       commit_records key_len records
         (case ot of
            SandstormRead \<Rightarrow> record_get (Record_new SandstormRead version key val) x
          | SandstormWrite \<Rightarrow> record_put (Record_new SandstormWrite version key val) x
          | InvalidRecord \<Rightarrow> x))"

fun abort_reads :: "usize \<Rightarrow> byte_string list \<Rightarrow> packet \<Rightarrow> packet rust" where
  "abort_reads key_len [] res = Inr res"
| "abort_reads key_len (record # records) res =
     rbind (parse_record key_len record) (\<lambda>(ot, version, key, val).
     rbind (if ot = SandstormRead then add_ok key res else Inr (res, True)) (\<lambda>(res, _).
       abort_reads key_len records res))"

definition commit_tx ::
    "(usize \<Rightarrow> usize) \<Rightarrow> u64 \<Rightarrow> packet \<Rightarrow> packet \<Rightarrow> u32 \<Rightarrow> u64 \<Rightarrow> usize \<Rightarrow> usize \<Rightarrow> table \<Rightarrow>
     (table \<times> packet \<times> rpc_status) rust" where
  "commit_tx grant tsc req res tenant_id table_id key_len val_len t =
     (let record_len = 1 + 8 + key_len + val_len
      in rbind (get_payload req) (\<lambda>records.
           if length records < record_len then Inr (t, res, StatusMalformedRequest)
           else rbind (chunks records record_len) (\<lambda>chs.
                rbind (commit_records key_len chs TX_new) (\<lambda>x.
                case validate grant tenant_id table_id tsc t x of
                  (t', _, Inl e) \<Rightarrow> Inl e
                | (t', _, Inr COMMIT) \<Rightarrow> Inr (t', res, StatusOk)
                | (t', _, Inr ABORT) \<Rightarrow>
                    rbind (abort_reads key_len chs res) (\<lambda>res. Inr (t', res, StatusTxAbort))))))"

definition run_commit ::
    "(usize \<Rightarrow> usize) \<Rightarrow> packet \<Rightarrow> packet \<Rightarrow> nat option \<Rightarrow> u32 \<Rightarrow> u64 \<Rightarrow> usize \<Rightarrow> usize \<Rightarrow> machine \<Rightarrow>
     ((packet \<times> packet) \<times> machine) rust" where
  "run_commit grant req res tenant tenant_id table_id key_len val_len m =
     rbind (case tenant of
              None \<Rightarrow> Inr (res, StatusTenantDoesNotExist, m)
            | Some a \<Rightarrow>
                rbind (deref (tenants m) a) (\<lambda>tn.
                  case get_table tn table_id of
                    None \<Rightarrow> Inr (res, StatusTableDoesNotExist, m)
                  | Some t \<Rightarrow>
                      let (tsc, m) = rdtsc m
                      in rbind (commit_tx grant tsc req res tenant_id table_id key_len val_len t) (\<lambda>(t, res, status).
                         Inr (res, status, m\<lparr>tenants := (tenants m)(a \<mapsto> put_table table_id t tn)\<rparr>))))
       (\<lambda>(res, status, m).
     rbind (modify_header (set_status status) res) (\<lambda>res.
     rbind (finish req res) (\<lambda>pk. Inr (pk, m))))"

subsection \<open>Resumption\<close>

fun run_native_gen ::
    "(usize \<Rightarrow> usize) \<Rightarrow> native_gen \<Rightarrow> machine \<Rightarrow> (native_gen \<times> native_step \<times> machine) rust" where
  "run_native_gen grant (GenGet req res tn table_id key_length) m =
     rbind (run_get req res tn table_id key_length m) (\<lambda>(pk, m). Inr (GenDone, GenComplete (Some pk), m))"
| "run_native_gen grant (GenPut req res tn tenant_id table_id key_length) m =
     rbind (run_put grant req res tn tenant_id table_id key_length m) (\<lambda>(pk, m). Inr (GenDone, GenComplete (Some pk), m))"
| "run_native_gen grant (GenMultiget req res tn table_id key_length num_keys) m =
     rbind (run_multiget req res tn table_id key_length num_keys m) (\<lambda>(pk, m). Inr (GenDone, GenComplete (Some pk), m))"
| "run_native_gen grant (GenCommit req res tn tenant_id table_id key_len val_len) m =
     rbind (run_commit grant req res tn tenant_id table_id key_len val_len m) (\<lambda>(pk, m). Inr (GenDone, GenComplete (Some pk), m))"
| "run_native_gen grant GenDone m = Inl ExplicitPanic"

section \<open>Handlers\<close>

type_synonym 'h task_result = "(packet \<times> packet) + (native_gen, 'h) server_task"

type_synonym native_task_result = "(packet \<times> packet) + native_gen native"

definition push_response :: "hdr_type \<Rightarrow> byte_string \<Rightarrow> packet \<Rightarrow> packet rust" where
  "push_response ty hdr res = rbind (push_header ty hdr res) expect"

definition native_task :: "native_gen \<Rightarrow> native_task_result rust" where
  "native_task g = Inr (Inr (Native_new REQUEST g))"

text \<open>A native task as a trait object.\<close>

definition boxed :: "native_task_result rust \<Rightarrow> 'h task_result rust" where
  "boxed r = rbind r (\<lambda>r. Inr (case r of Inl pk \<Rightarrow> Inl pk | Inr n \<Rightarrow> Inr (NativeTask n)))"

definition Master_get :: "'p master \<Rightarrow> packet \<Rightarrow> packet \<Rightarrow> native_task_result rust" where
  "Master_get ms req res =
     rbind (parse_header GetRequest req) (\<lambda>req.
     rbind (get_header req) (\<lambda>h.
     let tenant_id = hdr_tenant h; table_id = hdr_u64 14 h; key_length = hdr_u16 22 h; rpc_stamp = hdr_stamp h
     in rbind (push_response GetResponse (enc_get_response (GetResponse_new rpc_stamp SandstormGetRpc tenant_id)) res) (\<lambda>res.
        rbind (get_payload req) (\<lambda>pay.
          if length pay < unat key_length then rbind (malformed req res) (\<lambda>pk. Inr (Inl pk))
          else native_task (GenGet req res (get_tenant ms tenant_id) table_id key_length)))))"

definition Master_put :: "'p master \<Rightarrow> packet \<Rightarrow> packet \<Rightarrow> native_task_result rust" where
  "Master_put ms req res =
     rbind (parse_header PutRequest req) (\<lambda>req.
     rbind (get_header req) (\<lambda>h.
     let tenant_id = hdr_tenant h; table_id = hdr_u64 14 h; key_length = hdr_u16 22 h; rpc_stamp = hdr_stamp h
     in rbind (push_response PutResponse (enc_response (PutResponse_new rpc_stamp SandstormPutRpc tenant_id)) res) (\<lambda>res.
        rbind (get_payload req) (\<lambda>pay.
          if length pay < unat key_length then rbind (malformed req res) (\<lambda>pk. Inr (Inl pk))
          else native_task (GenPut req res (get_tenant ms tenant_id) tenant_id table_id key_length)))))"

definition Master_multiget :: "'p master \<Rightarrow> packet \<Rightarrow> packet \<Rightarrow> native_task_result rust" where
  "Master_multiget ms req res =
     rbind (parse_header MultiGetRequest req) (\<lambda>req.
     rbind (get_header req) (\<lambda>h.
     let tenant_id = hdr_tenant h; table_id = hdr_u64 14 h; key_length = hdr_u16 22 h; num_keys = hdr_u32 24 h;
         rpc_stamp = hdr_stamp h
     in rbind (push_response MultiGetResponse
                (enc_multiget_response (MultiGetResponse_new rpc_stamp SandstormMultiGetRpc tenant_id 0)) res) (\<lambda>res.
        rbind (get_payload req) (\<lambda>pay.
          if length pay < unat ((ucast key_length :: u32) * num_keys)
          then rbind (malformed req res) (\<lambda>pk. Inr (Inl pk))
          else native_task (GenMultiget req res (get_tenant ms tenant_id) table_id key_length num_keys)))))"

definition Master_commit :: "'p master \<Rightarrow> packet \<Rightarrow> packet \<Rightarrow> native_task_result rust" where
  "Master_commit ms req res =
     rbind (parse_header CommitRequest req) (\<lambda>req.
     rbind (get_header req) (\<lambda>h.
     let tenant_id = hdr_tenant h; rpc_stamp = hdr_stamp h; table_id = hdr_u64 14 h;
         key_len = unat (hdr_u16 22 h); val_len = unat (hdr_u16 24 h)
     in rbind (push_response CommitResponse
                (enc_response (CommitResponse_new rpc_stamp SandstormCommitRpc tenant_id)) res) (\<lambda>res.
        native_task (GenCommit req res (get_tenant ms tenant_id) tenant_id table_id key_len val_len))))"

subsection \<open>Invoke\<close>

text \<open>What \<open>String::from_utf8\<close> accepts.\<close>

definition in_range :: "u8 \<Rightarrow> u8 \<Rightarrow> u8 \<Rightarrow> bool" where
  "in_range lo hi b \<longleftrightarrow> lo \<le> b \<and> b \<le> hi"

fun utf8_valid :: "byte_string \<Rightarrow> bool" where
  "utf8_valid [] = True"
| "utf8_valid (b # rest) =
     (if b < 0x80 then utf8_valid rest
      else if in_range 0xC2 0xDF b then
        (case rest of c # r \<Rightarrow> in_range 0x80 0xBF c \<and> utf8_valid r | _ \<Rightarrow> False)
      else if in_range 0xE0 0xEF b then
        (case rest of
           c # d # r \<Rightarrow>
             in_range (if b = 0xE0 then 0xA0 else 0x80) (if b = 0xED then 0x9F else 0xBF) c \<and>
             in_range 0x80 0xBF d \<and> utf8_valid r
         | _ \<Rightarrow> False)
      else if in_range 0xF0 0xF4 b then
        (case rest of
           c # d # e # r \<Rightarrow>
             in_range (if b = 0xF0 then 0x90 else 0x80) (if b = 0xF4 then 0x8F else 0xBF) c \<and>
             in_range 0x80 0xBF d \<and> in_range 0x80 0xBF e \<and> utf8_valid r
         | _ \<Rightarrow> False)
      else False)"

text \<open>\<open>init\<close> is the call of an extension's procedure with its context, which returns the generator.\<close>

definition Master_invoke ::
    "('p \<Rightarrow> ctxt \<Rightarrow> ('h \<times> ctxt) rust) \<Rightarrow> 'p master \<Rightarrow> packet \<Rightarrow> packet \<Rightarrow> 'h task_result rust" where
  "Master_invoke init ms req res =
     rbind (parse_header InvokeRequest req) (\<lambda>req.
     rbind (get_header req) (\<lambda>h.
     let tenant_id = hdr_tenant h; name_length = unat (hdr_u32 14 h); args_length = unat (hdr_u32 18 h);
         rpc_stamp = hdr_stamp h
     in rbind (push_response InvokeResponse
                (enc_response (InvokeResponse_new rpc_stamp SandstormInvokeRpc tenant_id)) res) (\<lambda>res.
        rbind (get_payload req) (\<lambda>pay.
          if length pay < name_length + args_length then rbind (malformed req res) (\<lambda>pk. Inr (Inl pk))
          else rbind (split_at pay name_length) (\<lambda>(name, _).
               rbind (if utf8_valid name then Inr () else Inl UnwrapFailed) (\<lambda>_.
               let fail = (\<lambda>status. rbind (modify_header (set_status status) res) (\<lambda>res.
                            rbind (finish req res) (\<lambda>pk. Inr (Inl pk))))
               in case get_tenant ms tenant_id of
                    None \<Rightarrow> fail StatusTenantDoesNotExist
                  | Some a \<Rightarrow>
                      case ext_get (ms_extensions ms) tenant_id name of
                        None \<Rightarrow> fail StatusInvalidExtension
                      | Some ext \<Rightarrow>
                          rbind (init ext (Context_new req name_length args_length res)) (\<lambda>(g, c).
                          Inr (Inr (ContainerTask (Container_new REQUEST c a g)))))))))) "

section \<open>Requests served without a task\<close>

type_synonym native_result = "(packet \<times> packet) + (packet \<times> packet)"

definition native_value :: "get_generator \<Rightarrow> entry \<Rightarrow> packet \<Rightarrow> (packet \<times> rpc_status \<times> bool) rust" where
  "native_value gen entry res =
     rbind (Allocator_resolve (e_value entry)) (\<lambda>opt.
       case opt of
         None \<Rightarrow> Inr (res, StatusInternalError, False)
       | Some (k, v) \<Rightarrow>
           rbind (if gen = SandstormExtension then add_ok k res else Inr (res, True)) (\<lambda>(res, ok).
             if ok then rbind (add_ok v res) (\<lambda>(res, ok).
                          Inr (res, if ok then StatusOk else StatusInternalError, ok))
             else Inr (res, StatusOk, True)))"

definition get_native_lookup ::
    "get_generator \<Rightarrow> packet \<Rightarrow> packet \<Rightarrow> tenant option \<Rightarrow> u64 \<Rightarrow> u16 \<Rightarrow> (packet \<times> rpc_status \<times> bool) rust" where
  "get_native_lookup gen req res tn table_id key_length =
     (case tn of
        None \<Rightarrow> Inr (res, StatusTenantDoesNotExist, False)
      | Some tn \<Rightarrow>
          case get_table tn table_id of
            None \<Rightarrow> Inr (res, StatusTableDoesNotExist, False)
          | Some t \<Rightarrow>
              rbind (get_payload req) (\<lambda>pay.
              rbind (split_at pay (unat key_length)) (\<lambda>(key, _).
              rbind (Table_get t key) (\<lambda>e.
                case e of
                  None \<Rightarrow> Inr (res, StatusObjectDoesNotExist, False)
                | Some entry \<Rightarrow> native_value gen entry res))))"

definition get_native :: "'p master \<Rightarrow> machine \<Rightarrow> packet \<Rightarrow> packet \<Rightarrow> native_result rust" where
  "get_native ms m req res =
     rbind (parse_header GetRequest req) (\<lambda>req.
     rbind (get_header req) (\<lambda>h.
     let tenant_id = hdr_tenant h; table_id = hdr_u64 14 h; key_length = hdr_u16 22 h; rpc_stamp = hdr_stamp h
     in rbind (rbind (index_slice h 24) generator_of) (\<lambda>req_generator.
        rbind (push_response GetResponse (enc_get_response (GetResponse_new rpc_stamp SandstormGetRpc tenant_id)) res) (\<lambda>res.
        rbind (get_payload req) (\<lambda>pay.
          if length pay < unat key_length then rbind (malformed req res) (\<lambda>pk. Inr (Inl pk))
          else rbind (deref_opt (tenants m) (get_tenant ms tenant_id)) (\<lambda>tn.
               rbind (get_native_lookup req_generator req res tn table_id key_length) (\<lambda>r.
               rbind (write_get_outcome r) (\<lambda>res.
               rbind (finish req res) (\<lambda>pk. Inr (Inr pk)))))))))) "

definition put_native ::
    "(usize \<Rightarrow> usize) \<Rightarrow> 'p master \<Rightarrow> machine \<Rightarrow> packet \<Rightarrow> packet \<Rightarrow> (native_result \<times> machine) rust" where
  "put_native grant ms m req res =
     rbind (parse_header PutRequest req) (\<lambda>req.
     rbind (get_header req) (\<lambda>h.
     let tenant_id = hdr_tenant h; table_id = hdr_u64 14 h; key_length = hdr_u16 22 h; rpc_stamp = hdr_stamp h
     in rbind (push_response PutResponse (enc_response (PutResponse_new rpc_stamp SandstormPutRpc tenant_id)) res) (\<lambda>res.
        rbind (get_payload req) (\<lambda>pay.
          if length pay < unat key_length then rbind (malformed req res) (\<lambda>pk. Inr (Inl pk, m))
          else rbind (run_put grant req res (get_tenant ms tenant_id) tenant_id table_id key_length m) (\<lambda>(pk, m).
               Inr (Inr pk, m))))))"

definition multiget_value :: "entry \<Rightarrow> packet \<Rightarrow> (packet \<times> bool) rust" where
  "multiget_value entry res =
     rbind (Allocator_resolve (e_value entry)) (\<lambda>opt.
       case opt of None \<Rightarrow> Inr (res, False) | Some (k, v) \<Rightarrow> add_ok v res)"

definition multiget_native :: "'p master \<Rightarrow> machine \<Rightarrow> packet \<Rightarrow> packet \<Rightarrow> native_result rust" where
  "multiget_native ms m req res =
     rbind (parse_header MultiGetRequest req) (\<lambda>req.
     rbind (get_header req) (\<lambda>h.
     let tenant_id = hdr_tenant h; table_id = hdr_u64 14 h; key_length = hdr_u16 22 h; num_keys = hdr_u32 24 h;
         rpc_stamp = hdr_stamp h
     in rbind (push_response MultiGetResponse
                (enc_multiget_response (MultiGetResponse_new rpc_stamp SandstormMultiGetRpc tenant_id 0)) res) (\<lambda>res.
        rbind (get_payload req) (\<lambda>pay.
          if length pay < unat ((ucast key_length :: u32) * num_keys)
          then rbind (malformed req res) (\<lambda>pk. Inr (Inl pk))
          else rbind (deref_opt (tenants m) (get_tenant ms tenant_id)) (\<lambda>tn.
               rbind (multiget_lookup multiget_value req res tn table_id key_length num_keys) (\<lambda>r.
               rbind (write_multiget_outcome r) (\<lambda>res.
               rbind (finish req res) (\<lambda>pk. Inr (Inr pk)))))))))"

section \<open>The service\<close>

definition Master_dispatch ::
    "('p \<Rightarrow> ctxt \<Rightarrow> ('h \<times> ctxt) rust) \<Rightarrow> opcode \<Rightarrow> 'p master \<Rightarrow> packet \<Rightarrow> packet \<Rightarrow> 'h task_result rust" where
  "Master_dispatch init op ms req res =
     (case op of
        SandstormGetRpc \<Rightarrow> boxed (Master_get ms req res)
      | SandstormPutRpc \<Rightarrow> boxed (Master_put ms req res)
      | SandstormMultiGetRpc \<Rightarrow> boxed (Master_multiget ms req res)
      | SandstormInvokeRpc \<Rightarrow> Master_invoke init ms req res
      | SandstormCommitRpc \<Rightarrow> boxed (Master_commit ms req res)
      | _ \<Rightarrow> Inr (Inl (req, res)))"

definition dispatch_invoke ::
    "('p \<Rightarrow> ctxt \<Rightarrow> ('h \<times> ctxt) rust) \<Rightarrow> 'p master \<Rightarrow> packet \<Rightarrow> packet \<Rightarrow> 'h task_result rust" where
  "dispatch_invoke init ms req res = Master_invoke init ms req res"

definition service_native ::
    "(usize \<Rightarrow> usize) \<Rightarrow> opcode \<Rightarrow> 'p master \<Rightarrow> machine \<Rightarrow> packet \<Rightarrow> packet \<Rightarrow> (native_result \<times> machine) rust" where
  "service_native grant op ms m req res =
     (case op of
        SandstormGetRpc \<Rightarrow> rbind (get_native ms m req res) (\<lambda>r. Inr (r, m))
      | SandstormPutRpc \<Rightarrow> put_native grant ms m req res
      | SandstormMultiGetRpc \<Rightarrow> rbind (multiget_native ms m req res) (\<lambda>r. Inr (r, m))
      | _ \<Rightarrow> Inr (Inl (req, res), m))"

section \<open>Installing extensions\<close>

text \<open>\<open>save\<close> says whether the file could be created, written and synced; the path is
  \<open>/tmp/\<close>, the name, \<open>.so\<close>.\<close>

definition install_path :: "byte_string \<Rightarrow> byte_string" where
  "install_path name = [47, 116, 109, 112, 47] @ name @ [46, 115, 111]"

definition install ::
    "(byte_string \<Rightarrow> 'l option) \<Rightarrow> ('l \<Rightarrow> 'p option) \<Rightarrow> (byte_string \<Rightarrow> byte_string \<Rightarrow> bool) \<Rightarrow>
     byte_string \<Rightarrow> 'p master \<Rightarrow> ('p master \<times> byte_string) rust" where
  "install dl_new dl_get save buf ms =
     rbind (peek 0 22 buf) (\<lambda>hdr.
     let tenant = hdr_tenant hdr; name_l = unat (hdr_u32 14 hdr); extn_l = unat (hdr_u32 18 hdr);
         tstamp = hdr_stamp hdr;
         res = (\<lambda>status. enc_response ((InstallResponse_new tstamp SandstormInstallRpc tenant)\<lparr>rs_status := status\<rparr>))
     in if length buf \<noteq> 22 + name_l + extn_l then Inr (ms, res StatusMalformedRequest)
        else case get_tenant ms tenant of
               None \<Rightarrow> Inr (ms, res StatusTenantDoesNotExist)
             | Some _ \<Rightarrow>
                 rbind (split_at buf 22) (\<lambda>(_, payload).
                 rbind (split_at payload name_l) (\<lambda>(name, payload).
                 rbind (split_at payload extn_l) (\<lambda>(extn, _).
                   if utf8_valid name then
                     (if save (install_path name) extn then
                        (let (em, ok) = ext_load dl_new dl_get (install_path name) tenant name (ms_extensions ms)
                         in Inr (ms\<lparr>ms_extensions := em\<rparr>, res (if ok then StatusOk else StatusInternalError)))
                      else Inl UnwrapFailed)
                   else Inr (ms, res StatusInternalError)))))"

end
