(* ===== verification/Service.thy ===== *)
theory Service
  imports Master
begin

text \<open>
  What the master service promises. The handlers and their generators are followed with the
  positioned views of the theory \<open>Packet\<close>; \<open>get_spec\<close> and \<open>put_spec\<close> say what a request means for the
  tables alone, and the theorems state that the packets carry exactly that.
\<close>

section \<open>Views through the handlers\<close>

lemma add_ok_fits:
  assumes "view_at ty i fr r p" and "data \<noteq> []" and "length data \<le> r"
  shows "\<exists>p'. add_ok data p = Inr (p', True) \<and> view_at ty i (fr @ data) (r - length data) p'"
  using add_tail_view [OF assms] by (auto simp: add_ok_def)

lemma add_ok_full:
  "view_at ty i fr r p \<Longrightarrow> r < length data \<Longrightarrow> add_ok data p = Inr (p, False)"
  using add_tail_full_view [of ty i fr r p "length data" data] by (simp add: add_ok_def)

lemma add_ok_empty: "view_at ty i fr r p \<Longrightarrow> add_ok [] p = Inl IndexOutOfBounds"
  using add_to_payload_tail_empty [OF view_atD(1)] by (simp add: add_ok_def)

lemma request_view:
  assumes "view_at UdpHeader i fr r req" and "drop (i + 8) fr = hdr @ pay"
    and "length hdr = hdr_size ty" and "rpc_type ty"
  shows "\<exists>q. parse_header ty req = Inr q \<and> view_at ty (i + 8) fr r q \<and> get_header q = Inr hdr \<and> get_payload q = Inr pay"
proof -
  have "length (drop (i + 8) fr) = hdr_size ty + length pay" using assms(2,3) by simp
  then have len: "i + 8 + hdr_size ty + length pay = length fr"
    using view_at_bounds(1) [OF assms(1)] by simp
  obtain q where q: "parse_header ty req = Inr q" "view_at ty (i + 8) fr r q"
    using parse_header_view [OF assms(1), of ty] len assms(4) by auto
  have "get_header q = Inr hdr" using get_header_view [OF q(2)] assms(2,3) by simp
  moreover have "drop (i + 8 + hdr_size ty) fr = pay"
    using arg_cong [OF assms(2), of "drop (hdr_size ty)"] assms(3) by (simp add: add.commute)
  then have "get_payload q = Inr pay" using get_payload_view [OF q(2)] assms(4) by simp
  ultimately show ?thesis using q by blast
qed

lemma push_response_view:
  assumes "view_at UdpHeader j fr r res" and "length fr = j + 8" and "length hdr = hdr_size ty"
    and "rpc_type ty" and "hdr_size ty \<le> r"
  shows "\<exists>p. push_response ty hdr res = Inr p \<and> view_at ty (j + 8) (fr @ hdr) (r - hdr_size ty) p"
  using push_header_view [OF assms(1) _ assms(3) _ assms(5)] assms(2,4) by (auto simp: push_response_def)

lemma finish_view:
  assumes "view_at ty1 (i + 8) fr1 r1 req" and "rpc_type ty1"
    and "view_at ty2 (j + 8) fr2 r2 res" and "rpc_type ty2"
  shows "\<exists>req' res'. finish req res = Inr (req', res') \<and> view_at UdpHeader i fr1 r1 req' \<and> view_at UdpHeader j fr2 r2 res'"
proof -
  obtain req' where "deparse_header 8 req = Inr req'" "view_at UdpHeader i fr1 r1 req'"
    using deparse_header_view [OF assms(1), of 8 UdpHeader] view_at_bounds(1) [OF assms(1)] assms(2) by auto
  moreover obtain res' where "deparse_header 8 res = Inr res'" "view_at UdpHeader j fr2 r2 res'"
    using deparse_header_view [OF assms(3), of 8 UdpHeader] view_at_bounds(1) [OF assms(3)] assms(4) by auto
  ultimately show ?thesis by (auto simp: finish_def)
qed

text \<open>A change of the header of a response that was just pushed.\<close>

lemma modify_pushed_view:
  assumes "view_at ty j (fr @ hdr @ pay) r res" and "rpc_type ty" and "length fr = j" and "length hdr = hdr_size ty"
    and "length (f hdr) = hdr_size ty"
  shows "\<exists>p. modify_header f res = Inr p \<and> view_at ty j (fr @ f hdr @ pay) r p"
  using modify_header_view [OF assms(1), of f] assms(2-) by (simp add: write_at_def)

lemma header_fields_get:
  "hdr_tenant (enc_get_request q) = rq_tenant q" "hdr_stamp (enc_get_request q) = rq_stamp q"
  "hdr_u64 14 (enc_get_request q) = gq_table_id q" "hdr_u16 22 (enc_get_request q) = gq_key_length q"
  by (simp_all add: hdr_tenant_def hdr_stamp_def hdr_u64_def hdr_u16_def enc_get_request_def enc_request_def)

lemma header_fields_put:
  "hdr_tenant (enc_put_request q) = rq_tenant q" "hdr_stamp (enc_put_request q) = rq_stamp q"
  "hdr_u64 14 (enc_put_request q) = pq_table_id q" "hdr_u16 22 (enc_put_request q) = pq_key_length q"
  by (simp_all add: hdr_tenant_def hdr_stamp_def hdr_u64_def hdr_u16_def enc_put_request_def enc_request_def)

lemma header_fields_commit:
  "hdr_tenant (enc_commit_request q) = rq_tenant q" "hdr_stamp (enc_commit_request q) = rq_stamp q"
  "hdr_u64 14 (enc_commit_request q) = cq_table_id q" "hdr_u16 22 (enc_commit_request q) = cq_key_length q"
  "hdr_u16 24 (enc_commit_request q) = cq_value_length q"
  by (simp_all add: hdr_tenant_def hdr_stamp_def hdr_u64_def hdr_u16_def enc_commit_request_def enc_request_def)

lemma set_status_enc: "set_status st (enc_response h @ rest) = enc_response (h\<lparr>rs_status := st\<rparr>) @ rest"
  by (simp add: set_status_def enc_response_def)

lemma set_status_enc_get: "set_status st (enc_get_response h) = enc_get_response (h\<lparr>rs_status := st\<rparr>)"
  by (simp add: enc_get_response_def set_status_def enc_response_def)

lemma set_value_length: "set_u32 14 n (enc_get_response h) = enc_get_response (h\<lparr>gr_value_length := n\<rparr>)"
  by (simp add: set_u32_def enc_get_response_def write_at_def enc_response_def)

section \<open>One request, served\<close>

text \<open>The scheduler's part for a native task: it runs once, completes, and is torn down.\<close>

definition serve ::
    "(usize \<Rightarrow> usize) \<Rightarrow> native_task_result rust \<Rightarrow> machine \<Rightarrow> ((packet \<times> packet) \<times> machine) rust" where
  "serve grant result m =
     rbind result (\<lambda>r.
       case r of
         Inl pk \<Rightarrow> Inr (pk, m)
       | Inr n \<Rightarrow>
           rbind (Native_run (run_native_gen grant) 0 0 n m) (\<lambda>(n, _, m).
           rbind (expect (snd (Native_tear n))) (\<lambda>pk. Inr (pk, m))))"

lemma serve_native_task:
  assumes "run_native_gen grant g m = Inr (GenDone, GenComplete (Some pk), m')"
  shows "serve grant (native_task g) m = Inr (pk, m')"
  using assms by (simp add: serve_def native_task_def Native_run_def Native_new_def runnable_def Native_tear_def Let_def)

lemma serve_native_panic:
  assumes "run_native_gen grant g m = Inl e"
  shows "serve grant (native_task g) m = Inl e"
  using assms by (simp add: serve_def native_task_def Native_run_def Native_new_def runnable_def)

lemma serve_native_taskD:
  assumes "serve grant (native_task g) m = Inr (pk, m')"
  shows "\<exists>g'. run_native_gen grant g m = Inr (g', GenComplete (Some pk), m')"
proof -
  obtain g' r m1 where gen: "run_native_gen grant g m = Inr (g', r, m1)"
    using assms by (auto simp: serve_def native_task_def Native_run_def Native_new_def runnable_def)
  then show ?thesis
    using assms
    by (cases r) (auto simp: serve_def native_task_def Native_run_def Native_new_def runnable_def Native_tear_def Let_def
      expect_def split: option.splits)
qed

section \<open>Get\<close>

text \<open>What a get request means: a status and the bytes that follow the response header.\<close>

definition object_value :: "entry \<Rightarrow> byte_string" where
  "object_value e = (case Allocator_resolve (e_value e) of Inr (Some (k, v)) \<Rightarrow> v | _ \<Rightarrow> [])"

definition get_spec :: "tenant option \<Rightarrow> u64 \<Rightarrow> byte_string \<Rightarrow> rpc_status \<times> byte_string" where
  "get_spec tn table_id key =
     (case tn of
        None \<Rightarrow> (StatusTenantDoesNotExist, [])
      | Some tn \<Rightarrow>
          case get_table tn table_id of
            None \<Rightarrow> (StatusTableDoesNotExist, [])
          | Some t \<Rightarrow>
              case contents t key of
                None \<Rightarrow> (StatusObjectDoesNotExist, [])
              | Some e \<Rightarrow>
                  (StatusOk, record_bytes (Record_new SandstormRead (e_version e) key (object_value e))))"

definition tenant_ok :: "tenant \<Rightarrow> bool" where
  "tenant_ok tn \<longleftrightarrow> (\<forall>i t. get_table tn i = Some t \<longrightarrow> table_wf t \<and> objects_ok t)"

text \<open>The objects a request reads are not empty.\<close>

definition values_nonempty :: "tenant \<Rightarrow> bool" where
  "values_nonempty tn \<longleftrightarrow>
     (\<forall>i t k e. get_table tn i = Some t \<longrightarrow> contents t k = Some e \<longrightarrow> object_value e \<noteq> [])"

text \<open>The four writes of a record, when there is room for it.\<close>

lemma add_record_view:
  assumes "view_at ty j fr r res" and "k \<noteq> []" and "v \<noteq> []"
    and "length (record_bytes (Record_new SandstormRead ver k v)) \<le> r"
  shows "\<exists>p1 p2 p3 p4. add_ok [1] res = Inr (p1, True) \<and> add_ok (enc_u64 ver) p1 = Inr (p2, True) \<and>
    add_ok k p2 = Inr (p3, True) \<and> add_ok v p3 = Inr (p4, True) \<and>
    view_at ty j (fr @ record_bytes (Record_new SandstormRead ver k v))
      (r - length (record_bytes (Record_new SandstormRead ver k v))) p4"
proof -
  have len: "1 + (8 + (length k + length v)) \<le> r"
    using assms(4) by (simp add: record_bytes_def Record_new_def)
  obtain p1 where p1: "add_ok [1] res = Inr (p1, True)" "view_at ty j (fr @ [1]) (r - 1) p1"
    using add_ok_fits [OF assms(1), of "[1]"] len by auto
  have "enc_u64 ver \<noteq> []" using length_enc(3) [of ver] by (metis list.size(3) zero_neq_numeral)
  moreover have "8 \<le> r - 1" using len by linarith
  ultimately obtain p2 where p2: "add_ok (enc_u64 ver) p1 = Inr (p2, True)"
      "view_at ty j ((fr @ [1]) @ enc_u64 ver) (r - 9) p2"
    using add_ok_fits [OF p1(2), of "enc_u64 ver"] by auto
  have "length k \<le> r - 9" using len by linarith
  then obtain p3 where p3: "add_ok k p2 = Inr (p3, True)"
      "view_at ty j (((fr @ [1]) @ enc_u64 ver) @ k) (r - 9 - length k) p3"
    using add_ok_fits [OF p2(2) assms(2)] by auto
  have "length v \<le> r - 9 - length k" using len by linarith
  then obtain p4 where p4: "add_ok v p3 = Inr (p4, True)"
      "view_at ty j ((((fr @ [1]) @ enc_u64 ver) @ k) @ v) (r - 9 - length k - length v) p4"
    using add_ok_fits [OF p3(2) assms(3)] by auto
  have "r - 9 - length k - length v = r - length (record_bytes (Record_new SandstormRead ver k v))"
    by (simp add: record_bytes_def Record_new_def)
  then have "view_at ty j (fr @ record_bytes (Record_new SandstormRead ver k v))
      (r - length (record_bytes (Record_new SandstormRead ver k v))) p4"
    using p4(2) by (simp add: record_bytes_def Record_new_def)
  then show ?thesis using p1(1) p2(1) p3(1) p4(1) by blast
qed

lemma get_record_view:
  assumes "view_at ty j fr r res" and "Allocator_resolve (e_value e) = Inr (Some (k, v))"
    and "k \<noteq> []" and "v \<noteq> []"
    and "length (record_bytes (Record_new SandstormRead (e_version e) k v)) \<le> r"
  shows "\<exists>res' r'. get_record e res = Inr (res', StatusOk, True) \<and>
    view_at ty j (fr @ record_bytes (Record_new SandstormRead (e_version e) k v)) r' res'"
proof -
  obtain p1 p2 p3 p4 where p: "add_ok [1] res = Inr (p1, True)" "add_ok (enc_u64 (e_version e)) p1 = Inr (p2, True)"
      "add_ok k p2 = Inr (p3, True)" "add_ok v p3 = Inr (p4, True)"
      "view_at ty j (fr @ record_bytes (Record_new SandstormRead (e_version e) k v))
        (r - length (record_bytes (Record_new SandstormRead (e_version e) k v))) p4"
    using add_record_view [OF assms(1,3-5)] by blast
  have "get_record e res = Inr (p4, StatusOk, True)" by (simp add: get_record_def assms(2) p(1-4))
  then show ?thesis using p(5) by blast
qed

lemma get_lookup_view:
  assumes "view_at ty j fr r res" and "get_payload req = Inr (key @ rest)" and "length key = unat key_length"
    and "key \<noteq> []" and "get_spec tn table_id key = (status, body)" and "length body \<le> r"
    and "\<And>x. tn = Some x \<Longrightarrow> tenant_ok x \<and> values_nonempty x"
  shows "\<exists>res' r'. get_lookup req res tn table_id key_length = Inr (res', status, status = StatusOk) \<and>
    view_at ty j (fr @ body) r' res'"
proof (cases "\<exists>x t e. tn = Some x \<and> get_table x table_id = Some t \<and> contents t key = Some e")
  case False
  then show ?thesis
    using assms(1-5)
    by (auto simp: get_lookup_def get_spec_def table_simps split: option.splits)
next
  case True
  then obtain x t e where tn: "tn = Some x" "get_table x table_id = Some t" "contents t key = Some e" by blast
  have "objects_ok t" using assms(7) [OF tn(1)] tn(2) by (auto simp: tenant_ok_def)
  then obtain v where v: "Allocator_resolve (e_value e) = Inr (Some (key, v))"
    using objects_okD tn(3) by blast
  then have ov: "object_value e = v" by (simp add: object_value_def)
  then have "v \<noteq> []" using assms(7) [OF tn(1)] tn(2,3) by (auto simp: values_nonempty_def)
  then obtain res' r' where "get_record e res = Inr (res', StatusOk, True)"
      "view_at ty j (fr @ record_bytes (Record_new SandstormRead (e_version e) key v)) r' res'"
    using get_record_view [OF assms(1) v assms(4)] assms(5,6) tn ov by (auto simp: get_spec_def)
  then show ?thesis
    using assms(2-5) tn ov by (auto simp: get_lookup_def get_spec_def table_simps)
qed

lemma get_spec_error: "get_spec tn table_id key = (status, body) \<Longrightarrow> status \<noteq> StatusOk \<Longrightarrow> body = []"
  by (auto simp: get_spec_def split: option.splits)

definition get_response_for :: "get_request \<Rightarrow> rpc_status \<Rightarrow> byte_string \<Rightarrow> get_response" where
  "get_response_for q status body =
     (GetResponse_new (rq_stamp q) SandstormGetRpc (rq_tenant q))\<lparr>rs_status := status,
       gr_value_length := word_of_nat (length body)\<rparr>"

lemma write_get_outcome_view:
  assumes "view_at GetResponse j (fr @ enc_get_response (GetResponse_new (rq_stamp q) SandstormGetRpc (rq_tenant q)) @ body) r res"
    and "length fr = j" and "status \<noteq> StatusOk \<Longrightarrow> body = []"
  shows "\<exists>res'. write_get_outcome (res, status, status = StatusOk) = Inr res' \<and>
    view_at GetResponse j (fr @ enc_get_response (get_response_for q status body) @ body) r res'"
proof -
  let ?h = "GetResponse_new (rq_stamp q) SandstormGetRpc (rq_tenant q)"
  have pay: "get_payload res = Inr body"
    using get_payload_view [OF assms(1)] assms(2) by simp
  show ?thesis
  proof (cases "status = StatusOk")
    case True
    let ?f = "\<lambda>h. set_status status (set_u32 14 (word_of_nat (length body)) h)"
    have f: "?f (enc_get_response ?h) = enc_get_response (get_response_for q status body)"
      by (simp add: set_value_length set_status_enc_get get_response_for_def GetResponse_new_def)
    show ?thesis
      using modify_pushed_view [OF assms(1) _ assms(2), of ?f] f pay True
      by (simp add: write_get_outcome_def set_value_length)
  next
    case False
    have f: "set_status status (enc_get_response ?h) = enc_get_response (get_response_for q status body)"
      using assms(3) [OF False] by (simp add: set_status_enc_get get_response_for_def GetResponse_new_def)
    show ?thesis
      using modify_pushed_view [OF assms(1) _ assms(2), of "set_status status"] f False
      by (simp add: write_get_outcome_def)
  qed
qed

text \<open>A request and a response packet as the dispatcher hands them to a handler: both parsed up to
  UDP, the request carrying an RPC header and a payload, the response nothing yet.\<close>

definition handed ::
    "usize \<Rightarrow> byte_string \<Rightarrow> byte_string \<Rightarrow> packet \<Rightarrow> usize \<Rightarrow> byte_string \<Rightarrow> usize \<Rightarrow> packet \<Rightarrow> bool" where
  "handed i hdr pay req j frr r res \<longleftrightarrow>
     (\<exists>fr rq. view_at UdpHeader i fr rq req \<and> drop (i + 8) fr = hdr @ pay) \<and>
     view_at UdpHeader j frr r res \<and> length frr = j + 8"

definition tenant_of :: "'p master \<Rightarrow> machine \<Rightarrow> u32 \<Rightarrow> tenant option" where
  "tenant_of ms m i = Option.bind (get_tenant ms i) (tenants m)"

text \<open>Every tenant the service knows is in memory.\<close>

definition tenants_live :: "'p master \<Rightarrow> machine \<Rightarrow> bool" where
  "tenants_live ms m \<longleftrightarrow> (\<forall>i a. get_tenant ms i = Some a \<longrightarrow> tenants m a \<noteq> None)"

lemma deref_tenant:
  assumes "tenants_live ms m"
  shows "deref_opt (tenants m) (get_tenant ms i) = Inr (tenant_of ms m i)"
proof (cases "get_tenant ms i")
  case (Some a)
  then have "tenants m a \<noteq> None" using assms by (simp add: tenants_live_def)
  then show ?thesis using Some by (auto simp: deref_opt_def deref_def tenant_of_def)
qed (simp add: deref_opt_def tenant_of_def)

lemma Master_get_view:
  assumes "handed i (enc_get_request q) (key @ rest) req j frr r res" and "18 \<le> r"
    and "length key = unat (gq_key_length q)"
  shows "\<exists>req' res' fr rq. Master_get ms req res =
      native_task (GenGet req' res' (get_tenant ms (rq_tenant q)) (gq_table_id q) (gq_key_length q)) \<and>
    view_at GetRequest (i + 8) fr rq req' \<and> get_payload req' = Inr (key @ rest) \<and>
    view_at GetResponse (j + 8)
      (frr @ enc_get_response (GetResponse_new (rq_stamp q) SandstormGetRpc (rq_tenant q))) (r - 18) res'"
proof -
  obtain fr rq where v: "view_at UdpHeader i fr rq req" "drop (i + 8) fr = enc_get_request q @ key @ rest"
      "view_at UdpHeader j frr r res" "length frr = j + 8"
    using assms(1) by (auto simp: handed_def)
  obtain p where p: "parse_header GetRequest req = Inr p" "view_at GetRequest (i + 8) fr rq p"
      "get_header p = Inr (enc_get_request q)" "get_payload p = Inr (key @ rest)"
    using request_view [OF v(1,2), of GetRequest] by auto
  obtain s where s: "push_response GetResponse (enc_get_response (GetResponse_new (rq_stamp q) SandstormGetRpc (rq_tenant q))) res = Inr s"
      "view_at GetResponse (j + 8)
        (frr @ enc_get_response (GetResponse_new (rq_stamp q) SandstormGetRpc (rq_tenant q))) (r - 18) s"
    using push_response_view [OF v(3,4), of "enc_get_response (GetResponse_new (rq_stamp q) SandstormGetRpc (rq_tenant q))" GetResponse]
      assms(2) by auto
  have "Master_get ms req res =
      native_task (GenGet p s (get_tenant ms (rq_tenant q)) (gq_table_id q) (gq_key_length q))"
    using assms(3) by (simp add: Master_get_def p s(1) header_fields_get)
  then show ?thesis using p s(2) by blast
qed

text \<open>What a client reads in a response that was handed back.\<close>

lemma handed_payload:
  assumes "handed i hdr pay req j frr r res" and "view_at UdpHeader j (frr @ out) r' res'"
  shows "get_payload res' = Inr out"
  using get_payload_view [OF assms(2)] assms(1) by (simp add: handed_def)

lemma serve_get:
  assumes "handed i (enc_get_request q) (key @ rest) req j frr r res"
    and "length key = unat (gq_key_length q)" and "key \<noteq> []" and "tenants_live ms m"
    and "\<And>x. tenant_of ms m (rq_tenant q) = Some x \<Longrightarrow> tenant_ok x \<and> values_nonempty x"
    and "get_spec (tenant_of ms m (rq_tenant q)) (gq_table_id q) key = (status, body)"
    and "18 + length body \<le> r"
  shows "\<exists>req' res' r'. serve grant (Master_get ms req res) m = Inr ((req', res'), m) \<and>
    view_at UdpHeader j (frr @ enc_get_response (get_response_for q status body) @ body) r' res'"
proof -
  let ?hdr = "enc_get_response (GetResponse_new (rq_stamp q) SandstormGetRpc (rq_tenant q))"
  let ?tn = "get_tenant ms (rq_tenant q)"
  have "18 \<le> r" using assms(7) by simp
  then obtain req1 res1 fr rq where task: "Master_get ms req res =
        native_task (GenGet req1 res1 ?tn (gq_table_id q) (gq_key_length q))"
      and req1: "view_at GetRequest (i + 8) fr rq req1" "get_payload req1 = Inr (key @ rest)"
      and res1: "view_at GetResponse (j + 8) (frr @ ?hdr) (r - 18) res1"
    using Master_get_view [OF assms(1) _ assms(2)] by metis
  have len: "length frr = j + 8" using assms(1) by (simp add: handed_def)
  have "length body \<le> r - 18" using assms(7) by linarith
  then obtain res2 r2 where res2: "get_lookup req1 res1 (tenant_of ms m (rq_tenant q)) (gq_table_id q) (gq_key_length q) =
        Inr (res2, status, status = StatusOk)"
      "view_at GetResponse (j + 8) ((frr @ ?hdr) @ body) r2 res2"
    using get_lookup_view [OF res1 req1(2) assms(2,3,6) _ assms(5)] by blast
  obtain res3 where res3: "write_get_outcome (res2, status, status = StatusOk) = Inr res3"
      "view_at GetResponse (j + 8) (frr @ enc_get_response (get_response_for q status body) @ body) r2 res3"
    using write_get_outcome_view [of "j + 8" frr q body r2 res2 status] res2(2) len get_spec_error [OF assms(6)] by auto
  obtain req4 res4 where pk: "finish req1 res3 = Inr (req4, res4)"
      "view_at UdpHeader j (frr @ enc_get_response (get_response_for q status body) @ body) r2 res4"
    using finish_view [OF req1(1) _ res3(2)] by auto
  have "run_get req1 res1 ?tn (gq_table_id q) (gq_key_length q) m = Inr ((req4, res4), m)"
    by (simp add: run_get_def deref_tenant [OF assms(4)] res2(1) res3(1) pk(1))
  then have "serve grant (Master_get ms req res) m = Inr ((req4, res4), m)"
    unfolding task by (intro serve_native_task) simp
  then show ?thesis using pk(2) by blast
qed

section \<open>Put\<close>

definition put_response_for :: "put_request \<Rightarrow> rpc_status \<Rightarrow> put_response" where
  "put_response_for q status =
     (PutResponse_new (rq_stamp q) SandstormPutRpc (rq_tenant q))\<lparr>rs_status := status\<rparr>"

lemma put_object_ok:
  assumes "\<And>n. n \<le> grant n" and "table_wf t" and "objects_ok t" and "key \<noteq> []" and "length key < 65536"
    and "val \<noteq> []" and "length val < 2 ^ 63"
  shows "\<exists>t'. put_object grant tenant_id table_id key val t = Inr (t', StatusOk) \<and> table_wf t' \<and> objects_ok t' \<and>
    contents t' = (contents t)(key \<mapsto> \<lparr>e_version =
      (case contents t key of Some e \<Rightarrow> e_version e | None \<Rightarrow> max_deleted_version t) + 1,
      e_value = obj_meta tenant_id table_id (word_of_nat (length key)) @ key @ val\<rparr>)"
proof -
  let ?obj = "obj_meta tenant_id table_id (word_of_nat (length key)) @ key @ val"
  let ?v = "(case contents t key of Some e \<Rightarrow> e_version e | None \<Rightarrow> max_deleted_version t) + 1"
  have obj: "Allocator_object grant tenant_id table_id key val = Inr (Some (key, ?obj))"
    using assms(1,5,7) by (intro object_layout) simp_all
  have "\<exists>o'. Table_put t key ?obj = Inr (store t key (Some \<lparr>e_version = ?v, e_value = ?obj\<rparr>), o')"
    using assms(4) by (simp add: table_simps Let_def split: option.splits)
  then have "put_object grant tenant_id table_id key val t =
      Inr (store t key (Some \<lparr>e_version = ?v, e_value = ?obj\<rparr>), StatusOk)"
    using assms(6) by (auto simp: put_object_def obj)
  then show ?thesis
    using store_wf [OF assms(2,4)] objects_ok_store [OF assms(2,3,4,5)] contents_store [OF assms(2,4)] by auto
qed

lemma Master_put_view:
  assumes "handed i (enc_put_request q) (key @ val) req j frr r res" and "14 \<le> r"
    and "length key = unat (pq_key_length q)"
  shows "\<exists>req' res' fr rq. Master_put ms req res =
      native_task (GenPut req' res' (get_tenant ms (rq_tenant q)) (rq_tenant q) (pq_table_id q) (pq_key_length q)) \<and>
    view_at PutRequest (i + 8) fr rq req' \<and> get_payload req' = Inr (key @ val) \<and>
    view_at PutResponse (j + 8)
      (frr @ enc_response (PutResponse_new (rq_stamp q) SandstormPutRpc (rq_tenant q))) (r - 14) res'"
proof -
  let ?hdr = "enc_response (PutResponse_new (rq_stamp q) SandstormPutRpc (rq_tenant q))"
  obtain fr rq where v: "view_at UdpHeader i fr rq req" "drop (i + 8) fr = enc_put_request q @ key @ val"
      "view_at UdpHeader j frr r res" "length frr = j + 8"
    using assms(1) by (auto simp: handed_def)
  obtain p where p: "parse_header PutRequest req = Inr p" "view_at PutRequest (i + 8) fr rq p"
      "get_header p = Inr (enc_put_request q)" "get_payload p = Inr (key @ val)"
    using request_view [OF v(1,2), of PutRequest] by auto
  obtain s where s: "push_response PutResponse ?hdr res = Inr s" "view_at PutResponse (j + 8) (frr @ ?hdr) (r - 14) s"
    using push_response_view [OF v(3,4), of ?hdr PutResponse] assms(2) by auto
  have "Master_put ms req res =
      native_task (GenPut p s (get_tenant ms (rq_tenant q)) (rq_tenant q) (pq_table_id q) (pq_key_length q))"
    using assms(3) by (simp add: Master_put_def p s(1) header_fields_put Let_def)
  then show ?thesis using p s(2) by blast
qed

lemma serve_put:
  assumes "\<And>n. n \<le> grant n" and "handed i (enc_put_request q) (key @ val) req j frr r res"
    and "length key = unat (pq_key_length q)" and "key \<noteq> []" and "val \<noteq> []" and "length val < 2 ^ 63"
    and "14 \<le> r" and "get_tenant ms (rq_tenant q) = Some a" and "tenants m a = Some tn"
    and "get_table tn (pq_table_id q) = Some t" and "table_wf t" and "objects_ok t"
  shows "\<exists>req' res' r' t'. serve grant (Master_put ms req res) m =
      Inr ((req', res'), m\<lparr>tenants := (tenants m)(a \<mapsto> put_table (pq_table_id q) t' tn)\<rparr>) \<and>
    view_at UdpHeader j (frr @ enc_response (put_response_for q StatusOk)) r' res' \<and> table_wf t' \<and> objects_ok t' \<and>
    contents t' = (contents t)(key \<mapsto> \<lparr>e_version =
      (case contents t key of Some e \<Rightarrow> e_version e | None \<Rightarrow> max_deleted_version t) + 1,
      e_value = obj_meta (rq_tenant q) (pq_table_id q) (word_of_nat (length key)) @ key @ val\<rparr>)"
proof -
  let ?hdr = "enc_response (PutResponse_new (rq_stamp q) SandstormPutRpc (rq_tenant q))"
  obtain req1 res1 fr rq where task: "Master_put ms req res =
        native_task (GenPut req1 res1 (Some a) (rq_tenant q) (pq_table_id q) (pq_key_length q))"
      and req1: "view_at PutRequest (i + 8) fr rq req1" "get_payload req1 = Inr (key @ val)"
      and res1: "view_at PutResponse (j + 8) (frr @ ?hdr) (r - 14) res1"
    using Master_put_view [OF assms(2,7,3), of ms] assms(8) by auto
  have len: "length frr = j + 8" using assms(2) by (simp add: handed_def)
  have "length key < 65536" using assms(3) unat_u16_lt [of "pq_key_length q"] by simp
  then obtain t' where t': "put_object grant (rq_tenant q) (pq_table_id q) key val t = Inr (t', StatusOk)"
      "table_wf t'" "objects_ok t'"
      "contents t' = (contents t)(key \<mapsto> \<lparr>e_version =
        (case contents t key of Some e \<Rightarrow> e_version e | None \<Rightarrow> max_deleted_version t) + 1,
        e_value = obj_meta (rq_tenant q) (pq_table_id q) (word_of_nat (length key)) @ key @ val\<rparr>)"
    using put_object_ok [OF assms(1,11,12,4) _ assms(5,6)] by blast
  have st: "set_status StatusOk ?hdr = enc_response (put_response_for q StatusOk)"
    using set_status_enc [of StatusOk "PutResponse_new (rq_stamp q) SandstormPutRpc (rq_tenant q)" "[]"]
    by (simp add: put_response_for_def)
  obtain res2 where res2: "modify_header (set_status StatusOk) res1 = Inr res2"
      "view_at PutResponse (j + 8) (frr @ enc_response (put_response_for q StatusOk) @ []) (r - 14) res2"
    using modify_pushed_view [of PutResponse "j + 8" frr ?hdr "[]" "r - 14" res1 "set_status StatusOk"] res1 len st by auto
  obtain req3 res3 where pk: "finish req1 res2 = Inr (req3, res3)"
      "view_at UdpHeader j (frr @ enc_response (put_response_for q StatusOk) @ []) (r - 14) res3"
    using finish_view [OF req1(1) _ res2(2)] by auto
  have "run_put grant req1 res1 (Some a) (rq_tenant q) (pq_table_id q) (pq_key_length q) m =
      Inr ((req3, res3), m\<lparr>tenants := (tenants m)(a \<mapsto> put_table (pq_table_id q) t' tn)\<rparr>)"
    using assms(3,9,10) by (simp add: run_put_def deref_def req1(2) t'(1) res2(1) pk(1))
  then have "serve grant (Master_put ms req res) m =
      Inr ((req3, res3), m\<lparr>tenants := (tenants m)(a \<mapsto> put_table (pq_table_id q) t' tn)\<rparr>)"
    unfolding task by (intro serve_native_task) simp
  moreover have "view_at UdpHeader j (frr @ enc_response (put_response_for q StatusOk)) (r - 14) res3"
    using pk(2) by simp
  ultimately show ?thesis using t'(2-4) by blast
qed

end
