(* ===== verification/Requests.thy ===== *)
theory Requests
  imports Service
begin

text \<open>
  The remote procedures end to end. A commit request carries the read-write set of a
  transaction as records of equal length: \<open>commit_records\<close> rebuilds the transaction from them, and
  \<open>serve_commit\<close> follows the request through validation to the response. The properties state, for
  get, put and commit requests on well-formed packets, what the client reads back and what the tables
  hold, and, for malformed requests, which of them make the server panic.
\<close>

section \<open>Records of a transaction\<close>

definition records_shaped :: "usize \<Rightarrow> usize \<Rightarrow> rec list \<Rightarrow> bool" where
  "records_shaped kl vl rs \<longleftrightarrow> (\<forall>r \<in> set rs. length (r_key r) = kl \<and> length (r_object r) = vl)"

definition tx_of :: "rec list \<Rightarrow> tx" where
  "tx_of rs = \<lparr>tx_reads = filter (\<lambda>r. r_optype r = SandstormRead) rs,
               tx_writes = filter (\<lambda>r. r_optype r = SandstormWrite) rs\<rparr>"

lemma parse_record_optype_code: "parse_record_optype (optype_code x # bs) = Inr x"
proof -
  have "\<not> optype_code x < optype_code InvalidRecord \<Longrightarrow> x = InvalidRecord" by (cases x) simp_all
  then show ?thesis by (auto simp: parse_record_optype_def index_slice_def simp del: optype_code.simps)
qed

lemma parse_record_bytes:
  assumes "length (r_key r) = kl"
  shows "parse_record kl (record_bytes r) = Inr (r_optype r, r_version r, r_key r, r_object r)"
  using assms by (simp add: parse_record_def record_bytes_def parse_record_optype_code split_at_def)

lemma commit_records_bytes:
  assumes "\<forall>r \<in> set rs. length (r_key r) = kl"
  shows "commit_records kl (map record_bytes rs) x =
    Inr \<lparr>tx_reads = tx_reads x @ tx_reads (tx_of rs), tx_writes = tx_writes x @ tx_writes (tx_of rs)\<rparr>"
  using assms
proof (induction rs arbitrary: x)
  case (Cons r rs)
  have "r = Record_new (r_optype r) (r_version r) (r_key r) (r_object r)" by (simp add: Record_new_def)
  then show ?case
    using Cons
    by (cases "r_optype r")
      (simp_all add: parse_record_bytes record_get_def record_put_def tx_of_def)
qed (simp add: tx_of_def)

lemma length_record_bytes:
  "length (record_bytes r) = 9 + length (r_key r) + length (r_object r)"
  by (simp add: record_bytes_def)

lemma chunks_record_bytes:
  assumes "records_shaped kl vl rs"
  shows "chunks (concat (map record_bytes rs)) (9 + kl + vl) = Inr (map record_bytes rs)"
  using assms
  by (auto simp: chunks_def records_shaped_def length_record_bytes intro!: chunks_of_concat)

text \<open>The keys of the reads, which an aborted commit sends back.\<close>

lemma abort_reads_view:
  assumes "view_at ty j fr r res" and "\<forall>x \<in> set rs. length (r_key x) = kl" and "0 < kl"
    and "length (concat (map r_key (tx_reads (tx_of rs)))) \<le> r"
  shows "\<exists>res'. abort_reads kl (map record_bytes rs) res = Inr res' \<and>
    view_at ty j (fr @ concat (map r_key (tx_reads (tx_of rs))))
      (r - length (concat (map r_key (tx_reads (tx_of rs))))) res'"
  using assms
proof (induction rs arbitrary: fr r res)
  case (Cons x rs)
  note kl = Cons.prems(2,3)
  show ?case
  proof (cases "r_optype x = SandstormRead")
    case True
    have fits: "length (r_key x) + length (concat (map r_key (tx_reads (tx_of rs)))) \<le> r"
      using Cons.prems(4) True by (simp add: tx_of_def)
    then have "r_key x \<noteq> []" "length (r_key x) \<le> r" using kl by auto
    then obtain p where p: "add_ok (r_key x) res = Inr (p, True)"
        "view_at ty j (fr @ r_key x) (r - length (r_key x)) p"
      using add_ok_fits [OF Cons.prems(1)] by blast
    have "length (concat (map r_key (tx_reads (tx_of rs)))) \<le> r - length (r_key x)" using fits by linarith
    then show ?thesis
      using Cons.IH [OF p(2) _ kl(2)] kl(1) True p(1)
      by (auto simp: parse_record_bytes tx_of_def)
  next
    case False
    then show ?thesis
      using Cons.IH [OF Cons.prems(1) _ kl(2)] kl(1) Cons.prems(4)
      by (auto simp: parse_record_bytes tx_of_def)
  qed
qed (simp add: tx_of_def)


section \<open>Commit\<close>

definition commit_response_for :: "commit_request \<Rightarrow> rpc_status \<Rightarrow> commit_response" where
  "commit_response_for q status =
     (CommitResponse_new (rq_stamp q) SandstormCommitRpc (rq_tenant q))\<lparr>rs_status := status\<rparr>"

lemma Master_commit_view:
  assumes "handed i (enc_commit_request q) pay req j frr r res" and "14 \<le> r"
  shows "\<exists>req' res' fr rq. Master_commit ms req res =
      native_task (GenCommit req' res' (get_tenant ms (rq_tenant q)) (rq_tenant q) (cq_table_id q)
        (unat (cq_key_length q)) (unat (cq_value_length q))) \<and>
    view_at CommitRequest (i + 8) fr rq req' \<and> get_payload req' = Inr pay \<and>
    view_at CommitResponse (j + 8)
      (frr @ enc_response (CommitResponse_new (rq_stamp q) SandstormCommitRpc (rq_tenant q))) (r - 14) res'"
proof -
  let ?hdr = "enc_response (CommitResponse_new (rq_stamp q) SandstormCommitRpc (rq_tenant q))"
  obtain fr rq where v: "view_at UdpHeader i fr rq req" "drop (i + 8) fr = enc_commit_request q @ pay"
      "view_at UdpHeader j frr r res" "length frr = j + 8"
    using assms(1) by (auto simp: handed_def)
  obtain p where p: "parse_header CommitRequest req = Inr p" "view_at CommitRequest (i + 8) fr rq p"
      "get_header p = Inr (enc_commit_request q)" "get_payload p = Inr pay"
    using request_view [OF v(1,2), of CommitRequest] by auto
  obtain s where s: "push_response CommitResponse ?hdr res = Inr s"
      "view_at CommitResponse (j + 8) (frr @ ?hdr) (r - 14) s"
    using push_response_view [OF v(3,4), of ?hdr CommitResponse] assms(2) by auto
  have "Master_commit ms req res =
      native_task (GenCommit p s (get_tenant ms (rq_tenant q)) (rq_tenant q) (cq_table_id q)
        (unat (cq_key_length q)) (unat (cq_value_length q)))"
    by (simp add: Master_commit_def p s(1) header_fields_commit Let_def)
  then show ?thesis using p s(2) by blast
qed

text \<open>The body of the commit generator: the decision, and what it leaves in the table and in the
  response.\<close>

lemma commit_tx_view:
  assumes "\<And>n. n \<le> grant n" and "table_wf t" and "records_shaped kl vl rs" and "rs \<noteq> []" and "0 < kl"
    and "tx_valid t (tx_of rs)" and "get_payload req = Inr (concat (map record_bytes rs))"
    and "view_at ty j fr r res" and "length (concat (map r_key (tx_reads (tx_of rs)))) \<le> r"
  shows "if reads_current t (tx_of rs)
    then \<exists>t'. commit_tx grant tsc req res tn tb kl vl t = Inr (t', res, StatusOk) \<and> table_wf t' \<and>
      contents t' = install_spec tn tb tsc (tx_writes (tx_of rs)) (contents t)
    else \<exists>res' r'. commit_tx grant tsc req res tn tb kl vl t = Inr (t, res', StatusTxAbort) \<and>
      view_at ty j (fr @ concat (map r_key (tx_reads (tx_of rs)))) r' res'"
proof -
  have kl: "\<forall>r \<in> set rs. length (r_key r) = kl" using assms(3) by (simp add: records_shaped_def)
  obtain x xs where rs: "rs = x # xs" using assms(4) by (cases rs) auto
  then have "length (record_bytes x) = 9 + kl + vl"
    using assms(3) by (simp add: length_record_bytes records_shaped_def)
  then have len: "\<not> length (concat (map record_bytes rs)) < 9 + kl + vl" by (simp add: rs)
  have tx: "commit_records kl (map record_bytes rs) TX_new = Inr (tx_of rs)"
    using commit_records_bytes [OF kl] by (simp add: TX_new_def)
  note run = commit_tx_def Let_def assms(7) len chunks_record_bytes [OF assms(3)] tx
  show ?thesis
  proof (cases "reads_current t (tx_of rs)")
    case True
    then show ?thesis
      using validate_commit [OF assms(1,2,6) True, of tn tb tsc] by (auto simp: run)
  next
    case False
    then have "validate grant tn tb tsc t (tx_of rs) = (t, TX_sort (tx_of rs), Inr ABORT)"
      using assms(6) by (intro validate_abort) (auto simp: tx_valid_def writable_def)
    then show ?thesis
      using abort_reads_view [OF assms(8) kl assms(5,9)] False by (auto simp: run)
  qed
qed

lemma put_table_same: "get_table tn i = Some t \<Longrightarrow> put_table i t tn = tn"
  by (simp add: get_table_def put_table_def fun_upd_idem)

text \<open>The end of the commit generator: the status is written and both packets are handed back.\<close>

lemma finish_commit_view:
  assumes "view_at CommitRequest (i + 8) fr rq req"
    and "view_at CommitResponse (j + 8)
      (frr @ enc_response (CommitResponse_new (rq_stamp q) SandstormCommitRpc (rq_tenant q)) @ pay) r res"
    and "length frr = j + 8"
  shows "\<exists>res' pk. modify_header (set_status status) res = Inr res' \<and> finish req res' = Inr pk \<and>
    view_at UdpHeader j (frr @ enc_response (commit_response_for q status) @ pay) r (snd pk)"
proof -
  let ?hdr = "enc_response (CommitResponse_new (rq_stamp q) SandstormCommitRpc (rq_tenant q))"
  have st: "set_status status ?hdr = enc_response (commit_response_for q status)"
    using set_status_enc [of status "CommitResponse_new (rq_stamp q) SandstormCommitRpc (rq_tenant q)" "[]"]
    by (simp add: commit_response_for_def)
  obtain res' where res': "modify_header (set_status status) res = Inr res'"
      "view_at CommitResponse (j + 8) (frr @ enc_response (commit_response_for q status) @ pay) r res'"
    using modify_pushed_view [OF assms(2) _ assms(3), of "set_status status"] st by auto
  obtain req3 res3 where pk: "finish req res' = Inr (req3, res3)"
      "view_at UdpHeader j (frr @ enc_response (commit_response_for q status) @ pay) r res3"
    using finish_view [OF assms(1) _ res'(2)] by auto
  then show ?thesis using res'(1) by auto
qed

lemma serve_commit:
  assumes "\<And>n. n \<le> grant n" and "handed i (enc_commit_request q) (concat (map record_bytes rs)) req j frr r res"
    and "records_shaped (unat (cq_key_length q)) (unat (cq_value_length q)) rs" and "rs \<noteq> []" and "0 < unat (cq_key_length q)"
    and "get_tenant ms (rq_tenant q) = Some a" and "tenants m a = Some tn"
    and "get_table tn (cq_table_id q) = Some t" and "table_wf t" and "tx_valid t (tx_of rs)"
    and "14 + length (concat (map r_key (tx_reads (tx_of rs)))) \<le> r"
  shows "\<exists>req' res' r' t'. serve grant (Master_commit ms req res) m =
      Inr ((req', res'), m\<lparr>ticks := ticks m + 1, tenants := (tenants m)(a \<mapsto> put_table (cq_table_id q) t' tn)\<rparr>) \<and>
    (if reads_current t (tx_of rs)
     then view_at UdpHeader j (frr @ enc_response (commit_response_for q StatusOk)) r' res' \<and> table_wf t' \<and>
       contents t' = install_spec (rq_tenant q) (cq_table_id q) (clock m (ticks m)) (tx_writes (tx_of rs)) (contents t)
     else view_at UdpHeader j (frr @ enc_response (commit_response_for q StatusTxAbort) @
         concat (map r_key (tx_reads (tx_of rs)))) r' res' \<and> t' = t)"
proof -
  let ?hdr = "enc_response (CommitResponse_new (rq_stamp q) SandstormCommitRpc (rq_tenant q))"
  let ?keys = "concat (map r_key (tx_reads (tx_of rs)))"
  have "14 \<le> r" using assms(11) by simp
  then obtain req1 res1 fr rq where task: "Master_commit ms req res =
        native_task (GenCommit req1 res1 (Some a) (rq_tenant q) (cq_table_id q)
          (unat (cq_key_length q)) (unat (cq_value_length q)))"
      and req1: "view_at CommitRequest (i + 8) fr rq req1" "get_payload req1 = Inr (concat (map record_bytes rs))"
      and res1: "view_at CommitResponse (j + 8) (frr @ ?hdr) (r - 14) res1"
    using Master_commit_view [OF assms(2), of ms] assms(6) by auto
  have len: "length frr = j + 8" using assms(2) by (simp add: handed_def)
  have keys: "length ?keys \<le> r - 14" using assms(11) by linarith
  obtain t' res2 status pay r' where tx: "commit_tx grant (clock m (ticks m)) req1 res1 (rq_tenant q) (cq_table_id q)
        (unat (cq_key_length q)) (unat (cq_value_length q)) t = Inr (t', res2, status)"
      and res2: "view_at CommitResponse (j + 8) (frr @ ?hdr @ pay) r' res2"
      and out: "if reads_current t (tx_of rs)
        then status = StatusOk \<and> pay = [] \<and> table_wf t' \<and> contents t' =
          install_spec (rq_tenant q) (cq_table_id q) (clock m (ticks m)) (tx_writes (tx_of rs)) (contents t)
        else status = StatusTxAbort \<and> pay = ?keys \<and> t' = t"
    using commit_tx_view [OF assms(1,9,3,4,5,10) req1(2) res1 keys, of "clock m (ticks m)" "rq_tenant q" "cq_table_id q"] res1
    by (cases "reads_current t (tx_of rs)") (fastforce, fastforce)
  obtain res3 pk where pk: "modify_header (set_status status) res2 = Inr res3" "finish req1 res3 = Inr pk"
      "view_at UdpHeader j (frr @ enc_response (commit_response_for q status) @ pay) r' (snd pk)"
    using finish_commit_view [OF req1(1) res2 len] by blast
  have "run_commit grant req1 res1 (Some a) (rq_tenant q) (cq_table_id q) (unat (cq_key_length q)) (unat (cq_value_length q)) m =
      Inr (pk, m\<lparr>ticks := ticks m + 1, tenants := (tenants m)(a \<mapsto> put_table (cq_table_id q) t' tn)\<rparr>)"
    using assms(7,8) by (simp add: run_commit_def deref_def rdtsc_def tx pk(1,2))
  then have "serve grant (Master_commit ms req res) m =
      Inr (pk, m\<lparr>ticks := ticks m + 1, tenants := (tenants m)(a \<mapsto> put_table (cq_table_id q) t' tn)\<rparr>)"
    unfolding task by (intro serve_native_task) simp
  then show ?thesis using pk(3) out by (cases pk) (fastforce split: if_splits)
qed


section \<open>Multiget\<close>

text \<open>The records of the keys up to the first one that is not stored.\<close>

definition found_keys :: "table \<Rightarrow> byte_string list \<Rightarrow> byte_string list" where
  "found_keys t = takeWhile (\<lambda>k. contents t k \<noteq> None)"

definition key_record :: "table \<Rightarrow> byte_string \<Rightarrow> byte_string" where
  "key_record t k =
     (case contents t k of
        Some e \<Rightarrow> record_bytes (Record_new SandstormRead (e_version e) k (object_value e))
      | None \<Rightarrow> [])"

definition multiget_body :: "table \<Rightarrow> byte_string list \<Rightarrow> byte_string" where
  "multiget_body t ks = concat (map (key_record t) (found_keys t ks))"

lemma found_all: "length (found_keys t ks) = length ks \<longleftrightarrow> (\<forall>k \<in> set ks. contents t k \<noteq> None)"
proof (induction ks)
  case (Cons k ks)
  then show ?case by (cases "contents t k") (auto simp: found_keys_def)
qed (simp add: found_keys_def)

lemma unat_u16_u32: "unat (ucast (n :: u16) :: u32) = unat n"
  using unat_u16_lt [of n] by (simp add: unsigned_ucast_eq take_bit_nat_eq_self)

lemma multiget_record_view:
  assumes "view_at ty j fr r res" and "contents t k = Some e" and "objects_ok t" and "object_value e \<noteq> []"
    and "k \<noteq> []" and "length (key_record t k) \<le> r"
  shows "\<exists>res'. multiget_record e res = Inr (res', True) \<and>
    view_at ty j (fr @ key_record t k) (r - length (key_record t k)) res'"
proof -
  obtain v where v: "Allocator_resolve (e_value e) = Inr (Some (k, v))" using objects_okD [OF assms(3,2)] by blast
  then have ov: "object_value e = v" by (simp add: object_value_def)
  have kr: "key_record t k = record_bytes (Record_new SandstormRead (e_version e) k v)"
    by (simp add: key_record_def assms(2) ov)
  obtain p1 p2 p3 p4 where p: "add_ok [1] res = Inr (p1, True)" "add_ok (enc_u64 (e_version e)) p1 = Inr (p2, True)"
      "add_ok k p2 = Inr (p3, True)" "add_ok v p3 = Inr (p4, True)"
      "view_at ty j (fr @ key_record t k) (r - length (key_record t k)) p4"
    using add_record_view [OF assms(1,5), of v "e_version e"] assms(4,6) ov kr by auto
  have "multiget_record e res = Inr (p4, True)" by (simp add: multiget_record_def v p(1-4))
  then show ?thesis using p(5) by blast
qed

lemma multiget_loop_view:
  assumes "view_at ty j fr r res" and "unat n + length ks = unat num_keys"
    and "\<forall>k \<in> set ks. length k = unat key_length" and "key_length \<noteq> 0"
    and "objects_ok t" and "\<forall>k e. contents t k = Some e \<longrightarrow> object_value e \<noteq> []"
    and "length (multiget_body t ks) \<le> r"
  shows "\<exists>res' r'. multiget_loop multiget_record t key_length num_keys n n ks res =
      Inr (res', n + word_of_nat (length (found_keys t ks))) \<and>
    view_at ty j (fr @ multiget_body t ks) r' res'"
  using assms
proof (induction ks arbitrary: n fr r res)
  case Nil
  then show ?case by (auto simp: found_keys_def multiget_body_def)
next
  case (Cons k ks)
  have n: "unat (n + 1) = unat n + 1"
    using Cons.prems(2) unsigned_less [of num_keys, where 'a = nat] by (simp add: unat_word_ariths)
  then have lt: "\<not> num_keys < n + 1" using Cons.prems(2) by (simp add: word_less_nat_alt)
  have k: "k \<noteq> []" "length k = unat key_length" using Cons.prems(3,4) by (auto simp: unat_eq_0)
  show ?case
  proof (cases "contents t k")
    case None
    then show ?thesis
      using Cons.prems(1) lt k by (auto simp: found_keys_def multiget_body_def table_simps Let_def)
  next
    case (Some e)
    have body: "multiget_body t (k # ks) = key_record t k @ multiget_body t ks"
      "found_keys t (k # ks) = k # found_keys t ks"
      using Some by (simp_all add: multiget_body_def found_keys_def)
    then have fits: "length (key_record t k) \<le> r" "length (multiget_body t ks) \<le> r - length (key_record t k)"
      using Cons.prems(7) by auto
    obtain p where p: "multiget_record e res = Inr (p, True)"
        "view_at ty j (fr @ key_record t k) (r - length (key_record t k)) p"
      using multiget_record_view [OF Cons.prems(1) Some Cons.prems(5) Cons.prems(6) [rule_format, OF Some] k(1) fits(1)] by blast
    have n2: "unat (n + 1) + length ks = unat num_keys" "\<forall>k \<in> set ks. length k = unat key_length"
      using n Cons.prems(2,3) by simp_all
    obtain res' r' where "multiget_loop multiget_record t key_length num_keys (n + 1) (n + 1) ks p =
          Inr (res', n + 1 + word_of_nat (length (found_keys t ks)))"
        "view_at ty j ((fr @ key_record t k) @ multiget_body t ks) r' res'"
      using Cons.IH [OF p(2) n2 Cons.prems(4,5,6) fits(2)] by blast
    then show ?thesis
      using lt k p(1) Some by (auto simp: body table_simps Let_def algebra_simps)
  qed
qed

lemma header_fields_multiget:
  "hdr_tenant (enc_multiget_request q) = rq_tenant q" "hdr_stamp (enc_multiget_request q) = rq_stamp q"
  "hdr_u64 14 (enc_multiget_request q) = mq_table_id q" "hdr_u16 22 (enc_multiget_request q) = mq_key_len q"
  "hdr_u32 24 (enc_multiget_request q) = mq_num_keys q"
  by (simp_all add: hdr_tenant_def hdr_stamp_def hdr_u64_def hdr_u16_def hdr_u32_def enc_multiget_request_def enc_request_def)

lemma Master_multiget_view:
  assumes "handed i (enc_multiget_request q) pay req j frr r res" and "18 \<le> r"
    and "unat ((ucast (mq_key_len q) :: u32) * mq_num_keys q) \<le> length pay"
  shows "\<exists>req' res' fr rq. Master_multiget ms req res =
      native_task (GenMultiget req' res' (get_tenant ms (rq_tenant q)) (mq_table_id q) (mq_key_len q) (mq_num_keys q)) \<and>
    view_at MultiGetRequest (i + 8) fr rq req' \<and> get_payload req' = Inr pay \<and>
    view_at MultiGetResponse (j + 8)
      (frr @ enc_multiget_response (MultiGetResponse_new (rq_stamp q) SandstormMultiGetRpc (rq_tenant q) 0)) (r - 18) res'"
proof -
  let ?hdr = "enc_multiget_response (MultiGetResponse_new (rq_stamp q) SandstormMultiGetRpc (rq_tenant q) 0)"
  obtain fr rq where v: "view_at UdpHeader i fr rq req" "drop (i + 8) fr = enc_multiget_request q @ pay"
      "view_at UdpHeader j frr r res" "length frr = j + 8"
    using assms(1) by (auto simp: handed_def)
  obtain p where p: "parse_header MultiGetRequest req = Inr p" "view_at MultiGetRequest (i + 8) fr rq p"
      "get_header p = Inr (enc_multiget_request q)" "get_payload p = Inr pay"
    using request_view [OF v(1,2), of MultiGetRequest] by auto
  obtain s where s: "push_response MultiGetResponse ?hdr res = Inr s"
      "view_at MultiGetResponse (j + 8) (frr @ ?hdr) (r - 18) s"
    using push_response_view [OF v(3,4), of ?hdr MultiGetResponse] assms(2) by auto
  have "Master_multiget ms req res =
      native_task (GenMultiget p s (get_tenant ms (rq_tenant q)) (mq_table_id q) (mq_key_len q) (mq_num_keys q))"
    using assms(3) by (simp add: Master_multiget_def p s(1) header_fields_multiget Let_def)
  then show ?thesis using p s(2) by blast
qed

definition multiget_response_for :: "multiget_request \<Rightarrow> rpc_status \<Rightarrow> u32 \<Rightarrow> multiget_response" where
  "multiget_response_for q status n =
     (MultiGetResponse_new (rq_stamp q) SandstormMultiGetRpc (rq_tenant q) n)\<lparr>rs_status := status\<rparr>"

lemma set_status_enc_multiget:
  "set_status st (enc_multiget_response h) = enc_multiget_response (h\<lparr>rs_status := st\<rparr>)"
  by (simp add: enc_multiget_response_def set_status_def enc_response_def)

lemma set_num_records: "set_u32 14 n (enc_multiget_response h) = enc_multiget_response (h\<lparr>mr_num_records := n\<rparr>)"
  by (simp add: set_u32_def enc_multiget_response_def write_at_def enc_response_def)

lemma write_multiget_outcome_view:
  assumes "view_at MultiGetResponse j
      (fr @ enc_multiget_response (MultiGetResponse_new (rq_stamp q) SandstormMultiGetRpc (rq_tenant q) 0) @ body) r res"
    and "length fr = j"
  shows "\<exists>res'. write_multiget_outcome (res, status, n) = Inr res' \<and>
    view_at MultiGetResponse j
      (fr @ enc_multiget_response (multiget_response_for q status (if status = StatusOk then n else 0)) @ body) r res'"
proof -
  let ?h = "MultiGetResponse_new (rq_stamp q) SandstormMultiGetRpc (rq_tenant q) 0"
  have st: "set_status status (enc_multiget_response ?h) = enc_multiget_response (multiget_response_for q status 0)"
    by (simp add: set_status_enc_multiget multiget_response_for_def)
  have nr: "set_u32 14 n (enc_multiget_response (multiget_response_for q status 0)) =
      enc_multiget_response (multiget_response_for q status n)"
    by (simp add: set_num_records multiget_response_for_def MultiGetResponse_new_def RpcResponseHeader_new_def)
  obtain p where p: "modify_header (set_status status) res = Inr p"
      "view_at MultiGetResponse j (fr @ enc_multiget_response (multiget_response_for q status 0) @ body) r p"
    using modify_pushed_view [OF assms(1) _ assms(2), of "set_status status"] st by auto
  obtain p' where "modify_header (set_u32 14 n) p = Inr p'"
      "view_at MultiGetResponse j (fr @ enc_multiget_response (multiget_response_for q status n) @ body) r p'"
    using modify_pushed_view [OF p(2) _ assms(2), of "set_u32 14 n"] nr by auto
  then show ?thesis using p by (auto simp: write_multiget_outcome_def)
qed

lemma serve_multiget:
  assumes "handed i (enc_multiget_request q) (concat ks) req j frr r res"
    and "\<forall>k \<in> set ks. length k = unat (mq_key_len q)" and "mq_key_len q \<noteq> 0"
    and "length ks = unat (mq_num_keys q)"
    and "get_tenant ms (rq_tenant q) = Some a" and "tenants m a = Some tn"
    and "get_table tn (mq_table_id q) = Some t" and "objects_ok t"
    and "\<forall>k e. contents t k = Some e \<longrightarrow> object_value e \<noteq> []"
    and "18 + length (multiget_body t ks) \<le> r"
    and "status = (if \<forall>k \<in> set ks. contents t k \<noteq> None then StatusOk else StatusObjectDoesNotExist)"
  shows "\<exists>req' res' r'. serve grant (Master_multiget ms req res) m = Inr ((req', res'), m) \<and>
    view_at UdpHeader j (frr @ enc_multiget_response
      (multiget_response_for q status (if status = StatusOk then mq_num_keys q else 0)) @ multiget_body t ks) r' res'"
proof -
  let ?hdr = "enc_multiget_response (MultiGetResponse_new (rq_stamp q) SandstormMultiGetRpc (rq_tenant q) 0)"
  have len: "length frr = j + 8" using assms(1) by (simp add: handed_def)
  have pay: "length (concat ks) = unat (mq_key_len q) * length ks"
    using assms(2) by (induction ks) simp_all
  moreover have "unat ((ucast (mq_key_len q) :: u32) * mq_num_keys q) \<le> unat (mq_key_len q) * unat (mq_num_keys q)"
    by (simp add: unat_word_ariths unat_u16_u32)
  ultimately have fits: "unat ((ucast (mq_key_len q) :: u32) * mq_num_keys q) \<le> length (concat ks)"
    using assms(4) by simp
  have "18 \<le> r" and body: "length (multiget_body t ks) \<le> r - 18" using assms(10) by simp_all
  then obtain req1 res1 fr rq where task: "Master_multiget ms req res =
        native_task (GenMultiget req1 res1 (Some a) (mq_table_id q) (mq_key_len q) (mq_num_keys q))"
      and req1: "view_at MultiGetRequest (i + 8) fr rq req1" "get_payload req1 = Inr (concat ks)"
      and res1: "view_at MultiGetResponse (j + 8) (frr @ ?hdr) (r - 18) res1"
    using Master_multiget_view [OF assms(1) _ fits, of ms] assms(5) by auto
  have "0 < unat (mq_key_len q)" using assms(3) by (simp add: unat_gt_0)
  then have chs: "chunks (concat ks) (unat (mq_key_len q)) = Inr ks"
    using assms(2) by (auto simp: chunks_def intro!: chunks_of_concat)
  obtain res2 r2 where res2: "multiget_loop multiget_record t (mq_key_len q) (mq_num_keys q) 0 0 ks res1 =
        Inr (res2, word_of_nat (length (found_keys t ks)))"
      "view_at MultiGetResponse (j + 8) ((frr @ ?hdr) @ multiget_body t ks) r2 res2"
    using multiget_loop_view [OF res1 _ assms(2,3,8,9) body, of 0 "mq_num_keys q"] assms(4) by auto
  have "length (found_keys t ks) \<le> length ks" by (simp add: found_keys_def length_takeWhile_le)
  then have "(word_of_nat (length (found_keys t ks)) = mq_num_keys q) = (length (found_keys t ks) = length ks)"
    using assms(4) unsigned_less [of "mq_num_keys q", where 'a = nat] by (auto simp: word_unat_eq_iff unat_of_nat)
  also have "\<dots> = (\<forall>k \<in> set ks. contents t k \<noteq> None)"
    by (rule found_all)
  finally have full: "(word_of_nat (length (found_keys t ks)) = mq_num_keys q) = (\<forall>k \<in> set ks. contents t k \<noteq> None)" .
  have look: "multiget_lookup multiget_record req1 res1 (Some tn) (mq_table_id q) (mq_key_len q) (mq_num_keys q) =
      Inr (res2, status, word_of_nat (length (found_keys t ks)))"
    using assms(7,11) full by (simp add: multiget_lookup_def req1(2) chs res2(1))
  obtain res3 where res3: "write_multiget_outcome (res2, status, word_of_nat (length (found_keys t ks))) = Inr res3"
      "view_at MultiGetResponse (j + 8) (frr @ enc_multiget_response (multiget_response_for q status
        (if status = StatusOk then word_of_nat (length (found_keys t ks)) else 0)) @ multiget_body t ks) r2 res3"
    using write_multiget_outcome_view [of "j + 8" frr q "multiget_body t ks" r2 res2] res2(2) len by auto
  obtain req4 res4 where pk: "finish req1 res3 = Inr (req4, res4)"
      "view_at UdpHeader j (frr @ enc_multiget_response (multiget_response_for q status
        (if status = StatusOk then word_of_nat (length (found_keys t ks)) else 0)) @ multiget_body t ks) r2 res4"
    using finish_view [OF req1(1) _ res3(2)] by auto
  have "run_multiget req1 res1 (Some a) (mq_table_id q) (mq_key_len q) (mq_num_keys q) m = Inr ((req4, res4), m)"
    using assms(6) by (simp add: run_multiget_def deref_opt_def deref_def look res3(1) pk(1))
  then have "serve grant (Master_multiget ms req res) m = Inr ((req4, res4), m)"
    unfolding task by (intro serve_native_task) simp
  moreover have "status = StatusOk \<Longrightarrow> word_of_nat (length (found_keys t ks)) = mq_num_keys q"
    using full assms(11) by (auto split: if_splits)
  then have "view_at UdpHeader j (frr @ enc_multiget_response
      (multiget_response_for q status (if status = StatusOk then mq_num_keys q else 0)) @ multiget_body t ks) r2 res4"
    using pk(2) by (cases "status = StatusOk") simp_all
  ultimately show ?thesis by blast
qed

section \<open>Requests that panic\<close>

lemma commit_records_short:
  assumes "\<forall>r \<in> set rs. length (r_key r) = kl" and "length tail < 9 + kl"
  shows "commit_records kl (map record_bytes rs @ [tail]) x = Inl SliceOutOfRange"
  using assms
proof (induction rs arbitrary: x)
  case Nil
  then show ?case by (auto simp: parse_record_def split_at_def)
next
  case (Cons r rs)
  then show ?case by (auto simp: parse_record_bytes)
qed

lemma chunks_of_concat_tail:
  assumes "\<forall>c \<in> set cs. length c = n" and "tail \<noteq> []" and "length tail \<le> n"
  shows "chunks_of n (concat cs @ tail) = cs @ [tail]"
proof -
  have n: "0 < n" using assms(2,3) by (cases tail) auto
  show ?thesis using assms(1)
  proof (induction cs)
    case Nil
    then show ?case using assms(2,3) n by (subst chunks_of.simps) auto
  next
    case (Cons c cs)
    then show ?case using n by (simp add: chunks_of_exact)
  qed
qed

section \<open>Properties\<close>

text \<open>C5: a get request served on well-formed packets answers what the tables say: the status, and
  for a stored object the record with its version, key and value; \<open>value_length\<close> is the length of that
  record and nothing in the tables changes.\<close>

theorem get_rpc_correct:
  assumes "handed i (enc_get_request q) (key @ rest) req j frr r res"
    and "length key = unat (gq_key_length q)" and "key \<noteq> []" and "tenants_live ms m"
    and "\<And>x. tenant_of ms m (rq_tenant q) = Some x \<Longrightarrow> tenant_ok x \<and> values_nonempty x"
    and "get_spec (tenant_of ms m (rq_tenant q)) (gq_table_id q) key = (status, body)"
    and "18 + length body \<le> r"
  shows "\<exists>req' res'. serve grant (Master_get ms req res) m = Inr ((req', res'), m) \<and>
    get_payload res' = Inr (enc_get_response (get_response_for q status body) @ body)"
  using serve_get [OF assms] handed_payload [OF assms(1)] by blast

text \<open>C6: a put request followed by a get request of the same key: the put is acknowledged, and the
  get returns the value put, under a version one above the one it replaced.\<close>

theorem put_then_get:
  assumes "\<And>n. n \<le> grant n" and "handed i (enc_put_request q) (key @ val) req j frr r res"
    and "handed i2 (enc_get_request g) (key @ rest) req2 j2 frr2 r2 res2"
    and "rq_tenant g = rq_tenant q" and "gq_table_id g = pq_table_id q"
    and "length key = unat (pq_key_length q)" and "length key = unat (gq_key_length g)"
    and "key \<noteq> []" and "val \<noteq> []" and "length val < 2 ^ 63" and "14 \<le> r" and "27 + length key + length val \<le> r2"
    and "tenants_live ms m" and "get_tenant ms (rq_tenant q) = Some a" and "tenants m a = Some tn"
    and "get_table tn (pq_table_id q) = Some t" and "tenant_ok tn" and "values_nonempty tn"
    and "ver = (case contents t key of Some e \<Rightarrow> e_version e | None \<Rightarrow> max_deleted_version t) + 1"
    and "body = record_bytes (Record_new SandstormRead ver key val)"
  shows "\<exists>req' res' m' req2' res2'. serve grant (Master_put ms req res) m = Inr ((req', res'), m') \<and>
    get_payload res' = Inr (enc_response (put_response_for q StatusOk)) \<and>
    serve grant (Master_get ms req2 res2) m' = Inr ((req2', res2'), m') \<and>
    get_payload res2' = Inr (enc_get_response (get_response_for g StatusOk body) @ body)"
proof -
  have t: "table_wf t" "objects_ok t" using assms(16,17) by (auto simp: tenant_ok_def)
  let ?e = "\<lparr>e_version = ver, e_value = obj_meta (rq_tenant q) (pq_table_id q) (word_of_nat (length key)) @ key @ val\<rparr>"
  obtain req' res' t' where put: "serve grant (Master_put ms req res) m =
        Inr ((req', res'), m\<lparr>tenants := (tenants m)(a \<mapsto> put_table (pq_table_id q) t' tn)\<rparr>)"
      "get_payload res' = Inr (enc_response (put_response_for q StatusOk))" "table_wf t'" "objects_ok t'"
      "contents t' = (contents t)(key \<mapsto> ?e)"
    using serve_put [OF assms(1,2,6,8,9,10,11,14,15,16) t] handed_payload [OF assms(2)] assms(19) by blast
  let ?m = "m\<lparr>tenants := (tenants m)(a \<mapsto> put_table (pq_table_id q) t' tn)\<rparr>"
  have key: "length key < 65536" using assms(6) unat_u16_lt [of "pq_key_length q"] by simp
  then have ov: "object_value ?e = val" using resolve_object [of key] by (simp add: object_value_def)
  have tn: "tenant_of ms ?m (rq_tenant g) = Some (put_table (pq_table_id q) t' tn)"
    using assms(4,14) by (simp add: tenant_of_def)
  have ok: "tenant_ok (put_table (pq_table_id q) t' tn)" "values_nonempty (put_table (pq_table_id q) t' tn)"
    using assms(9,16,17,18) put(3-5) ov by (auto simp: tenant_ok_def values_nonempty_def)
  have spec: "get_spec (tenant_of ms ?m (rq_tenant g)) (gq_table_id g) key = (StatusOk, body)"
    using assms(5,20) put(5) ov by (simp add: get_spec_def tn)
  have "\<exists>req2' res2' r'. serve grant (Master_get ms req2 res2) ?m = Inr ((req2', res2'), ?m) \<and>
      view_at UdpHeader j2 (frr2 @ enc_get_response (get_response_for g StatusOk body) @ body) r' res2'"
  proof (rule serve_get [OF assms(3,7,8) _ _ spec])
    show "tenants_live ms ?m" using assms(13) by (simp add: tenants_live_def)
    show "tenant_ok x \<and> values_nonempty x" if "tenant_of ms ?m (rq_tenant g) = Some x" for x
      using that ok by (simp add: tn)
    show "18 + length body \<le> r2" using assms(12,20) by (simp add: length_record_bytes Record_new_def)
  qed
  then show ?thesis using put(1,2) handed_payload [OF assms(3)] by blast
qed

text \<open>C18: a multiget request answers the records of its keys in order, up to the first key that is
  not stored: all of them with \<open>StatusOk\<close> and their number, or those in front of the missing one with
  \<open>StatusObjectDoesNotExist\<close> and a count of zero.\<close>

theorem multiget_rpc_correct:
  assumes "handed i (enc_multiget_request q) (concat ks) req j frr r res"
    and "\<forall>k \<in> set ks. length k = unat (mq_key_len q)" and "mq_key_len q \<noteq> 0"
    and "length ks = unat (mq_num_keys q)"
    and "get_tenant ms (rq_tenant q) = Some a" and "tenants m a = Some tn"
    and "get_table tn (mq_table_id q) = Some t" and "objects_ok t"
    and "\<forall>k e. contents t k = Some e \<longrightarrow> object_value e \<noteq> []"
    and "18 + length (multiget_body t ks) \<le> r"
    and "status = (if \<forall>k \<in> set ks. contents t k \<noteq> None then StatusOk else StatusObjectDoesNotExist)"
  shows "\<exists>req' res'. serve grant (Master_multiget ms req res) m = Inr ((req', res'), m) \<and>
    get_payload res' = Inr (enc_multiget_response
      (multiget_response_for q status (if status = StatusOk then mq_num_keys q else 0)) @ multiget_body t ks)"
  using serve_multiget [OF assms] handed_payload [OF assms(1)] by blast



text \<open>A commit request whose payload does not end at a record boundary panics the server when the rest
  is too short for a version and a key, for every table and every transaction in front of it.\<close>

lemma commit_short_record_panics:
  assumes "handed i (enc_commit_request q) (concat (map record_bytes rs) @ tail) req j frr r res" and "14 \<le> r"
    and "records_shaped (unat (cq_key_length q)) (unat (cq_value_length q)) rs" and "rs \<noteq> []"
    and "tail \<noteq> []" and "length tail < 9 + unat (cq_key_length q)"
    and "get_tenant ms (rq_tenant q) = Some a" and "tenants m a = Some tn" and "get_table tn (cq_table_id q) = Some t"
  shows "serve grant (Master_commit ms req res) m = Inl SliceOutOfRange"
proof -
  let ?kl = "unat (cq_key_length q)" and ?vl = "unat (cq_value_length q)"
  obtain req1 res1 where task: "Master_commit ms req res =
        native_task (GenCommit req1 res1 (Some a) (rq_tenant q) (cq_table_id q) ?kl ?vl)"
      and req1: "get_payload req1 = Inr (concat (map record_bytes rs) @ tail)"
    using Master_commit_view [OF assms(1,2), of ms] assms(7) by auto
  have kl: "\<forall>r \<in> set rs. length (r_key r) = ?kl" using assms(3) by (simp add: records_shaped_def)
  have chs: "chunks (concat (map record_bytes rs) @ tail) (9 + ?kl + ?vl) = Inr (map record_bytes rs @ [tail])"
    unfolding chunks_def
    using assms(3,5,6) by (subst chunks_of_concat_tail) (auto simp: records_shaped_def length_record_bytes)
  obtain x xs where rs: "rs = x # xs" using assms(4) by (cases rs) auto
  have len: "\<not> length (concat (map record_bytes rs) @ tail) < 9 + ?kl + ?vl"
    using assms(3) by (simp add: rs length_record_bytes records_shaped_def)
  have "commit_tx grant tsc req1 res1 (rq_tenant q) (cq_table_id q) ?kl ?vl t = Inl SliceOutOfRange" for tsc
    using len by (simp add: commit_tx_def Let_def req1 chs commit_records_short [OF kl assms(6)])
  then have "run_commit grant req1 res1 (Some a) (rq_tenant q) (cq_table_id q) ?kl ?vl m = Inl SliceOutOfRange"
    using assms(8,9) by (simp add: run_commit_def deref_def rdtsc_def)
  then show ?thesis unfolding task by (intro serve_native_panic) simp
qed

text \<open>A get or multiget request that states a key length of zero for an existing table panics the server.\<close>

lemma zero_key_length_panics:
  assumes "handed i (enc_get_request q) pay req j frr r res" and "gq_key_length q = 0" and "18 \<le> r"
    and "handed i2 (enc_multiget_request g) pay2 req2 j2 frr2 r2 res2" and "mq_key_len g = 0" and "18 \<le> r2"
    and "get_tenant ms (rq_tenant q) = Some a" and "rq_tenant g = rq_tenant q" and "tenants m a = Some tn"
    and "get_table tn (gq_table_id q) = Some t" and "mq_table_id g = gq_table_id q"
  shows "serve grant (Master_get ms req res) m = Inl IndexOutOfBounds \<and>
    serve grant (Master_multiget ms req2 res2) m = Inl ChunkSizeZero"
proof -
  have get: "handed i (enc_get_request q) ([] @ pay) req j frr r res" using assms(1) by simp
  obtain req' res' where task: "Master_get ms req res =
        native_task (GenGet req' res' (Some a) (gq_table_id q) 0)" "get_payload req' = Inr pay"
    using Master_get_view [OF get assms(3), of ms] assms(2,7) by auto
  have "get_lookup req' res' (Some tn) (gq_table_id q) 0 = Inl IndexOutOfBounds"
    using assms(10) by (simp add: get_lookup_def task(2) table_simps)
  then have "run_get req' res' (Some a) (gq_table_id q) 0 m = Inl IndexOutOfBounds"
    using assms(9) by (simp add: run_get_def deref_opt_def deref_def)
  then have "serve grant (Master_get ms req res) m = Inl IndexOutOfBounds"
    unfolding task(1) by (intro serve_native_panic) simp
  moreover obtain req3 res3 where task2: "Master_multiget ms req2 res2 =
        native_task (GenMultiget req3 res3 (Some a) (gq_table_id q) 0 (mq_num_keys g))" "get_payload req3 = Inr pay2"
    using Master_multiget_view [OF assms(4,6), of ms] assms(5,7,8,11) by auto
  have "multiget_lookup multiget_record req3 res3 (Some tn) (gq_table_id q) 0 (mq_num_keys g) = Inl ChunkSizeZero"
    using assms(10) by (simp add: multiget_lookup_def task2(2) chunks_def)
  then have "run_multiget req3 res3 (Some a) (gq_table_id q) 0 (mq_num_keys g) m = Inl ChunkSizeZero"
    using assms(9) by (simp add: run_multiget_def deref_opt_def deref_def)
  then have "serve grant (Master_multiget ms req2 res2) m = Inl ChunkSizeZero"
    unfolding task2(1) by (intro serve_native_panic) simp
  ultimately show ?thesis by blast
qed


section \<open>Witnesses\<close>

text \<open>A master with the tenant 7, whose table 1 holds one object, and packets that start at their
  UDP header.\<close>

definition wit_master :: "unit master" where
  "wit_master = Master_new\<lparr>ms_tenants := bucket_insert TENANT_BUCKETS 7 7 0 (replicate TENANT_BUCKETS Map.empty), ms_next := 1\<rparr>"

definition wit_memory :: machine where
  "wit_memory = wit_machine\<lparr>tenants := [0 \<mapsto> wit_tenant]\<rparr>"

definition wit_udp :: "byte_string \<Rightarrow> packet" where
  "wit_udp bs = demo_packet UdpHeader (enc_udp UdpHeader_new @ bs)"

lemma wit_get_tenant: "get_tenant wit_master i = (if i = 7 then Some 0 else None)"
proof -
  have "bucket_lookup 32 (replicate 32 Map.empty) i i = None"
    using tenant_bucket_lt [of i] by (simp add: bucket_lookup_def)
  then show ?thesis
    using bucket_lookup_insert [of "replicate 32 Map.empty" 7 "\<lambda>i. i" 7 i i 0]
    by (auto simp: get_tenant_def wit_master_def TENANT_BUCKETS_def)
qed

lemma wit_memory_tenant: "tenants wit_memory = [0 \<mapsto> wit_tenant]"
  by (simp add: wit_memory_def)

lemma wit_live: "tenants_live wit_master wit_memory"
  by (simp add: tenants_live_def wit_get_tenant wit_memory_tenant)

lemma wit_udp_view: "length bs \<le> 1016 \<Longrightarrow> view_at UdpHeader 0 (enc_udp UdpHeader_new @ bs) (1016 - length bs) (wit_udp bs)"
  using demo_packet_view [of "enc_udp UdpHeader_new @ bs" UdpHeader] by (simp add: wit_udp_def)

lemma wit_handed:
  assumes "length (hdr @ pay) \<le> 1016"
  shows "handed 0 hdr pay (wit_udp (hdr @ pay)) 0 (enc_udp UdpHeader_new) 1016 (wit_udp [])"
  using wit_udp_view [OF assms] wit_udp_view [of "[]"] by (auto simp: handed_def)

lemma wit_object_value: "object_value \<lparr>e_version = v, e_value = wit_object x\<rparr> = [x]"
  by (simp add: object_value_def wit_resolve)

lemma wit_tables:
  "get_table wit_tenant i = Some t \<Longrightarrow> (table_wf t \<and> objects_ok t) \<and> (contents t k = Some e \<longrightarrow> object_value e \<noteq> [])"
  by (auto simp: wit_tenant_def table_wf_default store_wf objects_ok_def wit_contents wit_resolve wit_object_value
      split: if_splits)
     (simp_all add: get_table_def Tenant_new_def)

lemma wit_tenant_ok: "tenant_ok wit_tenant" "values_nonempty wit_tenant"
  using wit_tables by (auto simp: tenant_ok_def values_nonempty_def)

lemma wit_tenant_of: "tenant_of wit_master wit_memory 7 = Some wit_tenant"
  by (simp add: tenant_of_def wit_get_tenant wit_memory_tenant)

theorem get_rpc_correct_witness:
  "\<exists>req' res'. serve (\<lambda>n. n) (Master_get wit_master
      (wit_udp (enc_get_request (GetRequest_new 7 1 1 42 SandstormClient) @ [1])) (wit_udp [])) wit_memory =
      Inr ((req', res'), wit_memory) \<and>
    get_payload res' = Inr (enc_get_response (get_response_for (GetRequest_new 7 1 1 42 SandstormClient) StatusOk
      (record_bytes (Record_new SandstormRead 1 [1] [9]))) @ record_bytes (Record_new SandstormRead 1 [1] [9]))"
proof (rule get_rpc_correct [where key = "[1]" and rest = "[]"])
  let ?q = "GetRequest_new 7 1 1 42 SandstormClient"
  show "handed 0 (enc_get_request ?q) ([1] @ []) (wit_udp (enc_get_request ?q @ [1])) 0 (enc_udp UdpHeader_new) 1016 (wit_udp [])"
    using wit_handed [of "enc_get_request ?q" "[1]"] by simp
  show "get_spec (tenant_of wit_master wit_memory (rq_tenant ?q)) (gq_table_id ?q) [1] =
      (StatusOk, record_bytes (Record_new SandstormRead 1 [1] [9]))"
    by (simp add: get_spec_def GetRequest_new_def wit_tenant_of wit_tenant_table wit_contents wit_object_value)
  show "tenant_ok x \<and> values_nonempty x" if "tenant_of wit_master wit_memory (rq_tenant ?q) = Some x" for x
    using that wit_tenant_ok by (simp add: GetRequest_new_def wit_tenant_of)
qed (simp_all add: wit_live GetRequest_new_def length_record_bytes Record_new_def)


theorem put_then_get_witness:
  "\<exists>req' res' m' req2' res2'. serve (\<lambda>n. n) (Master_put wit_master
      (wit_udp (enc_put_request (PutRequest_new 7 1 1 42) @ [1] @ [5])) (wit_udp [])) wit_memory = Inr ((req', res'), m') \<and>
    get_payload res' = Inr (enc_response (put_response_for (PutRequest_new 7 1 1 42) StatusOk)) \<and>
    serve (\<lambda>n. n) (Master_get wit_master
      (wit_udp (enc_get_request (GetRequest_new 7 1 1 43 SandstormClient) @ [1])) (wit_udp [])) m' = Inr ((req2', res2'), m') \<and>
    get_payload res2' = Inr (enc_get_response (get_response_for (GetRequest_new 7 1 1 43 SandstormClient) StatusOk
      (record_bytes (Record_new SandstormRead 2 [1] [5]))) @ record_bytes (Record_new SandstormRead 2 [1] [5]))"
proof (rule put_then_get [where key = "[1]" and rest = "[]" and val = "[5]"])
  let ?q = "PutRequest_new 7 1 1 42" and ?g = "GetRequest_new 7 1 1 43 SandstormClient"
  show "handed 0 (enc_put_request ?q) ([1] @ [5]) (wit_udp (enc_put_request ?q @ [1] @ [5])) 0 (enc_udp UdpHeader_new) 1016 (wit_udp [])"
    using wit_handed [of "enc_put_request ?q" "[1] @ [5]"] by simp
  show "handed 0 (enc_get_request ?g) ([1] @ []) (wit_udp (enc_get_request ?g @ [1])) 0 (enc_udp UdpHeader_new) 1016 (wit_udp [])"
    using wit_handed [of "enc_get_request ?g" "[1]"] by simp
  show "get_tenant wit_master (rq_tenant ?q) = Some 0" by (simp add: wit_get_tenant PutRequest_new_def)
  show "get_table wit_tenant (pq_table_id ?q) = Some (store Table_default [1] (Some \<lparr>e_version = 1, e_value = wit_object 9\<rparr>))"
    by (simp add: wit_tenant_table PutRequest_new_def)
qed (simp_all add: wit_live wit_memory_tenant wit_contents wit_tenant_ok GetRequest_new_def PutRequest_new_def Record_new_def)

text \<open>A transaction that read the object and writes it.\<close>

definition wit_records :: "u64 \<Rightarrow> rec list" where
  "wit_records v = [Record_new SandstormRead v [1] [9], Record_new SandstormWrite 0 [1] [5]]"

lemma wit_records_tx:
  "tx_of (wit_records v) = \<lparr>tx_reads = [Record_new SandstormRead v [1] [9]], tx_writes = [Record_new SandstormWrite 0 [1] [5]]\<rparr>"
  by (simp add: tx_of_def wit_records_def Record_new_def)



theorem multiget_rpc_correct_witness:
  "\<exists>req' res'. serve (\<lambda>n. n) (Master_multiget wit_master
      (wit_udp (enc_multiget_request (MultiGetRequest_new 7 1 1 2 42) @ concat [[1], [2]])) (wit_udp [])) wit_memory =
      Inr ((req', res'), wit_memory) \<and>
    get_payload res' = Inr (enc_multiget_response (multiget_response_for (MultiGetRequest_new 7 1 1 2 42) StatusObjectDoesNotExist 0) @
      record_bytes (Record_new SandstormRead 1 [1] [9]))"
proof -
  let ?q = "MultiGetRequest_new 7 1 1 2 42"
  let ?t = "store Table_default [1] (Some \<lparr>e_version = 1, e_value = wit_object 9\<rparr>)"
  have h: "handed 0 (enc_multiget_request ?q) (concat [[1], [2]])
      (wit_udp (enc_multiget_request ?q @ concat [[1], [2]])) 0 (enc_udp UdpHeader_new) 1016 (wit_udp [])"
    by (rule wit_handed) simp
  have q: "rq_tenant ?q = 7" "mq_table_id ?q = 1" "mq_key_len ?q = 1" "mq_num_keys ?q = 2"
    by (simp_all add: MultiGetRequest_new_def)
  have body: "multiget_body ?t [[1], [2]] = record_bytes (Record_new SandstormRead 1 [1] [9])"
    by (simp add: multiget_body_def found_keys_def key_record_def wit_contents wit_object_value)
  have "\<exists>req' res'. serve (\<lambda>n. n) (Master_multiget wit_master
      (wit_udp (enc_multiget_request ?q @ concat [[1], [2]])) (wit_udp [])) wit_memory = Inr ((req', res'), wit_memory) \<and>
    get_payload res' = Inr (enc_multiget_response (multiget_response_for ?q StatusObjectDoesNotExist
      (if StatusObjectDoesNotExist = StatusOk then mq_num_keys ?q else 0)) @ multiget_body ?t [[1], [2]])"
    by (rule multiget_rpc_correct [OF h, where a = 0 and tn = wit_tenant])
       (simp_all add: q wit_get_tenant wit_memory_tenant wit_tenant_table wit_contents objects_ok_def wit_resolve
         wit_object_value body length_record_bytes, simp add: Record_new_def)
  then show ?thesis by (simp add: body)
qed

end
