(* ===== verification/Registry.thy ===== *)
theory Registry
  imports Requests
begin

text \<open>
  The tenants of a master and what a request can reach of them. The buckets of \<open>Arc<Tenant>\<close> are
  a map by tenant identifier (the same contract as the extensions'), \<open>master_wf\<close> is the invariant
  that ties them to the tenants in memory, and every request handled by a native task keeps it and
  changes at most the tables of the tenant its header names.
\<close>

section \<open>The tenants of a master\<close>

interpretation tens: tenant_map "\<lambda>ms. length ms = TENANT_BUCKETS" "bucket_lookup TENANT_BUCKETS"
  "bucket_insert TENANT_BUCKETS" "\<lambda>i :: u32. i"
proof unfold_locales
  fix m :: "(u32 \<rightharpoonup> 'v) list" and t t' k k' :: u32 and v :: 'v
  assume "length m = TENANT_BUCKETS" "t = k" "t' = k'"
  then show "bucket_lookup TENANT_BUCKETS (bucket_insert TENANT_BUCKETS t k v m) t' k' =
      (if k' = k then Some v else bucket_lookup TENANT_BUCKETS m t' k')"
    using bucket_lookup_insert [of m t "\<lambda>i. i" k t' k'] by (simp add: TENANT_BUCKETS_def)
next
  fix m :: "(u32 \<rightharpoonup> 'v) list" and t k :: u32 and v :: 'v
  assume "length m = TENANT_BUCKETS"
  then show "length (bucket_insert TENANT_BUCKETS t k v m) = TENANT_BUCKETS" by (simp add: bucket_insert_def)
qed

definition master_wf :: "'p master \<Rightarrow> machine \<Rightarrow> bool" where
  "master_wf ms m \<longleftrightarrow> length (ms_tenants ms) = TENANT_BUCKETS \<and>
     (\<forall>i a. get_tenant ms i = Some a \<longrightarrow>
        a < ms_next ms \<and> (\<exists>tn. tenants m a = Some tn \<and> tn_id tn = i \<and> tenant_wf tn))"

lemma master_wfD:
  assumes "master_wf ms m" and "get_tenant ms i = Some a"
  shows "a < ms_next ms" "\<exists>tn. tenants m a = Some tn \<and> tn_id tn = i \<and> tenant_wf tn"
  using assms by (auto simp: master_wf_def)

lemma master_wf_live: "master_wf ms m \<Longrightarrow> tenants_live ms m"
  by (fastforce simp: master_wf_def tenants_live_def)

text \<open>No two identifiers share a tenant.\<close>

lemma get_tenant_inj:
  assumes "master_wf ms m" and "get_tenant ms i = Some a" and "get_tenant ms j = Some a"
  shows "i = j"
  using master_wfD(2) [OF assms(1,2)] master_wfD(2) [OF assms(1,3)] by auto

lemma get_insert_tenant:
  assumes "master_wf ms m"
  shows "get_tenant (fst (insert_tenant tn (ms, m))) i =
    (if i = tn_id tn then Some (ms_next ms) else get_tenant ms i)"
  using assms tens.lookup_insert [of "ms_tenants ms"]
  by (simp add: insert_tenant_def get_tenant_def master_wf_def)

lemma insert_tenant_wf:
  assumes "master_wf ms m" and "tenant_wf tn"
  shows "master_wf (fst (insert_tenant tn (ms, m))) (snd (insert_tenant tn (ms, m)))"
proof -
  have len: "length (ms_tenants (fst (insert_tenant tn (ms, m)))) = TENANT_BUCKETS"
    using assms(1) by (simp add: insert_tenant_def master_wf_def bucket_insert_def)
  have "a < ms_next (fst (insert_tenant tn (ms, m))) \<and>
      (\<exists>x. tenants (snd (insert_tenant tn (ms, m))) a = Some x \<and> tn_id x = i \<and> tenant_wf x)"
    if "get_tenant (fst (insert_tenant tn (ms, m))) i = Some a" for i a
    using that get_insert_tenant [OF assms(1), of tn i] master_wfD [OF assms(1), of i a] assms(2)
    by (auto simp: insert_tenant_def split: if_splits)
  then show ?thesis using len by (simp add: master_wf_def)
qed

section \<open>What a task changes\<close>

fun gen_tenant :: "native_gen \<Rightarrow> nat option" where
  "gen_tenant (GenGet req res tn table_id key_length) = tn"
| "gen_tenant (GenPut req res tn tenant_id table_id key_length) = tn"
| "gen_tenant (GenMultiget req res tn table_id key_length num_keys) = tn"
| "gen_tenant (GenCommit req res tn tenant_id table_id key_len val_len) = tn"
| "gen_tenant GenDone = None"

text \<open>One table of one tenant is replaced, or nothing is.\<close>

definition touches :: "nat option \<Rightarrow> world \<Rightarrow> world \<Rightarrow> bool" where
  "touches owner w w' \<longleftrightarrow> w' = w \<or>
     (\<exists>a tn i t t'. owner = Some a \<and> w a = Some tn \<and> get_table tn i = Some t \<and> w' = w(a \<mapsto> put_table i t' tn) \<and>
        (table_wf t \<longrightarrow> table_wf t'))"

lemma put_object_wf:
  assumes "put_object grant tenant_id table_id key val t = Inr (t', status)" and "table_wf t"
  shows "table_wf t'"
proof -
  have put: "Table_put t k obj = Inr (x, y) \<Longrightarrow> table_wf x" for k obj x y
    using assms(2) by (cases "k = []") (auto simp: table_simps store_wf Let_def split: option.splits)
  show ?thesis
    using assms by (auto simp: put_object_def dest: put split: if_splits option.splits)
qed

lemma commit_tx_wf:
  assumes "commit_tx grant tsc req res tn tb kl vl t = Inr (t', res', status)" and "table_wf t"
  shows "table_wf t'"
proof -
  have val: "validate grant tn tb tsc t x = (a, b, c) \<Longrightarrow> table_wf a" for x a b c
    using validate_frame [OF _ assms(2)] by blast
  have dec: "(case validate grant tn tb tsc t x of (t', _, Inl e) \<Rightarrow> Inl e
      | (t', _, Inr COMMIT) \<Rightarrow> Inr (t', res, StatusOk)
      | (t', _, Inr ABORT) \<Rightarrow> rbind (abort_reads kl chs res) (\<lambda>res. Inr (t', res, StatusTxAbort))) =
      Inr (t', res', status) \<Longrightarrow> table_wf t'" for x chs
    by (auto dest: val split: prod.splits sum.splits decision.splits)
  show ?thesis
    using assms by (auto simp: commit_tx_def Let_def dest!: dec split: if_splits)
qed

lemma run_put_touches:
  assumes "run_put grant req res owner tenant_id table_id key_length m = Inr (pk, m')"
  shows "touches owner (tenants m) (tenants m')"
proof -
  have wf: "put_object grant tenant_id table_id key val t = Inr (t', status) \<Longrightarrow> table_wf t \<longrightarrow> table_wf t'"
    for key val t t' status using put_object_wf by blast
  show ?thesis
    using assms
    by (auto simp: run_put_def deref_def touches_def dest: wf split: option.splits)
qed

lemma run_commit_touches:
  assumes "run_commit grant req res owner tenant_id table_id kl vl m = Inr (pk, m')"
  shows "touches owner (tenants m) (tenants m')"
proof -
  have wf: "commit_tx grant tsc req res tn tb kl vl t = Inr (t', res', status) \<Longrightarrow> table_wf t \<longrightarrow> table_wf t'"
    for tsc res tn tb t t' res' status using commit_tx_wf by blast
  show ?thesis
    using assms
    by (auto simp: run_commit_def deref_def touches_def rdtsc_def dest: wf split: option.splits)
qed

lemma native_gen_touches:
  assumes "run_native_gen grant g m = Inr (g', r, m')"
  shows "touches (gen_tenant g) (tenants m) (tenants m')"
  using assms
  by (cases g) (auto simp: run_get_def run_multiget_def touches_def [of _ w w for w]
      dest: run_put_touches run_commit_touches)


lemma native_run_touches:
  assumes "Native_run (run_native_gen grant) start now n m = Inr (n', r, m')"
  shows "touches (gen_tenant (n_gen n)) (tenants m) (tenants m')"
proof (cases "runnable (n_state n)")
  case True
  then obtain g' x m2 where gen: "run_native_gen grant (n_gen n) m = Inr (g', x, m2)"
    using assms by (auto simp: Native_run_def)
  then have "m2 = m'" using assms True by (cases x) (auto simp: Native_run_def Let_def)
  then show ?thesis using native_gen_touches [OF gen] by simp
next
  case False
  then show ?thesis using assms by (simp add: Native_run_def touches_def Let_def)
qed

text \<open>The tenant field is at the same place in every request header.\<close>

definition request_tenant :: "usize \<Rightarrow> byte_string \<Rightarrow> u32" where
  "request_tenant i fr = dec_u32 (take 4 (drop (i + 10) fr))"

lemma parsed_tenant:
  assumes "view_at UdpHeader i fr rq req" and "parse_header ty req = Inr p" and "get_header p = Inr h"
    and "rpc_type ty" and "6 \<le> hdr_size ty"
  shows "hdr_tenant h = request_tenant i fr"
proof -
  have "end_at UdpHeader i fr = i + 8" by simp
  then have len: "i + 8 + hdr_size ty \<le> length fr"
    using parse_header_short_view [OF assms(1), of ty] assms(2) by (metis Inl_Inr_False not_less)
  then obtain p' where "parse_header ty req = Inr p'" "view_at ty (i + 8) fr rq p'"
    using parse_header_view [OF assms(1), of ty] assms(4) by auto
  then have "h = take (hdr_size ty) (drop (i + 8) fr)"
    using get_header_view assms(2,3) by fastforce
  then show ?thesis using assms(5) by (simp add: hdr_tenant_def request_tenant_def drop_take add.commute min_def)
qed

lemma boxed_task: "boxed r = Inr (Inr (NativeTask n)) \<longleftrightarrow> r = Inr (Inr n)"
  by (cases r) (auto simp: boxed_def split: sum.splits)

lemma handler_tenant:
  assumes "view_at UdpHeader i fr rq req" and "Master_dispatch init op ms req res = Inr (Inr (NativeTask n))"
  shows "gen_tenant (n_gen n) = get_tenant ms (request_tenant i fr)"
  using assms(2) parsed_tenant [OF assms(1)]
  by (auto simp: Master_dispatch_def boxed_task Master_get_def Master_put_def Master_multiget_def Master_commit_def
      Master_invoke_def native_task_def Native_new_def Let_def split: opcode.splits if_splits option.splits)

lemma touches_wf:
  assumes "touches (get_tenant ms i) (tenants m) (tenants m')" and "master_wf ms m"
  shows "master_wf ms m' \<and> (\<forall>j. j \<noteq> i \<longrightarrow> tenant_of ms m' j = tenant_of ms m j)"
proof (cases "tenants m' = tenants m")
  case True
  then show ?thesis using assms(2) by (simp add: master_wf_def tenant_of_def)
next
  case False
  then obtain a tn k t t' where a: "get_tenant ms i = Some a" "tenants m a = Some tn" "get_table tn k = Some t"
      "tenants m' = (tenants m)(a \<mapsto> put_table k t' tn)" "table_wf t \<longrightarrow> table_wf t'"
    using assms(1) unfolding touches_def by blast
  have tn: "tn_id tn = i" "tenant_wf tn" using master_wfD(2) [OF assms(2) a(1)] a(2) by auto
  then have "tenant_wf (put_table k t' tn)"
    using a(3,5) by (intro tenant_wf_put) (auto simp: tenant_wf_def)
  moreover have "j = i" if "get_tenant ms j = Some a" for j
    using get_tenant_inj [OF assms(2) that a(1)] .
  ultimately have "master_wf ms m'"
    using assms(2) a(2,4) tn(1) by (auto simp: master_wf_def)
  moreover have "tenant_of ms m' j = tenant_of ms m j" if "j \<noteq> i" for j
    using get_tenant_inj [OF assms(2) a(1), of j] that a(4) by (cases "get_tenant ms j") (auto simp: tenant_of_def)
  ultimately show ?thesis by blast
qed

section \<open>Properties\<close>


lemma get_tenant_new: "get_tenant (Master_new :: 'p master) i = None"
  using tenant_bucket_lt [of i] by (simp add: get_tenant_def Master_new_def bucket_lookup_def TENANT_BUCKETS_def)

lemma master_wf_new: "master_wf (Master_new :: 'p master) m"
  by (simp add: master_wf_def get_tenant_new) (simp add: Master_new_def)

text \<open>\<open>insert_tenant\<close> and \<open>get_tenant\<close>: a registered tenant is found under its identifier, a later
  registration of the same identifier replaces it, no other tenant is affected, and a new
  master has none.\<close>

lemma tenants_registered:
  assumes "master_wf ms m" and "tenant_wf tn" and "insert_tenant tn (ms, m) = (ms', m')"
  shows "master_wf ms' m' \<and> tenant_of ms' m' = (tenant_of ms m)(tn_id tn \<mapsto> tn) \<and>
    tenant_of (Master_new :: 'p master) m = Map.empty \<and> master_wf (Master_new :: 'p master) m"
proof -
  have "tenant_of ms' m' i = ((tenant_of ms m)(tn_id tn \<mapsto> tn)) i" for i
    using get_insert_tenant [OF assms(1), of tn i] assms(3) master_wfD(1) [OF assms(1), of i]
    by (cases "get_tenant ms i") (auto simp: tenant_of_def insert_tenant_def)
  moreover have "tenant_of (Master_new :: 'p master) m i = None" for i by (simp add: tenant_of_def get_tenant_new)
  ultimately show ?thesis using insert_tenant_wf [OF assms(1,2)] assms(3) master_wf_new by auto
qed


section \<open>Witnesses\<close>

lemma wit_tenant_wf: "tenant_wf wit_tenant"
  using wit_tables by (auto simp: tenant_wf_def)

lemma wit_master_wf: "master_wf wit_master wit_memory"
  by (auto simp: master_wf_def wit_get_tenant wit_memory_tenant wit_tenant_table wit_tenant_wf split: if_splits)
     (simp_all add: wit_master_def bucket_insert_def)


end
