(* ===== verification/Dispatch.thy ===== *)
theory Dispatch
  imports Registry
begin

text \<open>
  The dispatcher: \<open>db/src/dispatch.rs\<close>. It is a task of the scheduler that sends the pending responses,
  receives a burst of packets (from its own queue, or stolen from a sibling's), parses their network
  headers and hands the requests to the master service.

  The ports and the memory pool are DPDK's. \<open>network\<close> holds what they do: the \<open>k\<close>-th receive call of
  either port returns \<open>net_rx k\<close> (\<open>None\<close> for an error), the \<open>k\<close>-th send reports \<open>net_tx k\<close> packets taken, the
  \<open>k\<close>-th allocation gives \<open>net_pool k\<close>. It also records what was put on the wire and what was freed. Vectors
  are popped from their end, so every stage reverses the order of the packets. Counters
  of the feature \<open>dispatch\<close> are not compiled in.
\<close>

section \<open>State\<close>

record network =
  net_rx :: "nat \<Rightarrow> mbuf list option"
  net_rxs :: nat
  net_tx :: "nat \<Rightarrow> u32 option"
  net_txs :: nat
  net_pool :: "nat \<Rightarrow> mbuf option"
  net_allocs :: nat
  wire :: "packet list"
  freed :: "packet list"

record dispatcher =
  d_ip_addr :: u32
  d_udp :: udp_header
  d_ip :: ip_header
  d_mac :: mac_header
  d_responses_sent :: u64
  d_start :: u64
  d_stop :: u64
  d_state :: task_state
  d_time :: u64
  d_priority :: task_priority
  d_id :: int

definition FAST_PATH :: bool where "FAST_PATH = False"

text \<open>The addresses in the configuration, parsed: \<open>None\<close> for a string that is no IPv4 address.\<close>

definition Dispatch_new ::
    "u16 \<Rightarrow> u32 option \<Rightarrow> u32 option \<Rightarrow> mac_address \<Rightarrow> mac_address \<Rightarrow> u64 \<Rightarrow> int \<Rightarrow> dispatcher rust" where
  "Dispatch_new udp_port ip_address client_ip mac client_mac now i =
     rbind (expect ip_address) (\<lambda>ip_src_addr. rbind (expect client_ip) (\<lambda>ip_dst_addr.
     let udp = set_checksum 0 (set_udp_length 8 (set_dst_port 0 (set_src_port udp_port UdpHeader_new)));
         ip = set_protocol 0x11 (set_ip_length 28 (set_ihl 5 (set_version 4 (set_ttl 1
                (set_ip_dst ip_dst_addr (set_ip_src ip_src_addr IpHeader_new))))));
         mh = set_etype 0x0800 (MacHeader_new\<lparr>mac_src := mac, mac_dst := client_mac\<rparr>)
     in Inr \<lparr>d_ip_addr = ip_src_addr, d_udp = udp, d_ip = ip, d_mac = mh, d_responses_sent = 0, d_start = now,
          d_stop = 0, d_state = INITIALIZED, d_time = 0, d_priority = DISPATCH, d_id = i\<rparr>))"

section \<open>Packets in and out\<close>

definition try_receive_packets :: "network \<Rightarrow> packet list option \<times> network" where
  "try_receive_packets net =
     (case net_rx net (net_rxs net) of
        Some (m # ms) \<Rightarrow> Some (map (\<lambda>m. packet_from_mbuf_no_increment NullHeader m 0) (m # ms))
      | _ \<Rightarrow> None,
      net\<lparr>net_rxs := net_rxs net + 1\<rparr>)"

text \<open>The same on the port of the sibling, whose queue is another part of the same receive trace.\<close>

definition try_steal_packets :: "network \<Rightarrow> packet list option \<times> network" where
  "try_steal_packets net =
     (case net_rx net (net_rxs net) of
        Some (m # ms) \<Rightarrow> Some (map (\<lambda>m. packet_from_mbuf_no_increment NullHeader m 0) (m # ms))
      | _ \<Rightarrow> None,
      net\<lparr>net_rxs := net_rxs net + 1\<rparr>)"

definition try_send_packets :: "packet list \<Rightarrow> dispatcher \<times> machine \<times> network \<Rightarrow> dispatcher \<times> machine \<times> network" where
  "try_send_packets packets st =
     (let (d, m, net) = st;
          mbufs = rev packets;
          (d, net) =
            (case net_tx net (net_txs net) of
               Some sent \<Rightarrow> (d\<lparr>d_responses_sent := d_responses_sent d + word_of_nat (length mbufs)\<rparr>,
                              net\<lparr>wire := wire net @ take (unat sent) mbufs\<rparr>)
             | None \<Rightarrow> (d, net));
          net = net\<lparr>net_txs := net_txs net + 1\<rparr>
      in if 1000000 \<le> d_responses_sent d
         then let (now, m) = rdtsc m
              in (d\<lparr>d_stop := now, d_start := now, d_responses_sent := 0\<rparr>, m, net)
         else (d, m, net))"

definition free_packets :: "packet list \<Rightarrow> network \<Rightarrow> network" where
  "free_packets packets net = net\<lparr>freed := freed net @ rev packets\<rparr>"

section \<open>Parsing\<close>

text \<open>The loop of the three parsing functions, over the packets in the order they are popped.\<close>

fun parse_stage ::
    "hdr_type \<Rightarrow> (byte_string \<Rightarrow> bool) \<Rightarrow> packet list \<Rightarrow> packet list \<Rightarrow> packet list \<Rightarrow> (packet list \<times> packet list) rust" where
  "parse_stage ty valid [] kept ignored = Inr (kept, ignored)"
| "parse_stage ty valid (p # ps) kept ignored =
     rbind (parse_header ty p) (\<lambda>p. rbind (get_header p) (\<lambda>h.
       if valid h then parse_stage ty valid ps (kept @ [p]) ignored
       else parse_stage ty valid ps kept (ignored @ [p])))"

definition parse_headers ::
    "hdr_type \<Rightarrow> (byte_string \<Rightarrow> bool) \<Rightarrow> packet list \<Rightarrow> network \<Rightarrow> (packet list \<times> network) rust" where
  "parse_headers ty valid packets net =
     rbind (parse_stage ty valid (rev packets) [] []) (\<lambda>(kept, ignored). Inr (kept, free_packets ignored net))"

definition mac_valid :: "byte_string \<Rightarrow> bool" where
  "mac_valid h \<longleftrightarrow> etype (dec_mac h) = 0x0800"

definition ip_valid :: "u32 \<Rightarrow> byte_string \<Rightarrow> bool" where
  "ip_valid addr h \<longleftrightarrow> version (dec_ip h) = 4 \<and> 0 < ttl (dec_ip h) \<and> 30 \<le> ip_length (dec_ip h) \<and> ip_dst (dec_ip h) = addr"

definition udp_valid :: "byte_string \<Rightarrow> bool" where
  "udp_valid h \<longleftrightarrow> 10 \<le> udp_length (dec_udp h)"

definition parse_mac_headers :: "packet list \<Rightarrow> network \<Rightarrow> (packet list \<times> network) rust" where
  "parse_mac_headers = parse_headers MacHeader mac_valid"

definition parse_ip_headers :: "dispatcher \<Rightarrow> packet list \<Rightarrow> network \<Rightarrow> (packet list \<times> network) rust" where
  "parse_ip_headers d = parse_headers IpHeader (ip_valid (d_ip_addr d))"

definition parse_udp_headers :: "packet list \<Rightarrow> network \<Rightarrow> (packet list \<times> network) rust" where
  "parse_udp_headers = parse_headers UdpHeader udp_valid"


section \<open>Dispatching\<close>

text \<open>The state a dispatcher works on: itself, the scheduler, the machine, the network.\<close>

type_synonym 't dispatch_state = "dispatcher \<times> 't round_robin \<times> machine \<times> network"

text \<open>The addresses of the response headers are those of the request, swapped; the request is parsed
  again up to UDP.\<close>

definition address_response :: "packet \<Rightarrow> dispatcher \<Rightarrow> (packet \<times> dispatcher) rust" where
  "address_response request d =
     rbind (deparse_header 20 request) (\<lambda>ip. rbind (get_header ip) (\<lambda>h.
     let d = d\<lparr>d_ip := set_ip_dst (ip_src (dec_ip h)) (set_ip_src (ip_dst (dec_ip h)) (d_ip d))\<rparr>
     in rbind (deparse_header 14 ip) (\<lambda>mac. rbind (get_header mac) (\<lambda>h.
        let d = d\<lparr>d_mac := set_mac_dst (mac_src (dec_mac h)) (set_mac_src (mac_dst (dec_mac h)) (d_mac d))\<rparr>
        in rbind (parse_header IpHeader mac) (\<lambda>p. rbind (parse_header UdpHeader p) (\<lambda>request.
           Inr (request, d)))))))"

definition build_response :: "dispatcher \<Rightarrow> packet \<Rightarrow> packet \<Rightarrow> packet rust" where
  "build_response d request response =
     rbind (push_header MacHeader (enc_mac (d_mac d)) response) (\<lambda>r. rbind (expect r) (\<lambda>p.
     rbind (push_header IpHeader (enc_ip (d_ip d)) p) (\<lambda>r. rbind (expect r) (\<lambda>p.
     rbind (push_header UdpHeader (enc_udp (d_udp d)) p) (\<lambda>r. rbind (expect r) (\<lambda>p.
     rbind (get_header request) (\<lambda>h.
     rbind (modify_header (set_udp (set_src_port (dst_port (dec_udp h)))) p) (\<lambda>p.
     rbind (get_header request) (\<lambda>h.
     modify_header (set_udp (set_dst_port (src_port (dec_udp h)))) p)))))))))"

text \<open>One request with its response packet. \<open>task\<close> wraps a task of the master service for the queue; the last
  two results are the packets to free and the responses of requests served right away.\<close>

definition route_request ::
    "('p \<Rightarrow> ctxt \<Rightarrow> ('h \<times> ctxt) rust) \<Rightarrow> (usize \<Rightarrow> usize) \<Rightarrow> 'p master \<Rightarrow> ((native_gen, 'h) server_task \<Rightarrow> 't) \<Rightarrow>
     packet \<Rightarrow> packet \<Rightarrow> 't round_robin \<times> machine \<times> network \<Rightarrow>
     (('t round_robin \<times> machine \<times> network) \<times> packet list \<times> packet list) rust" where
  "route_request init grant ms task request response st =
     (let (s, m, net) = st;
          take_task = (\<lambda>r. case r of
              Inr t \<Rightarrow> Inr ((enqueue (task t) s, m, net), [], [])
            | Inl (req, res) \<Rightarrow> Inr ((s, m, net), [req, res], []))
      in rbind (parse_rpc_service request) (\<lambda>service.
           if service = MasterService
           then rbind (parse_rpc_opcode request) (\<lambda>opcode.
                  if \<not> FAST_PATH then rbind (Master_dispatch init opcode ms request response) take_task
                  else if opcode = SandstormInvokeRpc
                  then rbind (dispatch_invoke init ms request response) take_task
                  else if opcode \<in> {SandstormGetRpc, SandstormPutRpc, SandstormMultiGetRpc}
                  then rbind (service_native grant opcode ms m request response) (\<lambda>(r, m).
                         case r of
                           Inr (req, res) \<Rightarrow>
                             let net = free_packets [req] net
                             in rbind (fixup_header_length_fields res) (\<lambda>p. Inr ((s, m, net), [], [p]))
                         | Inl (req, res) \<Rightarrow> Inr ((s, m, net), [req, res], []))
                  else Inr ((s, m, net), [request, response], []))
           else Inr ((s, m, net), [request, response], [])))"

fun dispatch_loop ::
    "('p \<Rightarrow> ctxt \<Rightarrow> ('h \<times> ctxt) rust) \<Rightarrow> (usize \<Rightarrow> usize) \<Rightarrow> 'p master \<Rightarrow> ((native_gen, 'h) server_task \<Rightarrow> 't) \<Rightarrow>
     packet list \<Rightarrow> packet list \<Rightarrow> packet list \<Rightarrow> 't dispatch_state \<Rightarrow>
     ('t dispatch_state \<times> packet list \<times> packet list) rust" where
  "dispatch_loop init grant ms task [] ignored native st = Inr (st, ignored, native)"
| "dispatch_loop init grant ms task (request # requests) ignored native (d, s, m, net) =
     rbind (address_response request d) (\<lambda>(request, d).
     let alloc = net_pool net (net_allocs net); net = net\<lparr>net_allocs := net_allocs net + 1\<rparr>
     in case new_packet alloc of
          Some response \<Rightarrow>
            rbind (build_response d request response) (\<lambda>response.
            rbind (route_request init grant ms task request response (s, m, net)) (\<lambda>((s, m, net), ign, nats).
              dispatch_loop init grant ms task requests (ignored @ ign) (native @ nats) (d, s, m, net)))
        | None \<Rightarrow> dispatch_loop init grant ms task requests ignored native (d, s, m, net))"

definition dispatch_requests ::
    "('p \<Rightarrow> ctxt \<Rightarrow> ('h \<times> ctxt) rust) \<Rightarrow> (usize \<Rightarrow> usize) \<Rightarrow> 'p master \<Rightarrow> ((native_gen, 'h) server_task \<Rightarrow> 't) \<Rightarrow>
     packet list \<Rightarrow> 't dispatch_state \<Rightarrow> 't dispatch_state rust" where
  "dispatch_requests init grant ms task requests st =
     rbind (dispatch_loop init grant ms task (rev requests) [] [] st) (\<lambda>((d, s, m, net), ignored, native).
       Inr (d, append_resps native s, m, free_packets ignored net))"

text \<open>\<open>Dispatch::poll\<close>: the count of packets received is the second result.\<close>

definition process_packets ::
    "('p \<Rightarrow> ctxt \<Rightarrow> ('h \<times> ctxt) rust) \<Rightarrow> (usize \<Rightarrow> usize) \<Rightarrow> 'p master \<Rightarrow> ((native_gen, 'h) server_task \<Rightarrow> 't) \<Rightarrow>
     packet list \<Rightarrow> 't dispatch_state \<Rightarrow> ('t dispatch_state \<times> u64) rust" where
  "process_packets init grant ms task packets st =
     (let (d, s, m, net) = st
      in rbind (parse_mac_headers packets net) (\<lambda>(packets, net).
         rbind (parse_ip_headers d packets net) (\<lambda>(packets, net).
         rbind (parse_udp_headers packets net) (\<lambda>(packets, net).
         rbind (dispatch_requests init grant ms task packets (d, s, m, net)) (\<lambda>st.
           Inr (st, word_of_nat (length packets)))))))"

definition Dispatch_poll ::
    "('p \<Rightarrow> ctxt \<Rightarrow> ('h \<times> ctxt) rust) \<Rightarrow> (usize \<Rightarrow> usize) \<Rightarrow> 'p master \<Rightarrow> ((native_gen, 'h) server_task \<Rightarrow> 't) \<Rightarrow>
     't dispatch_state \<Rightarrow> ('t dispatch_state \<times> u64) rust" where
  "Dispatch_poll init grant ms task st =
     (let (d, s, m, net) = st;
          (resps, s) = take_responses s;
          (d, m, net) = (if resps \<noteq> [] then try_send_packets resps (d, m, net) else (d, m, net));
          (received, net) = try_receive_packets net
      in case received of
           Some packets \<Rightarrow> process_packets init grant ms task packets (d, s, m, net)
         | None \<Rightarrow>
             let (stolen, net) = try_steal_packets net
             in case stolen of
                  Some packets \<Rightarrow> process_packets init grant ms task packets (d, s, m, net)
                | None \<Rightarrow> Inr ((d, s, m, net), 0))"

definition Dispatch_run ::
    "('p \<Rightarrow> ctxt \<Rightarrow> ('h \<times> ctxt) rust) \<Rightarrow> (usize \<Rightarrow> usize) \<Rightarrow> 'p master \<Rightarrow> ((native_gen, 'h) server_task \<Rightarrow> 't) \<Rightarrow>
     dispatcher \<Rightarrow> 't round_robin \<times> machine \<times> network \<Rightarrow>
     (dispatcher \<times> (task_state \<times> u64) \<times> 't round_robin \<times> machine \<times> network) rust" where
  "Dispatch_run init grant ms task d st =
     (let (s, m, net) = st;
          (start, m) = rdtsc m
      in rbind (Dispatch_poll init grant ms task (d\<lparr>d_state := RUNNING\<rparr>, s, m, net)) (\<lambda>((d, s, m, net), _).
         let (now, m) = rdtsc m; exec = now - start
         in Inr (d\<lparr>d_state := YIELDED, d_time := d_time d + exec\<rparr>, (YIELDED, exec), s, m, net)))"

text \<open>\<open>Drop::drop\<close>: pending responses are sent when a dispatcher goes away.\<close>

definition Dispatch_drop :: "'t dispatch_state \<Rightarrow> 't dispatch_state" where
  "Dispatch_drop st =
     (let (d, s, m, net) = st;
          (resps, s) = take_responses s;
          (d, m, net) = (if resps \<noteq> [] then try_send_packets resps (d, m, net) else (d, m, net))
      in (d, s, m, net))"

section \<open>All tasks of the server\<close>

datatype 'h any_task = DispatchTask dispatcher | RequestTask "(native_gen, 'h) server_task"

definition server_code ::
    "(usize \<Rightarrow> usize) \<Rightarrow> ('h \<Rightarrow> ctxt \<Rightarrow> world \<Rightarrow> 'h \<times> ext_step \<times> ctxt \<times> world) \<Rightarrow> ('h container \<Rightarrow> bool) \<Rightarrow>
     (native_gen, 'h) code" where
  "server_code grant ext only_ref =
     \<lparr>co_native = run_native_gen grant, co_ext = ext, co_grant = grant, co_only_ref = only_ref\<rparr>"

fun any_run ::
    "('p \<Rightarrow> ctxt \<Rightarrow> ('h \<times> ctxt) rust) \<Rightarrow> 'p master \<Rightarrow> (native_gen, 'h) code \<Rightarrow> 'h any_task \<Rightarrow>
     'h any_task round_robin \<times> machine \<times> network \<Rightarrow>
     ('h any_task \<times> (task_state \<times> u64) \<times> 'h any_task round_robin \<times> machine \<times> network) rust" where
  "any_run init ms co (DispatchTask d) st =
     rbind (Dispatch_run init (co_grant co) ms RequestTask d st) (\<lambda>(d, r, st). Inr (DispatchTask d, r, st))"
| "any_run init ms co (RequestTask t) (s, m, net) =
     rbind (server_run co t (s, m)) (\<lambda>(t, r, s, m). Inr (RequestTask t, r, s, m, net))"

fun any_tear ::
    "(native_gen, 'h) code \<Rightarrow> 'h any_task \<Rightarrow> 'h any_task round_robin \<times> machine \<times> network \<Rightarrow>
     ('h any_task \<times> ('h any_task round_robin \<times> machine \<times> network) \<times> packets) rust" where
  "any_tear co (DispatchTask d) st = Inr (DispatchTask d, st, None)"
| "any_tear co (RequestTask t) (s, m, net) =
     rbind (server_tear co t (s, m)) (\<lambda>(t, (s, m), pk). Inr (RequestTask t, (s, m, net), pk))"

text \<open>The instance of the \<open>Task\<close> trait for all of them.\<close>

definition any_impl ::
    "('p \<Rightarrow> ctxt \<Rightarrow> ('h \<times> ctxt) rust) \<Rightarrow> 'p master \<Rightarrow> (native_gen, 'h) code \<Rightarrow>
     ('h any_task, 'h any_task round_robin \<times> machine \<times> network) task_impl" where
  "any_impl init ms co = \<lparr>
     t_run = any_run init ms co,
     t_state = (\<lambda>t. case t of DispatchTask d \<Rightarrow> d_state d | RequestTask t \<Rightarrow> t_state (server_impl co) t),
     t_time = (\<lambda>t. case t of DispatchTask d \<Rightarrow> d_time d | RequestTask t \<Rightarrow> t_time (server_impl co) t),
     t_db_time = (\<lambda>t. case t of DispatchTask d \<Rightarrow> 0 | RequestTask t \<Rightarrow> t_db_time (server_impl co) t),
     t_priority = (\<lambda>t. case t of DispatchTask d \<Rightarrow> d_priority d | RequestTask t \<Rightarrow> t_priority (server_impl co) t),
     t_tear = any_tear co,
     t_set_state = (\<lambda>st t. case t of DispatchTask d \<Rightarrow> DispatchTask (d\<lparr>d_state := st\<rparr>)
       | RequestTask t \<Rightarrow> RequestTask (t_set_state (server_impl co) st t))\<rparr>"


section \<open>Parsing keeps the valid packets\<close>

definition has_header :: "(byte_string \<Rightarrow> bool) \<Rightarrow> packet \<Rightarrow> bool" where
  "has_header valid p \<longleftrightarrow> (case get_header p of Inr h \<Rightarrow> valid h | Inl e \<Rightarrow> False)"

lemma parse_stage_filter:
  assumes "parse_stage ty valid ps kept ignored = Inr (kept', ignored')"
  shows "\<exists>qs. list_all2 (\<lambda>p q. parse_header ty p = Inr q) ps qs \<and>
    kept' = kept @ filter (has_header valid) qs \<and> ignored' = ignored @ filter (\<lambda>q. \<not> has_header valid q) qs"
  using assms
proof (induction ps arbitrary: kept ignored)
  case Nil
  then show ?case by simp
next
  case (Cons p ps)
  then obtain q h where q: "parse_header ty p = Inr q" "get_header q = Inr h" by auto
  have "parse_stage ty valid ps (if valid h then kept @ [q] else kept) (if valid h then ignored else ignored @ [q]) =
      Inr (kept', ignored')"
    using Cons.prems q by (cases "valid h") simp_all
  from Cons.IH [OF this] obtain qs where "list_all2 (\<lambda>p q. parse_header ty p = Inr q) ps qs"
      "kept' = (if valid h then kept @ [q] else kept) @ filter (has_header valid) qs"
      "ignored' = (if valid h then ignored else ignored @ [q]) @ filter (\<lambda>q. \<not> has_header valid q) qs"
    by blast
  moreover have "has_header valid q = valid h" using q(2) by (simp add: has_header_def)
  ultimately show ?case using q by (intro exI [of _ "q # qs"]) auto
qed

section \<open>A request on its way in\<close>

text \<open>The response headers to a request with network headers \<open>mac\<close>, \<open>ip\<close>, \<open>udp\<close>.\<close>

definition reply_mac :: "dispatcher \<Rightarrow> mac_header \<Rightarrow> mac_header" where
  "reply_mac d mac = set_mac_dst (mac_src mac) (set_mac_src (mac_dst mac) (d_mac d))"

definition reply_ip :: "dispatcher \<Rightarrow> ip_header \<Rightarrow> ip_header" where
  "reply_ip d ip = set_ip_dst (ip_src ip) (set_ip_src (ip_dst ip) (d_ip d))"

definition reply_udp :: "dispatcher \<Rightarrow> udp_header \<Rightarrow> udp_header" where
  "reply_udp d udp = set_dst_port (src_port udp) (set_src_port (dst_port udp) (d_udp d))"

lemma single_parse:
  assumes "parse_header ty p = Inr q" and "get_header q = Inr h" and "valid h"
  shows "parse_headers ty valid [p] net = Inr ([q], net)"
  using assms by (simp add: parse_headers_def free_packets_def)

definition addressed_to :: "u32 \<Rightarrow> mac_header \<Rightarrow> ip_header \<Rightarrow> bool" where
  "addressed_to addr mac ip \<longleftrightarrow>
     plain_network mac ip \<and> etype mac = 0x0800 \<and> version ip = 4 \<and> 0 < ttl ip \<and> ip_dst ip = addr"

lemma request_parts:
  "request_bytes mac ip udp dst body = enc_mac mac @
     enc_ip (set_ip_length (20 + word_of_nat (8 + length body)) ip) @
     enc_udp (set_udp_length (word_of_nat (8 + length body)) (set_dst_port dst udp)) @ body"
  by (simp add: request_bytes_def network_bytes_def Let_def)

lemma ip_length_frame_words:
  "ttl (set_ip_length n h) = ttl h" "ip_src (set_ip_length n h) = ip_src h" "ip_dst (set_ip_length n h) = ip_dst h"
  by (simp_all add: set_ip_length_def ttl_def ip_src_def ip_dst_def)

lemma incoming_view:
  assumes "addressed_to (d_ip_addr d) mac ip" and "view_at NullHeader 0 (request_bytes mac ip udp dst body) r p"
    and "2 \<le> length body" and "length body < 65508"
  shows "\<exists>p1 p2 p3. parse_mac_headers [p] net = Inr ([p1], net) \<and> parse_ip_headers d [p1] net = Inr ([p2], net) \<and>
    parse_udp_headers [p2] net = Inr ([p3], net) \<and> view_at UdpHeader 34 (request_bytes mac ip udp dst body) r p3"
proof -
  let ?n = "word_of_nat (8 + length body) :: u16"
  let ?ip = "set_ip_length (20 + ?n) ip" and ?udp = "set_udp_length ?n (set_dst_port dst udp)"
  let ?fr = "enc_mac mac @ enc_ip ?ip @ enc_udp ?udp @ body"
  have plain: "plain_network mac ip" using assms(1) by (simp add: addressed_to_def)
  then have "plain_network mac ?ip" by simp
  note off = plain_offsets [OF this]
  have v0: "view_at NullHeader 0 ?fr r p" using assms(2) by (simp add: request_parts)
  obtain p1 where p1: "parse_header MacHeader p = Inr p1" "view_at MacHeader 0 ?fr r p1"
    using parse_header_view [OF v0, of MacHeader] off by auto
  obtain p2 where p2: "parse_header IpHeader p1 = Inr p2" "view_at IpHeader 14 ?fr r p2"
    using parse_header_view [OF p1(2), of IpHeader] off by auto
  obtain p3 where p3: "parse_header UdpHeader p2 = Inr p3" "view_at UdpHeader 34 ?fr r p3"
    using parse_header_view [OF p2(2), of UdpHeader] off by auto
  have h: "get_header p1 = Inr (enc_mac mac)" "get_header p2 = Inr (enc_ip ?ip)" "get_header p3 = Inr (enc_udp ?udp)"
    using get_header_view [OF p1(2)] get_header_view [OF p2(2)] get_header_view [OF p3(2)] off by simp_all
  have n: "unat ?n = 8 + length body" unfolding unat_of_nat using assms(4) by simp
  have "unat (20 + ?n) = 28 + length body"
    using n assms(4) by (simp add: unat_word_ariths)
  then have len: "30 \<le> (20 + ?n)" "10 \<le> ?n" using n assms(3) by (simp_all add: word_le_nat_alt)
  have "mac_valid (enc_mac mac)"
    using assms(1) by (simp add: mac_valid_def addressed_to_def plain_network_def)
  moreover have "ip_valid (d_ip_addr d) (enc_ip ?ip)"
    using assms(1) len(1) by (simp add: ip_valid_def addressed_to_def ip_fields ip_length_frame_words)
  moreover have "udp_valid (enc_udp ?udp)"
    using len(2) by (simp add: udp_valid_def udp_length_def set_udp_length_def)
  ultimately show ?thesis
    using single_parse [OF p1(1) h(1), of mac_valid net] single_parse [OF p2(1) h(2), of "ip_valid (d_ip_addr d)" net]
      single_parse [OF p3(1) h(3), of udp_valid net] p3(2)
    by (auto simp: parse_mac_headers_def parse_ip_headers_def parse_udp_headers_def request_parts)
qed

lemma address_response_view:
  assumes "plain_network mac ip" and "view_at UdpHeader 34 (request_bytes mac ip udp dst body) r p"
  shows "\<exists>p'. address_response p d = Inr (p', d\<lparr>d_ip := reply_ip d ip, d_mac := reply_mac d mac\<rparr>) \<and>
    view_at UdpHeader 34 (request_bytes mac ip udp dst body) r p'"
proof -
  let ?n = "word_of_nat (8 + length body) :: u16"
  let ?ip = "set_ip_length (20 + ?n) ip" and ?udp = "set_udp_length ?n (set_dst_port dst udp)"
  let ?fr = "enc_mac mac @ enc_ip ?ip @ enc_udp ?udp @ body"
  have "plain_network mac ?ip" using assms(1) by simp
  note off = plain_offsets [OF this]
  have v: "view_at UdpHeader 34 ?fr r p" using assms(2) by (simp add: request_parts)
  obtain p1 where p1: "deparse_header 20 p = Inr p1" "view_at IpHeader 14 ?fr r p1"
    using deparse_header_view [OF v, of 20 IpHeader] off by auto
  obtain p2 where p2: "deparse_header 14 p1 = Inr p2" "view_at MacHeader 0 ?fr r p2"
    using deparse_header_view [OF p1(2), of 14 MacHeader] off by auto
  obtain p3 where p3: "parse_header IpHeader p2 = Inr p3" "view_at IpHeader 14 ?fr r p3"
    using parse_header_view [OF p2(2), of IpHeader] off by auto
  obtain p4 where p4: "parse_header UdpHeader p3 = Inr p4" "view_at UdpHeader 34 ?fr r p4"
    using parse_header_view [OF p3(2), of UdpHeader] off by auto
  have h: "get_header p1 = Inr (enc_ip ?ip)" "get_header p2 = Inr (enc_mac mac)"
    using get_header_view [OF p1(2)] get_header_view [OF p2(2)] off by simp_all
  have "address_response p d = Inr (p4, d\<lparr>d_ip := reply_ip d ip, d_mac := reply_mac d mac\<rparr>)"
    using assms(1)
    by (simp add: address_response_def p1(1) p2(1) p3(1) p4(1) h reply_ip_def reply_mac_def Let_def plain_network_def
        ip_length_frame_words)
  then show ?thesis using p4(2) by (auto simp: request_parts)
qed

lemma reply_plain:
  "plain_network mac ip \<Longrightarrow> plain_network (d_mac d) (d_ip d) \<Longrightarrow> plain_network (reply_mac d mac) (reply_ip d ip)"
  by (simp add: plain_network_def reply_mac_def reply_ip_def wf_mac_def set_mac_src_def set_mac_dst_def ip_fields)

lemma build_response_view:
  assumes "plain_network mac ip" and "view_at UdpHeader 34 (request_bytes mac ip udp dst body) rq req"
    and "plain_network (d_mac d) (d_ip d)" and "fresh_mbuf 42 mb"
  shows "\<exists>p0 p. new_packet (Some mb) = Some p0 \<and> build_response d req p0 = Inr p \<and>
    view_at UdpHeader 34 (network_bytes (d_mac d) (d_ip d) (reply_udp d (set_dst_port dst udp))) (pkt_tailroom mb - 42) p"
proof -
  let ?r = "pkt_tailroom mb - 42"
  have "plain_network mac (set_ip_length n ip)" for n using assms(1) by simp
  note off = plain_offsets [OF this]
  obtain n where "get_header req = Inr (enc_udp (set_udp_length n (set_dst_port dst udp)))"
    using get_header_view [OF assms(2)] off by (simp add: request_parts)
  then obtain q where h: "get_header req = Inr (enc_udp q)" "dst_port q = dst_port (set_dst_port dst udp)"
      "src_port q = src_port (set_dst_port dst udp)"
    by (auto simp: dst_port_def src_port_def set_udp_length_def)
  have mb: "wf_mbuf mb" "m_data_len mb = 0" "42 \<le> pkt_tailroom mb" using assms(4) by (simp_all add: fresh_mbuf_def)
  obtain p0 p1 p2 p3 where p: "new_packet (Some mb) = Some p0" "push_header MacHeader (enc_mac (d_mac d)) p0 = Inr (Some p1)"
      "push_header IpHeader (enc_ip (d_ip d)) p1 = Inr (Some p2)" "push_header UdpHeader (enc_udp (d_udp d)) p2 = Inr (Some p3)"
      "view_at UdpHeader 34 (network_bytes (d_mac d) (d_ip d) (d_udp d)) ?r p3"
    using push_network_view [OF mb assms(3)] by blast
  obtain p4 where p4: "modify_header (set_udp (set_src_port (dst_port q))) p3 = Inr p4"
      "view_at UdpHeader 34 (network_bytes (d_mac d) (d_ip d) (set_src_port (dst_port q) (d_udp d))) ?r p4"
    using modify_udp_view [OF assms(3) p(5)] by blast
  obtain p5 where p5: "modify_header (set_udp (set_dst_port (src_port q))) p4 = Inr p5"
      "view_at UdpHeader 34 (network_bytes (d_mac d) (d_ip d) (set_dst_port (src_port q) (set_src_port (dst_port q) (d_udp d)))) ?r p5"
    using modify_udp_view [OF assms(3) p4(2)] by blast
  have "view_at UdpHeader 34 (network_bytes (d_mac d) (d_ip d) (reply_udp d (set_dst_port dst udp))) ?r p5"
    using p5(2) h(2,3) by (simp add: reply_udp_def)
  moreover have "build_response d req p0 = Inr p5" by (simp add: build_response_def p(2-4) h(1) p4(1) p5(1))
  ultimately show ?thesis using p(1) by blast
qed

text \<open>A request for the master service, from the wire to its handler.\<close>

definition reply_bytes :: "dispatcher \<Rightarrow> mac_header \<Rightarrow> ip_header \<Rightarrow> udp_header \<Rightarrow> byte_string" where
  "reply_bytes d mac ip udp = network_bytes (reply_mac d mac) (reply_ip d ip) (reply_udp d udp)"

definition addressed :: "dispatcher \<Rightarrow> mac_header \<Rightarrow> ip_header \<Rightarrow> dispatcher" where
  "addressed d mac ip = d\<lparr>d_ip := reply_ip d ip, d_mac := reply_mac d mac\<rparr>"

lemma process_request:
  assumes "addressed_to (d_ip_addr d) mac ip" and "plain_network (d_mac d) (d_ip d)"
    and "view_at NullHeader 0 (request_bytes mac ip udp dst (hdr @ pay)) rq p"
    and "hdr = enc_request h @ rest" and "rq_service h = MasterService" and "length (hdr @ pay) < 65508"
    and "net_pool net (net_allocs net) = Some mb" and "fresh_mbuf 42 mb"
    and "net' = net\<lparr>net_allocs := net_allocs net + 1\<rparr>"
  shows "\<exists>req res. handed 34 hdr pay req 34 (reply_bytes d mac ip (set_dst_port dst udp)) (pkt_tailroom mb - 42) res \<and>
    process_packets init grant ms task [p] (d, s, m, net) =
      rbind (Master_dispatch init (rq_opcode h) ms req res) (\<lambda>r. case r of
          Inr t \<Rightarrow> Inr ((addressed d mac ip, enqueue (task t) s, m, net'), 1)
        | Inl (a, b) \<Rightarrow> Inr ((addressed d mac ip, s, m, free_packets [a, b] net'), 1))"
proof -
  let ?fr = "request_bytes mac ip udp dst (hdr @ pay)" and ?d = "addressed d mac ip"
  have plain: "plain_network mac ip" using assms(1) by (simp add: addressed_to_def)
  have len: "2 \<le> length (hdr @ pay)" using assms(4) by (simp add: enc_request_def)
  obtain p1 p2 p3 where p: "parse_mac_headers [p] net = Inr ([p1], net)" "parse_ip_headers d [p1] net = Inr ([p2], net)"
      "parse_udp_headers [p2] net = Inr ([p3], net)" "view_at UdpHeader 34 ?fr rq p3"
    using incoming_view [OF assms(1,3) len assms(6), of net] by blast
  obtain req where req: "address_response p3 d = Inr (req, ?d)" "view_at UdpHeader 34 ?fr rq req"
    using address_response_view [OF plain p(4), of d] by (auto simp: addressed_def)
  have pd: "plain_network (d_mac ?d) (d_ip ?d)" using reply_plain [OF plain assms(2)] by (simp add: addressed_def)
  obtain p0 res where res: "new_packet (Some mb) = Some p0" "build_response ?d req p0 = Inr res"
      "view_at UdpHeader 34 (reply_bytes d mac ip (set_dst_port dst udp)) (pkt_tailroom mb - 42) res"
    using build_response_view [OF plain req(2) pd assms(8)] by (auto simp: addressed_def reply_bytes_def reply_udp_def)
  have body: "drop 42 ?fr = hdr @ pay" using plain by (simp add: request_parts plain_network_def)
  have "length (reply_bytes d mac ip (set_dst_port dst udp)) = 42"
    using plain_offsets(3) [OF reply_plain [OF plain assms(2)]] by (simp add: reply_bytes_def network_bytes_def)
  then have hd: "handed 34 hdr pay req 34 (reply_bytes d mac ip (set_dst_port dst udp)) (pkt_tailroom mb - 42) res"
    using req(2) res(3) body by (auto simp: handed_def)
  have "get_payload req = Inr (enc_request h @ rest @ pay)"
    using get_payload_view [OF req(2)] body assms(4) by simp
  note so = parse_service_opcode [OF this]
  have "process_packets init grant ms task [p] (d, s, m, net) =
      rbind (Master_dispatch init (rq_opcode h) ms req res) (\<lambda>r. case r of
          Inr t \<Rightarrow> Inr ((?d, enqueue (task t) s, m, net'), 1)
        | Inl (a, b) \<Rightarrow> Inr ((?d, s, m, free_packets [a, b] net'), 1))"
    by (cases "Master_dispatch init (rq_opcode h) ms req res")
       (auto simp: process_packets_def p(1-3) dispatch_requests_def req(1) assms(5,7,9) res(1,2) route_request_def so
         FAST_PATH_def Let_def append_resps_def free_packets_def split: sum.split)
  then show ?thesis using hd by blast
qed

section \<open>The dispatcher as a task\<close>

text \<open>A dispatcher only adds tasks at the end of the queue.\<close>

definition grows :: "'t round_robin \<Rightarrow> 't round_robin \<Rightarrow> bool" where
  "grows s s' \<longleftrightarrow> (\<exists>new. waiting s' = waiting s @ new) \<and> compromised s' = compromised s"

lemma grows_refl [simp]: "grows s s" by (simp add: grows_def)

lemma grows_trans: "grows a b \<Longrightarrow> grows b c \<Longrightarrow> grows a c"
  by (auto simp: grows_def)

lemma grows_simps [simp]:
  "grows s (enqueue t s)" "grows s (append_resps ps s)" "grows s (snd (take_responses s))"
  by (simp_all add: grows_def enqueue_def append_resps_def take_responses_def)

lemma route_request_grows:
  assumes "route_request init grant ms task request response (s, m, net) = Inr ((s', m', net'), ign, nats)"
  shows "grows s s'"
proof -
  have task: "(case r of Inr t \<Rightarrow> Inr ((enqueue (task t) s, m, net), [], []) | Inl (req, res) \<Rightarrow> Inr ((s, m, net), [req, res], [])) =
      Inr ((s', m', net'), ign, nats) \<Longrightarrow> grows s s'" for r
    by (auto split: sum.splits)
  show ?thesis using assms by (auto simp: route_request_def Let_def FAST_PATH_def dest!: task split: if_splits)
qed

lemma dispatch_loop_grows:
  assumes "dispatch_loop init grant ms task requests ignored native (d, s, m, net) = Inr ((d', s', m', net'), ign, nats)"
  shows "grows s s'"
  using assms
proof (induction requests arbitrary: ignored native d s m net)
  case Nil
  then show ?case by simp
next
  case (Cons request requests)
  obtain req d1 where a: "address_response request d = Inr (req, d1)"
    using Cons.prems by (auto simp: Let_def)
  show ?case
  proof (cases "new_packet (net_pool net (net_allocs net))")
    case None
    then show ?thesis using Cons.prems Cons.IH a by (auto simp: Let_def)
  next
    case (Some response)
    then obtain s1 m1 net1 ign1 nats1 res where
        r: "route_request init grant ms task req res (s, m, net\<lparr>net_allocs := net_allocs net + 1\<rparr>) = Inr ((s1, m1, net1), ign1, nats1)"
        "dispatch_loop init grant ms task requests (ignored @ ign1) (native @ nats1) (d1, s1, m1, net1) = Inr ((d', s', m', net'), ign, nats)"
      using Cons.prems a by (auto simp: Let_def)
    show ?thesis using grows_trans [OF route_request_grows [OF r(1)] Cons.IH [OF r(2)]] .
  qed
qed

lemma process_packets_grows:
  assumes "process_packets init grant ms task packets (d, s, m, net) = Inr ((d', s', m', net'), n)"
  shows "grows s s'"
proof -
  obtain requests net1 d1 s1 m1 net2 ign nats where
      "dispatch_loop init grant ms task requests [] [] (d, s, m, net1) = Inr ((d1, s1, m1, net2), ign, nats)"
      "s' = append_resps nats s1"
    using assms by (auto simp: process_packets_def dispatch_requests_def)
  then show ?thesis using grows_trans [OF dispatch_loop_grows, of init grant ms task requests] grows_simps(2) by metis
qed

lemma Dispatch_run_grows:
  assumes "Dispatch_run init grant ms task d (s, m, net) = Inr (d', r, s', m', net')"
  shows "grows s s'"
proof -
  have s1: "grows s (s\<lparr>responses := []\<rparr>)" by (simp add: grows_def)
  obtain d1 d2 m1 m2 net2 n where p: "Dispatch_poll init grant ms task (d1, s, m1, net) = Inr ((d2, s', m2, net2), n)"
    using assms by (auto simp: Dispatch_run_def rdtsc_def Let_def)
  have pp: "process_packets init grant ms task ps (d1, s\<lparr>responses := []\<rparr>, m1, net1) = Inr ((d2, s', m2, net2), n) \<Longrightarrow> grows s s'"
    for ps d1 m1 net1 using grows_trans [OF s1 process_packets_grows] by blast
  show ?thesis
    using p s1
    by (auto simp: Dispatch_poll_def take_responses_def try_receive_packets_def try_steal_packets_def Let_def dest: pp
        split: prod.splits option.splits list.splits)
qed

interpretation srv: cooperative_tasks "any_impl init ms co"
  for init :: "'p \<Rightarrow> ctxt \<Rightarrow> ('h \<times> ctxt) rust" and ms :: "'p master" and co :: "(native_gen, 'h) code"
proof unfold_locales
  fix t t' :: "'h any_task" and r m m' and s s' :: "'h any_task round_robin"
  assume run: "t_run (any_impl init ms co) t (s, m) = Inr (t', r, s', m')"
  have "grows s s'"
  proof (cases t)
    case (DispatchTask d)
    then show ?thesis using run Dispatch_run_grows by (cases m, cases m') (auto simp: any_impl_def)
  next
    case (RequestTask q)
    then show ?thesis using run server_run_sched by (cases m) (fastforce simp: any_impl_def)
  qed
  then show "\<exists>new. waiting s' = waiting s @ new \<and> compromised s' = compromised s" by (auto simp: grows_def)
next
  fix t t' :: "'h any_task" and m m' pk and s s' :: "'h any_task round_robin"
  assume "t_tear (any_impl init ms co) t (s, m) = Inr (t', (s', m'), pk)"
  then have "s' = s" using server_tear_sched by (cases t; cases m) (fastforce simp: any_impl_def)+
  then show "waiting s' = waiting s \<and> compromised s' = compromised s" by simp
qed

end
