(* ===== verification/Server.thy ===== *)
theory Server
  imports Dispatch
begin

text \<open>
  The server as a whole: a scheduler whose queue holds a dispatcher and the tasks it makes of requests.
  \<open>turn_dispatch\<close> and \<open>turn_native\<close> are the turns of the scheduler for these two kinds of task; the properties
  follow a request from the received frame to the frame that is sent back, and say what becomes
  of requests the server does not accept.
\<close>

section \<open>Turns of the scheduler\<close>

lemma turn_dispatch:
  assumes "waiting s = DispatchTask d # rest" and "\<not> compromised s" and "\<not> f_pushback ft"
    and "Dispatch_run init (co_grant co) ms RequestTask d (s\<lparr>latest := t, waiting := rest\<rparr>, m, net) =
      Inr (d', (YIELDED, e), s', m', net')"
  shows "poll_step (any_impl init ms co) ft credit t prev (s, m, net) =
    Inr ((s'\<lparr>waiting := waiting s' @ [DispatchTask d']\<rparr>, m', net'), if d_priority d = DISPATCH then t else prev, True)"
  using assms by (simp add: poll_step_def any_impl_def Let_def)

lemma turn_native:
  assumes "waiting s = RequestTask (NativeTask n) # rest" and "\<not> compromised s" and "\<not> f_pushback ft"
    and "runnable (n_state n)" and "n_priority n = REQUEST"
    and "co_native co (n_gen n) (m\<lparr>ticks := ticks m + 2\<rparr>) = Inr (g', GenComplete (Some (req, res)), m')"
    and "fixup_header_length_fields res = Inr p"
  shows "poll_step (any_impl init ms co) ft credit t prev (s, m, net) =
    Inr ((count_completed ft (s\<lparr>latest := t, waiting := rest, responses := responses s @ [p]\<rparr>), m', net), prev, True)"
  using assms
  by (simp add: poll_step_def any_impl_def server_impl_def rdtsc_def Native_run_def Native_tear_def emit_def Let_def)

text \<open>A dispatcher that finds one packet and has nothing to send.\<close>

lemma dispatch_receives:
  assumes "responses s = []" and "net_rx net (net_rxs net) = Some [mb]"
    and "process_packets init grant ms task [packet_from_mbuf_no_increment NullHeader mb 0]
      (d\<lparr>d_state := RUNNING\<rparr>, s, m\<lparr>ticks := ticks m + 1\<rparr>, net\<lparr>net_rxs := net_rxs net + 1\<rparr>) = Inr ((d', s', m', net'), k)"
  shows "\<exists>e. Dispatch_run init grant ms task d (s, m, net) =
    Inr (d'\<lparr>d_state := YIELDED, d_time := d_time d' + e\<rparr>, (YIELDED, e), s', m'\<lparr>ticks := ticks m' + 1\<rparr>, net')"
proof -
  have same: "s\<lparr>responses := []\<rparr> = s" using assms(1) by (cases s) simp
  show ?thesis
    using assms(2,3)
    by (simp add: Dispatch_run_def Dispatch_poll_def rdtsc_def take_responses_def assms(1) same try_receive_packets_def try_steal_packets_def Let_def)
qed

text \<open>A dispatcher that sends the pending response and finds nothing to receive.\<close>

lemma dispatch_sends:
  assumes "responses s = [p]" and "net_tx net (net_txs net) = Some sent" and "sent \<noteq> 0"
    and "d_responses_sent d + 1 < 1000000"
    and "net_rx net (net_rxs net) = Some []" and "net_rx net (net_rxs net + 1) = Some []"
  shows "\<exists>e. Dispatch_run init grant ms task d (s, m, net) =
    Inr (d\<lparr>d_responses_sent := d_responses_sent d + 1, d_state := YIELDED, d_time := d_time d + e\<rparr>, (YIELDED, e),
      s\<lparr>responses := []\<rparr>, m\<lparr>ticks := ticks m + 2\<rparr>,
      net\<lparr>wire := wire net @ [p], net_txs := net_txs net + 1, net_rxs := net_rxs net + 2\<rparr>)"
proof -
  have "take (unat sent) [p] = [p]" using assms(3) by (cases "unat sent") (simp_all add: unat_eq_0)
  then show ?thesis
    using assms
    by (simp add: Dispatch_run_def Dispatch_poll_def rdtsc_def take_responses_def try_send_packets_def try_receive_packets_def try_steal_packets_def
        Let_def not_le)
qed

section \<open>A request, answered\<close>

lemma reply_bytes_state [simp]: "reply_bytes (d\<lparr>d_state := st\<rparr>) = reply_bytes d"
  by (rule ext)+ (simp add: reply_bytes_def reply_mac_def reply_ip_def reply_udp_def)

text \<open>A server with an idle dispatcher, a network that has one frame for it, and buffers for a response.\<close>

definition idle_server :: "dispatcher \<Rightarrow> 'h any_task round_robin \<Rightarrow> bool" where
  "idle_server d s \<longleftrightarrow> waiting s = [DispatchTask d] \<and> responses s = [] \<and> \<not> compromised s \<and>
     plain_network (d_mac d) (d_ip d) \<and> d_responses_sent d + 1 < 1000000"

definition one_frame :: "network \<Rightarrow> mbuf \<Rightarrow> mbuf \<Rightarrow> bool" where
  "one_frame net mb mb2 \<longleftrightarrow>
     net_rx net (net_rxs net) = Some [mb] \<and> net_rx net (net_rxs net + 1) = Some [] \<and> net_rx net (net_rxs net + 2) = Some [] \<and>
     net_pool net (net_allocs net) = Some mb2 \<and> fresh_mbuf 42 mb2 \<and>
     (\<exists>sent. net_tx net (net_txs net) = Some sent \<and> sent \<noteq> 0)"

text \<open>The frame of the response: the request's addresses and ports swapped, then the body.\<close>

definition response_frame :: "dispatcher \<Rightarrow> mac_header \<Rightarrow> ip_header \<Rightarrow> udp_header \<Rightarrow> byte_string \<Rightarrow> byte_string" where
  "response_frame d mac ip udp out =
     request_bytes (reply_mac d mac) (reply_ip d ip) (set_src_port (dst_port udp) (d_udp d)) (src_port udp) out"

lemma first_turn:
  assumes "idle_server d s" and "one_frame net mb mb2" and "\<not> f_pushback ft" and "addressed_to (d_ip_addr d) mac ip"
    and "view_at NullHeader 0 (request_bytes mac ip udp dst (hdr @ pay)) rq (packet_from_mbuf_no_increment NullHeader mb 0)"
    and "hdr = enc_request h @ rest" and "rq_service h = MasterService" and "length (hdr @ pay) < 65508"
    and "\<And>req res. handed 34 hdr pay req 34 (reply_bytes d mac ip (set_dst_port dst udp)) (pkt_tailroom mb2 - 42) res \<Longrightarrow>
      \<exists>g. Master_dispatch init (rq_opcode h) ms req res = Inr (Inr (NativeTask (Native_new REQUEST g))) \<and> answers g"
  shows "\<exists>g d1 s1 prev1. answers g \<and> poll_step (any_impl init ms co) ft credit t prev (s, m, net) =
      Inr ((s1, m\<lparr>ticks := ticks m + 2\<rparr>, net\<lparr>net_rxs := net_rxs net + 1, net_allocs := net_allocs net + 1\<rparr>), prev1, True) \<and>
    waiting s1 = [RequestTask (NativeTask (Native_new REQUEST g)), DispatchTask d1] \<and> responses s1 = [] \<and>
    \<not> compromised s1 \<and> d_responses_sent d1 = d_responses_sent d"
proof -
  let ?d = "d\<lparr>d_state := RUNNING\<rparr>" and ?s = "s\<lparr>latest := t, waiting := []\<rparr>" and ?m = "m\<lparr>ticks := ticks m + 1\<rparr>"
  let ?net = "net\<lparr>net_rxs := net_rxs net + 1\<rparr>" and ?net2 = "net\<lparr>net_rxs := net_rxs net + 1, net_allocs := net_allocs net + 1\<rparr>"
  have idle: "waiting s = [DispatchTask d]" "responses s = []" "\<not> compromised s" "plain_network (d_mac d) (d_ip d)"
    using assms(1) by (simp_all add: idle_server_def)
  have pre: "addressed_to (d_ip_addr ?d) mac ip" "plain_network (d_mac ?d) (d_ip ?d)"
      "net_pool ?net (net_allocs ?net) = Some mb2" "fresh_mbuf 42 mb2" "?net2 = ?net\<lparr>net_allocs := net_allocs ?net + 1\<rparr>"
    using assms(2,4) idle(4) by (simp_all add: one_frame_def)
  obtain req res where h: "handed 34 hdr pay req 34 (reply_bytes d mac ip (set_dst_port dst udp)) (pkt_tailroom mb2 - 42) res"
      "process_packets init (co_grant co) ms RequestTask [packet_from_mbuf_no_increment NullHeader mb 0] (?d, ?s, ?m, ?net) =
        rbind (Master_dispatch init (rq_opcode h) ms req res) (\<lambda>r. case r of
            Inr t \<Rightarrow> Inr ((addressed ?d mac ip, enqueue (RequestTask t) ?s, ?m, ?net2), 1)
          | Inl (a, b) \<Rightarrow> Inr ((addressed ?d mac ip, ?s, ?m, free_packets [a, b] ?net2), 1))"
    using process_request [OF pre(1,2) assms(5-8) pre(3-5), of init "co_grant co" ms RequestTask ?s ?m]
    unfolding reply_bytes_state by blast
  obtain g where g: "Master_dispatch init (rq_opcode h) ms req res = Inr (Inr (NativeTask (Native_new REQUEST g)))" "answers g"
    using assms(9) [OF h(1)] by blast
  let ?s1 = "enqueue (RequestTask (NativeTask (Native_new REQUEST g))) ?s"
  have "process_packets init (co_grant co) ms RequestTask [packet_from_mbuf_no_increment NullHeader mb 0] (?d, ?s, ?m, ?net) =
      Inr ((addressed ?d mac ip, ?s1, ?m, ?net2), 1)"
    unfolding h(2) g(1) by simp
  moreover have "responses ?s = []" "net_rx net (net_rxs net) = Some [mb]"
    using idle(2) assms(2) by (simp_all add: one_frame_def)
  ultimately obtain e where run: "Dispatch_run init (co_grant co) ms RequestTask d (?s, m, net) =
      Inr ((addressed ?d mac ip)\<lparr>d_state := YIELDED, d_time := d_time (addressed ?d mac ip) + e\<rparr>, (YIELDED, e), ?s1,
        m\<lparr>ticks := ticks m + 2\<rparr>, ?net2)"
    using dispatch_receives [of ?s net mb init "co_grant co" ms RequestTask d m] by fastforce
  show ?thesis
    using turn_dispatch [OF idle(1,3) assms(3) run] g(2) idle(2,3)
    by (auto simp: enqueue_def addressed_def)
qed

lemma count_completed_queues [simp]:
  "waiting (count_completed ft s) = waiting s" "responses (count_completed ft s) = responses s"
  "compromised (count_completed ft s) = compromised s"
  by (simp_all add: count_completed_def Let_def)

text \<open>Three turns of the scheduler: the dispatcher receives the request, its task runs to the end, the
  dispatcher sends the response. \<open>answers\<close> says what the task leaves in the response and in the machine.\<close>

definition answers ::
    "(usize \<Rightarrow> usize) \<Rightarrow> machine \<Rightarrow> byte_string \<Rightarrow> byte_string \<Rightarrow> machine \<Rightarrow> native_gen \<Rightarrow> bool" where
  "answers grant m frr out m' g \<longleftrightarrow>
     (\<exists>g' req' res' r'. run_native_gen grant g m = Inr (g', GenComplete (Some (req', res')), m') \<and>
        view_at UdpHeader 34 (frr @ out) r' res')"

lemma request_answered:
  assumes "idle_server d s" and "one_frame net mb mb2" and "\<not> f_pushback ft" and "addressed_to (d_ip_addr d) mac ip"
    and "view_at NullHeader 0 (request_bytes mac ip udp dst (hdr @ pay)) rq (packet_from_mbuf_no_increment NullHeader mb 0)"
    and "hdr = enc_request h @ rest" and "rq_service h = MasterService" and "length (hdr @ pay) < 65508"
    and "co_native co = run_native_gen (co_grant co)"
    and "\<And>req res. handed 34 hdr pay req 34 (reply_bytes d mac ip (set_dst_port dst udp)) (pkt_tailroom mb2 - 42) res \<Longrightarrow>
      \<exists>g. Master_dispatch init (rq_opcode h) ms req res = Inr (Inr (NativeTask (Native_new REQUEST g))) \<and>
        (\<exists>out m'. outcome out m' \<and>
          answers (co_grant co) (m\<lparr>ticks := ticks m + 4\<rparr>) (reply_bytes d mac ip (set_dst_port dst udp)) out m' g)"
  shows "\<exists>out m' s' net' prev' d' p. outcome out m' \<and> poll (any_impl init ms co) ft credit [t1, t2, t3] prev (s, m, net) =
      Inr ((s', m'\<lparr>ticks := ticks m' + 2\<rparr>, net'), prev', True) \<and>
    waiting s' = [DispatchTask d'] \<and> responses s' = [] \<and> wire net' = wire net @ [p] \<and>
    frame p = response_frame d mac ip (set_dst_port dst udp) out"
proof -
  let ?udp = "set_dst_port dst udp"
  let ?net = "net\<lparr>net_rxs := net_rxs net + 1, net_allocs := net_allocs net + 1\<rparr>"
  obtain g d1 s1 prev1 out m' where t1: "answers (co_grant co) (m\<lparr>ticks := ticks m + 4\<rparr>) (reply_bytes d mac ip ?udp) out m' g"
      "poll_step (any_impl init ms co) ft credit t1 prev (s, m, net) = Inr ((s1, m\<lparr>ticks := ticks m + 2\<rparr>, ?net), prev1, True)"
      "waiting s1 = [RequestTask (NativeTask (Native_new REQUEST g)), DispatchTask d1]" "responses s1 = []"
      "\<not> compromised s1" "d_responses_sent d1 = d_responses_sent d"
      and outcome: "outcome out m'"
    using first_turn [OF assms(1-8,10)] by blast
  obtain g' req' res' r' where gen: "run_native_gen (co_grant co) g (m\<lparr>ticks := ticks m + 4\<rparr>) =
        Inr (g', GenComplete (Some (req', res')), m')" "view_at UdpHeader 34 (reply_bytes d mac ip ?udp @ out) r' res'"
    using t1(1) by (auto simp: answers_def)
  have plain: "plain_network (reply_mac d mac) (reply_ip d ip)"
    using assms(1,4) by (intro reply_plain) (simp_all add: idle_server_def addressed_to_def)
  obtain p where p: "fixup_header_length_fields res' = Inr p" "view_at IpHeader 14 (response_frame d mac ip ?udp out) r' p"
    using fixup_view [OF plain, of "src_port ?udp" "set_src_port (dst_port ?udp) (d_udp d)" out r' res'] gen(2)
    by (auto simp: reply_bytes_def reply_udp_def response_frame_def)
  let ?s2 = "count_completed ft (s1\<lparr>latest := t2, waiting := [DispatchTask d1], responses := responses s1 @ [p]\<rparr>)"
  have t2: "poll_step (any_impl init ms co) ft credit t2 prev1 (s1, m\<lparr>ticks := ticks m + 2\<rparr>, ?net) =
      Inr ((?s2, m', ?net), prev1, True)"
    using gen(1) by (intro turn_native [OF t1(3,5) assms(3) _ _ _ p(1), where g' = g' and req = req'])
      (simp_all add: Native_new_def runnable_def assms(9) add.commute [of 4] del: add_2_eq_Suc')
  obtain sent where sent: "net_tx net (net_txs net) = Some sent" "sent \<noteq> 0" using assms(2) by (auto simp: one_frame_def)
  obtain e where run: "Dispatch_run init (co_grant co) ms RequestTask d1 (?s2\<lparr>latest := t3, waiting := []\<rparr>, m', ?net) =
      Inr (d1\<lparr>d_responses_sent := d_responses_sent d1 + 1, d_state := YIELDED, d_time := d_time d1 + e\<rparr>, (YIELDED, e),
        ?s2\<lparr>latest := t3, waiting := [], responses := []\<rparr>, m'\<lparr>ticks := ticks m' + 2\<rparr>,
        ?net\<lparr>wire := wire ?net @ [p], net_txs := net_txs ?net + 1, net_rxs := net_rxs ?net + 2\<rparr>)"
    using dispatch_sends [of "?s2\<lparr>latest := t3, waiting := []\<rparr>" p ?net sent d1 init "co_grant co" ms RequestTask m'] sent assms(1,2) t1(4,6)
    by (auto simp: one_frame_def idle_server_def)
  have "waiting ?s2 = [DispatchTask d1]" "\<not> compromised ?s2" using t1(5) by simp_all
  note t3 = turn_dispatch [OF this assms(3) run, of credit prev1]
  show ?thesis
    using t1(2) t2 t3 view_atD(4) [OF p(2)] outcome by auto
qed

text \<open>A get request that is shorter than its key.\<close>

lemma Master_get_rejects:
  assumes "handed i (enc_get_request q) pay req j frr r res" and "18 \<le> r" and "length pay < unat (gq_key_length q)"
  shows "\<exists>req' res'. Master_get ms req res = Inr (Inl (req', res')) \<and>
    get_payload res' = Inr (enc_get_response ((GetResponse_new (rq_stamp q) SandstormGetRpc (rq_tenant q))
      \<lparr>rs_status := StatusMalformedRequest\<rparr>))"
proof -
  let ?h = "GetResponse_new (rq_stamp q) SandstormGetRpc (rq_tenant q)"
  obtain fr rq where v: "view_at UdpHeader i fr rq req" "drop (i + 8) fr = enc_get_request q @ pay"
      "view_at UdpHeader j frr r res" "length frr = j + 8"
    using assms(1) by (auto simp: handed_def)
  obtain p where p: "parse_header GetRequest req = Inr p" "view_at GetRequest (i + 8) fr rq p"
      "get_header p = Inr (enc_get_request q)" "get_payload p = Inr pay"
    using request_view [OF v(1,2), of GetRequest] by auto
  obtain s where s: "push_response GetResponse (enc_get_response ?h) res = Inr s"
      "view_at GetResponse (j + 8) (frr @ enc_get_response ?h) (r - 18) s"
    using push_response_view [OF v(3,4), of "enc_get_response ?h" GetResponse] assms(2) by auto
  obtain s' where s': "modify_header (set_status StatusMalformedRequest) s = Inr s'"
      "view_at GetResponse (j + 8) (frr @ enc_get_response (?h\<lparr>rs_status := StatusMalformedRequest\<rparr>) @ []) (r - 18) s'"
    using modify_pushed_view [of GetResponse "j + 8" frr "enc_get_response ?h" "[]" "r - 18" s "set_status StatusMalformedRequest"]
      s(2) v(4) by (auto simp: set_status_enc_get)
  obtain req' res' where f: "finish p s' = Inr (req', res')"
      "view_at UdpHeader j (frr @ enc_get_response (?h\<lparr>rs_status := StatusMalformedRequest\<rparr>) @ []) (r - 18) res'"
    using finish_view [OF p(2) _ s'(2)] by auto
  have "Master_get ms req res = Inr (Inl (req', res'))"
    using assms(3) by (simp add: Master_get_def p s(1) header_fields_get malformed_def s'(1) f(1) Let_def)
  then show ?thesis using handed_payload [OF assms(1) f(2)] by simp
qed

section \<open>Properties\<close>




text \<open>The parsing stages keep and free. What comes out of \<open>parse_mac_headers\<close>, \<open>parse_ip_headers\<close> or
  \<open>parse_udp_headers\<close> are exactly the packets whose header is valid, in the opposite order; every
  other packet is freed.\<close>

lemma parsing_partitions:
  assumes "parse_headers ty valid packets net = Inr (kept, net')"
  shows "\<exists>qs. list_all2 (\<lambda>p q. parse_header ty p = Inr q) (rev packets) qs \<and>
    kept = filter (has_header valid) qs \<and>
    net' = net\<lparr>freed := freed net @ rev (filter (\<lambda>q. \<not> has_header valid q) qs)\<rparr>"
proof -
  obtain ignored where "parse_stage ty valid (rev packets) [] [] = Inr (kept, ignored)" "net' = free_packets ignored net"
    using assms by (auto simp: parse_headers_def)
  then show ?thesis using parse_stage_filter [of ty valid "rev packets" "[]" "[]" kept ignored] by (auto simp: free_packets_def)
qed

text \<open>A request the service rejects is never answered. A get request whose payload is shorter than its key
  is given the status \<open>StatusMalformedRequest\<close> by its handler, but the dispatcher frees that response
  with the request: no task is queued, no response is queued, nothing is sent.\<close>

lemma malformed_get_unanswered:
  assumes "addressed_to (d_ip_addr d) mac ip" and "plain_network (d_mac d) (d_ip d)"
    and "view_at NullHeader 0 (request_bytes mac ip udp dst (enc_get_request q @ pay)) rq p"
    and "rq_service q = MasterService" and "rq_opcode q = SandstormGetRpc" and "length pay < unat (gq_key_length q)"
    and "net_pool net (net_allocs net) = Some mb" and "fresh_mbuf 60 mb" and "length pay < 65000"
  shows "\<exists>req res. process_packets init grant ms task [p] (d, s, m, net) =
      Inr ((addressed d mac ip, s, m, free_packets [req, res] (net\<lparr>net_allocs := net_allocs net + 1\<rparr>)), 1) \<and>
    get_payload res = Inr (enc_get_response ((GetResponse_new (rq_stamp q) SandstormGetRpc (rq_tenant q))
      \<lparr>rs_status := StatusMalformedRequest\<rparr>))"
proof -
  let ?frr = "reply_bytes d mac ip (set_dst_port dst udp)"
  have hdr: "enc_get_request q = enc_request q @ drop 14 (enc_get_request q)" by (simp add: enc_get_request_def)
  have len: "length (enc_get_request q @ pay) < 65508" using assms(9) by simp
  have "60 \<le> pkt_tailroom mb" using assms(8) by (simp add: fresh_mbuf_def)
  then have mb: "fresh_mbuf 42 mb" "18 \<le> pkt_tailroom mb - 42" using assms(8) by (auto simp: fresh_mbuf_def)
  obtain req res where h: "handed 34 (enc_get_request q) pay req 34 ?frr (pkt_tailroom mb - 42) res"
      "process_packets init grant ms task [p] (d, s, m, net) =
        rbind (Master_dispatch init (rq_opcode q) ms req res) (\<lambda>r. case r of
          Inr t \<Rightarrow> Inr ((addressed d mac ip, enqueue (task t) s, m, net\<lparr>net_allocs := net_allocs net + 1\<rparr>), 1)
        | Inl (a, b) \<Rightarrow> Inr ((addressed d mac ip, s, m, free_packets [a, b] (net\<lparr>net_allocs := net_allocs net + 1\<rparr>)), 1))"
    using process_request [OF assms(1,2,3) hdr assms(4) len assms(7) mb(1) refl, of init grant ms task s m] by blast
  obtain req' res' where rej: "Master_get ms req res = Inr (Inl (req', res'))"
      "get_payload res' = Inr (enc_get_response ((GetResponse_new (rq_stamp q) SandstormGetRpc (rq_tenant q))
        \<lparr>rs_status := StatusMalformedRequest\<rparr>))"
    using Master_get_rejects [OF h(1) mb(2) assms(6), of ms] by blast
  have "process_packets init grant ms task [p] (d, s, m, net) =
      Inr ((addressed d mac ip, s, m, free_packets [req', res'] (net\<lparr>net_allocs := net_allocs net + 1\<rparr>)), 1)"
    unfolding h(2) using assms(5) by (simp add: Master_dispatch_def rej(1) boxed_def)
  then show ?thesis using rej(2) by blast
qed


section \<open>Witnesses\<close>

definition wit_ip :: ip_header where
  "wit_ip = set_ttl 1 (set_ip_dst 9 demo_ip)"

definition wit_dispatcher :: dispatcher where
  "wit_dispatcher = \<lparr>d_ip_addr = 9, d_udp = UdpHeader_new, d_ip = demo_ip, d_mac = demo_mac, d_responses_sent = 0,
     d_start = 0, d_stop = 0, d_state = INITIALIZED, d_time = 0, d_priority = DISPATCH, d_id = 0\<rparr>"

definition wit_frame :: "byte_string \<Rightarrow> mbuf" where
  "wit_frame bs = p_mbuf (demo_packet NullHeader bs)"

definition wit_network :: "mbuf \<Rightarrow> network" where
  "wit_network mb = \<lparr>net_rx = (\<lambda>k. if k = 0 then Some [mb] else Some []), net_rxs = 0, net_tx = (\<lambda>k. Some 1), net_txs = 0,
     net_pool = (\<lambda>k. Some demo_mbuf), net_allocs = 0, wire = [], freed = []\<rparr>"

definition wit_server :: "unit any_task round_robin" where
  "wit_server = enqueue (DispatchTask wit_dispatcher) (RoundRobin_new 0 0 0)"

definition wit_server_code :: "(native_gen, unit) code" where
  "wit_server_code = server_code (\<lambda>n. n) (\<lambda>g c w. (g, ExtPanic, c, w)) (\<lambda>_. True)"

abbreviation wit_impl :: "(unit any_task, unit any_task round_robin \<times> machine \<times> network) task_impl" where
  "wit_impl \<equiv> any_impl (\<lambda>p c. Inl ExplicitPanic) wit_master wit_server_code"

lemma wit_addressed: "addressed_to (d_ip_addr wit_dispatcher) demo_mac wit_ip"
proof -
  have "plain_network demo_mac wit_ip"
    using demo_plain by (simp add: plain_network_def wit_ip_def ip_fields)
  moreover have "etype demo_mac = 0x0800" by (simp add: etype_def demo_mac_def set_etype_def)
  moreover have "version wit_ip = version demo_ip" by (simp add: wit_ip_def version_def set_ttl_def set_ip_dst_def)
  then have "version wit_ip = 4" by (simp add: demo_ip_def ip_fields)
  moreover have "ttl wit_ip = 1" by (simp add: wit_ip_def ip_fields)
  moreover have "ip_dst wit_ip = 9" by (simp add: wit_ip_def ip_dst_def set_ip_dst_def set_ttl_def)
  ultimately show ?thesis by (simp add: addressed_to_def wit_dispatcher_def)
qed

lemma wit_plain: "plain_network (d_mac wit_dispatcher) (d_ip wit_dispatcher)"
  using demo_plain by (simp add: wit_dispatcher_def)

lemma wit_idle: "idle_server wit_dispatcher wit_server"
  using wit_plain by (simp add: idle_server_def wit_server_def enqueue_def RoundRobin_new_def) (simp add: wit_dispatcher_def)

lemma wit_one_frame: "one_frame (wit_network mb) mb demo_mbuf"
  using demo_fresh [of 42] by (simp add: one_frame_def wit_network_def)

lemma wit_network_wire: "wire (wit_network mb) = []"
  by (simp add: wit_network_def)

lemma wit_frame_view:
  assumes "length bs \<le> 1024"
  shows "view_at NullHeader 0 bs (1024 - length bs) (packet_from_mbuf_no_increment NullHeader (wit_frame bs) 0)"
proof -
  have "packet_from_mbuf_no_increment NullHeader (wit_frame bs) 0 = demo_packet NullHeader bs"
    by (simp add: packet_from_mbuf_no_increment_def wit_frame_def demo_packet_def data_address_def demo_mbuf_def)
  then show ?thesis using demo_packet_view [OF assms, of NullHeader] by simp
qed

lemma wit_request_length: "length (request_bytes demo_mac wit_ip UdpHeader_new 0 body) = 42 + length body"
  using plain_offsets(3) [OF demo_plain] by (simp add: request_parts)



end
