(* ===== verification/Client.thy ===== *)
theory Client
  imports Server
begin

unbundle bit_operations_syntax

text \<open>
  The network stack of a client: \<open>splinter/src/dispatch.rs\<close>. A \<open>Sender\<close> builds requests and puts them on the wire,
  a \<open>Receiver\<close> polls for responses and parses them up to UDP. Ports and memory pool are the trace
  \<open>network\<close> of the theory \<open>Dispatch\<close>; the number of the transmit queue of the port and the parsed
  addresses of the configuration are arguments.
\<close>

section \<open>Sending\<close>

record sender =
  s_udp :: udp_header
  s_ip :: ip_header
  s_mac :: mac_header
  s_requests_sent :: u64
  s_dst_ports :: u16

definition Sender_new ::
    "u16 \<Rightarrow> u32 option \<Rightarrow> u32 option \<Rightarrow> mac_address \<Rightarrow> mac_address \<Rightarrow> u16 \<Rightarrow> sender rust" where
  "Sender_new txq ip_address server_ip mac server_mac dst_ports =
     rbind (expect ip_address) (\<lambda>ip_src_addr. rbind (expect server_ip) (\<lambda>ip_dst_addr.
     let udp = set_checksum 0 (set_udp_length 8 (set_dst_port 0 (set_src_port txq UdpHeader_new)));
         ip = set_protocol 0x11 (set_ip_length 20 (set_ihl 5 (set_version 4 (set_ttl 128
                (set_ip_dst ip_dst_addr (set_ip_src ip_src_addr IpHeader_new))))));
         mh = set_etype 0x0800 (MacHeader_new\<lparr>mac_src := mac, mac_dst := server_mac\<rparr>)
     in Inr \<lparr>s_udp = udp, s_ip = ip, s_mac = mh, s_requests_sent = 0, s_dst_ports = dst_ports\<rparr>))"

definition get_dst_port :: "u32 \<Rightarrow> sender \<Rightarrow> u16" where
  "get_dst_port tenant s = ucast (tenant AND 0xffff) AND (s_dst_ports s - 1)"

definition send_req :: "packet \<Rightarrow> sender \<times> network \<Rightarrow> (sender \<times> network) rust" where
  "send_req request sn =
     (let (s, net) = sn
      in rbind (expect (net_tx net (net_txs net))) (\<lambda>sent.
           Inr (s\<lparr>s_requests_sent := s_requests_sent s + 1\<rparr>,
                net\<lparr>wire := wire net @ take (unat sent) [request], net_txs := net_txs net + 1\<rparr>)))"

text \<open>Every request starts with a packet from the memory pool.\<close>

definition with_alloc :: "(mbuf option \<Rightarrow> packet rust) \<Rightarrow> sender \<times> network \<Rightarrow> (packet \<times> sender \<times> network) rust" where
  "with_alloc create sn =
     (let (s, net) = sn
      in rbind (create (net_pool net (net_allocs net))) (\<lambda>p.
           Inr (p, s, net\<lparr>net_allocs := net_allocs net + 1\<rparr>)))"

definition send_get :: "u32 \<Rightarrow> u64 \<Rightarrow> byte_string \<Rightarrow> u64 \<Rightarrow> sender \<times> network \<Rightarrow> (sender \<times> network) rust" where
  "send_get tenant table key i sn =
     (let s = fst sn
      in rbind (with_alloc (\<lambda>mb. create_get_rpc mb (s_mac s) (s_ip s) (s_udp s) tenant table key i
                  (get_dst_port tenant s) SandstormClient) sn) (\<lambda>(p, sn). send_req p sn))"

definition send_get_from_extension ::
    "u32 \<Rightarrow> u64 \<Rightarrow> byte_string \<Rightarrow> u64 \<Rightarrow> sender \<times> network \<Rightarrow> (sender \<times> network) rust" where
  "send_get_from_extension tenant table key i sn =
     (let s = fst sn
      in rbind (with_alloc (\<lambda>mb. create_get_rpc mb (s_mac s) (s_ip s) (s_udp s) tenant table key i
                  (get_dst_port tenant s) SandstormExtension) sn) (\<lambda>(p, sn). send_req p sn))"

definition send_put ::
    "u32 \<Rightarrow> u64 \<Rightarrow> byte_string \<Rightarrow> byte_string \<Rightarrow> u64 \<Rightarrow> sender \<times> network \<Rightarrow> (sender \<times> network) rust" where
  "send_put tenant table key val i sn =
     (let s = fst sn
      in rbind (with_alloc (\<lambda>mb. create_put_rpc mb (s_mac s) (s_ip s) (s_udp s) tenant table key val i
                  (get_dst_port tenant s)) sn) (\<lambda>(p, sn). send_req p sn))"

definition send_multiget ::
    "u32 \<Rightarrow> u64 \<Rightarrow> u16 \<Rightarrow> u32 \<Rightarrow> byte_string \<Rightarrow> u64 \<Rightarrow> sender \<times> network \<Rightarrow> (sender \<times> network) rust" where
  "send_multiget tenant table k_len n_keys keys i sn =
     (let s = fst sn
      in rbind (with_alloc (\<lambda>mb. create_multiget_rpc mb (s_mac s) (s_ip s) (s_udp s) tenant table k_len n_keys keys i
                  (get_dst_port tenant s)) sn) (\<lambda>(p, sn). send_req p sn))"

definition send_invoke :: "u32 \<Rightarrow> u32 \<Rightarrow> byte_string \<Rightarrow> u64 \<Rightarrow> sender \<times> network \<Rightarrow> (sender \<times> network) rust" where
  "send_invoke tenant name_len pay i sn =
     (let s = fst sn
      in rbind (with_alloc (\<lambda>mb. create_invoke_rpc mb (s_mac s) (s_ip s) (s_udp s) tenant name_len pay i
                  (get_dst_port tenant s)) sn) (\<lambda>(p, sn). send_req p sn))"

definition send_commit ::
    "u32 \<Rightarrow> u64 \<Rightarrow> byte_string \<Rightarrow> u64 \<Rightarrow> u16 \<Rightarrow> u16 \<Rightarrow> sender \<times> network \<Rightarrow> (sender \<times> network) rust" where
  "send_commit tenant table_id pay i key_len val_len sn =
     (let s = fst sn
      in rbind (with_alloc (\<lambda>mb. create_commit_rpc mb (s_mac s) (s_ip s) (s_udp s) tenant table_id pay i
                  (get_dst_port tenant s) key_len val_len) sn) (\<lambda>(p, sn). send_req p sn))"

section \<open>Receiving\<close>

text \<open>The only state of a \<open>Receiver\<close> is its count of receive calls that returned packets.\<close>

fun parse_all :: "mbuf list \<Rightarrow> packet list rust" where
  "parse_all [] = Inr []"
| "parse_all (mb # ms) =
     rbind (parse_header MacHeader (packet_from_mbuf_no_increment NullHeader mb 0)) (\<lambda>p.
     rbind (parse_header IpHeader p) (\<lambda>p.
     rbind (parse_header UdpHeader p) (\<lambda>p.
     rbind (parse_all ms) (\<lambda>ps. Inr (p # ps)))))"

definition recv_res :: "u64 \<times> network \<Rightarrow> (packet list option \<times> u64 \<times> network) rust" where
  "recv_res rn =
     (let (responses_recv, net) = rn
      in rbind (expect (net_rx net (net_rxs net))) (\<lambda>mbufs.
         let net = net\<lparr>net_rxs := net_rxs net + 1\<rparr>
         in if mbufs = [] then Inr (None, responses_recv, net)
            else rbind (parse_all mbufs) (\<lambda>packets. Inr (Some packets, responses_recv + 1, net))))"


section \<open>What a sent request looks like\<close>

text \<open>A network with a buffer for a packet with \<open>n\<close> bytes that accepts one packet.\<close>

definition can_send :: "usize \<Rightarrow> network \<Rightarrow> bool" where
  "can_send n net \<longleftrightarrow>
     (\<exists>mb. net_pool net (net_allocs net) = Some mb \<and> fresh_mbuf n mb) \<and>
     (\<exists>sent. net_tx net (net_txs net) = Some sent \<and> sent \<noteq> 0)"

lemma send_req_accepted:
  assumes "net_tx net (net_txs net) = Some sent" and "sent \<noteq> 0"
  shows "send_req p (s, net) = Inr (s\<lparr>s_requests_sent := s_requests_sent s + 1\<rparr>,
    net\<lparr>wire := wire net @ [p], net_txs := net_txs net + 1\<rparr>)"
proof -
  have "unat sent \<noteq> 0" using assms(2) by (simp add: unat_eq_zero)
  then show ?thesis by (cases "unat sent") (simp_all add: send_req_def assms(1))
qed

text \<open>Every request goes out as one frame: the headers of the sender with the destination port of the
  tenant, the header of the procedure, the data.\<close>

lemma send_created:
  assumes "plain_network (s_mac s) (s_ip s)" and "rpc_type ty" and "length hdr = hdr_size ty" and "data \<noteq> []"
    and "can_send (42 + hdr_size ty + length data) net"
    and "\<And>mb. create mb = rbind (create_request mb (s_mac s) (s_ip s) (s_udp s) dst) (finish_request ty hdr data)"
  shows "\<exists>p r net'. rbind (with_alloc create (s, net)) (\<lambda>(p, sn). send_req p sn) =
      Inr (s\<lparr>s_requests_sent := s_requests_sent s + 1\<rparr>, net') \<and>
    wire net' = wire net @ [p] \<and> view_at IpHeader 14 (request_bytes (s_mac s) (s_ip s) (s_udp s) dst (hdr @ data)) r p"
proof -
  obtain mb sent where net: "net_pool net (net_allocs net) = Some mb" "fresh_mbuf (42 + hdr_size ty + length data) mb"
      "net_tx net (net_txs net) = Some sent" "sent \<noteq> 0"
    using assms(5) by (auto simp: can_send_def)
  then obtain p r where p: "create (Some mb) = Inr p"
      "view_at IpHeader 14 (request_bytes (s_mac s) (s_ip s) (s_udp s) dst (hdr @ data)) r p"
    using send_request_view [OF _ _ assms(1-4), of mb "s_udp s" dst] by (auto simp: fresh_mbuf_def assms(6))
  let ?net = "net\<lparr>net_allocs := net_allocs net + 1\<rparr>"
  have "net_tx ?net (net_txs ?net) = Some sent" using net(3) by simp
  note send = send_req_accepted [OF this net(4), of p s]
  show ?thesis using p(2) send by (auto simp: with_alloc_def net(1) p(1))
qed

lemma send_commit_view:
  assumes "plain_network (s_mac s) (s_ip s)" and "pay \<noteq> []" and "length pay \<le> 1436" and "can_send (68 + length pay) net"
  shows "\<exists>p r net'. send_commit tenant table_id pay i kl vl (s, net) =
      Inr (s\<lparr>s_requests_sent := s_requests_sent s + 1\<rparr>, net') \<and> wire net' = wire net @ [p] \<and>
    view_at IpHeader 14 (request_bytes (s_mac s) (s_ip s) (s_udp s) (get_dst_port tenant s)
      (enc_commit_request (CommitRequest_new tenant i table_id kl vl) @ pay)) r p"
proof -
  have "\<not> (0xffff < kl \<and> 0xffff < vl)" using unat_u16_lt [of kl] by (simp add: word_less_nat_alt)
  then have create: "create_commit_rpc mb (s_mac s) (s_ip s) (s_udp s) tenant table_id pay i (get_dst_port tenant s) kl vl =
      rbind (create_request mb (s_mac s) (s_ip s) (s_udp s) (get_dst_port tenant s))
        (finish_request CommitRequest (enc_commit_request (CommitRequest_new tenant i table_id kl vl)) pay)" for mb
    unfolding create_commit_rpc_def using assms(3) by (simp only: if_False not_less [symmetric])
  show ?thesis
    unfolding send_commit_def Let_def fst_conv
    using assms(4) by (intro send_created [OF assms(1) _ _ assms(2) _ create]) simp_all
qed

lemma send_get_from_extension_view:
  assumes "plain_network (s_mac s) (s_ip s)" and "key \<noteq> []" and "length key \<le> 65535" and "can_send (67 + length key) net"
  shows "\<exists>p r net'. send_get_from_extension tenant table_id key i (s, net) =
      Inr (s\<lparr>s_requests_sent := s_requests_sent s + 1\<rparr>, net') \<and> wire net' = wire net @ [p] \<and>
    view_at IpHeader 14 (request_bytes (s_mac s) (s_ip s) (s_udp s) (get_dst_port tenant s)
      (enc_get_request (GetRequest_new tenant table_id (word_of_nat (length key)) i SandstormExtension) @ key)) r p"
  using send_created [OF assms(1), of GetRequest
        "enc_get_request (GetRequest_new tenant table_id (word_of_nat (length key)) i SandstormExtension)" key net
        "\<lambda>mb. create_get_rpc mb (s_mac s) (s_ip s) (s_udp s) tenant table_id key i (get_dst_port tenant s) SandstormExtension"
        "get_dst_port tenant s"] assms(2-4)
  by (simp add: send_get_from_extension_def create_get_rpc_def)

lemma send_get_view:
  assumes "plain_network (s_mac s) (s_ip s)" and "key \<noteq> []" and "length key \<le> 65535" and "can_send (67 + length key) net"
  shows "\<exists>p r net'. send_get tenant table_id key i (s, net) =
      Inr (s\<lparr>s_requests_sent := s_requests_sent s + 1\<rparr>, net') \<and> wire net' = wire net @ [p] \<and>
    view_at IpHeader 14 (request_bytes (s_mac s) (s_ip s) (s_udp s) (get_dst_port tenant s)
      (enc_get_request (GetRequest_new tenant table_id (word_of_nat (length key)) i SandstormClient) @ key)) r p"
  using send_created [OF assms(1), of GetRequest
        "enc_get_request (GetRequest_new tenant table_id (word_of_nat (length key)) i SandstormClient)" key net
        "\<lambda>mb. create_get_rpc mb (s_mac s) (s_ip s) (s_udp s) tenant table_id key i (get_dst_port tenant s) SandstormClient"
        "get_dst_port tenant s"] assms(2-4)
  by (simp add: send_get_def create_get_rpc_def)

lemma send_multiget_view:
  assumes "plain_network (s_mac s) (s_ip s)" and "keys \<noteq> []" and "can_send (70 + length keys) net"
  shows "\<exists>p r net'. send_multiget tenant table_id kl num keys i (s, net) =
      Inr (s\<lparr>s_requests_sent := s_requests_sent s + 1\<rparr>, net') \<and> wire net' = wire net @ [p] \<and>
    view_at IpHeader 14 (request_bytes (s_mac s) (s_ip s) (s_udp s) (get_dst_port tenant s)
      (enc_multiget_request (MultiGetRequest_new tenant table_id kl num i) @ keys)) r p"
  using send_created [OF assms(1), of MultiGetRequest "enc_multiget_request (MultiGetRequest_new tenant table_id kl num i)" keys net
        "\<lambda>mb. create_multiget_rpc mb (s_mac s) (s_ip s) (s_udp s) tenant table_id kl num keys i (get_dst_port tenant s)" "get_dst_port tenant s"]
    assms(2,3)
  by (simp add: send_multiget_def create_multiget_rpc_def)

lemma send_invoke_view:
  assumes "plain_network (s_mac s) (s_ip s)" and "pay \<noteq> []" and "unat name_len \<le> length pay" and "length pay < 2 ^ 32"
    and "can_send (64 + length pay) net"
  shows "\<exists>p r net'. send_invoke tenant name_len pay i (s, net) =
      Inr (s\<lparr>s_requests_sent := s_requests_sent s + 1\<rparr>, net') \<and> wire net' = wire net @ [p] \<and>
    view_at IpHeader 14 (request_bytes (s_mac s) (s_ip s) (s_udp s) (get_dst_port tenant s)
      (enc_invoke_request (InvokeRequest_new tenant name_len (word_of_nat (length pay - unat name_len)) i) @ pay)) r p"
proof -
  have n: "usize_sub (length pay) (unat name_len) = length pay - unat name_len" using assms(3,4) by simp
  have fits: "\<not> 4294967295 < length pay - unat name_len" using assms(4) by (simp add: not_less)
  then have create: "create_invoke_rpc mb (s_mac s) (s_ip s) (s_udp s) tenant name_len pay i (get_dst_port tenant s) =
      rbind (create_request mb (s_mac s) (s_ip s) (s_udp s) (get_dst_port tenant s)) (finish_request InvokeRequest
        (enc_invoke_request (InvokeRequest_new tenant name_len (word_of_nat (length pay - unat name_len)) i)) pay)" for mb
    unfolding create_invoke_rpc_def n using fits by (simp only: if_False)
  show ?thesis
    unfolding send_invoke_def Let_def fst_conv
    using assms(5) by (intro send_created [OF assms(1) _ _ assms(2) _ create]) simp_all
qed

section \<open>What a response looks like\<close>

text \<open>A response behind a UDP header: its opcode, its header and what follows.\<close>

lemma response_packet:
  assumes "view_at UdpHeader i (net @ hdr @ pay) r packet" and "end_at UdpHeader i (net @ hdr @ pay) = length net"
    and "length hdr = hdr_size ty" and "\<And>bs. hdr_offset ty bs = hdr_size ty"
  shows "\<exists>p. parse_header ty packet = Inr p \<and> get_header p = Inr hdr \<and> get_payload p = Inr pay"
proof -
  obtain p where p: "parse_header ty packet = Inr p" "view_at ty (length net) (net @ hdr @ pay) r p"
    using parse_header_view [OF assms(1), of ty] assms(2,3,4) by auto
  then show ?thesis using get_header_view [OF p(2)] get_payload_view [OF p(2)] assms(3,4) by auto
qed

lemma response_opcode:
  assumes "view_at UdpHeader i (net @ hdr @ pay) r packet" and "end_at UdpHeader i (net @ hdr @ pay) = length net"
    and "hdr = enc_response q @ rest"
  shows "parse_rpc_opcode packet = Inr (rs_opcode q)"
proof -
  have "get_payload packet = Inr (hdr @ pay)" using get_payload_view [OF assms(1)] assms(2) by simp
  then show ?thesis
    unfolding parse_rpc_opcode_def using assms(3) opcode_of_code [of "rs_opcode q"] by (cases "rs_opcode q") (simp_all add: enc_response_def index_slice_def)
qed

end
