(* ===== verification/Proxy.thy ===== *)
theory Proxy
  imports Client
begin

text \<open>
  Pushed-back extensions on the client: the proxy of the database in \<open>splinter/src/proxy.rs\<close>, the container in
  \<open>splinter/src/container.rs\<close> and the task manager in \<open>splinter/src/sched.rs\<close>.

  A proxy answers an extension from the records the server has sent with the pushback and from
  those fetched since; a record it lacks is requested from the server, and the extension is
  suspended until it is there. When the extension completes, its read and write set go to the server
  in a commit request. The state besides the proxy is the sender and the network, \<open>cenv\<close>; an operation an
  extension may call returns the proxy it leaves behind next to its outcome, as in the theory \<open>Context\<close>,
  because a panic of the extension is caught. A send that panics leaves the network alone. Values of
  \<open>rdtsc\<close> are arguments; the Cargo feature \<open>checksum\<close> is a flag.
\<close>

section \<open>The proxy\<close>

record kv =
  kv_version :: byte_string
  kv_key :: byte_string
  kv_value :: byte_string

definition KV_new :: "byte_string \<Rightarrow> byte_string \<Rightarrow> byte_string \<Rightarrow> kv" where
  "KV_new rversion rkey rvalue = \<lparr>kv_version = rversion, kv_key = rkey, kv_value = rvalue\<rparr>"

record proxy_db =
  p_tenant :: u32
  p_parent_id :: u64
  p_req :: byte_string
  p_args_offset :: usize
  p_waiting :: bool
  p_readset :: "kv list"
  p_writeset :: "kv list"
  p_credit :: u64
  p_commit_payload :: byte_string

type_synonym cenv = "sender \<times> network"

definition ProxyDB_new :: "u32 \<Rightarrow> u64 \<Rightarrow> byte_string \<Rightarrow> usize \<Rightarrow> proxy_db" where
  "ProxyDB_new tenant_id i request name_length =
     \<lparr>p_tenant = tenant_id, p_parent_id = i, p_req = request, p_args_offset = name_length, p_waiting = False,
      p_readset = [], p_writeset = [], p_credit = 0, p_commit_payload = []\<rparr>"

definition set_waiting :: "bool \<Rightarrow> proxy_db \<Rightarrow> proxy_db" where
  "set_waiting b p = p\<lparr>p_waiting := b\<rparr>"

text \<open>The pieces of a record without its operation byte.\<close>

definition split_record :: "byte_string \<Rightarrow> usize \<Rightarrow> kv rust" where
  "split_record record keylen =
     rbind (split_at record 8) (\<lambda>(version, entry).
     rbind (split_at entry keylen) (\<lambda>(key, val). Inr (KV_new version key val)))"

definition set_read_record :: "byte_string \<Rightarrow> usize \<Rightarrow> proxy_db \<Rightarrow> proxy_db \<times> unit rust" where
  "set_read_record record keylen p =
     (let p = p\<lparr>p_commit_payload := p_commit_payload p @ [optype_code SandstormRead] @ record\<rparr>
      in case split_record record keylen of
           Inl e \<Rightarrow> (p, Inl e)
         | Inr r \<Rightarrow> (p\<lparr>p_readset := p_readset p @ [r]\<rparr>, Inr ()))"

definition set_write_record :: "byte_string \<Rightarrow> usize \<Rightarrow> proxy_db \<Rightarrow> proxy_db \<times> unit rust" where
  "set_write_record record keylen p =
     (let p = p\<lparr>p_commit_payload := p_commit_payload p @ [optype_code SandstormWrite] @ record\<rparr>
      in case split_record record keylen of
           Inl e \<Rightarrow> (p, Inl e)
         | Inr r \<Rightarrow> (p\<lparr>p_writeset := p_writeset p @ [r]\<rparr>, Inr ()))"

text \<open>\<open>search_from i\<close> is the loop at index \<open>i\<close>; 1024 stands for a miss.\<close>

fun search_from :: "usize \<Rightarrow> kv list \<Rightarrow> byte_string \<Rightarrow> usize" where
  "search_from i [] key = 1024"
| "search_from i (r # rs) key = (if kv_key r = key then i else search_from (i + 1) rs key)"

definition search_cache :: "kv list \<Rightarrow> byte_string \<Rightarrow> usize" where
  "search_cache list key = search_from 0 list key"

definition proxy_charge :: "u64 \<Rightarrow> u64 \<Rightarrow> proxy_db \<Rightarrow> proxy_db" where
  "proxy_charge start now p = p\<lparr>p_credit := p_credit p + (now - start)\<rparr>"

definition ProxyDB_args :: "proxy_db \<Rightarrow> byte_string rust" where
  "ProxyDB_args p = rbind (split_at (p_req p) (p_args_offset p)) (\<lambda>(_, args). Inr args)"

text \<open>The lengths a commit request announces are those of the first record read, or of the first one
  written when nothing was read.\<close>

definition record_lengths :: "proxy_db \<Rightarrow> usize \<times> usize" where
  "record_lengths p =
     (let (key_len, val_len) =
            (case p_readset p of r # _ \<Rightarrow> (length (kv_key r), length (kv_value r)) | [] \<Rightarrow> (0, 0))
      in case p_writeset p of
           r # _ \<Rightarrow> if key_len = 0 then (length (kv_key r), length (kv_value r)) else (key_len, val_len)
         | [] \<Rightarrow> (key_len, val_len))"

definition ProxyDB_commit :: "bool \<Rightarrow> proxy_db \<Rightarrow> cenv \<Rightarrow> cenv rust" where
  "ProxyDB_commit chk p env =
     (if p_readset p \<noteq> [] \<or> p_writeset p \<noteq> []
      then rbind (ProxyDB_args p) (\<lambda>args.
           rbind (split_at args 8) (\<lambda>(table, _).
           let table_id = table_id_of table; (key_len, val_len) = record_lengths p
           in if chk
              then rbind (split_at (p_commit_payload p) 377) (\<lambda>(_, pay).
                     send_commit (p_tenant p) table_id pay (p_parent_id p) 30 100 env)
              else send_commit (p_tenant p) table_id (p_commit_payload p) (p_parent_id p)
                     (word_of_nat key_len) (word_of_nat val_len) env))
      else Inr env)"

subsection \<open>The database interface\<close>

definition ProxyDB_get :: "u64 \<Rightarrow> u64 \<Rightarrow> byte_string \<Rightarrow> proxy_db \<Rightarrow> proxy_db \<times> read_buf option rust" where
  "ProxyDB_get start now key p =
     (let p = set_waiting False p
      in case index_slice (p_readset p) (search_cache (p_readset p) key) of
           Inl e \<Rightarrow> (p, Inl e)
         | Inr r \<Rightarrow> (proxy_charge start now p, Inr (Some (ReadBuf_new (kv_value r)))))"

fun multiget_cached :: "kv list \<Rightarrow> usize \<Rightarrow> byte_string list \<Rightarrow> byte_string list \<Rightarrow> byte_string list rust" where
  "multiget_cached rs key_len [] objs = Inr objs"
| "multiget_cached rs key_len (key # keys) objs =
     (if length key \<noteq> key_len then Inr objs
      else let index = search_cache rs key
           in if index \<noteq> 1024
              then rbind (index_slice rs index) (\<lambda>r. multiget_cached rs key_len keys (objs @ [kv_value r]))
              else multiget_cached rs key_len keys objs)"

definition ProxyDB_multiget :: "u16 \<Rightarrow> byte_string \<Rightarrow> proxy_db \<Rightarrow> multi_read_buf option rust" where
  "ProxyDB_multiget key_len keys p =
     rbind (chunks keys (unat key_len)) (\<lambda>ks.
     rbind (multiget_cached (p_readset p) (unat key_len) ks []) (\<lambda>objs. Inr (Some (MultiReadBuf_new objs))))"

definition ProxyDB_alloc :: "(usize \<Rightarrow> usize) \<Rightarrow> u64 \<Rightarrow> byte_string \<Rightarrow> u64 \<Rightarrow> write_buf option rust" where
  "ProxyDB_alloc grant table key val_len =
     rbind (write_slice (replicate 8 0) (WriteBuf_new table (with_capacity grant (8 + length key + unat val_len)))) (\<lambda>b.
     rbind (write_slice key b) (\<lambda>b. Inr (Some b)))"

definition ProxyDB_put :: "write_buf \<Rightarrow> proxy_db \<Rightarrow> proxy_db \<times> bool rust" where
  "ProxyDB_put wb p =
     (let (_, buf) = WriteBuf_freeze wb
      in if length buf \<noteq> 138 then (p, Inl AssertionFailed)
         else case set_write_record buf 30 p of (p, r) \<Rightarrow> (p, rbind r (\<lambda>_. Inr True)))"

definition ProxyDB_del :: "u64 \<Rightarrow> byte_string \<Rightarrow> proxy_db \<Rightarrow> proxy_db" where
  "ProxyDB_del table key p = p"

definition ProxyDB_resp :: "byte_string \<Rightarrow> proxy_db \<Rightarrow> proxy_db" where
  "ProxyDB_resp data p = p"

text \<open>A miss: ask the server for the record and mark the extension as waiting.\<close>

definition fetch ::
    "u64 \<Rightarrow> u64 \<Rightarrow> u64 \<Rightarrow> byte_string \<Rightarrow> proxy_db \<Rightarrow> cenv \<Rightarrow> proxy_db \<times> cenv \<times> (bool \<times> bool \<times> 'b option) rust" where
  "fetch start now table key p env =
     (let p = set_waiting True p
      in case send_get_from_extension (p_tenant p) table key (p_parent_id p) env of
           Inl e \<Rightarrow> (p, env, Inl e)
         | Inr env \<Rightarrow> (proxy_charge start now p, env, Inr (False, False, None)))"

definition ProxyDB_search_get ::
    "u64 \<Rightarrow> u64 \<Rightarrow> u64 \<Rightarrow> byte_string \<Rightarrow> proxy_db \<Rightarrow> cenv \<Rightarrow> proxy_db \<times> cenv \<times> (bool \<times> bool \<times> read_buf option) rust" where
  "ProxyDB_search_get start now table key p env =
     (let index = search_cache (p_readset p) key
      in if index \<noteq> 1024
         then case index_slice (p_readset p) index of
                Inl e \<Rightarrow> (p, env, Inl e)
              | Inr r \<Rightarrow> (proxy_charge start now p, env, Inr (False, True, Some (ReadBuf_new (kv_value r))))
         else fetch start now table key p env)"

fun search_multiget ::
    "u64 \<Rightarrow> u64 \<Rightarrow> u64 \<Rightarrow> usize \<Rightarrow> byte_string list \<Rightarrow> byte_string list \<Rightarrow> proxy_db \<Rightarrow> cenv \<Rightarrow>
     proxy_db \<times> cenv \<times> (bool \<times> bool \<times> multi_read_buf option) rust" where
  "search_multiget start now table key_len [] objs p env =
     (proxy_charge start now p, env, Inr (False, True, Some (MultiReadBuf_new objs)))"
| "search_multiget start now table key_len (key # keys) objs p env =
     (if length key \<noteq> key_len then (p, env, Inr (False, False, None))
      else let index = search_cache (p_readset p) key
           in if index \<noteq> 1024
              then case index_slice (p_readset p) index of
                     Inl e \<Rightarrow> (p, env, Inl e)
                   | Inr r \<Rightarrow> search_multiget start now table key_len keys (objs @ [kv_value r]) p env
              else fetch start now table key p env)"

definition ProxyDB_search_multiget ::
    "u64 \<Rightarrow> u64 \<Rightarrow> u64 \<Rightarrow> u16 \<Rightarrow> byte_string \<Rightarrow> proxy_db \<Rightarrow> cenv \<Rightarrow>
     proxy_db \<times> cenv \<times> (bool \<times> bool \<times> multi_read_buf option) rust" where
  "ProxyDB_search_multiget start now table key_len keys p env =
     (case chunks keys (unat key_len) of
        Inl e \<Rightarrow> (p, env, Inl e)
      | Inr ks \<Rightarrow> search_multiget start now table (unat key_len) ks [] p env)"

section \<open>The read set as a map\<close>

definition cached :: "proxy_db \<Rightarrow> byte_string \<rightharpoonup> byte_string" where
  "cached p = map_of (map (\<lambda>r. (kv_key r, kv_value r)) (p_readset p))"

lemma search_from_cases:
  "search_from i rs key = 1024 \<and> key \<notin> kv_key ` set rs \<or>
   (\<exists>j < length rs. search_from i rs key = i + j \<and> kv_key (rs ! j) = key \<and>
      map_of (map (\<lambda>r. (kv_key r, kv_value r)) rs) key = Some (kv_value (rs ! j)))"
proof (induction rs arbitrary: i)
  case (Cons r rs)
  show ?case
  proof (cases "kv_key r = key")
    case False
    then show ?thesis using Cons.IH [of "i + 1"] by (auto intro: exI [of _ "Suc j" for j])
  qed auto
qed simp

lemma search_cache_miss: "key \<notin> kv_key ` set rs \<Longrightarrow> search_cache rs key = 1024"
  using search_from_cases [of 0 rs key] unfolding search_cache_def by (metis imageI nth_mem)

lemma cached_None: "cached p key = None \<longleftrightarrow> key \<notin> kv_key ` set (p_readset p)"
  by (auto simp: cached_def map_of_eq_None_iff image_iff)

lemma cached_Some:
  assumes "cached p key = Some v"
  shows "\<exists>r. search_cache (p_readset p) key < length (p_readset p) \<and>
    p_readset p ! search_cache (p_readset p) key = r \<and> kv_value r = v"
proof -
  have "key \<in> kv_key ` set (p_readset p)" using assms cached_None [of p key] by auto
  then show ?thesis
    using search_from_cases [of 0 "p_readset p" key] assms by (auto simp: search_cache_def cached_def)
qed

section \<open>Properties\<close>


text \<open>The index that stands for a miss is an index like any other. With more than 1024 records in the read
  set, \<open>get\<close> of a key that is not among them returns the value of another record, the one at position 1024.\<close>

lemma proxy_sentinel_collides:
  assumes "1024 < length (p_readset p)" and "cached p key = None"
  shows "ProxyDB_get start now key p =
    (proxy_charge start now (set_waiting False p), Inr (Some (ReadBuf_new (kv_value (p_readset p ! 1024)))))"
proof -
  have "search_cache (p_readset p) key = 1024" using assms(2) cached_None search_cache_miss by blast
  then show ?thesis using assms(1) by (simp add: ProxyDB_get_def set_waiting_def index_slice_def)
qed

section \<open>Witnesses\<close>

definition wit_proxy :: "nat \<Rightarrow> proxy_db" where
  "wit_proxy n = (ProxyDB_new 7 42 [] 0)\<lparr>p_readset := replicate n (KV_new (enc_u64 1) [1] [9])\<rparr>"


end
