(* ===== verification/Manager.thy ===== *)
theory Manager
  imports Proxy
begin

text \<open>
  Containers and the task manager of a client: \<open>splinter/src/container.rs\<close> and \<open>splinter/src/sched.rs\<close>.

  A client creates a task for every invocation it sends and parks it under the identifier of the
  request. A pushback brings the records of the extension, which moves the task to the ready queue;
  \<open>execute_task\<close> runs it there until it completes (and commits), yields, or waits for a record. As on
  the server, an extension is the function \<open>resume\<close> on the state of its generator, and \<open>init\<close> is the
  call of its procedure, here made when the task first runs.
\<close>

section \<open>Containers\<close>

text \<open>The generator of a container, or the dummy of \<open>new\<close> and \<open>tear\<close>: it yields once, then completes,
  and resuming it once more panics.\<close>

datatype 'g coroutine = Dummy nat | Code 'g

record ('e, 'g) ccontainer =
  cc_state :: task_state
  cc_priority :: task_priority
  cc_time :: u64
  cc_db_time :: u64
  cc_db :: proxy_db
  cc_ext :: 'e
  cc_gen :: "'g coroutine"
  cc_id :: u64

definition CContainer_new :: "task_priority \<Rightarrow> proxy_db \<Rightarrow> 'e \<Rightarrow> u64 \<Rightarrow> ('e, 'g) ccontainer" where
  "CContainer_new prio db ext i =
     \<lparr>cc_state = INITIALIZED, cc_priority = prio, cc_time = 0, cc_db_time = 0, cc_db = db, cc_ext = ext,
      cc_gen = Dummy 0, cc_id = i\<rparr>"

text \<open>How the code of extensions enters the model.\<close>

type_synonym ('e, 'g) ext_init = "'e \<Rightarrow> proxy_db \<Rightarrow> ('g \<times> proxy_db) rust"
type_synonym 'g ext_resume = "'g \<Rightarrow> proxy_db \<Rightarrow> cenv \<Rightarrow> 'g \<times> ext_step \<times> proxy_db \<times> cenv"

fun resume_coroutine ::
    "'g ext_resume \<Rightarrow> 'g coroutine \<Rightarrow> proxy_db \<Rightarrow> cenv \<Rightarrow> 'g coroutine \<times> ext_step \<times> proxy_db \<times> cenv" where
  "resume_coroutine resume (Dummy n) p env =
     (Dummy (n + 1), if n = 0 then ExtYielded 0 else if n = 1 then ExtComplete 0 else ExtPanic, p, env)"
| "resume_coroutine resume (Code g) p env =
     (let (g, r, p, env) = resume g p env in (Code g, r, p, env))"

definition CContainer_resume ::
    "'g ext_resume \<Rightarrow> ('e, 'g) ccontainer \<Rightarrow> cenv \<Rightarrow> ('e, 'g) ccontainer \<times> cenv" where
  "CContainer_resume resume k env =
     (let (g, r, p, env) = resume_coroutine resume (cc_gen k) (cc_db k) env;
          k = k\<lparr>cc_gen := g, cc_db := p\<rparr>
      in case r of
           ExtYielded _ \<Rightarrow>
             (k\<lparr>cc_db_time := p_credit p, cc_state := (if p_waiting p then WAITING else YIELDED)\<rparr>, env)
         | ExtComplete _ \<Rightarrow> (k\<lparr>cc_db_time := p_credit p, cc_state := COMPLETED\<rparr>, env)
         | ExtPanic \<Rightarrow> (k\<lparr>cc_state := COMPLETED\<rparr>, env))"

definition CContainer_run ::
    "('e, 'g) ext_init \<Rightarrow> 'g ext_resume \<Rightarrow> u64 \<Rightarrow> u64 \<Rightarrow> ('e, 'g) ccontainer \<Rightarrow> cenv \<Rightarrow>
     (('e, 'g) ccontainer \<times> (task_state \<times> u64) \<times> cenv) rust" where
  "CContainer_run init resume start now k env =
     rbind (if cc_state k = INITIALIZED
            then rbind (init (cc_ext k) (cc_db k)) (\<lambda>(g, p). Inr (k\<lparr>cc_gen := Code g, cc_db := p\<rparr>))
            else Inr k) (\<lambda>k.
     let (k, env) =
           (if cc_state k \<in> {INITIALIZED, YIELDED, WAITING}
            then CContainer_resume resume (k\<lparr>cc_state := RUNNING\<rparr>) env else (k, env));
         exec = now - start;
         k = k\<lparr>cc_time := cc_time k + exec\<rparr>
     in Inr (k, (cc_state k, exec), env))"

definition CContainer_tear :: "bool \<Rightarrow> ('e, 'g) ccontainer \<Rightarrow> cenv \<Rightarrow> (('e, 'g) ccontainer \<times> cenv) rust" where
  "CContainer_tear chk k env =
     rbind (ProxyDB_commit chk (cc_db k) env) (\<lambda>env. Inr (k\<lparr>cc_gen := Dummy 0\<rparr>, env))"

definition CContainer_set_state :: "task_state \<Rightarrow> ('e, 'g) ccontainer \<Rightarrow> ('e, 'g) ccontainer" where
  "CContainer_set_state st k = k\<lparr>cc_state := st\<rparr>"

definition update_cache :: "byte_string \<Rightarrow> usize \<Rightarrow> ('e, 'g) ccontainer \<Rightarrow> ('e, 'g) ccontainer rust" where
  "update_cache record keylen k =
     rbind (parse_record_optype record) (\<lambda>ot.
       case ot of
         SandstormRead \<Rightarrow>
           rbind (split_at record 1) (\<lambda>(_, rest).
             case set_read_record rest keylen (cc_db k) of (p, r) \<Rightarrow> rbind r (\<lambda>_. Inr (k\<lparr>cc_db := p\<rparr>)))
       | SandstormWrite \<Rightarrow>
           rbind (split_at record 1) (\<lambda>(_, rest).
             case set_write_record rest keylen (cc_db k) of (p, r) \<Rightarrow> rbind r (\<lambda>_. Inr (k\<lparr>cc_db := p\<rparr>)))
       | InvalidRecord \<Rightarrow> Inr k)"

section \<open>The task manager\<close>

text \<open>Of the client's master service only the extensions are used.\<close>

record ('e, 'g) task_manager =
  tm_extensions :: "'e ext_manager"
  tm_ready :: "('e, 'g) ccontainer list"
  tm_waiting :: "u64 \<rightharpoonup> ('e, 'g) ccontainer"

definition TaskManager_new :: "'e ext_manager \<Rightarrow> ('e, 'g) task_manager" where
  "TaskManager_new exts = \<lparr>tm_extensions = exts, tm_ready = [], tm_waiting = Map.empty\<rparr>"

definition create_task ::
    "u64 \<Rightarrow> byte_string \<Rightarrow> u32 \<Rightarrow> usize \<Rightarrow> ('e, 'g) task_manager \<Rightarrow> ('e, 'g) task_manager rust" where
  "create_task i req tenant name_length tm =
     rbind (split_at req name_length) (\<lambda>(name, _).
     rbind (if utf8_valid name then Inr () else Inl UnwrapFailed) (\<lambda>_.
       case ext_get (tm_extensions tm) tenant name of
         Some ext \<Rightarrow>
           Inr (tm\<lparr>tm_waiting := (tm_waiting tm)(i \<mapsto>
             CContainer_new REQUEST (ProxyDB_new tenant i req name_length) ext i)\<rparr>)
       | None \<Rightarrow> Inr tm))"

definition delete_task :: "u64 \<Rightarrow> ('e, 'g) task_manager \<Rightarrow> ('e, 'g) task_manager" where
  "delete_task i tm = tm\<lparr>tm_waiting := (tm_waiting tm)(i := None)\<rparr>"

definition get_queue_len :: "('e, 'g) task_manager \<Rightarrow> usize" where
  "get_queue_len tm = length (tm_ready tm)"

fun update_caches :: "usize \<Rightarrow> byte_string list \<Rightarrow> ('e, 'g) ccontainer \<Rightarrow> ('e, 'g) ccontainer rust" where
  "update_caches keylen [] k = Inr k"
| "update_caches keylen (record # records) k =
     rbind (update_cache record keylen k) (update_caches keylen records)"

definition update_rwset ::
    "bool \<Rightarrow> u64 \<Rightarrow> byte_string \<Rightarrow> usize \<Rightarrow> usize \<Rightarrow> ('e, 'g) task_manager \<Rightarrow> ('e, 'g) task_manager rust" where
  "update_rwset chk i records recordlen keylen tm =
     (case tm_waiting tm i of
        None \<Rightarrow> Inr tm
      | Some task \<Rightarrow>
          let tm = tm\<lparr>tm_waiting := (tm_waiting tm)(i := None)\<rparr>
          in rbind (if chk
                    then rbind (split_at records 377) (\<lambda>(keys, records).
                         rbind (update_cache keys 8 task) (\<lambda>task. Inr (records, task)))
                    else Inr (records, task)) (\<lambda>(records, task).
             rbind (chunks records recordlen) (\<lambda>chs.
             rbind (update_caches keylen chs task) (\<lambda>task.
               Inr (tm\<lparr>tm_ready := tm_ready tm @ [task]\<rparr>)))))"

definition execute_task ::
    "bool \<Rightarrow> ('e, 'g) ext_init \<Rightarrow> 'g ext_resume \<Rightarrow> u64 \<Rightarrow> u64 \<Rightarrow> ('e, 'g) task_manager \<times> cenv \<Rightarrow>
     ((task_state \<times> u64) \<times> ('e, 'g) task_manager \<times> cenv) rust" where
  "execute_task chk init resume start now st =
     (let (tm, env) = st
      in case tm_ready tm of
           [] \<Rightarrow> Inr ((INITIALIZED, 0), tm, env)
         | task # rest \<Rightarrow>
             let tm = tm\<lparr>tm_ready := rest\<rparr>
             in rbind (CContainer_run init resume start now task env) (\<lambda>(task, (taskstate, _), env).
                if taskstate = COMPLETED
                then rbind (CContainer_tear chk task env) (\<lambda>(_, env).
                       Inr ((taskstate, cc_time task), tm, env))
                else if taskstate = YIELDED
                then Inr ((taskstate, cc_time task), tm\<lparr>tm_ready := tm_ready tm @ [task]\<rparr>, env)
                else if taskstate = WAITING
                then Inr ((taskstate, cc_time task), tm\<lparr>tm_waiting := (tm_waiting tm)(cc_id task \<mapsto> task)\<rparr>, env)
                else Inr ((taskstate, cc_time task), tm, env)))"

section \<open>Where the tasks are\<close>

definition tm_ids :: "('e, 'g) task_manager \<Rightarrow> u64 set" where
  "tm_ids tm = set (map cc_id (tm_ready tm)) \<union> dom (tm_waiting tm)"

text \<open>Every task is in one place, parked tasks under their own identifiers, and in a state from which it
  can be run.\<close>

definition tm_wf :: "('e, 'g) task_manager \<Rightarrow> bool" where
  "tm_wf tm \<longleftrightarrow> distinct (map cc_id (tm_ready tm)) \<and>
     (\<forall>k \<in> set (tm_ready tm). cc_id k \<notin> dom (tm_waiting tm) \<and> cc_state k \<in> {INITIALIZED, YIELDED, WAITING}) \<and>
     (\<forall>i k. tm_waiting tm i = Some k \<longrightarrow> cc_id k = i \<and> cc_state k \<in> {INITIALIZED, WAITING})"

inductive tm_step ::
    "bool \<Rightarrow> ('e, 'g) ext_init \<Rightarrow> 'g ext_resume \<Rightarrow> ('e, 'g) task_manager \<times> cenv \<Rightarrow> ('e, 'g) task_manager \<times> cenv \<Rightarrow> bool"
  for chk init resume where
  tm_create: "i \<notin> tm_ids tm \<Longrightarrow> create_task i req tenant n tm = Inr tm' \<Longrightarrow> tm_step chk init resume (tm, env) (tm', env)"
| tm_delete: "tm_step chk init resume (tm, env) (delete_task i tm, env)"
| tm_update: "update_rwset chk i records recordlen keylen tm = Inr tm' \<Longrightarrow> tm_step chk init resume (tm, env) (tm', env)"
| tm_execute: "execute_task chk init resume start now (tm, env) = Inr (r, tm', env') \<Longrightarrow>
    tm_step chk init resume (tm, env) (tm', env')"
| tm_other: "tm_step chk init resume (tm, env) (tm, env')"

inductive_cases tm_stepE: "tm_step chk init resume (tm, env) (tm', env')"

lemma update_cache_task:
  assumes "update_cache record keylen k = Inr k'"
  shows "cc_id k' = cc_id k \<and> cc_state k' = cc_state k"
proof -
  obtain ot where "parse_record_optype record = Inr ot" using assms by (auto simp: update_cache_def)
  then show ?thesis using assms by (cases ot) (auto simp: update_cache_def case_prod_beta)
qed

lemma update_caches_task:
  "update_caches keylen records k = Inr k' \<Longrightarrow> cc_id k' = cc_id k \<and> cc_state k' = cc_state k"
  by (induction records arbitrary: k) (auto dest: update_cache_task)

lemma CContainer_resume_task:
  "CContainer_resume resume k env = (k', env') \<Longrightarrow> cc_id k' = cc_id k \<and> cc_state k' \<in> {COMPLETED, YIELDED, WAITING}"
  by (auto simp: CContainer_resume_def Let_def split: prod.splits ext_step.splits)

lemma CContainer_run_task:
  assumes "CContainer_run init resume start now k env = Inr (k', (st, e), env')" and "cc_state k \<in> {INITIALIZED, YIELDED, WAITING}"
  shows "cc_id k' = cc_id k \<and> st = cc_state k' \<and> st \<in> {COMPLETED, YIELDED, WAITING}"
proof -
  have resumed: "cc_id k' = cc_id k1 \<and> st = cc_state k' \<and> st \<in> {COMPLETED, YIELDED, WAITING}"
    if "(let (k, env) = CContainer_resume resume k1 env; exec = now - start; k = k\<lparr>cc_time := cc_time k + exec\<rparr>
        in Inr (k, (cc_state k, exec), env)) = Inr (k', (st, e), env')" for k1
    using that CContainer_resume_task [of resume k1 env] by (auto simp: Let_def split: prod.splits)
  show ?thesis
  proof (cases "cc_state k = INITIALIZED")
    case True
    then obtain g p where "init (cc_ext k) (cc_db k) = Inr (g, p)" using assms(1) by (auto simp: CContainer_run_def)
    then show ?thesis
      using assms(1) True resumed [of "k\<lparr>cc_gen := Code g, cc_db := p, cc_state := RUNNING\<rparr>"] by (simp add: CContainer_run_def)
  next
    case False
    then show ?thesis using assms resumed [of "k\<lparr>cc_state := RUNNING\<rparr>"] by (auto simp: CContainer_run_def)
  qed
qed

lemma execute_task_cases:
  assumes "execute_task chk init resume start now (tm, env) = Inr ((st, e), tm', env')" and "tm_wf tm"
    and "tm_ready tm = k # rest"
  shows "\<exists>k'. cc_id k' = cc_id k \<and>
    (st = COMPLETED \<and> tm' = tm\<lparr>tm_ready := rest\<rparr> \<or>
     st = YIELDED \<and> cc_state k' = YIELDED \<and> tm' = tm\<lparr>tm_ready := rest @ [k']\<rparr> \<or>
     st = WAITING \<and> cc_state k' = WAITING \<and> tm' = tm\<lparr>tm_ready := rest, tm_waiting := (tm_waiting tm)(cc_id k \<mapsto> k')\<rparr>)"
proof -
  have st: "cc_state k \<in> {INITIALIZED, YIELDED, WAITING}" using assms(2,3) by (auto simp: tm_wf_def)
  obtain k1 t1 e1 env1 where run: "CContainer_run init resume start now k env = Inr (k1, (t1, e1), env1)"
    using assms(1,3) by (auto simp: execute_task_def Let_def)
  note task = CContainer_run_task [OF run st]
  show ?thesis
    using assms(1) task by (auto simp: execute_task_def Let_def assms(3) run split: if_splits)
qed

lemma tm_wf_new: "tm_wf (TaskManager_new exts)"
  by (simp add: tm_wf_def TaskManager_new_def)

lemma tm_wf_create:
  assumes "tm_wf tm" and "i \<notin> tm_ids tm" and "create_task i req tenant n tm = Inr tm'"
  shows "tm_wf tm'"
proof -
  have "\<forall>k \<in> set (tm_ready tm). cc_id k \<noteq> i" using assms(2) by (auto simp: tm_ids_def)
  then show ?thesis
    using assms(1,3) unfolding tm_wf_def
    by (fastforce simp: create_task_def CContainer_new_def split: option.splits if_splits)
qed

lemma tm_wf_delete: "tm_wf tm \<Longrightarrow> tm_wf (delete_task i tm)"
  by (auto simp: tm_wf_def delete_task_def)

lemma tm_wf_update:
  assumes "tm_wf tm" and "update_rwset chk i records recordlen keylen tm = Inr tm'"
  shows "tm_wf tm'"
proof (cases "tm_waiting tm i")
  case None
  then show ?thesis using assms by (simp add: update_rwset_def)
next
  case (Some k)
  then obtain k' where k': "cc_id k' = cc_id k" "cc_state k' = cc_state k"
      and tm': "tm' = tm\<lparr>tm_waiting := (tm_waiting tm)(i := None), tm_ready := tm_ready tm @ [k']\<rparr>"
    using assms(2) by (auto simp: update_rwset_def Let_def split: if_splits dest!: update_cache_task update_caches_task)
  have "cc_id k = i" "cc_state k \<in> {INITIALIZED, WAITING}" using assms(1) Some by (auto simp: tm_wf_def)
  then show ?thesis using assms(1) Some k' unfolding tm' by (auto simp: tm_wf_def)
qed

lemma tm_wf_execute:
  assumes "tm_wf tm" and "execute_task chk init resume start now (tm, env) = Inr (r, tm', env')"
  shows "tm_wf tm'"
proof (cases "tm_ready tm")
  case Nil
  then show ?thesis using assms by (simp add: execute_task_def)
next
  case (Cons k rest)
  obtain st e where r: "r = (st, e)" by fastforce
  have "\<forall>x \<in> set rest. cc_id x \<noteq> cc_id k" using assms(1) Cons by (simp add: tm_wf_def) (metis image_eqI)
  then show ?thesis
    using execute_task_cases [OF assms(2) [unfolded r] assms(1) Cons] assms(1) Cons
    by (elim exE conjE disjE) (auto simp: tm_wf_def)
qed

lemma tm_step_wf: "tm_step chk init resume (tm, env) (tm', env') \<Longrightarrow> tm_wf tm \<Longrightarrow> tm_wf tm'"
  by (erule tm_stepE) (auto intro: tm_wf_create tm_wf_delete tm_wf_update tm_wf_execute)

section \<open>Properties\<close>

text \<open>C19: the task manager loses no task. After any sequence of operations that creates tasks under
  fresh identifiers, every task is in exactly one of the ready queue and the parking place, parked under
  its own identifier and in a state it can be resumed from; running the first ready task removes
  it if and only if it completes, moves it to the end of the queue if it yields and parks it if it waits.\<close>

theorem manager_keeps_tasks:
  assumes "(tm_step chk init resume)\<^sup>*\<^sup>* (TaskManager_new exts, env0) (tm, env)"
    and "execute_task chk init resume start now (tm, env) = Inr ((st, e), tm', env')" and "tm_ready tm = k # rest"
  shows "tm_wf tm \<and> tm_wf tm' \<and>
    (case st of
       COMPLETED \<Rightarrow> tm_ids tm' = tm_ids tm - {cc_id k} \<and> cc_id k \<notin> tm_ids tm'
     | YIELDED \<Rightarrow> tm_ids tm' = tm_ids tm \<and> cc_id (last (tm_ready tm')) = cc_id k
     | WAITING \<Rightarrow> tm_ids tm' = tm_ids tm \<and> cc_id k \<in> dom (tm_waiting tm')
     | _ \<Rightarrow> False)"
proof -
  have "tm_wf (fst x) \<Longrightarrow> (tm_step chk init resume)\<^sup>*\<^sup>* x y \<Longrightarrow> tm_wf (fst y)" for x y
    by (rotate_tac 1, induction rule: rtranclp_induct) (auto intro: tm_step_wf)
  from this [OF _ assms(1)] have wf: "tm_wf tm" by (simp add: tm_wf_new)
  then have wf': "tm_wf tm'" using assms(2) by (rule tm_wf_execute)
  have fresh: "cc_id k \<notin> cc_id ` set rest" "tm_waiting tm (cc_id k) = None"
    using wf assms(3) by (auto simp: tm_wf_def)
  show ?thesis
    using execute_task_cases [OF assms(2) wf assms(3)] wf wf' fresh
    by (elim exE conjE disjE) (auto simp: tm_ids_def assms(3))
qed

section \<open>Witnesses\<close>

definition wit_sender :: sender where
  "wit_sender = \<lparr>s_udp = UdpHeader_new, s_ip = wit_ip, s_mac = demo_mac, s_requests_sent = 0, s_dst_ports = 1\<rparr>"

definition wit_manager :: "(unit, unit) task_manager" where
  "wit_manager = TaskManager_new (bucket_insert EXT_BUCKETS 7 (7, [112]) () ExtensionManager_new)"

lemma wit_ext: "utf8_valid [112]" "ext_get (tm_extensions wit_manager) 7 [112] = Some ()"
proof -
  show "utf8_valid [112]" by code_simp
  show "ext_get (tm_extensions wit_manager) 7 [112] = Some ()"
    using exts.lookup_insert [of ExtensionManager_new 7 "(7, [112])" 7 "(7, [112])" "()"]
    by (simp add: wit_manager_def TaskManager_new_def ext_get_def ext_wf_def ExtensionManager_new_def EXT_BUCKETS_def)
qed

text \<open>A task that is created, gets no records, and yields.\<close>

theorem manager_keeps_tasks_witness:
  "\<exists>tm1 tm2 tm3. create_task 42 [112] 7 1 wit_manager = Inr tm1 \<and> update_rwset False 42 [] 11 1 tm1 = Inr tm2 \<and>
    execute_task False (\<lambda>_ p. Inr ((), p)) (\<lambda>g p e. (g, ExtYielded 0, p, e)) 0 0 (tm2, (wit_sender, wit_network demo_mbuf)) = Inr ((YIELDED, 0), tm3, (wit_sender, wit_network demo_mbuf)) \<and>
    tm_ids tm3 = {42} \<and> map cc_id (tm_ready tm3) = [42]"
proof -
  let ?env = "(wit_sender, wit_network demo_mbuf)" and ?init = "\<lambda>_ p. Inr ((), p)" and ?resume = "\<lambda>g p e. (g, ExtYielded 0, p, e)"
  let ?k = "CContainer_new REQUEST (ProxyDB_new 7 42 [112] 1) () 42 :: (unit, unit) ccontainer"
  let ?tm1 = "wit_manager\<lparr>tm_waiting := [42 \<mapsto> ?k]\<rparr>" and ?tm2 = "wit_manager\<lparr>tm_ready := [?k]\<rparr>"
  let ?tm3 = "wit_manager\<lparr>tm_ready := [?k\<lparr>cc_gen := Code (), cc_state := YIELDED\<rparr>]\<rparr>"
  have new: "wit_manager = TaskManager_new (tm_extensions wit_manager)" "tm_ready wit_manager = []" "tm_waiting wit_manager = Map.empty"
    by (simp_all add: wit_manager_def TaskManager_new_def)
  have create: "create_task 42 [112] 7 1 wit_manager = Inr ?tm1"
    by (simp add: create_task_def split_at_def wit_ext new(3) del: rbind_eq_Inr)
  have update: "update_rwset False 42 [] 11 1 ?tm1 = Inr ?tm2"
    by (simp add: update_rwset_def chunks_def new(2,3) del: rbind_eq_Inr)
  have run: "execute_task False ?init ?resume 0 0 (?tm2, ?env) = Inr ((YIELDED, 0), ?tm3, ?env)"
    by (simp add: execute_task_def CContainer_run_def CContainer_resume_def CContainer_new_def ProxyDB_new_def Let_def new(2,3)
        del: rbind_eq_Inr)
  have s1: "tm_step False ?init ?resume (TaskManager_new (tm_extensions wit_manager), ?env) (?tm1, ?env)"
    unfolding new(1) [symmetric] by (rule tm_create [OF _ create]) (simp add: tm_ids_def new(2,3))
  have s2: "tm_step False ?init ?resume (?tm1, ?env) (?tm2, ?env)" by (rule tm_update [OF update])
  from s1 s2 have "(tm_step False ?init ?resume)\<^sup>*\<^sup>* (TaskManager_new (tm_extensions wit_manager), ?env) (?tm2, ?env)" by auto
  from manager_keeps_tasks [OF this run, of ?k "[]"] have "tm_ids ?tm3 = tm_ids ?tm2" by simp
  then have "tm_ids ?tm3 = {42}" by (simp add: tm_ids_def new(2,3) CContainer_new_def)
  then show ?thesis using create update run by (intro exI [of _ ?tm1] exI [of _ ?tm2] exI [of _ ?tm3]) (simp add: CContainer_new_def)
qed

end
