(* ===== verification/Pushback.thy ===== *)
theory Pushback
  imports Manager
begin

text \<open>
  A pushback from end to end: what the server hands back of an invocation reaches the proxy of the
  client unchanged, and the commit request the client sends makes the server validate the very
  transaction it would have committed itself.

  \<open>proxy_holds\<close> is the abstraction of a proxy to the list of records it has been given.
\<close>

section \<open>Records in a proxy\<close>

definition kv_of :: "rec \<Rightarrow> kv" where
  "kv_of r = KV_new (enc_u64 (r_version r)) (r_key r) (r_object r)"

definition known_op :: "rec \<Rightarrow> bool" where
  "known_op r \<longleftrightarrow> r_optype r = SandstormRead \<or> r_optype r = SandstormWrite"

definition proxy_holds :: "proxy_db \<Rightarrow> rec list \<Rightarrow> bool" where
  "proxy_holds p rs \<longleftrightarrow> p_commit_payload p = concat (map record_bytes rs) \<and>
     p_readset p = map kv_of (tx_reads (tx_of rs)) \<and> p_writeset p = map kv_of (tx_writes (tx_of rs))"

text \<open>What a record adds to a proxy.\<close>

definition add_record :: "rec \<Rightarrow> proxy_db \<Rightarrow> proxy_db" where
  "add_record r p = p\<lparr>p_commit_payload := p_commit_payload p @ record_bytes r,
     p_readset := p_readset p @ (if r_optype r = SandstormRead then [kv_of r] else []),
     p_writeset := p_writeset p @ (if r_optype r = SandstormWrite then [kv_of r] else [])\<rparr>"

lemma add_record_fields [simp]:
  "p_tenant (add_record r p) = p_tenant p" "p_parent_id (add_record r p) = p_parent_id p"
  "p_req (add_record r p) = p_req p" "p_args_offset (add_record r p) = p_args_offset p"
  "p_waiting (add_record r p) = p_waiting p" "p_credit (add_record r p) = p_credit p"
  by (simp_all add: add_record_def)

lemma add_records_fields [simp]:
  "p_tenant (fold add_record rs p) = p_tenant p" "p_parent_id (fold add_record rs p) = p_parent_id p"
  "p_req (fold add_record rs p) = p_req p" "p_args_offset (fold add_record rs p) = p_args_offset p"
  "p_waiting (fold add_record rs p) = p_waiting p" "p_credit (fold add_record rs p) = p_credit p"
  by (induction rs arbitrary: p) simp_all

lemma proxy_holds_add: "proxy_holds p rs \<Longrightarrow> proxy_holds (add_record r p) (rs @ [r])"
  by (auto simp: proxy_holds_def add_record_def tx_of_def)

lemma proxy_holds_adds: "proxy_holds p rs \<Longrightarrow> proxy_holds (fold add_record rs' p) (rs @ rs')"
proof (induction rs' arbitrary: p rs)
  case (Cons r rs')
  then show ?case using Cons.IH [OF proxy_holds_add [OF Cons.prems, of r]] by simp
qed simp

lemma proxy_holds_new: "proxy_holds (ProxyDB_new tn i req n) []"
  by (simp add: proxy_holds_def ProxyDB_new_def tx_of_def)

lemma split_record_bytes:
  "length (r_key r) = kl \<Longrightarrow> split_record (enc_u64 (r_version r) @ r_key r @ r_object r) kl = Inr (kv_of r)"
  by (simp add: split_record_def split_at_def kv_of_def)

lemma update_cache_bytes:
  assumes "known_op r" and "length (r_key r) = kl"
  shows "update_cache (record_bytes r) kl k = Inr (k\<lparr>cc_db := add_record r (cc_db k)\<rparr>)"
proof -
  let ?rest = "enc_u64 (r_version r) @ r_key r @ r_object r"
  have op: "parse_record_optype (record_bytes r) = Inr (r_optype r)"
    by (simp add: record_bytes_def parse_record_optype_code)
  have cut: "split_at (record_bytes r) 1 = Inr ([optype_code (r_optype r)], ?rest)"
    by (simp add: record_bytes_def split_at_def)
  show ?thesis
    using assms(1) split_record_bytes [OF assms(2)] unfolding update_cache_def op cut rbind_Inr
    by (cases "r_optype r")
       (simp_all add: set_read_record_def set_write_record_def add_record_def record_bytes_def known_op_def)
qed

lemma update_caches_bytes:
  assumes "\<forall>r \<in> set rs. known_op r \<and> length (r_key r) = kl"
  shows "update_caches kl (map record_bytes rs) k = Inr (k\<lparr>cc_db := fold add_record rs (cc_db k)\<rparr>)"
  using assms by (induction rs arbitrary: k) (simp_all add: update_cache_bytes del: rbind_eq_Inr)

lemma update_rwset_records:
  assumes "tm_waiting tm i = Some k" and "records_shaped kl vl rs" and "\<forall>r \<in> set rs. known_op r"
  shows "update_rwset False i (concat (map record_bytes rs)) (9 + kl + vl) kl tm =
    Inr (tm\<lparr>tm_waiting := (tm_waiting tm)(i := None),
            tm_ready := tm_ready tm @ [k\<lparr>cc_db := fold add_record rs (cc_db k)\<rparr>]\<rparr>)"
proof -
  have "\<forall>r \<in> set rs. known_op r \<and> length (r_key r) = kl" using assms(2,3) by (simp add: records_shaped_def)
  from update_caches_bytes [OF this, of k] show ?thesis
    using assms(1) chunks_record_bytes [OF assms(2)] by (simp add: update_rwset_def del: rbind_eq_Inr)
qed

section \<open>Committing\<close>

lemma record_lengths_holds:
  assumes "proxy_holds p rs" and "records_shaped kl vl rs" and "\<forall>r \<in> set rs. known_op r" and "rs \<noteq> []"
  shows "record_lengths p = (kl, vl)" "p_readset p \<noteq> [] \<or> p_writeset p \<noteq> []"
proof -
  let ?x = "tx_of rs"
  have sets: "\<forall>r \<in> set (tx_reads ?x) \<union> set (tx_writes ?x). length (r_key r) = kl \<and> length (r_object r) = vl"
    using assms(2) by (auto simp: tx_of_def records_shaped_def)
  obtain r rs' where "rs = r # rs'" using assms(4) by (cases rs) auto
  with assms(3) have some: "tx_reads ?x \<noteq> [] \<or> tx_writes ?x \<noteq> []" by (auto simp: tx_of_def known_op_def)
  show "p_readset p \<noteq> [] \<or> p_writeset p \<noteq> []" using some assms(1) by (simp add: proxy_holds_def)
  show "record_lengths p = (kl, vl)"
    using sets some assms(1)
    by (cases "tx_reads ?x"; cases "tx_writes ?x")
       (auto simp: record_lengths_def proxy_holds_def kv_of_def KV_new_def)
qed

lemma ProxyDB_commit_sends:
  assumes "proxy_holds p rs" and "records_shaped kl vl rs" and "\<forall>r \<in> set rs. known_op r" and "rs \<noteq> []"
    and "p_req p = name @ args" and "p_args_offset p = length name" and "8 \<le> length args"
  shows "ProxyDB_commit False p env =
    send_commit (p_tenant p) (table_id_of (take 8 args)) (concat (map record_bytes rs)) (p_parent_id p)
      (word_of_nat kl) (word_of_nat vl) env"
  using record_lengths_holds [OF assms(1-4)] assms(1,5-7)
  by (simp add: ProxyDB_commit_def ProxyDB_args_def proxy_holds_def)

lemma record_bytes_nonempty: "rs \<noteq> [] \<Longrightarrow> concat (map record_bytes rs) \<noteq> []"
  by (cases rs) (simp_all add: record_bytes_def)

section \<open>Transactions as lists of records\<close>

definition tx_records :: "tx \<Rightarrow> rec list" where
  "tx_records x = tx_reads x @ tx_writes x"

text \<open>The reads and writes of an extension whose keys and values all have the same lengths.\<close>

definition tx_shaped :: "usize \<Rightarrow> usize \<Rightarrow> tx \<Rightarrow> bool" where
  "tx_shaped kl vl x \<longleftrightarrow> records_shaped kl vl (tx_records x) \<and> tx_records x \<noteq> [] \<and>
     (\<forall>r \<in> set (tx_reads x). r_optype r = SandstormRead) \<and> (\<forall>r \<in> set (tx_writes x). r_optype r = SandstormWrite)"

lemma tx_shapedD:
  assumes "tx_shaped kl vl x"
  shows "records_shaped kl vl (tx_records x)" "tx_records x \<noteq> []" "\<forall>r \<in> set (tx_records x). known_op r"
    "tx_of (tx_records x) = x"
proof -
  have ops: "\<forall>r \<in> set (tx_reads x). r_optype r = SandstormRead" "\<forall>r \<in> set (tx_writes x). r_optype r = SandstormWrite"
    using assms by (simp_all add: tx_shaped_def)
  show "records_shaped kl vl (tx_records x)" "tx_records x \<noteq> []" using assms by (simp_all add: tx_shaped_def)
  show "\<forall>r \<in> set (tx_records x). known_op r" using ops by (auto simp: tx_records_def known_op_def)
  have "filter (\<lambda>r. r_optype r = SandstormRead) (tx_records x) = tx_reads x"
    using ops by (simp add: tx_records_def)
  moreover have "filter (\<lambda>r. r_optype r = SandstormWrite) (tx_records x) = tx_writes x"
    using ops by (simp add: tx_records_def)
  ultimately show "tx_of (tx_records x) = x" by (simp add: tx_of_def)
qed

lemma tx_shaped_nonempty:
  assumes "tx_shaped kl vl x" and "0 < kl" and "0 < vl"
  shows "\<forall>r \<in> set (tx_reads x @ tx_writes x). r_key r \<noteq> [] \<and> r_object r \<noteq> []"
  using tx_shapedD(1) [OF assms(1)] assms(2,3) by (auto simp: records_shaped_def tx_records_def)

section \<open>A commit request, answered\<close>

text \<open>From the frame of a commit request to the frame of its response, in three turns of the scheduler.\<close>

lemma commit_request_answered:
  assumes "idle_server d s" and "one_frame net mb mb2" and "\<not> f_pushback ft" and "addressed_to (d_ip_addr d) mac ip"
    and "view_at NullHeader 0 (request_bytes mac ip udp dst (enc_commit_request q @ concat (map record_bytes rs))) rq
      (packet_from_mbuf_no_increment NullHeader mb 0)"
    and "rq_service q = MasterService" and "rq_opcode q = SandstormCommitRpc" and "length (concat (map record_bytes rs)) < 65000"
    and "co_native co = run_native_gen (co_grant co)" and "\<And>n. n \<le> co_grant co n"
    and "records_shaped (unat (cq_key_length q)) (unat (cq_value_length q)) rs" and "rs \<noteq> []" and "0 < unat (cq_key_length q)"
    and "get_tenant ms (rq_tenant q) = Some a" and "tenants m a = Some tn"
    and "get_table tn (cq_table_id q) = Some t" and "table_wf t" and "tx_valid t (tx_of rs)"
    and "56 + length (concat (map r_key (tx_reads (tx_of rs)))) \<le> pkt_tailroom mb2"
  shows "\<exists>s' m' net' prev' d' p t' out. poll (any_impl init ms co) ft credit [t1, t2, t3] prev (s, m, net) =
      Inr ((s', m', net'), prev', True) \<and> waiting s' = [DispatchTask d'] \<and>
    tenants m' = (tenants m)(a \<mapsto> put_table (cq_table_id q) t' tn) \<and> wire net' = wire net @ [p] \<and>
    frame p = response_frame d mac ip (set_dst_port dst udp) out \<and>
    (if reads_current t (tx_of rs)
     then out = enc_response (commit_response_for q StatusOk) \<and>
       contents t' = install_spec (rq_tenant q) (cq_table_id q) (clock m (ticks m + 4)) (tx_writes (tx_of rs)) (contents t)
     else out = enc_response (commit_response_for q StatusTxAbort) @ concat (map r_key (tx_reads (tx_of rs))) \<and> t' = t)"
proof -
  let ?m = "m\<lparr>ticks := ticks m + 4\<rparr>" and ?frr = "reply_bytes d mac ip (set_dst_port dst udp)"
  let ?keys = "concat (map r_key (tx_reads (tx_of rs)))" and ?body = "concat (map record_bytes rs)"
  let ?out = "if reads_current t (tx_of rs) then enc_response (commit_response_for q StatusOk)
      else enc_response (commit_response_for q StatusTxAbort) @ ?keys"
  let ?m' = "\<lambda>t'. ?m\<lparr>ticks := ticks ?m + 1, tenants := (tenants ?m)(a \<mapsto> put_table (cq_table_id q) t' tn)\<rparr>"
  let ?installed = "\<lambda>t'. if reads_current t (tx_of rs)
      then contents t' = install_spec (rq_tenant q) (cq_table_id q) (clock m (ticks m + 4)) (tx_writes (tx_of rs)) (contents t)
      else t' = t"
  have room: "14 + length ?keys \<le> pkt_tailroom mb2 - 42" using assms(19) by linarith
  have tn: "tenants ?m a = Some tn" using assms(15) by simp
  have hdr: "enc_commit_request q = enc_request q @ drop 14 (enc_commit_request q)"
    by (simp add: enc_commit_request_def)
  have len: "length (enc_commit_request q @ ?body) < 65508" using assms(8) by simp
  have served: "\<exists>g. Master_dispatch init (rq_opcode q) ms req res = Inr (Inr (NativeTask (Native_new REQUEST g))) \<and>
      (\<exists>out m'. (\<exists>t'. out = ?out \<and> ?installed t' \<and> m' = ?m' t') \<and> answers (co_grant co) ?m ?frr out m' g)"
    if h: "handed 34 (enc_commit_request q) ?body req 34 ?frr (pkt_tailroom mb2 - 42) res" for req res
  proof -
    obtain g where g: "Master_commit ms req res = native_task g"
      using Master_commit_view [OF h, of ms] room by fastforce
    obtain req' res' r' t' where run: "serve (co_grant co) (Master_commit ms req res) ?m = Inr ((req', res'), ?m' t')"
        and out: "view_at UdpHeader 34 (?frr @ ?out) r' res'" "?installed t'"
      using serve_commit [OF assms(10) h assms(11-14) tn assms(16-18) room]
      by (cases "reads_current t (tx_of rs)") (simp, blast)+
    have "answers (co_grant co) ?m ?frr ?out (?m' t') g"
      using serve_native_taskD [of "co_grant co" g ?m "(req', res')" "?m' t'"] run out(1) g by (auto simp: answers_def)
    moreover have "Master_dispatch init (rq_opcode q) ms req res = Inr (Inr (NativeTask (Native_new REQUEST g)))"
      using assms(7) g by (auto simp: Master_dispatch_def boxed_def native_task_def)
    ultimately show ?thesis using out(2) by blast
  qed
  obtain s' net' prev' d' p t' where fin: "poll (any_impl init ms co) ft credit [t1, t2, t3] prev (s, m, net) =
        Inr ((s', (?m' t')\<lparr>ticks := ticks (?m' t') + 2\<rparr>, net'), prev', True)"
      "waiting s' = [DispatchTask d']" "wire net' = wire net @ [p]"
      "frame p = response_frame d mac ip (set_dst_port dst udp) ?out" "?installed t'"
    using request_answered [OF assms(1-5) hdr assms(6) len assms(9) served] by blast
  have ten: "tenants ((?m' t')\<lparr>ticks := ticks (?m' t') + 2\<rparr>) = (tenants m)(a \<mapsto> put_table (cq_table_id q) t' tn)" by simp
  have out: "if reads_current t (tx_of rs)
     then ?out = enc_response (commit_response_for q StatusOk) \<and>
       contents t' = install_spec (rq_tenant q) (cq_table_id q) (clock m (ticks m + 4)) (tx_writes (tx_of rs)) (contents t)
     else ?out = enc_response (commit_response_for q StatusTxAbort) @ ?keys \<and> t' = t"
    using fin(5) by simp
  show ?thesis using fin(1-4) ten out by blast
qed

section \<open>Commit here or there\<close>

lemma Context_commit_decision:
  assumes "\<And>n. n \<le> grant n" and "Context_args c = Inr args" and "8 \<le> length args" and "table_id_of (take 8 args) = tb"
    and "get_table tn tb = Some t" and "table_wf t" and "tx_valid t (c_tx c)"
  shows "\<exists>t' r. Context_commit grant ts tn c = (put_table tb t' tn, r) \<and>
    (if reads_current t (c_tx c)
     then r = Inr (c_request c, c_response c) \<and> contents t' = install_spec (tn_id tn) tb ts (tx_writes (c_tx c)) (contents t)
     else r = rbind (abort_response (c_request c) (c_response c)) (\<lambda>res. Inr (c_request c, res)) \<and> t' = t)"
proof (cases "reads_current t (c_tx c)")
  case True
  then show ?thesis
    using validate_commit [OF assms(1,6,7) True, of "tn_id tn" tb ts] by (auto simp: Context_commit_table [OF assms(2-5)])
next
  case False
  then have "validate grant (tn_id tn) tb ts t (c_tx c) = (t, TX_sort (c_tx c), Inr ABORT)"
    using assms(7) by (intro validate_abort) (auto simp: tx_valid_def writable_def)
  then show ?thesis using False by (simp add: Context_commit_table [OF assms(2-5)])
qed

section \<open>Properties\<close>



section \<open>Witnesses\<close>

text \<open>An invocation that has read the one object of the tenant and is then pushed back.\<close>

definition wit_read :: ctxt where
  "wit_read = wit_ctxt\<lparr>c_tx := \<lparr>tx_reads = [Record_new SandstormRead 1 [1] [9]], tx_writes = []\<rparr>\<rparr>"

lemma wit_read_reached: "fst (Context_get 0 0 wit_tenant 1 [1] wit_ctxt) = wit_read"
  by (simp add: Context_get_def wit_tenant_table table_simps wit_contents wit_resolve wit_read_def
      Context_new_def TX_new_def record_get_def charge_def GET_CREDIT_def)

lemma wit_read_fields:
  "c_tx wit_read = \<lparr>tx_reads = [Record_new SandstormRead 1 [1] [9]], tx_writes = []\<rparr>"
  "c_response wit_read = wit_response" "c_request wit_read = wit_request" "Context_args wit_read = Inr (enc_u64 1)"
  using wit_args by (simp_all add: wit_read_def Context_new_def Context_args_def)

lemma wit_read_shaped: "tx_shaped 1 1 (c_tx wit_read)"
  by (simp add: wit_read_fields(1) tx_shaped_def records_shaped_def tx_records_def Record_new_def)

lemma wit_read_bytes: "concat (map record_bytes (tx_records (c_tx wit_read))) = [1, 1, 0, 0, 0, 0, 0, 0, 0, 1, 9]"
  unfolding wit_read_fields(1) by code_simp

lemma wit_sender_plain: "plain_network (s_mac wit_sender) (s_ip wit_sender)"
  using wit_addressed by (simp add: wit_sender_def addressed_to_def)



end
