(* ===== verification/Programs.thy ===== *)
theory Programs
  imports Pushback
begin

text \<open>
  Extensions as programs over the \<open>DB\<close> trait (\<open>sandstorm/src/db.rs\<close>, \<open>sandstorm/src/macros.rs\<close>).

  \<open>prog\<close> is the body of an extension's generator: what it still has to do, as a tree whose nodes are
  the calls of the interface, the points where it yields, and its end. \<open>on_server\<close> resumes a program against
  an execution context, \<open>on_client\<close> against the proxy of a client; both run it up to its next yield, its
  completion or its panic, which is what a container sees. The clock readings of a call are taken from a
  trace; busy waiting has no other effect and is left out. A program is a finite tree, so running it
  terminates.
\<close>

datatype prog =
    Return u64
  | Yield prog
  | Panicked panic
  | CallArgs "byte_string \<Rightarrow> prog"
  | CallResp byte_string prog
  | CallGet u64 byte_string "byte_string option \<Rightarrow> prog"
  | CallSearch u64 byte_string "bool \<times> bool \<times> byte_string option \<Rightarrow> prog"
  | CallMultiget u64 u16 byte_string "multi_read_buf option \<Rightarrow> prog"
  | CallSearchMulti u64 u16 byte_string "bool \<times> bool \<times> multi_read_buf option \<Rightarrow> prog"
  | CallAlloc u64 byte_string u64 "write_buf option \<Rightarrow> prog"
  | CallPut write_buf "bool \<Rightarrow> prog"
  | CallDel u64 byte_string prog

definition attempt :: "'a rust \<Rightarrow> ('a \<Rightarrow> prog) \<Rightarrow> prog" where
  "attempt m k = (case m of Inl e \<Rightarrow> Panicked e | Inr x \<Rightarrow> k x)"

lemma attempt_simps [simp]: "attempt (Inl e) k = Panicked e" "attempt (Inr x) k = k x"
  by (simp_all add: attempt_def)

section \<open>On the server\<close>

primrec on_server ::
    "prog \<Rightarrow> (usize \<Rightarrow> usize) \<Rightarrow> (nat \<Rightarrow> u64) \<Rightarrow> nat \<Rightarrow> tenant \<Rightarrow> ctxt \<Rightarrow> prog \<times> ext_step \<times> nat \<times> tenant \<times> ctxt" where
  "on_server (Return v) = (\<lambda>grant clk n tn c. (Return v, ExtComplete v, n, tn, c))"
| "on_server (Yield p) = (\<lambda>grant clk n tn c. (p, ExtYielded 0, n, tn, c))"
| "on_server (Panicked e) = (\<lambda>grant clk n tn c. (Panicked e, ExtPanic, n, tn, c))"
| "on_server (CallArgs k) = (\<lambda>grant clk n tn c.
     case Context_args c of
       Inl e \<Rightarrow> (Panicked e, ExtPanic, n, tn, c)
     | Inr args \<Rightarrow> on_server (k args) grant clk n tn c)"
| "on_server (CallResp data p) = (\<lambda>grant clk n tn c.
     case Context_resp data c of
       (c, Inl e) \<Rightarrow> (Panicked e, ExtPanic, n, tn, c)
     | (c, Inr u) \<Rightarrow> on_server p grant clk n tn c)"
| "on_server (CallGet table key k) = (\<lambda>grant clk n tn c.
     case Context_get (clk n) (clk (n + 1)) tn table key c of
       (c, Inl e) \<Rightarrow> (Panicked e, ExtPanic, n + 2, tn, c)
     | (c, Inr v) \<Rightarrow> on_server (k (map_option ReadBuf_read v)) grant clk (n + 2) tn c)"
| "on_server (CallSearch table key k) = (\<lambda>grant clk n tn c.
     case search_get_in_cache of
       (server, found, v) \<Rightarrow> on_server (k (server, found, map_option ReadBuf_read v)) grant clk n tn c)"
| "on_server (CallMultiget table key_len keys k) = (\<lambda>grant clk n tn c.
     case Context_multiget (clk n) (clk (n + 1)) tn table key_len keys c of
       (c, Inl e) \<Rightarrow> (Panicked e, ExtPanic, n + 2, tn, c)
     | (c, Inr v) \<Rightarrow> on_server (k v) grant clk (n + 2) tn c)"
| "on_server (CallSearchMulti table key_len keys k) = (\<lambda>grant clk n tn c.
     on_server (k search_multiget_in_cache) grant clk n tn c)"
| "on_server (CallAlloc table key val_len k) = (\<lambda>grant clk n tn c.
     case Context_alloc grant tn table key val_len c of
       (c, Inl e) \<Rightarrow> (Panicked e, ExtPanic, n, tn, c)
     | (c, Inr v) \<Rightarrow> on_server (k v) grant clk n tn c)"
| "on_server (CallPut wb k) = (\<lambda>grant clk n tn c.
     case Context_put (clk n) (clk (n + 1)) tn wb c of
       (c, Inl e) \<Rightarrow> (Panicked e, ExtPanic, n + 2, tn, c)
     | (c, Inr v) \<Rightarrow> on_server (k v) grant clk (n + 2) tn c)"
| "on_server (CallDel table key p) = (\<lambda>grant clk n tn c.
     case Context_del table key tn of
       (tn, Inl e) \<Rightarrow> (Panicked e, ExtPanic, n, tn, c)
     | (tn, Inr u) \<Rightarrow> on_server p grant clk n tn c)"

text \<open>The state of a generator on the server: the tenant behind its context, the clock trace, and the rest
  of its program. \<open>server_resume\<close> has the form the scheduler of the theory \<open>Sched\<close> expects.\<close>

record server_gen =
  sg_tenant :: nat
  sg_clock :: "nat \<Rightarrow> u64"
  sg_ticks :: nat
  sg_prog :: prog

definition server_resume ::
    "(usize \<Rightarrow> usize) \<Rightarrow> server_gen \<Rightarrow> ctxt \<Rightarrow> world \<Rightarrow> server_gen \<times> ext_step \<times> ctxt \<times> world" where
  "server_resume grant g c w =
     (case w (sg_tenant g) of
        None \<Rightarrow> (g, ExtPanic, c, w)
      | Some tn \<Rightarrow>
          let (p, r, n, tn, c) = on_server (sg_prog g) grant (sg_clock g) (sg_ticks g) tn c
          in (g\<lparr>sg_prog := p, sg_ticks := n\<rparr>, r, c, w(sg_tenant g \<mapsto> tn)))"

section \<open>On the client\<close>

primrec on_client ::
    "prog \<Rightarrow> (usize \<Rightarrow> usize) \<Rightarrow> (nat \<Rightarrow> u64) \<Rightarrow> nat \<Rightarrow> proxy_db \<Rightarrow> cenv \<Rightarrow> prog \<times> ext_step \<times> nat \<times> proxy_db \<times> cenv" where
  "on_client (Return v) = (\<lambda>grant clk n d env. (Return v, ExtComplete v, n, d, env))"
| "on_client (Yield p) = (\<lambda>grant clk n d env. (p, ExtYielded 0, n, d, env))"
| "on_client (Panicked e) = (\<lambda>grant clk n d env. (Panicked e, ExtPanic, n, d, env))"
| "on_client (CallArgs k) = (\<lambda>grant clk n d env.
     case ProxyDB_args d of
       Inl e \<Rightarrow> (Panicked e, ExtPanic, n, d, env)
     | Inr args \<Rightarrow> on_client (k args) grant clk n d env)"
| "on_client (CallResp data p) = (\<lambda>grant clk n d env. on_client p grant clk n (ProxyDB_resp data d) env)"
| "on_client (CallGet table key k) = (\<lambda>grant clk n d env.
     case ProxyDB_get (clk n) (clk (n + 1)) key d of
       (d, Inl e) \<Rightarrow> (Panicked e, ExtPanic, n + 2, d, env)
     | (d, Inr v) \<Rightarrow> on_client (k (map_option ReadBuf_read v)) grant clk (n + 2) d env)"
| "on_client (CallSearch table key k) = (\<lambda>grant clk n d env.
     case ProxyDB_search_get (clk n) (clk (n + 1)) table key d env of
       (d, env, Inl e) \<Rightarrow> (Panicked e, ExtPanic, n + 2, d, env)
     | (d, env, Inr (server, found, v)) \<Rightarrow>
         on_client (k (server, found, map_option ReadBuf_read v)) grant clk (n + 2) d env)"
| "on_client (CallMultiget table key_len keys k) = (\<lambda>grant clk n d env.
     case ProxyDB_multiget key_len keys d of
       Inl e \<Rightarrow> (Panicked e, ExtPanic, n, d, env)
     | Inr v \<Rightarrow> on_client (k v) grant clk n d env)"
| "on_client (CallSearchMulti table key_len keys k) = (\<lambda>grant clk n d env.
     case ProxyDB_search_multiget (clk n) (clk (n + 1)) table key_len keys d env of
       (d, env, Inl e) \<Rightarrow> (Panicked e, ExtPanic, n + 2, d, env)
     | (d, env, Inr r) \<Rightarrow> on_client (k r) grant clk (n + 2) d env)"
| "on_client (CallAlloc table key val_len k) = (\<lambda>grant clk n d env.
     case ProxyDB_alloc grant table key val_len of
       Inl e \<Rightarrow> (Panicked e, ExtPanic, n, d, env)
     | Inr v \<Rightarrow> on_client (k v) grant clk n d env)"
| "on_client (CallPut wb k) = (\<lambda>grant clk n d env.
     case ProxyDB_put wb d of
       (d, Inl e) \<Rightarrow> (Panicked e, ExtPanic, n, d, env)
     | (d, Inr v) \<Rightarrow> on_client (k v) grant clk n d env)"
| "on_client (CallDel table key p) = (\<lambda>grant clk n d env. on_client p grant clk n (ProxyDB_del table key d) env)"

record client_gen =
  cg_clock :: "nat \<Rightarrow> u64"
  cg_ticks :: nat
  cg_prog :: prog

definition client_resume :: "(usize \<Rightarrow> usize) \<Rightarrow> client_gen ext_resume" where
  "client_resume grant g d env =
     (let (p, r, n, d, env) = on_client (cg_prog g) grant (cg_clock g) (cg_ticks g) d env
      in (g\<lparr>cg_prog := p, cg_ticks := n\<rparr>, r, d, env))"

section \<open>Macros\<close>

definition GET_macro :: "u64 \<Rightarrow> byte_string \<Rightarrow> (byte_string option \<Rightarrow> prog) \<Rightarrow> prog" where
  "GET_macro table key k =
     CallSearch table key (\<lambda>(server, found, v).
       if \<not> server then if \<not> found then Yield (CallGet table key k) else k v
       else CallGet table key k)"

text \<open>The variant the extensions \<open>aggregate\<close> and \<open>checksum\<close> define for themselves, which does not wait.\<close>

definition GET1_macro :: "u64 \<Rightarrow> byte_string \<Rightarrow> (byte_string option \<Rightarrow> prog) \<Rightarrow> prog" where
  "GET1_macro table key k =
     CallSearch table key (\<lambda>(server, found, v). if \<not> server then k v else CallGet table key k)"

definition MULTIGET1_macro :: "u64 \<Rightarrow> u16 \<Rightarrow> byte_string \<Rightarrow> (multi_read_buf option \<Rightarrow> prog) \<Rightarrow> prog" where
  "MULTIGET1_macro table keylen keys k =
     CallSearchMulti table keylen keys (\<lambda>(server, found, v). if server then CallMultiget table keylen keys k else k v)"

section \<open>What a tenant stores\<close>

definition stored :: "tenant \<Rightarrow> u64 \<Rightarrow> byte_string \<Rightarrow> (u64 \<times> byte_string) option" where
  "stored tn table key =
     (if key = [] then None
      else case get_table tn table of
        None \<Rightarrow> None
      | Some t \<Rightarrow>
          case contents t key of
            None \<Rightarrow> None
          | Some e \<Rightarrow>
              case Allocator_resolve (e_value e) of
                Inr (Some (k, v)) \<Rightarrow> if k = key then Some (e_version e, v) else None
              | _ \<Rightarrow> None)"

definition read_of :: "byte_string \<Rightarrow> u64 \<Rightarrow> byte_string \<Rightarrow> rec" where
  "read_of key ver v = Record_new SandstormRead ver key v"

lemma Context_get_stored:
  assumes "stored tn table key = Some (ver, v)"
  shows "Context_get s n tn table key c =
    (charge s n GET_CREDIT (c\<lparr>c_tx := record_get (read_of key ver v) (c_tx c)\<rparr>), Inr (Some (ReadBuf_new v)))"
proof -
  have key: "key \<noteq> []" using assms by (auto simp: stored_def)
  then obtain t e where "get_table tn table = Some t" "contents t key = Some e"
      "Allocator_resolve (e_value e) = Inr (Some (key, v))" "ver = e_version e"
    using assms by (auto simp: stored_def split: option.splits sum.splits if_splits)
  then show ?thesis using key by (simp add: Context_get_def table_simps read_of_def)
qed

section \<open>Running a program again\<close>

text \<open>\<open>reads_stored tn args p rs\<close>: up to its next yield or its end, the program \<open>p\<close> looks at its arguments, responds and
  reads; it finds the records \<open>rs\<close> it reads in \<open>tn\<close>.\<close>

inductive reads_stored :: "tenant \<Rightarrow> byte_string \<Rightarrow> prog \<Rightarrow> rec list \<Rightarrow> bool" for tn args where
  ok_return: "reads_stored tn args (Return v) []"
| ok_yield: "reads_stored tn args (Yield p) []"
| ok_args: "reads_stored tn args (k args) rs \<Longrightarrow> reads_stored tn args (CallArgs k) rs"
| ok_resp: "reads_stored tn args p rs \<Longrightarrow> reads_stored tn args (CallResp data p) rs"
| ok_get: "stored tn table key = Some (ver, v) \<Longrightarrow> reads_stored tn args (k (Some v)) rs \<Longrightarrow>
    reads_stored tn args (CallGet table key k) (read_of key ver v # rs)"
| ok_GET: "stored tn table key = Some (ver, v) \<Longrightarrow> reads_stored tn args (k (Some v)) rs \<Longrightarrow>
    reads_stored tn args (GET_macro table key k) (read_of key ver v # rs)"

text \<open>What a lookup leaves of a proxy.\<close>

definition same_cache :: "proxy_db \<Rightarrow> proxy_db \<Rightarrow> bool" where
  "same_cache d d' \<longleftrightarrow> p_readset d' = p_readset d \<and> p_writeset d' = p_writeset d \<and> p_commit_payload d' = p_commit_payload d \<and>
     p_req d' = p_req d \<and> p_args_offset d' = p_args_offset d \<and> p_tenant d' = p_tenant d \<and> p_parent_id d' = p_parent_id d \<and>
     (p_waiting d' \<longrightarrow> p_waiting d)"

lemma same_cache_refl [simp]: "same_cache d d" by (simp add: same_cache_def)

lemma same_cache_trans: "same_cache a b \<Longrightarrow> same_cache b c \<Longrightarrow> same_cache a c"
  by (auto simp: same_cache_def)

lemma same_cacheD:
  assumes "same_cache d d'"
  shows "cached d' = cached d" "ProxyDB_args d' = ProxyDB_args d" "length (p_readset d') = length (p_readset d)"
  using assms by (simp_all add: same_cache_def cached_def ProxyDB_args_def)

lemma same_cache_get: "same_cache d (proxy_charge s n (set_waiting False d))" "same_cache d (proxy_charge s n d)"
  by (simp_all add: same_cache_def proxy_charge_def set_waiting_def)

lemma proxy_hit:
  assumes "length (p_readset d) \<le> 1024" and "cached d key = Some v"
  shows "ProxyDB_search_get s n table key d env = (proxy_charge s n d, env, Inr (False, True, Some (ReadBuf_new v)))"
    "ProxyDB_get s n key d = (proxy_charge s n (set_waiting False d), Inr (Some (ReadBuf_new v)))"
proof -
  obtain r where "search_cache (p_readset d) key < length (p_readset d)" "p_readset d ! search_cache (p_readset d) key = r"
      "kv_value r = v"
    using cached_Some [OF assms(2)] by blast
  then show "ProxyDB_search_get s n table key d env = (proxy_charge s n d, env, Inr (False, True, Some (ReadBuf_new v)))"
    "ProxyDB_get s n key d = (proxy_charge s n (set_waiting False d), Inr (Some (ReadBuf_new v)))"
    using assms(1) by (auto simp: ProxyDB_search_get_def ProxyDB_get_def set_waiting_def index_slice_def)
qed

lemma ReadBuf_read_new [simp]: "ReadBuf_read (ReadBuf_new v) = v"
  by (simp add: ReadBuf_read_def ReadBuf_new_def)

lemma Context_args_tx [simp]: "Context_args (charge s n e (c\<lparr>c_tx := x\<rparr>)) = Context_args c"
  by (simp add: Context_args_def charge_def)

text \<open>One resumption on the server.\<close>

lemma on_server_reads:
  assumes "reads_stored tn args p rs" and "on_server p grant clk n tn c = (p', st, n', tn', c')" and "st \<noteq> ExtPanic"
    and "Context_args c = Inr args"
  shows "tn' = tn \<and> Context_args c' = Inr args \<and> c_tx c' = (c_tx c)\<lparr>tx_reads := tx_reads (c_tx c) @ rs\<rparr>"
  using assms
proof (induction arbitrary: n c)
  case (ok_resp p rs data)
  obtain c1 r where r: "Context_resp data c = (c1, r)" by fastforce
  have c1: "c_tx c1 = c_tx c" "Context_args c1 = Context_args c"
    using r by (auto simp: Context_resp_def Context_args_def split: sum.splits prod.splits)
  show ?case using ok_resp.IH [of n c1] ok_resp.prems r c1 by (cases r) auto
next
  case (ok_get table key ver v k rs)
  let ?c = "charge (clk n) (clk (n + 1)) GET_CREDIT (c\<lparr>c_tx := record_get (read_of key ver v) (c_tx c)\<rparr>)"
  have "c_tx ?c = record_get (read_of key ver v) (c_tx c)" by (simp add: charge_def)
  then show ?case
    using ok_get.IH [of "n + 2" ?c] ok_get.prems Context_get_stored [OF ok_get.hyps(1)] by (simp add: record_get_def)
next
  case (ok_GET table key ver v k rs)
  let ?c = "charge (clk n) (clk (n + 1)) GET_CREDIT (c\<lparr>c_tx := record_get (read_of key ver v) (c_tx c)\<rparr>)"
  have "c_tx ?c = record_get (read_of key ver v) (c_tx c)" by (simp add: charge_def)
  then show ?case
    using ok_GET.IH [of "n + 2" ?c] ok_GET.prems Context_get_stored [OF ok_GET.hyps(1)]
    by (simp add: record_get_def GET_macro_def search_get_in_cache_def)
qed auto

text \<open>The same resumption on a client that has the records.\<close>

lemma on_client_replays:
  assumes "reads_stored tn args p rs" and "on_server p grant clk n tn c = (p', st, n', tn', c')" and "st \<noteq> ExtPanic"
    and "Context_args c = Inr args" and "ProxyDB_args d = Inr args"
    and "\<forall>r \<in> set rs. cached d (r_key r) = Some (r_object r)" and "length (p_readset d) \<le> 1024"
  shows "\<exists>m' d'. on_client p grant' clk' m d env = (p', st, m', d', env) \<and> same_cache d d'"
  using assms
proof (induction arbitrary: n c m d)
  case (ok_resp p rs data)
  obtain c1 r where r: "Context_resp data c = (c1, r)" by fastforce
  have "Context_args c1 = Context_args c"
    using r by (auto simp: Context_resp_def Context_args_def split: sum.splits prod.splits)
  then show ?case
    using ok_resp.IH [of n c1 d m] ok_resp.prems r by (cases r) (auto simp: ProxyDB_resp_def)
next
  case (ok_get table key ver v k rs)
  let ?c = "charge (clk n) (clk (n + 1)) GET_CREDIT (c\<lparr>c_tx := record_get (read_of key ver v) (c_tx c)\<rparr>)"
  let ?d = "proxy_charge (clk' m) (clk' (m + 1)) (set_waiting False d)"
  have hit: "cached d key = Some v" using ok_get.prems(5) by (simp add: read_of_def Record_new_def)
  note same = same_cacheD [OF same_cache_get(1) [of d "clk' m" "clk' (m + 1)"]]
  obtain m' d' where "on_client (k (Some v)) grant' clk' (m + 2) ?d env = (p', st, m', d', env)" "same_cache ?d d'"
    using ok_get.IH [of "n + 2" ?c ?d "m + 2"] ok_get.prems Context_get_stored [OF ok_get.hyps(1)] same by auto
  then show ?case
    using proxy_hit(2) [OF ok_get.prems(6) hit] same_cache_trans [OF same_cache_get(1)] by auto
next
  case (ok_GET table key ver v k rs)
  let ?c = "charge (clk n) (clk (n + 1)) GET_CREDIT (c\<lparr>c_tx := record_get (read_of key ver v) (c_tx c)\<rparr>)"
  let ?d = "proxy_charge (clk' m) (clk' (m + 1)) d"
  have hit: "cached d key = Some v" using ok_GET.prems(5) by (simp add: read_of_def Record_new_def)
  note same = same_cacheD [OF same_cache_get(2) [of d "clk' m" "clk' (m + 1)"]]
  obtain m' d' where "on_client (k (Some v)) grant' clk' (m + 2) ?d env = (p', st, m', d', env)" "same_cache ?d d'"
    using ok_GET.IH [of "n + 2" ?c ?d "m + 2"] ok_GET.prems Context_get_stored [OF ok_GET.hyps(1)] same
    by (auto simp: GET_macro_def search_get_in_cache_def)
  then show ?case
    using proxy_hit(1) [OF ok_GET.prems(6) hit, of _ _ table] same_cache_trans [OF same_cache_get(2)]
    by (auto simp: GET_macro_def)
qed auto

section \<open>Resumptions in a row\<close>

text \<open>\<open>served ws g c g' c'\<close>: an extension was resumed once for every world in \<open>ws\<close>, the tables as it found them each
  time; it read and yielded, and this took its generator and its context from \<open>g\<close>, \<open>c\<close> to \<open>g'\<close>, \<open>c'\<close>.\<close>

inductive served :: "(usize \<Rightarrow> usize) \<Rightarrow> byte_string \<Rightarrow> world list \<Rightarrow> server_gen \<Rightarrow> ctxt \<Rightarrow> server_gen \<Rightarrow> ctxt \<Rightarrow> bool"
  for grant args where
  served_none: "served grant args [] g c g c"
| served_more: "w (sg_tenant g) = Some tn \<Longrightarrow> reads_stored tn args (sg_prog g) rs \<Longrightarrow>
    server_resume grant g c w = (g1, ExtYielded y, c1, w1) \<Longrightarrow> served grant args ws g1 c1 g' c' \<Longrightarrow>
    served grant args (w # ws) g c g' c'"

fun client_runs ::
    "(usize \<Rightarrow> usize) \<Rightarrow> nat \<Rightarrow> client_gen \<Rightarrow> proxy_db \<Rightarrow> cenv \<Rightarrow> (client_gen \<times> proxy_db \<times> cenv) option" where
  "client_runs grant 0 g d env = Some (g, d, env)"
| "client_runs grant (Suc n) g d env =
     (case client_resume grant g d env of
        (g, ExtYielded y, d, env) \<Rightarrow> client_runs grant n g d env
      | _ \<Rightarrow> None)"

lemma server_resumeD:
  assumes "server_resume grant g c w = (g1, ExtYielded y, c1, w1)" and "w (sg_tenant g) = Some tn"
  shows "\<exists>n tn'. on_server (sg_prog g) grant (sg_clock g) (sg_ticks g) tn c = (sg_prog g1, ExtYielded y, n, tn', c1) \<and>
    sg_tenant g1 = sg_tenant g"
  using assms by (auto simp: server_resume_def split: prod.splits)

lemma served_reads:
  assumes "served grant args ws g c g' c'" and "Context_args c = Inr args"
  shows "\<exists>rs. c_tx c' = (c_tx c)\<lparr>tx_reads := tx_reads (c_tx c) @ rs\<rparr>"
  using assms
proof induction
  case (served_none g c)
  show ?case by (rule exI [of _ "[]"]) simp
next
  case (served_more w g tn rs c g1 y c1 w1 ws g' c')
  obtain n tn' where s: "on_server (sg_prog g) grant (sg_clock g) (sg_ticks g) tn c = (sg_prog g1, ExtYielded y, n, tn', c1)"
    using server_resumeD [OF served_more.hyps(3,1)] by blast
  have c1: "Context_args c1 = Inr args" "c_tx c1 = (c_tx c)\<lparr>tx_reads := tx_reads (c_tx c) @ rs\<rparr>"
    using on_server_reads [OF served_more.hyps(2) s _ served_more.prems] by auto
  then show ?case using served_more.IH by auto
qed

lemma served_replays:
  assumes "served grant args ws g c g' c'" and "Context_args c = Inr args" and "ProxyDB_args d = Inr args"
    and "\<forall>r \<in> set (tx_reads (c_tx c')). cached d (r_key r) = Some (r_object r)" and "length (p_readset d) \<le> 1024"
    and "cg_prog h = sg_prog g"
  shows "\<exists>h' d'. client_runs grant' (length ws) h d env = Some (h', d', env) \<and> cg_prog h' = sg_prog g' \<and> same_cache d d'"
  using assms
proof (induction arbitrary: d h)
  case (served_none g c)
  then show ?case by simp
next
  case (served_more w g tn rs c g1 y c1 w1 ws g' c')
  obtain n tn' where s: "on_server (sg_prog g) grant (sg_clock g) (sg_ticks g) tn c = (sg_prog g1, ExtYielded y, n, tn', c1)"
    using server_resumeD [OF served_more.hyps(3,1)] by blast
  have c1: "Context_args c1 = Inr args" "c_tx c1 = (c_tx c)\<lparr>tx_reads := tx_reads (c_tx c) @ rs\<rparr>"
    using on_server_reads [OF served_more.hyps(2) s _ served_more.prems(1)] by auto
  obtain rs' where "c_tx c' = (c_tx c1)\<lparr>tx_reads := tx_reads (c_tx c1) @ rs'\<rparr>"
    using served_reads [OF served_more.hyps(4) c1(1)] by blast
  then have hits: "\<forall>r \<in> set rs. cached d (r_key r) = Some (r_object r)" using served_more.prems(3) c1(2) by simp
  obtain m' d1 where cl: "on_client (sg_prog g) grant' (cg_clock h) (cg_ticks h) d env = (sg_prog g1, ExtYielded y, m', d1, env)"
      "same_cache d d1"
    using on_client_replays [OF served_more.hyps(2) s _ served_more.prems(1,2) hits served_more.prems(4)] by blast
  let ?h = "h\<lparr>cg_prog := sg_prog g1, cg_ticks := m'\<rparr>"
  have res: "client_resume grant' h d env = (?h, ExtYielded y, d1, env)"
    using cl(1) served_more.prems(5) by (simp add: client_resume_def)
  note same = same_cacheD [OF cl(2)]
  obtain h' d' where "client_runs grant' (length ws) ?h d1 env = Some (h', d', env)" "cg_prog h' = sg_prog g'" "same_cache d1 d'"
    using served_more.IH [of d1 ?h] c1(1) served_more.prems same by auto
  then show ?case using res same_cache_trans [OF cl(2)] by auto
qed

lemma map_of_distinct_keys:
  assumes "distinct (map r_key rs)" and "r \<in> set rs"
  shows "map_of (map (\<lambda>r. (kv_key r, kv_value r)) (map kv_of rs)) (r_key r) = Some (r_object r)"
  using assms by (intro map_of_is_SomeI) (auto simp: kv_of_def KV_new_def comp_def)

section \<open>Properties\<close>


section \<open>Witness\<close>

text \<open>An extension that reads the object of the tenant and yields, and the proxy it is given.\<close>

definition wit_reader :: prog where
  "wit_reader = GET_macro 1 [1] (\<lambda>v. Yield (CallResp (the v) (Return 0)))"

definition wit_reader_gen :: server_gen where
  "wit_reader_gen = \<lparr>sg_tenant = 0, sg_clock = (\<lambda>_. 0), sg_ticks = 0, sg_prog = wit_reader\<rparr>"

definition wit_filled_proxy :: proxy_db where
  "wit_filled_proxy = add_record (Record_new SandstormRead 1 [1] [9]) (ProxyDB_new 7 42 ([112] @ enc_u64 1) 1)"

lemma wit_stored: "stored wit_tenant 1 [1] = Some (1, [9])"
  by (simp add: stored_def wit_tenant_table wit_contents wit_resolve)

lemma wit_reader_reads: "reads_stored wit_tenant (enc_u64 1) wit_reader [read_of [1] 1 [9]]"
  unfolding wit_reader_def by (rule ok_GET [OF wit_stored ok_yield])

lemma wit_reader_resumed:
  "server_resume (\<lambda>n. n) wit_reader_gen wit_ctxt [0 \<mapsto> wit_tenant] =
     (wit_reader_gen\<lparr>sg_prog := CallResp [9] (Return 0), sg_ticks := 2\<rparr>, ExtYielded 0, wit_read, [0 \<mapsto> wit_tenant])"
  using Context_get_stored [OF wit_stored, of 0 0 wit_ctxt]
  by (simp add: server_resume_def wit_reader_gen_def wit_reader_def GET_macro_def search_get_in_cache_def
      wit_read_def read_of_def record_get_def charge_def GET_CREDIT_def Context_new_def TX_new_def)

lemma wit_served:
  "served (\<lambda>n. n) (enc_u64 1) [[0 \<mapsto> wit_tenant]] wit_reader_gen wit_ctxt
     (wit_reader_gen\<lparr>sg_prog := CallResp [9] (Return 0), sg_ticks := 2\<rparr>) wit_read"
  by (rule served_more [where tn = wit_tenant and rs = "[read_of [1] 1 [9]]", OF _ _ wit_reader_resumed served_none])
    (use wit_reader_reads in \<open>simp_all add: wit_reader_gen_def\<close>)

lemma wit_filled_proxy_holds: "proxy_holds wit_filled_proxy (tx_records (c_tx wit_read))"
  using proxy_holds_add [OF proxy_holds_new]
  by (simp add: wit_filled_proxy_def wit_read_fields(1) tx_records_def)


end
