(* ===== verification/Extensions.thy ===== *)
theory Extensions
  imports Programs
begin

unbundle bit_operations_syntax

text \<open>
  The extensions of the repository (\<open>ext/*/src/lib.rs\<close>), as programs over the \<open>DB\<close> trait: one
  definition for each generator that \<open>init\<close> builds. Bytes are put together with shifts the way each extension does.

  The cryptography of \<open>auth\<close> and \<open>checksum\<close> and the models of \<open>analysis\<close> come from other crates and are parameters of
  those programs. Busy waiting until the cycle counter has advanced has no other effect and is left out; a loop that yields between
  its waits is a recursion.
\<close>

section \<open>Pieces the extensions share\<close>

definition str_bytes :: "string \<Rightarrow> byte_string" where
  "str_bytes s = map of_char s"

definition invalid_args :: byte_string where
  "invalid_args = str_bytes ''Invalid args''"

definition no_object :: byte_string where
  "no_object = str_bytes ''Object does not exist''"

text \<open>The 32-bit numbers among the arguments, put together like the table identifiers of \<open>table_id_of\<close>.\<close>

definition u32_of :: "byte_string \<Rightarrow> u32" where
  "u32_of bs = fold (\<lambda>(idx, e) acc. acc OR push_bit (idx * 8) (ucast e)) (enumerate 0 bs) 0"

definition respond :: "byte_string \<Rightarrow> u64 \<Rightarrow> prog" where
  "respond data code = CallResp data (Return code)"

text \<open>\<open>keys[0..4].copy_from_slice(&val.read()[0..4])\<close>.\<close>

definition next_key :: "byte_string \<Rightarrow> byte_string \<Rightarrow> byte_string rust" where
  "next_key keys val = rbind (slice_range val 0 4) (\<lambda>src. copy_from_slice_at 0 4 src keys)"

section \<open>get\<close>

definition ext_get_init :: prog where
  "ext_get_init = CallArgs (\<lambda>args.
     if length args \<le> 8 then respond invalid_args 1
     else attempt (split_at args 8) (\<lambda>(table, key).
       CallGet (table_id_of table) key (\<lambda>obj.
         case obj of
           Some val \<Rightarrow> respond val 0
         | None \<Rightarrow> respond no_object 0)))"

section \<open>put\<close>

text \<open>In Rust \<open>2^8\<close> is an exclusive or that binds less tightly than the sums around it.\<close>

definition put_table_id :: "byte_string \<Rightarrow> u64 rust" where
  "put_table_id t =
     rbind (expect (get_opt t 0)) (\<lambda>b0. rbind (expect (get_opt t 1)) (\<lambda>b1.
     rbind (expect (get_opt t 2)) (\<lambda>b2. rbind (expect (get_opt t 3)) (\<lambda>b3.
     rbind (expect (get_opt t 4)) (\<lambda>b4. rbind (expect (get_opt t 5)) (\<lambda>b5.
     rbind (expect (get_opt t 6)) (\<lambda>b6. rbind (expect (get_opt t 7)) (\<lambda>b7.
     Inr ((ucast b0 + ucast b1 * 2) XOR (8 + ucast b2 * 2) XOR (16 + ucast b3 * 2) XOR (24 + ucast b4 * 2) XOR
       (32 + ucast b5 * 2) XOR (40 + ucast b6 * 2) XOR (48 + ucast b7 * 2) XOR 56)))))))))"

definition put_finish :: "u16 \<Rightarrow> write_buf option \<Rightarrow> prog" where
  "put_finish val_offset alloc =
     (case alloc of
        Some buf \<Rightarrow> CallArgs (\<lambda>args.
          attempt (split_at args (unat val_offset)) (\<lambda>(_, val).
          attempt (write_slice val buf) (\<lambda>buf.
            CallPut buf (\<lambda>ok. if ok then respond (str_bytes ''Success'') 0 else respond (str_bytes ''put() failed'') 1))))
      | None \<Rightarrow> respond (str_bytes ''Allocation failed'') 1)"

definition ext_put_init :: prog where
  "ext_put_init = CallArgs (\<lambda>args.
     if length args < 8 then respond invalid_args 1
     else attempt (split_at args 8) (\<lambda>(table, rem).
       attempt (put_table_id table) (\<lambda>table.
       if length rem < 2 then respond invalid_args 1
       else attempt (split_at rem 2) (\<lambda>(key_len, obj).
         attempt (rbind (expect (get_opt key_len 0)) (\<lambda>lo. rbind (expect (get_opt key_len 1)) (\<lambda>hi.
           Inr (ucast lo + ucast hi * 256 :: u16)))) (\<lambda>key_len.
         if length obj < unat key_len then respond invalid_args 1
         else attempt (split_at obj (unat key_len)) (\<lambda>(key, val).
           CallAlloc table key (word_of_nat (length val)) (put_finish (0 + (8 + 2 + key_len)))))))))"

section \<open>scan\<close>

primrec scan_loop :: "nat \<Rightarrow> u64 \<Rightarrow> byte_string \<Rightarrow> u64 \<Rightarrow> prog" where
  "scan_loop 0 table keys acc = respond (enc_u64 acc) 0"
| "scan_loop (Suc n) table keys acc =
     CallGet table keys (\<lambda>obj.
       case obj of
         Some val \<Rightarrow>
           attempt (index_slice val 0) (\<lambda>b. attempt (next_key keys val) (\<lambda>keys. scan_loop n table keys (acc + ucast b)))
       | None \<Rightarrow> respond no_object 0)"

definition ext_scan_init :: prog where
  "ext_scan_init = CallArgs (\<lambda>args.
     if length args \<le> 8 then respond invalid_args 1
     else attempt (split_at args 8) (\<lambda>(t, value).
       attempt (split_at value 4) (\<lambda>(ord, key).
         scan_loop (unat (u32_of ord - 1)) (table_id_of t) key 0)))"

section \<open>pushback\<close>

text \<open>The compute part: waits of at most 2000 cycles, with a yield between them.\<close>

function compute_loop :: "u32 \<Rightarrow> prog \<Rightarrow> prog" where
  "compute_loop ord p = (if ord \<le> 2000 then p else Yield (compute_loop (ord - 2000) p))"
  by pat_completeness auto
termination
proof (relation "measure (\<lambda>(ord, p). unat ord)", simp)
  fix ord :: u32 and p :: prog
  assume "\<not> ord \<le> 2000"
  then have "2000 \<le> ord" "2000 < unat ord" by (simp_all add: word_le_nat_alt)
  then show "((ord - 2000, p), (ord, p)) \<in> measure (\<lambda>(ord, p). unat ord)" by (simp add: unat_sub)
qed

declare compute_loop.simps [simp del]

definition compute_part :: "u32 \<Rightarrow> prog \<Rightarrow> prog" where
  "compute_part ord p = (if 600 \<le> ord then Yield (compute_loop (ord - 600) p) else compute_loop ord p)"

primrec ext_pushback_loop :: "nat \<Rightarrow> u64 \<Rightarrow> byte_string \<Rightarrow> u64 \<Rightarrow> (u64 \<Rightarrow> prog) \<Rightarrow> prog" where
  "ext_pushback_loop 0 table keys mul k = k mul"
| "ext_pushback_loop (Suc n) table keys mul k =
     GET_macro table keys (\<lambda>obj.
       if n = 0
       then (case obj of
               Some val \<Rightarrow> attempt (index_slice val 0) (\<lambda>b. ext_pushback_loop n table keys (ucast b) k)
             | None \<Rightarrow> respond no_object 1)
       else (case obj of
               Some val \<Rightarrow> attempt (next_key keys val) (\<lambda>keys. ext_pushback_loop n table keys mul k)
             | None \<Rightarrow> respond no_object 1))"

definition ext_pushback_init :: prog where
  "ext_pushback_init = CallArgs (\<lambda>args.
     if length args \<le> 8 then respond invalid_args 1
     else attempt (split_at args 8) (\<lambda>(table, value).
       attempt (split_at value 4) (\<lambda>(number, value).
       attempt (split_at value 4) (\<lambda>(order, key).
         ext_pushback_loop (unat (u32_of number)) (table_id_of table) key 0 (\<lambda>mul.
           compute_part (u32_of order) (respond (enc_u64 mul) 0))))))"

section \<open>ycsbt\<close>

text \<open>The transfer between the first bytes of two values.\<close>

definition transfer :: "byte_string \<Rightarrow> byte_string \<Rightarrow> (byte_string \<times> byte_string) rust" where
  "transfer value1 value2 =
     rbind (index_slice value1 0) (\<lambda>a. rbind (index_slice value2 0) (\<lambda>b.
     Inr (if 0 < a \<and> b < 255 then (value1[0 := a - 1], value2[0 := b + 1])
          else if 0 < b \<and> a < 255 then (value1[0 := a + 1], value2[0 := b - 1])
          else (value1, value2))))"

definition ycsbt_finish :: "u64 \<Rightarrow> byte_string \<Rightarrow> multi_read_buf option \<Rightarrow> prog" where
  "ycsbt_finish table keys multiobj =
     (case multiobj of
        Some vals \<Rightarrow>
          if MultiReadBuf_num vals = 2
          then attempt (split_at keys 30) (\<lambda>(key1, key2).
            attempt (MultiReadBuf_read vals) (\<lambda>value1.
            attempt (MultiReadBuf_read (snd (MultiReadBuf_next vals))) (\<lambda>value2.
            attempt (transfer value1 value2) (\<lambda>(value1, value2).
            CallAlloc table key1 (word_of_nat (length value1)) (\<lambda>r1.
              case r1 of
                None \<Rightarrow> respond (str_bytes ''Error'') 1
              | Some buf1 \<Rightarrow>
                  CallAlloc table key2 (word_of_nat (length value2)) (\<lambda>r2.
                    case r2 of
                      None \<Rightarrow> respond (str_bytes ''Error'') 1
                    | Some buf2 \<Rightarrow>
                        attempt (write_slice value1 buf1) (\<lambda>buf1.
                        attempt (write_slice value2 buf2) (\<lambda>buf2.
                        CallPut buf1 (\<lambda>_. CallPut buf2 (\<lambda>_. Return 0))))))))))
          else respond (str_bytes ''Error'') 1
      | None \<Rightarrow> respond no_object 1)"

text \<open>Operation 3 only calls \<open>debug_log\<close>, which does nothing.\<close>

definition ext_ycsbt_init :: prog where
  "ext_ycsbt_init = CallArgs (\<lambda>args.
     if length args \<le> 38 then respond invalid_args 1
     else attempt (index_slice args (usize_sub (length args) 1)) (\<lambda>optype.
       if optype = 3 then Return 0
       else attempt (split_at args 8) (\<lambda>(s_table, rem).
         attempt (split_at rem (usize_sub (length rem) 1)) (\<lambda>(rem, _).
         attempt (split_at rem (usize_sub (length rem) 4)) (\<lambda>(keys, ord).
           let table = table_id_of s_table; order = u32_of ord
           in if optype = 1
              then CallGet table keys (\<lambda>obj.
                case obj of
                  Some val \<Rightarrow> respond val 0
                | None \<Rightarrow> respond no_object 1)
              else CallMultiget table 30 keys (\<lambda>multiobj.
                if 0 < order then compute_part order (ycsbt_finish table keys multiobj)
                else ycsbt_finish table keys multiobj))))))"

section \<open>long\<close>

text \<open>\<open>long_loop n\<close> makes the last \<open>n\<close> of the 128 rounds; the arguments are looked at again in each.\<close>

primrec long_loop :: "nat \<Rightarrow> prog" where
  "long_loop 0 = Return 0"
| "long_loop (Suc n) =
     CallArgs (\<lambda>args.
       if length args \<le> 8 then respond invalid_args 1
       else attempt (split_at args 8) (\<lambda>(table, val).
         attempt (split_at val 1) (\<lambda>(y, key).
         attempt (index_slice y 0) (\<lambda>y_n.
         CallGet (table_id_of table) key (\<lambda>obj.
           case obj of
             None \<Rightarrow> respond no_object 1
           | Some val \<Rightarrow>
               attempt (split_at val 8) (\<lambda>(head, _).
               CallResp head
                 (if (word_of_nat (127 - n) :: u16) AND (ucast y_n - 1) = 0 \<and> (ucast y_n :: u16) < 128
                  then Yield (long_loop n) else long_loop n)))))))"

definition ext_long_init :: prog where
  "ext_long_init = long_loop 128"

section \<open>aggregate\<close>

definition KEYLENGTH :: u16 where "KEYLENGTH = 30"

text \<open>\<open>while vals.next() { col.push(vals.read()[0]) }\<close>. On an empty buffer \<open>next\<close> underflows and succeeds;
  the read behind it then panics.\<close>

function rest_of_column :: "multi_read_buf \<Rightarrow> byte_string \<Rightarrow> byte_string rust" where
  "rest_of_column vals col =
     (case MultiReadBuf_next vals of
        (False, vals) \<Rightarrow> Inr col
      | (True, vals) \<Rightarrow>
          case rbind (MultiReadBuf_read vals) (\<lambda>v. index_slice v 0) of
            Inl e \<Rightarrow> Inl e
          | Inr b \<Rightarrow> rest_of_column vals (col @ [b]))"
  by pat_completeness auto
termination
  by (relation "measure (\<lambda>(vals, col). usize_sub (length (mr_inner vals)) 1 - mr_index vals)")
    (auto simp: MultiReadBuf_next_def split: if_splits)

declare rest_of_column.simps [simp del]

definition column :: "multi_read_buf \<Rightarrow> byte_string rust" where
  "column vals =
     rbind (if 0 < MultiReadBuf_num vals then rbind (MultiReadBuf_read vals) (\<lambda>v. rbind (index_slice v 0) (\<lambda>b. Inr [b]))
            else Inr []) (rest_of_column vals)"

definition aggregate_column :: "byte_string \<Rightarrow> u64" where
  "aggregate_column col = fold (\<lambda>e a. a + ucast e) col 0"

text \<open>\<open>for _mul in 1..order { aggr *= aggr }\<close>.\<close>

definition squarings :: "u32 \<Rightarrow> u64 \<Rightarrow> u64" where
  "squarings order aggr = ((\<lambda>a. a * a) ^^ (unat order - 1)) aggr"

definition aggregate_finish :: "u32 \<Rightarrow> u64 \<Rightarrow> prog" where
  "aggregate_finish order aggr = Yield (CallResp [1] (respond (enc_u64 (squarings order aggr)) 0))"

definition ext_aggregate_init :: prog where
  "ext_aggregate_init = CallArgs (\<lambda>arg.
     attempt (split_at arg 8) (\<lambda>(t, val).
     attempt (split_at val 4) (\<lambda>(n, val).
     attempt (split_at val 4) (\<lambda>(ord, key).
       let table = table_id_of t; num_k = u32_of n; order = u32_of ord
       in GET1_macro table key (\<lambda>obj.
         case obj of
           None \<Rightarrow> aggregate_finish order 0
         | Some val \<Rightarrow>
             attempt (split_at val (unat KEYLENGTH * unat num_k)) (\<lambda>(value, _).
             MULTIGET1_macro table KEYLENGTH value (\<lambda>buf.
               case buf of
                 None \<Rightarrow> respond [3] 0
               | Some vals \<Rightarrow> attempt (column vals) (\<lambda>col. aggregate_finish order (aggregate_column col)))))))))"

section \<open>checksum\<close>

function checksum_loop ::
    "(u8 \<Rightarrow> byte_string \<Rightarrow> byte_string) \<Rightarrow> u8 \<Rightarrow> u32 \<Rightarrow> multi_read_buf \<Rightarrow> u64 \<Rightarrow> prog" where
  "checksum_loop digest optype num vals aggr =
     (let finish = CallResp [1] (respond (enc_u64 aggr) 0)
      in case MultiReadBuf_next vals of
           (False, vals) \<Rightarrow> finish
         | (True, vals) \<Rightarrow>
             if num = 0 then finish
             else if optype \<in> {1, 2, 3, 4}
             then (case MultiReadBuf_read vals of
                     Inl e \<Rightarrow> Panicked e
                   | Inr v \<Rightarrow>
                       attempt (index_slice (digest optype v) 0) (\<lambda>b.
                         Yield (checksum_loop digest optype num vals (aggr + ucast b))))
             else Yield (checksum_loop digest optype num vals aggr))"
  by pat_completeness auto
termination
  by (relation "measure (\<lambda>(digest, optype, num, vals, aggr). usize_sub (length (mr_inner vals)) 1 - mr_index vals)")
    (auto simp: MultiReadBuf_next_def split: if_splits)

declare checksum_loop.simps [simp del]

definition ext_checksum_init :: "(u8 \<Rightarrow> byte_string \<Rightarrow> byte_string) \<Rightarrow> prog" where
  "ext_checksum_init digest = CallArgs (\<lambda>arg.
     attempt (split_at arg 8) (\<lambda>(t, rem).
     attempt (split_at rem 4) (\<lambda>(n, rem).
     attempt (split_at rem 8) (\<lambda>(key, op).
     attempt (index_slice op 0) (\<lambda>optype.
       let table = table_id_of t; num = u32_of n; none = respond [3] 0
       in GET1_macro table key (\<lambda>obj.
         case obj of
           None \<Rightarrow> none
         | Some val \<Rightarrow>
             attempt (split_at val (unat KEYLENGTH * unat num)) (\<lambda>(value, _).
             MULTIGET1_macro table KEYLENGTH value (\<lambda>buf.
               case buf of
                 None \<Rightarrow> none
               | Some vals \<Rightarrow> checksum_loop digest optype num vals 0))))))))"

section \<open>auth\<close>

definition auth_key :: byte_string where
  "auth_key = map word_of_nat [0..<16]"

definition auth_iv :: byte_string where
  "auth_iv = map word_of_nat [0..<32]"

text \<open>\<open>aes_ige key iv\<close> decrypts the block in front of the password and \<open>bcrypt cost salt\<close> hashes the result.\<close>

definition ext_auth_init ::
    "(byte_string \<Rightarrow> byte_string \<Rightarrow> byte_string \<Rightarrow> byte_string) \<Rightarrow>
     (u32 \<Rightarrow> byte_string \<Rightarrow> byte_string \<Rightarrow> byte_string) \<Rightarrow> prog" where
  "ext_auth_init aes_ige bcrypt = CallArgs (\<lambda>args.
     if length args \<noteq> 110 then respond [1] 1
     else attempt (split_at args 8) (\<lambda>(s_table, remain_args).
       attempt (split_at remain_args 30) (\<lambda>(username, password).
       attempt (slice_range password 0 16) (\<lambda>block.
       attempt (copy_from_slice_at 0 16 (aes_ige auth_key auth_iv block) password) (\<lambda>password.
       GET_macro (table_id_of s_table) username (\<lambda>obj.
         Yield (case obj of
           Some bytes \<Rightarrow>
             if length bytes \<noteq> 40 then respond [1] 0
             else attempt (slice_range bytes 0 24) (\<lambda>hash.
               attempt (slice_range bytes 24 40) (\<lambda>salt.
               if bcrypt 1 salt password = hash then respond [2] 0 else respond [3] 0))
         | None \<Rightarrow> respond [4] 0)))))))"

section \<open>analysis\<close>

definition transform_u32_to_u8_slice :: "u32 \<Rightarrow> byte_string" where
  "transform_u32_to_u8_slice x =
     [ucast (x AND 0xff), ucast (drop_bit 8 x AND 0xff), ucast (drop_bit 16 x AND 0xff), ucast (drop_bit 24 x AND 0xff)]"

primrec analysis_collect :: "nat \<Rightarrow> u64 \<Rightarrow> byte_string \<Rightarrow> u32 \<Rightarrow> byte_string list \<Rightarrow> (byte_string list \<Rightarrow> prog) \<Rightarrow> prog" where
  "analysis_collect 0 table keys key_value values k = k values"
| "analysis_collect (Suc n) table keys key_value values k =
     GET_macro table keys (\<lambda>obj.
       case obj of
         None \<Rightarrow> respond no_object 0
       | Some val \<Rightarrow>
           attempt (copy_from_slice_at 0 4 (transform_u32_to_u8_slice (key_value + 1)) keys) (\<lambda>keys.
             analysis_collect n table keys (key_value + 1) (values @ [val]) k))"

text \<open>\<open>model\<close> is what \<open>DB::get_model\<close> returns: the models, if they have been loaded, as the function from the
  selected model and a vector to the packed prediction; \<open>deserialize\<close> is that of \<open>bincode\<close>.\<close>

primrec analysis_predict ::
    "(byte_string \<Rightarrow> 'v rust) \<Rightarrow> (u8 \<Rightarrow> 'v \<Rightarrow> byte_string rust) option \<Rightarrow> u8 \<Rightarrow> byte_string list \<Rightarrow> prog" where
  "analysis_predict deserialize model ml_model [] = Return 0"
| "analysis_predict deserialize model ml_model (v # vs) =
     (case model of
        Some predict \<Rightarrow>
          attempt (deserialize v) (\<lambda>x.
          attempt (if ml_model \<in> {1, 2, 3} then predict ml_model x else Inr (enc_u32 0)) (\<lambda>response.
          CallResp response (analysis_predict deserialize model ml_model vs)))
      | None \<Rightarrow> respond (str_bytes ''ML Model does not exist'') 0)"

definition ext_analysis_init ::
    "(byte_string \<Rightarrow> 'v rust) \<Rightarrow> (u8 \<Rightarrow> 'v \<Rightarrow> byte_string rust) option \<Rightarrow> prog" where
  "ext_analysis_init deserialize model = CallArgs (\<lambda>args.
     if length args \<le> 38 then respond invalid_args 1
     else attempt (split_at args 8) (\<lambda>(stable, remaining).
       attempt (split_at remaining 4) (\<lambda>(num, remaining).
       attempt (split_at remaining 1) (\<lambda>(m, key).
       attempt (index_slice m 0) (\<lambda>ml_model.
       attempt (slice_range key 0 4) (\<lambda>first.
         analysis_collect (unat (u32_of num)) (table_id_of stable) key (u32_of first) [] (\<lambda>values.
           Yield (analysis_predict deserialize model ml_model values))))))))"

section \<open>err\<close>

definition ext_err_start :: prog where
  "ext_err_start = Yield (Return 0)"

section \<open>Numbers among the arguments\<close>

lemma le_nat_Cons_or: "le_nat (b # bs) = unat b OR push_bit 8 (le_nat bs)"
proof -
  have "unat b AND push_bit 8 (le_nat bs) = 0"
  proof (rule bit_eqI)
    fix n
    have "bit (unat b) n \<Longrightarrow> n < 8" using bit_imp_le_length [of b n] by (simp add: bit_unsigned_iff)
    then show "bit (unat b AND push_bit 8 (le_nat bs)) n = bit 0 n" by (auto simp: bit_simps)
  qed
  then show ?thesis using disjunctive_add_eq_or [of "unat b" "push_bit 8 (le_nat bs)"] by (simp add: push_bit_eq_mult)
qed

lemma or_bytes:
  "fold (\<lambda>(idx, e) acc. acc OR push_bit (idx * 8) (ucast e)) (enumerate k bs) (acc :: 'a::len word) =
   acc OR push_bit (k * 8) (word_of_nat (le_nat bs))"
proof (induction bs arbitrary: k acc)
  case (Cons b bs)
  have "(word_of_nat (le_nat (b # bs)) :: 'a word) = ucast b OR push_bit 8 (word_of_nat (le_nat bs))"
    unfolding le_nat_Cons_or by (simp add: of_nat_or_eq of_nat_push_bit)
  then show ?case
    using Cons.IH [of "Suc k"] by (simp add: push_bit_or or.assoc add.commute [of 8])
qed simp

lemma table_id_of_dec: "table_id_of bs = dec_u64 bs"
  using or_bytes [of 0 bs 0] by (simp add: table_id_of_def dec_u64_def)

lemma u32_of_dec: "u32_of bs = dec_u32 bs"
  using or_bytes [of 0 bs 0] by (simp add: u32_of_def dec_u32_def)

lemma table_id_of_enc [simp]: "table_id_of (enc_u64 w) = w"
  by (simp add: table_id_of_dec)

lemma u32_of_enc [simp]: "u32_of (enc_u32 w) = w"
  by (simp add: u32_of_dec)

end
