(* ===== verification/ExtRuns.thy ===== *)
theory ExtRuns
  imports Extensions
begin

text \<open>
  Runs of extensions on the server: \<open>server_runs\<close> resumes a program until it completes or panics, and the properties say what
  an invocation of an extension does from its arguments to the commit of its transaction.
\<close>

fun server_runs ::
    "nat \<Rightarrow> prog \<Rightarrow> (usize \<Rightarrow> usize) \<Rightarrow> (nat \<Rightarrow> u64) \<Rightarrow> nat \<Rightarrow> tenant \<Rightarrow> ctxt \<Rightarrow> (ext_step \<times> tenant \<times> ctxt) option" where
  "server_runs 0 p grant clk n tn c = None"
| "server_runs (Suc f) p grant clk n tn c =
     (case on_server p grant clk n tn c of
        (p, ExtYielded y, n, tn, c) \<Rightarrow> server_runs f p grant clk n tn c
      | (p, r, n, tn, c) \<Rightarrow> Some (r, tn, c))"

lemma server_runs_cong:
  "on_server p grant clk n tn c = on_server q grant clk m tn d \<Longrightarrow>
   server_runs f p grant clk n tn c = server_runs f q grant clk m tn d"
  by (cases f) simp_all

lemma server_runs_complete:
  "on_server p grant clk n tn c = (p', ExtComplete v, n', tn', c') \<Longrightarrow> server_runs 1 p grant clk n tn c = Some (ExtComplete v, tn', c')"
  by simp

lemma compute_loop_runs:
  assumes "server_runs f p grant clk n tn c = Some r"
  shows "\<exists>f'. server_runs f' (compute_loop ord p) grant clk n tn c = Some r"
  using assms
proof (induction ord p rule: compute_loop.induct)
  case (1 ord p)
  show ?case
  proof (cases "ord \<le> 2000")
    case True
    then show ?thesis using "1.prems" by (auto simp: compute_loop.simps)
  next
    case False
    then obtain f' where "server_runs f' (compute_loop (ord - 2000) p) grant clk n tn c = Some r"
      using "1.IH" "1.prems" by blast
    then have "server_runs (Suc f') (compute_loop ord p) grant clk n tn c = Some r"
      using False by (subst compute_loop.simps) simp
    then show ?thesis by blast
  qed
qed

lemma compute_part_runs:
  assumes "server_runs f p grant clk n tn c = Some r"
  shows "\<exists>f'. server_runs f' (compute_part ord p) grant clk n tn c = Some r"
proof (cases "600 \<le> ord")
  case True
  obtain f' where "server_runs f' (compute_loop (ord - 600) p) grant clk n tn c = Some r"
    using compute_loop_runs [OF assms] by blast
  then have "server_runs (Suc f') (compute_part ord p) grant clk n tn c = Some r"
    using True by (simp add: compute_part_def)
  then show ?thesis by blast
next
  case False
  then show ?thesis using compute_loop_runs [OF assms, of ord] by (simp add: compute_part_def)
qed

lemma maybe_compute_runs:
  assumes "server_runs f p grant clk n tn c = Some r"
  shows "\<exists>f'. server_runs f' (if b then compute_part ord p else p) grant clk n tn c = Some r"
  using compute_part_runs [OF assms] assms by (cases b) (simp_all only: if_True if_False, blast)

section \<open>Calls that succeed\<close>

lemma storedD:
  assumes "stored tn tb key = Some (ver, v)"
  obtains t e where "key \<noteq> []" "get_table tn tb = Some t" "contents t key = Some e"
    "Allocator_resolve (e_value e) = Inr (Some (key, v))" "e_version e = ver"
  using assms by (auto simp: stored_def split: option.splits sum.splits if_splits)

lemma multiget_two:
  assumes "stored tn tb k1 = Some (ver1, v1)" and "stored tn tb k2 = Some (ver2, v2)"
    and "length k1 = unat kl" and "length k2 = unat kl"
  shows "Context_multiget s n tn tb kl (k1 @ k2) c =
    (charge s n MULTIGET_CREDIT
       (c\<lparr>c_tx := record_get (read_of k2 ver2 v2) (record_get (read_of k1 ver1 v1) (c_tx c))\<rparr>),
     Inr (Some (MultiReadBuf_new [v1, v2])))"
proof -
  obtain t e1 where t: "k1 \<noteq> []" "get_table tn tb = Some t" "contents t k1 = Some e1"
      "Allocator_resolve (e_value e1) = Inr (Some (k1, v1))" "e_version e1 = ver1"
    using storedD [OF assms(1)] by blast
  obtain e2 where e2: "k2 \<noteq> []" "contents t k2 = Some e2" "Allocator_resolve (e_value e2) = Inr (Some (k2, v2))"
      "e_version e2 = ver2"
    using storedD [OF assms(2)] t(2) by (metis option.inject)
  have pos: "0 < unat kl" using assms(3) t(1) by (metis length_greater_0_conv)
  then have "chunks (k1 @ k2) (unat kl) = Inr [k1, k2]"
    using chunks_of_concat [of "[k1, k2]" "unat kl"] assms(3,4) by (simp add: chunks_def)
  then show ?thesis
    using t e2 assms(3,4) by (simp add: Context_multiget_def table_simps read_of_def)
qed

lemma alloc_write_put:
  assumes "\<And>n. n \<le> grant n" and "get_table tn tb = Some t" and "length key < 2 ^ 16" and "length v < 2 ^ 63"
    and "c_allocs c < MAX_ALLOC"
  shows "\<exists>buf buf'. Context_alloc grant tn tb key (word_of_nat (length v)) c =
      (c\<lparr>c_allocs := c_allocs c + (14 + length key)\<rparr>, Inr (Some buf)) \<and> write_slice v buf = Inr buf' \<and>
    (\<forall>s n d. Context_put s n tn buf' d =
      (charge s n PUT_CREDIT (d\<lparr>c_tx := record_put (Record_new SandstormWrite Table_version key v) (c_tx d)\<rparr>), Inr True))"
proof -
  have len: "unat (word_of_nat (length v) :: u64) = length v" using assms(4) by simp
  obtain cap where raw: "Allocator_raw grant (tn_id tn) tb key (word_of_nat (length v)) =
      Inr (Some \<lparr>bm_data = obj_meta (tn_id tn) tb (word_of_nat (length key)) @ key, bm_cap = cap\<rparr>)"
      "14 + length key + length v \<le> cap"
    using raw_layout [OF assms(1,3), of "word_of_nat (length v)" "tn_id tn" tb] assms(4) unfolding len by auto
  have key: "length key = unat (word_of_nat (length key) :: u16)" using assms(3) by simp
  let ?m = "obj_meta (tn_id tn) tb (word_of_nat (length key))"
  let ?buf = "WriteBuf_new tb \<lparr>bm_data = ?m @ key, bm_cap = cap\<rparr>"
  let ?buf' = "?buf\<lparr>wb_inner := \<lparr>bm_data = (?m @ key) @ v, bm_cap = cap\<rparr>\<rparr>"
  have "Context_alloc grant tn tb key (word_of_nat (length v)) c = (c\<lparr>c_allocs := c_allocs c + (14 + length key)\<rparr>, Inr (Some ?buf))"
    using assms(2,5) raw(1) by (simp add: Context_alloc_def)
  moreover have "write_slice v ?buf = Inr ?buf'"
    using raw(2) by (simp add: write_slice_def WriteBuf_new_def put_slice_def)
  moreover have "Context_put s n tn ?buf' d =
      (charge s n PUT_CREDIT (d\<lparr>c_tx := record_put (Record_new SandstormWrite Table_version key v) (c_tx d)\<rparr>), Inr True)" for s n d
    using assms(2) resolve_object [OF key, of "tn_id tn" tb v] by (simp add: Context_put_def WriteBuf_new_def WriteBuf_freeze_def)
  ultimately show ?thesis by blast
qed

section \<open>ycsbt\<close>

lemma transfer_conserves:
  assumes "v1 \<noteq> []" and "v2 \<noteq> []"
  shows "\<exists>v1' v2'. transfer v1 v2 = Inr (v1', v2') \<and> length v1' = length v1 \<and> length v2' = length v2 \<and>
    tl v1' = tl v1 \<and> tl v2' = tl v2 \<and> unat (v1' ! 0) + unat (v2' ! 0) = unat (v1 ! 0) + unat (v2 ! 0)"
proof -
  obtain a xs b ys where v: "v1 = a # xs" "v2 = b # ys" using assms by (meson list.exhaust)
  have lt: "unat (255 :: u8) = 255" "unat a < 256" "unat b < 256" using unat_byte_lt by simp_all
  show ?thesis
  proof (cases "0 < a \<and> b < 255")
    case True
    then have "0 < unat a" "unat b < 255" using lt(1) by (simp_all add: word_less_nat_alt)
    then show ?thesis using True v lt by (simp add: transfer_def index_slice_def unat_word_ariths unat_sub word_le_nat_alt unat_minus_one)
  next
    case F: False
    show ?thesis
    proof (cases "0 < b \<and> a < 255")
      case True
      then have "0 < unat b" "unat a < 255" using lt(1) by (simp_all add: word_less_nat_alt)
      then show ?thesis using True F v lt by (auto simp: transfer_def index_slice_def unat_word_ariths unat_sub word_le_nat_alt)
    next
      case False
      then show ?thesis using F v by (auto simp: transfer_def index_slice_def)
    qed
  qed
qed

lemma ycsbt_finish_runs:
  assumes "\<And>n. n \<le> grant n" and "get_table tn tb = Some t" and "length k1 = 30" and "length k2 = 30"
    and "length v1 < 2 ^ 63" and "length v2 < 2 ^ 63" and "c_allocs c = 0"
    and "transfer v1 v2 = Inr (v1', v2')" and "length v1' = length v1" and "length v2' = length v2"
  shows "\<exists>c'. on_server (ycsbt_finish tb (k1 @ k2) (Some (MultiReadBuf_new [v1, v2]))) grant clk n tn c = (Return 0, ExtComplete 0, n + 4, tn, c') \<and>
    c_tx c' = record_put (Record_new SandstormWrite Table_version k2 v2')
      (record_put (Record_new SandstormWrite Table_version k1 v1') (c_tx c)) \<and>
    Context_args c' = Context_args c \<and> c_request c' = c_request c \<and> c_response c' = c_response c"
proof -
  let ?c1 = "c\<lparr>c_allocs := 44\<rparr>"
  obtain b1 b1' where b1: "Context_alloc grant tn tb k1 (word_of_nat (length v1)) c = (?c1, Inr (Some b1))"
      "write_slice v1' b1 = Inr b1'" "\<forall>s n d. Context_put s n tn b1' d =
      (charge s n PUT_CREDIT (d\<lparr>c_tx := record_put (Record_new SandstormWrite Table_version k1 v1') (c_tx d)\<rparr>), Inr True)"
    using alloc_write_put [OF assms(1,2), of k1 v1' c] assms(3,5,7,9) by (auto simp: MAX_ALLOC_def)
  obtain b2 b2' where b2: "Context_alloc grant tn tb k2 (word_of_nat (length v2)) ?c1 = (?c1\<lparr>c_allocs := 88\<rparr>, Inr (Some b2))"
      "write_slice v2' b2 = Inr b2'" "\<forall>s n d. Context_put s n tn b2' d =
      (charge s n PUT_CREDIT (d\<lparr>c_tx := record_put (Record_new SandstormWrite Table_version k2 v2') (c_tx d)\<rparr>), Inr True)"
    using alloc_write_put [OF assms(1,2), of k2 v2' ?c1] assms(4,6,10) by (auto simp: MAX_ALLOC_def)
  have reads: "MultiReadBuf_num (MultiReadBuf_new [v1, v2]) = 2" "MultiReadBuf_read (MultiReadBuf_new [v1, v2]) = Inr v1"
      "MultiReadBuf_read (snd (MultiReadBuf_next (MultiReadBuf_new [v1, v2]))) = Inr v2"
      "split_at (k1 @ k2) 30 = Inr (k1, k2)"
    using assms(3) by (simp_all add: MultiReadBuf_new_def MultiReadBuf_num_def MultiReadBuf_read_def MultiReadBuf_next_def
        index_slice_def split_at_def)
  show ?thesis
    unfolding ycsbt_finish_def option.case reads if_True
    by (simp add: reads assms(8-10) b1(1,2) b2(1,2)) (simp add: b1(3) b2(3) Context_args_def)
qed

lemma ycsbt_starts:
  assumes "Context_args c = Inr (enc_u64 tb @ keys @ enc_u32 order @ [optype])" and "length keys = 60"
    and "optype \<noteq> 1" and "optype \<noteq> 3"
  shows "on_server ext_ycsbt_init grant clk n tn c =
    on_server (CallMultiget tb 30 keys (\<lambda>multiobj.
      if 0 < order then compute_part order (ycsbt_finish tb keys multiobj) else ycsbt_finish tb keys multiobj)) grant clk n tn c"
proof -
  let ?args = "enc_u64 tb @ keys @ enc_u32 order @ [optype]"
  let ?rem = "keys @ enc_u32 order @ [optype]"
  have "index_slice ?args (usize_sub (length ?args) 1) = Inr optype" "split_at ?args 8 = Inr (enc_u64 tb, ?rem)"
      "split_at ?rem (usize_sub (length ?rem) 1) = Inr (keys @ enc_u32 order, [optype])"
      "split_at (keys @ enc_u32 order) (usize_sub (length (keys @ enc_u32 order)) 4) = Inr (keys, enc_u32 order)"
    using assms(2) by (simp_all add: index_slice_def split_at_def nth_append)
  then show ?thesis
    unfolding ext_ycsbt_init_def on_server.simps(4) assms(1) sum.case
    using assms(2-4) by (simp del: on_server.simps add: Let_def cong: if_cong)
qed

lemma ycsbt_runs:
  assumes "\<And>n. n \<le> grant n" and "Context_args (Context_new req off len res) = Inr (enc_u64 tb @ (k1 @ k2) @ enc_u32 order @ [optype])"
    and "optype \<noteq> 1" and "optype \<noteq> 3" and "length k1 = 30" and "length k2 = 30" and "get_table tn tb = Some t"
    and "stored tn tb k1 = Some (ver1, v1)" and "stored tn tb k2 = Some (ver2, v2)" and "length v1 < 2 ^ 63" and "length v2 < 2 ^ 63"
    and "transfer v1 v2 = Inr (v1', v2')" and "length v1' = length v1" and "length v2' = length v2"
  shows "\<exists>fuel c. server_runs fuel ext_ycsbt_init grant clk n tn (Context_new req off len res) = Some (ExtComplete 0, tn, c) \<and>
    tx_reads (c_tx c) = [read_of k1 ver1 v1, read_of k2 ver2 v2] \<and>
    tx_writes (c_tx c) = [Record_new SandstormWrite Table_version k1 v1', Record_new SandstormWrite Table_version k2 v2'] \<and>
    Context_args c = Inr (enc_u64 tb @ (k1 @ k2) @ enc_u32 order @ [optype]) \<and> c_request c = req \<and> c_response c = res"
proof -
  let ?c0 = "Context_new req off len res"
  let ?args = "enc_u64 tb @ (k1 @ k2) @ enc_u32 order @ [optype]"
  let ?x = "record_get (read_of k2 ver2 v2) (record_get (read_of k1 ver1 v1) TX_new)"
  let ?c1 = "charge (clk n) (clk (n + 1)) MULTIGET_CREDIT (?c0\<lparr>c_tx := ?x\<rparr>)"
  let ?fin = "ycsbt_finish tb (k1 @ k2) (Some (MultiReadBuf_new [v1, v2]))"
  have multi: "Context_multiget (clk n) (clk (n + 1)) tn tb 30 (k1 @ k2) ?c0 = (?c1, Inr (Some (MultiReadBuf_new [v1, v2])))"
    using multiget_two [OF assms(8,9), of 30] assms(5,6) by (simp add: Context_new_def)
  have c1: "c_allocs ?c1 = 0" "c_tx ?c1 = ?x" "Context_args ?c1 = Inr ?args" "c_request ?c1 = req" "c_response ?c1 = res"
    unfolding Context_args_tx using assms(2) by (simp_all add: Context_new_def)
  obtain c where c: "on_server ?fin grant clk (n + 2) tn ?c1 = (Return 0, ExtComplete 0, n + 2 + 4, tn, c)"
      "c_tx c = record_put (Record_new SandstormWrite Table_version k2 v2') (record_put (Record_new SandstormWrite Table_version k1 v1') ?x)"
      "Context_args c = Inr ?args" "c_request c = req" "c_response c = res"
    using ycsbt_finish_runs [OF assms(1,7,5,6,10,11) c1(1) assms(12-14), of clk "n + 2"] unfolding c1 by blast
  obtain f where "server_runs f (if 0 < order then compute_part order ?fin else ?fin) grant clk (n + 2) tn ?c1 = Some (ExtComplete 0, tn, c)"
    using maybe_compute_runs [OF server_runs_complete [OF c(1)]] by blast
  moreover have "on_server ext_ycsbt_init grant clk n tn ?c0 =
      on_server (if 0 < order then compute_part order ?fin else ?fin) grant clk (n + 2) tn ?c1"
    using ycsbt_starts [OF assms(2) _ assms(3,4)] assms(5,6) multi by simp
  ultimately have "server_runs f ext_ycsbt_init grant clk n tn ?c0 = Some (ExtComplete 0, tn, c)"
    using server_runs_cong by metis
  moreover have "tx_reads (c_tx c) = [read_of k1 ver1 v1, read_of k2 ver2 v2]" "tx_writes (c_tx c) =
      [Record_new SandstormWrite Table_version k1 v1', Record_new SandstormWrite Table_version k2 v2']"
    by (simp_all add: c(2) record_put_def record_get_def TX_new_def)
  ultimately show ?thesis using c(3-5) by blast
qed

lemma stored_installed:
  assumes "get_table tn tb = Some t" and "contents t' = install_spec a tb ts ws (contents t)" and "last_write ws key = Some v"
    and "key \<noteq> []" and "length key < 2 ^ 16"
  shows "stored (put_table tb t' tn) tb key = Some (ts, v)"
proof -
  have "length key = unat (word_of_nat (length key) :: u16)" using assms(5) by simp
  then show ?thesis using assms(3,4) resolve_object [of key] by (simp add: stored_def assms(2) install_spec_def)
qed

section \<open>put\<close>

lemma le_bytes_0: "le_bytes n 0 = replicate n 0"
  by (induction n) simp_all

lemma put_table_id_small: "w < 256 \<Longrightarrow> put_table_id (enc_u64 w) = Inr w"
proof -
  assume "w < 256"
  then have lt: "unat w < 256" by (simp add: word_less_nat_alt)
  have eight: "(8 :: nat) = Suc 7" by simp
  have "enc_u64 w = word_of_nat (unat w) # replicate 7 0"
    unfolding enc_u64_def eight le_bytes.simps using lt by (simp add: le_bytes_0)
  moreover have "ucast (word_of_nat (unat w) :: u8) = w"
    using lt by (simp add: word_unat_eq_iff unsigned_ucast_eq unsigned_take_bit_eq take_bit_nat_eq_self)
  ultimately show ?thesis by (simp add: put_table_id_def get_opt_def xor.assoc)
qed

lemma put_table_id_256: "put_table_id (enc_u64 256) = Inr 2"
  by code_simp

lemma put_extension_starts:
  assumes "Context_args c = Inr (enc_u64 tb @ enc_u16 kl @ key @ val)" and "length key = unat kl"
  shows "on_server ext_put_init grant clk n tn c =
    on_server (attempt (put_table_id (enc_u64 tb)) (\<lambda>tb. CallAlloc tb key (word_of_nat (length val)) (put_finish (10 + kl)))) grant clk n tn c"
proof -
  let ?args = "enc_u64 tb @ enc_u16 kl @ key @ val"
  have "split_at ?args 8 = Inr (enc_u64 tb, enc_u16 kl @ key @ val)" "split_at (enc_u16 kl @ key @ val) 2 = Inr (enc_u16 kl, key @ val)"
      "split_at (key @ val) (unat kl) = Inr (key, val)"
      "get_opt (enc_u16 kl) 0 = Some (word_of_nat (unat kl mod 256))" "get_opt (enc_u16 kl) 1 = Some (word_of_nat (unat kl div 256 mod 256))"
    using assms(2) by (simp_all add: split_at_def get_opt_def enc_u16_bytes)
  then show ?thesis
    unfolding ext_put_init_def on_server.simps(4) assms(1) sum.case
    using assms(2) u16_of_two_bytes [of kl] by (simp del: on_server.simps add: put_finish_def)
qed

section \<open>Properties\<close>


text \<open>The table the extension \<open>put\<close> writes to. A table identifier below 256 is understood; for table 256 the extension
  asks for an object in table 2 instead and reports a failed allocation when there is no such table.\<close>

lemma put_extension_table:
  assumes "Context_args c = Inr (enc_u64 tb @ enc_u16 kl @ key @ val)" and "length key = unat kl"
  shows "(tb < 256 \<longrightarrow> on_server ext_put_init grant clk n tn c =
      on_server (CallAlloc tb key (word_of_nat (length val)) (put_finish (10 + kl))) grant clk n tn c) \<and>
    (tb = 256 \<longrightarrow> get_table tn 2 = None \<longrightarrow> c_allocs c < MAX_ALLOC \<longrightarrow>
      on_server ext_put_init grant clk n tn c = on_server (respond (str_bytes ''Allocation failed'') 1) grant clk n tn c)"
proof -
  have start: "on_server ext_put_init grant clk n tn c =
      on_server (attempt (put_table_id (enc_u64 tb)) (\<lambda>tb. CallAlloc tb key (word_of_nat (length val)) (put_finish (10 + kl)))) grant clk n tn c"
    by (rule put_extension_starts [OF assms])
  show ?thesis
    unfolding start
    by (auto simp: put_table_id_small put_table_id_256 Context_alloc_def put_finish_def)
qed

section \<open>Witnesses\<close>

text \<open>Invocations with arbitrary arguments, and a tenant with two accounts.\<close>

definition wit_invocation :: "byte_string \<Rightarrow> ctxt" where
  "wit_invocation args =
     Context_new (demo_packet InvokeRequest (enc_invoke_request (InvokeRequest_new 7 0 (word_of_nat (length args)) 42) @ args))
       0 (length args) wit_response"

lemma wit_invocation_args: "length args \<le> 100 \<Longrightarrow> Context_args (wit_invocation args) = Inr args"
  using get_payload_view [OF demo_packet_view [of "enc_invoke_request (InvokeRequest_new 7 0 (word_of_nat (length args)) 42) @ args" InvokeRequest]]
  by (simp add: Context_args_def Context_new_def wit_invocation_def)

abbreviation wit_account :: "u8 \<Rightarrow> byte_string" where
  "wit_account b \<equiv> b # replicate 29 0"

definition wit_balance :: "u8 \<Rightarrow> u8 \<Rightarrow> entry" where
  "wit_balance b v = \<lparr>e_version = 1, e_value = obj_meta 7 1 30 @ wit_account b @ [v, 5]\<rparr>"

definition wit_bank_table :: table where
  "wit_bank_table = store (store Table_default (wit_account 1) (Some (wit_balance 1 0))) (wit_account 2) (Some (wit_balance 2 255))"

definition wit_bank :: tenant where
  "wit_bank = put_table 1 wit_bank_table (Tenant_new 7)"

lemma wit_bank_table_wf: "table_wf wit_bank_table"
  by (simp add: wit_bank_table_def store_wf table_wf_default)

lemma wit_bank_stored: "stored wit_bank 1 (wit_account 1) = Some (1, [0, 5])" "stored wit_bank 1 (wit_account 2) = Some (1, [255, 5])"
  using resolve_object [of "wit_account 1" 30 7 1 "[0, 5]"] resolve_object [of "wit_account 2" 30 7 1 "[255, 5]"]
  by (simp_all add: stored_def wit_bank_def wit_bank_table_def contents_store store_wf table_wf_default wit_balance_def)


end
