(* ===== verification/Tao.thy ===== *)
theory Tao
  imports ExtRuns
begin

text \<open>
  The extension \<open>tao\<close> (\<open>ext/tao/src/lib.rs\<close>): objects and associations between them in two tables. The
  methods of \<open>TAO\<close> are programs in continuation-passing style: \<open>k\<close> is what the caller does with the result.
  \<open>current_time\<close> reads the system clock; its value is the parameter \<open>now\<close>.
\<close>

section \<open>Associations\<close>

record association =
  as_id :: u64
  as_time :: u64

definition Association_size :: usize where
  "Association_size = 8 + 8"

definition Association_serialize :: "association \<Rightarrow> write_buf \<Rightarrow> write_buf rust" where
  "Association_serialize a b = rbind (write_u64 (as_id a) True b) (write_u64 (as_time a) True)"

text \<open>\<open>read_u64\<close> fails when fewer than eight bytes are left, and its result is unwrapped.\<close>

definition Association_deserialize :: "byte_string \<Rightarrow> association rust" where
  "Association_deserialize bytes =
     (if length bytes < 16 then Inl UnwrapFailed
      else Inr \<lparr>as_id = dec_u64 (take 8 bytes), as_time = dec_u64 (take 8 (drop 8 bytes))\<rparr>)"

type_synonym assoc_list = "association list"

definition AssociationList_size :: "assoc_list \<Rightarrow> usize" where
  "AssociationList_size l = length l * Association_size"

primrec AssociationList_serialize :: "assoc_list \<Rightarrow> write_buf \<Rightarrow> write_buf rust" where
  "AssociationList_serialize [] b = Inr b"
| "AssociationList_serialize (a # l) b = rbind (Association_serialize a b) (AssociationList_serialize l)"

function deserialize_from :: "byte_string \<Rightarrow> usize \<Rightarrow> assoc_list \<Rightarrow> assoc_list rust" where
  "deserialize_from bytes start l =
     (if start < length bytes
      then case rbind (slice_range bytes start (start + Association_size)) Association_deserialize of
             Inl e \<Rightarrow> Inl e
           | Inr a \<Rightarrow> deserialize_from bytes (start + Association_size) (l @ [a])
      else Inr l)"
  by pat_completeness auto
termination
  by (relation "measure (\<lambda>(bytes, start, l). length bytes - start)") (auto simp: Association_size_def)

declare deserialize_from.simps [simp del]

definition AssociationList_deserialize :: "byte_string \<Rightarrow> assoc_list rust" where
  "AssociationList_deserialize bytes = deserialize_from bytes 0 []"

text \<open>The position of the first association that satisfies a condition.\<close>

fun find_from :: "(association \<Rightarrow> bool) \<Rightarrow> usize \<Rightarrow> assoc_list \<Rightarrow> usize option" where
  "find_from p i [] = None"
| "find_from p i (a # l) = (if p a then Some i else find_from p (i + 1) l)"

text \<open>\<open>self.list[idx] = self.list[idx - 1]\<close> for the positions given.\<close>

fun shift_down :: "usize list \<Rightarrow> assoc_list \<Rightarrow> assoc_list rust" where
  "shift_down [] l = Inr l"
| "shift_down (idx # idxs) l =
     rbind (index_slice l (usize_sub idx 1)) (\<lambda>a. shift_down idxs (l[idx := a]))"

definition AssociationList_remove :: "u64 \<Rightarrow> assoc_list \<Rightarrow> assoc_list rust" where
  "AssociationList_remove id_2 l =
     (case find_from (\<lambda>a. as_id a = id_2) 0 l of
        None \<Rightarrow> Inr l
      | Some pos \<Rightarrow> shift_down [pos..<usize_sub (length l) 1] l)"

text \<open>\<open>self.list[idx] = self.list[idx + 1]\<close> for the positions given.\<close>

fun shift_up :: "usize list \<Rightarrow> assoc_list \<Rightarrow> assoc_list rust" where
  "shift_up [] l = Inr l"
| "shift_up (idx # idxs) l =
     rbind (index_slice l (idx + 1)) (\<lambda>a. shift_up idxs (l[idx := a]))"

definition AssociationList_add :: "association \<Rightarrow> assoc_list \<Rightarrow> assoc_list rust" where
  "AssociationList_add a l =
     (let l = l @ [a]
      in case find_from (\<lambda>b. as_time b < as_time a) 0 l of
           None \<Rightarrow> Inr l
         | Some pos \<Rightarrow> rbind (shift_up [usize_sub (length l) 2..<pos + 1] l) (\<lambda>l. Inr (l[pos := a])))"

section \<open>Objects\<close>

definition ObjectHeader_size :: usize where
  "ObjectHeader_size = 2"

definition object_update :: "u64 \<Rightarrow> byte_string \<Rightarrow> u16 \<Rightarrow> byte_string \<Rightarrow> (bool \<Rightarrow> prog) \<Rightarrow> prog" where
  "object_update table i otype data k =
     CallAlloc table i (word_of_nat (ObjectHeader_size + length data)) (\<lambda>r.
       case r of
         None \<Rightarrow> k False
       | Some container \<Rightarrow>
           attempt (write_u16 otype True container) (\<lambda>container.
           attempt (write_slice data container) (\<lambda>container.
           CallPut container k)))"

text \<open>A new \<open>TAO\<close> starts with \<open>next_id\<close> 1 and is used for one request.\<close>

definition allocate_unique_id :: "u64 \<Rightarrow> u64 \<times> byte_string" where
  "allocate_unique_id next_id = (next_id + 1, enc_u64 (next_id + 1))"

definition object_add :: "u64 \<Rightarrow> u16 \<Rightarrow> byte_string \<Rightarrow> (byte_string \<Rightarrow> prog) \<Rightarrow> prog" where
  "object_add table otype data k =
     (case allocate_unique_id 1 of (next_id, object_id) \<Rightarrow> object_update table object_id otype data (\<lambda>_. k object_id))"

definition object_delete :: "u64 \<Rightarrow> byte_string \<Rightarrow> (bool \<Rightarrow> prog) \<Rightarrow> prog" where
  "object_delete table i k = CallDel table i (k True)"

definition object_get :: "u64 \<Rightarrow> byte_string \<Rightarrow> (bool \<Rightarrow> prog) \<Rightarrow> prog" where
  "object_get table i k =
     CallGet table i (\<lambda>obj.
       case obj of
         Some data \<Rightarrow>
           attempt (slice_range data 0 ObjectHeader_size) (\<lambda>otype.
           attempt (slice_range data ObjectHeader_size (usize_sub (length data) 1)) (\<lambda>object.
           CallResp object (k True)))
       | None \<Rightarrow> k False)"

section \<open>Associations in the table\<close>

definition put_list :: "u64 \<Rightarrow> byte_string \<Rightarrow> assoc_list \<Rightarrow> (bool option \<Rightarrow> prog) \<Rightarrow> prog" where
  "put_list table key l k =
     CallAlloc table key (word_of_nat (AssociationList_size l)) (\<lambda>r.
       case r of
         None \<Rightarrow> k None
       | Some container \<Rightarrow> attempt (AssociationList_serialize l container) (\<lambda>container. CallPut container (\<lambda>ok. k (Some ok))))"

definition association_add :: "u64 \<Rightarrow> u64 \<Rightarrow> byte_string \<Rightarrow> byte_string \<Rightarrow> byte_string \<Rightarrow> (bool \<Rightarrow> prog) \<Rightarrow> prog" where
  "association_add now table id1 atype id2 k =
     (let new_assoc = \<lparr>as_id = table_id_of id2, as_time = now\<rparr>; list_key = id1 @ atype
      in CallAlloc table (id1 @ atype @ id2) (word_of_nat Association_size) (\<lambda>r.
           case r of
             None \<Rightarrow> k False
           | Some container \<Rightarrow>
               attempt (Association_serialize new_assoc container) (\<lambda>container.
               CallPut container (\<lambda>ok.
                 if \<not> ok then k False
                 else CallGet table list_key (\<lambda>obj.
                   attempt (case obj of Some bs \<Rightarrow> AssociationList_deserialize bs | None \<Rightarrow> Inr []) (\<lambda>l.
                   attempt (AssociationList_add new_assoc l) (\<lambda>l.
                   put_list table list_key l (\<lambda>res. k (res = Some True)))))))))"

definition association_delete :: "u64 \<Rightarrow> byte_string \<Rightarrow> byte_string \<Rightarrow> byte_string \<Rightarrow> (bool \<Rightarrow> prog) \<Rightarrow> prog" where
  "association_delete table id1 atype id2 k =
     (let list_key = id1 @ atype
      in CallGet table list_key (\<lambda>obj.
           case obj of
             None \<Rightarrow> k False
           | Some bs \<Rightarrow>
               attempt (AssociationList_deserialize bs) (\<lambda>l.
               attempt (AssociationList_remove (table_id_of id2) l) (\<lambda>l.
               put_list table list_key l (\<lambda>res.
                 if res = Some True then CallDel table (id1 @ atype @ id2) (k True) else k False)))))"

text \<open>The keys of the associations in a list: the identifier of the first replaces that of the key asked for, the others
  are appended behind it.\<close>

fun list_keys :: "byte_string \<Rightarrow> usize \<Rightarrow> usize \<Rightarrow> byte_string \<Rightarrow> nat \<Rightarrow> nat \<Rightarrow> byte_string \<Rightarrow> byte_string rust" where
  "list_keys prefix len id_len list i 0 assoc_key = Inr assoc_key"
| "list_keys prefix len id_len list i (Suc m) assoc_key =
     rbind (slice_range list (i * Association_size) (i * Association_size + 8)) (\<lambda>ident.
     rbind (if i = 0 then copy_from_slice_at len (len + id_len) ident assoc_key else Inr (assoc_key @ prefix @ ident)) (\<lambda>assoc_key.
     list_keys prefix len id_len list (i + 1) m assoc_key))"

function respond_rest :: "multi_read_buf \<Rightarrow> prog \<Rightarrow> prog" where
  "respond_rest vals p =
     (case MultiReadBuf_next vals of
        (False, vals) \<Rightarrow> p
      | (True, vals) \<Rightarrow> (case MultiReadBuf_read vals of Inl e \<Rightarrow> Panicked e | Inr v \<Rightarrow> CallResp v (respond_rest vals p)))"
  by pat_completeness auto
termination
  by (relation "measure (\<lambda>(vals, p). usize_sub (length (mr_inner vals)) 1 - mr_index vals)")
    (auto simp: MultiReadBuf_next_def split: if_splits)

declare respond_rest.simps [simp del]

definition association_get :: "u64 \<Rightarrow> byte_string \<Rightarrow> byte_string \<Rightarrow> byte_string \<Rightarrow> (bool \<Rightarrow> prog) \<Rightarrow> prog" where
  "association_get table id1 atype id2 k =
     (let assoc_key = id1 @ atype @ id2; key_len = length assoc_key; len = length id1 + length atype
      in attempt (slice_range assoc_key 0 len) (\<lambda>list_key.
         CallGet table list_key (\<lambda>obj.
           case obj of
             None \<Rightarrow> k False
           | Some l \<Rightarrow>
               attempt (list_keys (id1 @ atype) len (length id2) l 0 (length l div Association_size) assoc_key) (\<lambda>keys.
               CallMultiget table (word_of_nat key_len) keys (\<lambda>buf.
                 case buf of
                   None \<Rightarrow> k False
                 | Some vals \<Rightarrow>
                     if 0 < MultiReadBuf_num vals
                     then attempt (MultiReadBuf_read vals) (\<lambda>v. CallResp v (respond_rest vals (k True)))
                     else respond_rest vals (k True))))))"

section \<open>Requests\<close>

datatype tao_op = ObjGet | ObjAdd | ObjUpdate | ObjDelete | AssocGet | AssocAdd | AssocDelete

definition TaoOp_from :: "u8 \<Rightarrow> tao_op rust" where
  "TaoOp_from original =
     (if original = 0 then Inr ObjGet else if original = 1 then Inr ObjAdd else if original = 2 then Inr ObjUpdate
      else if original = 3 then Inr ObjDelete else if original = 4 then Inr AssocGet else if original = 5 then Inr AssocAdd
      else if original = 6 then Inr AssocDelete else Inl ExplicitPanic)"

definition bad_length :: prog where
  "bad_length = respond (str_bytes ''Invalid packet len.'') 0"

text \<open>What every handler does with the outcome of its method, before the extension returns 0.\<close>

definition report :: "string \<Rightarrow> bool \<Rightarrow> prog" where
  "report msg ok = (if ok then Return 0 else respond (str_bytes msg) 0)"

definition obj_get_dispatch :: "byte_string \<Rightarrow> prog" where
  "obj_get_dispatch ops =
     (if length ops \<noteq> 16 then bad_length
      else attempt (split_at ops 8) (\<lambda>(table, key).
        object_get (table_id_of table) key (report ''ERROR: could not get object.'')))"

definition obj_add_dispatch :: "byte_string \<Rightarrow> prog" where
  "obj_add_dispatch ops =
     (if length ops \<le> 10 then bad_length
      else attempt (split_at ops 8) (\<lambda>(table, type_value).
        attempt (split_at type_value 2) (\<lambda>(otype, val).
        object_add (table_id_of table) (dec_u16 otype) val (\<lambda>i. respond i 0))))"

definition obj_update_dispatch :: "byte_string \<Rightarrow> prog" where
  "obj_update_dispatch ops =
     (if length ops \<le> 18 then bad_length
      else attempt (split_at ops 8) (\<lambda>(table, rest).
        attempt (split_at rest 8) (\<lambda>(obj_id, rest2).
        attempt (split_at rest2 2) (\<lambda>(obj_type, val).
        object_update (table_id_of table) obj_id (dec_u16 obj_type) val (report ''ERROR: unsuccessful update'')))))"

definition obj_delete_dispatch :: "byte_string \<Rightarrow> prog" where
  "obj_delete_dispatch ops =
     (if length ops \<noteq> 16 then bad_length
      else attempt (split_at ops 8) (\<lambda>(table, obj_id).
        object_delete (table_id_of table) obj_id (report ''ERROR: unable to delete object'')))"

definition assoc_dispatch :: "u64 \<Rightarrow> u8 \<Rightarrow> byte_string \<Rightarrow> prog" where
  "assoc_dispatch now opcode ops =
     (if length ops \<noteq> 26 then bad_length
      else attempt (split_at ops 8) (\<lambda>(table, rest).
        attempt (split_at rest 8) (\<lambda>(id1, rest2).
        attempt (split_at rest2 2) (\<lambda>(assoc_type, id2).
        attempt (TaoOp_from opcode) (\<lambda>op.
          case op of
            AssocGet \<Rightarrow> association_get (table_id_of table) id1 assoc_type id2 (report ''ERROR: could not get association.'')
          | AssocAdd \<Rightarrow> association_add now (table_id_of table) id1 assoc_type id2 (report ''ERROR: unsuccessful update'')
          | AssocDelete \<Rightarrow> association_delete (table_id_of table) id1 assoc_type id2 (report ''ERROR: unable to delete the association'')
          | _ \<Rightarrow> Return 0)))))"

definition ext_tao_init :: "u64 \<Rightarrow> prog" where
  "ext_tao_init now = CallArgs (\<lambda>args.
     if length args < 1 then respond invalid_args 1
     else CallArgs (\<lambda>args.
       attempt (index_slice args (usize_sub (length args) 1)) (\<lambda>opcode.
       attempt (TaoOp_from opcode) (\<lambda>op.
         case op of
           ObjGet \<Rightarrow> attempt (split_at args 16) (\<lambda>(ops, _). obj_get_dispatch ops)
         | ObjAdd \<Rightarrow> attempt (split_at args 10) (\<lambda>(ops, _). obj_add_dispatch ops)
         | ObjUpdate \<Rightarrow> attempt (split_at args 18) (\<lambda>(ops, _). obj_update_dispatch ops)
         | ObjDelete \<Rightarrow> attempt (split_at args 16) (\<lambda>(ops, _). obj_delete_dispatch ops)
         | _ \<Rightarrow> attempt (split_at args 26) (\<lambda>(ops, _). assoc_dispatch now opcode ops)))))"

section \<open>Lists of associations\<close>

lemma find_from_append:
  "find_from p i (l @ [a]) = (case find_from p i l of Some j \<Rightarrow> Some j | None \<Rightarrow> if p a then Some (i + length l) else None)"
proof (induction l arbitrary: i)
  case (Cons b l)
  show ?case using Cons.IH [of "i + 1"] by (cases "p b") (auto split: option.splits)
qed simp

lemma find_from_Some: "find_from p i l = Some j \<Longrightarrow> i \<le> j \<and> j < i + length l \<and> p (l ! (j - i))"
proof (induction l arbitrary: i)
  case (Cons a l)
  show ?case
  proof (cases "p a")
    case False
    then have "i + 1 \<le> j \<and> j < i + 1 + length l \<and> p (l ! (j - (i + 1)))" using Cons.IH [of "i + 1"] Cons.prems by simp
    then show ?thesis by (auto simp: nth_Cons')
  qed (use Cons.prems in simp)
qed simp

lemma shift_down_length: "shift_down idxs l = Inr l' \<Longrightarrow> length l' = length l"
  by (induction idxs l rule: shift_down.induct) auto

lemma add_appends: "find_from (\<lambda>b. as_time b < as_time a) 0 l = None \<Longrightarrow> AssociationList_add a l = Inr (l @ [a])"
  by (simp add: AssociationList_add_def find_from_append)

lemma add_overwrites:
  assumes "find_from (\<lambda>b. as_time b < as_time a) 0 l = Some pos"
  shows "AssociationList_add a l = Inr (l[pos := a] @ [a])"
proof -
  have pos: "pos < length l" using find_from_Some [OF assms] by simp
  have "shift_up [length l - 1..<pos + 1] (l @ [a]) = Inr (if pos = length l - 1 then l[pos := a] @ [a] else l @ [a])"
    using pos by (auto simp: index_slice_def nth_append list_update_append)
  then show ?thesis
    using pos assms by (auto simp: AssociationList_add_def find_from_append list_update_append)
qed

lemma remove_first_panics:
  assumes "length l < 2 ^ 63"
  shows "AssociationList_remove (as_id b) (b # b' # l) = Inl IndexOutOfBounds"
proof -
  have "[0..<length l + 1] = 0 # [1..<length l + 1]" by (subst upt_conv_Cons) simp_all
  moreover have "\<not> usize_sub 0 1 < length (b # b' # l)" using assms by (simp add: usize_sub_def)
  ultimately show ?thesis by (simp add: AssociationList_remove_def index_slice_def del: upt_Suc)
qed

definition assoc_bytes :: "association \<Rightarrow> byte_string" where
  "assoc_bytes a = enc_u64 (as_id a) @ enc_u64 (as_time a)"

lemma length_assoc_bytes [simp]: "length (assoc_bytes a) = 16"
  by (simp add: assoc_bytes_def)

lemma deserialize_assoc [simp]: "Association_deserialize (assoc_bytes a) = Inr a"
  by (simp add: Association_deserialize_def assoc_bytes_def)

lemma serialize_list:
  assumes "length (bm_data (wb_inner b)) + 16 * length l \<le> bm_cap (wb_inner b)"
  shows "AssociationList_serialize l b = Inr (b\<lparr>wb_inner := (wb_inner b)\<lparr>bm_data := bm_data (wb_inner b) @ concat (map assoc_bytes l)\<rparr>\<rparr>)"
  using assms
proof (induction l arbitrary: b)
  case (Cons a l)
  then show ?case
    by (simp add: Association_serialize_def write_u64_def put_slice_def assoc_bytes_def del: rbind_eq_Inr)
qed simp

lemma deserialize_from_bytes:
  "deserialize_from (pre @ concat (map assoc_bytes l)) (length pre) acc = Inr (acc @ l)"
proof (induction l arbitrary: pre acc)
  case Nil
  show ?case by (simp add: deserialize_from.simps)
next
  case (Cons a l)
  have "slice_range (pre @ assoc_bytes a @ concat (map assoc_bytes l)) (length pre) (length pre + 16) = Inr (assoc_bytes a)"
    by (rule slice_range_middle) simp_all
  then show ?case
    using Cons.IH [of "pre @ assoc_bytes a" "acc @ [a]"] by (subst deserialize_from.simps) (simp add: Association_size_def)
qed

section \<open>Properties\<close>

text \<open>Objects cannot be created or changed. Whatever its arguments, a request to add or to update an object is cut to
  its header before its length is compared with that of the header, and so it is answered as too short, or panics when it is
  shorter; no object is written.\<close>

lemma tao_updates_rejected:
  assumes "Context_args c = Inr args" and "args \<noteq> []" and "last args = 1 \<or> last args = 2"
  shows "on_server (ext_tao_init now) grant clk n tn c =
    (if (if last args = 1 then 10 else 18) \<le> length args then on_server bad_length grant clk n tn c
     else (Panicked SliceOutOfRange, ExtPanic, n, tn, c))"
proof -
  have idx: "index_slice args (usize_sub (length args) 1) = Inr (last args)" "\<not> length args < 1"
    using assms(2) by (simp_all add: index_slice_def last_conv_nth Suc_le_eq)
  have "TaoOp_from (last args) = (if last args = 1 then Inr ObjAdd else Inr ObjUpdate)"
    using assms(3) by (auto simp: TaoOp_from_def)
  then show ?thesis
    unfolding ext_tao_init_def on_server.simps(4) assms(1) sum.case idx attempt_simps if_not_P [OF idx(2)]
    by (auto simp: split_at_def obj_add_dispatch_def obj_update_dispatch_def)
qed

text \<open>Association lists lose entries. Adding an association that is newer than some entry overwrites the
  first such entry and appends the association a second time instead of making room for it; removing an association never
  makes a list shorter, and it panics when the association is the first of several.\<close>

lemma association_list_loses_entries:
  assumes "length l < 2 ^ 63"
  shows "(case find_from (\<lambda>b. as_time b < as_time a) 0 l of
      None \<Rightarrow> AssociationList_add a l = Inr (l @ [a])
    | Some pos \<Rightarrow> AssociationList_add a l = Inr (l[pos := a] @ [a])) \<and>
   (case AssociationList_remove i l of Inr l' \<Rightarrow> length l' = length l | Inl e \<Rightarrow> True) \<and>
   AssociationList_remove (as_id b) (b # b' # l) = Inl IndexOutOfBounds"
proof (intro conjI)
  show "case find_from (\<lambda>b. as_time b < as_time a) 0 l of
      None \<Rightarrow> AssociationList_add a l = Inr (l @ [a])
    | Some pos \<Rightarrow> AssociationList_add a l = Inr (l[pos := a] @ [a])"
    by (cases "find_from (\<lambda>b. as_time b < as_time a) 0 l") (simp_all add: add_appends add_overwrites)
  show "case AssociationList_remove i l of Inr l' \<Rightarrow> length l' = length l | Inl e \<Rightarrow> True"
    by (auto simp: AssociationList_remove_def shift_down_length split: option.splits sum.splits)
  show "AssociationList_remove (as_id b) (b # b' # l) = Inl IndexOutOfBounds" by (rule remove_first_panics [OF assms])
qed

text \<open>Association lists survive the database. A list written into a buffer that was allocated for it is read back
  as it was.\<close>

lemma association_list_round_trip:
  assumes "length (bm_data (wb_inner b)) + AssociationList_size l \<le> bm_cap (wb_inner b)"
  shows "\<exists>b'. AssociationList_serialize l b = Inr b' \<and>
    AssociationList_deserialize (drop (length (bm_data (wb_inner b))) (bm_data (wb_inner b'))) = Inr l"
proof -
  have "length (bm_data (wb_inner b)) + 16 * length l \<le> bm_cap (wb_inner b)"
    using assms by (simp add: AssociationList_size_def Association_size_def mult.commute)
  then show ?thesis
    using serialize_list [of b l] deserialize_from_bytes [of "[]" l "[]"] by (simp add: AssociationList_deserialize_def)
qed

section \<open>Witnesses\<close>

end
