(* ===== verification/Float32.thy ===== *)
theory Float32
  imports Complex_Main "HOL-Library.Log_Nat" "HOL-Library.Word"
begin

text \<open>
  The type \<open>f32\<close> of Rust: IEEE 754 binary32 with rounding to nearest, ties to even. A number is an exact
  rational; an operation computes the rational result and rounds it (\<open>round32\<close>), which makes the model executable. Casts
  to integers truncate and saturate, and turn not-a-number to zero.

  What a client of the arithmetic needs of rounding is the contract \<open>f32_rounding\<close>: it is monotone and leaves
  representable numbers alone.
\<close>

section \<open>Powers of two\<close>

definition pow2 :: "int \<Rightarrow> rat" where
  "pow2 e = (if 0 \<le> e then 2 ^ nat e else 1 / 2 ^ nat (- e))"

lemma pow2_powi: "pow2 e = 2 powi e"
  by (simp add: pow2_def power_int_def field_simps)

lemma pow2_pos [simp]: "0 < pow2 e" "0 \<le> pow2 e" "pow2 e \<noteq> 0"
  by (simp_all add: pow2_def)

lemma pow2_add: "pow2 (a + b) = pow2 a * pow2 b"
  by (simp add: pow2_powi power_int_add)

lemma pow2_diff: "pow2 (a - b) = pow2 a / pow2 b"
  by (simp add: pow2_powi power_int_diff)

lemma pow2_less: "pow2 a < pow2 b \<longleftrightarrow> a < b"
  using power_int_strict_increasing [of a b "2 :: rat"] power_int_strict_increasing [of b a "2 :: rat"]
  by (cases a b rule: linorder_cases) (auto simp: pow2_powi)

lemma pow2_le: "pow2 a \<le> pow2 b \<longleftrightarrow> a \<le> b"
  using pow2_less [of b a] by linarith

lemma pow2_of_nat: "pow2 (int n) = 2 ^ n"
  by (simp add: pow2_def)

lemma pow2_int: "0 \<le> e \<Longrightarrow> pow2 e = of_int (2 ^ nat e)"
  by (simp add: pow2_def)

lemma pow2_24: "pow2 (e + 24) = 16777216 * pow2 e"
  unfolding pow2_add by (simp add: pow2_def)

section \<open>Binary logarithm\<close>

definition ilog2 :: "rat \<Rightarrow> int" where
  "ilog2 x = (let (n, d) = quotient_of x; k = bitlen n - bitlen d in if pow2 k \<le> x then k else k - 1)"

lemma bitlen_pow2_bounds:
  assumes "0 < n"
  shows "pow2 (bitlen n - 1) \<le> of_int n" and "of_int n < pow2 (bitlen n)"
proof -
  have b: "2 ^ nat (bitlen n - 1) \<le> n" "n < 2 ^ nat (bitlen n)" using bitlen_bounds [OF assms] by simp_all
  have "0 \<le> bitlen n - 1" using assms bitlen_eq_zero_iff [of n] bitlen_nonneg [of n] by linarith
  then show "pow2 (bitlen n - 1) \<le> of_int n" "of_int n < pow2 (bitlen n)"
    using b by (simp_all add: pow2_int of_int_le_iff of_int_less_iff del: of_int_power)
qed

lemma ilog2_bounds:
  assumes "0 < x"
  shows "pow2 (ilog2 x) \<le> x" and "x < pow2 (ilog2 x + 1)"
proof -
  obtain n d where q: "quotient_of x = (n, d)" by fastforce
  have d: "0 < d" by (rule quotient_of_denom_pos [OF q])
  have x: "x = of_int n / of_int d" by (rule quotient_of_div [OF q])
  have n: "0 < n" using assms d unfolding x by (simp add: zero_less_divide_iff)
  let ?k = "bitlen n - bitlen d"
  have lo: "pow2 (?k - 1) \<le> x"
  proof -
    have "pow2 (?k - 1) = pow2 (bitlen n - 1) / pow2 (bitlen d)" by (simp add: pow2_diff [symmetric] algebra_simps)
    also have "\<dots> \<le> of_int n / of_int d"
      using bitlen_pow2_bounds(1) [OF n] bitlen_pow2_bounds(2) [OF d] d n by (intro frac_le) simp_all
    finally show ?thesis by (simp add: x)
  qed
  have hi: "x < pow2 (?k + 1)"
  proof -
    have "of_int n / of_int d < pow2 (bitlen n) / pow2 (bitlen d - 1)"
      using bitlen_pow2_bounds(2) [OF n] bitlen_pow2_bounds(1) [OF d] d n by (intro frac_less) simp_all
    also have "\<dots> = pow2 (?k + 1)" by (simp add: pow2_diff [symmetric] algebra_simps)
    finally show ?thesis by (simp add: x)
  qed
  show "pow2 (ilog2 x) \<le> x" "x < pow2 (ilog2 x + 1)"
    using lo hi by (simp_all add: ilog2_def q Let_def)
qed

lemma ilog2_le: "0 < x \<Longrightarrow> x < pow2 (e + 1) \<Longrightarrow> ilog2 x \<le> e"
  using ilog2_bounds(1) [of x] pow2_less [of "ilog2 x" "e + 1"] by linarith

lemma ilog2_ge: "pow2 e \<le> x \<Longrightarrow> e \<le> ilog2 x"
  using ilog2_bounds(2) [of x] pow2_less [of e "ilog2 x + 1"] pow2_pos(1) [of e] by linarith

section \<open>Rounding\<close>

text \<open>To the nearest integer, ties to the even one.\<close>

definition rne :: "rat \<Rightarrow> int" where
  "rne r = (let f = \<lfloor>r\<rfloor>; d = r - of_int f
            in if d < 1/2 then f else if d > 1/2 then f + 1 else if even f then f else f + 1)"

lemma rne_of_int [simp]: "rne (of_int k) = k"
  by (simp add: rne_def)

lemma rne_floor: "\<lfloor>r\<rfloor> \<le> rne r" "rne r \<le> \<lfloor>r\<rfloor> + 1"
  by (simp_all add: rne_def Let_def)

lemma rne_mono:
  assumes "r \<le> s"
  shows "rne r \<le> rne s"
proof (cases "\<lfloor>r\<rfloor> = \<lfloor>s\<rfloor>")
  case True
  then show ?thesis using assms by (auto simp: rne_def Let_def)
next
  case False
  then have "\<lfloor>r\<rfloor> + 1 \<le> \<lfloor>s\<rfloor>" using floor_mono [OF assms] by linarith
  then show ?thesis using rne_floor(2) [of r] rne_floor(1) [of s] by linarith
qed

lemma rne_minus: "rne (- r) = - rne r"
proof (cases "r = of_int \<lfloor>r\<rfloor>")
  case True
  have "rne (- of_int \<lfloor>r\<rfloor>) = - rne (of_int \<lfloor>r\<rfloor>)" using rne_of_int [of "- \<lfloor>r\<rfloor>"] by simp
  then show ?thesis using True by simp
next
  case False
  have "of_int \<lfloor>r\<rfloor> \<le> r" "r < of_int \<lfloor>r\<rfloor> + 1" by linarith+
  then have "\<lfloor>- r\<rfloor> = - \<lfloor>r\<rfloor> - 1" using False by (intro floor_unique) (simp_all, linarith)
  then show ?thesis by (auto simp: rne_def Let_def)
qed

text \<open>The distance of the numbers around \<open>x\<close>: 24 significant bits, and never finer than the smallest subnormal number.\<close>

definition grid :: "rat \<Rightarrow> int" where
  "grid x = max (- 149) (ilog2 \<bar>x\<bar> - 23)"

definition round32 :: "rat \<Rightarrow> rat" where
  "round32 x = (if x = 0 then 0 else of_int (rne (x / pow2 (grid x))) * pow2 (grid x))"

definition representable :: "rat \<Rightarrow> bool" where
  "representable x \<longleftrightarrow> (\<exists>m e. x = of_int m * pow2 e \<and> \<bar>m\<bar> \<le> 2 ^ 24 \<and> - 149 \<le> e)"

lemma round32_minus: "round32 (- x) = - round32 x"
proof -
  have "- x / pow2 (grid x) = - (x / pow2 (grid x))" by simp
  then show ?thesis unfolding round32_def by (simp add: grid_def rne_minus)
qed

lemma round32_le: "x \<noteq> 0 \<Longrightarrow> x \<le> of_int k * pow2 (grid x) \<Longrightarrow> round32 x \<le> of_int k * pow2 (grid x)"
  using rne_mono [of "x / pow2 (grid x)" "of_int k"] by (simp add: round32_def divide_le_eq)

lemma round32_ge: "x \<noteq> 0 \<Longrightarrow> of_int k * pow2 (grid x) \<le> x \<Longrightarrow> of_int k * pow2 (grid x) \<le> round32 x"
  using rne_mono [of "of_int k" "x / pow2 (grid x)"] by (simp add: round32_def le_divide_eq)

lemma on_grid: "g \<le> e \<Longrightarrow> of_int m * pow2 e = of_int (m * 2 ^ nat (e - g)) * pow2 g"
  using pow2_add [of "e - g" g] pow2_int [of "e - g"] by simp

lemma round32_exact:
  assumes "representable x"
  shows "round32 x = x"
proof (cases "x = 0")
  case False
  obtain m e where x: "x = of_int m * pow2 e" "\<bar>m\<bar> \<le> 2 ^ 24" "- 149 \<le> e" using assms by (auto simp: representable_def)
  have abs: "\<bar>x\<bar> = of_int \<bar>m\<bar> * pow2 e" by (simp add: x(1) abs_mult)
  also have "\<dots> \<le> pow2 (e + 24)" using x(2) of_int_le_iff [of "\<bar>m\<bar>" 16777216, where 'a = rat] by (simp add: pow2_24)
  finally have "\<bar>x\<bar> \<le> pow2 (e + 24)" .
  then have "ilog2 \<bar>x\<bar> \<le> e + 24" using False pow2_less [of "e + 24" "e + 24 + 1"] by (intro ilog2_le) auto
  then consider "grid x \<le> e" | "grid x = e + 1" "ilog2 \<bar>x\<bar> = e + 24"
    using x(3) unfolding grid_def by (cases "ilog2 \<bar>x\<bar> - 23 \<le> e") (simp, linarith)
  then obtain k where k: "x = of_int k * pow2 (grid x)"
  proof cases
    case 1
    then show ?thesis using that on_grid [OF 1, of m] x(1) by metis
  next
    case 2
    then have "pow2 (e + 24) \<le> \<bar>x\<bar>" using ilog2_bounds(1) [of "\<bar>x\<bar>"] False by simp
    then have "16777216 \<le> \<bar>m\<bar>" using of_int_le_iff [of 16777216 "\<bar>m\<bar>", where 'a = rat] unfolding abs by (simp add: pow2_24)
    then have "m = 2 ^ 24 \<or> m = - (2 ^ 24)" using x(2) by auto
    then obtain s where "m = 2 * s" by fastforce
    moreover have "pow2 (grid x) = 2 * pow2 e" unfolding 2(1) pow2_add by (simp add: pow2_def)
    ultimately have "of_int m * pow2 e = of_int s * pow2 (grid x)" by simp
    then show ?thesis using that x(1) by metis
  qed
  then show ?thesis using round32_le [of x k] round32_ge [of x k] False by simp
qed (simp add: round32_def)

lemma round32_mono_pos:
  assumes "0 < x" and "x \<le> y"
  shows "round32 x \<le> round32 y"
proof -
  have y: "0 < y" using assms by simp
  have log: "ilog2 x \<le> ilog2 y" using ilog2_ge ilog2_bounds(1) [OF assms(1)] assms(2) by fastforce
  show ?thesis
  proof (cases "grid x = grid y")
    case True
    then show ?thesis using rne_mono [of "x / pow2 (grid y)" "y / pow2 (grid y)"] assms y by (simp add: round32_def divide_right_mono)
  next
    case False
    then have g: "grid y = ilog2 y - 23" "grid x < grid y" "ilog2 x + 1 \<le> ilog2 y"
      using log assms y by (auto simp: grid_def)
    have "x \<le> pow2 (ilog2 y)" using ilog2_bounds(2) [OF assms(1)] g(3) pow2_le [of "ilog2 x + 1" "ilog2 y"] by linarith
    then have "round32 x \<le> pow2 (ilog2 y)"
      using round32_le [of x "2 ^ nat (ilog2 y - grid x)"] on_grid [of "grid x" "ilog2 y" 1] assms g by simp
    also have "\<dots> \<le> round32 y"
      using round32_ge [of y "2 ^ nat (ilog2 y - grid y)"] on_grid [of "grid y" "ilog2 y" 1] ilog2_bounds(1) [OF y] y g(1) by simp
    finally show ?thesis .
  qed
qed

lemma round32_nonneg: "0 \<le> x \<Longrightarrow> 0 \<le> round32 x"
  using round32_ge [of x 0] by (cases "x = 0") (simp_all add: round32_def)

lemma round32_mono:
  assumes "x \<le> y"
  shows "round32 x \<le> round32 y"
proof (cases "0 < x")
  case True
  then show ?thesis using assms by (rule round32_mono_pos)
next
  case x: False
  show ?thesis
  proof (cases "0 \<le> y")
    case True
    then show ?thesis using x round32_nonneg [of y] round32_nonneg [of "- x"] by (simp add: round32_minus)
  next
    case False
    then show ?thesis using round32_mono_pos [of "- y" "- x"] assms by (simp add: round32_minus)
  qed
qed

section \<open>What clients rely on\<close>

locale f32_rounding =
  fixes rnd :: "rat \<Rightarrow> rat"
  assumes rnd_mono: "x \<le> y \<Longrightarrow> rnd x \<le> rnd y"
    and rnd_exact: "representable x \<Longrightarrow> rnd x = x"
begin

lemma rnd_le: "representable b \<Longrightarrow> x \<le> b \<Longrightarrow> rnd x \<le> b"
  using rnd_mono [of x b] rnd_exact [of b] by simp

lemma rnd_ge: "representable b \<Longrightarrow> b \<le> x \<Longrightarrow> b \<le> rnd x"
  using rnd_mono [of b x] rnd_exact [of b] by simp

lemma rnd_half:
  assumes "\<bar>k\<bar> \<le> 2 ^ 24"
  shows "rnd (of_int k / 2) = of_int k / 2"
proof (rule rnd_exact)
  have "of_int k / 2 = of_int k * pow2 (- 1)" by (simp add: pow2_def)
  then show "representable (of_int k / 2)" unfolding representable_def using assms by fastforce
qed

lemma rnd_int: "\<bar>k\<bar> \<le> 2 ^ 23 \<Longrightarrow> rnd (of_int k) = of_int k"
  using rnd_half [of "2 * k"] by simp

text \<open>A step of at least one is a step of more than one half after rounding, and the other way round.\<close>

lemma step_up:
  assumes "0 \<le> x" and "x \<le> 1000" and "1 \<le> d"
  shows "x + 1 / 2 < rnd (x + d)"
proof -
  obtain k :: int where k: "of_int k \<le> 2 * (x + 1)" "2 * (x + 1) < of_int (k + 1)"
    using floor_correct [of "2 * (x + 1)"] by blast
  then have "of_int k \<le> (of_int 2002 :: rat)" "of_int 0 < (of_int (k + 1) :: rat)" using assms by simp_all
  then have "k \<le> 2002" "0 < k + 1" unfolding of_int_le_iff of_int_less_iff .
  then have "\<bar>k\<bar> \<le> 2 ^ 24" by simp
  then have "rnd (of_int k / 2) = of_int k / 2" by (rule rnd_half)
  moreover have "rnd (of_int k / 2) \<le> rnd (x + d)" using k(1) assms(3) by (intro rnd_mono) (simp add: field_simps)
  ultimately show ?thesis using k(2) by simp
qed

lemma step_down:
  assumes "0 \<le> x" and "x \<le> 1000" and "d \<le> - 1"
  shows "rnd (x + d) < x - 1 / 2"
proof -
  obtain k :: int where k: "2 * (x - 1) \<le> of_int k" "of_int k - 1 < 2 * (x - 1)"
    using ceiling_correct [of "2 * (x - 1)"] by blast
  then have "of_int k \<le> (of_int 2000 :: rat)" "of_int (- 2) \<le> (of_int k :: rat)" using assms by simp_all
  then have "k \<le> 2000" "- 2 \<le> k" unfolding of_int_le_iff .
  then have "\<bar>k\<bar> \<le> 2 ^ 24" by simp
  then have "rnd (of_int k / 2) = of_int k / 2" by (rule rnd_half)
  moreover have "rnd (x + d) \<le> rnd (of_int k / 2)" using k(1) assms(3) by (intro rnd_mono) (simp add: field_simps)
  ultimately show ?thesis using k(2) by simp
qed

end

interpretation r32: f32_rounding round32
  by unfold_locales (simp_all add: round32_mono round32_exact)

section \<open>The type\<close>

datatype f32 = NaN | Inf bool | Zero bool | Num rat

fun val32 :: "f32 \<Rightarrow> rat" where
  "val32 (Num x) = x"
| "val32 _ = 0"

fun sign32 :: "f32 \<Rightarrow> bool" where
  "sign32 NaN = False"
| "sign32 (Inf s) = s"
| "sign32 (Zero s) = s"
| "sign32 (Num x) = (x < 0)"

text \<open>\<open>f32_of s x\<close> is the number nearest to \<open>x\<close>; an exact zero gets the sign \<open>s\<close>.\<close>

definition f32_of :: "bool \<Rightarrow> rat \<Rightarrow> f32" where
  "f32_of s x =
     (let y = round32 x
      in if y = 0 then Zero (if x = 0 then s else x < 0)
         else if pow2 128 \<le> \<bar>y\<bar> then Inf (y < 0) else Num y)"

abbreviation f32_lit :: "rat \<Rightarrow> f32" where
  "f32_lit x \<equiv> f32_of False x"

fun f32_neg :: "f32 \<Rightarrow> f32" where
  "f32_neg NaN = NaN"
| "f32_neg (Inf s) = Inf (\<not> s)"
| "f32_neg (Zero s) = Zero (\<not> s)"
| "f32_neg (Num x) = Num (- x)"

fun f32_add :: "f32 \<Rightarrow> f32 \<Rightarrow> f32" where
  "f32_add NaN b = NaN"
| "f32_add a NaN = NaN"
| "f32_add (Inf s) (Inf t) = (if s = t then Inf s else NaN)"
| "f32_add (Inf s) b = Inf s"
| "f32_add a (Inf t) = Inf t"
| "f32_add (Zero s) (Zero t) = Zero (s \<and> t)"
| "f32_add a b = f32_of False (val32 a + val32 b)"

definition f32_sub :: "f32 \<Rightarrow> f32 \<Rightarrow> f32" where
  "f32_sub a b = f32_add a (f32_neg b)"

fun f32_mul :: "f32 \<Rightarrow> f32 \<Rightarrow> f32" where
  "f32_mul NaN b = NaN"
| "f32_mul a NaN = NaN"
| "f32_mul (Inf s) (Zero t) = NaN"
| "f32_mul (Zero s) (Inf t) = NaN"
| "f32_mul (Inf s) b = Inf (s \<noteq> sign32 b)"
| "f32_mul a (Inf t) = Inf (sign32 a \<noteq> t)"
| "f32_mul a b = f32_of (sign32 a \<noteq> sign32 b) (val32 a * val32 b)"

fun f32_div :: "f32 \<Rightarrow> f32 \<Rightarrow> f32" where
  "f32_div NaN b = NaN"
| "f32_div a NaN = NaN"
| "f32_div (Inf s) (Inf t) = NaN"
| "f32_div (Inf s) b = Inf (s \<noteq> sign32 b)"
| "f32_div a (Inf t) = Zero (sign32 a \<noteq> t)"
| "f32_div (Zero s) (Zero t) = NaN"
| "f32_div a (Zero t) = Inf (sign32 a \<noteq> t)"
| "f32_div a b = f32_of (sign32 a \<noteq> sign32 b) (val32 a / val32 b)"

fun f32_less :: "f32 \<Rightarrow> f32 \<Rightarrow> bool" where
  "f32_less NaN b = False"
| "f32_less a NaN = False"
| "f32_less (Inf s) (Inf t) = (s \<and> \<not> t)"
| "f32_less (Inf s) b = s"
| "f32_less a (Inf t) = (\<not> t)"
| "f32_less a b = (val32 a < val32 b)"

text \<open>Casts. Integers are rounded; numbers are truncated towards zero and saturate.\<close>

definition f32_of_nat :: "nat \<Rightarrow> f32" where
  "f32_of_nat n = f32_of False (of_nat n)"

fun f32_as_uint :: "nat \<Rightarrow> f32 \<Rightarrow> nat" where
  "f32_as_uint w NaN = 0"
| "f32_as_uint w (Inf s) = (if s then 0 else 2 ^ w - 1)"
| "f32_as_uint w a = min (2 ^ w - 1) (nat \<lfloor>val32 a\<rfloor>)"

section \<open>Finite numbers\<close>

definition finite32 :: "f32 \<Rightarrow> bool" where
  "finite32 a \<longleftrightarrow> (case a of Zero _ \<Rightarrow> True | Num x \<Rightarrow> x \<noteq> 0 | _ \<Rightarrow> False)"

lemma finite32_simps [simp]: "finite32 (Zero s)" "finite32 (Num x) = (x \<noteq> 0)" "\<not> finite32 NaN" "\<not> finite32 (Inf s)"
  by (simp_all add: finite32_def)

lemma f32_of_bounded:
  assumes "\<bar>x\<bar> \<le> pow2 100"
  shows "finite32 (f32_of s x)" "val32 (f32_of s x) = round32 x"
proof -
  have "representable (pow2 100)" "representable (- pow2 100)"
    unfolding representable_def by (rule exI [of _ 1], rule exI [of _ 100], simp, rule exI [of _ "- 1"], rule exI [of _ 100], simp)
  then have "round32 x \<le> pow2 100" "- pow2 100 \<le> round32 x"
    using assms r32.rnd_le [of "pow2 100" x] r32.rnd_ge [of "- pow2 100" x] by auto
  then have "\<not> pow2 128 \<le> \<bar>round32 x\<bar>" using pow2_less [of 100 128] by auto
  then show "finite32 (f32_of s x)" "val32 (f32_of s x) = round32 x" by (auto simp: f32_of_def Let_def)
qed

lemma finite32_neg [simp]: "finite32 a \<Longrightarrow> finite32 (f32_neg a)" "val32 (f32_neg a) = - val32 a"
  by (cases a; simp)+

text \<open>Operations on finite numbers whose exact result is far from overflow.\<close>

lemma finite_add:
  assumes "finite32 a" and "finite32 b" and "\<bar>val32 a + val32 b\<bar> \<le> pow2 100"
  shows "finite32 (f32_add a b)" "val32 (f32_add a b) = round32 (val32 a + val32 b)"
  using assms f32_of_bounded [OF assms(3)]
  by (cases a; cases b; simp add: round32_def)+

lemma finite_sub:
  assumes "finite32 a" and "finite32 b" and "\<bar>val32 a - val32 b\<bar> \<le> pow2 100"
  shows "finite32 (f32_sub a b)" "val32 (f32_sub a b) = round32 (val32 a - val32 b)"
  using finite_add [of a "f32_neg b"] assms by (simp_all add: f32_sub_def)

lemma finite_mul:
  assumes "finite32 a" and "finite32 b" and "\<bar>val32 a * val32 b\<bar> \<le> pow2 100"
  shows "finite32 (f32_mul a b)" "val32 (f32_mul a b) = round32 (val32 a * val32 b)"
  using assms f32_of_bounded [OF assms(3)]
  by (cases a; cases b; simp add: f32_of_bounded [of 0])+

lemma finite_div:
  assumes "finite32 a" and "finite32 b" and "val32 b \<noteq> 0" and "\<bar>val32 a / val32 b\<bar> \<le> pow2 100"
  shows "finite32 (f32_div a b)" "val32 (f32_div a b) = round32 (val32 a / val32 b)"
  using assms f32_of_bounded [OF assms(4)]
  by (cases a; cases b; simp add: f32_of_bounded [of 0])+

lemma finite_less: "finite32 a \<Longrightarrow> finite32 b \<Longrightarrow> f32_less a b = (val32 a < val32 b)"
  by (cases a; cases b; simp)

end
