(* ===== verification/Kayak.thy ===== *)
theory Kayak
  imports Manager Float32
begin

text \<open>
  The Kayak client for the pushback workload: \<open>splinter/src/bin/client/pushback-kayak.rs\<close> and the state of its
  native requests, \<open>splinter/src/nativestate.rs\<close>. It sends each request either as a chain of get requests or as an invocation of the
  extension \<open>pushback\<close>; two control loops adjust, from the measured latencies and throughput, the number of outstanding
  requests (\<open>max_out\<close>, the R-loop) and the percentage of invocations (\<open>ext_p\<close>, the X-loop).

  The cycle counter and the random numbers of the workload are traces in the record \<open>host\<close>, next to the environment
  of a client, which holds the sender. \<open>order_stat::kth\<close> is the parameter \<open>kth_stat\<close>. Fields of the client that are never read are left out.
\<close>

section \<open>Native requests\<close>

record pushback_state =
  ps_op_num :: u8
  ps_commit_payload :: byte_string
  ps_readset :: "kv list"

definition PushbackState_new :: pushback_state where
  "PushbackState_new = \<lparr>ps_op_num = 1, ps_commit_payload = [], ps_readset = []\<rparr>"

definition PushbackState_update_rwset :: "byte_string \<Rightarrow> usize \<Rightarrow> pushback_state \<Rightarrow> pushback_state rust" where
  "PushbackState_update_rwset record keylen st =
     rbind (split_at record 1) (\<lambda>(_, rest).
     rbind (split_record rest keylen) (\<lambda>e.
     Inr (st\<lparr>ps_commit_payload := ps_commit_payload st @ record, ps_readset := ps_readset st @ [e]\<rparr>)))"

definition search_key :: "byte_string \<Rightarrow> pushback_state \<Rightarrow> byte_string option" where
  "search_key key st = map_option kv_value (find (\<lambda>e. kv_key e = key) (ps_readset st))"

text \<open>The loop of \<open>execute_task\<close> over the lookups that are left; a lookup that fails makes the task panic.\<close>

primrec native_lookups :: "nat \<Rightarrow> byte_string \<Rightarrow> pushback_state \<Rightarrow> unit rust" where
  "native_lookups 0 keys st = Inr ()"
| "native_lookups (Suc n) keys st =
     (case search_key keys st of
        None \<Rightarrow> Inl ExplicitPanic
      | Some val \<Rightarrow>
          if n = 0 then rbind (index_slice val 0) (\<lambda>_. native_lookups n keys st)
          else rbind (slice_range val 0 4) (\<lambda>src.
               rbind (copy_from_slice_at 0 4 src keys) (\<lambda>keys. native_lookups n keys st)))"

definition PushbackState_execute_task :: "u32 \<Rightarrow> pushback_state \<Rightarrow> unit rust" where
  "PushbackState_execute_task number st =
     rbind (index_slice (ps_readset st) 0) (\<lambda>e. native_lookups (unat number) (kv_key e) st)"

section \<open>The workload\<close>

text \<open>What one round of the random generators yields.\<close>

record draw =
  dr_coin :: u32
  dr_put :: u32
  dr_tenant :: u32
  dr_key :: u32
  dr_order :: u32

record workload =
  wl_put_pct :: usize
  wl_key_buf :: byte_string
  wl_value_buf :: byte_string

definition Pushback_new :: "usize \<Rightarrow> usize \<Rightarrow> usize \<Rightarrow> workload" where
  "Pushback_new key_len value_len put_pct =
     \<lparr>wl_put_pct = put_pct, wl_key_buf = replicate key_len 0, wl_value_buf = replicate value_len 0\<rparr>"

text \<open>The workload and the arguments of the callback: whether it is that for a get, tenant and key.\<close>

definition abc :: "draw \<Rightarrow> workload \<Rightarrow> (workload \<times> bool \<times> u32 \<times> byte_string \<times> byte_string) rust" where
  "abc d w =
     rbind (copy_from_slice_at 0 4 (enc_u32 (dr_key d)) (wl_key_buf w)) (\<lambda>key.
     Inr (w\<lparr>wl_key_buf := key\<rparr>, (word_of_nat (wl_put_pct w) :: u32) \<le> dr_put d mod 100, dr_tenant d, key, wl_value_buf w))"

section \<open>The client\<close>

record client_config =
  cf_invoke_p :: usize
  cf_max_out :: usize
  cf_key_len :: usize
  cf_value_len :: usize
  cf_bimodal :: bool
  cf_bimodal_interval :: u64
  cf_rloop_factor :: usize
  cf_xloop_factor :: usize
  cf_slo :: u64

record ('e, 'g) kayak =
  k_responses_recv :: u64
  k_responses :: u64
  k_start :: u64
  k_recvd :: u64
  k_counter_pushback :: u64
  k_latencies :: "u64 list"
  k_ext_p :: f32
  k_stop :: u64
  k_workload :: workload
  k_requests :: u64
  k_sent :: u64
  k_max_out :: f32
  k_payload_pushback :: byte_string
  k_payload_put :: byte_string
  k_finished :: bool
  k_outstanding :: u64
  k_manager :: "('e, 'g) task_manager"
  k_native_state :: "u64 \<rightharpoonup> pushback_state"
  k_num :: u32
  k_ord :: u32
  k_ord1 :: u32
  k_ord2 :: u32
  k_is_bimodal :: bool
  k_bimodal_interval :: u64
  k_rloop_factor :: usize
  k_xloop_factor :: usize
  k_slo :: u64
  k_xloop_last_recvd :: u64
  k_xloop_last_rdtsc :: u64
  k_xloop_last_rate :: f32
  k_xloop_last_X :: f32
  k_rloop_last_recvd :: u64
  k_rloop_last_rdtsc :: u64
  k_kth :: u64
  k_key_len :: usize
  k_record_len :: usize

record host =
  h_clock :: "nat \<Rightarrow> u64"
  h_ticks :: nat
  h_draws :: "nat \<Rightarrow> draw"
  h_drawn :: nat
  h_env :: cenv

definition read_tsc :: "host \<Rightarrow> u64 \<times> host" where
  "read_tsc h = (h_clock h (h_ticks h), h\<lparr>h_ticks := h_ticks h + 1\<rparr>)"

definition next_draw :: "host \<Rightarrow> draw \<times> host" where
  "next_draw h = (h_draws h (h_drawn h), h\<lparr>h_drawn := h_drawn h + 1\<rparr>)"

definition pushback_name :: byte_string where
  "pushback_name = map of_char ''pushback''"

definition PushbackRecvSend_new ::
    "u64 \<Rightarrow> client_config \<Rightarrow> u64 \<Rightarrow> 'e ext_manager \<Rightarrow> u32 \<Rightarrow> u32 \<Rightarrow> u32 \<Rightarrow> host \<Rightarrow> ('e, 'g) kayak \<times> host" where
  "PushbackRecvSend_new resps cf reqs exts number order ord2 h =
     (let (start, h) = read_tsc h; (x_tsc, h) = read_tsc h; (r_tsc, h) = read_tsc h
      in (\<lparr>k_responses_recv = 0, k_responses = resps, k_start = start, k_recvd = 0, k_counter_pushback = 0, k_latencies = [],
           k_ext_p = f32_of_nat (cf_invoke_p cf), k_stop = 0, k_workload = Pushback_new (cf_key_len cf) (cf_value_len cf) 0,
           k_requests = reqs, k_sent = 0, k_max_out = f32_of_nat (cf_max_out cf),
           k_payload_pushback = pushback_name @ enc_u64 1 @ enc_u32 number @ enc_u32 order @ replicate (cf_key_len cf) 0,
           k_payload_put = pushback_name @ enc_u64 1 @ enc_u16 (word_of_nat (cf_key_len cf)) @
             replicate (cf_key_len cf + cf_value_len cf) 0,
           k_finished = False, k_outstanding = 0, k_manager = TaskManager_new exts, k_native_state = Map.empty,
           k_num = number, k_ord = order, k_ord1 = order, k_ord2 = ord2, k_is_bimodal = cf_bimodal cf,
           k_bimodal_interval = cf_bimodal_interval cf, k_rloop_factor = cf_rloop_factor cf, k_xloop_factor = cf_xloop_factor cf,
           k_slo = cf_slo cf, k_xloop_last_recvd = 0, k_xloop_last_rdtsc = x_tsc, k_xloop_last_rate = f32_lit 0,
           k_xloop_last_X = f32_lit (101 / 2), k_rloop_last_recvd = 0, k_rloop_last_rdtsc = r_tsc, k_kth = 0,
           k_key_len = cf_key_len cf, k_record_len = 1 + 8 + cf_key_len cf + cf_value_len cf\<rparr>, h))"

section \<open>Sending\<close>

definition set_env :: "host \<Rightarrow> cenv \<Rightarrow> host" where
  "set_env h env = h\<lparr>h_env := env\<rparr>"

text \<open>An invocation: a task under the time stamp of the request, and the request.\<close>

definition invoke_now ::
    "u64 \<Rightarrow> u32 \<Rightarrow> byte_string \<Rightarrow> ('e, 'g) kayak \<Rightarrow> host \<Rightarrow> (('e, 'g) kayak \<times> host) rust" where
  "invoke_now now tenant pay k h =
     rbind (create_task now pay tenant 8 (k_manager k)) (\<lambda>tm.
     rbind (send_invoke tenant 8 pay now (h_env h)) (\<lambda>env.
     Inr (k\<lparr>k_manager := tm\<rparr>, set_env h env)))"

definition send_native ::
    "u64 \<Rightarrow> bool \<Rightarrow> u32 \<Rightarrow> byte_string \<Rightarrow> byte_string \<Rightarrow> ('e, 'g) kayak \<Rightarrow> host \<Rightarrow> (('e, 'g) kayak \<times> host) rust" where
  "send_native now is_get tenant key val k h =
     rbind (if is_get then send_get tenant 1 key now (h_env h) else send_put tenant 1 key val now (h_env h)) (\<lambda>env.
     Inr (k\<lparr>k_native_state := (k_native_state k)(now \<mapsto> PushbackState_new)\<rparr>, set_env h env))"

definition send_extension ::
    "u64 \<Rightarrow> bool \<Rightarrow> u32 \<Rightarrow> byte_string \<Rightarrow> ('e, 'g) kayak \<Rightarrow> host \<Rightarrow> (('e, 'g) kayak \<times> host) rust" where
  "send_extension now is_get tenant key k h =
     rbind (slice_range key 0 4) (\<lambda>key4.
     if is_get
     then rbind (if k_is_bimodal k then copy_from_slice_at 20 24 (enc_u32 (k_ord k)) (k_payload_pushback k)
                 else Inr (k_payload_pushback k)) (\<lambda>p_get.
          rbind (copy_from_slice_at 24 28 key4 p_get) (\<lambda>p_get.
          invoke_now now tenant p_get (k\<lparr>k_payload_pushback := p_get\<rparr>) h))
     else rbind (copy_from_slice_at 18 22 key4 (k_payload_put k)) (\<lambda>p_put.
          invoke_now now tenant p_put (k\<lparr>k_payload_put := p_put\<rparr>) h))"

definition chooses_native :: "draw \<Rightarrow> f32 \<Rightarrow> bool" where
  "chooses_native d ext_p \<longleftrightarrow> (word_of_nat (f32_as_uint 32 (f32_mul ext_p (f32_lit 100))) :: u32) \<le> dr_coin d mod 10000"

definition send_one :: "('e, 'g) kayak \<Rightarrow> host \<Rightarrow> (('e, 'g) kayak \<times> host) rust" where
  "send_one k h =
     (let (now, h) = read_tsc h; (d, h) = next_draw h
      in rbind (abc d (k_workload k)) (\<lambda>(w, is_get, tenant, key, val).
         let k = k\<lparr>k_workload := w\<rparr>
         in rbind (if chooses_native d (k_ext_p k) then send_native now is_get tenant key val k h
                   else send_extension now is_get tenant key k h) (\<lambda>(k, h).
            Inr (k\<lparr>k_outstanding := k_outstanding k + 1, k_sent := k_sent k + 1\<rparr>, h))))"

definition may_send :: "('e, 'g) kayak \<Rightarrow> bool" where
  "may_send k \<longleftrightarrow> unat (k_outstanding k) < f32_as_uint 64 (k_max_out k) \<and>
     get_queue_len (k_manager k) < f32_as_uint 64 (k_max_out k)"

text \<open>What the control loops work on, which nothing else changes.\<close>

definition ctl :: "('e, 'g) kayak \<Rightarrow> f32 \<times> f32 \<times> f32 \<times> f32 \<times> u64" where
  "ctl k = (k_max_out k, k_ext_p k, k_xloop_last_rate k, k_xloop_last_X k, k_slo k)"

lemma invoke_now_frame:
  "invoke_now now tenant pay k h = Inr (k', h') \<Longrightarrow> ctl k' = ctl k \<and> k_outstanding k' = k_outstanding k"
  by (auto simp: invoke_now_def ctl_def)

lemma send_native_frame:
  "send_native now g tenant key val k h = Inr (k', h') \<Longrightarrow> ctl k' = ctl k \<and> k_outstanding k' = k_outstanding k"
  by (auto simp: send_native_def ctl_def)

lemma send_extension_frame:
  assumes "send_extension now g tenant key k h = Inr (k', h')"
  shows "ctl k' = ctl k \<and> k_outstanding k' = k_outstanding k"
proof -
  obtain f where "invoke_now now tenant f (k\<lparr>k_payload_pushback := f\<rparr>) h = Inr (k', h') \<or>
      invoke_now now tenant f (k\<lparr>k_payload_put := f\<rparr>) h = Inr (k', h')"
    using assms by (auto simp: send_extension_def split: if_splits)
  then show ?thesis by (auto dest!: invoke_now_frame simp: ctl_def)
qed

lemma send_one_frame:
  assumes "send_one k h = Inr (k', h')"
  shows "k_outstanding k' = k_outstanding k + 1 \<and> ctl k' = ctl k"
proof -
  obtain now d h1 w g tenant key val k1 h2 where
      sent: "(if chooses_native d (k_ext_p k) then send_native now g tenant key val (k\<lparr>k_workload := w\<rparr>) h1
              else send_extension now g tenant key (k\<lparr>k_workload := w\<rparr>) h1) = Inr (k1, h2)"
      and k': "k' = k1\<lparr>k_outstanding := k_outstanding k1 + 1, k_sent := k_sent k1 + 1\<rparr>"
    using assms by (auto simp: send_one_def Let_def case_prod_beta)
  have "ctl k1 = ctl k \<and> k_outstanding k1 = k_outstanding k"
    using sent send_native_frame [of now g tenant key val "k\<lparr>k_workload := w\<rparr>" h1 k1 h2]
      send_extension_frame [of now g tenant key "k\<lparr>k_workload := w\<rparr>" h1 k1 h2]
    by (auto simp: ctl_def split: if_splits)
  then show ?thesis by (simp add: k' ctl_def)
qed

lemma f32_as_uint_bound: "f32_as_uint w a \<le> 2 ^ w - 1"
  by (cases a) auto

function send_loop :: "('e, 'g) kayak \<Rightarrow> host \<Rightarrow> (('e, 'g) kayak \<times> host) rust" where
  "send_loop k h =
     (if may_send k
      then case send_one k h of Inl e \<Rightarrow> Inl e | Inr (k', h') \<Rightarrow> send_loop k' h'
      else Inr (k, h))"
  by pat_completeness auto
termination
proof (relation "measure (\<lambda>(k, h). f32_as_uint 64 (k_max_out k) - unat (k_outstanding k))", simp)
  fix k :: "('e, 'g) kayak" and h r k' h'
  assume may: "may_send k" and one: "send_one k h = Inr r" and r: "(k', h') = r"
  have lt: "unat (k_outstanding k) < f32_as_uint 64 (k_max_out k)" using may by (simp add: may_send_def)
  then have "unat (k_outstanding k) + 1 < 2 ^ 64" using f32_as_uint_bound [of 64 "k_max_out k"] by simp
  then have "unat (k_outstanding k + 1) = unat (k_outstanding k) + 1" by (simp add: unat_word_ariths)
  then show "((k', h'), k, h) \<in> measure (\<lambda>(k, h). f32_as_uint 64 (k_max_out k) - unat (k_outstanding k))"
    using lt send_one_frame [of k h k' h'] one unfolding r [symmetric] by (simp add: ctl_def)
qed

declare send_loop.simps [simp del]

definition send :: "('e, 'g) kayak \<Rightarrow> host \<Rightarrow> (('e, 'g) kayak \<times> host) rust" where
  "send k h =
     (if k_requests k \<le> k_sent k then Inr (k, h)
      else rbind
        (if k_is_bimodal k
         then let (now, h) = read_tsc h
              in if k_bimodal_interval k = 0 then Inl ExplicitPanic
                 else Inr (k\<lparr>k_ord := (if (now div k_bimodal_interval k) mod 2 = 1 then k_ord1 k else k_ord2 k)\<rparr>, h)
         else Inr (k, h)) (\<lambda>(k, h). send_loop k h))"

section \<open>Receiving\<close>

definition response_header :: "packet \<Rightarrow> rpc_response_header rust" where
  "response_header p = rbind (get_header p) dec_response"

definition free_packet :: "packet \<Rightarrow> host \<Rightarrow> host" where
  "free_packet p h = (let (s, net) = h_env h in set_env h (s, free_packets [p] net))"

definition on_commit_response ::
    "u64 \<Rightarrow> packet \<Rightarrow> ('e, 'g) kayak \<Rightarrow> host \<Rightarrow> (('e, 'g) kayak \<times> host) rust" where
  "on_commit_response now packet k h =
     rbind (parse_header CommitResponse packet) (\<lambda>p.
     rbind (response_header p) (\<lambda>hd.
     let lat = (if rs_status hd = StatusOk then k_latencies k @ [now - rs_stamp hd] else k_latencies k)
     in Inr (k\<lparr>k_latencies := lat, k_recvd := k_recvd k + 1, k_native_state := (k_native_state k)(rs_stamp hd := None)\<rparr>,
             free_packet p h)))"

text \<open>The second component says whether a request has been answered.\<close>

definition on_invoke_response ::
    "bool \<Rightarrow> u64 \<Rightarrow> packet \<Rightarrow> ('e, 'g) kayak \<Rightarrow> host \<Rightarrow> (('e, 'g) kayak \<times> bool \<times> host) rust" where
  "on_invoke_response chk now packet k h =
     rbind (parse_header InvokeResponse packet) (\<lambda>p.
     rbind (response_header p) (\<lambda>hd.
     rbind
       (if rs_status hd = StatusOk
        then Inr (k\<lparr>k_recvd := k_recvd k + 1, k_latencies := k_latencies k @ [now - rs_stamp hd],
                    k_outstanding := k_outstanding k - 1, k_manager := delete_task (rs_stamp hd) (k_manager k)\<rparr>, True)
        else if rs_status hd = StatusPushback
        then rbind (get_payload p) (\<lambda>records.
             rbind (update_rwset chk (rs_stamp hd) records (k_record_len k) (k_key_len k) (k_manager k)) (\<lambda>tm.
             Inr (k\<lparr>k_counter_pushback := k_counter_pushback k + 1, k_manager := tm, k_outstanding := k_outstanding k - 1\<rparr>, False)))
        else Inr (k, False)) (\<lambda>(k, signal).
     Inr (k, signal, free_packet p h))))"

text \<open>The next request of a chain of lookups: the first 30 bytes of the value are its key.\<close>

definition next_lookup ::
    "u32 \<Rightarrow> u64 \<Rightarrow> byte_string \<Rightarrow> usize \<Rightarrow> pushback_state \<Rightarrow> cenv \<Rightarrow> (pushback_state \<times> cenv) rust" where
  "next_lookup tenant stamp record keylen st env =
     rbind (parse_record_optype record) (\<lambda>ot.
       if ot = SandstormRead
       then rbind (split_at record 1) (\<lambda>(_, rest).
            rbind (split_record rest keylen) (\<lambda>e.
            rbind (slice_range (kv_value e) 0 30) (\<lambda>key.
            rbind (send_get tenant 1 key stamp env) (\<lambda>env.
            Inr (st\<lparr>ps_op_num := ps_op_num st + 1\<rparr>, env)))))
       else Inr (st, env))"

text \<open>A record of such a chain: the last one completes the request, which is executed and committed. The second component says that it has been.\<close>

definition native_step ::
    "u32 \<Rightarrow> usize \<Rightarrow> usize \<Rightarrow> rpc_response_header \<Rightarrow> byte_string \<Rightarrow> pushback_state \<Rightarrow> cenv \<Rightarrow> (pushback_state \<times> bool \<times> cenv) rust" where
  "native_step num key_len record_len hdr record st env =
     rbind (PushbackState_update_rwset record key_len st) (\<lambda>st.
       if ps_op_num st = ucast num
       then rbind (PushbackState_execute_task num st) (\<lambda>_.
            rbind (send_commit (rs_tenant hdr) 1 (ps_commit_payload st) (rs_stamp hdr) (word_of_nat key_len)
              (word_of_nat (usize_sub (usize_sub record_len key_len) 9)) env) (\<lambda>env.
            Inr (st, True, env)))
       else rbind (next_lookup (rs_tenant hdr) (rs_stamp hdr) record key_len st env) (\<lambda>(st, env). Inr (st, False, env)))"

definition native_response ::
    "rpc_response_header \<Rightarrow> byte_string \<Rightarrow> pushback_state \<Rightarrow> ('e, 'g) kayak \<Rightarrow> host \<Rightarrow> (('e, 'g) kayak \<times> host) rust" where
  "native_response hdr record st k h =
     rbind (native_step (k_num k) (k_key_len k) (k_record_len k) hdr record st (h_env h)) (\<lambda>(st, complete, env).
     Inr (k\<lparr>k_native_state := (k_native_state k)(rs_stamp hdr \<mapsto> st),
            k_outstanding := (if complete then k_outstanding k - 1 else k_outstanding k)\<rparr>, set_env h env))"

definition on_get_response :: "packet \<Rightarrow> ('e, 'g) kayak \<Rightarrow> host \<Rightarrow> (('e, 'g) kayak \<times> host) rust" where
  "on_get_response packet k h =
     rbind (parse_header GetResponse packet) (\<lambda>p.
     rbind (response_header p) (\<lambda>hd.
     rbind (case k_native_state k (rs_stamp hd) of
              None \<Rightarrow> Inr (k, h)
            | Some st \<Rightarrow>
                if rs_status hd \<noteq> StatusOk then Inr (k, h)
                else rbind (get_payload p) (\<lambda>record. native_response hd record st k h)) (\<lambda>(k, h).
     Inr (k, free_packet p h))))"

section \<open>The control loops\<close>

definition kth_measurement :: "(u64 list \<Rightarrow> usize \<Rightarrow> u64) \<Rightarrow> ('e, 'g) kayak \<Rightarrow> ('e, 'g) kayak" where
  "kth_measurement kth_stat k =
     (let len = length (k_latencies k)
      in if 100 < len \<and> len mod 10 = 0 then k\<lparr>k_kth := kth_stat (drop (len - 100) (k_latencies k)) 98\<rparr> else k)"

text \<open>A loop is due when its interval has passed and the number of latencies is a multiple of its factor.\<close>

definition loop_due :: "usize \<Rightarrow> bool \<Rightarrow> u64 \<Rightarrow> u64 \<Rightarrow> usize \<Rightarrow> bool" where
  "loop_due factor signal now last_tsc len \<longleftrightarrow>
     factor \<noteq> 0 \<and> signal \<and> 2400000000 div word_of_nat factor < now - last_tsc \<and> 100 < len \<and> len mod factor = 0"

definition r_step :: "u64 \<Rightarrow> u64 \<Rightarrow> f32 \<Rightarrow> f32" where
  "r_step slo kth max_out =
     (let lat_offset = f32_sub (f32_of_nat (unat slo)) (f32_of_nat (unat kth));
          out_delta = f32_mul (f32_lit (3 / 1000000)) lat_offset;
          grown = f32_add max_out out_delta;
          halved = f32_mul max_out (f32_lit (1 / 2))
      in if f32_less (f32_lit 2) grown then grown
         else if f32_less halved (f32_lit 2) then f32_lit 2 else halved)"

definition r_loop :: "bool \<Rightarrow> u64 \<Rightarrow> ('e, 'g) kayak \<Rightarrow> ('e, 'g) kayak" where
  "r_loop signal now k =
     (if loop_due (k_rloop_factor k) signal now (k_rloop_last_rdtsc k) (length (k_latencies k))
      then k\<lparr>k_rloop_last_rdtsc := now, k_rloop_last_recvd := k_recvd k, k_max_out := r_step (k_slo k) (k_kth k) (k_max_out k)\<rparr>
      else k)"

definition bounded_offset :: "f32 \<Rightarrow> f32" where
  "bounded_offset grad =
     (if f32_less (f32_lit 0) grad
      then if f32_less grad (f32_lit 1) then f32_lit 1
           else if f32_less (f32_lit 20) grad then f32_lit 5 else grad
      else if f32_less (f32_lit (- 1)) grad then f32_lit (- 1)
           else if f32_less grad (f32_lit (- 20)) then f32_lit (- 5) else grad)"

definition bounce :: "f32 \<Rightarrow> f32 \<Rightarrow> f32" where
  "bounce offset ext_p =
     (let new_X = f32_add offset ext_p
      in if f32_less (f32_lit 100) new_X \<or> f32_less new_X (f32_lit 0) then f32_sub ext_p offset else new_X)"

definition loop_rate :: "u64 \<Rightarrow> u64 \<Rightarrow> f32" where
  "loop_rate received elapsed =
     f32_div (f32_mul (f32_lit 2400000) (f32_of_nat (unat received))) (f32_of_nat (unat elapsed))"

definition x_loop :: "bool \<Rightarrow> u64 \<Rightarrow> ('e, 'g) kayak \<Rightarrow> ('e, 'g) kayak" where
  "x_loop signal now k =
     (if loop_due (k_xloop_factor k) signal now (k_xloop_last_rdtsc k) (length (k_latencies k))
      then let xloop_rate = loop_rate (k_recvd k - k_xloop_last_recvd k) (now - k_xloop_last_rdtsc k);
               delta_rate = f32_sub xloop_rate (k_xloop_last_rate k);
               delta_X = f32_sub (k_ext_p k) (k_xloop_last_X k);
               grad = f32_div (f32_mul (f32_lit 2) delta_rate) delta_X
           in k\<lparr>k_xloop_last_rdtsc := now, k_xloop_last_recvd := k_recvd k, k_xloop_last_rate := xloop_rate,
                k_xloop_last_X := k_ext_p k, k_ext_p := bounce (bounded_offset grad) (k_ext_p k)\<rparr>
      else k)"

section \<open>The main loop\<close>

definition control :: "(u64 list \<Rightarrow> usize \<Rightarrow> u64) \<Rightarrow> bool \<Rightarrow> ('e, 'g) kayak \<times> host \<Rightarrow> ('e, 'g) kayak \<times> host" where
  "control kth_stat signal kh =
     (let (k, h) = kh; (r_tsc, h) = read_tsc h; (x_tsc, h) = read_tsc h
      in (x_loop signal x_tsc (r_loop signal r_tsc (kth_measurement kth_stat k)), h))"

text \<open>A commit response skips the control loops, but what it signals counts for the packets behind it.\<close>

fun recv_packets ::
    "(u64 list \<Rightarrow> usize \<Rightarrow> u64) \<Rightarrow> bool \<Rightarrow> u64 \<Rightarrow> bool \<Rightarrow> packet list \<Rightarrow> ('e, 'g) kayak \<times> host \<Rightarrow> (('e, 'g) kayak \<times> host) rust" where
  "recv_packets kth_stat chk now signal [] kh = Inr kh"
| "recv_packets kth_stat chk now signal (packet # packets) (k, h) =
     rbind (parse_rpc_opcode packet) (\<lambda>c.
       if c = SandstormCommitRpc
       then rbind (on_commit_response now packet k h) (recv_packets kth_stat chk now True packets)
       else if c = SandstormInvokeRpc
       then rbind (on_invoke_response chk now packet k h) (\<lambda>(k, answered, h).
            recv_packets kth_stat chk now (signal \<or> answered) packets (control kth_stat (signal \<or> answered) (k, h)))
       else if c = SandstormGetRpc
       then rbind (on_get_response packet k h) (\<lambda>kh.
            recv_packets kth_stat chk now signal packets (control kth_stat signal kh))
       else recv_packets kth_stat chk now signal packets (control kth_stat signal (k, free_packet packet h)))"

definition recv :: "(u64 list \<Rightarrow> usize \<Rightarrow> u64) \<Rightarrow> bool \<Rightarrow> ('e, 'g) kayak \<Rightarrow> host \<Rightarrow> (('e, 'g) kayak \<times> host) rust" where
  "recv kth_stat chk k h =
     (if k_finished k \<and> 0 < k_stop k then Inr (k, h)
      else let (s, net) = h_env h
           in rbind (recv_res (k_responses_recv k, net)) (\<lambda>(packets, n, net).
              let k = k\<lparr>k_responses_recv := n\<rparr>; h = set_env h (s, net)
              in rbind (case packets of
                          None \<Rightarrow> Inr (k, h)
                        | Some ps \<Rightarrow> (case read_tsc h of (now, h) \<Rightarrow> recv_packets kth_stat chk now False (rev ps) (k, h))) (\<lambda>(k, h).
                 if k_responses k \<le> k_recvd k
                 then case read_tsc h of (now, h) \<Rightarrow> Inr (k\<lparr>k_stop := now, k_finished := True\<rparr>, h)
                 else Inr (k, h))))"

primrec execute_tasks ::
    "bool \<Rightarrow> ('e, 'g) ext_init \<Rightarrow> 'g ext_resume \<Rightarrow> nat \<Rightarrow> ('e, 'g) kayak \<times> host \<Rightarrow> (('e, 'g) kayak \<times> host) rust" where
  "execute_tasks chk init resume 0 kh = Inr kh"
| "execute_tasks chk init resume (Suc n) kh =
     (let (k, h) = kh; (start, h) = read_tsc h; (now, h) = read_tsc h
      in rbind (execute_task chk init resume start now (k_manager k, h_env h)) (\<lambda>(_, tm, env).
         execute_tasks chk init resume n (k\<lparr>k_manager := tm\<rparr>, set_env h env)))"

text \<open>The last component is the flag \<open>FINISHED\<close>, when it is set.\<close>

definition execute ::
    "(u64 list \<Rightarrow> usize \<Rightarrow> u64) \<Rightarrow> bool \<Rightarrow> ('e, 'g) ext_init \<Rightarrow> 'g ext_resume \<Rightarrow> ('e, 'g) kayak \<Rightarrow> host \<Rightarrow>
     (('e, 'g) kayak \<times> host \<times> bool) rust" where
  "execute kth_stat chk init resume k h =
     rbind (send k h) (\<lambda>(k, h).
     rbind (recv kth_stat chk k h) (\<lambda>(k, h).
     rbind (execute_tasks chk init resume (f32_as_uint 64 (k_max_out k)) (k, h)) (\<lambda>(k, h).
     Inr (k, h, k_finished k))))"

end
