(* ===== verification/Control.thy ===== *)
theory Control
  imports Kayak
begin

text \<open>
  The control loops of the Kayak client stay within their bounds: lemmas on the steps in 32-bit floating point, from the contract of rounding in the
  theory \<open>Float32\<close>, the frame of everything else the client does, and the invariant over any number of turns.
\<close>

section \<open>Bounds\<close>

lemma representable_pow2: "- 149 \<le> e \<Longrightarrow> representable (pow2 e)" "- 149 \<le> e \<Longrightarrow> representable (- pow2 e)"
  unfolding representable_def by (rule exI [of _ 1], rule exI [of _ e], simp) (rule exI [of _ "- 1"], rule exI [of _ e], simp)

lemma round32_abs_le:
  assumes "- 149 \<le> e" and "\<bar>x\<bar> \<le> pow2 e"
  shows "\<bar>round32 x\<bar> \<le> pow2 e"
  using r32.rnd_le [OF representable_pow2(1) [OF assms(1)], of x] r32.rnd_ge [OF representable_pow2(2) [OF assms(1)], of x] assms(2)
  by (simp add: abs_le_iff)

lemma round32_half: "\<bar>k\<bar> \<le> 2 ^ 24 \<Longrightarrow> round32 (of_int k / 2) = of_int k / 2"
  by (rule r32.rnd_half)

lemma lit_half:
  assumes "\<bar>k\<bar> \<le> 2 ^ 24"
  shows "finite32 (f32_lit (of_int k / 2))" "val32 (f32_lit (of_int k / 2)) = of_int k / 2"
proof -
  have "\<bar>of_int k :: rat\<bar> \<le> of_int (2 ^ 24)" using assms of_int_le_iff [of "\<bar>k\<bar>" "2 ^ 24", where 'a = rat] by simp
  moreover have "(of_int (2 ^ 24) :: rat) \<le> pow2 100" by (simp add: pow2_def)
  ultimately have "\<bar>of_int k / 2 :: rat\<bar> \<le> pow2 100" by simp
  from f32_of_bounded [OF this] show "finite32 (f32_lit (of_int k / 2))" "val32 (f32_lit (of_int k / 2)) = of_int k / 2"
    using round32_half [OF assms] by simp_all
qed

lemma lits [simp]:
  "finite32 (f32_lit 0)" "val32 (f32_lit 0) = 0" "finite32 (f32_lit 1)" "val32 (f32_lit 1) = 1"
  "finite32 (f32_lit 2)" "val32 (f32_lit 2) = 2" "finite32 (f32_lit 5)" "val32 (f32_lit 5) = 5"
  "finite32 (f32_lit 20)" "val32 (f32_lit 20) = 20" "finite32 (f32_lit 100)" "val32 (f32_lit 100) = 100"
  "finite32 (f32_lit (- 1))" "val32 (f32_lit (- 1)) = - 1" "finite32 (f32_lit (- 5))" "val32 (f32_lit (- 5)) = - 5"
  "finite32 (f32_lit (- 20))" "val32 (f32_lit (- 20)) = - 20" "finite32 (f32_lit (1 / 2))" "val32 (f32_lit (1 / 2)) = 1 / 2"
  "finite32 (f32_lit 2400000)" "val32 (f32_lit 2400000) = 2400000" "finite32 (f32_lit (101 / 2))" "val32 (f32_lit (101 / 2)) = 101 / 2"
  using lit_half [of 0] lit_half [of 2] lit_half [of 4] lit_half [of 10] lit_half [of 40] lit_half [of 200] lit_half [of "- 2"]
    lit_half [of "- 10"] lit_half [of "- 40"] lit_half [of 1] lit_half [of 4800000] lit_half [of 101]
  by simp_all

lemma of_nat_f32:
  assumes "n \<le> 2 ^ e" and "e \<le> 100"
  shows "finite32 (f32_of_nat n)" "val32 (f32_of_nat n) = round32 (of_nat n)" "0 \<le> val32 (f32_of_nat n)" "val32 (f32_of_nat n) \<le> 2 ^ e"
proof -
  have le: "(of_nat n :: rat) \<le> 2 ^ e" using assms(1) of_nat_le_iff [of n "2 ^ e", where 'a = rat] by simp
  have "(2 :: rat) ^ e \<le> 2 ^ 100" using assms(2) by (intro power_increasing) simp_all
  with le have "(of_nat n :: rat) \<le> 2 ^ 100" by (rule order_trans)
  then have b: "\<bar>of_nat n\<bar> \<le> pow2 100" using pow2_of_nat [of 100] by simp
  show fin: "finite32 (f32_of_nat n)" "val32 (f32_of_nat n) = round32 (of_nat n)"
    using f32_of_bounded [OF b] by (simp_all add: f32_of_nat_def)
  show "0 \<le> val32 (f32_of_nat n)" by (simp add: fin round32_nonneg)
  show "val32 (f32_of_nat n) \<le> 2 ^ e"
    using r32.rnd_le [OF representable_pow2(1), of "int e" "of_nat n"] le by (simp add: fin pow2_of_nat)
qed

lemma of_nat_f32_ge1:
  assumes "1 \<le> n" and "n \<le> 2 ^ e" and "e \<le> 100"
  shows "1 \<le> val32 (f32_of_nat n)"
  using of_nat_f32 [OF assms(2,3)] round32_mono [of 1 "of_nat n"] round32_half [of 2] assms(1) by simp

section \<open>The R-loop\<close>

definition window_ok :: "f32 \<Rightarrow> bool" where
  "window_ok m \<longleftrightarrow> finite32 m \<and> 2 \<le> val32 m \<and> val32 m \<le> 2 ^ 40"

lemma rate_constant: "finite32 (f32_lit (3 / 1000000))" "0 \<le> val32 (f32_lit (3 / 1000000))" "val32 (f32_lit (3 / 1000000)) \<le> 1 / 2 ^ 18"
  by code_simp+

lemma window_limit: "round32 (2 ^ 40 + 2 ^ 14) = 2 ^ 40"
  by code_simp

text \<open>The correction of the window: at most \<open>2 ^ 14\<close> up, whatever latency was measured.\<close>

definition out_delta :: "u64 \<Rightarrow> u64 \<Rightarrow> f32" where
  "out_delta slo kth = f32_mul (f32_lit (3 / 1000000)) (f32_sub (f32_of_nat (unat slo)) (f32_of_nat (unat kth)))"

lemma out_delta_bounds:
  assumes "unat slo < 2 ^ 32"
  shows "finite32 (out_delta slo kth)" "\<bar>val32 (out_delta slo kth)\<bar> \<le> pow2 64" "val32 (out_delta slo kth) \<le> 2 ^ 14"
proof -
  let ?c = "val32 (f32_lit (3 / 1000000))" and ?slo = "f32_of_nat (unat slo)" and ?kth = "f32_of_nat (unat kth)"
  have slo: "finite32 ?slo" "0 \<le> val32 ?slo" "val32 ?slo \<le> 2 ^ 32" using of_nat_f32 [of "unat slo" 32] assms by simp_all
  have kth: "finite32 ?kth" "0 \<le> val32 ?kth" "val32 ?kth \<le> 2 ^ 64" using of_nat_f32 [of "unat kth" 64] unat_u64_lt [of kth] by simp_all
  let ?off = "f32_sub ?slo ?kth"
  have "\<bar>val32 ?slo - val32 ?kth\<bar> \<le> pow2 64" using slo kth by (simp add: pow2_def abs_le_iff)
  then have off: "finite32 ?off" "val32 ?off = round32 (val32 ?slo - val32 ?kth)" "\<bar>val32 ?off\<bar> \<le> pow2 64"
    using finite_sub [OF slo(1) kth(1)] round32_abs_le [of 64] pow2_le [of 64 100] by auto
  have off_le: "val32 ?off \<le> 2 ^ 32"
    unfolding off(2) using r32.rnd_le [OF representable_pow2(1), of 32] slo kth by (simp add: pow2_def)
  have c: "finite32 (f32_lit (3 / 1000000))" "0 \<le> ?c" "?c \<le> 1" "?c \<le> 1 / 2 ^ 18" using rate_constant by auto
  have "\<bar>?c * val32 ?off\<bar> \<le> pow2 64"
    using mult_mono [of "\<bar>?c\<bar>" 1 "\<bar>val32 ?off\<bar>" "pow2 64"] c off(3) by (simp add: abs_mult)
  then have v: "finite32 (out_delta slo kth)" "val32 (out_delta slo kth) = round32 (?c * val32 ?off)" "\<bar>val32 (out_delta slo kth)\<bar> \<le> pow2 64"
    using finite_mul [OF c(1) off(1)] round32_abs_le [of 64] pow2_le [of 64 100] by (auto simp: out_delta_def)
  show "finite32 (out_delta slo kth)" "\<bar>val32 (out_delta slo kth)\<bar> \<le> pow2 64" using v by simp_all
  have "?c * val32 ?off \<le> 2 ^ 14"
    using mult_mono [OF c(4) off_le] mult_nonneg_nonpos [OF c(2), of "val32 ?off"] by (cases "0 \<le> val32 ?off") simp_all
  then show "val32 (out_delta slo kth) \<le> 2 ^ 14"
    unfolding v(2) using r32.rnd_le [OF representable_pow2(1), of 14] by (simp add: pow2_def)
qed

lemma r_step_ok:
  assumes "window_ok max_out" and "unat slo < 2 ^ 32"
  shows "window_ok (r_step slo kth max_out)"
proof -
  let ?m = "val32 max_out" and ?delta = "out_delta slo kth"
  have m: "finite32 max_out" "2 \<le> ?m" "?m \<le> 2 ^ 40" using assms(1) by (simp_all add: window_ok_def)
  note delta = out_delta_bounds [OF assms(2), of kth]
  let ?grown = "f32_add max_out ?delta" and ?half = "f32_mul max_out (f32_lit (1 / 2))"
  have "\<bar>?m + val32 ?delta\<bar> \<le> pow2 100" using m delta(2) by (simp add: pow2_def abs_le_iff)
  then have grown: "finite32 ?grown" "val32 ?grown = round32 (?m + val32 ?delta)" using finite_add [OF m(1) delta(1)] by simp_all
  have "round32 (?m + val32 ?delta) \<le> round32 (2 ^ 40 + 2 ^ 14)" using m(3) delta(3) by (intro round32_mono add_mono)
  then have grown_le: "val32 ?grown \<le> 2 ^ 40" unfolding grown(2) window_limit .
  have "\<bar>?m * val32 (f32_lit (1 / 2))\<bar> \<le> pow2 40" using m by (simp add: pow2_def)
  then have half: "finite32 ?half" "val32 ?half \<le> 2 ^ 40"
    using finite_mul [OF m(1), of "f32_lit (1 / 2)"] round32_abs_le [of 40] pow2_le [of 40 100]
    by (auto simp: pow2_of_nat [of 40, simplified] abs_le_iff)
  show ?thesis
    using grown grown_le half by (auto simp: r_step_def out_delta_def [symmetric] Let_def window_ok_def finite_less not_less)
qed

section \<open>The X-loop\<close>

text \<open>The share of invocations and where it was before: both percentages, more than half a point apart.\<close>

definition share_ok :: "f32 \<Rightarrow> f32 \<Rightarrow> bool" where
  "share_ok x before \<longleftrightarrow> finite32 x \<and> 0 \<le> val32 x \<and> val32 x \<le> 100 \<and> finite32 before \<and> 0 \<le> val32 before \<and> val32 before \<le> 100 \<and>
     1 / 2 \<le> \<bar>val32 x - val32 before\<bar>"

definition offset_ok :: "f32 \<Rightarrow> bool" where
  "offset_ok a \<longleftrightarrow> finite32 a \<and> (1 \<le> val32 a \<and> val32 a \<le> 20 \<or> - 20 \<le> val32 a \<and> val32 a \<le> - 1)"

lemma bounded_offset_ok: "finite32 grad \<Longrightarrow> offset_ok (bounded_offset grad)"
  by (auto simp: bounded_offset_def offset_ok_def finite_less not_less)

lemma round32_in: "0 \<le> x \<Longrightarrow> x \<le> 100 \<Longrightarrow> 0 \<le> round32 x \<and> round32 x \<le> 100"
  using round32_mono [of 0 x] round32_mono [of x 100] round32_half [of 0] round32_half [of 200] by simp

lemma bounce_ok:
  assumes "offset_ok a" and "finite32 x" and "0 \<le> val32 x" and "val32 x \<le> 100"
  shows "share_ok (bounce a x) x"
proof -
  have a: "finite32 a" "1 \<le> val32 a \<and> val32 a \<le> 20 \<or> - 20 \<le> val32 a \<and> val32 a \<le> - 1"
    using assms(1) by (auto simp: offset_ok_def)
  then have bound: "\<bar>val32 a + val32 x\<bar> \<le> pow2 100" "\<bar>val32 x - val32 a\<bar> \<le> pow2 100"
    using assms(3,4) by (auto simp: pow2_def abs_le_iff)
  have up: "finite32 (f32_add a x)" "val32 (f32_add a x) = round32 (val32 x + val32 a)"
    using finite_add [OF a(1) assms(2) bound(1)] by (simp_all add: add.commute)
  have down: "finite32 (f32_sub x a)" "val32 (f32_sub x a) = round32 (val32 x + (- val32 a))"
    using finite_sub [OF assms(2) a(1) bound(2)] by simp_all
  note steps = r32.step_up [OF assms(3), of "val32 a"] r32.step_down [OF assms(3), of "val32 a"]
    r32.step_up [OF assms(3), of "- val32 a"] r32.step_down [OF assms(3), of "- val32 a"]
  have over: "\<not> round32 (val32 x + val32 a) \<le> 100 \<Longrightarrow> 100 < val32 x + val32 a"
    using round32_mono [of "val32 x + val32 a" 100] round32_half [of 200] by fastforce
  have under: "\<not> 0 \<le> round32 (val32 x + val32 a) \<Longrightarrow> val32 x + val32 a < 0"
    using round32_nonneg [of "val32 x + val32 a"] by fastforce
  have eq: "bounce a x = (if 100 < round32 (val32 x + val32 a) \<or> round32 (val32 x + val32 a) < 0 then f32_sub x a else f32_add a x)"
    using up by (simp add: bounce_def Let_def finite_less)
  show ?thesis
  proof (cases "round32 (val32 x + val32 a) \<le> 100")
    case False
    then show ?thesis
      using over a(2) assms round32_in [of "val32 x + (- val32 a)"] steps(4) down eq by (auto simp: share_ok_def)
  next
    case le: True
    show ?thesis
    proof (cases "0 \<le> round32 (val32 x + val32 a)")
      case True
      then show ?thesis using le a(2) assms steps(1,2) up eq by (auto simp: share_ok_def)
    next
      case False
      then show ?thesis
        using under a(2) assms round32_in [of "val32 x + (- val32 a)"] steps(3) down eq by (auto simp: share_ok_def)
    qed
  qed
qed

text \<open>The gradient is a number: the share has moved, so nothing is divided by zero.\<close>

lemma loop_rate_ok:
  assumes "elapsed \<noteq> 0"
  shows "finite32 (loop_rate received elapsed)" "0 \<le> val32 (loop_rate received elapsed)" "val32 (loop_rate received elapsed) \<le> 2 ^ 86"
proof -
  let ?r = "f32_of_nat (unat received)" and ?e = "f32_of_nat (unat elapsed)"
  have r: "finite32 ?r" "0 \<le> val32 ?r" "val32 ?r \<le> 2 ^ 64" using of_nat_f32 [of "unat received" 64] unat_u64_lt [of received] by simp_all
  have e: "finite32 ?e" "val32 ?e = round32 (of_nat (unat elapsed))" using of_nat_f32 [of "unat elapsed" 64] unat_u64_lt [of elapsed] by simp_all
  have "1 \<le> unat elapsed" using assms unat_eq_zero [of elapsed] by linarith
  then have e1: "1 \<le> val32 ?e" using of_nat_f32_ge1 [of "unat elapsed" 64] unat_u64_lt [of elapsed] by simp
  let ?n = "f32_mul (f32_lit 2400000) ?r"
  have "\<bar>2400000 * val32 ?r\<bar> \<le> pow2 86" using r by (simp add: pow2_def)
  then have n: "finite32 ?n" "0 \<le> val32 ?n" "val32 ?n \<le> pow2 86"
    using finite_mul [of "f32_lit 2400000" ?r] r round32_abs_le [of 86 "2400000 * val32 ?r"] round32_nonneg [of "2400000 * val32 ?r"] pow2_le [of 86 100]
    by auto
  have "val32 ?n / val32 ?e \<le> val32 ?n" using n(2) e1 by (simp add: divide_le_eq mult_left_le_one_le mult_le_cancel_left1)
  then have q: "\<bar>val32 ?n / val32 ?e\<bar> \<le> pow2 86" "0 \<le> val32 ?n / val32 ?e" using n e1 by simp_all
  then have "finite32 (loop_rate received elapsed)" "val32 (loop_rate received elapsed) = round32 (val32 ?n / val32 ?e)"
    using finite_div [OF n(1) e(1)] e1 pow2_le [of 86 100] by (auto simp: loop_rate_def)
  then show "finite32 (loop_rate received elapsed)" "0 \<le> val32 (loop_rate received elapsed)" "val32 (loop_rate received elapsed) \<le> 2 ^ 86"
    using round32_abs_le [OF _ q(1)] round32_nonneg [OF q(2)] by (auto simp: pow2_of_nat [of 86, simplified])
qed

lemma gradient_finite:
  assumes "finite32 r" "0 \<le> val32 r" "val32 r \<le> 2 ^ 86" and "finite32 r'" "0 \<le> val32 r'" "val32 r' \<le> 2 ^ 86" and "share_ok x before"
  shows "finite32 (f32_div (f32_mul (f32_lit 2) (f32_sub r r')) (f32_sub x before))"
proof -
  have "\<bar>val32 r - val32 r'\<bar> \<le> pow2 86" using assms(2,3,5,6) by (simp add: pow2_def abs_le_iff)
  then have d: "finite32 (f32_sub r r')" "\<bar>val32 (f32_sub r r')\<bar> \<le> pow2 86"
    using finite_sub [OF assms(1,4)] round32_abs_le [of 86] pow2_le [of 86 100] by auto
  then have "\<bar>2 * val32 (f32_sub r r')\<bar> \<le> pow2 87" by (simp add: pow2_def)
  then have n: "finite32 (f32_mul (f32_lit 2) (f32_sub r r'))" "\<bar>val32 (f32_mul (f32_lit 2) (f32_sub r r'))\<bar> \<le> pow2 87"
    using finite_mul [of "f32_lit 2" "f32_sub r r'"] d(1) round32_abs_le [of 87] pow2_le [of 87 100] by auto
  have s: "finite32 x" "finite32 before" "1 / 2 \<le> \<bar>val32 x - val32 before\<bar>" "\<bar>val32 x - val32 before\<bar> \<le> pow2 100"
    using assms(7) by (auto simp: share_ok_def pow2_def abs_le_iff)
  then have "1 / 2 \<le> val32 x - val32 before \<or> val32 x - val32 before \<le> - (1 / 2)" by (auto simp: abs_if split: if_splits)
  then have "1 / 2 \<le> round32 (val32 x - val32 before) \<or> round32 (val32 x - val32 before) \<le> - (1 / 2)"
    using round32_mono [of "1 / 2" "val32 x - val32 before"] round32_mono [of "val32 x - val32 before" "- (1 / 2)"]
      round32_half [of 1] round32_half [of "- 1"] by auto
  then have dx: "finite32 (f32_sub x before)" "1 / 2 \<le> \<bar>val32 (f32_sub x before)\<bar>"
    using finite_sub [OF s(1,2,4)] by auto
  let ?n = "\<bar>val32 (f32_mul (f32_lit 2) (f32_sub r r'))\<bar>" and ?d = "\<bar>val32 (f32_sub x before)\<bar>"
  have "?n / ?d \<le> ?n / (1 / 2)" using dx(2) by (intro divide_left_mono) simp_all
  also have "\<dots> \<le> pow2 100" using n(2) by (simp add: pow2_def)
  finally show ?thesis
    using finite_div [OF n(1) dx(1)] dx(2) by (auto simp: abs_divide)
qed

section \<open>The invariant\<close>

fun ctl_ok :: "f32 \<times> f32 \<times> f32 \<times> f32 \<times> u64 \<Rightarrow> bool" where
  "ctl_ok (m, x, rate, before, slo) \<longleftrightarrow> window_ok m \<and> share_ok x before \<and>
     finite32 rate \<and> 0 \<le> val32 rate \<and> val32 rate \<le> 2 ^ 86 \<and> unat slo < 2 ^ 32"

lemma kth_measurement_frame: "ctl (kth_measurement kth_stat k) = ctl k"
  by (simp add: kth_measurement_def ctl_def Let_def)

lemma r_loop_ok: "ctl_ok (ctl k) \<Longrightarrow> ctl_ok (ctl (r_loop signal now k))"
  using r_step_ok by (auto simp: r_loop_def ctl_def)

lemma x_step_ok:
  assumes "elapsed \<noteq> 0" and "finite32 rate" and "0 \<le> val32 rate" and "val32 rate \<le> 2 ^ 86" and "share_ok x before"
  shows "share_ok (bounce (bounded_offset
    (f32_div (f32_mul (f32_lit 2) (f32_sub (loop_rate received elapsed) rate)) (f32_sub x before))) x) x"
    (is "share_ok (bounce ?offset x) x")
proof (rule bounce_ok)
  show "offset_ok ?offset"
    by (rule bounded_offset_ok [OF gradient_finite [OF loop_rate_ok [OF assms(1)] assms(2-5)]])
qed (use assms(5) in \<open>simp_all add: share_ok_def\<close>)

lemma x_loop_ok:
  assumes "ctl_ok (ctl k)"
  shows "ctl_ok (ctl (x_loop signal now k))"
proof (cases "loop_due (k_xloop_factor k) signal now (k_xloop_last_rdtsc k) (length (k_latencies k))")
  case True
  then have moved: "now - k_xloop_last_rdtsc k \<noteq> 0" by (auto simp: loop_due_def)
  have "share_ok (k_ext_p k) (k_xloop_last_X k)" "finite32 (k_xloop_last_rate k)"
      "0 \<le> val32 (k_xloop_last_rate k)" "val32 (k_xloop_last_rate k) \<le> 2 ^ 86"
    using assms by (simp_all add: ctl_def)
  note step = x_step_ok [OF moved this(2-4,1)]
  show ?thesis using True assms loop_rate_ok [OF moved] step by (simp add: x_loop_def ctl_def Let_def)
next
  case False
  then show ?thesis using assms by (simp add: x_loop_def)
qed

lemma control_ok: "ctl_ok (ctl (fst kh)) \<Longrightarrow> ctl_ok (ctl (fst (control kth_stat signal kh)))"
  by (simp add: control_def Let_def case_prod_beta x_loop_ok r_loop_ok kth_measurement_frame)

section \<open>What the rest of the client leaves alone\<close>

lemma send_loop_frame: "send_loop k h = Inr (k', h') \<Longrightarrow> ctl k' = ctl k"
proof (induction k h rule: send_loop.induct)
  case (1 k h)
  show ?case
  proof (cases "may_send k")
    case True
    then obtain k1 h1 where one: "send_one k h = Inr (k1, h1)" "send_loop k1 h1 = Inr (k', h')"
      using "1.prems" by (subst (asm) send_loop.simps) (auto split: sum.splits)
    then show ?thesis using "1.IH" [OF True one(1) refl] send_one_frame [OF one(1)] by simp
  next
    case False
    then show ?thesis using "1.prems" by (simp add: send_loop.simps)
  qed
qed

lemma send_frame: "send k h = Inr (k', h') \<Longrightarrow> ctl k' = ctl k"
  by (auto simp: send_def Let_def case_prod_beta ctl_def split: if_splits dest!: send_loop_frame)

lemma on_commit_response_frame: "on_commit_response now p k h = Inr (k', h') \<Longrightarrow> ctl k' = ctl k"
  by (auto simp: on_commit_response_def Let_def ctl_def)

lemma on_invoke_response_frame: "on_invoke_response chk now p k h = Inr (k', s, h') \<Longrightarrow> ctl k' = ctl k"
  by (auto simp: on_invoke_response_def ctl_def split: if_splits)

lemma native_response_frame: "native_response hdr record st k h = Inr (k', h') \<Longrightarrow> ctl k' = ctl k"
  by (auto simp: native_response_def ctl_def)

lemma on_get_response_frame:
  assumes "on_get_response p k h = Inr (k', h')"
  shows "ctl k' = ctl k"
proof -
  have "k' = k \<or> (\<exists>hd record st h1. native_response hd record st k h = Inr (k', h1))"
    using assms by (auto simp: on_get_response_def split: if_splits option.splits)
  then show ?thesis using native_response_frame by blast
qed

lemma recv_packets_ok:
  assumes "recv_packets kth_stat chk now signal packets kh = Inr (k', h')" and "ctl_ok (ctl (fst kh))"
  shows "ctl_ok (ctl k')"
  using assms
proof (induction packets arbitrary: signal kh)
  case (Cons p packets)
  obtain k h where kh: "kh = (k, h)" by fastforce
  obtain c where c: "parse_rpc_opcode p = Inr c" using Cons.prems(1) by (auto simp: kh)
  consider "c = SandstormCommitRpc" | "c = SandstormInvokeRpc" | "c = SandstormGetRpc" |
      "c \<noteq> SandstormCommitRpc" "c \<noteq> SandstormInvokeRpc" "c \<noteq> SandstormGetRpc" by blast
  then show ?case
  proof cases
    case 1
    then obtain k1 h1 where "on_commit_response now p k h = Inr (k1, h1)" "recv_packets kth_stat chk now True packets (k1, h1) = Inr (k', h')"
      using Cons.prems(1) c by (auto simp: kh)
    then show ?thesis using Cons.IH [of True "(k1, h1)"] Cons.prems(2) on_commit_response_frame kh by fastforce
  next
    case 2
    then obtain k1 b h1 where one: "on_invoke_response chk now p k h = Inr (k1, b, h1)"
        "recv_packets kth_stat chk now (signal \<or> b) packets (control kth_stat (signal \<or> b) (k1, h1)) = Inr (k', h')"
      using Cons.prems(1) c by (auto simp: kh)
    then show ?thesis
      using Cons.IH [OF one(2) control_ok] Cons.prems(2) on_invoke_response_frame [OF one(1)] kh by simp
  next
    case 3
    then obtain k1 h1 where one: "on_get_response p k h = Inr (k1, h1)"
        "recv_packets kth_stat chk now signal packets (control kth_stat signal (k1, h1)) = Inr (k', h')"
      using Cons.prems(1) c by (auto simp: kh)
    then show ?thesis
      using Cons.IH [OF one(2) control_ok] Cons.prems(2) on_get_response_frame [OF one(1)] kh by simp
  next
    case 4
    then have "recv_packets kth_stat chk now signal packets (control kth_stat signal (k, free_packet p h)) = Inr (k', h')"
      using Cons.prems(1) c by (simp add: kh)
    then show ?thesis using Cons.IH [OF _ control_ok] Cons.prems(2) kh by simp
  qed
qed simp

lemma recv_ok:
  assumes "recv kth_stat chk k h = Inr (k', h')" and "ctl_ok (ctl k)"
  shows "ctl_ok (ctl k')"
proof -
  show ?thesis
  proof (cases "k_finished k \<and> 0 < k_stop k")
    case True
    then show ?thesis using assms by (simp add: recv_def)
  next
    case False
    then obtain packets n net k1 h1 where one: "(case packets of None \<Rightarrow> Inr (k\<lparr>k_responses_recv := n\<rparr>, set_env h (fst (h_env h), net))
          | Some ps \<Rightarrow> (case read_tsc (set_env h (fst (h_env h), net)) of (now, h) \<Rightarrow>
              recv_packets kth_stat chk now False (rev ps) (k\<lparr>k_responses_recv := n\<rparr>, h))) = Inr (k1, h1)" "ctl k' = ctl k1"
      using assms(1) by (auto simp: recv_def Let_def case_prod_beta ctl_def split: if_splits)
    have k: "ctl_ok (ctl (k\<lparr>k_responses_recv := n\<rparr>))" using assms(2) by (simp add: ctl_def)
    then have "ctl_ok (ctl k1)"
      using one(1) recv_packets_ok [of kth_stat chk _ False _ _ k1 h1] by (auto simp: case_prod_beta split: option.splits)
    then show ?thesis using one(2) by simp
  qed
qed

lemma execute_tasks_frame: "execute_tasks chk init resume n (k, h) = Inr (k', h') \<Longrightarrow> ctl k' = ctl k"
proof (induction n arbitrary: k h)
  case (Suc n)
  then obtain tm env h1 where "execute_tasks chk init resume n (k\<lparr>k_manager := tm\<rparr>, set_env h1 env) = Inr (k', h')"
    by (auto simp: Let_def case_prod_beta)
  then show ?case using Suc.IH by (simp add: ctl_def)
qed simp

lemma execute_ok:
  assumes "execute kth_stat chk init resume k h = Inr (k', h', fin)" and "ctl_ok (ctl k)"
  shows "ctl_ok (ctl k')"
proof -
  obtain k1 h1 k2 h2 n where one: "send k h = Inr (k1, h1)" "recv kth_stat chk k1 h1 = Inr (k2, h2)"
      "execute_tasks chk init resume n (k2, h2) = Inr (k', h')"
    using assms(1) by (auto simp: execute_def)
  then show ?thesis using send_frame recv_ok execute_tasks_frame assms(2) by metis
qed

lemma initial_share_ok:
  assumes "p \<le> 100"
  shows "share_ok (f32_of_nat p) (f32_lit (101 / 2))"
proof -
  have "\<bar>int p * 2\<bar> \<le> 2 ^ 24" using assms by simp
  note lit = lit_half [OF this]
  then have "finite32 (f32_of_nat p)" "val32 (f32_of_nat p) = of_nat p" by (simp_all add: f32_of_nat_def)
  moreover have "p \<le> 50 \<or> 51 \<le> p" by linarith
  then have "of_nat p \<le> (50 :: rat) \<or> (51 :: rat) \<le> of_nat p" by simp
  then have "1 / 2 \<le> \<bar>of_nat p - 101 / 2 :: rat\<bar>" by auto
  ultimately show ?thesis using assms by (simp add: share_ok_def)
qed

lemma initial_window_ok:
  assumes "2 \<le> m" and "m \<le> 2 ^ 20"
  shows "window_ok (f32_of_nat m)"
proof -
  have "\<bar>int m * 2\<bar> \<le> 2 ^ 24" using assms by simp
  from lit_half [OF this] show ?thesis using assms by (simp add: f32_of_nat_def window_ok_def)
qed

lemma new_ok:
  assumes "cf_invoke_p cf \<le> 100" and "2 \<le> cf_max_out cf" and "cf_max_out cf \<le> 2 ^ 20" and "unat (cf_slo cf) < 2 ^ 32"
  shows "ctl_ok (ctl (fst (PushbackRecvSend_new resps cf reqs exts number order ord2 h)))"
  using initial_share_ok [OF assms(1)] initial_window_ok [OF assms(2,3)] assms(4)
  by (simp add: PushbackRecvSend_new_def Let_def case_prod_beta ctl_def)

section \<open>Any number of turns\<close>

primrec turns :: "('k \<Rightarrow> host \<Rightarrow> ('k \<times> host \<times> bool) rust) \<Rightarrow> nat \<Rightarrow> 'k \<times> host \<Rightarrow> ('k \<times> host) rust" where
  "turns exec 0 kh = Inr kh"
| "turns exec (Suc n) kh = (let (k, h) = kh in rbind (exec k h) (\<lambda>(k, h, _). turns exec n (k, h)))"

text \<open>A client with control loops: what they work on, and a turn that keeps it within bounds.\<close>

locale controlled_client =
  fixes ctl_of :: "'k \<Rightarrow> f32 \<times> f32 \<times> f32 \<times> f32 \<times> u64" and exec :: "'k \<Rightarrow> host \<Rightarrow> ('k \<times> host \<times> bool) rust"
  assumes exec_ok: "exec k h = Inr (k', h', fin) \<Longrightarrow> ctl_ok (ctl_of k) \<Longrightarrow> ctl_ok (ctl_of k')"
begin

lemma turns_ok: "turns exec n kh = Inr (k', h') \<Longrightarrow> ctl_ok (ctl_of (fst kh)) \<Longrightarrow> ctl_ok (ctl_of k')"
proof (induction n arbitrary: kh)
  case (Suc n)
  obtain k h where kh: "kh = (k, h)" by fastforce
  with Suc.prems(1) obtain k1 h1 b where "exec k h = Inr (k1, h1, b)" "turns exec n (k1, h1) = Inr (k', h')" by auto
  then show ?case using Suc.IH [of "(k1, h1)"] exec_ok Suc.prems(2) by (simp add: kh)
qed simp

end

interpretation pushback_client: controlled_client ctl "execute kth_stat chk init resume" for kth_stat chk init resume
  by unfold_locales (rule execute_ok)

section \<open>Properties\<close>

text \<open>C12: the control loops are stable. Start a client with a share of invocations between 0 and 100 percent, at least two outstanding requests and
  a latency target below \<open>2 ^ 32\<close> cycles; let it run for any number of turns, whatever arrives from the network, whatever the
  clock says and whatever latencies are measured. The number of outstanding requests it allows stays between 2 and \<open>2 ^ 40\<close>, the
  share of invocations stays between 0 and 100, and neither ever becomes infinite or not-a-number: the X-loop moves
  the share by more than half a point each time, so the gradient never divides by zero.\<close>

theorem control_loops_stable:
  fixes k :: "('e, 'g) kayak"
  assumes "cf_invoke_p cf \<le> 100" and "2 \<le> cf_max_out cf" and "cf_max_out cf \<le> 2 ^ 20" and "unat (cf_slo cf) < 2 ^ 32"
    and "turns (execute kth_stat chk init resume) n (PushbackRecvSend_new resps cf reqs exts number order ord2 h) = Inr (k, h')"
  shows "finite32 (k_max_out k) \<and> 2 \<le> val32 (k_max_out k) \<and> val32 (k_max_out k) \<le> 2 ^ 40 \<and>
    finite32 (k_ext_p k) \<and> 0 \<le> val32 (k_ext_p k) \<and> val32 (k_ext_p k) \<le> 100 \<and>
    1 / 2 \<le> \<bar>val32 (k_ext_p k) - val32 (k_xloop_last_X k)\<bar>"
proof -
  have "ctl_ok (ctl k)" by (rule pushback_client.turns_ok [OF assms(5) new_ok [OF assms(1-4)]])
  then show ?thesis by (auto simp: ctl_def window_ok_def share_ok_def)
qed

text \<open>Records an extension asks for are dropped. A pushed-back extension that misses a record asks the server for it and waits. When the
  response arrives, a Kayak client looks for the native request with its time stamp only; finding none it frees
  the packet: no task is resumed and nothing is sent, so the extension waits forever.\<close>

lemma extension_read_ignored:
  assumes "view_at UdpHeader i (net @ enc_get_response q @ record) r packet"
    and "end_at UdpHeader i (net @ enc_get_response q @ record) = length net" and "rs_opcode q = SandstormGetRpc"
    and "k_native_state k (rs_stamp q) = None" and "tm_waiting (k_manager k) (rs_stamp q) = Some task"
  shows "\<exists>k' h'. recv_packets kth_stat chk now False [packet] (k, h) = Inr (k', h') \<and> k_manager k' = k_manager k \<and>
    tm_waiting (k_manager k') (rs_stamp q) = Some task \<and> wire (snd (h_env h')) = wire (snd (h_env h))"
proof -
  have op: "parse_rpc_opcode packet = Inr SandstormGetRpc"
    using response_opcode [OF assms(1,2) enc_get_response_def] assms(3) by simp
  obtain p where p: "parse_header GetResponse packet = Inr p" "get_header p = Inr (enc_get_response q)"
    using response_packet [OF assms(1,2), of GetResponse] by (auto simp: hdr_offset_def)
  have hd: "response_header p = Inr (rpc_response_header.truncate q)" by (simp add: response_header_def p(2) enc_get_response_def)
  have stamp: "rs_stamp (rpc_response_header.truncate q) = rs_stamp q" by (simp add: rpc_response_header.truncate_def)
  have get: "on_get_response packet k h = Inr (k, free_packet p h)"
    using assms(4) by (simp add: on_get_response_def p(1) hd stamp)
  have loops: "\<not> loop_due f False t l n" for f t l n by (simp add: loop_due_def)
  show ?thesis
    using assms(5) by (auto simp: op get control_def Let_def case_prod_beta r_loop_def x_loop_def loops kth_measurement_def read_tsc_def
        free_packet_def set_env_def free_packets_def)
qed

section \<open>Witness\<close>

text \<open>A client that has nothing left to send and receives nothing.\<close>

definition wit_config :: client_config where
  "wit_config = \<lparr>cf_invoke_p = 50, cf_max_out = 2, cf_key_len = 30, cf_value_len = 100, cf_bimodal = False, cf_bimodal_interval = 1,
     cf_rloop_factor = 20, cf_xloop_factor = 20, cf_slo = 50000\<rparr>"

definition wit_host :: host where
  "wit_host = \<lparr>h_clock = word_of_nat, h_ticks = 0, h_draws = (\<lambda>_. \<lparr>dr_coin = 0, dr_put = 0, dr_tenant = 1, dr_key = 1, dr_order = 0\<rparr>),
     h_drawn = 0, h_env = (wit_sender, (wit_network demo_mbuf)\<lparr>net_rx := (\<lambda>_. Some [])\<rparr>)\<rparr>"

definition wit_client :: "(unit, unit) kayak \<times> host" where
  "wit_client = PushbackRecvSend_new 0 wit_config 0 ExtensionManager_new 1 100 100 wit_host"

lemma wit_client_turn:
  "\<exists>k h. turns (execute (\<lambda>_ _. 0) False (\<lambda>_ _. Inl ExplicitPanic) (\<lambda>g p env. (g, ExtPanic, p, env))) 1 wit_client = Inr (k, h)"
proof -
  have tasks: "\<exists>k' h'. execute_tasks False init resume n (k, h) = Inr (k', h')" if "tm_ready (k_manager k) = []"
    for init resume n and k :: "(unit, unit) kayak" and h
    using that
  proof (induction n arbitrary: h)
    case (Suc n)
    then show ?case by (simp add: Let_def case_prod_beta execute_task_def)
  qed simp
  show ?thesis
    by (simp add: wit_client_def PushbackRecvSend_new_def execute_def send_def recv_def recv_res_def wit_host_def wit_config_def read_tsc_def
        set_env_def Let_def) (rule tasks, simp add: TaskManager_new_def)
qed

theorem control_loops_stable_witness:
  "\<exists>k h. turns (execute (\<lambda>_ _. 0) False (\<lambda>_ _. Inl ExplicitPanic) (\<lambda>g p env. (g, ExtPanic, p, env))) 1 wit_client = Inr (k, h) \<and>
    2 \<le> val32 (k_max_out k) \<and> val32 (k_ext_p k) \<le> 100"
  using control_loops_stable [of wit_config "\<lambda>_ _. 0" False "\<lambda>_ _. Inl ExplicitPanic" "\<lambda>g p env. (g, ExtPanic, p, env)" 1 0 0
      ExtensionManager_new 1 100 100 wit_host] wit_client_turn
  unfolding wit_client_def by (fastforce simp: wit_config_def)

definition wit_waiting :: "(unit, unit) kayak" where
  "wit_waiting = (fst wit_client)\<lparr>k_manager := (TaskManager_new ExtensionManager_new)\<lparr>tm_waiting :=
     [42 \<mapsto> CContainer_new REQUEST (ProxyDB_new 7 42 ([112] @ enc_u64 1) 1) () 42]\<rparr>\<rparr>"

end
