(* ===== verification/Ycsbt.thy ===== *)
theory Ycsbt
  imports Control ExtRuns
begin

text \<open>
  The clients for the workload YCSB-T: \<open>splinter/src/bin/client/ycsb-t.rs\<close> and \<open>splinter/src/bin/client/ycsb-t-kayak.rs\<close>. A request
  reads one account or moves one unit between two. It is executed either by invoking the extension \<open>ycsbt\<close> or natively: the
  client gets the records, computes the new values itself and asks for a commit.

  The two programs share most of their code, so the state of the first, \<open>ycsbt\<close>, is a record that the state of the
  second, \<open>ycsbt_kayak\<close>, extends with its control loops, and the shared functions work on both. Names of the first start with
  \<open>y_\<close>, those of the second with \<open>kt_\<close>. Clock, random numbers and environment are the \<open>host\<close> of the theory \<open>Kayak\<close>; the second key of a
  transfer is drawn in another round of the random generators. Fields that are never read are left out, and so is the busy waiting of \<open>execute_task\<close>.
\<close>

section \<open>The workload\<close>

record yworkload =
  yw_put_pct :: usize
  yw_key_buf :: byte_string
  yw_multikey_buf :: byte_string

definition YCSBT_new :: "usize \<Rightarrow> usize \<Rightarrow> yworkload" where
  "YCSBT_new key_len put_pct =
     \<lparr>yw_put_pct = put_pct, yw_key_buf = replicate key_len 0, yw_multikey_buf = replicate (2 * key_len) 0\<rparr>"

text \<open>Whether the callback is that for a get, and its arguments.\<close>

definition YCSBT_abc :: "yworkload \<Rightarrow> host \<Rightarrow> (yworkload \<times> bool \<times> u32 \<times> byte_string \<times> host) rust" where
  "YCSBT_abc w h =
     (let (d, h) = next_draw h; k = enc_u32 (dr_key d)
      in rbind (copy_from_slice_at 0 4 k (yw_key_buf w)) (\<lambda>key.
         let w = w\<lparr>yw_key_buf := key\<rparr>
         in if (word_of_nat (yw_put_pct w) :: u32) \<le> dr_put d mod 100
            then Inr (w, True, dr_tenant d, key, h)
            else let (d2, h) = next_draw h
                 in rbind (copy_from_slice_at 0 4 k (yw_multikey_buf w)) (\<lambda>keys.
                    rbind (copy_from_slice_at 30 34 (enc_u32 (dr_key d2)) keys) (\<lambda>keys.
                    Inr (w\<lparr>yw_multikey_buf := keys\<rparr>, False, dr_tenant d, keys, h)))))"

section \<open>The client\<close>

definition MAX_CREDIT :: usize where "MAX_CREDIT = 32"

record ycsbt_config = client_config +
  cf_put_pct :: usize
  cf_use_invoke :: bool

record ('e, 'g) ycsbt =
  y_responses_recv :: u64
  y_responses :: u64
  y_start :: u64
  y_recvd :: u64
  y_aborted :: u64
  y_latencies :: "u64 list"
  y_master :: bool
  y_stop :: u64
  y_workload :: yworkload
  y_requests :: u64
  y_sent :: u64
  y_native :: bool
  y_invoke_get :: byte_string
  y_invoke_get_modify :: byte_string
  y_finished :: bool
  y_outstanding :: u64
  y_manager :: "('e, 'g) task_manager"
  y_ord :: u32
  y_key_len :: usize
  y_record_len :: usize
  y_table_id :: u64
  y_name_length :: u32

definition ycsbt_name :: byte_string where
  "ycsbt_name = map of_char ''ycsbt''"

text \<open>\<open>Vec::resize\<close>.\<close>

definition resize :: "usize \<Rightarrow> byte_string \<Rightarrow> byte_string" where
  "resize n bs = take n bs @ replicate (n - length bs) 0"

definition invoke_get_payload :: "usize \<Rightarrow> u32 \<Rightarrow> byte_string" where
  "invoke_get_payload key_len order =
     resize (5 + 8 + key_len + 4 + 1) (ycsbt_name @ enc_u64 1 @ replicate 30 0 @ enc_u32 order @ [1])"

definition invoke_get_modify_payload :: "usize \<Rightarrow> u32 \<Rightarrow> byte_string" where
  "invoke_get_modify_payload key_len order =
     resize (5 + 8 + key_len + key_len + 4 + 1) (ycsbt_name @ enc_u64 1 @ replicate 60 0 @ enc_u32 order @ [2])"

definition y_new ::
    "u64 \<Rightarrow> bool \<Rightarrow> ycsbt_config \<Rightarrow> u64 \<Rightarrow> 'e ext_manager \<Rightarrow> u32 \<Rightarrow> host \<Rightarrow> ('e, 'g) ycsbt \<times> host" where
  "y_new resps master cf reqs exts order h =
     (let (start, h) = read_tsc h
      in (\<lparr>y_responses_recv = 0, y_responses = resps, y_start = start, y_recvd = 0, y_aborted = 0, y_latencies = [], y_master = master,
           y_stop = 0, y_workload = YCSBT_new (cf_key_len cf) (cf_put_pct cf), y_requests = reqs, y_sent = 0,
           y_native = (\<not> cf_use_invoke cf), y_invoke_get = invoke_get_payload (cf_key_len cf) order,
           y_invoke_get_modify = invoke_get_modify_payload (cf_key_len cf) order, y_finished = False, y_outstanding = 0,
           y_manager = TaskManager_new exts, y_ord = order, y_key_len = cf_key_len cf,
           y_record_len = 1 + 8 + cf_key_len cf + cf_value_len cf, y_table_id = 1, y_name_length = 5\<rparr>, h))"

section \<open>Sending\<close>

definition y_send_native :: "u64 \<Rightarrow> ('e, 'g, 'z) ycsbt_scheme \<Rightarrow> host \<Rightarrow> (('e, 'g, 'z) ycsbt_scheme \<times> host) rust" where
  "y_send_native now k h =
     rbind (YCSBT_abc (y_workload k) h) (\<lambda>(w, is_get, tenant, keys, h).
     rbind (if is_get then send_get tenant (y_table_id k) keys now (h_env h)
            else send_multiget tenant (y_table_id k) (word_of_nat (y_key_len k)) 2 keys now (h_env h)) (\<lambda>env.
     Inr (k\<lparr>y_workload := w\<rparr>, set_env h env)))"

definition y_invoke_now ::
    "u64 \<Rightarrow> u32 \<Rightarrow> byte_string \<Rightarrow> ('e, 'g, 'z) ycsbt_scheme \<Rightarrow> host \<Rightarrow> (('e, 'g, 'z) ycsbt_scheme \<times> host) rust" where
  "y_invoke_now now tenant pay k h =
     rbind (create_task now pay tenant (unat (y_name_length k)) (y_manager k)) (\<lambda>tm.
     rbind (send_invoke tenant (y_name_length k) pay now (h_env h)) (\<lambda>env.
     Inr (k\<lparr>y_manager := tm\<rparr>, set_env h env)))"

definition y_send_extension :: "u64 \<Rightarrow> ('e, 'g, 'z) ycsbt_scheme \<Rightarrow> host \<Rightarrow> (('e, 'g, 'z) ycsbt_scheme \<times> host) rust" where
  "y_send_extension now k h =
     rbind (YCSBT_abc (y_workload k) h) (\<lambda>(w, is_get, tenant, keys, h).
     let k = k\<lparr>y_workload := w\<rparr>
     in rbind (slice_range keys 0 4) (\<lambda>first.
        if is_get
        then rbind (copy_from_slice_at 13 17 first (y_invoke_get k)) (\<lambda>p_get.
             y_invoke_now now tenant p_get (k\<lparr>y_invoke_get := p_get\<rparr>) h)
        else rbind (copy_from_slice_at 13 17 first (y_invoke_get_modify k)) (\<lambda>p_put.
             rbind (slice_range keys 30 34) (\<lambda>second.
             rbind (copy_from_slice_at 43 47 second p_put) (\<lambda>p_put.
             y_invoke_now now tenant p_put (k\<lparr>y_invoke_get_modify := p_put\<rparr>) h)))))"

definition y_send_one :: "u64 \<Rightarrow> bool \<Rightarrow> ('e, 'g, 'z) ycsbt_scheme \<Rightarrow> host \<Rightarrow> (('e, 'g, 'z) ycsbt_scheme \<times> host) rust" where
  "y_send_one now native k h =
     rbind (if native then y_send_native now k h else y_send_extension now k h) (\<lambda>(k, h).
     Inr (k\<lparr>y_outstanding := y_outstanding k + 1, y_sent := y_sent k + 1\<rparr>, h))"

text \<open>What sending leaves alone: everything but the workload, the payloads, the manager and the two counters.\<close>

definition y_frame :: "('e, 'g, 'z) ycsbt_scheme \<Rightarrow> ('e, 'g, 'z) ycsbt_scheme \<Rightarrow> bool" where
  "y_frame k k' \<longleftrightarrow> ycsbt.more k' = ycsbt.more k \<and> y_native k' = y_native k"

lemma y_invoke_now_frame: "y_invoke_now now tenant pay k h = Inr (k', h') \<Longrightarrow> y_frame k k' \<and> y_outstanding k' = y_outstanding k"
  by (auto simp: y_invoke_now_def y_frame_def)

lemma y_send_native_frame: "y_send_native now k h = Inr (k', h') \<Longrightarrow> y_frame k k' \<and> y_outstanding k' = y_outstanding k"
  by (auto simp: y_send_native_def y_frame_def)

lemma y_send_extension_frame:
  assumes "y_send_extension now k h = Inr (k', h')"
  shows "y_frame k k' \<and> y_outstanding k' = y_outstanding k"
proof -
  obtain w f tenant h1 where "y_invoke_now now tenant f (k\<lparr>y_workload := w, y_invoke_get := f\<rparr>) h1 = Inr (k', h') \<or>
      y_invoke_now now tenant f (k\<lparr>y_workload := w, y_invoke_get_modify := f\<rparr>) h1 = Inr (k', h')"
    using assms by (auto simp: y_send_extension_def Let_def split: if_splits)
  then show ?thesis by (auto dest!: y_invoke_now_frame simp: y_frame_def)
qed

lemma y_send_one_frame:
  assumes "y_send_one now native k h = Inr (k', h')"
  shows "y_frame k k' \<and> y_outstanding k' = y_outstanding k + 1"
proof -
  obtain k1 where "y_send_native now k h = Inr (k1, h') \<or> y_send_extension now k h = Inr (k1, h')"
      and "k' = k1\<lparr>y_outstanding := y_outstanding k1 + 1, y_sent := y_sent k1 + 1\<rparr>"
    using assms by (auto simp: y_send_one_def split: if_splits)
  then show ?thesis by (auto dest!: y_send_native_frame y_send_extension_frame simp: y_frame_def)
qed

lemma outstanding_step: "unat (n :: u64) < 2 ^ 64 - 1 \<Longrightarrow> unat (n + 1) = unat n + 1"
  by (simp add: unat_word_ariths)

definition y_may_send :: "('e, 'g, 'z) ycsbt_scheme \<Rightarrow> bool" where
  "y_may_send k \<longleftrightarrow> unat (y_outstanding k) < MAX_CREDIT \<and> get_queue_len (y_manager k) < MAX_CREDIT"

function y_send_loop :: "('e, 'g) ycsbt \<Rightarrow> host \<Rightarrow> (('e, 'g) ycsbt \<times> host) rust" where
  "y_send_loop k h =
     (if y_may_send k
      then case y_send_one (fst (read_tsc h)) (y_native k) k (snd (read_tsc h)) of
             Inl e \<Rightarrow> Inl e
           | Inr (k', h') \<Rightarrow> y_send_loop k' h'
      else Inr (k, h))"
  by pat_completeness auto
termination
proof (relation "measure (\<lambda>(k, h). MAX_CREDIT - unat (y_outstanding k))", simp)
  fix k :: "('e, 'g) ycsbt" and h r k' h'
  assume may: "y_may_send k" and one: "y_send_one (fst (read_tsc h)) (y_native k) k (snd (read_tsc h)) = Inr r" and r: "(k', h') = r"
  have lt: "unat (y_outstanding k) < 32" using may by (simp add: y_may_send_def MAX_CREDIT_def)
  then show "((k', h'), k, h) \<in> measure (\<lambda>(k, h). MAX_CREDIT - unat (y_outstanding k))"
    using outstanding_step [of "y_outstanding k"] y_send_one_frame [of _ _ k _ k' h'] one unfolding r [symmetric] by (auto simp: MAX_CREDIT_def)
qed

declare y_send_loop.simps [simp del]

definition y_send :: "('e, 'g) ycsbt \<Rightarrow> host \<Rightarrow> (('e, 'g) ycsbt \<times> host) rust" where
  "y_send k h = (if y_requests k \<le> y_sent k then Inr (k, h) else y_send_loop k h)"

section \<open>Native execution\<close>

definition process_get_response ::
    "rpc_response_header \<Rightarrow> byte_string \<Rightarrow> ('e, 'g, 'z) ycsbt_scheme \<Rightarrow> host \<Rightarrow> host rust" where
  "process_get_response hdr record k h =
     rbind (send_commit (rs_tenant hdr) (y_table_id k) record (rs_stamp hdr) 30 100 (h_env h)) (\<lambda>env. Inr (set_env h env))"

text \<open>The new values of the two accounts.\<close>

definition move_unit :: "byte_string \<Rightarrow> byte_string \<Rightarrow> (byte_string \<times> byte_string) rust" where
  "move_unit value1 value2 =
     rbind (index_slice value1 0) (\<lambda>a.
     rbind (if 0 < a then rbind (index_slice value2 0) (\<lambda>b. Inr (b < 255)) else Inr False) (\<lambda>forth.
     if forth then rbind (index_slice value2 0) (\<lambda>b. Inr (value1[0 := a - 1], value2[0 := b + 1]))
     else rbind (index_slice value2 0) (\<lambda>b.
          if 0 < b \<and> a < 255 then Inr (value1[0 := a + 1], value2[0 := b - 1]) else Inr (value1, value2))))"

definition write_record :: "byte_string \<Rightarrow> byte_string \<Rightarrow> byte_string" where
  "write_record key val = [optype_code SandstormWrite] @ enc_u64 0 @ key @ val"

definition multiget_commit_payload :: "byte_string \<Rightarrow> byte_string rust" where
  "multiget_commit_payload records =
     rbind (split_at records 139) (\<lambda>(record1, record2).
     rbind (split_at record1 9) (\<lambda>(_, rest1). rbind (split_at rest1 30) (\<lambda>(key1, v1).
     rbind (split_at record2 9) (\<lambda>(_, rest2). rbind (split_at rest2 30) (\<lambda>(key2, v2).
     rbind (move_unit v1 v2) (\<lambda>(value1, value2).
     Inr (records @ write_record key1 value1 @ write_record key2 value2)))))))"

definition process_multiget_response ::
    "rpc_response_header \<Rightarrow> byte_string \<Rightarrow> ('e, 'g, 'z) ycsbt_scheme \<Rightarrow> host \<Rightarrow> host rust" where
  "process_multiget_response hdr records k h =
     rbind (multiget_commit_payload records) (\<lambda>commit_payload.
     rbind (send_commit (rs_tenant hdr) (y_table_id k) commit_payload (rs_stamp hdr) 30 100 (h_env h)) (\<lambda>env.
     Inr (set_env h env)))"

text \<open>The response to a get or a multiget request of the type \<open>ty\<close>.\<close>

definition on_native_response ::
    "hdr_type \<Rightarrow> (rpc_response_header \<Rightarrow> byte_string \<Rightarrow> ('e, 'g, 'z) ycsbt_scheme \<Rightarrow> host \<Rightarrow> host rust) \<Rightarrow> packet \<Rightarrow>
     ('e, 'g, 'z) ycsbt_scheme \<Rightarrow> host \<Rightarrow> host rust" where
  "on_native_response ty process packet k h =
     rbind (parse_header ty packet) (\<lambda>p.
     rbind (response_header p) (\<lambda>hdr.
     rbind (if rs_status hdr = StatusOk then rbind (get_payload p) (\<lambda>pay. process hdr pay k h) else Inr h) (\<lambda>h.
     Inr (free_packet p h))))"

definition recv_native :: "packet \<Rightarrow> ('e, 'g, 'z) ycsbt_scheme \<Rightarrow> host \<Rightarrow> (('e, 'g, 'z) ycsbt_scheme \<times> host) rust" where
  "recv_native packet k h =
     rbind (parse_rpc_opcode packet) (\<lambda>c.
     rbind (if c = SandstormGetRpc then on_native_response GetResponse process_get_response packet k h
            else if c = SandstormMultiGetRpc then on_native_response MultiGetResponse process_multiget_response packet k h
            else Inr (free_packet packet h)) (\<lambda>h.
     Inr (k\<lparr>y_outstanding := y_outstanding k - 1\<rparr>, h)))"

section \<open>Responses to invocations\<close>

text \<open>The second component says whether a request has been answered.\<close>

definition y_on_invoke_response ::
    "bool \<Rightarrow> u64 \<Rightarrow> packet \<Rightarrow> ('e, 'g, 'z) ycsbt_scheme \<Rightarrow> host \<Rightarrow> (('e, 'g, 'z) ycsbt_scheme \<times> bool \<times> host) rust" where
  "y_on_invoke_response chk now packet k h =
     rbind (parse_header InvokeResponse packet) (\<lambda>p.
     rbind (response_header p) (\<lambda>hdr.
     rbind
       (if rs_status hdr = StatusOk
        then Inr (k\<lparr>y_latencies := y_latencies k @ [now - rs_stamp hdr], y_manager := delete_task (rs_stamp hdr) (y_manager k),
                    y_recvd := y_recvd k + 1, y_outstanding := y_outstanding k - 1\<rparr>, True, h)
        else if rs_status hdr = StatusPushback
        then rbind (get_payload p) (\<lambda>records.
             rbind (update_rwset chk (rs_stamp hdr) records (y_record_len k) (y_key_len k) (y_manager k)) (\<lambda>tm.
             Inr (k\<lparr>y_manager := tm, y_outstanding := y_outstanding k - 1\<rparr>, False, h)))
        else if rs_status hdr = StatusTxAbort
        then rbind (get_payload p) (\<lambda>pay.
             rbind (send_invoke (rs_tenant hdr) (y_name_length k) pay (rs_stamp hdr) (h_env h)) (\<lambda>env.
             Inr (k\<lparr>y_aborted := y_aborted k + 1\<rparr>, False, set_env h env)))
        else Inr (k, False, h)) (\<lambda>(k, answered, h).
     Inr (k, answered, free_packet p h))))"

definition recv_invoke :: "bool \<Rightarrow> u64 \<Rightarrow> packet \<Rightarrow> ('e, 'g, 'z) ycsbt_scheme \<Rightarrow> host \<Rightarrow> (('e, 'g, 'z) ycsbt_scheme \<times> host) rust" where
  "recv_invoke chk now packet k h =
     rbind (parse_rpc_opcode packet) (\<lambda>c.
       if c = SandstormInvokeRpc then rbind (y_on_invoke_response chk now packet k h) (\<lambda>(k, _, h). Inr (k, h))
       else Inr (k, free_packet packet h))"

section \<open>Responses to commit requests, without control loops\<close>

definition retry_native :: "rpc_response_header \<Rightarrow> byte_string \<Rightarrow> ('e, 'g, 'z) ycsbt_scheme \<Rightarrow> host \<Rightarrow> host rust" where
  "retry_native hdr pay k h =
     rbind (if length pay = y_key_len k then send_get (rs_tenant hdr) (y_table_id k) pay (rs_stamp hdr) (h_env h)
            else if y_key_len k = 0 then Inl DivisionByZero
            else send_multiget (rs_tenant hdr) (y_table_id k) (word_of_nat (y_key_len k))
                   (word_of_nat (length pay div y_key_len k)) pay (rs_stamp hdr) (h_env h)) (\<lambda>env.
     Inr (set_env h env))"

fun fill_keys :: "usize \<Rightarrow> byte_string list \<Rightarrow> byte_string \<Rightarrow> byte_string rust" where
  "fill_keys start_index [] pay = Inr pay"
| "fill_keys start_index (key # keys) pay =
     rbind (slice_range key 0 4) (\<lambda>k.
     rbind (copy_from_slice_at start_index (start_index + 4) k pay) (fill_keys (start_index + 30) keys))"

definition retry_invoke ::
    "rpc_response_header \<Rightarrow> byte_string \<Rightarrow> ('e, 'g, 'z) ycsbt_scheme \<Rightarrow> host \<Rightarrow> (('e, 'g, 'z) ycsbt_scheme \<times> host) rust" where
  "retry_invoke hdr records k h =
     rbind (chunks records (y_key_len k)) (\<lambda>keys.
     rbind (fill_keys 13 keys (y_invoke_get_modify k)) (\<lambda>pay.
     rbind (send_invoke (rs_tenant hdr) (y_name_length k) pay (rs_stamp hdr) (h_env h)) (\<lambda>env.
     rbind (create_task (rs_stamp hdr) pay (rs_tenant hdr) (unat (y_name_length k)) (y_manager k)) (\<lambda>tm.
     Inr (k\<lparr>y_invoke_get_modify := pay, y_manager := tm\<rparr>, set_env h env)))))"

definition y_on_commit_response ::
    "u64 \<Rightarrow> packet \<Rightarrow> ('e, 'g, 'z) ycsbt_scheme \<Rightarrow> host \<Rightarrow> (('e, 'g, 'z) ycsbt_scheme \<times> host) rust" where
  "y_on_commit_response now packet k h =
     rbind (parse_header CommitResponse packet) (\<lambda>p.
     rbind (response_header p) (\<lambda>hdr.
     rbind
       (if rs_status hdr = StatusTxAbort
        then rbind (get_payload p) (\<lambda>pay.
             rbind (if y_native k then rbind (retry_native hdr pay k h) (\<lambda>h. Inr (k, h)) else retry_invoke hdr pay k h) (\<lambda>(k, h).
             Inr (k\<lparr>y_aborted := y_aborted k + 1, y_outstanding := y_outstanding k + 1\<rparr>, h)))
        else if rs_status hdr = StatusOk
        then Inr (k\<lparr>y_recvd := y_recvd k + 1, y_latencies := y_latencies k @ [now - rs_stamp hdr]\<rparr>, h)
        else Inr (k, h)) (\<lambda>(k, h).
     Inr (k, free_packet p h))))"

section \<open>Receiving and the main loop, without control loops\<close>

fun y_recv_packets ::
    "bool \<Rightarrow> u64 \<Rightarrow> packet list \<Rightarrow> ('e, 'g) ycsbt \<times> host \<Rightarrow> (('e, 'g) ycsbt \<times> host) rust" where
  "y_recv_packets chk now [] kh = Inr kh"
| "y_recv_packets chk now (packet # packets) (k, h) =
     rbind (parse_rpc_opcode packet) (\<lambda>c.
     rbind (if c = SandstormCommitRpc then y_on_commit_response now packet k h
            else if y_native k then recv_native packet k h
            else recv_invoke chk now packet k h)
       (y_recv_packets chk now packets))"

text \<open>What is common to the receive methods of both clients; \<open>process\<close> handles the packets of a burst.\<close>

definition y_recv_with ::
    "(u64 \<Rightarrow> packet list \<Rightarrow> ('e, 'g, 'z) ycsbt_scheme \<times> host \<Rightarrow> (('e, 'g, 'z) ycsbt_scheme \<times> host) rust) \<Rightarrow>
     ('e, 'g, 'z) ycsbt_scheme \<Rightarrow> host \<Rightarrow> (('e, 'g, 'z) ycsbt_scheme \<times> host) rust" where
  "y_recv_with process k h =
     (if y_finished k \<and> 0 < y_stop k then Inr (k, h)
      else let (s, net) = h_env h
           in rbind (recv_res (y_responses_recv k, net)) (\<lambda>(packets, n, net).
              let k = k\<lparr>y_responses_recv := n\<rparr>; h = set_env h (s, net)
              in rbind (case packets of
                          None \<Rightarrow> Inr (k, h)
                        | Some ps \<Rightarrow> (case read_tsc h of (now, h) \<Rightarrow> process now (rev ps) (k, h))) (\<lambda>(k, h).
                 if y_responses k \<le> y_recvd k + y_aborted k
                 then case read_tsc h of (now, h) \<Rightarrow> Inr (k\<lparr>y_stop := now, y_finished := True\<rparr>, h)
                 else Inr (k, h))))"

definition y_recv :: "bool \<Rightarrow> ('e, 'g) ycsbt \<Rightarrow> host \<Rightarrow> (('e, 'g) ycsbt \<times> host) rust" where
  "y_recv chk = y_recv_with (y_recv_packets chk)"

primrec y_execute_tasks ::
    "bool \<Rightarrow> ('e, 'g) ext_init \<Rightarrow> 'g ext_resume \<Rightarrow> nat \<Rightarrow> ('e, 'g, 'z) ycsbt_scheme \<times> host \<Rightarrow> (('e, 'g, 'z) ycsbt_scheme \<times> host) rust" where
  "y_execute_tasks chk init resume 0 kh = Inr kh"
| "y_execute_tasks chk init resume (Suc n) kh =
     (let (k, h) = kh; (start, h) = read_tsc h; (now, h) = read_tsc h
      in rbind (execute_task chk init resume start now (y_manager k, h_env h)) (\<lambda>(_, tm, env).
         y_execute_tasks chk init resume n (k\<lparr>y_manager := tm\<rparr>, set_env h env)))"

definition y_execute ::
    "bool \<Rightarrow> ('e, 'g) ext_init \<Rightarrow> 'g ext_resume \<Rightarrow> ('e, 'g) ycsbt \<Rightarrow> host \<Rightarrow> (('e, 'g) ycsbt \<times> host \<times> bool) rust" where
  "y_execute chk init resume k h =
     rbind (y_send k h) (\<lambda>(k, h).
     rbind (y_recv chk k h) (\<lambda>(k, h).
     rbind (y_execute_tasks chk init resume MAX_CREDIT (k, h)) (\<lambda>(k, h).
     Inr (k, h, y_finished k))))"

section \<open>The client with control loops\<close>

record ('e, 'g) ycsbt_kayak = "('e, 'g) ycsbt" +
  kt_ext_p :: f32
  kt_max_out :: f32
  kt_slo :: u64
  kt_rloop_factor :: usize
  kt_xloop_factor :: usize
  kt_kth :: u64
  kt_xloop_last_recvd :: u64
  kt_xloop_last_rdtsc :: u64
  kt_xloop_last_rate :: f32
  kt_xloop_last_X :: f32
  kt_rloop_last_recvd :: u64
  kt_rloop_last_rdtsc :: u64

definition kt_new ::
    "u64 \<Rightarrow> bool \<Rightarrow> ycsbt_config \<Rightarrow> u64 \<Rightarrow> 'e ext_manager \<Rightarrow> u32 \<Rightarrow> host \<Rightarrow> ('e, 'g) ycsbt_kayak \<times> host" where
  "kt_new resps master cf reqs exts order h =
     (let (k, h) = y_new resps master cf reqs exts order h; (x_tsc, h) = read_tsc h; (r_tsc, h) = read_tsc h
      in (ycsbt.extend k
            \<lparr>kt_ext_p = f32_of_nat (cf_invoke_p cf), kt_max_out = f32_of_nat (cf_max_out cf), kt_slo = cf_slo cf,
             kt_rloop_factor = cf_rloop_factor cf, kt_xloop_factor = cf_xloop_factor cf, kt_kth = 0,
             kt_xloop_last_recvd = 0, kt_xloop_last_rdtsc = x_tsc, kt_xloop_last_rate = f32_lit 0, kt_xloop_last_X = f32_lit (101 / 2),
             kt_rloop_last_recvd = 0, kt_rloop_last_rdtsc = r_tsc\<rparr>, h))"

definition kt_may_send :: "('e, 'g) ycsbt_kayak \<Rightarrow> bool" where
  "kt_may_send k \<longleftrightarrow> unat (y_outstanding k) < f32_as_uint 64 (kt_max_out k) \<and>
     get_queue_len (y_manager k) < f32_as_uint 64 (kt_max_out k)"

definition kt_chooses_native :: "draw \<Rightarrow> f32 \<Rightarrow> bool" where
  "kt_chooses_native d ext_p \<longleftrightarrow> (word_of_nat (f32_as_uint 32 ext_p) :: u32) \<le> dr_coin d mod 100"

text \<open>The coin comes from a round of the generators of its own.\<close>

definition kt_send_one :: "('e, 'g) ycsbt_kayak \<Rightarrow> host \<Rightarrow> (('e, 'g) ycsbt_kayak \<times> host) rust" where
  "kt_send_one k h =
     (let (now, h) = read_tsc h; (d, h) = next_draw h
      in y_send_one now (kt_chooses_native d (kt_ext_p k)) k h)"

lemma kt_fields:
  fixes k k' :: "('e, 'g) ycsbt_kayak"
  assumes "ycsbt.more k' = ycsbt.more k"
  shows "kt_max_out k' = kt_max_out k" "kt_ext_p k' = kt_ext_p k" "kt_xloop_last_rate k' = kt_xloop_last_rate k"
    "kt_xloop_last_X k' = kt_xloop_last_X k" "kt_slo k' = kt_slo k"
  using assms by (cases k; cases k'; simp)+

function kt_send_loop :: "('e, 'g) ycsbt_kayak \<Rightarrow> host \<Rightarrow> (('e, 'g) ycsbt_kayak \<times> host) rust" where
  "kt_send_loop k h =
     (if kt_may_send k
      then case kt_send_one k h of Inl e \<Rightarrow> Inl e | Inr (k', h') \<Rightarrow> kt_send_loop k' h'
      else Inr (k, h))"
  by pat_completeness auto
termination
proof (relation "measure (\<lambda>(k, h). f32_as_uint 64 (kt_max_out k) - unat (y_outstanding k))", simp)
  fix k :: "('e, 'g) ycsbt_kayak" and h r k' h'
  assume may: "kt_may_send k" and one: "kt_send_one k h = Inr r" and r: "(k', h') = r"
  have lt: "unat (y_outstanding k) < f32_as_uint 64 (kt_max_out k)" using may by (simp add: kt_may_send_def)
  then have "unat (y_outstanding k + 1) = unat (y_outstanding k) + 1"
    using outstanding_step [of "y_outstanding k"] f32_as_uint_bound [of 64 "kt_max_out k"] by simp
  moreover have "y_outstanding k' = y_outstanding k + 1" "ycsbt.more k' = ycsbt.more k"
    using one y_send_one_frame [of _ _ k _ k' h'] unfolding r [symmetric] by (auto simp: kt_send_one_def Let_def case_prod_beta y_frame_def)
  ultimately show "((k', h'), k, h) \<in> measure (\<lambda>(k, h). f32_as_uint 64 (kt_max_out k) - unat (y_outstanding k))"
    using lt kt_fields(1) [of k' k] by simp
qed

declare kt_send_loop.simps [simp del]

definition kt_send :: "('e, 'g) ycsbt_kayak \<Rightarrow> host \<Rightarrow> (('e, 'g) ycsbt_kayak \<times> host) rust" where
  "kt_send k h = (if y_requests k \<le> y_sent k then Inr (k, h) else kt_send_loop k h)"

text \<open>An aborted transaction is only counted. The second component says whether a request has been answered.\<close>

definition kt_on_commit_response ::
    "u64 \<Rightarrow> packet \<Rightarrow> ('e, 'g) ycsbt_kayak \<Rightarrow> host \<Rightarrow> (('e, 'g) ycsbt_kayak \<times> bool \<times> host) rust" where
  "kt_on_commit_response now packet k h =
     rbind (parse_header CommitResponse packet) (\<lambda>p.
     rbind (response_header p) (\<lambda>hdr.
     let (k, answered) =
       (if rs_status hdr = StatusTxAbort then (k\<lparr>y_aborted := y_aborted k + 1\<rparr>, False)
        else if rs_status hdr = StatusOk
        then (k\<lparr>y_recvd := y_recvd k + 1, y_latencies := y_latencies k @ [now - rs_stamp hdr]\<rparr>, True)
        else (k, False))
     in Inr (k, answered, free_packet p h)))"

definition kt_on_response ::
    "bool \<Rightarrow> u64 \<Rightarrow> opcode \<Rightarrow> packet \<Rightarrow> ('e, 'g) ycsbt_kayak \<Rightarrow> host \<Rightarrow> (('e, 'g) ycsbt_kayak \<times> bool \<times> host) rust" where
  "kt_on_response chk now c packet k h =
     (if c = SandstormInvokeRpc then y_on_invoke_response chk now packet k h
      else rbind (if c = SandstormGetRpc then on_native_response GetResponse process_get_response packet k h
                  else if c = SandstormMultiGetRpc then on_native_response MultiGetResponse process_multiget_response packet k h
                  else Inr (free_packet packet h)) (\<lambda>h.
           Inr (k\<lparr>y_outstanding := y_outstanding k - 1\<rparr>, False, h)))"

definition kt_kth_measurement :: "(u64 list \<Rightarrow> usize \<Rightarrow> u64) \<Rightarrow> ('e, 'g) ycsbt_kayak \<Rightarrow> ('e, 'g) ycsbt_kayak" where
  "kt_kth_measurement kth_stat k =
     (let len = length (y_latencies k)
      in if 100 < len \<and> len mod 10 = 0 then k\<lparr>kt_kth := kth_stat (drop (len - 100) (y_latencies k)) 98\<rparr> else k)"

definition kt_r_loop :: "u64 \<Rightarrow> ('e, 'g) ycsbt_kayak \<Rightarrow> ('e, 'g) ycsbt_kayak" where
  "kt_r_loop now k =
     (if loop_due (kt_rloop_factor k) True now (kt_rloop_last_rdtsc k) (length (y_latencies k))
      then k\<lparr>kt_rloop_last_rdtsc := now, kt_rloop_last_recvd := y_recvd k, kt_max_out := r_step (kt_slo k) (kt_kth k) (kt_max_out k)\<rparr>
      else k)"

definition kt_x_loop :: "u64 \<Rightarrow> ('e, 'g) ycsbt_kayak \<Rightarrow> ('e, 'g) ycsbt_kayak" where
  "kt_x_loop now k =
     (if loop_due (kt_xloop_factor k) True now (kt_xloop_last_rdtsc k) (length (y_latencies k))
      then let xloop_rate = loop_rate (y_recvd k - kt_xloop_last_recvd k) (now - kt_xloop_last_rdtsc k);
               delta_rate = f32_sub xloop_rate (kt_xloop_last_rate k);
               delta_X = f32_sub (kt_ext_p k) (kt_xloop_last_X k);
               grad = f32_div (f32_mul (f32_lit 2) delta_rate) delta_X
           in k\<lparr>kt_xloop_last_rdtsc := now, kt_xloop_last_recvd := y_recvd k, kt_xloop_last_rate := xloop_rate,
                kt_xloop_last_X := kt_ext_p k, kt_ext_p := bounce (bounded_offset grad) (kt_ext_p k)\<rparr>
      else k)"

definition kt_control :: "(u64 list \<Rightarrow> usize \<Rightarrow> u64) \<Rightarrow> bool \<Rightarrow> ('e, 'g) ycsbt_kayak \<times> host \<Rightarrow> ('e, 'g) ycsbt_kayak \<times> host" where
  "kt_control kth_stat signal kh =
     (if signal
      then let (k, h) = kh; (r_tsc, h) = read_tsc h; (x_tsc, h) = read_tsc h
           in (kt_x_loop x_tsc (kt_r_loop r_tsc (kt_kth_measurement kth_stat k)), h)
      else kh)"

text \<open>A commit response skips the control loops, and what it signals is left to the packet behind it.\<close>

fun kt_recv_packets ::
    "(u64 list \<Rightarrow> usize \<Rightarrow> u64) \<Rightarrow> bool \<Rightarrow> bool \<Rightarrow> u64 \<Rightarrow> packet list \<Rightarrow> ('e, 'g) ycsbt_kayak \<times> host \<Rightarrow>
     (('e, 'g) ycsbt_kayak \<times> host) rust" where
  "kt_recv_packets kth_stat chk signal now [] kh = Inr kh"
| "kt_recv_packets kth_stat chk signal now (packet # packets) (k, h) =
     rbind (parse_rpc_opcode packet) (\<lambda>c.
       if c = SandstormCommitRpc
       then rbind (kt_on_commit_response now packet k h) (\<lambda>(k, answered, h).
            kt_recv_packets kth_stat chk (signal \<or> answered) now packets (k, h))
       else rbind (kt_on_response chk now c packet k h) (\<lambda>(k, answered, h).
            kt_recv_packets kth_stat chk False now packets (kt_control kth_stat (signal \<or> answered) (k, h))))"

definition kt_recv :: "(u64 list \<Rightarrow> usize \<Rightarrow> u64) \<Rightarrow> bool \<Rightarrow> ('e, 'g) ycsbt_kayak \<Rightarrow> host \<Rightarrow> (('e, 'g) ycsbt_kayak \<times> host) rust" where
  "kt_recv kth_stat chk = y_recv_with (kt_recv_packets kth_stat chk False)"

definition kt_execute ::
    "(u64 list \<Rightarrow> usize \<Rightarrow> u64) \<Rightarrow> bool \<Rightarrow> ('e, 'g) ext_init \<Rightarrow> 'g ext_resume \<Rightarrow> ('e, 'g) ycsbt_kayak \<Rightarrow> host \<Rightarrow>
     (('e, 'g) ycsbt_kayak \<times> host \<times> bool) rust" where
  "kt_execute kth_stat chk init resume k h =
     rbind (kt_send k h) (\<lambda>(k, h).
     rbind (kt_recv kth_stat chk k h) (\<lambda>(k, h).
     rbind (y_execute_tasks chk init resume MAX_CREDIT (k, h)) (\<lambda>(k, h).
     Inr (k, h, y_finished k))))"

section \<open>Statistics\<close>

text \<open>The figures a client prints when it is dropped: the median and the 99th percentile of its sorted latencies.\<close>

definition latency_figures :: "u64 list \<Rightarrow> (u64 \<times> u64) rust" where
  "latency_figures latencies =
     (let ls = sort latencies; n = length ls
      in rbind (index_slice ls (n * 99 div 100)) (\<lambda>t.
         rbind (if n mod 2 = 0
                then rbind (index_slice ls (n div 2)) (\<lambda>a. rbind (index_slice ls (n div 2 + 1)) (\<lambda>b. Inr ((a + b) div 2)))
                else index_slice ls (n div 2)) (\<lambda>m.
         Inr (m, t))))"

end
