(* ===== verification/YcsbtRuns.thy ===== *)
theory YcsbtRuns
  imports Ycsbt Pushback
begin

text \<open>
  What the YCSB-T clients do: a native transfer asks for the commit of the very transaction the extension builds, and the control loops of the
  second client stay within their bounds.
\<close>

section \<open>Native transfers\<close>

lemma move_unit_transfer: "v1 \<noteq> [] \<Longrightarrow> v2 \<noteq> [] \<Longrightarrow> move_unit v1 v2 = transfer v1 v2"
  by (cases v1; cases v2) (auto simp: move_unit_def transfer_def index_slice_def simp del: rbind_eq_Inr)

lemma two_records:
  assumes "length k1 = 30" and "length k2 = 30" and "length v1 = 100" and "length v2 = 100" and "transfer v1 v2 = Inr (v1', v2')"
  shows "multiget_commit_payload (record_bytes (read_of k1 ver1 v1) @ record_bytes (read_of k2 ver2 v2)) =
    Inr (concat (map record_bytes [read_of k1 ver1 v1, read_of k2 ver2 v2,
      Record_new SandstormWrite Table_version k1 v1', Record_new SandstormWrite Table_version k2 v2']))"
proof -
  have "v1 \<noteq> []" "v2 \<noteq> []" using assms(3,4) by auto
  then have "move_unit v1 v2 = Inr (v1', v2')" using move_unit_transfer assms(5) by simp
  then show ?thesis
    using assms by (simp add: multiget_commit_payload_def record_bytes_def read_of_def Record_new_def split_at_def write_record_def Table_version_def)
qed

lemma key_record_stored:
  assumes "get_table tn tb = Some t" and "stored tn tb key = Some (ver, v)"
  shows "contents t key \<noteq> None" "key_record t key = record_bytes (read_of key ver v)"
proof -
  obtain e where e: "contents t key = Some e" "Allocator_resolve (e_value e) = Inr (Some (key, v))" "e_version e = ver"
    using storedD [OF assms(2)] assms(1) by (metis option.inject)
  then show "contents t key \<noteq> None" "key_record t key = record_bytes (read_of key ver v)"
    by (simp_all add: key_record_def object_value_def read_of_def)
qed

lemma multiget_body_two:
  assumes "get_table tn tb = Some t" and "stored tn tb k1 = Some (ver1, v1)" and "stored tn tb k2 = Some (ver2, v2)"
  shows "multiget_body t [k1, k2] = record_bytes (read_of k1 ver1 v1) @ record_bytes (read_of k2 ver2 v2)"
  using key_record_stored [OF assms(1,2)] key_record_stored [OF assms(1,3)] by (simp add: multiget_body_def found_keys_def)

section \<open>Retries of pushed-back invocations\<close>

lemma fill_keys_one:
  assumes "length key = 30" and "length a = 30"
  shows "fill_keys 13 [key] (ycsbt_name @ enc_u64 tb @ (a @ b) @ rest) = Inr (ycsbt_name @ enc_u64 tb @ ((take 4 key @ drop 4 a) @ b) @ rest)"
  using assms by (simp add: ycsbt_name_def copy_from_slice_at_def slice_range_def write_at_def)

lemma ycsbt_create_task: "\<exists>tm'. create_task i (ycsbt_name @ args) tenant 5 tm = Inr tm'"
proof -
  have "split_at (ycsbt_name @ args) 5 = Inr (ycsbt_name, args)" by (simp add: ycsbt_name_def split_at_def)
  moreover have "utf8_valid ycsbt_name" by code_simp
  ultimately show ?thesis by (auto simp: create_task_def split: option.splits)
qed

section \<open>The control loops\<close>

text \<open>What the control loops work on, as for the client of the pushback workload.\<close>

definition kt_ctl :: "('e, 'g) ycsbt_kayak \<Rightarrow> f32 \<times> f32 \<times> f32 \<times> f32 \<times> u64" where
  "kt_ctl k = (kt_max_out k, kt_ext_p k, kt_xloop_last_rate k, kt_xloop_last_X k, kt_slo k)"

lemma kt_ctl_more:
  fixes k k' :: "('e, 'g) ycsbt_kayak"
  shows "ycsbt.more k' = ycsbt.more k \<Longrightarrow> kt_ctl k' = kt_ctl k"
  using kt_fields [of k' k] by (simp add: kt_ctl_def)

lemma kt_r_loop_ok: "ctl_ok (kt_ctl k) \<Longrightarrow> ctl_ok (kt_ctl (kt_r_loop now k))"
  using r_step_ok by (auto simp: kt_r_loop_def kt_ctl_def)

lemma kt_x_loop_ok:
  assumes "ctl_ok (kt_ctl k)"
  shows "ctl_ok (kt_ctl (kt_x_loop now k))"
proof (cases "loop_due (kt_xloop_factor k) True now (kt_xloop_last_rdtsc k) (length (y_latencies k))")
  case True
  then have moved: "now - kt_xloop_last_rdtsc k \<noteq> 0" by (auto simp: loop_due_def)
  have "share_ok (kt_ext_p k) (kt_xloop_last_X k)" "finite32 (kt_xloop_last_rate k)"
      "0 \<le> val32 (kt_xloop_last_rate k)" "val32 (kt_xloop_last_rate k) \<le> 2 ^ 86"
    using assms by (simp_all add: kt_ctl_def)
  note step = x_step_ok [OF moved this(2-4,1)]
  show ?thesis using True assms loop_rate_ok [OF moved] step by (simp add: kt_x_loop_def kt_ctl_def Let_def)
next
  case False
  then show ?thesis using assms by (simp add: kt_x_loop_def)
qed

lemma kt_kth_measurement_frame: "kt_ctl (kt_kth_measurement kth_stat k) = kt_ctl k"
  by (simp add: kt_kth_measurement_def kt_ctl_def Let_def)

lemma kt_control_ok: "ctl_ok (kt_ctl (fst kh)) \<Longrightarrow> ctl_ok (kt_ctl (fst (kt_control kth_stat signal kh)))"
  by (simp add: kt_control_def Let_def case_prod_beta kt_x_loop_ok kt_r_loop_ok kt_kth_measurement_frame)

text \<open>Everything else leaves the extension of the record alone.\<close>

lemma kt_send_one_frame: "kt_send_one k h = Inr (k', h') \<Longrightarrow> ycsbt.more k' = ycsbt.more k"
  using y_send_one_frame [of _ _ k _ k' h'] by (auto simp: kt_send_one_def Let_def case_prod_beta y_frame_def)

lemma kt_send_loop_frame: "kt_send_loop k h = Inr (k', h') \<Longrightarrow> ycsbt.more k' = ycsbt.more k"
proof (induction k h rule: kt_send_loop.induct)
  case (1 k h)
  show ?case
  proof (cases "kt_may_send k")
    case True
    then obtain k1 h1 where one: "kt_send_one k h = Inr (k1, h1)" "kt_send_loop k1 h1 = Inr (k', h')"
      using "1.prems" by (subst (asm) kt_send_loop.simps) (auto split: sum.splits)
    then show ?thesis using "1.IH" [OF True one(1) refl] kt_send_one_frame [OF one(1)] by simp
  next
    case False
    then show ?thesis using "1.prems" by (simp add: kt_send_loop.simps)
  qed
qed

lemma kt_send_frame: "kt_send k h = Inr (k', h') \<Longrightarrow> kt_ctl k' = kt_ctl k"
  by (rule kt_ctl_more) (auto simp: kt_send_def split: if_splits dest!: kt_send_loop_frame)

lemma y_on_invoke_response_frame: "y_on_invoke_response chk now p k h = Inr (k', s, h') \<Longrightarrow> ycsbt.more k' = ycsbt.more k"
  by (auto simp: y_on_invoke_response_def split: if_splits)

lemma kt_on_response_frame: "kt_on_response chk now c p k h = Inr (k', s, h') \<Longrightarrow> kt_ctl k' = kt_ctl k"
  by (rule kt_ctl_more) (auto simp: kt_on_response_def split: if_splits dest!: y_on_invoke_response_frame)

lemma kt_on_commit_response_frame: "kt_on_commit_response now p k h = Inr (k', s, h') \<Longrightarrow> kt_ctl k' = kt_ctl k"
  by (rule kt_ctl_more) (auto simp: kt_on_commit_response_def Let_def split: if_splits)

lemma kt_recv_packets_ok:
  "kt_recv_packets kth_stat chk signal now packets kh = Inr (k', h') \<Longrightarrow> ctl_ok (kt_ctl (fst kh)) \<Longrightarrow> ctl_ok (kt_ctl k')"
proof (induction packets arbitrary: signal kh)
  case (Cons p packets)
  obtain k h where kh: "kh = (k, h)" by fastforce
  obtain c where c: "parse_rpc_opcode p = Inr c" using Cons.prems(1) by (auto simp: kh)
  show ?case
  proof (cases "c = SandstormCommitRpc")
    case True
    then obtain k1 b h1 where one: "kt_on_commit_response now p k h = Inr (k1, b, h1)"
        "kt_recv_packets kth_stat chk (signal \<or> b) now packets (k1, h1) = Inr (k', h')"
      using Cons.prems(1) c by (auto simp: kh)
    then show ?thesis using Cons.IH [OF one(2)] Cons.prems(2) kt_on_commit_response_frame [OF one(1)] kh by simp
  next
    case False
    then obtain k1 b h1 where one: "kt_on_response chk now c p k h = Inr (k1, b, h1)"
        "kt_recv_packets kth_stat chk False now packets (kt_control kth_stat (signal \<or> b) (k1, h1)) = Inr (k', h')"
      using Cons.prems(1) c by (auto simp: kh)
    then show ?thesis using Cons.IH [OF one(2) kt_control_ok] Cons.prems(2) kt_on_response_frame [OF one(1)] kh by simp
  qed
qed simp

lemma kt_recv_ok:
  assumes "kt_recv kth_stat chk k h = Inr (k', h')" and "ctl_ok (kt_ctl k)"
  shows "ctl_ok (kt_ctl k')"
proof (cases "y_finished k \<and> 0 < y_stop k")
  case True
  then show ?thesis using assms by (simp add: kt_recv_def y_recv_with_def)
next
  case False
  then obtain packets n net k1 h1 where one: "(case packets of None \<Rightarrow> Inr (k\<lparr>y_responses_recv := n\<rparr>, set_env h (fst (h_env h), net))
        | Some ps \<Rightarrow> (case read_tsc (set_env h (fst (h_env h), net)) of (now, h) \<Rightarrow>
            kt_recv_packets kth_stat chk False now (rev ps) (k\<lparr>y_responses_recv := n\<rparr>, h))) = Inr (k1, h1)" "kt_ctl k' = kt_ctl k1"
    using assms(1) by (auto simp: kt_recv_def y_recv_with_def Let_def case_prod_beta kt_ctl_def split: if_splits)
  have "ctl_ok (kt_ctl (k\<lparr>y_responses_recv := n\<rparr>))" using assms(2) by (simp add: kt_ctl_def)
  then have "ctl_ok (kt_ctl k1)"
    using one(1) kt_recv_packets_ok [of kth_stat chk False _ _ _ k1 h1] by (auto simp: case_prod_beta split: option.splits)
  then show ?thesis using one(2) by simp
qed

lemma y_execute_tasks_frame:
  "y_execute_tasks chk init resume n (k, h) = Inr (k', h') \<Longrightarrow> ycsbt.more k' = ycsbt.more k"
proof (induction n arbitrary: k h)
  case (Suc n)
  then obtain tm env h1 where "y_execute_tasks chk init resume n (k\<lparr>y_manager := tm\<rparr>, set_env h1 env) = Inr (k', h')"
    by (auto simp: Let_def case_prod_beta)
  then show ?case using Suc.IH by simp
qed simp

lemma kt_execute_ok:
  assumes "kt_execute kth_stat chk init resume k h = Inr (k', h', fin)" and "ctl_ok (kt_ctl k)"
  shows "ctl_ok (kt_ctl k')"
proof -
  obtain k1 h1 k2 h2 where one: "kt_send k h = Inr (k1, h1)" "kt_recv kth_stat chk k1 h1 = Inr (k2, h2)"
      "y_execute_tasks chk init resume MAX_CREDIT (k2, h2) = Inr (k', h')"
    using assms(1) by (auto simp: kt_execute_def)
  have "ctl_ok (kt_ctl k2)" using kt_recv_ok [OF one(2)] kt_send_frame [OF one(1)] assms(2) by simp
  then show ?thesis using kt_ctl_more [OF y_execute_tasks_frame [OF one(3)]] by simp
qed

interpretation ycsbt_client: controlled_client kt_ctl "kt_execute kth_stat chk init resume" for kth_stat chk init resume
  by unfold_locales (rule kt_execute_ok)

lemma kt_new_ok:
  assumes "cf_invoke_p cf \<le> 100" and "2 \<le> cf_max_out cf" and "cf_max_out cf \<le> 2 ^ 20" and "unat (cf_slo cf) < 2 ^ 32"
  shows "ctl_ok (kt_ctl (fst (kt_new resps master cf reqs exts order h)))"
  using initial_share_ok [OF assms(1)] initial_window_ok [OF assms(2,3)] assms(4)
  by (simp add: kt_new_def y_new_def Let_def case_prod_beta kt_ctl_def ycsbt.defs)

section \<open>The window\<close>

text \<open>A network that gives out buffers with room for \<open>n\<close> bytes and takes every packet.\<close>

definition accepting :: "usize \<Rightarrow> cenv \<Rightarrow> bool" where
  "accepting n env \<longleftrightarrow> plain_network (s_mac (fst env)) (s_ip (fst env)) \<and>
     (\<forall>i. \<exists>mb. net_pool (snd env) i = Some mb \<and> fresh_mbuf n mb) \<and> (\<forall>i. \<exists>sent. net_tx (snd env) i = Some sent \<and> sent \<noteq> 0)"

lemma accepting_send:
  assumes "accepting n env" and "rpc_type ty" and "length hdr = hdr_size ty" and "data \<noteq> []" and "42 + hdr_size ty + length data \<le> n"
    and "\<And>mb. create mb = rbind (create_request mb (s_mac (fst env)) (s_ip (fst env)) (s_udp (fst env)) dst) (finish_request ty hdr data)"
  shows "\<exists>env'. rbind (with_alloc create env) (\<lambda>(p, sn). send_req p sn) = Inr env' \<and> accepting n env' \<and>
    length (wire (snd env')) = length (wire (snd env)) + 1"
proof -
  obtain s net where env: "env = (s, net)" by fastforce
  have plain: "plain_network (s_mac s) (s_ip s)" and "can_send n net" using assms(1) by (simp_all add: accepting_def env can_send_def)
  then have room: "can_send (42 + hdr_size ty + length data) net" using assms(5) by (auto simp: can_send_def fresh_mbuf_def)
  obtain p net' where sent: "rbind (with_alloc create (s, net)) (\<lambda>(p, sn). send_req p sn) =
      Inr (s\<lparr>s_requests_sent := s_requests_sent s + 1\<rparr>, net')" "wire net' = wire net @ [p]"
    using send_created [OF plain assms(2-4) room, of create dst] assms(6) by (auto simp: env)
  from sent(1) have "net_pool net' = net_pool net" "net_tx net' = net_tx net" by (auto simp: with_alloc_def send_req_def)
  then have "accepting n (s\<lparr>s_requests_sent := s_requests_sent s + 1\<rparr>, net')" using assms(1) by (simp add: env accepting_def)
  moreover have "length (wire (snd (s\<lparr>s_requests_sent := s_requests_sent s + 1\<rparr>, net'))) = length (wire (snd env)) + 1"
    using sent(2) by (simp add: env)
  ultimately show ?thesis using sent(1) unfolding env by blast
qed

lemma send_get_accepted:
  assumes "accepting n env" and "key \<noteq> []" and "67 + length key \<le> n" and "length key \<le> 65535"
  shows "\<exists>env'. send_get tenant table key i env = Inr env' \<and> accepting n env' \<and> length (wire (snd env')) = length (wire (snd env)) + 1"
  unfolding send_get_def Let_def
  by (rule accepting_send [OF assms(1), where ty = GetRequest and data = key and dst = "get_dst_port tenant (fst env)"
        and hdr = "enc_get_request (GetRequest_new tenant table (word_of_nat (length key)) i SandstormClient)"])
    (use assms(2-4) in \<open>simp_all add: create_get_rpc_def\<close>)

lemma send_multiget_accepted:
  assumes "accepting n env" and "keys \<noteq> []" and "70 + length keys \<le> n"
  shows "\<exists>env'. send_multiget tenant table kl num keys i env = Inr env' \<and> accepting n env' \<and>
    length (wire (snd env')) = length (wire (snd env)) + 1"
  unfolding send_multiget_def Let_def
  by (rule accepting_send [OF assms(1), where ty = MultiGetRequest and data = keys and dst = "get_dst_port tenant (fst env)"
        and hdr = "enc_multiget_request (MultiGetRequest_new tenant table kl num i)"])
    (use assms(2,3) in \<open>simp_all add: create_multiget_rpc_def\<close>)

lemma send_invoke_accepted:
  assumes "accepting n env" and "pay \<noteq> []" and "64 + length pay \<le> n" and "unat name_len \<le> length pay" and "length pay < 2 ^ 32"
  shows "\<exists>env'. send_invoke tenant name_len pay i env = Inr env' \<and> accepting n env' \<and>
    length (wire (snd env')) = length (wire (snd env)) + 1"
proof -
  have "\<not> 4294967295 < usize_sub (length pay) (unat name_len)" using assms(4,5) by (simp add: not_less)
  then show ?thesis
    unfolding send_invoke_def Let_def
    by (intro accepting_send [OF assms(1), where ty = InvokeRequest and data = pay and dst = "get_dst_port tenant (fst env)"
          and hdr = "enc_invoke_request (InvokeRequest_new tenant name_len (word_of_nat (usize_sub (length pay) (unat name_len))) i)"])
      (use assms(2,3) in \<open>simp_all add: create_invoke_rpc_def\<close>)
qed

text \<open>A client with keys of 30 bytes and buffers of the right lengths.\<close>

definition y_ready :: "('e, 'g, 'z) ycsbt_scheme \<Rightarrow> host \<Rightarrow> bool" where
  "y_ready k h \<longleftrightarrow> length (yw_key_buf (y_workload k)) = 30 \<and> length (yw_multikey_buf (y_workload k)) = 60 \<and>
     length (y_invoke_get k) = 48 \<and> take 5 (y_invoke_get k) = ycsbt_name \<and>
     length (y_invoke_get_modify k) = 78 \<and> take 5 (y_invoke_get_modify k) = ycsbt_name \<and> y_name_length k = 5 \<and> accepting 142 (h_env h)"

lemma abc_ready:
  assumes "length (yw_key_buf w) = 30" and "length (yw_multikey_buf w) = 60"
  shows "\<exists>w' is_get tenant keys h'. YCSBT_abc w h = Inr (w', is_get, tenant, keys, h') \<and> length (yw_key_buf w') = 30 \<and>
    length (yw_multikey_buf w') = 60 \<and> h_env h' = h_env h \<and> length keys = (if is_get then 30 else 60)"
  using assms by (auto simp: YCSBT_abc_def next_draw_def copy_from_slice_at_def Let_def)

lemma create_task_ready:
  assumes "take 5 req = ycsbt_name"
  shows "\<exists>tm'. create_task i req tenant 5 tm = Inr tm' \<and> tm_ready tm' = tm_ready tm"
proof -
  have "length (take 5 req) = length ycsbt_name" by (simp only: assms)
  then have "5 \<le> length req" by (simp add: ycsbt_name_def)
  then have "split_at req 5 = Inr (ycsbt_name, drop 5 req)" using assms by simp
  moreover have "utf8_valid ycsbt_name" by code_simp
  ultimately show ?thesis by (auto simp: create_task_def split: option.splits)
qed

text \<open>What a request sent adds.\<close>

definition y_sent_one :: "('e, 'g, 'z) ycsbt_scheme \<Rightarrow> host \<Rightarrow> ('e, 'g, 'z) ycsbt_scheme \<Rightarrow> host \<Rightarrow> bool" where
  "y_sent_one k h k' h' \<longleftrightarrow> y_ready k' h' \<and> y_sent k' = y_sent k \<and> y_outstanding k' = y_outstanding k \<and> y_native k' = y_native k \<and>
     tm_ready (y_manager k') = tm_ready (y_manager k) \<and>
     length (wire (snd (h_env h'))) = length (wire (snd (h_env h))) + 1"

lemma y_invoke_now_ready:
  assumes "y_ready k h" and "take 5 pay = ycsbt_name" and "length pay \<le> 78"
  shows "\<exists>k' h'. y_invoke_now now tenant pay k h = Inr (k', h') \<and> y_sent_one k h k' h'"
proof -
  have name: "y_name_length k = 5" "accepting 142 (h_env h)" using assms(1) by (simp_all add: y_ready_def)
  have "length (take 5 pay) = 5" by (simp add: assms(2) ycsbt_name_def)
  then have len: "5 \<le> length pay" "pay \<noteq> []" by (auto simp: min_def split: if_splits)
  obtain env where env: "send_invoke tenant 5 pay now (h_env h) = Inr env" "accepting 142 env"
      "length (wire (snd env)) = length (wire (snd (h_env h))) + 1"
    using send_invoke_accepted [OF name(2) len(2), of 5 tenant now] len(1) assms(3) by auto
  obtain tm where tm: "create_task now pay tenant 5 (y_manager k) = Inr tm" "tm_ready tm = tm_ready (y_manager k)"
    using create_task_ready [OF assms(2)] by blast
  show ?thesis
    using assms(1) env tm by (simp add: y_invoke_now_def name(1) y_sent_one_def y_ready_def set_env_def)
qed

lemma y_send_native_ready:
  assumes "y_ready k h"
  shows "\<exists>k' h'. y_send_native now k h = Inr (k', h') \<and> y_sent_one k h k' h'"
proof -
  have acc: "accepting 142 (h_env h)" using assms by (simp add: y_ready_def)
  obtain w g tenant keys h1 where w: "YCSBT_abc (y_workload k) h = Inr (w, g, tenant, keys, h1)" "length (yw_key_buf w) = 30"
      "length (yw_multikey_buf w) = 60" "h_env h1 = h_env h" "length keys = (if g then 30 else 60)"
    using abc_ready [of "y_workload k" h] assms by (auto simp: y_ready_def)
  then have "keys \<noteq> []" "70 + length keys \<le> 142" by (auto split: if_splits)
  then obtain env where env: "(if g then send_get tenant (y_table_id k) keys now (h_env h)
            else send_multiget tenant (y_table_id k) (word_of_nat (y_key_len k)) 2 keys now (h_env h)) = Inr env"
      "accepting 142 env" "length (wire (snd env)) = length (wire (snd (h_env h))) + 1"
    using send_get_accepted [OF acc, of keys tenant "y_table_id k" now]
      send_multiget_accepted [OF acc, of keys tenant "y_table_id k" "word_of_nat (y_key_len k)" 2 now] by (cases g) auto
  then have "y_send_native now k h = Inr (k\<lparr>y_workload := w\<rparr>, set_env h1 env)"
    using w by (cases g) (simp_all add: y_send_native_def del: rbind_eq_Inr)
  moreover have "y_sent_one k h (k\<lparr>y_workload := w\<rparr>) (set_env h1 env)" using assms w env by (simp add: y_sent_one_def y_ready_def set_env_def)
  ultimately show ?thesis by blast
qed

lemma y_send_extension_ready:
  assumes "y_ready k h"
  shows "\<exists>k' h'. y_send_extension now k h = Inr (k', h') \<and> y_sent_one k h k' h'"
proof -
  obtain w g tenant keys h1 where w: "YCSBT_abc (y_workload k) h = Inr (w, g, tenant, keys, h1)" "length (yw_key_buf w) = 30"
      "length (yw_multikey_buf w) = 60" "h_env h1 = h_env h" "length keys = (if g then 30 else 60)"
    using abc_ready [of "y_workload k" h] assms by (auto simp: y_ready_def)
  have r: "length (y_invoke_get k) = 48" "take 5 (y_invoke_get k) = ycsbt_name" "length (y_invoke_get_modify k) = 78"
      "take 5 (y_invoke_get_modify k) = ycsbt_name"
    using assms by (simp_all add: y_ready_def)
  show ?thesis
  proof (cases g)
    case True
    let ?p = "write_at 13 (take 4 keys) (y_invoke_get k)"
    have p: "take 5 ?p = ycsbt_name" "length ?p = 48" using True r w(5) by (simp_all add: write_at_def)
    let ?k = "k\<lparr>y_workload := w, y_invoke_get := ?p\<rparr>"
    have "y_ready ?k h1" using assms p w by (simp add: y_ready_def)
    then obtain k' h' where "y_invoke_now now tenant ?p ?k h1 = Inr (k', h')" "y_sent_one ?k h1 k' h'"
      using y_invoke_now_ready [of ?k h1 ?p now tenant] p by auto
    moreover have "y_send_extension now k h = y_invoke_now now tenant ?p ?k h1"
      using True r w by (simp add: y_send_extension_def slice_range_def copy_from_slice_at_def del: rbind_eq_Inr)
    ultimately show ?thesis using w(4) by (simp add: y_sent_one_def)
  next
    case False
    let ?p = "write_at 43 (take 4 (drop 30 keys)) (write_at 13 (take 4 keys) (y_invoke_get_modify k))"
    have p: "take 5 ?p = ycsbt_name" "length ?p = 78" using False r w(5) by (simp_all add: write_at_def)
    let ?k = "k\<lparr>y_workload := w, y_invoke_get_modify := ?p\<rparr>"
    have "y_ready ?k h1" using assms p w by (simp add: y_ready_def)
    then obtain k' h' where "y_invoke_now now tenant ?p ?k h1 = Inr (k', h')" "y_sent_one ?k h1 k' h'"
      using y_invoke_now_ready [of ?k h1 ?p now tenant] p by auto
    moreover have "y_send_extension now k h = y_invoke_now now tenant ?p ?k h1"
      using False r w by (simp add: y_send_extension_def slice_range_def copy_from_slice_at_def del: rbind_eq_Inr)
    ultimately show ?thesis using w(4) by (simp add: y_sent_one_def)
  qed
qed

lemma send_loop_fills:
  assumes "y_ready k h" and "get_queue_len (y_manager k) < 32" and "unat (y_outstanding k) \<le> 32"
  shows "\<exists>k' h'. y_send_loop k h = Inr (k', h') \<and> y_outstanding k' = 32 \<and> y_sent k' = y_sent k + (32 - y_outstanding k) \<and>
    length (wire (snd (h_env h'))) = length (wire (snd (h_env h))) + (32 - unat (y_outstanding k))"
  using assms
proof (induction "32 - unat (y_outstanding k)" arbitrary: k h)
  case 0
  then have full: "y_outstanding k = 32" by (simp add: word_unat_eq_iff)
  then have "\<not> y_may_send k" by (simp add: y_may_send_def MAX_CREDIT_def)
  then show ?case using full by (simp add: y_send_loop.simps)
next
  case (Suc n)
  have lt: "unat (y_outstanding k) < 32" using Suc.hyps(2) by linarith
  then have may: "y_may_send k" using Suc.prems(2) by (simp add: y_may_send_def MAX_CREDIT_def)
  have "y_ready k (snd (read_tsc h))" using Suc.prems(1) by (simp add: y_ready_def read_tsc_def)
  then obtain k1 h1 where one: "y_send_one (fst (read_tsc h)) (y_native k) k (snd (read_tsc h)) =
        Inr (k1\<lparr>y_outstanding := y_outstanding k + 1, y_sent := y_sent k + 1\<rparr>, h1)" "y_sent_one k h k1 h1"
    using y_send_native_ready [of k "snd (read_tsc h)" "fst (read_tsc h)"] y_send_extension_ready [of k "snd (read_tsc h)" "fst (read_tsc h)"]
    by (cases "y_native k") (auto simp: y_send_one_def y_sent_one_def read_tsc_def)
  let ?k = "k1\<lparr>y_outstanding := y_outstanding k + 1, y_sent := y_sent k + 1\<rparr>"
  have out: "unat (y_outstanding ?k) = unat (y_outstanding k) + 1" using lt outstanding_step [of "y_outstanding k"] by simp
  have "y_ready ?k h1" "get_queue_len (y_manager ?k) < 32" using one(2) Suc.prems(2) by (simp_all add: y_sent_one_def y_ready_def get_queue_len_def)
  moreover have "n = 32 - unat (y_outstanding ?k)" "unat (y_outstanding ?k) \<le> 32" using Suc.hyps(2) lt out by linarith+
  ultimately obtain k' h' where "y_send_loop ?k h1 = Inr (k', h')" "y_outstanding k' = 32" "y_sent k' = y_sent k + 1 + (32 - (y_outstanding k + 1))"
      "length (wire (snd (h_env h'))) = length (wire (snd (h_env h1))) + (32 - unat (y_outstanding ?k))"
    using Suc.hyps(1) [of ?k h1] by auto
  moreover have "y_send_loop k h = y_send_loop ?k h1" using may one(1) by (subst y_send_loop.simps) simp
  ultimately show ?case using one(2) out lt by (simp add: y_sent_one_def algebra_simps)
qed

section \<open>Properties\<close>

text \<open>C9: native execution and the extension agree. When the response to the multiget of a transfer arrives, a native client asks the
  server to commit exactly the reads and writes of the transaction that the extension \<open>ycsbt\<close>, invoked on the same two accounts, builds on the server:
  the bytes of the request are the records of that transaction.\<close>

theorem native_transfer_equivalent:
  assumes "\<And>n. n \<le> grant n" and "Context_args (Context_new req off len res) = Inr (enc_u64 tb @ (k1 @ k2) @ enc_u32 order @ [optype])"
    and "optype \<noteq> 1" and "optype \<noteq> 3" and "length k1 = 30" and "length k2 = 30" and "get_table tn tb = Some t"
    and "stored tn tb k1 = Some (ver1, v1)" and "stored tn tb k2 = Some (ver2, v2)" and "length v1 = 100" and "length v2 = 100"
    and "view_at UdpHeader i (net @ enc_multiget_response q @ multiget_body t [k1, k2]) r packet"
    and "end_at UdpHeader i (net @ enc_multiget_response q @ multiget_body t [k1, k2]) = length net"
    and "rs_opcode q = SandstormMultiGetRpc" and "rs_status q = StatusOk" and "y_table_id k = tb"
    and "h_env h = (s, nw)" and "plain_network (s_mac s) (s_ip s)" and "can_send 624 nw"
  shows "\<exists>fuel c h' p rq.
    server_runs fuel ext_ycsbt_init grant clk n tn (Context_new req off len res) = Some (ExtComplete 0, tn, c) \<and>
    recv_native packet k h = Inr (k\<lparr>y_outstanding := y_outstanding k - 1\<rparr>, h') \<and> wire (snd (h_env h')) = wire nw @ [p] \<and>
    view_at IpHeader 14 (request_bytes (s_mac s) (s_ip s) (s_udp s) (get_dst_port (rs_tenant q) s)
      (enc_commit_request (CommitRequest_new (rs_tenant q) (rs_stamp q) tb 30 100) @ concat (map record_bytes (tx_records (c_tx c))))) rq p"
proof -
  obtain v1' v2' where tr: "transfer v1 v2 = Inr (v1', v2')" "length v1' = length v1" "length v2' = length v2"
    using transfer_conserves [of v1 v2] assms(10,11) by fastforce
  obtain fuel c where run: "server_runs fuel ext_ycsbt_init grant clk n tn (Context_new req off len res) = Some (ExtComplete 0, tn, c)"
      and ws: "tx_reads (c_tx c) = [read_of k1 ver1 v1, read_of k2 ver2 v2]"
        "tx_writes (c_tx c) = [Record_new SandstormWrite Table_version k1 v1', Record_new SandstormWrite Table_version k2 v2']"
    using ycsbt_runs [OF assms(1-9) _ _ tr, of clk n] assms(10,11) by auto
  let ?pay = "concat (map record_bytes (tx_records (c_tx c)))"
  have len: "length ?pay = 556" using assms(5,6,10,11) tr by (simp add: tx_records_def ws record_bytes_def read_of_def Record_new_def)
  then have nonempty: "?pay \<noteq> []" by (metis list.size(3) zero_neq_numeral)
  have body: "multiget_body t [k1, k2] = record_bytes (read_of k1 ver1 v1) @ record_bytes (read_of k2 ver2 v2)"
    by (rule multiget_body_two [OF assms(7-9)])
  have commit: "multiget_commit_payload (multiget_body t [k1, k2]) = Inr ?pay"
    using two_records [OF assms(5,6,10,11) tr(1)] by (simp add: body tx_records_def ws)
  obtain p where p: "parse_header MultiGetResponse packet = Inr p" "get_header p = Inr (enc_multiget_response q)"
      "get_payload p = Inr (multiget_body t [k1, k2])"
    using response_packet [OF assms(12,13), of MultiGetResponse] by (auto simp: hdr_offset_def)
  have op: "parse_rpc_opcode packet = Inr SandstormMultiGetRpc"
    using response_opcode [OF assms(12,13) enc_multiget_response_def] assms(14) by simp
  have hd: "response_header p = Inr (rpc_response_header.truncate q)" by (simp add: response_header_def p(2) enc_multiget_response_def)
  have q: "rs_status (rpc_response_header.truncate q) = StatusOk" "rs_tenant (rpc_response_header.truncate q) = rs_tenant q"
      "rs_stamp (rpc_response_header.truncate q) = rs_stamp q"
    using assms(15) by (simp_all add: rpc_response_header.truncate_def)
  obtain sent rq net' where send: "send_commit (rs_tenant q) tb ?pay (rs_stamp q) 30 100 (s, nw) =
        Inr (s\<lparr>s_requests_sent := s_requests_sent s + 1\<rparr>, net')" "wire net' = wire nw @ [sent]"
      "view_at IpHeader 14 (request_bytes (s_mac s) (s_ip s) (s_udp s) (get_dst_port (rs_tenant q) s)
        (enc_commit_request (CommitRequest_new (rs_tenant q) (rs_stamp q) tb 30 100) @ ?pay)) rq sent"
    using send_commit_view [OF assms(18) nonempty, of nw "rs_tenant q" tb "rs_stamp q" 30 100] len assms(19) by auto
  let ?h = "set_env h (s\<lparr>s_requests_sent := s_requests_sent s + 1\<rparr>, net')"
  have "recv_native packet k h = Inr (k\<lparr>y_outstanding := y_outstanding k - 1\<rparr>, free_packet p ?h)"
    by (simp add: recv_native_def op on_native_response_def p(1,3) hd q process_multiget_response_def commit assms(16,17) send(1))
  moreover have "wire (snd (h_env (free_packet p ?h))) = wire nw @ [sent]"
    using send(2) by (simp add: free_packet_def set_env_def free_packets_def)
  ultimately show ?thesis using run send(3) by blast
qed

text \<open>An aborted read is retried as a transfer. A pushed-back invocation of \<open>ycsbt\<close> that only read one account asks for a commit when it is done;
  when the account has changed in between, the server answers with the key of that account. The client of \<open>ycsb-t.rs\<close> then writes the first bytes of this key
  into its payload for transfers and invokes that: operation 2, which modifies the account and another one, the second account of
  whatever transfer the client has sent last.\<close>

lemma aborted_read_becomes_transfer:
  assumes "view_at UdpHeader i (net @ enc_response q @ key) r packet" and "end_at UdpHeader i (net @ enc_response q @ key) = length net"
    and "rs_status q = StatusTxAbort" and "length key = 30" and "y_native k = False" and "y_key_len k = 30" and "y_name_length k = 5"
    and "y_invoke_get_modify k = ycsbt_name @ enc_u64 tb @ (a @ b) @ enc_u32 order @ [2]" and "length a = 30" and "length b = 30"
    and "h_env h = (s, nw)" and "plain_network (s_mac s) (s_ip s)" and "can_send 142 nw"
  shows "\<exists>k' h' p rq. y_on_commit_response now packet k h = Inr (k', h') \<and> wire (snd (h_env h')) = wire nw @ [p] \<and>
    view_at IpHeader 14 (request_bytes (s_mac s) (s_ip s) (s_udp s) (get_dst_port (rs_tenant q) s)
      (enc_invoke_request (InvokeRequest_new (rs_tenant q) 5 73 (rs_stamp q)) @
       ycsbt_name @ enc_u64 tb @ ((take 4 key @ drop 4 a) @ b) @ enc_u32 order @ [2])) rq p"
proof -
  let ?pay = "ycsbt_name @ enc_u64 tb @ ((take 4 key @ drop 4 a) @ b) @ enc_u32 order @ [2]"
  obtain p where p: "parse_header CommitResponse packet = Inr p" "get_header p = Inr (enc_response q)" "get_payload p = Inr key"
    using response_packet [OF assms(1,2), of CommitResponse] by (auto simp: hdr_offset_def)
  have hd: "response_header p = Inr (rpc_response_header.truncate q)"
    using dec_enc_response [of q "[]"] by (simp add: response_header_def p(2))
  have q: "rs_status (rpc_response_header.truncate q) = StatusTxAbort" "rs_tenant (rpc_response_header.truncate q) = rs_tenant q"
      "rs_stamp (rpc_response_header.truncate q) = rs_stamp q"
    using assms(3) by (simp_all add: rpc_response_header.truncate_def)
  have chunk: "chunks key 30 = Inr [key]" using chunks_of_concat [of "[key]" 30] assms(4) by (simp add: chunks_def)
  have fill: "fill_keys 13 [key] (y_invoke_get_modify k) = Inr ?pay" unfolding assms(8) by (rule fill_keys_one [OF assms(4,9)])
  have len: "length ?pay = 78" "?pay \<noteq> []" using assms(4,9,10) by (simp_all add: ycsbt_name_def)
  obtain sent rq net' where send: "send_invoke (rs_tenant q) 5 ?pay (rs_stamp q) (s, nw) =
        Inr (s\<lparr>s_requests_sent := s_requests_sent s + 1\<rparr>, net')" "wire net' = wire nw @ [sent]"
      "view_at IpHeader 14 (request_bytes (s_mac s) (s_ip s) (s_udp s) (get_dst_port (rs_tenant q) s)
        (enc_invoke_request (InvokeRequest_new (rs_tenant q) 5 73 (rs_stamp q)) @ ?pay)) rq sent"
    using send_invoke_view [OF assms(12) len(2), of 5 nw "rs_tenant q" "rs_stamp q"] assms(13) unfolding len(1) by auto
  let ?h = "set_env h (s\<lparr>s_requests_sent := s_requests_sent s + 1\<rparr>, net')"
  obtain tm where tm: "create_task (rs_stamp q) ?pay (rs_tenant q) 5 (y_manager k) = Inr tm"
    using ycsbt_create_task by blast
  have "y_on_commit_response now packet k h = Inr (k\<lparr>y_invoke_get_modify := ?pay, y_manager := tm, y_aborted := y_aborted k + 1,
      y_outstanding := y_outstanding k + 1\<rparr>, free_packet p ?h)"
    using assms(5-7) by (simp add: y_on_commit_response_def p(1,3) hd q retry_invoke_def chunk fill assms(11) send(1) tm
        del: rbind_eq_Inr fill_keys.simps append_assoc)
  moreover have "wire (snd (h_env (free_packet p ?h))) = wire nw @ [sent]"
    using send(2) by (simp add: free_packet_def set_env_def free_packets_def)
  ultimately show ?thesis using send(3) by blast
qed


text \<open>The control loops of the YCSB-T client are stable, under the same conditions and within the same bounds as those of the client for the
  pushback workload: over any number of turns, whatever arrives, the window stays between 2 and \<open>2 ^ 40\<close> requests and the share of
  invocations between 0 and 100 percent.\<close>

lemma ycsbt_control_loops_stable:
  fixes k :: "('e, 'g) ycsbt_kayak"
  assumes "cf_invoke_p cf \<le> 100" and "2 \<le> cf_max_out cf" and "cf_max_out cf \<le> 2 ^ 20" and "unat (cf_slo cf) < 2 ^ 32"
    and "turns (kt_execute kth_stat chk init resume) n (kt_new resps master cf reqs exts order h) = Inr (k, h')"
  shows "finite32 (kt_max_out k) \<and> 2 \<le> val32 (kt_max_out k) \<and> val32 (kt_max_out k) \<le> 2 ^ 40 \<and>
    finite32 (kt_ext_p k) \<and> 0 \<le> val32 (kt_ext_p k) \<and> val32 (kt_ext_p k) \<le> 100"
proof -
  have "ctl_ok (kt_ctl k)" by (rule ycsbt_client.turns_ok [OF assms(5) kt_new_ok [OF assms(1-4)]])
  then show ?thesis by (auto simp: kt_ctl_def window_ok_def share_ok_def)
qed

section \<open>Witnesses\<close>

text \<open>A bank whose accounts have the lengths of the workload, and clients in their initial state.\<close>

definition wit_fund :: "u8 \<Rightarrow> byte_string" where
  "wit_fund v = v # replicate 99 0"

definition wit_fund_entry :: "u8 \<Rightarrow> u8 \<Rightarrow> entry" where
  "wit_fund_entry b v = \<lparr>e_version = 1, e_value = obj_meta 7 1 30 @ wit_account b @ wit_fund v\<rparr>"

definition wit_funds_table :: table where
  "wit_funds_table = store (store Table_default (wit_account 1) (Some (wit_fund_entry 1 3))) (wit_account 2) (Some (wit_fund_entry 2 9))"

definition wit_funds :: tenant where
  "wit_funds = put_table 1 wit_funds_table (Tenant_new 7)"

lemma wit_funds_stored:
  "stored wit_funds 1 (wit_account 1) = Some (1, wit_fund 3)" "stored wit_funds 1 (wit_account 2) = Some (1, wit_fund 9)"
  using resolve_object [of "wit_account 1" 30 7 1 "wit_fund 3"] resolve_object [of "wit_account 2" 30 7 1 "wit_fund 9"]
  by (simp_all add: stored_def wit_funds_def wit_funds_table_def contents_store store_wf table_wf_default wit_fund_entry_def)

definition wit_ycsbt_config :: ycsbt_config where
  "wit_ycsbt_config = client_config.extend wit_config \<lparr>cf_put_pct = 50, cf_use_invoke = False\<rparr>"

definition wit_ycsbt :: "(unit, unit) ycsbt" where
  "wit_ycsbt = fst (y_new 10 True wit_ycsbt_config 10 ExtensionManager_new 5000 wit_host)"

lemma wit_host_env: "h_env wit_host = (wit_sender, (wit_network demo_mbuf)\<lparr>net_rx := (\<lambda>_. Some [])\<rparr>)"
  by (simp add: wit_host_def)

lemma wit_accepting: "n \<le> 1024 \<Longrightarrow> accepting n (h_env wit_host)"
  using wit_sender_plain demo_fresh by (auto simp: accepting_def wit_host_env wit_network_def)

lemma wit_can_send: "n \<le> 1024 \<Longrightarrow> can_send n (snd (h_env wit_host))"
  using wit_accepting [of n] by (simp add: accepting_def can_send_def)

lemma wit_ycsbt_fields:
  "y_table_id wit_ycsbt = 1" "y_name_length wit_ycsbt = 5" "y_key_len wit_ycsbt = 30" "y_sent wit_ycsbt = 0" "y_requests wit_ycsbt = 10"
  "y_outstanding wit_ycsbt = 0" "get_queue_len (y_manager wit_ycsbt) = 0"
  "y_invoke_get_modify wit_ycsbt = ycsbt_name @ enc_u64 1 @ (replicate 30 0 @ replicate 30 0) @ enc_u32 5000 @ [2]"
  by (simp_all add: wit_ycsbt_def y_new_def Let_def case_prod_beta wit_ycsbt_config_def client_config.defs wit_config_def TaskManager_new_def
      get_queue_len_def invoke_get_modify_payload_def resize_def ycsbt_name_def replicate_add [symmetric])

lemma wit_ycsbt_ready: "y_ready wit_ycsbt wit_host"
  using wit_accepting [of 142]
  by (simp add: y_ready_def wit_ycsbt_def y_new_def Let_def case_prod_beta wit_ycsbt_config_def client_config.defs wit_config_def
      YCSBT_new_def invoke_get_payload_def invoke_get_modify_payload_def resize_def ycsbt_name_def)

theorem native_transfer_equivalent_witness:
  "\<exists>fuel c h' p rq.
    server_runs fuel ext_ycsbt_init (\<lambda>n. n) (\<lambda>_. 0) 0 wit_funds
      (wit_invocation (enc_u64 1 @ (wit_account 1 @ wit_account 2) @ enc_u32 5000 @ [2])) = Some (ExtComplete 0, wit_funds, c) \<and>
    recv_native (demo_packet UdpHeader (enc_udp UdpHeader_new @
        enc_multiget_response (MultiGetResponse_new 42 SandstormMultiGetRpc 7 2) @ multiget_body wit_funds_table [wit_account 1, wit_account 2]))
      wit_ycsbt wit_host = Inr (wit_ycsbt\<lparr>y_outstanding := - 1\<rparr>, h') \<and> wire (snd (h_env h')) = [p] \<and>
    view_at IpHeader 14 (request_bytes demo_mac wit_ip UdpHeader_new (get_dst_port 7 wit_sender)
      (enc_commit_request (CommitRequest_new 7 42 1 30 100) @ concat (map record_bytes (tx_records (c_tx c))))) rq p"
proof -
  let ?args = "enc_u64 1 @ (wit_account 1 @ wit_account 2) @ enc_u32 5000 @ [2]"
  let ?q = "MultiGetResponse_new 42 SandstormMultiGetRpc 7 2" and ?body = "multiget_body wit_funds_table [wit_account 1, wit_account 2]"
  let ?fr = "enc_udp UdpHeader_new @ enc_multiget_response ?q @ ?body"
  have args: "Context_args (wit_invocation ?args) = Inr ?args" by (rule wit_invocation_args) simp
  have tab: "get_table wit_funds 1 = Some wit_funds_table" by (simp add: wit_funds_def)
  have len: "length ?body = 278"
    unfolding multiget_body_two [OF tab wit_funds_stored] by (simp add: record_bytes_def read_of_def Record_new_def wit_fund_def)
  have v: "view_at UdpHeader 0 ?fr (1024 - length ?fr) (demo_packet UdpHeader ?fr)"
    by (rule demo_packet_view) (simp_all add: hdr_offset_def len)
  have e: "end_at UdpHeader 0 ?fr = length (enc_udp UdpHeader_new)" by (simp add: hdr_offset_def)
  have q: "rs_opcode ?q = SandstormMultiGetRpc" "rs_status ?q = StatusOk" "rs_tenant ?q = 7" "rs_stamp ?q = 42"
    by (simp_all add: MultiGetResponse_new_def RpcResponseHeader_new_def)
  have s: "s_mac wit_sender = demo_mac" "s_ip wit_sender = wit_ip" "s_udp wit_sender = UdpHeader_new" by (simp_all add: wit_sender_def)
  have w: "wire (snd (h_env wit_host)) = []" by (simp add: wit_host_env wit_network_wire)
  show ?thesis
    using native_transfer_equivalent [OF _ args [unfolded wit_invocation_def] _ _ _ _ tab wit_funds_stored _ _ v e q(1,2)
        wit_ycsbt_fields(1) wit_host_env wit_sender_plain, of "\<lambda>n. n" "\<lambda>_. 0" 0] wit_can_send [of 624]
    unfolding wit_invocation_def [symmetric] q(3,4) s by (simp add: wit_fund_def wit_host_env wit_network_wire wit_ycsbt_fields)
qed


end
