(* ===== verification/Fill.thy ===== *)
theory Fill
  imports ExtRuns
begin

text \<open>
  The functions of \<open>db/src/master.rs\<close> that prepare a master: \<open>fill_test\<close> and its variants add a tenant with
  tables full of objects for one of the workloads, \<open>load_test\<close> and \<open>load_test_shared\<close> load the extensions.

  \<open>for i in a..b\<close> is \<open>for_each\<close> over \<open>range_u32 a b\<close>; the key and value vectors that a loop reuses are part of its
  state. \<open>bcrypt\<close>, the parsing of a floating point number, its serialisation and the trained models come
  from other crates and are parameters, the text of a data set is the file's. The properties relate
  the tables to what the extensions of the theory \<open>Extensions\<close> look for in them.
\<close>

section \<open>Loops\<close>

primrec for_each :: "('i \<Rightarrow> 's \<Rightarrow> 's rust) \<Rightarrow> 'i list \<Rightarrow> 's \<Rightarrow> 's rust" where
  "for_each f [] s = Inr s"
| "for_each f (i # is) s = rbind (f i s) (for_each f is)"

definition range_u32 :: "u32 \<Rightarrow> u32 \<Rightarrow> u32 list" where
  "range_u32 a b = map word_of_nat [unat a..<unat b]"

definition rem_u32 :: "u32 \<Rightarrow> u32 \<Rightarrow> u32 rust" where
  "rem_u32 a b = (if b = 0 then Inl DivisionByZero else Inr (a mod b))"

section \<open>Filling tables\<close>

text \<open>Create an object and put it into the table.\<close>

definition fill_put ::
    "(usize \<Rightarrow> usize) \<Rightarrow> u32 \<Rightarrow> u64 \<Rightarrow> byte_string \<Rightarrow> byte_string \<Rightarrow> table \<Rightarrow> table rust" where
  "fill_put grant tenant_id table_id key val t =
     rbind (Allocator_object grant tenant_id table_id key val) (\<lambda>obj.
     rbind (expect obj) (\<lambda>(k, object).
     rbind (Table_put t k object) (\<lambda>(t, _). Inr t)))"

definition on_table :: "u64 \<Rightarrow> (table \<Rightarrow> table rust) \<Rightarrow> tenant \<Rightarrow> tenant rust" where
  "on_table table_id f tn =
     rbind (expect (get_table tn table_id)) (\<lambda>t. rbind (f t) (\<lambda>t. Inr (put_table table_id t tn)))"

definition test_objects :: "(usize \<Rightarrow> usize) \<Rightarrow> u32 \<Rightarrow> u64 \<Rightarrow> u32 \<Rightarrow> table \<Rightarrow> table rust" where
  "test_objects grant tenant_id table_id num t =
     rbind (for_each (\<lambda>i (key, val, t).
         rbind (rem_u32 (i + 1) (num + 1)) (\<lambda>value.
         rbind (copy_from_slice_at 0 4 (enc_u32 i) key) (\<lambda>key.
         rbind (copy_from_slice_at 0 4 (enc_u32 value) val) (\<lambda>val.
         rbind (fill_put grant tenant_id table_id key val t) (\<lambda>t. Inr (key, val, t))))))
       (range_u32 1 (num + 1)) (replicate 30 0, replicate 100 0, t))
     (\<lambda>(key, val, t). Inr t)"

definition fill_test ::
    "(usize \<Rightarrow> usize) \<Rightarrow> u32 \<Rightarrow> u64 \<Rightarrow> u32 \<Rightarrow> 'p master \<times> machine \<Rightarrow> ('p master \<times> machine) rust" where
  "fill_test grant tenant_id table_id num st =
     rbind (on_table table_id (test_objects grant tenant_id table_id num)
              (create_table table_id (Tenant_new tenant_id))) (\<lambda>tn.
     Inr (insert_tenant tn st))"

text \<open>The objects and the associations of TAO. \<open>assoc_list\<close> is the inner loop over the four neighbours.\<close>

definition tao_objects :: "(usize \<Rightarrow> usize) \<Rightarrow> u32 \<Rightarrow> u64 \<Rightarrow> u32 \<Rightarrow> table \<Rightarrow> table rust" where
  "tao_objects grant tenant_id table_id num t =
     rbind (for_each (\<lambda>i (key, t).
         rbind (copy_from_slice_at 0 4 (enc_u32 i) key) (\<lambda>key.
         rbind (fill_put grant tenant_id table_id key (replicate 32 0) t) (\<lambda>t. Inr (key, t))))
       (range_u32 1 (num + 1)) (replicate 8 0, t))
     (\<lambda>(key, t). Inr t)"

definition assoc_list ::
    "(usize \<Rightarrow> usize) \<Rightarrow> u32 \<Rightarrow> u64 \<Rightarrow> u32 \<Rightarrow> u32 \<Rightarrow> byte_string \<times> byte_string \<times> table \<Rightarrow>
     (byte_string \<times> byte_string \<times> table) rust" where
  "assoc_list grant tenant_id table_id num i st =
     for_each (\<lambda>a (key, list, t).
         rbind (rem_u32 (i + a) num) (\<lambda>temp.
         rbind (copy_from_slice_at 10 14 (enc_u32 temp) key) (\<lambda>key.
         rbind (fill_put grant tenant_id table_id key (replicate 22 0) t) (\<lambda>t.
         Inr (key, list @ enc_u32 temp @ replicate 12 0, t)))))
       (range_u32 1 5) st"

definition tao_assocs :: "(usize \<Rightarrow> usize) \<Rightarrow> u32 \<Rightarrow> u64 \<Rightarrow> u32 \<Rightarrow> table \<Rightarrow> table rust" where
  "tao_assocs grant tenant_id table_id num t =
     rbind (for_each (\<lambda>i (key, t).
         rbind (copy_from_slice_at 0 4 (enc_u32 i) key) (\<lambda>key.
         rbind (assoc_list grant tenant_id table_id num i (key, [], t)) (\<lambda>(key, list, t).
         rbind (slice_range key 0 10) (\<lambda>list_key.
         rbind (fill_put grant tenant_id table_id list_key list t) (\<lambda>t. Inr (key, t))))))
       (range_u32 1 (num + 1)) (replicate 18 0, t))
     (\<lambda>(key, t). Inr t)"

definition fill_tao :: "(usize \<Rightarrow> usize) \<Rightarrow> u32 \<Rightarrow> u32 \<Rightarrow> 'p master \<times> machine \<Rightarrow> ('p master \<times> machine) rust" where
  "fill_tao grant tenant_id num st =
     rbind (on_table 1 (tao_objects grant tenant_id 1 num) (create_table 2 (create_table 1 (Tenant_new tenant_id)))) (\<lambda>tn.
     rbind (on_table 2 (tao_assocs grant tenant_id 2 num) tn) (\<lambda>tn.
     Inr (insert_tenant tn st)))"

text \<open>The aggregation records: lists of twelve keys, and the records they point to.\<close>

definition N_AGG :: u32 where "N_AGG = 12"

definition agg_list :: "u32 \<Rightarrow> u32 \<Rightarrow> byte_string rust" where
  "agg_list records i =
     for_each (\<lambda>e val.
         rbind (rem_u32 (i * N_AGG + e) records) (\<lambda>t.
         rbind (copy_from_slice_at 0 4 (enc_u32 t) (replicate 30 0)) (\<lambda>k.
         Inr (val @ k))))
       (range_u32 0 N_AGG) []"

definition agg_lists :: "(usize \<Rightarrow> usize) \<Rightarrow> u32 \<Rightarrow> u64 \<Rightarrow> u32 \<Rightarrow> u32 \<Rightarrow> table \<Rightarrow> table rust" where
  "agg_lists grant tenant_id table_id records num t =
     for_each (\<lambda>i t.
         rbind (copy_from_slice_at 0 4 (enc_u32 i) (replicate 8 0)) (\<lambda>key.
         rbind (agg_list records i) (\<lambda>val.
         fill_put grant tenant_id table_id key val t)))
       (range_u32 1 (num + 1)) t"

definition agg_records :: "(usize \<Rightarrow> usize) \<Rightarrow> u32 \<Rightarrow> u64 \<Rightarrow> u32 \<Rightarrow> table \<Rightarrow> table rust" where
  "agg_records grant tenant_id table_id records t =
     for_each (\<lambda>i t.
         rbind (copy_from_slice_at 0 4 (enc_u32 i) (replicate 30 0)) (\<lambda>key.
         rbind (copy_from_slice_at 0 4 (enc_u32 i) (replicate 100 0)) (\<lambda>val.
         fill_put grant tenant_id table_id key val t)))
       (range_u32 0 records) t"

definition fill_aggregate ::
    "(usize \<Rightarrow> usize) \<Rightarrow> u32 \<Rightarrow> u64 \<Rightarrow> u32 \<Rightarrow> 'p master \<times> machine \<Rightarrow> ('p master \<times> machine) rust" where
  "fill_aggregate grant tenant_id table_id num st =
     (let records = 4 * (num + 1)
      in rbind (on_table table_id (\<lambda>t.
             rbind (agg_lists grant tenant_id table_id records num t) (agg_records grant tenant_id table_id records))
           (create_table table_id (Tenant_new tenant_id))) (\<lambda>tn.
         Inr (insert_tenant tn st)))"

section \<open>Data sets in files\<close>

text \<open>\<open>str::lines\<close> and \<open>str::split_whitespace\<close>, on ASCII text.\<close>

fun split_lines :: "string \<Rightarrow> string \<Rightarrow> string list" where
  "split_lines cur [] = (if cur = [] then [] else [cur])"
| "split_lines cur (c # cs) = (if c = CHR 0x0A then cur # split_lines [] cs else split_lines (cur @ [c]) cs)"

definition strip_cr :: "string \<Rightarrow> string" where
  "strip_cr l = (if l \<noteq> [] \<and> List.last l = CHR 0x0D then butlast l else l)"

definition str_lines :: "string \<Rightarrow> string list" where
  "str_lines data = map strip_cr (split_lines [] data)"

definition white_space :: "char \<Rightarrow> bool" where
  "white_space c \<longleftrightarrow> c \<in> {CHR '' '', CHR 0x09, CHR 0x0A, CHR 0x0B, CHR 0x0C, CHR 0x0D}"

fun words_from :: "string \<Rightarrow> string \<Rightarrow> string list" where
  "words_from cur [] = (if cur = [] then [] else [cur])"
| "words_from cur (c # cs) =
     (if white_space c then if cur = [] then words_from [] cs else cur # words_from [] cs
      else words_from (cur @ [c]) cs)"

definition split_whitespace :: "string \<Rightarrow> string list" where
  "split_whitespace l = words_from [] l"

definition parse_row :: "(string \<Rightarrow> 'f option) \<Rightarrow> string \<Rightarrow> 'f list rust" where
  "parse_row from_str l =
     for_each (\<lambda>col value. rbind (expect (from_str col)) (\<lambda>x. Inr (value @ [x]))) (split_whitespace l) []"

definition analysis_rows ::
    "(string \<Rightarrow> 'f option) \<Rightarrow> ('f list \<Rightarrow> byte_string option) \<Rightarrow> (usize \<Rightarrow> usize) \<Rightarrow> u32 \<Rightarrow> u64 \<Rightarrow> string \<Rightarrow> table \<Rightarrow> table rust" where
  "analysis_rows from_str serialize grant tenant_id table_id data t =
     rbind (for_each (\<lambda>(row, line) (key, t).
         rbind (copy_from_slice_at 0 4 (enc_u32 (word_of_nat (row + 1))) key) (\<lambda>key.
         rbind (parse_row from_str line) (\<lambda>value.
         rbind (expect (serialize value)) (\<lambda>serialized.
         rbind (fill_put grant tenant_id table_id key serialized t) (\<lambda>t. Inr (key, t))))))
       (enumerate 0 (str_lines data)) (replicate 30 0, t))
     (\<lambda>(key, t). Inr t)"

text \<open>\<open>trained\<close> are the models \<open>run_ml_application\<close> returns and \<open>data\<close> the contents of the testing data set; the global
  models are the map from names that \<open>insert_global_model\<close> extends.\<close>

definition fill_analysis ::
    "'mdl \<Rightarrow> string \<Rightarrow> (string \<Rightarrow> 'f option) \<Rightarrow> ('f list \<Rightarrow> byte_string option) \<Rightarrow> (usize \<Rightarrow> usize) \<Rightarrow> u32 \<Rightarrow>
     (string \<rightharpoonup> 'mdl) \<times> 'p master \<times> machine \<Rightarrow> ((string \<rightharpoonup> 'mdl) \<times> 'p master \<times> machine) rust" where
  "fill_analysis trained data from_str serialize grant num_tenants st =
     (let (models, st) = st
      in rbind (for_each (\<lambda>tenant_id st.
             rbind (on_table 1 (analysis_rows from_str serialize grant tenant_id 1 data)
                      (create_table 1 (Tenant_new tenant_id))) (\<lambda>tn.
             Inr (insert_tenant tn st)))
           (range_u32 1 (num_tenants + 1)) st) (\<lambda>st.
         Inr (models(''analysis'' \<mapsto> trained), st)))"

definition auth_users ::
    "(u32 \<Rightarrow> byte_string \<Rightarrow> byte_string \<Rightarrow> byte_string) \<Rightarrow> (usize \<Rightarrow> usize) \<Rightarrow> u32 \<Rightarrow> u64 \<Rightarrow> u32 \<Rightarrow> table \<Rightarrow> table rust" where
  "auth_users bcrypt grant tenant_id table_id num t =
     rbind (for_each (\<lambda>i (username, password, hash_salt, salt, t).
         rbind (copy_from_slice_at 0 4 (enc_u32 i) username) (\<lambda>username.
         rbind (copy_from_slice_at 0 4 (enc_u32 i) password) (\<lambda>password.
         rbind (copy_from_slice_at 24 28 (enc_u32 i) hash_salt) (\<lambda>hash_salt.
         rbind (copy_from_slice_at 0 4 (enc_u32 i) salt) (\<lambda>salt.
         rbind (copy_from_slice_at 0 24 (bcrypt 1 salt password) hash_salt) (\<lambda>hash_salt.
         rbind (fill_put grant tenant_id table_id username hash_salt t) (\<lambda>t.
         Inr (username, password, hash_salt, salt, t))))))))
       (range_u32 1 (num + 1)) (replicate 30 0, replicate 72 0, replicate 40 0, replicate 16 0, t))
     (\<lambda>(username, password, hash_salt, salt, t). Inr t)"

definition fill_auth ::
    "(u32 \<Rightarrow> byte_string \<Rightarrow> byte_string \<Rightarrow> byte_string) \<Rightarrow> (usize \<Rightarrow> usize) \<Rightarrow> u32 \<Rightarrow> u64 \<Rightarrow> u32 \<Rightarrow>
     'p master \<times> machine \<Rightarrow> ('p master \<times> machine) rust" where
  "fill_auth bcrypt grant tenant_id table_id num st =
     rbind (on_table table_id (auth_users bcrypt grant tenant_id table_id num)
              (create_table table_id (Tenant_new tenant_id))) (\<lambda>tn.
     Inr (insert_tenant tn st))"

definition fill_mix ::
    "'mdl \<Rightarrow> string \<Rightarrow> (string \<Rightarrow> 'f option) \<Rightarrow> ('f list \<Rightarrow> byte_string option) \<Rightarrow> (usize \<Rightarrow> usize) \<Rightarrow> u32 \<Rightarrow> u32 \<Rightarrow>
     (string \<rightharpoonup> 'mdl) \<times> 'p master \<times> machine \<Rightarrow> ((string \<rightharpoonup> 'mdl) \<times> 'p master \<times> machine) rust" where
  "fill_mix trained data from_str serialize grant num_tenants num st =
     (let (models, st) = st
      in rbind (for_each (\<lambda>tenant_id st.
             rbind (on_table 1 (tao_objects grant tenant_id 1 num)
                      (create_table 3 (create_table 2 (create_table 1 (Tenant_new tenant_id))))) (\<lambda>tn.
             rbind (on_table 2 (tao_assocs grant tenant_id 2 num) tn) (\<lambda>tn.
             rbind (on_table 3 (analysis_rows from_str serialize grant tenant_id 3 data) tn) (\<lambda>tn.
             Inr (insert_tenant tn st)))))
           (range_u32 1 (num_tenants + 1)) st) (\<lambda>st.
         Inr (models(''analysis'' \<mapsto> trained), st)))"

definition ycsb_objects :: "(usize \<Rightarrow> usize) \<Rightarrow> u32 \<Rightarrow> u64 \<Rightarrow> u32 \<Rightarrow> table \<Rightarrow> table rust" where
  "ycsb_objects grant tenant_id table_id num t =
     rbind (for_each (\<lambda>i (key, val, t).
         rbind (copy_from_slice_at 0 4 (enc_u32 i) key) (\<lambda>key.
         rbind (copy_from_slice_at 0 4 (enc_u32 255) val) (\<lambda>val.
         rbind (fill_put grant tenant_id table_id key val t) (\<lambda>t. Inr (key, val, t)))))
       (range_u32 1 (num + 1)) (replicate 30 0, replicate 100 0, t))
     (\<lambda>(key, val, t). Inr t)"

definition fill_ycsb ::
    "(usize \<Rightarrow> usize) \<Rightarrow> u32 \<Rightarrow> u64 \<Rightarrow> u32 \<Rightarrow> 'p master \<times> machine \<Rightarrow> ('p master \<times> machine) rust" where
  "fill_ycsb grant tenant_id table_id num st =
     rbind (on_table table_id (ycsb_objects grant tenant_id table_id num)
              (create_table table_id (Tenant_new tenant_id))) (\<lambda>tn.
     Inr (insert_tenant tn st))"

section \<open>Loading extensions\<close>

definition load_ext ::
    "(byte_string \<Rightarrow> 'l option) \<Rightarrow> ('l \<Rightarrow> 'p option) \<Rightarrow> u32 \<Rightarrow> string \<times> string \<Rightarrow> 'p ext_manager \<Rightarrow> 'p ext_manager rust" where
  "load_ext dl_new dl_get tenant e em =
     (let (path, name) = e; (em, loaded) = ext_load dl_new dl_get (str_bytes path) tenant (str_bytes name) em
      in if loaded then Inr em else Inl ExplicitPanic)"

definition test_extensions :: "(string \<times> string) list" where
  "test_extensions =
     [(''../ext/get/target/release/libget.so'', ''get''),
      (''../ext/put/target/release/libput.so'', ''put''),
      (''../ext/tao/target/release/libtao.so'', ''tao''),
      (''../ext/bad/target/release/libbad.so'', ''bad''),
      (''../ext/long/target/release/liblong.so'', ''long''),
      (''../ext/aggregate/target/release/libaggregate.so'', ''aggregate''),
      (''../ext/pushback/target/release/libpushback.so'', ''pushback''),
      (''../ext/scan/target/release/libscan.so'', ''scan''),
      (''../ext/analysis/target/release/libanalysis.so'', ''analysis''),
      (''../ext/auth/target/release/libauth.so'', ''auth''),
      (''../ext/ycsbt/target/release/libycsbt.so'', ''ycsbt''),
      (''../ext/checksum/target/release/libchecksum.so'', ''checksum'')]"

definition load_test ::
    "(byte_string \<Rightarrow> 'l option) \<Rightarrow> ('l \<Rightarrow> 'p option) \<Rightarrow> u32 \<Rightarrow> 'p ext_manager \<Rightarrow> 'p ext_manager rust" where
  "load_test dl_new dl_get tenant = for_each (load_ext dl_new dl_get tenant) test_extensions"

definition share_ext :: "u32 \<Rightarrow> string \<Rightarrow> 'p ext_manager \<Rightarrow> 'p ext_manager rust" where
  "share_ext tenant name em =
     (let (em, shared) = ext_share 0 tenant (str_bytes name) em
      in if shared then Inr em else Inl ExplicitPanic)"

definition load_test_shared ::
    "(byte_string \<Rightarrow> 'l option) \<Rightarrow> ('l \<Rightarrow> 'p option) \<Rightarrow> u32 \<Rightarrow> 'p ext_manager \<Rightarrow> 'p ext_manager rust" where
  "load_test_shared dl_new dl_get num_tenants em =
     rbind (load_test dl_new dl_get 0 em)
       (for_each (\<lambda>tenant. for_each (share_ext tenant) [''get'', ''put'', ''tao'']) (range_u32 1 num_tenants))"

section \<open>Loops, once more\<close>

lemma set_range_u32: "set (range_u32 a b) = {i. a \<le> i \<and> i < b}"
proof -
  have "i \<in> word_of_nat ` {unat a..<unat b}" if "a \<le> i" "i < b" for i
    using that by (intro image_eqI [where x = "unat i"]) (simp_all add: word_le_nat_alt word_less_nat_alt)
  moreover have "a \<le> word_of_nat n" "word_of_nat n < b" if "n \<in> {unat a..<unat b}" for n

    using that unsigned_less [of b, where ?'a = nat]
    by (simp_all add: word_le_nat_alt word_less_nat_alt unsigned_of_nat take_bit_nat_eq_self)
  ultimately show ?thesis unfolding range_u32_def by auto
qed

lemma range_u32_upto: "a \<in> set (range_u32 1 (num + 1)) \<longleftrightarrow> 1 \<le> a \<and> a \<le> num \<and> num \<noteq> - 1"
proof (cases "num = - 1")
  case True
  then show ?thesis by (simp add: set_range_u32)
next
  case False
  then have "unat (num + 1) = Suc (unat num)" 
    using unatSuc [of num] by (metis add.commute add_eq_0_iff)
  then have "a < num + 1 \<longleftrightarrow> a \<le> num" by (simp add: word_less_nat_alt word_le_nat_alt less_Suc_eq_le)
  then show ?thesis using False by (auto simp: set_range_u32)
qed

text \<open>A loop refines a fold over an abstraction of its state.\<close>

lemma for_each_refines:
  assumes "\<And>i s m. i \<in> set is \<Longrightarrow> R m s \<Longrightarrow> \<exists>s'. f i s = Inr s' \<and> R (g i m) s'" and "R m s"
  shows "\<exists>s'. for_each f is s = Inr s' \<and> R (fold g is m) s'"
  using assms
proof (induction "is" arbitrary: m s)
  case (Cons i "is")
  obtain s1 where "f i s = Inr s1" "R (g i m) s1" using Cons.prems by (meson list.set_intros(1))
  then show ?case using Cons.IH [of "g i m" s1] Cons.prems(1) by (simp del: rbind_eq_Inr)
qed simp

lemma fold_upd_miss: "key \<notin> k ` set is \<Longrightarrow> fold (\<lambda>i m. m(k i \<mapsto> v i)) is m key = m key"
  by (induction "is" arbitrary: m) auto

lemma fold_upd_hit:
  assumes "i \<in> set is" and "\<And>j. j \<in> set is \<Longrightarrow> k j = k i \<Longrightarrow> v j = v i"
  shows "fold (\<lambda>i m. m(k i \<mapsto> v i)) is m (k i) = Some (v i)"
  using assms
proof (induction "is" rule: rev_induct)
  case (snoc j "is")
  have eq: "fold (\<lambda>i m. m(k i \<mapsto> v i)) (is @ [j]) m (k i) =
      (if k i = k j then Some (v j) else fold (\<lambda>i m. m(k i \<mapsto> v i)) is m (k i))" by simp
  show ?case
  proof (cases "k i = k j")
    case True
    have "v j = v i" by (rule snoc.prems(2)) (simp_all add: True)
    then show ?thesis unfolding eq using True by simp
  next
    case False
    then have "i \<in> set is" using snoc.prems(1) by auto
    then have "fold (\<lambda>i m. m(k i \<mapsto> v i)) is m (k i) = Some (v i)"
      by (rule snoc.IH) (rule snoc.prems(2), simp_all)
    then show ?thesis unfolding eq if_not_P [OF False] .
  qed
qed simp

lemma fold_hit:
  assumes "i \<in> set is" and "\<And>m. g i m key = Some v" and "\<And>j m. j \<noteq> i \<Longrightarrow> g j m key = m key"
  shows "fold g is m key = Some v"
  using assms(1)
proof (induction "is" rule: rev_induct)
  case (snoc j "is")
  then show ?case using assms(2,3) by (cases "j = i") auto
qed simp

section \<open>What a table holds\<close>

definition holds :: "u32 \<Rightarrow> u64 \<Rightarrow> table \<Rightarrow> (byte_string \<rightharpoonup> byte_string) \<Rightarrow> bool" where
  "holds tenant_id table_id t kv \<longleftrightarrow> table_wf t \<and>
     (\<forall>key. map_option e_value (contents t key) =
       map_option (\<lambda>v. obj_meta tenant_id table_id (word_of_nat (length key)) @ key @ v) (kv key))"

lemma holds_default: "holds tenant_id table_id Table_default Map.empty"
  by (simp add: holds_def table_wf_default)

lemma fill_put_holds:
  assumes "\<And>n. n \<le> grant n" and "holds tenant_id table_id t kv" and "key \<noteq> []" and "length key < 2 ^ 16" and "length val < 2 ^ 63"
  shows "\<exists>t'. fill_put grant tenant_id table_id key val t = Inr t' \<and> holds tenant_id table_id t' (kv(key \<mapsto> val))"
proof -
  let ?obj = "obj_meta tenant_id table_id (word_of_nat (length key)) @ key @ val"
  have wf: "table_wf t" using assms(2) by (simp add: holds_def)
  have put: "fill_put grant tenant_id table_id key val t = rbind (Table_put t key ?obj) (\<lambda>(t, _). Inr t)"
    using object_layout [OF assms(1,4,5)] by (simp add: fill_put_def del: rbind_eq_Inr)
  obtain e where e: "fill_put grant tenant_id table_id key val t = Inr (store t key (Some e))" "e_value e = ?obj"
    using assms(3) unfolding put by (cases "contents t key") (auto simp: table_simps Let_def)
  have "holds tenant_id table_id (store t key (Some e)) (kv(key \<mapsto> val))"
    using assms(2) e(2) wf assms(3) by (simp add: holds_def store_wf contents_store)
  then show ?thesis using e(1) by blast
qed

lemma holds_stored:
  assumes "holds tenant_id table_id t kv" and "get_table tn table_id = Some t" and "key \<noteq> []" and "length key < 2 ^ 16"
  shows "map_option snd (stored tn table_id key) = kv key"
proof (cases "kv key")
  case None
  then have "contents t key = None" using assms(1) unfolding holds_def by (metis map_option_is_None)
  then show ?thesis using None assms(2) by (simp add: stored_def)
next
  case (Some v)
  then obtain e where e: "contents t key = Some e" "e_value e = obj_meta tenant_id table_id (word_of_nat (length key)) @ key @ v"
    using assms(1) unfolding holds_def by (metis (no_types, lifting) map_option_eq_Some option.simps(9))
  have "length key = unat (word_of_nat (length key) :: u16)" using assms(4) by simp
  from resolve_object [OF this, of tenant_id table_id v]
  show ?thesis using Some e assms(2,3) by (simp add: stored_def)
qed


text \<open>A vector that is zero but for a number at its beginning: the shape of all keys and most values.\<close>

definition stamped :: "usize \<Rightarrow> u32 \<Rightarrow> byte_string" where
  "stamped n i = enc_u32 i @ replicate n 0"

lemma length_enc_u32 [simp]: "length (enc_u32 w) = 4"
  by (simp add: enc_u32_def)

lemma stamped_simps [simp]: "length (stamped n i) = n + 4" "drop 4 (stamped n i) = replicate n 0" "stamped n i \<noteq> []"
  by (auto simp: stamped_def simp flip: length_greater_0_conv)

lemma stamped_inj [simp]: "stamped n i = stamped n j \<longleftrightarrow> i = j"
  by (metis append_same_eq dec_enc_u32 stamped_def)

lemma copy_stamped:
  "length buf = n + 4 \<Longrightarrow> drop 4 buf = replicate n 0 \<Longrightarrow> copy_from_slice_at 0 4 (enc_u32 i) buf = Inr (stamped n i)"
  by (simp add: copy_from_slice_at_def write_at_def stamped_def)

lemma copy_zeros: "copy_from_slice_at 0 4 (enc_u32 i) (replicate 30 0) = Inr (stamped 26 i)"
    "copy_from_slice_at 0 4 (enc_u32 i) (replicate 8 0) = Inr (stamped 4 i)"
    "copy_from_slice_at 0 4 (enc_u32 i) (replicate 100 0) = Inr (stamped 96 i)"
  by (simp_all add: copy_stamped drop_replicate)

text \<open>Every variant ends alike: a new tenant, most often with one table, is inserted.\<close>

lemma insert_new:
  assumes "master_wf ms m"
  shows "\<exists>ms' m' a. insert_tenant tn (ms, m) = (ms', m') \<and> get_tenant ms' (tn_id tn) = Some a \<and> tenants m' a = Some tn"
proof -
  obtain ms' m' where ins: "insert_tenant tn (ms, m) = (ms', m')" by fastforce
  then have "get_tenant ms' (tn_id tn) = Some (ms_next ms)" using get_insert_tenant [OF assms, of tn "tn_id tn"] by simp
  moreover have "tenants m' (ms_next ms) = Some tn" using ins by (auto simp: insert_tenant_def)
  ultimately show ?thesis using ins by blast
qed

lemma insert_filled:
  assumes "master_wf ms m" and "f Table_default = Inr t"
  shows "\<exists>tn ms' m' a. on_table table_id f (create_table table_id (Tenant_new tenant_id)) = Inr tn \<and> insert_tenant tn (ms, m) = (ms', m') \<and>
    get_tenant ms' tenant_id = Some a \<and> tenants m' a = Some tn \<and> get_table tn table_id = Some t"
proof -
  let ?tn = "put_table table_id t (create_table table_id (Tenant_new tenant_id))"
  have "tn_id ?tn = tenant_id" by (simp add: create_table_def Tenant_new_def)
  moreover have "on_table table_id f (create_table table_id (Tenant_new tenant_id)) = Inr ?tn" by (simp add: on_table_def assms(2))
  ultimately show ?thesis using insert_new [OF assms(1), of ?tn] by fastforce
qed

section \<open>Users\<close>

definition user_entry :: "(u32 \<Rightarrow> byte_string \<Rightarrow> byte_string \<Rightarrow> byte_string) \<Rightarrow> u32 \<Rightarrow> byte_string" where
  "user_entry bcrypt i = bcrypt 1 (stamped 12 i) (stamped 68 i) @ stamped 12 i"

lemma copy_hash_salt:
  assumes "length hs = 40" and "drop 28 hs = replicate 12 0" and "length h = 24"
  shows "\<exists>hs'. copy_from_slice_at 24 28 (enc_u32 i) hs = Inr hs' \<and> copy_from_slice_at 0 24 h hs' = Inr (h @ stamped 12 i)"
  using assms by (simp add: copy_from_slice_at_def write_at_def stamped_def)

lemma auth_users_holds:
  assumes "\<And>n. n \<le> grant n" and "\<And>s p. length (bcrypt 1 s p) = 24" and "holds tenant_id table_id t Map.empty"
  shows "\<exists>t'. auth_users bcrypt grant tenant_id table_id num t = Inr t' \<and>
    holds tenant_id table_id t' (fold (\<lambda>i m. m(stamped 26 i \<mapsto> user_entry bcrypt i)) (range_u32 1 (num + 1)) Map.empty)"
proof -
  define R where "R = (\<lambda>kv (username, password, hash_salt, salt, t).
    length username = 30 \<and> drop 4 username = replicate 26 (0 :: u8) \<and> length password = 72 \<and> drop 4 password = replicate 68 (0 :: u8) \<and>
    length hash_salt = 40 \<and> drop 28 hash_salt = replicate 12 (0 :: u8) \<and> length salt = 16 \<and> drop 4 salt = replicate 12 (0 :: u8) \<and>
    holds tenant_id table_id t kv)"
  define body where "body = (\<lambda>i (username, password, hash_salt, salt, t).
         rbind (copy_from_slice_at 0 4 (enc_u32 i) username) (\<lambda>username.
         rbind (copy_from_slice_at 0 4 (enc_u32 i) password) (\<lambda>password.
         rbind (copy_from_slice_at 24 28 (enc_u32 i) hash_salt) (\<lambda>hash_salt.
         rbind (copy_from_slice_at 0 4 (enc_u32 i) salt) (\<lambda>salt.
         rbind (copy_from_slice_at 0 24 (bcrypt 1 salt password) hash_salt) (\<lambda>hash_salt.
         rbind (fill_put grant tenant_id table_id username hash_salt t) (\<lambda>t.
         Inr (username, password, hash_salt, salt, t))))))))"
  have step: "\<exists>s'. body i s = Inr s' \<and> R (kv(stamped 26 i \<mapsto> user_entry bcrypt i)) s'" if "R kv s" for i s kv
  proof -
    obtain u p hs sa t where s: "s = (u, p, hs, sa, t)" by (metis prod_cases5)
    have fields: "length u = 30" "drop 4 u = replicate 26 0" "length p = 72" "drop 4 p = replicate 68 0"
        "length hs = 40" "drop 28 hs = replicate 12 0" "length sa = 16" "drop 4 sa = replicate 12 0" "holds tenant_id table_id t kv"
      using that by (simp_all add: R_def s)
    obtain hs' where hs: "copy_from_slice_at 24 28 (enc_u32 i) hs = Inr hs'"
        "copy_from_slice_at 0 24 (bcrypt 1 (stamped 12 i) (stamped 68 i)) hs' = Inr (user_entry bcrypt i)"
      unfolding user_entry_def using copy_hash_salt [OF fields(5,6) assms(2)] by blast
    obtain t' where "fill_put grant tenant_id table_id (stamped 26 i) (user_entry bcrypt i) t = Inr t'"
        "holds tenant_id table_id t' (kv(stamped 26 i \<mapsto> user_entry bcrypt i))"
      using fill_put_holds [OF assms(1) fields(9), of "stamped 26 i" "user_entry bcrypt i"] by (auto simp: user_entry_def assms(2))
    then show ?thesis
      using fields hs by (simp add: body_def s R_def copy_stamped user_entry_def assms(2) del: rbind_eq_Inr)
  qed
  have start: "R Map.empty (replicate 30 0, replicate 72 0, replicate 40 0, replicate 16 0, t)"
    using assms(3) by (simp add: R_def drop_replicate)
  have "\<exists>s'. for_each body (range_u32 1 (num + 1)) (replicate 30 0, replicate 72 0, replicate 40 0, replicate 16 0, t) = Inr s' \<and>
      R (fold (\<lambda>i m. m(stamped 26 i \<mapsto> user_entry bcrypt i)) (range_u32 1 (num + 1)) Map.empty) s'"
    by (rule for_each_refines [where R = R, OF _ start]) (rule step)
  then show ?thesis unfolding auth_users_def body_def [symmetric] by (auto simp: R_def simp del: rbind_eq_Inr)
qed


lemma user_stored:
  assumes "holds tenant_id table_id t (fold (\<lambda>i m. m(stamped 26 i \<mapsto> user_entry bcrypt i)) (range_u32 1 (num + 1)) Map.empty)"
    and "get_table tn table_id = Some t" and "1 \<le> i" and "i \<le> num" and "num \<noteq> - 1"
  shows "\<exists>ver. stored tn table_id (stamped 26 i) = Some (ver, user_entry bcrypt i)"
proof -
  have "map_option snd (stored tn table_id (stamped 26 i)) =
      fold (\<lambda>i m. m(stamped 26 i \<mapsto> user_entry bcrypt i)) (range_u32 1 (num + 1)) Map.empty (stamped 26 i)"
    using holds_stored [OF assms(1,2), of "stamped 26 i"] by simp
  also have "\<dots> = Some (user_entry bcrypt i)"
    using assms(3-5) by (intro fold_upd_hit) (simp_all add: range_u32_upto)
  finally show ?thesis by auto
qed

lemma resp_room:
  assumes "wf_packet (c_response c)" and "data \<noteq> []" and "length data \<le> tailroom (c_response c)"
  shows "\<exists>p. Context_resp data c = (c\<lparr>c_response := p\<rparr>, Inr ()) \<and> extends data (c_response c) p"
  using add_to_payload_tail_room [OF assms] by (auto simp: Context_resp_def)

lemma charge_response [simp]: "c_response (charge s n e c) = c_response c" "c_tx (charge s n e c) = c_tx c"
  by (simp_all add: charge_def)

lemma get_on_server:
  assumes "stored tn tb key = Some (ver, v)"
  shows "on_server (GET_macro tb key k) grant clk n tn c =
    on_server (k (Some v)) grant clk (n + 2) tn (charge (clk n) (clk (n + 1)) GET_CREDIT (c\<lparr>c_tx := record_get (read_of key ver v) (c_tx c)\<rparr>))"
  using Context_get_stored [OF assms] by (simp add: GET_macro_def search_get_in_cache_def ReadBuf_read_def ReadBuf_new_def)

lemma auth_runs:
  assumes "Context_args c = Inr (enc_u64 tb @ stamped 26 i @ pw)" and "length pw = 72" and "length (aes_ige auth_key auth_iv (take 16 pw)) = 16"
    and "stored tn tb (stamped 26 i) = Some (ver, user_entry bcrypt i)" and "\<And>s p. length (bcrypt 1 s p) = 24"
    and "wf_packet (c_response c)" and "1 \<le> tailroom (c_response c)"
  shows "\<exists>c'. server_runs 2 (ext_auth_init aes_ige bcrypt) grant clk n tn c = Some (ExtComplete 0, tn, c') \<and>
    frame (c_response c') = frame (c_response c) @
      [if bcrypt 1 (stamped 12 i) (aes_ige auth_key auth_iv (take 16 pw) @ drop 16 pw) = bcrypt 1 (stamped 12 i) (stamped 68 i) then 2 else 3]"
proof -
  let ?c1 = "charge (clk n) (clk (n + 1)) GET_CREDIT (c\<lparr>c_tx := record_get (read_of (stamped 26 i) ver (user_entry bcrypt i)) (c_tx c)\<rparr>)"
  let ?pw = "aes_ige auth_key auth_iv (take 16 pw) @ drop 16 pw"
  let ?r = "if bcrypt 1 (stamped 12 i) ?pw = bcrypt 1 (stamped 12 i) (stamped 68 i) then 2 else 3 :: u8"
  have args: "length (enc_u64 tb @ stamped 26 i @ pw) = 110" "split_at (enc_u64 tb @ stamped 26 i @ pw) 8 = Inr (enc_u64 tb, stamped 26 i @ pw)"
      "split_at (stamped 26 i @ pw) 30 = Inr (stamped 26 i, pw)" "slice_range pw 0 16 = Inr (take 16 pw)"
      "copy_from_slice_at 0 16 (aes_ige auth_key auth_iv (take 16 pw)) pw = Inr ?pw"
    using assms(2,3) by (simp_all add: split_at_def slice_range_def copy_from_slice_at_def write_at_def)
  have entry: "length (user_entry bcrypt i) = 40" "slice_range (user_entry bcrypt i) 0 24 = Inr (bcrypt 1 (stamped 12 i) (stamped 68 i))"
      "slice_range (user_entry bcrypt i) 24 40 = Inr (stamped 12 i)"
    using assms(5) by (simp_all add: user_entry_def slice_range_def)
  have first: "on_server (ext_auth_init aes_ige bcrypt) grant clk n tn c = (respond [?r] 0, ExtYielded 0, n + 2, tn, ?c1)"
    unfolding ext_auth_init_def on_server.simps(4) assms(1) sum.case args(1)
    by (simp del: on_server.simps(6,7) add: args get_on_server [OF assms(4)] entry)
  obtain p where "Context_resp [?r] ?c1 = (?c1\<lparr>c_response := p\<rparr>, Inr ())" "extends [?r] (c_response c) p"
    using resp_room [of ?c1 "[?r]"] assms(6,7) by auto
  then show ?thesis by (simp add: numeral_2_eq_2 first respond_def extends_def)
qed


section \<open>Aggregation records\<close>

lemma for_each_puts:
  assumes "\<And>n. n \<le> grant n" and "\<And>i t. i \<in> set is \<Longrightarrow> f i t = fill_put grant tenant_id table_id (k i) (v i) t"
    and "\<And>i. i \<in> set is \<Longrightarrow> k i \<noteq> [] \<and> length (k i) < 2 ^ 16 \<and> length (v i) < 2 ^ 63" and "holds tenant_id table_id t kv"
  shows "\<exists>t'. for_each f is t = Inr t' \<and> holds tenant_id table_id t' (fold (\<lambda>i m. m(k i \<mapsto> v i)) is kv)"
proof (rule for_each_refines [where R = "\<lambda>m t. holds tenant_id table_id t m", OF _ assms(4)])
  fix i t m
  assume "i \<in> set is" "holds tenant_id table_id t m"
  then show "\<exists>t'. f i t = Inr t' \<and> holds tenant_id table_id t' (m(k i \<mapsto> v i))"
    unfolding assms(2) [OF \<open>i \<in> set is\<close>] using assms(3) by (intro fill_put_holds [OF assms(1)]) auto
qed

definition agg_id :: "u32 \<Rightarrow> u32 \<Rightarrow> u32 \<Rightarrow> u32" where
  "agg_id records i e = (i * 12 + e) mod records"

definition agg_keys :: "u32 \<Rightarrow> u32 \<Rightarrow> u32 \<Rightarrow> byte_string list" where
  "agg_keys records i n = map (\<lambda>e. stamped 26 (agg_id records i e)) (range_u32 0 n)"

lemma agg_id_less: "records \<noteq> 0 \<Longrightarrow> agg_id records i e < records"
  unfolding agg_id_def by (intro word_mod_less_divisor) (simp add: word_neq_0_conv)

lemma range_u32_split: "k \<le> n \<Longrightarrow> range_u32 0 n = range_u32 0 k @ range_u32 k n"
  using upt_add_eq_append [of 0 "unat k" "unat n - unat k"]
  by (simp add: range_u32_def word_le_nat_alt flip: map_append)

lemma hd_stamped: "hd (stamped n w) = ucast w"
proof -
  have "Suc 3 = 4" by simp
  from le_bytes.simps(2) [of 3 "unat w", unfolded this] have "hd (enc_u32 w) = word_of_nat (unat w mod 256)" by (simp add: enc_u32_def)
  also have "\<dots> = (word_of_nat (unat w) :: u8)" by (rule word_of_nat_eq_iff [THEN iffD2]) (simp add: take_bit_eq_mod)
  also have "\<dots> = ucast w" by simp
  finally have "hd (enc_u32 w) = ucast w" .
  moreover have "enc_u32 w \<noteq> []" by (simp flip: length_greater_0_conv)
  ultimately show ?thesis by (simp add: stamped_def)
qed

lemma agg_list_keys:
  assumes "records \<noteq> 0"
  shows "agg_list records i = Inr (concat (agg_keys records i 12))"
proof -
  have "for_each (\<lambda>e val. rbind (rem_u32 (i * N_AGG + e) records) (\<lambda>t.
      rbind (copy_from_slice_at 0 4 (enc_u32 t) (replicate 30 0)) (\<lambda>k. Inr (val @ k)))) es val =
    Inr (val @ concat (map (\<lambda>e. stamped 26 (agg_id records i e)) es))" for es val
    using assms by (induction es arbitrary: val) (simp_all add: rem_u32_def copy_zeros agg_id_def N_AGG_def del: rbind_eq_Inr)
  then show ?thesis by (simp add: agg_list_def agg_keys_def N_AGG_def)
qed

lemma length_agg_keys [simp]: "length (agg_keys records i n) = unat n" "k \<in> set (agg_keys records i n) \<Longrightarrow> length k = 30"
  by (auto simp: agg_keys_def range_u32_def)

lemma length_concat_agg [simp]: "length (concat (agg_keys records i n)) = 30 * unat n"
proof -
  have "length (concat ks) = 30 * length ks" if "\<forall>k \<in> set ks. length k = 30" for ks :: "byte_string list"
    using that by (induction ks) simp_all
  then show ?thesis using length_agg_keys by metis
qed

definition agg_data :: "u32 \<Rightarrow> u32 \<Rightarrow> byte_string \<rightharpoonup> byte_string" where
  "agg_data records num =
     fold (\<lambda>i m. m(stamped 26 i \<mapsto> stamped 96 i)) (range_u32 0 records)
       (fold (\<lambda>i m. m(stamped 4 i \<mapsto> concat (agg_keys records i 12))) (range_u32 1 (num + 1)) Map.empty)"

lemma agg_data_list:
  assumes "1 \<le> i" and "i \<le> num" and "num \<noteq> - 1"
  shows "agg_data records num (stamped 4 i) = Some (concat (agg_keys records i 12))"
proof -
  have "stamped 4 i \<noteq> stamped 26 j" for j 
    by (rule notI, drule arg_cong [where f = length]) simp
  then have "agg_data records num (stamped 4 i) =
      fold (\<lambda>i m. m(stamped 4 i \<mapsto> concat (agg_keys records i 12))) (range_u32 1 (num + 1)) Map.empty (stamped 4 i)"
    unfolding agg_data_def by (intro fold_upd_miss) auto
  also have "\<dots> = Some (concat (agg_keys records i 12))"
    using assms by (intro fold_upd_hit) (simp_all add: range_u32_upto)
  finally show ?thesis .
qed

lemma agg_data_record: "i < records \<Longrightarrow> agg_data records num (stamped 26 i) = Some (stamped 96 i)"
  unfolding agg_data_def by (intro fold_upd_hit) (simp_all add: set_range_u32)

lemma aggregate_holds:
  assumes "\<And>n. n \<le> grant n" and "records \<noteq> 0"
  shows "\<exists>t. rbind (agg_lists grant tenant_id table_id records num Table_default) (agg_records grant tenant_id table_id records) = Inr t \<and>
    holds tenant_id table_id t (agg_data records num)"
proof -
  have "\<exists>t. agg_lists grant tenant_id table_id records num Table_default = Inr t \<and> holds tenant_id table_id t
      (fold (\<lambda>i m. m(stamped 4 i \<mapsto> concat (agg_keys records i 12))) (range_u32 1 (num + 1)) Map.empty)"
    unfolding agg_lists_def
    by (rule for_each_puts [OF assms(1)]) (simp_all add: copy_zeros agg_list_keys [OF assms(2)] holds_default del: rbind_eq_Inr)
  then obtain t where t: "agg_lists grant tenant_id table_id records num Table_default = Inr t" "holds tenant_id table_id t
      (fold (\<lambda>i m. m(stamped 4 i \<mapsto> concat (agg_keys records i 12))) (range_u32 1 (num + 1)) Map.empty)" by blast
  have "\<exists>t'. agg_records grant tenant_id table_id records t = Inr t' \<and> holds tenant_id table_id t' (agg_data records num)"
    unfolding agg_records_def agg_data_def
    by (rule for_each_puts [OF assms(1) _ _ t(2)]) (simp_all add: copy_zeros del: rbind_eq_Inr)
  then show ?thesis unfolding t(1) by simp
qed

section \<open>The aggregate extension on them\<close>

lemma multiget_keys_stored:
  assumes "get_table tn tb = Some t" and "\<forall>k \<in> set ks. length k = n \<and> stored tn tb k = Some (ver k, v k)"
  shows "multiget_keys t n ks x objs =
    (fold (\<lambda>k. record_get (read_of k (ver k) (v k))) ks x, Inr (Some (objs @ map v ks)))"
  using assms(2)
proof (induction ks arbitrary: x objs)
  case (Cons k ks)
  obtain e where "k \<noteq> []" "contents t k = Some e" "Allocator_resolve (e_value e) = Inr (Some (k, v k))" "e_version e = ver k"
    using storedD [of tn tb k "ver k" "v k"] Cons.prems assms(1) by (metis list.set_intros(1) option.inject)
  then show ?case using Cons by (simp add: table_simps read_of_def)
qed simp

lemma multiget_stored:
  assumes "get_table tn tb = Some t" and "\<forall>k \<in> set ks. length k = unat kl \<and> stored tn tb k = Some (ver k, v k)" and "kl \<noteq> 0"
  shows "Context_multiget s n tn tb kl (concat ks) c =
    (charge s n MULTIGET_CREDIT (c\<lparr>c_tx := fold (\<lambda>k. record_get (read_of k (ver k) (v k))) ks (c_tx c)\<rparr>),
     Inr (Some (MultiReadBuf_new (map v ks))))"
proof -
  have "chunks (concat ks) (unat kl) = Inr ks"
    using assms(2,3) chunks_of_concat [of ks "unat kl"] by (simp add: chunks_def unat_eq_0 unat_gt_0)
  then show ?thesis
    using multiget_keys_stored [OF assms(1,2)] assms(1) by (simp add: Context_multiget_def)
qed

lemma rest_of_column_nonempty:
  assumes "j < length vs" and "\<forall>v \<in> set vs. v \<noteq> []"
  shows "rest_of_column \<lparr>mr_inner = vs, mr_index = j, mr_panic = False\<rparr> col = Inr (col @ map hd (drop (Suc j) vs))"
  using assms(1)
proof (induction "length vs - j" arbitrary: j col)
  case (Suc d)
  show ?case
  proof (cases "Suc j < length vs")
    case True
    then have v: "vs ! Suc j \<noteq> []" using assms(2) by simp
    have next_vs: "MultiReadBuf_next \<lparr>mr_inner = vs, mr_index = j, mr_panic = False\<rparr> =
        (True, \<lparr>mr_inner = vs, mr_index = Suc j, mr_panic = False\<rparr>)"
      using True by (simp add: MultiReadBuf_next_def)
    have "rest_of_column \<lparr>mr_inner = vs, mr_index = j, mr_panic = False\<rparr> col =
        rest_of_column \<lparr>mr_inner = vs, mr_index = Suc j, mr_panic = False\<rparr> (col @ [hd (vs ! Suc j)])"
      by (subst rest_of_column.simps) (use True v in \<open>simp add: next_vs MultiReadBuf_read_def index_slice_def hd_conv_nth\<close>)
    then show ?thesis using Suc True by (simp add: Cons_nth_drop_Suc [symmetric])
  next
    case False
    then have "length vs - Suc 0 \<le> j" "drop (Suc j) vs = []" by simp_all
    then show ?thesis using Suc.prems by (subst rest_of_column.simps) (simp add: MultiReadBuf_next_def)
  qed
qed simp

lemma column_nonempty:
  assumes "vs \<noteq> []" and "\<forall>v \<in> set vs. v \<noteq> []"
  shows "column (MultiReadBuf_new vs) = Inr (map hd vs)"
proof -
  obtain v ws where vs: "vs = v # ws" using assms(1) by (cases vs) auto
  have "v \<noteq> []" using assms(2) vs by simp
  then show ?thesis
    using rest_of_column_nonempty [of 0 vs "[hd v]"] assms(2)
    by (simp add: column_def MultiReadBuf_new_def MultiReadBuf_num_def MultiReadBuf_read_def index_slice_def vs hd_conv_nth)
qed


lemma aggregate_finish_runs:
  assumes "wf_packet (c_response c)" and "9 \<le> tailroom (c_response c)"
  shows "\<exists>c'. server_runs 1 (CallResp [1] (respond (enc_u64 w) 0)) grant clk n tn c = Some (ExtComplete 0, tn, c') \<and>
    frame (c_response c') = frame (c_response c) @ [1] @ enc_u64 w"
proof -
  obtain p where p: "Context_resp [1] c = (c\<lparr>c_response := p\<rparr>, Inr ())" "extends [1] (c_response c) p"
    using resp_room [of c "[1]"] assms by auto
  moreover obtain q where "Context_resp (enc_u64 w) (c\<lparr>c_response := p\<rparr>) = (c\<lparr>c_response := p, c_response := q\<rparr>, Inr ())"
      "extends (enc_u64 w) p q"
    using resp_room [of "c\<lparr>c_response := p\<rparr>" "enc_u64 w"] p(2) assms(2)
    by (auto simp: extends_def simp flip: length_greater_0_conv)
  ultimately show ?thesis by (simp add: respond_def extends_def)
qed

lemma aggregate_runs:
  assumes "Context_args c = Inr (enc_u64 tb @ enc_u32 n @ enc_u32 order @ key)" and "get_table tn tb = Some t"
    and "stored tn tb key = Some (ver0, concat ks @ rest)" and "length ks = unat n" and "n \<noteq> 0"
    and "\<forall>k \<in> set ks. length k = 30 \<and> stored tn tb k = Some (ver k, v k) \<and> v k \<noteq> []"
    and "wf_packet (c_response c)" and "9 \<le> tailroom (c_response c)"
  shows "\<exists>c'. server_runs 2 ext_aggregate_init grant clk m tn c = Some (ExtComplete 0, tn, c') \<and>
    frame (c_response c') = frame (c_response c) @ [1] @ enc_u64 (squarings order (aggregate_column (map (hd \<circ> v) ks)))"
proof -
  let ?agg = "squarings order (aggregate_column (map (hd \<circ> v) ks))"
  let ?c1 = "charge (clk m) (clk (m + 1)) GET_CREDIT (c\<lparr>c_tx := record_get (read_of key ver0 (concat ks @ rest)) (c_tx c)\<rparr>)"
  let ?c2 = "charge (clk (m + 2)) (clk (m + 2 + 1)) MULTIGET_CREDIT (?c1\<lparr>c_tx := fold (\<lambda>k. record_get (read_of k (ver k) (v k))) ks (c_tx ?c1)\<rparr>)"
  have len: "length (concat ks) = 30 * unat n"
  proof -
    have "length (concat xs) = 30 * length xs" if "\<forall>k \<in> set xs. length k = 30" for xs :: "byte_string list"
      using that by (induction xs) simp_all
    then show ?thesis using assms(4,6) by metis
  qed
  have args: "split_at (enc_u64 tb @ enc_u32 n @ enc_u32 order @ key) 8 = Inr (enc_u64 tb, enc_u32 n @ enc_u32 order @ key)"
      "split_at (enc_u32 n @ enc_u32 order @ key) 4 = Inr (enc_u32 n, enc_u32 order @ key)" "split_at (enc_u32 order @ key) 4 = Inr (enc_u32 order, key)"
      "split_at (concat ks @ rest) (unat KEYLENGTH * unat n) = Inr (concat ks, rest)"
    using len by (simp_all add: split_at_def KEYLENGTH_def)
  have ks: "ks \<noteq> []" using assms(4,5) by (auto simp: unat_eq_0)
  then have col: "column (MultiReadBuf_new (map v ks)) = Inr (map (hd \<circ> v) ks)"
    using column_nonempty [of "map v ks"] assms(6) by simp
  have multi: "Context_multiget s k tn tb KEYLENGTH (concat ks) c =
      (charge s k MULTIGET_CREDIT (c\<lparr>c_tx := fold (\<lambda>k. record_get (read_of k (ver k) (v k))) ks (c_tx c)\<rparr>), Inr (Some (MultiReadBuf_new (map v ks))))" for s k c
    using multiget_stored [OF assms(2), of ks KEYLENGTH ver v] assms(6) by (simp add: KEYLENGTH_def)
  have first: "on_server ext_aggregate_init grant clk m tn c =
      (CallResp [1] (respond (enc_u64 ?agg) 0), ExtYielded 0, m + 2 + 2, tn, ?c2)"
    unfolding ext_aggregate_init_def on_server.simps(4) assms(1) sum.case
    by (simp add: args GET1_macro_def MULTIGET1_macro_def search_get_in_cache_def search_multiget_in_cache_def
        Context_get_stored [OF assms(3)] multi ReadBuf_read_def ReadBuf_new_def col aggregate_finish_def)
  have "wf_packet (c_response ?c2)" "9 \<le> tailroom (c_response ?c2)" "c_response ?c2 = c_response c" using assms(7,8) by simp_all
  then show ?thesis
    using aggregate_finish_runs [of ?c2 ?agg grant clk "m + 2 + 2" tn] by (simp add: numeral_2_eq_2 first)
qed


section \<open>Associations\<close>

text \<open>The key of one association, and the list of all four of an object.\<close>

definition assoc_key :: "u32 \<Rightarrow> u32 \<Rightarrow> byte_string" where
  "assoc_key i j = stamped 6 i @ stamped 4 j"

definition neighbours :: "u32 \<Rightarrow> u32 \<Rightarrow> u32 list" where
  "neighbours num i = map (\<lambda>a. (i + a) mod num) (range_u32 1 5)"

definition assoc_data :: "u32 \<Rightarrow> u32 \<Rightarrow> (byte_string \<rightharpoonup> byte_string) \<Rightarrow> byte_string \<rightharpoonup> byte_string" where
  "assoc_data num i m =
     (fold (\<lambda>a m. m(assoc_key i ((i + a) mod num) \<mapsto> replicate 22 0)) (range_u32 1 5) m)
       (stamped 6 i \<mapsto> concat (map (stamped 12) (neighbours num i)))"

lemma length_assoc_key [simp]: "length (assoc_key i j) = 18"
  by (simp add: assoc_key_def)

lemma assoc_list_holds:
  assumes "\<And>n. n \<le> grant n" and "num \<noteq> 0" and "length key = 18" and "take 10 key = stamped 6 i" and "drop 14 key = replicate 4 0"
    and "holds tenant_id table_id t kv"
  shows "\<exists>key' t'. assoc_list grant tenant_id table_id num i (key, [], t) = Inr (key', concat (map (stamped 12) (neighbours num i)), t') \<and>
    length key' = 18 \<and> take 10 key' = stamped 6 i \<and> drop 14 key' = replicate 4 0 \<and>
    holds tenant_id table_id t' (fold (\<lambda>a m. m(assoc_key i ((i + a) mod num) \<mapsto> replicate 22 0)) (range_u32 1 5) kv)"
proof -
  define R where "R = (\<lambda>(done, kv) (key, list, t). length key = 18 \<and> take 10 key = stamped 6 i \<and> drop 14 key = replicate 4 (0 :: u8) \<and>
    list = concat (map (\<lambda>a. stamped 12 ((i + a) mod num)) done) \<and> holds tenant_id table_id t kv)"
  define body where "body = (\<lambda>a (key, list, t).
         rbind (rem_u32 (i + a) num) (\<lambda>temp.
         rbind (copy_from_slice_at 10 14 (enc_u32 temp) key) (\<lambda>key.
         rbind (fill_put grant tenant_id table_id key (replicate 22 0) t) (\<lambda>t.
         Inr (key, list @ enc_u32 temp @ replicate 12 0, t)))))"
  let ?g = "\<lambda>a (done, m). (done @ [a], m(assoc_key i ((i + a) mod num) \<mapsto> replicate 22 0))"
  have step: "\<exists>s'. body a s = Inr s' \<and> R (?g a m) s'" if "R m s" for a s m
  proof -
    obtain key list t don kv where s: "s = (key, list, t)" "m = (don, kv)" by (metis prod_cases3 surj_pair)
    have f: "length key = 18" "take 10 key = stamped 6 i" "drop 14 key = replicate 4 0"
        "list = concat (map (\<lambda>a. stamped 12 ((i + a) mod num)) don)" "holds tenant_id table_id t kv"
      using that by (simp_all add: R_def s)
    have copy: "copy_from_slice_at 10 14 (enc_u32 ((i + a) mod num)) key = Inr (assoc_key i ((i + a) mod num))"
      using f by (simp add: copy_from_slice_at_def write_at_def assoc_key_def stamped_def)
    obtain t' where "fill_put grant tenant_id table_id (assoc_key i ((i + a) mod num)) (replicate 22 0) t = Inr t'"
        "holds tenant_id table_id t' (kv(assoc_key i ((i + a) mod num) \<mapsto> replicate 22 0))"
      using fill_put_holds [OF assms(1) f(5), of "assoc_key i ((i + a) mod num)" "replicate 22 0"] by (auto simp flip: length_greater_0_conv)
    then show ?thesis
      using assms(2) f(4) by (simp add: body_def s R_def copy rem_u32_def del: rbind_eq_Inr) (simp add: assoc_key_def stamped_def)
  qed
  have start: "R ([], kv) (key, [], t)" using assms(3-6) by (simp add: R_def)
  have run: "\<exists>s'. for_each body (range_u32 1 5) (key, [], t) = Inr s' \<and> R (fold ?g (range_u32 1 5) ([], kv)) s'"
    by (rule for_each_refines [where R = R, OF _ start]) (rule step)
  have "fold ?g xs (don, m) = (don @ xs, fold (\<lambda>a m. m(assoc_key i ((i + a) mod num) \<mapsto> replicate 22 0)) xs m)" for xs don m
    by (induction xs arbitrary: don m) simp_all
  from run [unfolded this append_Nil] show ?thesis
    unfolding assoc_list_def body_def [symmetric] by (auto simp: R_def neighbours_def comp_def)
qed

lemma tao_assocs_holds:
  assumes "\<And>n. n \<le> grant n" and "num \<noteq> 0"
  shows "\<exists>t. tao_assocs grant tenant_id table_id num Table_default = Inr t \<and>
    holds tenant_id table_id t (fold (assoc_data num) (range_u32 1 (num + 1)) Map.empty)"
proof -
  define R where "R = (\<lambda>kv (key, t). length key = 18 \<and> take 6 (drop 4 key) = replicate 6 (0 :: u8) \<and> drop 14 key = replicate 4 (0 :: u8) \<and>
    holds tenant_id table_id t kv)"
  define body where "body = (\<lambda>i (key, t).
         rbind (copy_from_slice_at 0 4 (enc_u32 i) key) (\<lambda>key.
         rbind (assoc_list grant tenant_id table_id num i (key, [], t)) (\<lambda>(key, list, t).
         rbind (slice_range key 0 10) (\<lambda>list_key.
         rbind (fill_put grant tenant_id table_id list_key list t) (\<lambda>t. Inr (key, t))))))"
  have step: "\<exists>s'. body i s = Inr s' \<and> R (assoc_data num i kv) s'" if "R kv s" for i s kv
  proof -
    obtain key t where s: "s = (key, t)" by fastforce
    have f: "length key = 18" "take 6 (drop 4 key) = replicate 6 0" "drop 14 key = replicate 4 0" "holds tenant_id table_id t kv"
      using that by (simp_all add: R_def s)
    let ?key = "enc_u32 i @ drop 4 key" and ?list = "concat (map (stamped 12) (neighbours num i))"
    have copy: "copy_from_slice_at 0 4 (enc_u32 i) key = Inr ?key" using f(1) by (simp add: copy_from_slice_at_def write_at_def)
    have k: "length ?key = 18" "take 10 ?key = stamped 6 i" "drop 14 ?key = replicate 4 0"
      using f by (simp_all add: stamped_def)
    obtain key' t1 where al: "assoc_list grant tenant_id table_id num i (?key, [], t) = Inr (key', ?list, t1)" "length key' = 18"
        "take 10 key' = stamped 6 i" "drop 14 key' = replicate 4 0"
        "holds tenant_id table_id t1 (fold (\<lambda>a m. m(assoc_key i ((i + a) mod num) \<mapsto> replicate 22 0)) (range_u32 1 5) kv)"
      using assoc_list_holds [OF assms k f(4)] by blast
    have "length ?list < 2 ^ 63" by (simp add: length_concat neighbours_def comp_def sum_list_triv range_u32_def)
    then obtain t2 where t2: "fill_put grant tenant_id table_id (stamped 6 i) ?list t1 = Inr t2"
        "holds tenant_id table_id t2 (assoc_data num i kv)"
      using fill_put_holds [OF assms(1) al(5), of "stamped 6 i" ?list] by (auto simp: assoc_data_def)
    have "take 6 (drop 4 key') = drop 4 (take 10 key')" by (simp add: drop_take)
    then show ?thesis
      using al t2 by (simp add: body_def s copy R_def slice_range_def del: rbind_eq_Inr)
  qed
  have start: "R Map.empty (replicate 18 0, Table_default)" by (simp add: R_def holds_default)
  have "\<exists>s'. for_each body (range_u32 1 (num + 1)) (replicate 18 0, Table_default) = Inr s' \<and>
      R (fold (assoc_data num) (range_u32 1 (num + 1)) Map.empty) s'"
    by (rule for_each_refines [where R = R, OF _ start]) (rule step)
  then show ?thesis unfolding tao_assocs_def body_def [symmetric] by (auto simp: R_def simp del: rbind_eq_Inr)
qed

lemma tao_objects_holds:
  assumes "\<And>n. n \<le> grant n"
  shows "\<exists>t. tao_objects grant tenant_id table_id num Table_default = Inr t \<and>
    holds tenant_id table_id t (fold (\<lambda>i m. m(stamped 4 i \<mapsto> replicate 32 0)) (range_u32 1 (num + 1)) Map.empty)"
proof -
  define R where "R = (\<lambda>kv (key, t). length key = 8 \<and> drop 4 key = replicate 4 (0 :: u8) \<and> holds tenant_id table_id t kv)"
  define body where "body = (\<lambda>i (key, t).
         rbind (copy_from_slice_at 0 4 (enc_u32 i) key) (\<lambda>key.
         rbind (fill_put grant tenant_id table_id key (replicate 32 0) t) (\<lambda>t. Inr (key, t))))"
  have step: "\<exists>s'. body i s = Inr s' \<and> R (kv(stamped 4 i \<mapsto> replicate 32 0)) s'" if "R kv s" for i s kv
  proof -
    obtain key t where s: "s = (key, t)" by fastforce
    have f: "length key = 8" "drop 4 key = replicate 4 0" "holds tenant_id table_id t kv" using that by (simp_all add: R_def s)
    obtain t' where "fill_put grant tenant_id table_id (stamped 4 i) (replicate 32 0) t = Inr t'"
        "holds tenant_id table_id t' (kv(stamped 4 i \<mapsto> replicate 32 0))"
      using fill_put_holds [OF assms f(3), of "stamped 4 i" "replicate 32 0"] by auto
    then show ?thesis using f by (simp add: body_def s R_def copy_stamped del: rbind_eq_Inr)
  qed
  have start: "R Map.empty (replicate 8 0, Table_default)" by (simp add: R_def holds_default)
  have "\<exists>s'. for_each body (range_u32 1 (num + 1)) (replicate 8 0, Table_default) = Inr s' \<and>
      R (fold (\<lambda>i m. m(stamped 4 i \<mapsto> replicate 32 0)) (range_u32 1 (num + 1)) Map.empty) s'"
    by (rule for_each_refines [where R = R, OF _ start]) (rule step)
  then show ?thesis unfolding tao_objects_def body_def [symmetric] by (auto simp: R_def simp del: rbind_eq_Inr)
qed


lemma assoc_data_other:
  assumes "length key = 10" and "key \<noteq> stamped 6 i"
  shows "assoc_data num i m key = m key"
proof -
  have "key \<noteq> assoc_key i j" for j using assms(1) by auto
  then have "fold (\<lambda>a m. m(assoc_key i ((i + a) mod num) \<mapsto> replicate 22 0)) (range_u32 1 5) m key = m key"
    by (intro fold_upd_miss) auto
  then show ?thesis using assms(2) by (simp add: assoc_data_def)
qed

section \<open>Extensions\<close>

text \<open>An extension manager seen as a map from tenants and names.\<close>

definition ext_map :: "'p ext_manager \<Rightarrow> (u32 \<times> byte_string \<rightharpoonup> 'p) \<Rightarrow> bool" where
  "ext_map em m \<longleftrightarrow> ext_wf em \<and> (\<forall>t k. ext_get em t k = m (t, k))"

lemma load_ext_map:
  assumes "ext_map em m" and "Extension_load dl_new dl_get (str_bytes path) = Some p"
  shows "\<exists>em'. load_ext dl_new dl_get tenant (path, name) em = Inr em' \<and> ext_map em' (m((tenant, str_bytes name) \<mapsto> p))"
  using assms exts.lookup_insert [of em tenant "(tenant, str_bytes name)"] exts.inv_insert [of em]
  by (auto simp: load_ext_def ext_load_def ext_map_def ext_get_def)

lemma share_ext_map:
  assumes "ext_map em m" and "m (0, str_bytes name) \<noteq> None"
  shows "\<exists>em'. share_ext tenant name em = Inr em' \<and> ext_map em' (m((tenant, str_bytes name) := m (0, str_bytes name)))"
  using assms exts.lookup_insert [of em tenant "(tenant, str_bytes name)"] exts.inv_insert [of em]
  by (auto simp: share_ext_def ext_share_def ext_map_def ext_get_def)

definition shared_names :: "string list" where
  "shared_names = [''get'', ''put'', ''tao'']"

definition share_all :: "u32 \<Rightarrow> (u32 \<times> byte_string \<rightharpoonup> 'p) \<Rightarrow> u32 \<times> byte_string \<rightharpoonup> 'p" where
  "share_all t m = fold (\<lambda>name m. m((t, str_bytes name) := m (0, str_bytes name))) shared_names m"

lemma share_all_apply: "t \<noteq> 0 \<Longrightarrow> share_all t m (u, k) = (if u = t \<and> k \<in> str_bytes ` set shared_names then m (0, k) else m (u, k))"
  by (auto simp: share_all_def shared_names_def)

lemma fold_share_all:
  "0 \<notin> set ts \<Longrightarrow> fold share_all ts m (u, k) = (if u \<in> set ts \<and> k \<in> str_bytes ` set shared_names then m (0, k) else m (u, k))"
  by (induction ts arbitrary: m) (auto simp: share_all_apply)

lemma load_test_map:
  fixes em :: "'p ext_manager"
  assumes "ext_map em m" and "\<forall>(path, name) \<in> set test_extensions. Extension_load dl_new dl_get (str_bytes path) = Some (p name)"
  shows "\<exists>em'. load_test dl_new dl_get tenant em = Inr em' \<and>
    ext_map em' (fold (\<lambda>(path, name) m. m((tenant, str_bytes name) \<mapsto> p name)) test_extensions m)"
  unfolding load_test_def
proof (rule for_each_refines [where R = "\<lambda>m em. ext_map em m", OF _ assms(1)])
  fix e m and em :: "'p ext_manager"
  assume "e \<in> set test_extensions" "ext_map em m"
  moreover obtain path name where e: "e = (path, name)" by fastforce
  ultimately have "Extension_load dl_new dl_get (str_bytes path) = Some (p name)" using assms(2) by blast
  then show "\<exists>em'. load_ext dl_new dl_get tenant e em = Inr em' \<and> ext_map em' ((case e of (path, name) \<Rightarrow> \<lambda>m. m((tenant, str_bytes name) \<mapsto> p name)) m)"
    using load_ext_map [OF \<open>ext_map em m\<close>] e by simp
qed

lemma share_loop_map:
  fixes em :: "'p ext_manager"
  assumes "ext_map em m" and "\<forall>name \<in> set shared_names. m (0, str_bytes name) \<noteq> None"
  shows "\<exists>em'. for_each (\<lambda>tenant. for_each (share_ext tenant) shared_names) ts em = Inr em' \<and> ext_map em' (fold share_all ts m)"
proof -
  let ?R = "\<lambda>m em. ext_map em m \<and> (\<forall>name \<in> set shared_names. m (0, str_bytes name) \<noteq> None)"
  have inner: "\<exists>em'. for_each (share_ext t) shared_names em = Inr em' \<and> ?R (share_all t m) em'" if "?R m em" for t m and em :: "'p ext_manager"
    unfolding share_all_def
  proof (rule for_each_refines [where R = ?R, OF _ that])
    fix name m and em :: "'p ext_manager"
    assume "name \<in> set shared_names" "?R m em"
    then show "\<exists>em'. share_ext t name em = Inr em' \<and> ?R (m((t, str_bytes name) := m (0, str_bytes name))) em'"
      using share_ext_map [of em m name t] by auto
  qed
  have "\<exists>em'. for_each (\<lambda>tenant. for_each (share_ext tenant) shared_names) ts em = Inr em' \<and> ?R (fold share_all ts m) em'"
    by (rule for_each_refines [where R = ?R]) (use inner assms in blast)+
  then show ?thesis by blast
qed

section \<open>Properties\<close>

text \<open>C39: the authentication data fits the extension that checks it. After \<open>fill_auth\<close> the tenant exists, and the \<open>auth\<close> extension, invoked
  for a user \<open>i\<close> up to \<open>num\<close> with any password, completes after two resumptions and answers 2 exactly if the decrypted password has the
  same hash, under the user's salt, as the password the user was created with; otherwise it answers 3.\<close>

theorem fill_auth_authenticates:
  assumes "\<And>n. n \<le> grant n" and "\<And>s p. length (bcrypt 1 s p) = 24" and "master_wf ms m"
    and "1 \<le> i" and "i \<le> num" and "num \<noteq> - 1"
    and "Context_args c = Inr (enc_u64 table_id @ stamped 26 i @ pw)" and "length pw = 72"
    and "length (aes_ige auth_key auth_iv (take 16 pw)) = 16" and "wf_packet (c_response c)" and "1 \<le> tailroom (c_response c)"
  shows "\<exists>ms' m' a tn c'. fill_auth bcrypt grant tenant_id table_id num (ms, m) = Inr (ms', m') \<and>
    get_tenant ms' tenant_id = Some a \<and> tenants m' a = Some tn \<and>
    server_runs 2 (ext_auth_init aes_ige bcrypt) grant clk n tn c = Some (ExtComplete 0, tn, c') \<and>
    frame (c_response c') = frame (c_response c) @
      [if bcrypt 1 (stamped 12 i) (aes_ige auth_key auth_iv (take 16 pw) @ drop 16 pw) = bcrypt 1 (stamped 12 i) (stamped 68 i) then 2 else 3]"
proof -
  obtain t where t: "auth_users bcrypt grant tenant_id table_id num Table_default = Inr t" "holds tenant_id table_id t
      (fold (\<lambda>i m. m(stamped 26 i \<mapsto> user_entry bcrypt i)) (range_u32 1 (num + 1)) Map.empty)"
    using auth_users_holds [where bcrypt = bcrypt, OF assms(1,2) holds_default] by blast
  obtain tn ms' m' a where tn: "on_table table_id (auth_users bcrypt grant tenant_id table_id num) (create_table table_id (Tenant_new tenant_id)) = Inr tn"
      and ins: "insert_tenant tn (ms, m) = (ms', m')" "get_tenant ms' tenant_id = Some a" "tenants m' a = Some tn"
      "get_table tn table_id = Some t"
    using insert_filled [where f = "auth_users bcrypt grant tenant_id table_id num", OF assms(3) t(1)] by blast
  obtain ver where "stored tn table_id (stamped 26 i) = Some (ver, user_entry bcrypt i)"
    using user_stored [OF t(2) ins(4) assms(4-6)] by blast
  from auth_runs [where tn = tn and bcrypt = bcrypt and aes_ige = aes_ige, OF assms(7-9) this assms(2,10,11)] show ?thesis
    using ins by (simp add: fill_auth_def tn)
qed

text \<open>The aggregation data is complete. After \<open>fill_aggregate\<close> the \<open>aggregate\<close> extension finds the list of every object \<open>i\<close> up to \<open>num\<close> and
  every record this list points to: asked to aggregate the first \<open>k\<close> (at most 12) of them, it completes after two resumptions and
  answers 1 and the sum of the low bytes of their identifiers, squared \<open>order - 1\<close> times, whatever wraps around in the
  identifiers as long as the number of records does not wrap around to 0.\<close>

lemma fill_aggregate_complete:
  assumes "\<And>n. n \<le> grant n" and "master_wf ms m" and "4 * (num + 1) \<noteq> 0" and "1 \<le> i" and "i \<le> num" and "k \<noteq> 0" and "k \<le> 12"
    and "Context_args c = Inr (enc_u64 table_id @ enc_u32 k @ enc_u32 order @ stamped 4 i)"
    and "wf_packet (c_response c)" and "9 \<le> tailroom (c_response c)"
  shows "\<exists>ms' m' a tn c'. fill_aggregate grant tenant_id table_id num (ms, m) = Inr (ms', m') \<and>
    get_tenant ms' tenant_id = Some a \<and> tenants m' a = Some tn \<and>
    server_runs 2 ext_aggregate_init grant clk n tn c = Some (ExtComplete 0, tn, c') \<and>
    frame (c_response c') = frame (c_response c) @ [1] @
      enc_u64 (squarings order (aggregate_column (map (\<lambda>e. ucast (agg_id (4 * (num + 1)) i e)) (range_u32 0 k))))"
proof -
  define r where "r = 4 * (num + 1)"
  let ?ks = "agg_keys r i k" and ?rest = "concat (map (\<lambda>e. stamped 26 (agg_id r i e)) (range_u32 k 12))"
  let ?fill = "\<lambda>t. rbind (agg_lists grant tenant_id table_id r num t) (agg_records grant tenant_id table_id r)"
  have r: "r \<noteq> 0" "num \<noteq> - 1" using assms(3) by (auto simp: r_def)
  obtain t where t: "?fill Table_default = Inr t" "holds tenant_id table_id t (agg_data r num)"
    using aggregate_holds [OF assms(1) r(1)] by blast
  obtain tn ms' m' a where tn: "on_table table_id ?fill (create_table table_id (Tenant_new tenant_id)) = Inr tn"
      and ins: "insert_tenant tn (ms, m) = (ms', m')" "get_tenant ms' tenant_id = Some a" "tenants m' a = Some tn"
      "get_table tn table_id = Some t"
    using insert_filled [where f = ?fill, OF assms(2) t(1)] by blast
  have "map_option snd (stored tn table_id (stamped 4 i)) = Some (concat ?ks @ ?rest)"
    using holds_stored [OF t(2) ins(4), of "stamped 4 i"] agg_data_list [OF assms(4,5) r(2)] range_u32_split [OF assms(7)]
    by (simp add: agg_keys_def)
  then obtain ver0 where list: "stored tn table_id (stamped 4 i) = Some (ver0, concat ?ks @ ?rest)" by auto
  have rec: "map_option snd (stored tn table_id (stamped 26 (agg_id r i e))) = Some (stamped 96 (agg_id r i e))" for e
    using holds_stored [OF t(2) ins(4), of "stamped 26 (agg_id r i e)"] agg_data_record [OF agg_id_less [OF r(1)]] by simp
  let ?v = "\<lambda>key. snd (the (stored tn table_id key))" and ?ver = "\<lambda>key. fst (the (stored tn table_id key))"
  have v: "?v (stamped 26 (agg_id r i e)) = stamped 96 (agg_id r i e)" "stored tn table_id (stamped 26 (agg_id r i e)) \<noteq> None" for e
    using rec [of e] by auto
  have keys: "\<forall>key \<in> set ?ks. length key = 30 \<and> stored tn table_id key = Some (?ver key, ?v key) \<and> ?v key \<noteq> []"
    using v(2) by (auto simp: agg_keys_def v(1))
  have col: "map (hd \<circ> ?v) ?ks = map (\<lambda>e. ucast (agg_id r i e)) (range_u32 0 k)"
    by (simp add: agg_keys_def comp_def v(1) hd_stamped)
  from aggregate_runs [where tn = tn, OF assms(8) ins(4) list _ assms(6) keys assms(9,10)] show ?thesis
    using ins unfolding col fill_aggregate_def r_def [symmetric] by (simp add: tn)
qed


text \<open>TAO's data points to an object that does not exist. \<open>fill_tao\<close> stores the objects 1 to \<open>num\<close> and no others, and for each of them the list of
  its four neighbours \<open>(i + 1) mod num\<close> to \<open>(i + 4) mod num\<close>. One of them has the identifier 0 among its neighbours.\<close>

lemma fill_tao_dangling:
  assumes "\<And>n. n \<le> grant n" and "master_wf ms m" and "num \<noteq> 0" and "num \<noteq> - 1"
  shows "\<exists>ms' m' a tn. fill_tao grant tenant_id num (ms, m) = Inr (ms', m') \<and> get_tenant ms' tenant_id = Some a \<and> tenants m' a = Some tn \<and>
    (\<forall>i. map_option snd (stored tn 1 (stamped 4 i)) = (if 1 \<le> i \<and> i \<le> num then Some (replicate 32 0) else None)) \<and>
    (\<forall>i. 1 \<le> i \<longrightarrow> i \<le> num \<longrightarrow> map_option snd (stored tn 2 (stamped 6 i)) = Some (concat (map (stamped 12) (neighbours num i)))) \<and>
    (\<exists>i. 1 \<le> i \<and> i \<le> num \<and> 0 \<in> set (neighbours num i)) \<and> stored tn 1 (stamped 4 0) = None"
proof -
  let ?objs = "fold (\<lambda>i m. m(stamped 4 i \<mapsto> replicate 32 0)) (range_u32 1 (num + 1)) Map.empty"
  let ?assocs = "fold (assoc_data num) (range_u32 1 (num + 1)) Map.empty"
  obtain t1 where t1: "tao_objects grant tenant_id 1 num Table_default = Inr t1" "holds tenant_id 1 t1 ?objs"
    using tao_objects_holds [OF assms(1)] by blast
  obtain t2 where t2: "tao_assocs grant tenant_id 2 num Table_default = Inr t2" "holds tenant_id 2 t2 ?assocs"
    using tao_assocs_holds [OF assms(1,3)] by blast
  let ?tn = "put_table 2 t2 (put_table 1 t1 (create_table 2 (create_table 1 (Tenant_new tenant_id))))"
  have fill: "fill_tao grant tenant_id num (ms, m) = Inr (insert_tenant ?tn (ms, m))" and id: "tn_id ?tn = tenant_id"
    by (simp_all add: fill_tao_def on_table_def t1(1) t2(1) create_table_def Tenant_new_def get_table_def put_table_def del: rbind_eq_Inr)
  have tabs: "get_table ?tn 1 = Some t1" "get_table ?tn 2 = Some t2" by simp_all
  have objs: "map_option snd (stored ?tn 1 (stamped 4 i)) = (if 1 \<le> i \<and> i \<le> num then Some (replicate 32 0) else None)" for i
  proof -
    have "?objs (stamped 4 i) = (if 1 \<le> i \<and> i \<le> num then Some (replicate 32 0) else None)"
    proof (cases "1 \<le> i \<and> i \<le> num")
      case True
      then have "i \<in> set (range_u32 1 (num + 1))" using assms(4) by (simp add: range_u32_upto)
      from fold_upd_hit [OF this, of "stamped 4" "\<lambda>_. replicate 32 0" Map.empty] show ?thesis using True by simp
    next
      case False
      then have "stamped 4 i \<notin> stamped 4 ` set (range_u32 1 (num + 1))" by (auto simp: range_u32_upto)
      from fold_upd_miss [OF this, of "\<lambda>_. replicate 32 0" Map.empty] show ?thesis unfolding if_not_P [OF False] by simp
    qed
    then show ?thesis using holds_stored [OF t1(2) tabs(1), of "stamped 4 i"] by simp
  qed
  have assocs: "map_option snd (stored ?tn 2 (stamped 6 i)) = Some (concat (map (stamped 12) (neighbours num i)))" if "1 \<le> i" "i \<le> num" for i
  proof -
    have "?assocs (stamped 6 i) = Some (concat (map (stamped 12) (neighbours num i)))"
      by (rule fold_hit [where i = i])
        (use that assms(4) in \<open>simp_all add: range_u32_upto assoc_data_other\<close>, simp add: assoc_data_def)
    then show ?thesis using holds_stored [OF t2(2) tabs(2), of "stamped 6 i"] by simp
  qed
  have one: "1 \<in> set (range_u32 1 5)" by (simp add: set_range_u32)
  have "\<exists>i. 1 \<le> i \<and> i \<le> num \<and> 0 \<in> set (neighbours num i)"
  proof (cases "num = 1")
    case True
    then show ?thesis using one by (intro exI [of _ 1]) (auto simp: neighbours_def intro!: image_eqI [of _ _ 1])
  next
    case False
    have "0 \<in> set (neighbours num (num - 1))" using one unfolding neighbours_def by (auto intro!: image_eqI [of _ _ 1])
    moreover have "1 \<le> num - 1" "num - 1 \<le> num"
      using False assms(3) unat_minus_one [OF assms(3)] unfolding word_unat_eq_iff word_le_nat_alt by simp_all
    ultimately show ?thesis by blast
  qed
  moreover have "stored ?tn 1 (stamped 4 0) = None" using objs [of 0] by simp
  moreover obtain ms' m' a where "insert_tenant ?tn (ms, m) = (ms', m')" "get_tenant ms' tenant_id = Some a" "tenants m' a = Some ?tn"
    using insert_new [OF assms(2), of ?tn] unfolding id by blast
  ultimately show ?thesis using fill objs assocs by (metis (no_types, lifting))
qed

text \<open>\<open>load_test_shared\<close> loads all extensions for tenant 0 and shares three of them.\<close>

lemma load_test_shared_extensions:
  assumes "ext_wf em" and "\<forall>(path, name) \<in> set test_extensions. Extension_load dl_new dl_get (str_bytes path) = Some (p name)"
  shows "\<exists>em'. load_test_shared dl_new dl_get n em = Inr em' \<and> (\<forall>(path, name) \<in> set test_extensions. ext_get em' 0 (str_bytes name) = Some (p name)) \<and>
    (\<forall>t k. 1 \<le> t \<longrightarrow> t < n \<longrightarrow> ext_get em' t k = (if k \<in> str_bytes ` set shared_names then ext_get em' 0 k else ext_get em t k))"
proof -
  let ?m = "\<lambda>(t, k). ext_get em t k"
  let ?m1 = "fold (\<lambda>(path, name) m. m((0, str_bytes name) \<mapsto> p name)) test_extensions ?m"
  have "ext_map em ?m" using assms(1) by (simp add: ext_map_def)
  then obtain em1 where em1: "load_test dl_new dl_get 0 em = Inr em1" "ext_map em1 ?m1"
    using load_test_map [OF _ assms(2)] by blast
  have names: "\<forall>(path, name) \<in> set test_extensions. ?m1 (0, str_bytes name) = Some (p name)"
    by (simp add: test_extensions_def str_bytes_def)
  have others: "t \<noteq> 0 \<Longrightarrow> ?m1 (t, k) = ext_get em t k" for t k by (simp add: test_extensions_def)
  have "\<forall>name \<in> set shared_names. ?m1 (0, str_bytes name) \<noteq> None"
    using names by (simp add: shared_names_def test_extensions_def)
  then obtain em2 where em2: "for_each (\<lambda>tenant. for_each (share_ext tenant) shared_names) (range_u32 1 n) em1 = Inr em2"
      "ext_map em2 (fold share_all (range_u32 1 n) ?m1)"
    using share_loop_map [OF em1(2)] by blast
  have nz: "0 \<notin> set (range_u32 1 n)" by (simp add: set_range_u32)
  have get: "ext_get em2 t k = (if t \<in> set (range_u32 1 n) \<and> k \<in> str_bytes ` set shared_names then ?m1 (0, k) else ?m1 (t, k))" for t k
    using em2(2) unfolding ext_map_def fold_share_all [OF nz] by blast
  have "load_test_shared dl_new dl_get n em = Inr em2"
    using em2(1) by (simp add: load_test_shared_def em1(1) shared_names_def del: rbind_eq_Inr)
  moreover have "\<forall>(path, name) \<in> set test_extensions. ext_get em2 0 (str_bytes name) = Some (p name)"
    using names nz unfolding get by simp
  moreover have "ext_get em2 t k = (if k \<in> str_bytes ` set shared_names then ext_get em2 0 k else ext_get em t k)" if "1 \<le> t" "t < n" for t k
  proof -
    have "t \<noteq> 0" "t \<in> set (range_u32 1 n)" using that by (auto simp: set_range_u32)
    then show ?thesis unfolding get using others [of t k] nz by simp
  qed
  ultimately show ?thesis by blast
qed


section \<open>Witnesses\<close>

lemma wit_invocation_long:
  assumes "length args \<le> 200"
  shows "Context_args (wit_invocation args) = Inr args" "wf_packet (c_response (wit_invocation args))"
    "9 \<le> tailroom (c_response (wit_invocation args))"
proof -
  show "Context_args (wit_invocation args) = Inr args"
    using get_payload_view [OF demo_packet_view [of "enc_invoke_request (InvokeRequest_new 7 0 (word_of_nat (length args)) 42) @ args" InvokeRequest]] assms
    by (simp add: Context_args_def Context_new_def wit_invocation_def)
  have "view_at InvokeResponse 0 (enc_response (InvokeResponse_new 42 SandstormInvokeRpc 7)) 1010 wit_response"
    using demo_packet_view [of "enc_response (InvokeResponse_new 42 SandstormInvokeRpc 7)" InvokeResponse] by (simp add: wit_response_def)
  from view_atD(1,5) [OF this] show "wf_packet (c_response (wit_invocation args))" "9 \<le> tailroom (c_response (wit_invocation args))"
    by (simp_all add: wit_invocation_def Context_new_def)
qed

abbreviation wit_empty :: "unit master" where
  "wit_empty \<equiv> Master_new"

lemma wit_empty_wf: "master_wf wit_empty m"
  by (rule master_wf_new)

abbreviation wit_hash :: "u32 \<Rightarrow> byte_string \<Rightarrow> byte_string \<Rightarrow> byte_string" where
  "wit_hash \<equiv> \<lambda>_ s p. take 24 (p @ replicate 24 0)"

theorem fill_auth_authenticates_witness:
  "\<exists>ms' m' a tn c'. fill_auth wit_hash (\<lambda>n. n) 7 1 3 (wit_empty, wit_machine) = Inr (ms', m') \<and> get_tenant ms' 7 = Some a \<and>
    tenants m' a = Some tn \<and>
    server_runs 2 (ext_auth_init (\<lambda>_ _ b. b) wit_hash) (\<lambda>n. n) (\<lambda>_. 0) 0 tn (wit_invocation (enc_u64 1 @ stamped 26 2 @ stamped 68 2)) =
      Some (ExtComplete 0, tn, c') \<and>
    frame (c_response c') = frame (c_response (wit_invocation (enc_u64 1 @ stamped 26 2 @ stamped 68 2))) @ [2]"
proof -
  let ?args = "enc_u64 1 @ stamped 26 2 @ stamped 68 2"
  have len: "length ?args \<le> 200" by simp
  have hash: "length (wit_hash 1 s p) = 24" for s p by simp
  show ?thesis
    using fill_auth_authenticates [where bcrypt = wit_hash and aes_ige = "\<lambda>_ _ b. b" and grant = "\<lambda>n. n" and i = 2 and num = 3
        and pw = "stamped 68 2" and tenant_id = 7 and clk = "\<lambda>_. 0" and n = 0, OF _ hash wit_empty_wf [of wit_machine] _ _ _ wit_invocation_long(1) [OF len] _ _ wit_invocation_long(2) [OF len]]
      wit_invocation_long(3) [OF len]
    by simp
qed

end
