(* ===== verification/Loads.thy ===== *)
theory Loads
  imports YcsbtRuns Fill
begin

text \<open>
  What the load generators of \<open>splinter/src/bin/client\<close> other than the Kayak clients share: a loop that fills a window of outstanding requests,
  and polling for responses. Each of them is a theory of its own.
\<close>

section \<open>Filling a window\<close>

text \<open>\<open>while may(s) { one(s) }\<close> with at most \<open>n\<close> iterations. Where it is used, every iteration takes one place of a window with \<open>n\<close> free places, so
  that it ends because the condition fails; this is the law of the locale below.\<close>

primrec window_loop :: "nat \<Rightarrow> ('s \<Rightarrow> bool) \<Rightarrow> ('s \<Rightarrow> 's rust) \<Rightarrow> 's \<Rightarrow> 's rust" where
  "window_loop 0 may one s = Inr s"
| "window_loop (Suc n) may one s = (if may s then rbind (one s) (window_loop n may one) else Inr s)"

locale window =
  fixes size :: nat and out :: "'s \<Rightarrow> u64" and may :: "'s \<Rightarrow> bool" and one :: "'s \<Rightarrow> 's rust"
  assumes size_lt: "size < 2 ^ 64"
    and may_lt: "may s \<Longrightarrow> unat (out s) < size"
    and one_out: "one s = Inr s' \<Longrightarrow> out s' = out s + 1"
begin

lemma out_step: "may s \<Longrightarrow> one s = Inr s' \<Longrightarrow> unat (out s') = unat (out s) + 1"
  using may_lt [of s] size_lt outstanding_step [of "out s"] one_out [of s s'] by simp

lemma loop_exhausts:
  "size \<le> n + unat (out s) \<Longrightarrow> window_loop n may one s = Inr s' \<Longrightarrow> \<not> may s' \<and> (unat (out s) \<le> size \<longrightarrow> unat (out s') \<le> size)"
proof (induction n arbitrary: s)
  case 0
  then show ?case using may_lt [of s] by auto
next
  case (Suc n)
  show ?case
  proof (cases "may s")
    case True
    then obtain s1 where one: "one s = Inr s1" "window_loop n may one s1 = Inr s'" using Suc.prems(2) by auto
    then have "unat (out s1) = unat (out s) + 1" using out_step [OF True] by simp
    moreover have "unat (out s1) \<le> size" using may_lt [OF True] calculation by simp
    ultimately show ?thesis using Suc.IH [OF _ one(2)] Suc.prems(1) by simp
  next
    case False
    then show ?thesis using Suc.prems(2) by simp
  qed
qed

text \<open>A loop that never panics, for an invariant that every iteration keeps.\<close>

lemma loop_returns:
  assumes "\<And>s. ok s \<Longrightarrow> may s \<Longrightarrow> \<exists>s'. one s = Inr s' \<and> ok s'" and "ok s"
  shows "\<exists>s'. window_loop n may one s = Inr s' \<and> ok s'"
  using assms(2)
proof (induction n arbitrary: s)
  case (Suc n)
  show ?case
  proof (cases "may s")
    case True
    then obtain s1 where "one s = Inr s1" "ok s1" using assms(1) Suc.prems by blast
    then show ?thesis using Suc.IH True by simp
  next
    case False
    then show ?thesis using Suc.prems by simp
  qed
qed simp

end

section \<open>Polling\<close>

text \<open>The packets of a burst in the order in which they are popped, and the receiver's count.\<close>

definition poll_port :: "u64 \<Rightarrow> host \<Rightarrow> (packet list option \<times> u64 \<times> host) rust" where
  "poll_port n h =
     (let (s, net) = h_env h
      in rbind (recv_res (n, net)) (\<lambda>(packets, n, net). Inr (map_option rev packets, n, set_env h (s, net))))"

text \<open>The median and the 99th percentile of the sorted latencies.\<close>

definition median_tail :: "u64 list \<Rightarrow> (u64 \<times> u64) rust" where
  "median_tail latencies =
     (let ls = sort latencies
      in rbind (index_slice ls (length ls div 2)) (\<lambda>median.
         rbind (index_slice ls (length ls * 99 div 100)) (\<lambda>tail. Inr (median, tail))))"

text \<open>The busy part of \<open>execute_task\<close> takes two readings of the clock.\<close>

definition run_task ::
    "bool \<Rightarrow> ('e, 'g) ext_init \<Rightarrow> 'g ext_resume \<Rightarrow> ('e, 'g) task_manager \<Rightarrow> host \<Rightarrow> (('e, 'g) task_manager \<times> host) rust" where
  "run_task chk init resume tm h =
     (let (start, h) = read_tsc h; (now, h) = read_tsc h
      in rbind (execute_task chk init resume start now (tm, h_env h)) (\<lambda>(_, tm, env). Inr (tm, set_env h env)))"

primrec run_tasks ::
    "bool \<Rightarrow> ('e, 'g) ext_init \<Rightarrow> 'g ext_resume \<Rightarrow> nat \<Rightarrow> ('e, 'g) task_manager \<times> host \<Rightarrow> (('e, 'g) task_manager \<times> host) rust" where
  "run_tasks chk init resume 0 th = Inr th"
| "run_tasks chk init resume (Suc n) th = rbind (run_task chk init resume (fst th) (snd th)) (run_tasks chk init resume n)"

end
