(* ===== verification/AggClient.thy ===== *)
theory AggClient
  imports Loads
begin

text \<open>
  The client of the aggregation benchmark, \<open>splinter/src/bin/client/aggregate.rs\<close>: it asks for the list of an object and for the records of the list, or invokes
  the extension \<open>aggregate\<close>.
\<close>

section \<open>The client\<close>

record ('e, 'g) agg_client =
  ag_responses_recv :: u64
  ag_native :: bool
  ag_requests :: u64
  ag_sent :: u64
  ag_start :: u64
  ag_n_buff :: byte_string
  ag_i_buff :: byte_string
  ag_responses :: u64
  ag_recvd :: u64
  ag_latencies :: "u64 list"
  ag_num :: u32
  ag_ord :: u32
  ag_outstanding :: u64
  ag_manager :: "('e, 'g) task_manager"

definition aggregate_name :: byte_string where
  "aggregate_name = map of_char ''aggregate''"

definition AGG_RECORD_SIZE :: usize where "AGG_RECORD_SIZE = 139"

definition AggregateSendRecv_new ::
    "ycsbt_config \<Rightarrow> u64 \<Rightarrow> u32 \<Rightarrow> u32 \<Rightarrow> u64 \<Rightarrow> 'e ext_manager \<Rightarrow> host \<Rightarrow> ('e, 'g) agg_client \<times> host" where
  "AggregateSendRecv_new cf reqs num order resps exts h =
     (let (start, h) = read_tsc h
      in (\<lparr>ag_responses_recv = 0, ag_native = (\<not> cf_use_invoke cf), ag_requests = reqs, ag_sent = 0, ag_start = start,
           ag_n_buff = replicate (cf_key_len cf) 0,
           ag_i_buff = resize (9 + 8 + 4 + 4 + cf_key_len cf) (aggregate_name @ enc_u64 1 @ enc_u32 num @ enc_u32 order),
           ag_responses = resps, ag_recvd = 0, ag_latencies = [], ag_num = num, ag_ord = order, ag_outstanding = 0,
           ag_manager = TaskManager_new exts\<rparr>, h))"

section \<open>Sending\<close>

definition sample :: "host \<Rightarrow> u32 \<times> byte_string \<times> host" where
  "sample h = (let (d, h) = next_draw h in (dr_tenant d, enc_u32 (dr_key d), h))"

definition ag_generate :: "u64 \<Rightarrow> ('e, 'g) agg_client \<Rightarrow> host \<Rightarrow> (('e, 'g) agg_client \<times> host) rust" where
  "ag_generate now k h =
     (let (t, key, h) = sample h
      in if ag_native k
         then rbind (copy_from_slice_at 0 4 key (ag_n_buff k)) (\<lambda>buff.
              rbind (send_get t 1 buff now (h_env h)) (\<lambda>env. Inr (k\<lparr>ag_n_buff := buff\<rparr>, set_env h env)))
         else rbind (copy_from_slice_at 25 29 key (ag_i_buff k)) (\<lambda>buff.
              rbind (create_task now buff t 9 (ag_manager k)) (\<lambda>tm.
              rbind (send_invoke t 9 buff now (h_env h)) (\<lambda>env.
              Inr (k\<lparr>ag_i_buff := buff, ag_manager := tm\<rparr>, set_env h env)))))"

definition ag_may_send :: "('e, 'g) agg_client \<times> host \<Rightarrow> bool" where
  "ag_may_send kh \<longleftrightarrow> ag_outstanding (fst kh) < 32 \<and> get_queue_len (ag_manager (fst kh)) < 32"

definition ag_send_one :: "('e, 'g) agg_client \<times> host \<Rightarrow> (('e, 'g) agg_client \<times> host) rust" where
  "ag_send_one kh =
     (let (k, h) = kh; (now, h) = read_tsc h
      in rbind (ag_generate now k h) (\<lambda>(k, h).
         Inr (k\<lparr>ag_sent := ag_sent k + 1, ag_outstanding := ag_outstanding k + 1\<rparr>, h)))"

definition ag_send :: "('e, 'g) agg_client \<Rightarrow> host \<Rightarrow> (('e, 'g) agg_client \<times> host) rust" where
  "ag_send k h =
     (if ag_requests k \<le> ag_sent k then Inr (k, h)
      else window_loop (32 - unat (ag_outstanding k)) ag_may_send ag_send_one (k, h))"

lemma ag_generate_outstanding: "ag_generate now k h = Inr (k', h') \<Longrightarrow> ag_outstanding k' = ag_outstanding k"
  by (auto simp: ag_generate_def Let_def case_prod_beta split: if_splits)

lemma ag_send_one_outstanding: "ag_send_one kh = Inr kh' \<Longrightarrow> ag_outstanding (fst kh') = ag_outstanding (fst kh) + 1"
  by (auto simp: ag_send_one_def Let_def case_prod_beta dest!: ag_generate_outstanding)

interpretation ag_window: window 32 "\<lambda>kh. ag_outstanding (fst kh)" ag_may_send ag_send_one
  by unfold_locales (simp_all add: ag_may_send_def word_less_nat_alt ag_send_one_outstanding)

section \<open>The aggregate\<close>

text \<open>The first byte of every chunk of 100 bytes, up to the first shorter one.\<close>

definition first_bytes :: "byte_string \<Rightarrow> byte_string" where
  "first_bytes bs = map hd (takeWhile (\<lambda>row. length row = 100) (chunks_of 100 bs))"

definition ag_aggregate :: "u32 \<Rightarrow> u64 \<Rightarrow> byte_string \<Rightarrow> u64" where
  "ag_aggregate order start bs = squarings order (fold (\<lambda>e a. a + ucast e) (first_bytes bs) start)"

section \<open>Receiving\<close>

text \<open>The figures that are printed: median and tail of the sorted latencies.\<close>

definition ag_measurements :: "('e, 'g) agg_client \<Rightarrow> host \<Rightarrow> (('e, 'g) agg_client \<times> host \<times> u64 \<times> u64) rust" where
  "ag_measurements k h =
     (let (_, h) = read_tsc h; ls = sort (ag_latencies k)
      in rbind (median_tail ls) (\<lambda>(median, tail). Inr (k\<lparr>ag_latencies := ls\<rparr>, h, median, tail)))"

definition ag_on_commit :: "packet \<Rightarrow> ('e, 'g) agg_client \<Rightarrow> host \<Rightarrow> (('e, 'g) agg_client \<times> host) rust" where
  "ag_on_commit packet k h =
     rbind (parse_header CommitResponse packet) (\<lambda>p.
     rbind (response_header p) (\<lambda>hdr.
     let (k, h) = (if rs_status hdr = StatusOk
                   then let (now, h) = read_tsc h in (k\<lparr>ag_latencies := ag_latencies k @ [now - rs_stamp hdr]\<rparr>, h)
                   else (k, h))
     in Inr (k\<lparr>ag_recvd := ag_recvd k + 1\<rparr>, free_packet p h)))"

definition ag_on_get :: "packet \<Rightarrow> ('e, 'g) agg_client \<Rightarrow> host \<Rightarrow> (('e, 'g) agg_client \<times> host) rust" where
  "ag_on_get packet k h =
     rbind (parse_header GetResponse packet) (\<lambda>p.
     rbind (response_header p) (\<lambda>hdr.
     rbind (get_payload p) (\<lambda>pay.
     rbind (split_at pay 17) (\<lambda>(_, keys).
     rbind (send_multiget (rs_tenant hdr) 1 30 (ag_num k) keys (rs_stamp hdr) (h_env h)) (\<lambda>env.
     Inr (k, free_packet p (set_env h env)))))))"

text \<open>The aggregate is computed and dropped.\<close>

definition ag_on_multiget :: "packet \<Rightarrow> ('e, 'g) agg_client \<Rightarrow> host \<Rightarrow> (('e, 'g) agg_client \<times> host) rust" where
  "ag_on_multiget packet k h =
     rbind (parse_header MultiGetResponse packet) (\<lambda>p.
     rbind (response_header p) (\<lambda>hdr.
     rbind (get_payload p) (\<lambda>pay.
     let _ = ag_aggregate (ag_ord k) 0 pay
     in rbind (send_commit (rs_tenant hdr) 1 pay (rs_stamp hdr) 30 100 (h_env h)) (\<lambda>env.
        Inr (k\<lparr>ag_outstanding := ag_outstanding k - 1\<rparr>, free_packet p (set_env h env))))))"

definition ag_on_pushback ::
    "bool \<Rightarrow> u64 \<Rightarrow> byte_string \<Rightarrow> ('e, 'g) agg_client \<Rightarrow> ('e, 'g) agg_client rust" where
  "ag_on_pushback chk stamp records k =
     rbind (split_at records 369) (\<lambda>(key, record).
     rbind (update_rwset chk stamp key 369 8 (ag_manager k)) (\<lambda>tm.
     rbind (update_rwset chk stamp record AGG_RECORD_SIZE 30 tm) (\<lambda>tm.
     Inr (k\<lparr>ag_manager := tm, ag_outstanding := ag_outstanding k - 1\<rparr>))))"

definition ag_on_invoke :: "bool \<Rightarrow> packet \<Rightarrow> ('e, 'g) agg_client \<Rightarrow> host \<Rightarrow> (('e, 'g) agg_client \<times> host) rust" where
  "ag_on_invoke chk packet k h =
     rbind (parse_header InvokeResponse packet) (\<lambda>p.
     rbind (response_header p) (\<lambda>hdr.
     rbind
       (if rs_status hdr = StatusOk
        then let k = k\<lparr>ag_recvd := ag_recvd k + 1, ag_outstanding := ag_outstanding k - 1\<rparr>;
                 (k, h) = (if ag_recvd k mod 16 = 0
                           then let (now, h) = read_tsc h in (k\<lparr>ag_latencies := ag_latencies k @ [now - rs_stamp hdr]\<rparr>, h)
                           else (k, h))
             in Inr (k\<lparr>ag_manager := delete_task (rs_stamp hdr) (ag_manager k)\<rparr>, h)
        else if rs_status hdr = StatusPushback
        then rbind (get_payload p) (\<lambda>records. rbind (ag_on_pushback chk (rs_stamp hdr) records k) (\<lambda>k. Inr (k, h)))
        else Inr (k, h)) (\<lambda>(k, h).
     Inr (k, free_packet p h))))"

definition ag_on_packet :: "bool \<Rightarrow> packet \<Rightarrow> ('e, 'g) agg_client \<times> host \<Rightarrow> (('e, 'g) agg_client \<times> host) rust" where
  "ag_on_packet chk packet kh =
     (let (k, h) = kh
      in rbind (parse_rpc_opcode packet) (\<lambda>c.
           if c = SandstormCommitRpc then ag_on_commit packet k h
           else if ag_native k
           then if c = SandstormGetRpc then ag_on_get packet k h
                else if c = SandstormMultiGetRpc then ag_on_multiget packet k h
                else Inr (k, free_packet packet h)
           else if c = SandstormInvokeRpc then ag_on_invoke chk packet k h
           else Inr (k, free_packet packet h)))"

definition ag_recv :: "bool \<Rightarrow> ('e, 'g) agg_client \<Rightarrow> host \<Rightarrow> (('e, 'g) agg_client \<times> host) rust" where
  "ag_recv chk k h =
     (if ag_responses k \<le> ag_recvd k then Inr (k, h)
      else rbind (poll_port (ag_responses_recv k) h) (\<lambda>(packets, n, h).
           let k = k\<lparr>ag_responses_recv := n\<rparr>
           in rbind (case packets of None \<Rightarrow> Inr (k, h) | Some ps \<Rightarrow> for_each (ag_on_packet chk) ps (k, h)) (\<lambda>(k, h).
              if ag_responses k \<le> ag_recvd k
              then rbind (ag_measurements k h) (\<lambda>(k, h, _). Inr (k, h))
              else Inr (k, h))))"

definition ag_execute ::
    "bool \<Rightarrow> ('e, 'g) ext_init \<Rightarrow> 'g ext_resume \<Rightarrow> ('e, 'g) agg_client \<Rightarrow> host \<Rightarrow> (('e, 'g) agg_client \<times> host) rust" where
  "ag_execute chk init resume k h =
     rbind (ag_send k h) (\<lambda>(k, h).
     rbind (ag_recv chk k h) (\<lambda>(k, h).
     rbind (run_task chk init resume (ag_manager k) h) (\<lambda>(tm, h).
     Inr (k\<lparr>ag_manager := tm\<rparr>, h))))"

end
