(* ===== verification/AggRuns.thy ===== *)
theory AggRuns
  imports AggClient
begin

text \<open>
  What the aggregation client does: its invocations are what the extension expects, and what goes wrong with its native requests and when an invocation is pushed back.
\<close>

section \<open>Invocations\<close>

lemma ag_payload:
  assumes "ag_i_buff k = aggregate_name @ enc_u64 tb @ enc_u32 num @ enc_u32 order @ stamped 4 j"
  shows "copy_from_slice_at 25 29 (enc_u32 i) (ag_i_buff k) =
    Inr (aggregate_name @ enc_u64 tb @ enc_u32 num @ enc_u32 order @ stamped 4 i)"
  by (simp add: assms copy_from_slice_at_def aggregate_name_def write_at_def stamped_def)

lemma ag_name_utf8: "utf8_valid aggregate_name"
  by code_simp

lemma ag_create_task: "\<exists>tm'. create_task i (aggregate_name @ args) tenant 9 tm = Inr tm'"
proof -
  have "split_at (aggregate_name @ args) 9 = Inr (aggregate_name, args)" by (simp add: aggregate_name_def split_at_def)
  then show ?thesis using ag_name_utf8 by (auto simp: create_task_def split: option.splits)
qed

section \<open>Pushed-back invocations\<close>

text \<open>The record of a list as the client cuts it off: without the last eight bytes of the value.\<close>

definition cut_list :: "rec \<Rightarrow> rec" where
  "cut_list r = r\<lparr>r_object := take 352 (r_object r)\<rparr>"

lemma take_list_record:
  assumes "length (r_key r) = 8" and "length (r_object r) = 360"
  shows "take 369 (record_bytes r) = record_bytes (cut_list r)" "length (record_bytes r) = 377"
  using assms by (simp_all add: record_bytes_def cut_list_def)

lemma ag_on_pushback_cuts:
  assumes "tm_waiting (ag_manager k) stamp = Some task" and "r_optype r = SandstormRead" and "length (r_key r) = 8" and "length (r_object r) = 360"
  shows "ag_on_pushback False stamp (concat (map record_bytes (r # rs))) k =
    Inr (k\<lparr>ag_manager := (ag_manager k)\<lparr>tm_waiting := (tm_waiting (ag_manager k))(stamp := None),
             tm_ready := tm_ready (ag_manager k) @ [task\<lparr>cc_db := add_record (cut_list r) (cc_db task)\<rparr>]\<rparr>,
           ag_outstanding := ag_outstanding k - 1\<rparr>)"
proof -
  let ?key = "record_bytes (cut_list r)" and ?rest = "drop 369 (record_bytes r) @ concat (map record_bytes rs)"
  note len = take_list_record [OF assms(3,4)]
  have cut: "split_at (concat (map record_bytes (r # rs))) 369 = Inr (?key, ?rest)" using len by (simp add: split_at_def)
  have shape: "records_shaped 8 352 [cut_list r]" "\<forall>q \<in> set [cut_list r]. known_op q"
    using assms(2-4) by (simp_all add: records_shaped_def cut_list_def known_op_def)
  have "update_rwset False stamp ?key 369 8 (ag_manager k) =
      Inr ((ag_manager k)\<lparr>tm_waiting := (tm_waiting (ag_manager k))(stamp := None),
        tm_ready := tm_ready (ag_manager k) @ [task\<lparr>cc_db := add_record (cut_list r) (cc_db task)\<rparr>]\<rparr>)"
    using update_rwset_records [OF assms(1) shape] by simp
  then show ?thesis
    unfolding ag_on_pushback_def cut by (simp add: update_rwset_def del: rbind_eq_Inr)
qed

section \<open>Native requests\<close>

lemma squarings_one: "squarings order 1 = 1"
proof -
  have "((\<lambda>a :: u64. a * a) ^^ n) 1 = 1" for n by (induction n) simp_all
  then show ?thesis by (simp add: squarings_def)
qed

text \<open>The native aggregate over one record is that of its type, whatever the value.\<close>

lemma native_aggregate_ignores_value:
  assumes "length key = 30" and "length v = 100"
  shows "ag_aggregate order 0 (record_bytes (read_of key ver v)) = 1"
proof -
  let ?bs = "record_bytes (read_of key ver v)"
  have len: "length ?bs = 139" and hd: "hd (take 100 ?bs) = 1"
    using assms by (simp_all add: record_bytes_def read_of_def Record_new_def)
  have tail: "length (drop 100 ?bs) = 39" using len by simp
  then have "drop 100 ?bs \<noteq> []" by auto
  then have "chunks_of 100 ?bs = [take 100 ?bs, drop 100 ?bs]"
    using chunks_of_concat_tail [of "[take 100 ?bs]" 100 "drop 100 ?bs"] len tail by simp
  then have "first_bytes ?bs = [1]" using len hd by (simp add: first_bytes_def)
  then show ?thesis by (simp add: ag_aggregate_def squarings_one)
qed

text \<open>The status of a response to a get is not looked at: one without a record stops the client.\<close>

lemma missing_list_panics:
  assumes "view_at UdpHeader i (net @ enc_get_response q @ pay) r packet" and "end_at UdpHeader i (net @ enc_get_response q @ pay) = length net"
    and "length pay < 17"
  shows "ag_on_get packet k h = Inl SliceOutOfRange"
proof -
  obtain p where p: "parse_header GetResponse packet = Inr p" "get_header p = Inr (enc_get_response q)" "get_payload p = Inr pay"
    using response_packet [OF assms(1,2), of GetResponse] by (auto simp: hdr_offset_def)
  then show ?thesis using assms(3) by (simp add: ag_on_get_def response_header_def enc_get_response_def)
qed

section \<open>Properties\<close>


text \<open>C40: a pushed-back aggregation loses its data. The server returns the list an invocation has read, a record of 377 bytes, and then the records of the list. The client cuts the
  payload after 369 bytes, as if records had no version: the list its extension resumes with lacks its last eight bytes, and as the task has left the waiting tasks by
  then, none of the other records reach it.\<close>

theorem aggregate_pushback_loses_records:
  assumes "view_at UdpHeader i (net @ enc_response q @ concat (map record_bytes (r # rs))) room packet"
    and "end_at UdpHeader i (net @ enc_response q @ concat (map record_bytes (r # rs))) = length net"
    and "rs_opcode q = SandstormInvokeRpc" and "rs_status q = StatusPushback" and "\<not> ag_native k"
    and "tm_waiting (ag_manager k) (rs_stamp q) = Some task"
    and "r_optype r = SandstormRead" and "length (r_key r) = 8" and "length (r_object r) = 360" and "proxy_holds (cc_db task) []"
  shows "\<exists>k' h' task'. ag_on_packet False packet (k, h) = Inr (k', h') \<and>
    tm_ready (ag_manager k') = tm_ready (ag_manager k) @ [task'] \<and> tm_waiting (ag_manager k') (rs_stamp q) = None \<and>
    proxy_holds (cc_db task') [r\<lparr>r_object := take 352 (r_object r)\<rparr>]"
proof -
  have op: "parse_rpc_opcode packet = Inr SandstormInvokeRpc" using response_opcode [OF assms(1,2), of q "[]"] assms(3) by simp
  obtain p where p: "parse_header InvokeResponse packet = Inr p" "get_header p = Inr (enc_response q)"
      "get_payload p = Inr (concat (map record_bytes (r # rs)))"
    using response_packet [OF assms(1,2), of InvokeResponse] by (auto simp: hdr_offset_def)
  have hd: "response_header p = Inr (rpc_response_header.truncate q)" using dec_enc_response [of q "[]"] by (simp add: response_header_def p(2))
  have q: "rs_status (rpc_response_header.truncate q) = StatusPushback" "rs_stamp (rpc_response_header.truncate q) = rs_stamp q"
    using assms(4) by (simp_all add: rpc_response_header.truncate_def)
  note cut = ag_on_pushback_cuts [OF assms(6-9), of rs]
  have "proxy_holds (add_record (cut_list r) (cc_db task)) [r\<lparr>r_object := take 352 (r_object r)\<rparr>]"
    using proxy_holds_add [OF assms(10), of "cut_list r"] by (simp add: cut_list_def)
  then show ?thesis
    using assms(5) by (simp add: ag_on_packet_def op ag_on_invoke_def p(1,3) hd q cut [simplified])
qed

section \<open>Witnesses\<close>

definition wit_agg_client :: "(unit, unit) agg_client" where
  "wit_agg_client = fst (AggregateSendRecv_new (wit_ycsbt_config\<lparr>cf_key_len := 8, cf_use_invoke := True\<rparr>) 10 1 2 10 ExtensionManager_new wit_host)"

definition wit_list_entry :: entry where
  "wit_list_entry = \<lparr>e_version = 1, e_value = obj_meta 7 1 8 @ stamped 4 1 @ stamped 26 5\<rparr>"

definition wit_item_entry :: entry where
  "wit_item_entry = \<lparr>e_version = 1, e_value = obj_meta 7 1 30 @ stamped 26 5 @ stamped 96 5\<rparr>"

definition wit_lists_table :: table where
  "wit_lists_table = store (store Table_default (stamped 4 1) (Some wit_list_entry)) (stamped 26 5) (Some wit_item_entry)"

definition wit_lists :: tenant where
  "wit_lists = put_table 1 wit_lists_table (Tenant_new 7)"

lemma wit_lists_stored:
  "stored wit_lists 1 (stamped 4 1) = Some (1, stamped 26 5)" "stored wit_lists 1 (stamped 26 5) = Some (1, stamped 96 5)"
proof -
  have "length (stamped 4 1) \<noteq> length (stamped 26 5)" by simp
  then have "stamped 4 1 \<noteq> stamped 26 5" by metis
  then show "stored wit_lists 1 (stamped 4 1) = Some (1, stamped 26 5)" "stored wit_lists 1 (stamped 26 5) = Some (1, stamped 96 5)"
    using resolve_object [of "stamped 4 1" 8 7 1 "stamped 26 5"] resolve_object [of "stamped 26 5" 30 7 1 "stamped 96 5"]
    by (simp_all add: stored_def wit_lists_def wit_lists_table_def contents_store store_wf table_wf_default wit_list_entry_def wit_item_entry_def)
qed

lemma wit_agg_client_fields:
  "ag_native wit_agg_client = False" "ag_i_buff wit_agg_client = aggregate_name @ enc_u64 1 @ enc_u32 1 @ enc_u32 2 @ stamped 4 0"
  by (simp_all add: wit_agg_client_def AggregateSendRecv_new_def Let_def case_prod_beta wit_ycsbt_config_def client_config.defs resize_def
      aggregate_name_def stamped_def) code_simp


definition wit_list_record :: rec where
  "wit_list_record = Record_new SandstormRead 1 (stamped 4 1) (replicate 360 9)"

definition wit_agg_waiting :: "(unit, unit) agg_client" where
  "wit_agg_waiting = wit_agg_client\<lparr>ag_manager := (TaskManager_new ExtensionManager_new)\<lparr>tm_waiting :=
     [42 \<mapsto> CContainer_new REQUEST (ProxyDB_new 7 42 (aggregate_name @ enc_u64 1) 9) () 42]\<rparr>\<rparr>"

theorem aggregate_pushback_loses_records_witness:
  "\<exists>k' h' task'. ag_on_packet False (demo_packet UdpHeader (enc_udp UdpHeader_new @
        enc_response ((InvokeResponse_new 42 SandstormInvokeRpc 7)\<lparr>rs_status := StatusPushback\<rparr>) @
        concat (map record_bytes [wit_list_record, read_of (stamped 26 5) 1 (stamped 96 5)]))) (wit_agg_waiting, wit_host) = Inr (k', h') \<and>
    tm_ready (ag_manager k') = [task'] \<and> proxy_holds (cc_db task') [wit_list_record\<lparr>r_object := replicate 352 9\<rparr>]"
proof -
  let ?q = "(InvokeResponse_new 42 SandstormInvokeRpc 7)\<lparr>rs_status := StatusPushback\<rparr>" and ?rs = "[read_of (stamped 26 5) 1 (stamped 96 5)]"
  let ?fr = "enc_udp UdpHeader_new @ enc_response ?q @ concat (map record_bytes (wit_list_record # ?rs))"
  have v: "view_at UdpHeader 0 ?fr (1024 - length ?fr) (demo_packet UdpHeader ?fr)"
    by (rule demo_packet_view) (simp_all add: hdr_offset_def record_bytes_def wit_list_record_def read_of_def Record_new_def)
  have e: "end_at UdpHeader 0 ?fr = length (enc_udp UdpHeader_new)" by (simp add: hdr_offset_def)
  have q: "rs_opcode ?q = SandstormInvokeRpc" "rs_status ?q = StatusPushback" "rs_stamp ?q = 42"
    by (simp_all add: InvokeResponse_new_def RpcResponseHeader_new_def)
  have r: "r_optype wit_list_record = SandstormRead" "length (r_key wit_list_record) = 8" "length (r_object wit_list_record) = 360"
      "take 352 (r_object wit_list_record) = replicate 352 9"
    by (simp_all add: wit_list_record_def Record_new_def)
  have w: "tm_waiting (ag_manager wit_agg_waiting) (rs_stamp ?q) =
      Some (CContainer_new REQUEST (ProxyDB_new 7 42 (aggregate_name @ enc_u64 1) 9) () 42)"
    unfolding q by (simp add: wit_agg_waiting_def)
  have p: "proxy_holds (cc_db (CContainer_new REQUEST (ProxyDB_new 7 42 (aggregate_name @ enc_u64 1) 9) () 42 :: (unit, unit) ccontainer)) []"
    using proxy_holds_new by (simp add: CContainer_new_def)
  have k: "\<not> ag_native wit_agg_waiting" "tm_ready (ag_manager wit_agg_waiting) = []"
    by (simp_all add: wit_agg_waiting_def wit_agg_client_fields TaskManager_new_def)
  show ?thesis
    using aggregate_pushback_loses_records [OF v e q(1,2) k(1) w r(1-3) p, of wit_host] unfolding r(4) k(2) by auto
qed

end
