(* ===== verification/TaoClient.thy ===== *)
theory TaoClient
  imports Loads
begin

text \<open>
  The client of the TAO benchmark, \<open>splinter/src/bin/client/tao.rs\<close>. It gets objects and lists of associations, natively or by invoking the extension \<open>tao\<close>; natively, the four
  associations of a list are fetched with a multiget whose keys the client computes from the list.

  Both receivers of the client poll the same port.
\<close>

section \<open>The client\<close>

record tao_config = ycsbt_config +
  cf_assocs_p :: usize
  cf_combined :: bool
  cf_num_reqs :: usize

record tao_client =
  ta_responses_recv :: u64
  ta_multi_recv :: u64
  ta_native :: bool
  ta_requests :: u64
  ta_sent :: u64
  ta_start :: u64
  ta_stop :: u64
  ta_no_buff :: byte_string
  ta_na_buff :: byte_string
  ta_io_buff :: byte_string
  ta_ia_buff :: byte_string
  ta_assoc_p :: usize
  ta_responses :: u64
  ta_recvd :: u64
  ta_o_latencies :: "u64 list"
  ta_a_latencies :: "u64 list"
  ta_assoc_keys :: byte_string
  ta_combine :: bool
  ta_finished :: bool
  ta_outstanding :: u64

definition MAX_OUTSTANDING :: u64 where "MAX_OUTSTANDING = 32"

definition tao_name :: byte_string where
  "tao_name = map of_char ''tao''"

definition TaoSendRecv_new :: "u64 \<Rightarrow> bool \<Rightarrow> tao_config \<Rightarrow> host \<Rightarrow> tao_client \<times> host" where
  "TaoSendRecv_new resps native cf h =
     (let (start, h) = read_tsc h
      in (\<lparr>ta_responses_recv = 0, ta_multi_recv = 0, ta_native = native, ta_requests = word_of_nat (cf_num_reqs cf), ta_sent = 0,
           ta_start = start, ta_stop = 0, ta_no_buff = replicate 8 0, ta_na_buff = replicate 10 0,
           ta_io_buff = resize (3 + 8 + 8 + 1) (tao_name @ enc_u64 1 @ enc_u64 0 @ [0]),
           ta_ia_buff = resize (3 + 8 + 18 + 1) (tao_name @ enc_u64 2 @ replicate 18 0 @ [4]),
           ta_assoc_p = cf_assocs_p cf, ta_responses = resps, ta_recvd = 0, ta_o_latencies = [], ta_a_latencies = [],
           ta_assoc_keys = replicate 72 0, ta_combine = cf_combined cf, ta_finished = False, ta_outstanding = 0\<rparr>, h))"

section \<open>Sending\<close>

definition ta_sample :: "tao_client \<Rightarrow> host \<Rightarrow> u32 \<times> byte_string \<times> bool \<times> host" where
  "ta_sample k h =
     (let (d, h) = next_draw h
      in (dr_tenant d, enc_u32 (dr_key d), (word_of_nat (ta_assoc_p k) :: u32) \<le> dr_put d mod 100, h))"

definition ta_generate :: "u64 \<Rightarrow> tao_client \<Rightarrow> host \<Rightarrow> (tao_client \<times> host) rust" where
  "ta_generate now k h =
     (let (t, key, obj, h) = ta_sample k h
      in if obj \<and> (ta_native k \<or> ta_combine k)
         then rbind (copy_from_slice_at 0 4 key (ta_no_buff k)) (\<lambda>buff.
              rbind (send_get t 1 buff now (h_env h)) (\<lambda>env. Inr (k\<lparr>ta_no_buff := buff\<rparr>, set_env h env)))
         else if ta_native k
         then rbind (copy_from_slice_at 0 4 key (ta_na_buff k)) (\<lambda>buff.
              rbind (send_get t 2 buff now (h_env h)) (\<lambda>env. Inr (k\<lparr>ta_na_buff := buff\<rparr>, set_env h env)))
         else if obj
         then rbind (copy_from_slice_at 11 15 key (ta_io_buff k)) (\<lambda>buff.
              rbind (send_invoke t 3 buff now (h_env h)) (\<lambda>env. Inr (k\<lparr>ta_io_buff := buff\<rparr>, set_env h env)))
         else rbind (copy_from_slice_at 11 15 key (ta_ia_buff k)) (\<lambda>buff.
              rbind (send_invoke t 3 buff now (h_env h)) (\<lambda>env. Inr (k\<lparr>ta_ia_buff := buff\<rparr>, set_env h env))))"

definition ta_may_send :: "tao_client \<times> host \<Rightarrow> bool" where
  "ta_may_send kh \<longleftrightarrow> ta_outstanding (fst kh) < MAX_OUTSTANDING"

definition ta_send_one :: "tao_client \<times> host \<Rightarrow> (tao_client \<times> host) rust" where
  "ta_send_one kh =
     (let (k, h) = kh; (now, h) = read_tsc h
      in rbind (ta_generate now k h) (\<lambda>(k, h).
         Inr (k\<lparr>ta_sent := ta_sent k + 1, ta_outstanding := ta_outstanding k + 1\<rparr>, h)))"

definition ta_send :: "tao_client \<Rightarrow> host \<Rightarrow> (tao_client \<times> host) rust" where
  "ta_send k h =
     (if ta_requests k \<le> ta_sent k then Inr (k\<lparr>ta_finished := True\<rparr>, h)
      else window_loop (32 - unat (ta_outstanding k)) ta_may_send ta_send_one (k, h))"

lemma ta_generate_outstanding: "ta_generate now k h = Inr (k', h') \<Longrightarrow> ta_outstanding k' = ta_outstanding k"
  by (auto simp: ta_generate_def Let_def case_prod_beta split: if_splits)

lemma ta_send_one_outstanding: "ta_send_one kh = Inr kh' \<Longrightarrow> ta_outstanding (fst kh') = ta_outstanding (fst kh) + 1"
  by (auto simp: ta_send_one_def Let_def case_prod_beta dest!: ta_generate_outstanding)

interpretation ta_window: window 32 "\<lambda>kh. ta_outstanding (fst kh)" ta_may_send ta_send_one
  by unfold_locales (simp_all add: ta_may_send_def MAX_OUTSTANDING_def word_less_nat_alt ta_send_one_outstanding)

section \<open>The keys of associations\<close>

text \<open>The keys for the entries of a list, from the \<open>n\<close>-th on.\<close>

fun fill_assoc_keys :: "byte_string \<Rightarrow> nat \<Rightarrow> byte_string list \<Rightarrow> byte_string \<Rightarrow> byte_string rust" where
  "fill_assoc_keys left n [] keys = Inr keys"
| "fill_assoc_keys left n (entry # entries) keys =
     rbind (copy_from_slice_at (n * 18) (n * 18 + 8) left keys) (\<lambda>keys.
     rbind (slice_range entry 0 8) (\<lambda>ident.
     rbind (copy_from_slice_at (n * 18 + 10) (n * 18 + 18) ident keys) (\<lambda>keys.
     fill_assoc_keys left (n + 1) entries keys)))"

text \<open>The identifier on the left is guessed: one less than the first on the right.\<close>

definition assoc_keys_from :: "byte_string \<Rightarrow> byte_string \<Rightarrow> byte_string rust" where
  "assoc_keys_from record keys =
     rbind (split_at record 19) (\<lambda>(_, entries).
     rbind (slice_range entries 0 8) (\<lambda>first.
     let left = table_id_of first; left = (if 0 < left then left - 1 else left)
     in rbind (chunks entries 16) (\<lambda>chs. fill_assoc_keys (enc_u64 left) 0 chs keys)))"

section \<open>Receiving\<close>

text \<open>Every sixteenth latency is kept.\<close>

definition sampled :: "u64 \<Rightarrow> u64 \<Rightarrow> host \<Rightarrow> u64 list \<times> host" where
  "sampled recvd stamp h = (if recvd mod 16 = 0 then let (now, h) = read_tsc h in ([now - stamp], h) else ([], h))"

definition ta_on_commit :: "packet \<Rightarrow> tao_client \<Rightarrow> host \<Rightarrow> (tao_client \<times> host) rust" where
  "ta_on_commit packet k h =
     rbind (parse_header CommitResponse packet) (\<lambda>p.
     rbind (response_header p) (\<lambda>hdr.
     let (k, h) = (if rs_status hdr = StatusOk
                   then let k = k\<lparr>ta_recvd := ta_recvd k + 1\<rparr>; (l, h) = sampled (ta_recvd k) (rs_stamp hdr) h
                        in (k\<lparr>ta_a_latencies := ta_a_latencies k @ l\<rparr>, h)
                   else (k, h))
     in Inr (k, free_packet p h)))"

definition ta_on_get :: "packet \<Rightarrow> tao_client \<Rightarrow> host \<Rightarrow> (tao_client \<times> host) rust" where
  "ta_on_get packet k h =
     rbind (parse_header GetResponse packet) (\<lambda>p.
     rbind (response_header p) (\<lambda>hdr.
     rbind (get_payload p) (\<lambda>pay.
       if length pay < 67
       then let k = k\<lparr>ta_recvd := ta_recvd k + 1, ta_outstanding := ta_outstanding k - 1\<rparr>;
                (l, h) = sampled (ta_recvd k) (rs_stamp hdr) h
            in Inr (k\<lparr>ta_o_latencies := ta_o_latencies k @ l\<rparr>, free_packet p h)
       else rbind (assoc_keys_from pay (ta_assoc_keys k)) (\<lambda>keys.
            rbind (send_multiget (rs_tenant hdr) 2 18 4 keys (rs_stamp hdr) (h_env h)) (\<lambda>env.
            Inr (k\<lparr>ta_assoc_keys := keys\<rparr>, free_packet p (set_env h env)))))))"

definition ta_on_multiget :: "packet \<Rightarrow> tao_client \<Rightarrow> host \<Rightarrow> (tao_client \<times> host) rust" where
  "ta_on_multiget packet k h =
     rbind (parse_header MultiGetResponse packet) (\<lambda>p.
     rbind (response_header p) (\<lambda>hdr.
     rbind (if rs_status hdr = StatusOk
            then rbind (get_payload p) (\<lambda>pay. send_commit (rs_tenant hdr) 2 pay (rs_stamp hdr) 18 22 (h_env h))
            else Inr (h_env h)) (\<lambda>env.
     Inr (k\<lparr>ta_outstanding := ta_outstanding k - 1\<rparr>, free_packet p (set_env h env)))))"

text \<open>A response to an invocation or, when objects are read natively, to a get: they are told apart by their lengths.\<close>

definition ta_on_invoke :: "packet \<Rightarrow> tao_client \<Rightarrow> host \<Rightarrow> (tao_client \<times> host) rust" where
  "ta_on_invoke packet k h =
     (let k = k\<lparr>ta_recvd := ta_recvd k + 1, ta_outstanding := ta_outstanding k - 1\<rparr>
      in rbind (if ta_combine k then rbind (get_payload packet) (\<lambda>pay. Inr (length pay \<le> 50)) else Inr False) (\<lambda>get.
         if get
         then rbind (parse_header GetResponse packet) (\<lambda>p.
              rbind (response_header p) (\<lambda>hdr.
              let (l, h) = sampled (ta_recvd k) (rs_stamp hdr) h
              in Inr (k\<lparr>ta_o_latencies := ta_o_latencies k @ l\<rparr>, free_packet p h)))
         else rbind (parse_header InvokeResponse packet) (\<lambda>p.
              rbind (response_header p) (\<lambda>hdr.
              if ta_recvd k mod 16 = 0
              then rbind (get_payload p) (\<lambda>pay.
                   let (now, h) = read_tsc h; l = now - rs_stamp hdr
                   in Inr (if length pay < 67 then k\<lparr>ta_o_latencies := ta_o_latencies k @ [l]\<rparr>
                           else k\<lparr>ta_a_latencies := ta_a_latencies k @ [l]\<rparr>, free_packet p h))
              else Inr (k, free_packet p h)))))"

definition ta_on_packet :: "packet \<Rightarrow> tao_client \<times> host \<Rightarrow> (tao_client \<times> host) rust" where
  "ta_on_packet packet kh =
     (let (k, h) = kh
      in if ta_native k
         then rbind (parse_rpc_opcode packet) (\<lambda>c.
                if c = SandstormCommitRpc then ta_on_commit packet k h
                else if c = SandstormGetRpc then ta_on_get packet k h
                else if c = SandstormMultiGetRpc then ta_on_multiget packet k h
                else Inr (k, free_packet packet h))
         else ta_on_invoke packet k h)"

text \<open>When everything has been received, packets are only freed; which header they are parsed with depends on the mode.\<close>

definition ta_free_packet :: "bool \<Rightarrow> packet \<Rightarrow> tao_client \<times> host \<Rightarrow> (tao_client \<times> host) rust" where
  "ta_free_packet multi packet kh =
     (let (k, h) = kh; k = k\<lparr>ta_outstanding := ta_outstanding k - 1\<rparr>
      in rbind (if multi then Inr MultiGetResponse
                else if ta_native k then Inr GetResponse
                else if ta_combine k then rbind (get_payload packet) (\<lambda>pay. Inr (if length pay \<le> 50 then GetResponse else InvokeResponse))
                else Inr InvokeResponse) (\<lambda>ty.
         rbind (parse_header ty packet) (\<lambda>p. Inr (k, free_packet p h))))"

definition ta_drain :: "tao_client \<Rightarrow> host \<Rightarrow> (tao_client \<times> host) rust" where
  "ta_drain k h =
     rbind (poll_port (ta_responses_recv k) h) (\<lambda>(packets, n, h).
     rbind (for_each (ta_free_packet False) (case packets of None \<Rightarrow> [] | Some ps \<Rightarrow> ps) (k\<lparr>ta_responses_recv := n\<rparr>, h)) (\<lambda>(k, h).
       if ta_native k
       then rbind (poll_port (ta_multi_recv k) h) (\<lambda>(packets, n, h).
            for_each (ta_free_packet True) (case packets of None \<Rightarrow> [] | Some ps \<Rightarrow> ps) (k\<lparr>ta_multi_recv := n\<rparr>, h))
       else Inr (k, h)))"

definition ta_recv :: "tao_client \<Rightarrow> host \<Rightarrow> (tao_client \<times> host) rust" where
  "ta_recv k h =
     (if ta_responses k \<le> ta_recvd k \<and> ta_finished k then ta_drain k h
      else rbind (poll_port (ta_responses_recv k) h) (\<lambda>(packets, n, h).
           rbind (for_each ta_on_packet (case packets of None \<Rightarrow> [] | Some ps \<Rightarrow> ps) (k\<lparr>ta_responses_recv := n\<rparr>, h)) (\<lambda>(k, h).
             if ta_responses k \<le> ta_recvd k
             then let (now, h) = read_tsc h in Inr (k\<lparr>ta_stop := now, ta_finished := True\<rparr>, h)
             else Inr (k, h))))"

text \<open>The last component is the flag \<open>FINISHED\<close>, when it is set.\<close>

definition ta_execute :: "tao_client \<Rightarrow> host \<Rightarrow> (tao_client \<times> host \<times> bool) rust" where
  "ta_execute k h =
     (if ta_finished k then Inr (k, h, True)
      else rbind (ta_send k h) (\<lambda>(k, h). rbind (ta_recv k h) (\<lambda>(k, h). Inr (k, h, False))))"

text \<open>What is printed when the client is dropped, but for the means: median and tail of the latencies for objects and for associations.\<close>

definition ta_drop :: "tao_client \<Rightarrow> ((u64 \<times> u64) \<times> (u64 \<times> u64)) rust" where
  "ta_drop k = rbind (median_tail (ta_o_latencies k)) (\<lambda>objs. rbind (median_tail (ta_a_latencies k)) (\<lambda>assocs. Inr (objs, assocs)))"

end
