(* ===== verification/TaoRuns.thy ===== *)
theory TaoRuns
  imports TaoClient
begin

text \<open>
  What the native TAO client asks for: the associations of the object whose list it has got, when it guesses the object right.
\<close>

section \<open>The computed keys\<close>

lemma le_bytes_split: "le_bytes (m + n) v = le_bytes m v @ le_bytes n (v div 256 ^ m)"
  by (induction m arbitrary: v) (simp_all add: div_mult2_eq)

lemma enc_u64_small: "enc_u64 (ucast (i :: u32)) = stamped 4 i"
proof -
  have lt: "unat i < 2 ^ 32" using unsigned_less [of i, where 'a = nat] by simp
  then have "unat (ucast i :: u64) = unat i" by (simp add: unsigned_ucast_eq take_bit_nat_eq_self)
  moreover have "unat i div 256 ^ 4 = 0" using lt by simp
  ultimately show ?thesis using le_bytes_split [of 4 4 "unat i"] by (simp add: stamped_def enc_u64_def enc_u32_def le_bytes_0 del: le_bytes.simps)
qed

lemma table_id_of_stamped: "table_id_of (stamped 4 i) = ucast i"
  by (simp flip: enc_u64_small add: table_id_of_dec)

text \<open>The object on the left the client takes for the owner of a list that starts with \<open>j\<close>.\<close>

definition guessed :: "u32 \<Rightarrow> u32" where
  "guessed j = (if 0 < j then j - 1 else j)"

lemma guessed_bytes: "enc_u64 (if 0 < (ucast (j :: u32) :: u64) then ucast j - 1 else ucast j) = stamped 4 (guessed j)"
proof -
  have lt: "unat j < 2 ^ 32" using unsigned_less [of j, where 'a = nat] by simp
  have u: "unat (ucast j :: u64) = unat j" using lt by (simp add: unsigned_ucast_eq take_bit_nat_eq_self)
  show ?thesis
  proof (cases "j = 0")
    case False
    then have pos: "0 < j" "0 < (ucast j :: u64)" using u by (simp_all add: word_less_nat_alt unat_gt_0 word_gt_0)
    have "unat (ucast (j - 1) :: u64) = unat (j - 1)"
      using unsigned_less [of "j - 1", where 'a = nat] by (simp add: unsigned_ucast_eq take_bit_nat_eq_self)
    also have "\<dots> = unat j - 1" using False by (simp add: unat_minus_one)
    also have "\<dots> = unat (ucast j - 1 :: u64)" using pos(2) u by (simp add: unat_minus_one)
    finally have "ucast j - 1 = (ucast (j - 1) :: u64)" by (simp add: word_unat_eq_iff)
    then show ?thesis using pos enc_u64_small [of "j - 1"] by (simp add: guessed_def)
  next
    case True
    then show ?thesis using enc_u64_small [of 0] by (simp add: guessed_def)
  qed
qed

lemma entries_of_list:
  "chunks (concat (map (stamped 12) js)) 16 = Inr (map (stamped 12) js)"
  using chunks_of_concat [of "map (stamped 12) js" 16] by (simp add: chunks_def)

lemma entry_ident: "slice_range (stamped 12 j) 0 8 = Inr (stamped 4 j)"
  by (simp add: slice_range_def stamped_def)

lemma one_assoc_key:
  assumes "length xs = n * 18"
  shows "copy_from_slice_at (n * 18) (n * 18 + 8) (stamped 4 l) (xs @ assoc_key a b @ ys) = Inr (xs @ assoc_key l b @ ys)"
    "copy_from_slice_at (n * 18 + 10) (n * 18 + 18) (stamped 4 j) (xs @ assoc_key l b @ ys) = Inr (xs @ assoc_key l j @ ys)"
proof -
  have "replicate 4 (0 :: u8) @ replicate 2 0 = replicate 6 0" by (simp flip: replicate_add)
  then show "copy_from_slice_at (n * 18) (n * 18 + 8) (stamped 4 l) (xs @ assoc_key a b @ ys) = Inr (xs @ assoc_key l b @ ys)"
      "copy_from_slice_at (n * 18 + 10) (n * 18 + 18) (stamped 4 j) (xs @ assoc_key l b @ ys) = Inr (xs @ assoc_key l j @ ys)"
    using assms by (simp_all add: copy_from_slice_at_def write_at_def assoc_key_def stamped_def)
qed

lemma fill_assoc_keys_all:
  "length ps = length js \<Longrightarrow> length xs = n * 18 \<Longrightarrow>
   fill_assoc_keys (stamped 4 l) n (map (stamped 12) js) (xs @ concat (map (\<lambda>(a, b). assoc_key a b) ps)) =
   Inr (xs @ concat (map (assoc_key l) js))"
proof (induction js arbitrary: ps n xs)
  case (Cons j js)
  then obtain a b ps' where ps: "ps = (a, b) # ps'" by (cases ps) auto
  have "length (xs @ assoc_key l j) = Suc n * 18" using Cons.prems(2) by simp
  note IH = Cons.IH [OF _ this, of ps']
  show ?case
    using IH Cons.prems one_assoc_key [OF Cons.prems(2)] entry_ident [of j] by (simp add: ps del: rbind_eq_Inr)
qed simp

lemma assoc_keys_from_list:
  assumes "keys = concat (map (\<lambda>(a, b). assoc_key a b) ps)" and "length ps = length (j # js)"
  shows "assoc_keys_from (record_bytes (read_of (stamped 6 i) ver (concat (map (stamped 12) (j # js))))) keys =
    Inr (concat (map (assoc_key (guessed j)) (j # js)))"
proof -
  let ?list = "concat (map (stamped 12) (j # js))"
  have cut: "split_at (record_bytes (read_of (stamped 6 i) ver ?list)) 19 = Inr (take 19 (record_bytes (read_of (stamped 6 i) ver ?list)), ?list)"
    by (simp add: record_bytes_def read_of_def Record_new_def split_at_def)
  have first: "slice_range ?list 0 8 = Inr (stamped 4 j)" by (simp add: slice_range_def stamped_def)
  have fill: "fill_assoc_keys (stamped 4 (guessed j)) 0 (map (stamped 12) (j # js)) keys = Inr (concat (map (assoc_key (guessed j)) (j # js)))"
    using fill_assoc_keys_all [OF assms(2), of "[]" 0] assms(1) by simp
  show ?thesis
    by (simp only: assoc_keys_from_def cut first fill rbind_Inr prod.case Let_def table_id_of_stamped guessed_bytes entries_of_list)
qed

section \<open>What is stored\<close>

lemma assoc_key_inj: "assoc_key a b = assoc_key c d \<longleftrightarrow> a = c \<and> b = d"
  by (simp add: assoc_key_def)

lemma assoc_key_not_list: "assoc_key a b \<noteq> stamped 6 i"
proof -
  have "length (assoc_key a b) \<noteq> length (stamped 6 i)" by simp
  then show ?thesis by metis
qed

lemma assoc_data_miss: "i \<noteq> l \<Longrightarrow> assoc_data num i m (assoc_key l j) = m (assoc_key l j)"
  unfolding assoc_data_def fun_upd_other [OF assoc_key_not_list] by (rule fold_upd_miss) (auto simp: assoc_key_inj)

lemma assoc_data_hit:
  assumes "j \<in> set (neighbours num i)"
  shows "assoc_data num i m (assoc_key i j) = Some (replicate 22 0)"
proof -
  obtain a where a: "a \<in> set (range_u32 1 5)" "j = (i + a) mod num" using assms by (auto simp: neighbours_def)
  show ?thesis
    unfolding assoc_data_def fun_upd_other [OF assoc_key_not_list] a(2)
    using fold_upd_hit [OF a(1), of "\<lambda>a. assoc_key i ((i + a) mod num)" "\<lambda>_. replicate 22 0"] by simp
qed

abbreviation assocs_of :: "u32 \<Rightarrow> byte_string \<rightharpoonup> byte_string" where
  "assocs_of num \<equiv> fold (assoc_data num) (range_u32 1 (num + 1)) Map.empty"

lemma assocs_stored:
  assumes "1 \<le> i" and "i \<le> num" and "num \<noteq> - 1" and "j \<in> set (neighbours num i)"
  shows "assocs_of num (assoc_key i j) = Some (replicate 22 0)"
  by (rule fold_hit [where i = i]) (use assms in \<open>simp_all add: range_u32_upto assoc_data_miss assoc_data_hit\<close>)

lemma assocs_of_zero: "assocs_of num (assoc_key 0 j) = None"
proof -
  have "fold (assoc_data num) is m (assoc_key 0 j) = m (assoc_key 0 j)" if "0 \<notin> set is" for "is" m
    using that by (induction "is" arbitrary: m) (simp_all add: assoc_data_miss)
  then show ?thesis by (simp add: set_range_u32)
qed

lemma list_stored:
  assumes "1 \<le> i" and "i \<le> num" and "num \<noteq> - 1"
  shows "assocs_of num (stamped 6 i) = Some (concat (map (stamped 12) (neighbours num i)))"
  by (rule fold_hit [where i = i]) (use assms in \<open>simp_all add: range_u32_upto assoc_data_other\<close>, simp add: assoc_data_def)

lemma holds_key_record:
  assumes "holds tenant_id table_id t kv" and "kv key = Some v" and "length key < 2 ^ 16"
  shows "\<exists>ver. key_record t key = record_bytes (read_of key ver v)"
proof -
  obtain e where e: "contents t key = Some e" "e_value e = obj_meta tenant_id table_id (word_of_nat (length key)) @ key @ v"
  proof -
    have "map_option e_value (contents t key) = Some (obj_meta tenant_id table_id (word_of_nat (length key)) @ key @ v)"
      using assms(1,2) by (simp add: holds_def)
    then show ?thesis using that by auto
  qed
  have "length key = unat (word_of_nat (length key) :: u16)" using assms(3) by simp
  then have "object_value e = v" using resolve_object by (simp add: object_value_def e(2))
  then show ?thesis by (auto simp: key_record_def e(1) read_of_def)
qed

lemma guessed_owner:
  assumes "1 \<le> i" and "i \<le> num" and "num \<noteq> - 1"
  shows "guessed ((i + 1) mod num) = (if i + 1 < num then i else 0)"
proof -
  have lt: "unat i + 1 < 2 ^ 32"
  proof -
    have "unat (- 1 :: u32) = 2 ^ 32 - 1" by (simp add: unsigned_minus_1_eq_mask mask_eq_exp_minus_1)
    then have "unat num \<noteq> 2 ^ 32 - 1" using assms(3) by (metis word_unat_eq_iff)
    then have "unat num < 2 ^ 32 - 1" using unsigned_less [of num, where 'a = nat] by simp
    then show ?thesis using assms(2) by (simp add: word_le_nat_alt)
  qed
  then have suc: "unat (i + 1) = unat i + 1" by (simp add: unat_word_ariths)
  show ?thesis
  proof (cases "i + 1 < num")
    case True
    then have "(i + 1) mod num = i + 1" by (simp add: word_less_nat_alt word_unat_eq_iff unat_mod)
    moreover have "0 < i + 1" using suc by (simp add: word_less_nat_alt)
    ultimately show ?thesis using True by (simp add: guessed_def)
  next
    case False
    then have "unat num \<le> unat i + 1" using suc by (simp add: word_less_nat_alt)
    then consider "unat i + 1 = unat num" | "unat i = unat num" using assms(2) by (fastforce simp: word_le_nat_alt)
    then have "unat ((i + 1) mod num) \<le> 1"
    proof cases
      case 1
      then show ?thesis by (simp add: unat_mod suc)
    next
      case 2
      then have "unat ((i + 1) mod num) = (unat num + 1) mod unat num" by (simp add: unat_mod suc)
      also have "\<dots> = 1 mod unat num" by (rule mod_add_self1)
      finally show ?thesis by (metis le_refl mod_less_eq_dividend)
    qed
    then have "(i + 1) mod num = 0 \<or> (i + 1) mod num = 1" by (auto simp: word_unat_eq_iff le_Suc_eq)
    moreover have "guessed 0 = 0" "guessed 1 = 0" by (simp_all add: guessed_def)
    ultimately have "guessed ((i + 1) mod num) = 0" by (elim disjE) (simp_all only:)
    then show ?thesis using False by simp
  qed
qed

section \<open>Properties\<close>

text \<open>C23: the traversal of the native TAO client. On the table of associations \<open>fill_tao\<close> creates for \<open>num\<close> objects, the client that has got the list
  of an object \<open>i\<close> asks for four keys with one multiget. For every \<open>i\<close> below \<open>num - 1\<close> they are the keys of the four associations of \<open>i\<close>, all of which are stored. For the last two objects, whose
  first neighbour is 0 or 1, the client takes 0 for the owner of the list: none of the keys exists.\<close>

theorem tao_native_traversal:
  assumes "\<And>n. n \<le> grant n" and "tao_assocs grant tenant_id 2 num Table_default = Inr t" and "num \<noteq> 0" and "num \<noteq> - 1" and "1 \<le> i" and "i \<le> num"
    and "ta_native k" and "ta_assoc_keys k = concat (map (\<lambda>(a, b). assoc_key a b) ps)" and "length ps = 4"
    and "view_at UdpHeader off (net @ enc_get_response q @ key_record t (stamped 6 i)) r packet"
    and "end_at UdpHeader off (net @ enc_get_response q @ key_record t (stamped 6 i)) = length net" and "rs_opcode q = SandstormGetRpc"
    and "h_env h = (s, nw)" and "plain_network (s_mac s) (s_ip s)" and "can_send 142 nw"
  shows "\<exists>k' h' p rq keys. ta_on_packet packet (k, h) = Inr (k', h') \<and> wire (snd (h_env h')) = wire nw @ [p] \<and>
    view_at IpHeader 14 (request_bytes (s_mac s) (s_ip s) (s_udp s) (get_dst_port (rs_tenant q) s)
      (enc_multiget_request (MultiGetRequest_new (rs_tenant q) 2 18 4 (rs_stamp q)) @ concat keys)) rq p \<and>
    keys = map (assoc_key (if i + 1 < num then i else 0)) (neighbours num i) \<and>
    (if i + 1 < num then \<forall>key \<in> set keys. contents t key \<noteq> None else \<forall>key \<in> set keys. contents t key = None)"
proof -
  let ?l = "if i + 1 < num then i else 0" and ?list = "concat (map (stamped 12) (neighbours num i))"
  let ?keys = "map (assoc_key ?l) (neighbours num i)"
  have holds: "holds tenant_id 2 t (assocs_of num)"
  proof -
    obtain t' where "tao_assocs grant tenant_id 2 num Table_default = Inr t'" "holds tenant_id 2 t' (assocs_of num)"
      using tao_assocs_holds [OF assms(1,3)] by blast
    then show ?thesis using assms(2) by simp
  qed
  then have dom: "contents t key = None \<longleftrightarrow> assocs_of num key = None" for key
  proof -
    have "map_option e_value (contents t key) = map_option (\<lambda>v. obj_meta tenant_id 2 (word_of_nat (length key)) @ key @ v) (assocs_of num key)"
      using \<open>holds tenant_id 2 t (assocs_of num)\<close> by (simp only: holds_def)
    then show ?thesis by (metis option.map_disc_iff)
  qed
  have found: "if i + 1 < num then \<forall>key \<in> set ?keys. contents t key \<noteq> None else \<forall>key \<in> set ?keys. contents t key = None"
    using assocs_stored [OF assms(5,6,4)] by (auto simp: dom assocs_of_zero)
  have four: "neighbours num i = [(i + 1) mod num, (i + 2) mod num, (i + 3) mod num, (i + 4) mod num]"
  proof -
    have "range_u32 1 5 = [1, 2, 3, 4]" by code_simp
    then show ?thesis by (simp add: neighbours_def)
  qed
  obtain ver where rec: "key_record t (stamped 6 i) = record_bytes (read_of (stamped 6 i) ver ?list)"
    using holds_key_record [OF holds list_stored [OF assms(5,6,4)]] by auto
  have keys: "assoc_keys_from (key_record t (stamped 6 i)) (ta_assoc_keys k) = Inr (concat ?keys)"
    using assoc_keys_from_list [OF assms(8), of "(i + 1) mod num" "tl (neighbours num i)"] assms(9) guessed_owner [OF assms(5,6,4)]
    unfolding rec four by simp
  have len: "length (key_record t (stamped 6 i)) = 83" "length (concat ?keys) = 72" "concat ?keys \<noteq> []"
    unfolding rec four by (simp_all add: record_bytes_def read_of_def Record_new_def assoc_key_def)
  have op: "parse_rpc_opcode packet = Inr SandstormGetRpc" using response_opcode [OF assms(10,11) enc_get_response_def] assms(12) by simp
  obtain p where p: "parse_header GetResponse packet = Inr p" "get_header p = Inr (enc_get_response q)" "get_payload p = Inr (key_record t (stamped 6 i))"
    using response_packet [OF assms(10,11), of GetResponse] by (auto simp: hdr_offset_def)
  have hd: "response_header p = Inr (rpc_response_header.truncate q)" by (simp add: response_header_def p(2) enc_get_response_def)
  have q: "rs_tenant (rpc_response_header.truncate q) = rs_tenant q" "rs_stamp (rpc_response_header.truncate q) = rs_stamp q"
    by (simp_all add: rpc_response_header.truncate_def)
  obtain sent rq net' where send: "send_multiget (rs_tenant q) 2 18 4 (concat ?keys) (rs_stamp q) (s, nw) =
        Inr (s\<lparr>s_requests_sent := s_requests_sent s + 1\<rparr>, net')" "wire net' = wire nw @ [sent]"
      "view_at IpHeader 14 (request_bytes (s_mac s) (s_ip s) (s_udp s) (get_dst_port (rs_tenant q) s)
        (enc_multiget_request (MultiGetRequest_new (rs_tenant q) 2 18 4 (rs_stamp q)) @ concat ?keys)) rq sent"
    using send_multiget_view [OF assms(14) len(3), of nw "rs_tenant q" 2 18 4 "rs_stamp q"] assms(15) len(2) by auto
  let ?h = "free_packet p (set_env h (s\<lparr>s_requests_sent := s_requests_sent s + 1\<rparr>, net'))"
  have "ta_on_packet packet (k, h) = Inr (k\<lparr>ta_assoc_keys := concat ?keys\<rparr>, ?h)"
    using assms(7) by (simp add: ta_on_packet_def op ta_on_get_def p(1,3) hd q len(1) keys assms(13) send(1) del: rbind_eq_Inr)
  moreover have "wire (snd (h_env ?h)) = wire nw @ [sent]" using send(2) by (simp add: free_packet_def set_env_def free_packets_def)
  ultimately show ?thesis using send(3) found by blast
qed

section \<open>Witness\<close>

definition wit_tao_client :: tao_client where
  "wit_tao_client = fst (TaoSendRecv_new 10 True (ycsbt_config.extend wit_ycsbt_config \<lparr>cf_assocs_p = 50, cf_combined = False, cf_num_reqs = 10\<rparr>) wit_host)"

lemma wit_tao_client_fields:
  "ta_native wit_tao_client" "ta_assoc_keys wit_tao_client = concat (map (\<lambda>(a, b). assoc_key a b) [(0, 0), (0, 0), (0, 0), (0, 0)])"
  by (simp_all add: wit_tao_client_def TaoSendRecv_new_def Let_def case_prod_beta) code_simp

theorem tao_native_traversal_witness:
  "\<exists>t k' h' p rq. tao_assocs (\<lambda>n. n) 7 2 9 Table_default = Inr t \<and>
    ta_on_packet (demo_packet UdpHeader (enc_udp UdpHeader_new @ enc_get_response (GetResponse_new 42 SandstormGetRpc 7) @ key_record t (stamped 6 3)))
      (wit_tao_client, wit_host) = Inr (k', h') \<and> wire (snd (h_env h')) = [p] \<and>
    view_at IpHeader 14 (request_bytes demo_mac wit_ip UdpHeader_new (get_dst_port 7 wit_sender)
      (enc_multiget_request (MultiGetRequest_new 7 2 18 4 42) @ assoc_key 3 4 @ assoc_key 3 5 @ assoc_key 3 6 @ assoc_key 3 7)) rq p \<and>
    contents t (assoc_key 3 7) \<noteq> None"
proof -
  let ?q = "GetResponse_new 42 SandstormGetRpc 7"
  obtain t where t: "tao_assocs (\<lambda>n. n) 7 2 9 Table_default = Inr t" "holds 7 2 t (assocs_of 9)"
    using tao_assocs_holds [of "\<lambda>n. n" 9 7 2] by auto
  obtain ver where rec: "key_record t (stamped 6 3) = record_bytes (read_of (stamped 6 3) ver (concat (map (stamped 12) (neighbours 9 3))))"
    using holds_key_record [OF t(2) list_stored [of 3 9]] by auto
  have near: "neighbours 9 3 = [4, 5, 6, 7]" by code_simp
  let ?fr = "enc_udp UdpHeader_new @ enc_get_response ?q @ key_record t (stamped 6 3)"
  have v: "view_at UdpHeader 0 ?fr (1024 - length ?fr) (demo_packet UdpHeader ?fr)"
    by (rule demo_packet_view)
      (simp_all add: hdr_offset_def rec near record_bytes_def read_of_def Record_new_def enc_get_response_def)
  have e: "end_at UdpHeader 0 ?fr = length (enc_udp UdpHeader_new)" by (simp add: hdr_offset_def)
  have q: "rs_opcode ?q = SandstormGetRpc" "rs_tenant ?q = 7" "rs_stamp ?q = 42" by (simp_all add: GetResponse_new_def RpcResponseHeader_new_def)
  have s: "s_mac wit_sender = demo_mac" "s_ip wit_sender = wit_ip" "s_udp wit_sender = UdpHeader_new" by (simp_all add: wit_sender_def)
  show ?thesis
    using tao_native_traversal [OF _ t(1) _ _ _ _ wit_tao_client_fields _ v e q(1) wit_host_env wit_sender_plain] wit_can_send [of 142] t(1)
    unfolding near q(2,3) s by (auto simp: wit_host_env wit_network_wire)
qed

end
