(* ===== verification/PushbackClient.thy ===== *)
theory PushbackClient
  imports Loads
begin

text \<open>
  The client of the pushback benchmark without control loops, \<open>splinter/src/bin/client/pushback.rs\<close>. It is configured to issue either
  chains of native gets or invocations of the extension \<open>pushback\<close>. The workload and the state of native requests are those of the
  Kayak client (\<open>Kayak\<close>).
\<close>

section \<open>The client\<close>

record ('e, 'g) pushback_client =
  pc_responses_recv :: u64
  pc_responses :: u64
  pc_start :: u64
  pc_recvd :: u64
  pc_latencies :: "u64 list"
  pc_master :: bool
  pc_stop :: u64
  pc_workload :: workload
  pc_requests :: u64
  pc_sent :: u64
  pc_native :: bool
  pc_payload_pushback :: byte_string
  pc_payload_put :: byte_string
  pc_finished :: bool
  pc_outstanding :: u64
  pc_manager :: "('e, 'g) task_manager"
  pc_native_state :: "u64 \<rightharpoonup> pushback_state"
  pc_num :: u32
  pc_ord :: u32
  pc_key_len :: usize
  pc_record_len :: usize

text \<open>Requests of random order are compiled in but switched off.\<close>

definition ORD_DIST :: bool where "ORD_DIST = False"

definition pc_new ::
    "u64 \<Rightarrow> bool \<Rightarrow> ycsbt_config \<Rightarrow> u64 \<Rightarrow> 'e ext_manager \<Rightarrow> u32 \<Rightarrow> u32 \<Rightarrow> host \<Rightarrow> ('e, 'g) pushback_client \<times> host" where
  "pc_new resps master cf reqs exts number order h =
     (let (start, h) = read_tsc h
      in (\<lparr>pc_responses_recv = 0, pc_responses = resps, pc_start = start, pc_recvd = 0, pc_latencies = [], pc_master = master, pc_stop = 0,
           pc_workload = Pushback_new (cf_key_len cf) (cf_value_len cf) 0, pc_requests = reqs, pc_sent = 0, pc_native = (\<not> cf_use_invoke cf),
           pc_payload_pushback = resize (8 + 8 + 4 + 4 + cf_key_len cf) (pushback_name @ enc_u64 1 @ enc_u32 number @ enc_u32 order),
           pc_payload_put = resize (8 + 8 + 2 + cf_key_len cf + cf_value_len cf)
             (pushback_name @ enc_u64 1 @ enc_u16 (word_of_nat (cf_key_len cf))),
           pc_finished = False, pc_outstanding = 0, pc_manager = TaskManager_new exts, pc_native_state = Map.empty,
           pc_num = number, pc_ord = order, pc_key_len = cf_key_len cf, pc_record_len = 1 + 8 + cf_key_len cf + cf_value_len cf\<rparr>, h))"

section \<open>Sending\<close>

text \<open>The workload and the arguments of the callback; here the callbacks get the order, too.\<close>

definition pc_abc :: "draw \<Rightarrow> workload \<Rightarrow> (workload \<times> bool \<times> u32 \<times> byte_string \<times> byte_string \<times> u32) rust" where
  "pc_abc d w =
     rbind (copy_from_slice_at 0 4 (enc_u32 (dr_key d)) (wl_key_buf w)) (\<lambda>key.
     Inr (w\<lparr>wl_key_buf := key\<rparr>, (word_of_nat (wl_put_pct w) :: u32) \<le> dr_put d mod 100, dr_tenant d, key, wl_value_buf w, dr_order d))"

definition pc_invoke_now ::
    "u64 \<Rightarrow> u32 \<Rightarrow> byte_string \<Rightarrow> ('e, 'g) pushback_client \<Rightarrow> host \<Rightarrow> (('e, 'g) pushback_client \<times> host) rust" where
  "pc_invoke_now now tenant pay k h =
     rbind (create_task now pay tenant 8 (pc_manager k)) (\<lambda>tm.
     rbind (send_invoke tenant 8 pay now (h_env h)) (\<lambda>env.
     Inr (k\<lparr>pc_manager := tm\<rparr>, set_env h env)))"

definition pc_send_native ::
    "u64 \<Rightarrow> bool \<Rightarrow> u32 \<Rightarrow> byte_string \<Rightarrow> byte_string \<Rightarrow> ('e, 'g) pushback_client \<Rightarrow> host \<Rightarrow> (('e, 'g) pushback_client \<times> host) rust" where
  "pc_send_native now is_get tenant key val k h =
     rbind (if is_get then send_get tenant 1 key now (h_env h) else send_put tenant 1 key val now (h_env h)) (\<lambda>env.
     Inr (k\<lparr>pc_native_state := (pc_native_state k)(now \<mapsto> PushbackState_new)\<rparr>, set_env h env))"

definition pc_send_extension ::
    "u64 \<Rightarrow> bool \<Rightarrow> u32 \<Rightarrow> byte_string \<Rightarrow> u32 \<Rightarrow> ('e, 'g) pushback_client \<Rightarrow> host \<Rightarrow> (('e, 'g) pushback_client \<times> host) rust" where
  "pc_send_extension now is_get tenant key order k h =
     rbind (slice_range key 0 4) (\<lambda>key4.
     if is_get
     then rbind (if ORD_DIST then copy_from_slice_at 20 24 (enc_u32 order) (pc_payload_pushback k) else Inr (pc_payload_pushback k)) (\<lambda>p_get.
          rbind (copy_from_slice_at 24 28 key4 p_get) (\<lambda>p_get.
          pc_invoke_now now tenant p_get (k\<lparr>pc_payload_pushback := p_get\<rparr>) h))
     else rbind (copy_from_slice_at 18 22 key4 (pc_payload_put k)) (\<lambda>p_put.
          pc_invoke_now now tenant p_put (k\<lparr>pc_payload_put := p_put\<rparr>) h))"

definition pc_send_one :: "('e, 'g) pushback_client \<times> host \<Rightarrow> (('e, 'g) pushback_client \<times> host) rust" where
  "pc_send_one kh =
     (let (k, h) = kh; (now, h) = read_tsc h; (d, h) = next_draw h
      in rbind (pc_abc d (pc_workload k)) (\<lambda>(w, is_get, tenant, key, val, order).
         let k = k\<lparr>pc_workload := w\<rparr>
         in rbind (if pc_native k then pc_send_native now is_get tenant key val k h
                   else pc_send_extension now is_get tenant key order k h) (\<lambda>(k, h).
            Inr (k\<lparr>pc_outstanding := pc_outstanding k + 1, pc_sent := pc_sent k + 1\<rparr>, h))))"

definition pc_may_send :: "('e, 'g) pushback_client \<times> host \<Rightarrow> bool" where
  "pc_may_send kh \<longleftrightarrow> pc_outstanding (fst kh) < word_of_nat MAX_CREDIT \<and> get_queue_len (pc_manager (fst kh)) < MAX_CREDIT"

definition pc_send :: "('e, 'g) pushback_client \<Rightarrow> host \<Rightarrow> (('e, 'g) pushback_client \<times> host) rust" where
  "pc_send k h =
     (if pc_requests k \<le> pc_sent k then Inr (k, h)
      else window_loop (MAX_CREDIT - unat (pc_outstanding k)) pc_may_send pc_send_one (k, h))"

lemma pc_send_native_outstanding:
  "pc_send_native now g tenant key val k h = Inr (k', h') \<Longrightarrow> pc_outstanding k' = pc_outstanding k"
  by (auto simp: pc_send_native_def)

lemma pc_invoke_now_outstanding: "pc_invoke_now now tenant pay k h = Inr (k', h') \<Longrightarrow> pc_outstanding k' = pc_outstanding k"
  by (auto simp: pc_invoke_now_def)

lemma pc_send_extension_outstanding:
  assumes "pc_send_extension now g tenant key order k h = Inr (k', h')"
  shows "pc_outstanding k' = pc_outstanding k"
proof -
  obtain f where "pc_invoke_now now tenant f (k\<lparr>pc_payload_pushback := f\<rparr>) h = Inr (k', h') \<or>
      pc_invoke_now now tenant f (k\<lparr>pc_payload_put := f\<rparr>) h = Inr (k', h')"
    using assms by (cases g) (auto simp: pc_send_extension_def)
  then show ?thesis by (auto dest!: pc_invoke_now_outstanding)
qed

lemma pc_send_one_outstanding: "pc_send_one kh = Inr kh' \<Longrightarrow> pc_outstanding (fst kh') = pc_outstanding (fst kh) + 1"
  by (cases "pc_native (fst kh)")
    (auto simp: pc_send_one_def Let_def case_prod_beta dest!: pc_send_native_outstanding pc_send_extension_outstanding)

interpretation pc_window: window 32 "\<lambda>kh. pc_outstanding (fst kh)" pc_may_send pc_send_one
  by unfold_locales (simp_all add: pc_may_send_def MAX_CREDIT_def word_less_nat_alt pc_send_one_outstanding)

section \<open>Receiving\<close>

definition pc_on_commit ::
    "u64 \<Rightarrow> packet \<Rightarrow> ('e, 'g) pushback_client \<Rightarrow> host \<Rightarrow> (('e, 'g) pushback_client \<times> host) rust" where
  "pc_on_commit now packet k h =
     rbind (parse_header CommitResponse packet) (\<lambda>p.
     rbind (response_header p) (\<lambda>hdr.
     let stamp = rs_stamp hdr;
         k = (if rs_status hdr = StatusOk then k\<lparr>pc_latencies := pc_latencies k @ [now - stamp]\<rparr> else k)\<lparr>pc_recvd := pc_recvd k + 1\<rparr>
     in Inr (if pc_native k then k\<lparr>pc_native_state := (pc_native_state k)(stamp := None)\<rparr> else k, free_packet p h)))"

definition pc_on_invoke ::
    "bool \<Rightarrow> u64 \<Rightarrow> packet \<Rightarrow> ('e, 'g) pushback_client \<Rightarrow> host \<Rightarrow> (('e, 'g) pushback_client \<times> host) rust" where
  "pc_on_invoke chk now packet k h =
     rbind (parse_header InvokeResponse packet) (\<lambda>p.
     rbind (response_header p) (\<lambda>hdr.
     rbind
       (if rs_status hdr = StatusOk
        then Inr (k\<lparr>pc_recvd := pc_recvd k + 1, pc_latencies := pc_latencies k @ [now - rs_stamp hdr],
                    pc_outstanding := pc_outstanding k - 1, pc_manager := delete_task (rs_stamp hdr) (pc_manager k)\<rparr>)
        else if rs_status hdr = StatusPushback
        then rbind (get_payload p) (\<lambda>records.
             rbind (update_rwset chk (rs_stamp hdr) records (pc_record_len k) (pc_key_len k) (pc_manager k)) (\<lambda>tm.
             Inr (k\<lparr>pc_manager := tm, pc_outstanding := pc_outstanding k - 1\<rparr>)))
        else Inr k) (\<lambda>k.
     Inr (k, free_packet p h))))"

text \<open>The response to a get an extension asked for; its status is not looked at.\<close>

definition pc_on_get :: "bool \<Rightarrow> packet \<Rightarrow> ('e, 'g) pushback_client \<Rightarrow> host \<Rightarrow> (('e, 'g) pushback_client \<times> host) rust" where
  "pc_on_get chk packet k h =
     rbind (parse_header GetResponse packet) (\<lambda>p.
     rbind (response_header p) (\<lambda>hdr.
     rbind (get_payload p) (\<lambda>pay.
     rbind (update_rwset chk (rs_stamp hdr) pay (pc_record_len k) (pc_key_len k) (pc_manager k)) (\<lambda>tm.
     Inr (k\<lparr>pc_manager := tm\<rparr>, free_packet p h)))))"

text \<open>The response to a native get.\<close>

definition pc_on_native_get :: "packet \<Rightarrow> ('e, 'g) pushback_client \<Rightarrow> host \<Rightarrow> (('e, 'g) pushback_client \<times> host) rust" where
  "pc_on_native_get packet k h =
     rbind (parse_header GetResponse packet) (\<lambda>p.
     rbind (response_header p) (\<lambda>hdr.
     rbind (case pc_native_state k (rs_stamp hdr) of
              None \<Rightarrow> Inr (k, h)
            | Some st \<Rightarrow>
                if rs_status hdr \<noteq> StatusOk then Inr (k, h)
                else rbind (get_payload p) (\<lambda>record.
                     rbind (native_step (pc_num k) (pc_key_len k) (pc_record_len k) hdr record st (h_env h)) (\<lambda>(st, complete, env).
                     Inr (k\<lparr>pc_native_state := (pc_native_state k)(rs_stamp hdr \<mapsto> st),
                            pc_outstanding := (if complete then pc_outstanding k - 1 else pc_outstanding k)\<rparr>, set_env h env)))) (\<lambda>(k, h).
     Inr (k, free_packet p h))))"

definition pc_on_packet ::
    "bool \<Rightarrow> u64 \<Rightarrow> packet \<Rightarrow> ('e, 'g) pushback_client \<times> host \<Rightarrow> (('e, 'g) pushback_client \<times> host) rust" where
  "pc_on_packet chk now packet kh =
     (let (k, h) = kh
      in rbind (parse_rpc_opcode packet) (\<lambda>c.
           if c = SandstormCommitRpc then pc_on_commit now packet k h
           else if \<not> pc_native k
           then if c = SandstormInvokeRpc then pc_on_invoke chk now packet k h
                else if c = SandstormGetRpc then pc_on_get chk packet k h
                else Inr (k, free_packet packet h)
           else if c = SandstormGetRpc then pc_on_native_get packet k h
           else Inr (k, free_packet packet h)))"

definition pc_recv :: "bool \<Rightarrow> ('e, 'g) pushback_client \<Rightarrow> host \<Rightarrow> (('e, 'g) pushback_client \<times> host) rust" where
  "pc_recv chk k h =
     (if pc_finished k \<and> 0 < pc_stop k then Inr (k, h)
      else rbind (poll_port (pc_responses_recv k) h) (\<lambda>(packets, n, h).
           let k = k\<lparr>pc_responses_recv := n\<rparr>
           in rbind (case packets of
                       None \<Rightarrow> Inr (k, h)
                     | Some ps \<Rightarrow> (let (now, h) = read_tsc h in for_each (pc_on_packet chk now) ps (k, h))) (\<lambda>(k, h).
              if pc_responses k \<le> pc_recvd k
              then let (now, h) = read_tsc h in Inr (k\<lparr>pc_stop := now, pc_finished := True\<rparr>, h)
              else Inr (k, h))))"

section \<open>Running and statistics\<close>

text \<open>The last component is the flag \<open>FINISHED\<close>, when it is set.\<close>

definition pc_execute ::
    "bool \<Rightarrow> ('e, 'g) ext_init \<Rightarrow> 'g ext_resume \<Rightarrow> ('e, 'g) pushback_client \<Rightarrow> host \<Rightarrow> (('e, 'g) pushback_client \<times> host \<times> bool) rust" where
  "pc_execute chk init resume k h =
     rbind (pc_send k h) (\<lambda>(k, h).
     rbind (pc_recv chk k h) (\<lambda>(k, h).
     rbind (run_tasks chk init resume MAX_CREDIT (pc_manager k, h)) (\<lambda>(tm, h).
     Inr (k\<lparr>pc_manager := tm\<rparr>, h, pc_finished k))))"

text \<open>The figures that are printed, on the master thread only.\<close>

definition pc_drop :: "('e, 'g) pushback_client \<Rightarrow> host \<Rightarrow> (('e, 'g) pushback_client \<times> host \<times> (u64 \<times> u64) option) rust" where
  "pc_drop k h =
     (let (k, h) = (if pc_stop k = 0 then let (now, h) = read_tsc h in (k\<lparr>pc_stop := now\<rparr>, h) else (k, h))
      in if pc_master k then rbind (latency_figures (pc_latencies k)) (\<lambda>mt. Inr (k, h, Some mt)) else Inr (k, h, None))"

end
