(* ===== verification/PushbackRuns.thy ===== *)
theory PushbackRuns
  imports PushbackClient
begin

text \<open>
  Runs of the pushback client: a chain of native lookups against the extension \<open>pushback\<close>, and the records that pushed-back extensions ask for.
\<close>

section \<open>Chains of records\<close>

text \<open>Records in which the value of each begins with the key of the next; only the first four bytes of a key are used.\<close>

fun linked :: "rec list \<Rightarrow> bool" where
  "linked [] \<longleftrightarrow> True"
| "linked (r # rs) \<longleftrightarrow> r = read_of (r_key r) (r_version r) (r_object r) \<and> length (r_key r) = 30 \<and> drop 4 (r_key r) = replicate 26 0 \<and>
     length (r_object r) = 100 \<and> (case rs of [] \<Rightarrow> True | s # _ \<Rightarrow> take 30 (r_object r) = r_key s) \<and> linked rs"

lemma linkedD:
  "linked rs \<Longrightarrow> r \<in> set rs \<Longrightarrow> r = read_of (r_key r) (r_version r) (r_object r) \<and> length (r_key r) = 30 \<and> length (r_object r) = 100"
  by (induction rs) auto

lemma linked_append: "linked (rs @ ss) \<Longrightarrow> linked ss"
  by (induction rs) auto

text \<open>What both the extension and the native client compute from a value: the key of the next lookup.\<close>

lemma linked_next:
  assumes "linked (r # s # rs)"
  shows "next_key (r_key r) (r_object r) = Inr (r_key s)"
proof -
  have l: "take 30 (r_object r) = r_key s" "drop 4 (r_key r) = drop 4 (r_key s)" "length (r_object r) = 100" "length (r_key r) = 30"
    using assms by simp_all
  have "take 4 (r_object r) = take 4 (r_key s)" unfolding l(1) [symmetric] by simp
  then have "take 4 (r_object r) @ drop 4 (r_key r) = r_key s" unfolding l(2) by simp
  then show ?thesis using l(3,4) by (simp add: next_key_def slice_range_def copy_from_slice_at_def write_at_def)
qed

lemma record_bytes_length: "linked rs \<Longrightarrow> r \<in> set rs \<Longrightarrow> length (record_bytes r) = 139"
  using linkedD [of rs r] by (simp add: record_bytes_def)

lemma concat_record_bytes_length: "(\<And>r. r \<in> set rs \<Longrightarrow> length (record_bytes r) = 139) \<Longrightarrow> length (concat (map record_bytes rs)) = 139 * length rs"
  by (induction rs) simp_all

text \<open>The table \<open>fill_test\<close> creates consists of such records: the value for \<open>i\<close> begins with the key for \<open>i + 1\<close>.\<close>

definition test_data :: "u32 \<Rightarrow> byte_string \<rightharpoonup> byte_string" where
  "test_data num = fold (\<lambda>i m. m(stamped 26 i \<mapsto> stamped 96 ((i + 1) mod (num + 1)))) (range_u32 1 (num + 1)) Map.empty"

lemma test_objects_holds:
  assumes "\<And>n. n \<le> grant n" and "num \<noteq> - 1"
  shows "\<exists>t. test_objects grant tenant_id table_id num Table_default = Inr t \<and> holds tenant_id table_id t (test_data num)"
proof -
  define R where "R m s \<longleftrightarrow> (case s of (key, val, t) \<Rightarrow> length key = 30 \<and> drop 4 key = replicate 26 (0 :: u8) \<and> length val = 100 \<and>
      drop 4 val = replicate 96 (0 :: u8) \<and> holds tenant_id table_id t m)" for m s
  have nz: "num + 1 \<noteq> 0" using assms(2) by (metis add.inverse_inverse add_eq_0_iff2)
  have start: "R Map.empty (replicate 30 0, replicate 100 0, Table_default)" by (simp add: R_def holds_default drop_replicate)
  define body where "body = (\<lambda>i (key, val, t).
         rbind (rem_u32 (i + 1) (num + 1)) (\<lambda>value.
         rbind (copy_from_slice_at 0 4 (enc_u32 i) key) (\<lambda>key.
         rbind (copy_from_slice_at 0 4 (enc_u32 value) val) (\<lambda>val.
         rbind (fill_put grant tenant_id table_id key val t) (\<lambda>t. Inr (key, val, t))))))"
  have step: "\<exists>s'. body i s = Inr s' \<and>
      R (m(stamped 26 i \<mapsto> stamped 96 ((i + 1) mod (num + 1)))) s'" if r: "R m s" for i m s
  proof -
    obtain key val t where s: "s = (key, val, t)" by (metis surj_pair)
    have copy: "copy_from_slice_at 0 4 (enc_u32 i) key = Inr (stamped 26 i)"
        "copy_from_slice_at 0 4 (enc_u32 ((i + 1) mod (num + 1))) val = Inr (stamped 96 ((i + 1) mod (num + 1)))"
      using r copy_stamped [of key 26] copy_stamped [of val 96] by (simp_all add: R_def s)
    obtain t' where t': "fill_put grant tenant_id table_id (stamped 26 i) (stamped 96 ((i + 1) mod (num + 1))) t = Inr t'"
        "holds tenant_id table_id t' (m(stamped 26 i \<mapsto> stamped 96 ((i + 1) mod (num + 1))))"
      using fill_put_holds [OF assms(1), of tenant_id table_id t m "stamped 26 i" "stamped 96 ((i + 1) mod (num + 1))"] r by (auto simp: R_def s)
    show ?thesis using t' nz by (simp add: body_def s copy rem_u32_def R_def del: rbind_eq_Inr)
  qed
  obtain s' where "for_each body
       (range_u32 1 (num + 1)) (replicate 30 0, replicate 100 0, Table_default) = Inr s'" "R (test_data num) s'"
    using for_each_refines [where R = R and f = body and g = "\<lambda>i m. m(stamped 26 i \<mapsto> stamped 96 ((i + 1) mod (num + 1)))", OF _ start] step
    unfolding test_data_def by blast
  then show ?thesis by (auto simp: test_objects_def R_def body_def)
qed

fun chain_from :: "(u32 \<Rightarrow> rec) \<Rightarrow> u32 \<Rightarrow> nat \<Rightarrow> rec list" where
  "chain_from f i 0 = []"
| "chain_from f i (Suc n) = f i # chain_from f (i + 1) n"

lemma length_chain_from [simp]: "length (chain_from f i n) = n"
  by (induction n arbitrary: i) simp_all

definition test_record :: "tenant \<Rightarrow> u64 \<Rightarrow> u32 \<Rightarrow> rec" where
  "test_record tn tb i = (case stored tn tb (stamped 26 i) of Some (ver, v) \<Rightarrow> read_of (stamped 26 i) ver v | None \<Rightarrow> read_of [] 0 [])"

lemma test_record_stored:
  assumes "holds tenant_id tb t (test_data num)" and "get_table tn tb = Some t" and "1 \<le> i" and "i \<le> num" and "num \<noteq> - 1"
  shows "\<exists>ver. stored tn tb (stamped 26 i) = Some (ver, stamped 96 ((i + 1) mod (num + 1))) \<and>
    test_record tn tb i = read_of (stamped 26 i) ver (stamped 96 ((i + 1) mod (num + 1)))"
proof -
  have "test_data num (stamped 26 i) = Some (stamped 96 ((i + 1) mod (num + 1)))"
    unfolding test_data_def using assms(3-5) by (intro fold_upd_hit) (simp_all add: range_u32_upto)
  then have "map_option snd (stored tn tb (stamped 26 i)) = Some (stamped 96 ((i + 1) mod (num + 1)))"
    using holds_stored [OF assms(1,2), of "stamped 26 i"] by simp
  then show ?thesis by (auto simp: test_record_def)
qed

text \<open>A chain that starts at \<open>i\<close> and does not run past the last key.\<close>

lemma test_chain_linked:
  assumes "holds tenant_id tb t (test_data num)" and "get_table tn tb = Some t" and "num \<noteq> - 1" and "1 \<le> i" and "unat i + n \<le> unat num + 1"
  shows "linked (chain_from (test_record tn tb) i n) \<and>
    (\<forall>r \<in> set (chain_from (test_record tn tb) i n). stored tn tb (r_key r) = Some (r_version r, r_object r) \<and>
      (\<exists>j. i \<le> j \<and> r_key r = stamped 26 j)) \<and>
    distinct (map r_key (chain_from (test_record tn tb) i n))"
  using assms(4,5)
proof (induction n arbitrary: i)
  case (Suc n)
  have lt: "unat num + 1 < 2 ^ 32"
  proof -
    have "unat num \<noteq> unat (- 1 :: u32)" using assms(3) by (metis word_unat_eq_iff)
    moreover have "unat (- 1 :: u32) = 2 ^ 32 - 1" by (simp add: unsigned_minus_1_eq_mask mask_eq_exp_minus_1)
    ultimately show ?thesis using unsigned_less [of num, where 'a = nat] by simp
  qed
  then have "unat i + 1 < 2 ^ 32" using Suc.prems(2) by simp
  then have suc: "unat (i + 1) = unat i + 1" "unat (num + 1) = unat num + 1" using lt by (simp_all add: unat_word_ariths)
  have le: "i \<le> num" using Suc.prems(2) by (simp add: word_le_nat_alt)
  obtain ver where here: "stored tn tb (stamped 26 i) = Some (ver, stamped 96 ((i + 1) mod (num + 1)))"
      "test_record tn tb i = read_of (stamped 26 i) ver (stamped 96 ((i + 1) mod (num + 1)))"
    using test_record_stored [OF assms(1,2) Suc.prems(1) le assms(3)] by blast
  have up: "1 \<le> i + 1" "i < i + 1" using suc Suc.prems(1) by (simp_all add: word_le_nat_alt word_less_nat_alt)
  have ih: "linked (chain_from (test_record tn tb) (i + 1) n)"
      "\<forall>r \<in> set (chain_from (test_record tn tb) (i + 1) n). stored tn tb (r_key r) = Some (r_version r, r_object r) \<and>
        (\<exists>j. i + 1 \<le> j \<and> r_key r = stamped 26 j)"
      "distinct (map r_key (chain_from (test_record tn tb) (i + 1) n))"
    using Suc.IH [OF up(1)] Suc.prems(2) suc by simp_all
  have nxt: "take 30 (stamped 96 ((i + 1) mod (num + 1))) = r_key (test_record tn tb (i + 1))" if "n \<noteq> 0"
  proof -
    have "i + 1 \<le> num" using that Suc.prems(2) suc by (simp add: word_le_nat_alt)
    moreover have "(i + 1) mod (num + 1) = i + 1"
      using that Suc.prems(2) suc by (simp add: word_unat_eq_iff unat_mod)
    ultimately show ?thesis
      using test_record_stored [OF assms(1,2) up(1) _ assms(3)] by (auto simp: stamped_def read_of_def Record_new_def)
  qed
  have "linked (chain_from (test_record tn tb) i (Suc n))"
    using ih(1) nxt by (cases n) (simp_all add: here(2) read_of_def Record_new_def)
  moreover have "\<forall>r \<in> set (chain_from (test_record tn tb) i (Suc n)). stored tn tb (r_key r) = Some (r_version r, r_object r) \<and>
      (\<exists>j. i \<le> j \<and> r_key r = stamped 26 j)"
    using ih(2) here up(2) by (auto simp: read_of_def Record_new_def intro: order_trans less_imp_le)
  moreover have "distinct (map r_key (chain_from (test_record tn tb) i (Suc n)))"
    using ih(2,3) here(2) up(2) by (fastforce simp: read_of_def Record_new_def)
  ultimately show ?case by blast
qed simp

section \<open>The extension\<close>

lemma pushback_loop_runs:
  assumes "linked (r # rs)" and "\<And>s. s \<in> set (r # rs) \<Longrightarrow> stored tn tb (r_key s) = Some (r_version s, r_object s)"
  shows "\<exists>m d. on_server (ext_pushback_loop (length (r # rs)) tb (r_key r) mul k) grant clk n tn c =
      on_server (k (ucast (r_object (last (r # rs)) ! 0))) grant clk m tn d \<and>
    tx_reads (c_tx d) = tx_reads (c_tx c) @ r # rs \<and> tx_writes (c_tx d) = tx_writes (c_tx c) \<and> c_response d = c_response c"
  using assms
proof (induction rs arbitrary: r n c)
  case Nil
  then have val: "index_slice (r_object r) 0 = Inr (r_object r ! 0)" "stored tn tb (r_key r) = Some (r_version r, r_object r)"
    "read_of (r_key r) (r_version r) (r_object r) = r"
    by (auto simp: index_slice_def)
  let ?c = "charge (clk n) (clk (n + 1)) GET_CREDIT (c\<lparr>c_tx := record_get r (c_tx c)\<rparr>)"
  show ?case
    by (rule exI [of _ "n + 2"], rule exI [of _ ?c])
      (simp add: get_on_server [OF val(2)] val record_get_def del: on_server.simps(6,7))
next
  case (Cons s rs)
  let ?c = "charge (clk n) (clk (n + 1)) GET_CREDIT (c\<lparr>c_tx := record_get r (c_tx c)\<rparr>)"
  have here: "stored tn tb (r_key r) = Some (r_version r, r_object r)" "read_of (r_key r) (r_version r) (r_object r) = r"
    using Cons.prems by auto
  have "on_server (ext_pushback_loop (length (r # s # rs)) tb (r_key r) mul k) grant clk n tn c =
      on_server (ext_pushback_loop (length (s # rs)) tb (r_key s) mul k) grant clk (n + 2) tn ?c"
    using linked_next [OF Cons.prems(1)] by (simp add: get_on_server [OF here(1)] here(2) del: on_server.simps(6,7))
  moreover obtain m d where "on_server (ext_pushback_loop (length (s # rs)) tb (r_key s) mul k) grant clk (n + 2) tn ?c =
      on_server (k (ucast (r_object (last (s # rs)) ! 0))) grant clk m tn d"
      "tx_reads (c_tx d) = tx_reads (c_tx ?c) @ s # rs" "tx_writes (c_tx d) = tx_writes (c_tx ?c)" "c_response d = c_response ?c"
    using Cons.IH [of s "n + 2" ?c] Cons.prems by auto
  ultimately show ?case by (simp add: record_get_def) blast
qed

lemma pushback_runs:
  assumes "Context_args (Context_new req off len res) = Inr (enc_u64 tb @ enc_u32 num @ enc_u32 order @ r_key r)"
    and "unat num = length (r # rs)" and "linked (r # rs)"
    and "\<And>s. s \<in> set (r # rs) \<Longrightarrow> stored tn tb (r_key s) = Some (r_version s, r_object s)"
    and "wf_packet res" and "8 \<le> tailroom res"
  shows "\<exists>fuel c. server_runs fuel ext_pushback_init grant clk n tn (Context_new req off len res) = Some (ExtComplete 0, tn, c) \<and>
    tx_records (c_tx c) = r # rs \<and> frame (c_response c) = frame res @ enc_u64 (ucast (r_object (last (r # rs)) ! 0))"
proof -
  let ?c0 = "Context_new req off len res" and ?args = "enc_u64 tb @ enc_u32 num @ enc_u32 order @ r_key r"
  define b :: u64 where "b = ucast (r_object (last (r # rs)) ! 0)"
  let ?k = "\<lambda>mul. compute_part order (respond (enc_u64 mul) 0)"
  obtain m d where loop: "on_server (ext_pushback_loop (length (r # rs)) tb (r_key r) 0 ?k) grant clk n tn ?c0 = on_server (?k b) grant clk m tn d"
      "tx_reads (c_tx d) = tx_reads (c_tx ?c0) @ r # rs" "tx_writes (c_tx d) = tx_writes (c_tx ?c0)" "c_response d = c_response ?c0"
    using pushback_loop_runs [OF assms(3,4), where k = ?k and mul = 0 and grant = grant and clk = clk and n = n and c = ?c0] unfolding b_def by blast
  have res: "c_response d = res" "c_tx ?c0 = TX_new" using loop(4) by (simp_all add: Context_new_def)
  have args: "length ?args = 46" "split_at ?args 8 = Inr (enc_u64 tb, enc_u32 num @ enc_u32 order @ r_key r)"
      "split_at (enc_u32 num @ enc_u32 order @ r_key r) 4 = Inr (enc_u32 num, enc_u32 order @ r_key r)"
      "split_at (enc_u32 order @ r_key r) 4 = Inr (enc_u32 order, r_key r)"
    using assms(3) by (simp_all add: split_at_def)
  have "on_server ext_pushback_init grant clk n tn ?c0 = on_server (ext_pushback_loop (length (r # rs)) tb (r_key r) 0 ?k) grant clk n tn ?c0"
    unfolding ext_pushback_init_def on_server.simps(4) assms(1) sum.case args(1) assms(2) [symmetric]
    by (simp del: on_server.simps(6,7) ext_pushback_loop.simps add: args)
  then have start: "on_server ext_pushback_init grant clk n tn ?c0 = on_server (?k b) grant clk m tn d" using loop(1) by (rule trans)
  obtain p where p: "Context_resp (enc_u64 b) d = (d\<lparr>c_response := p\<rparr>, Inr ())" "extends (enc_u64 b) res p"
    using resp_room [of d "enc_u64 b"] assms(5,6) unfolding res by (metis length_enc(3) length_greater_0_conv zero_less_numeral)
  have "on_server (respond (enc_u64 b) 0) grant clk m tn d = (Return 0, ExtComplete 0, m, tn, d\<lparr>c_response := p\<rparr>)"
    by (simp add: respond_def p(1))
  then obtain f where "server_runs f (?k b) grant clk m tn d = Some (ExtComplete 0, tn, d\<lparr>c_response := p\<rparr>)"
    using compute_part_runs [OF server_runs_complete] by blast
  then have "server_runs f ext_pushback_init grant clk n tn ?c0 = Some (ExtComplete 0, tn, d\<lparr>c_response := p\<rparr>)"
    using server_runs_cong [OF start] by simp
  moreover have "tx_records (c_tx (d\<lparr>c_response := p\<rparr>)) = r # rs" using loop(2,3) by (simp add: tx_records_def res TX_new_def)
  ultimately show ?thesis using p(2) unfolding b_def extends_def by fastforce
qed

section \<open>The native client\<close>

lemma search_linked:
  assumes "distinct (map r_key rs)" and "r \<in> set rs" and "ps_readset st = map kv_of rs"
  shows "search_key (r_key r) st = Some (r_object r)"
proof -
  have "find (\<lambda>e. kv_key e = r_key r) (map kv_of rs) = Some (kv_of r)" if "distinct (map r_key rs)" "r \<in> set rs" for rs
    using that by (induction rs) (auto simp: kv_of_def KV_new_def)
  then show ?thesis using assms by (simp add: search_key_def kv_of_def KV_new_def)
qed

lemma native_lookups_linked:
  assumes "linked (r # rs)" and "set (r # rs) \<subseteq> set recs" and "distinct (map r_key recs)" and "ps_readset st = map kv_of recs"
  shows "native_lookups (length (r # rs)) (r_key r) st = Inr ()"
  using assms(1,2)
proof (induction rs arbitrary: r)
  case Nil
  then have "search_key (r_key r) st = Some (r_object r)" using search_linked [OF assms(3) _ assms(4)] by simp
  then show ?case using Nil.prems by (auto simp: index_slice_def)
next
  case (Cons s rs)
  have "search_key (r_key r) st = Some (r_object r)" using search_linked [OF assms(3) _ assms(4)] Cons.prems by simp
  moreover obtain src where "slice_range (r_object r) 0 4 = Inr src" "copy_from_slice_at 0 4 src (r_key r) = Inr (r_key s)"
    using linked_next [OF Cons.prems(1)] by (auto simp: next_key_def)
  moreover have "native_lookups (length (s # rs)) (r_key s) st = Inr ()" using Cons.IH [of s] Cons.prems by simp
  ultimately show ?case by simp
qed

text \<open>The state of a request that has received the records \<open>rs\<close>.\<close>

definition after_records :: "rec list \<Rightarrow> pushback_state" where
  "after_records rs = \<lparr>ps_op_num = word_of_nat (length rs + 1), ps_commit_payload = concat (map record_bytes rs), ps_readset = map kv_of rs\<rparr>"

lemma after_records_Nil: "PushbackState_new = after_records []"
  by (simp add: after_records_def PushbackState_new_def)

definition with_record :: "rec list \<Rightarrow> rec \<Rightarrow> pushback_state" where
  "with_record rs r = (after_records (rs @ [r]))\<lparr>ps_op_num := word_of_nat (length rs + 1)\<rparr>"

lemma update_after_records:
  assumes "linked [r]"
  shows "PushbackState_update_rwset (record_bytes r) 30 (after_records rs) = Inr (with_record rs r)"
proof -
  have "record_bytes r = optype_code (r_optype r) # enc_u64 (r_version r) @ r_key r @ r_object r" by (simp add: record_bytes_def)
  then show ?thesis
    using assms split_record_bytes [of r 30]
    by (simp add: PushbackState_update_rwset_def split_at_def after_records_def with_record_def)
qed

lemma native_step_next:
  assumes "linked [r]" and "word_of_nat (length rs + 1) \<noteq> (ucast num :: u8)"
    and "send_get (rs_tenant hdr) 1 (take 30 (r_object r)) (rs_stamp hdr) env = Inr env'"
  shows "native_step num 30 139 hdr (record_bytes r) (after_records rs) env = Inr (after_records (rs @ [r]), False, env')"
proof -
  have r: "r_optype r = SandstormRead" "record_bytes r = optype_code (r_optype r) # enc_u64 (r_version r) @ r_key r @ r_object r"
    using assms(1) by (simp, metis read_of_def Record_new_def rec.select_convs(1)) (simp add: record_bytes_def)
  have rec: "parse_record_optype (record_bytes r) = Inr SandstormRead"
      "split_at (record_bytes r) 1 = Inr ([optype_code (r_optype r)], enc_u64 (r_version r) @ r_key r @ r_object r)"
    unfolding r(2) by (simp_all only: parse_record_optype_code r(1)) (simp add: split_at_def)
  have "next_lookup (rs_tenant hdr) (rs_stamp hdr) (record_bytes r) 30 (with_record rs r) env = Inr (after_records (rs @ [r]), env')"
    using assms(1,3) split_record_bytes [of r 30]
    by (simp add: next_lookup_def rec kv_of_def KV_new_def slice_range_def with_record_def after_records_def
        del: rbind_eq_Inr One_nat_def)
  then show ?thesis
    using assms(2) by (simp add: native_step_def update_after_records [OF assms(1)] with_record_def del: rbind_eq_Inr)
qed

lemma native_step_last:
  assumes "linked (rs @ [r])" and "distinct (map r_key (rs @ [r]))" and "unat num = length rs + 1" and "length rs < 255"
  shows "native_step num 30 139 hdr (record_bytes r) (after_records rs) env =
    rbind (send_commit (rs_tenant hdr) 1 (concat (map record_bytes (rs @ [r]))) (rs_stamp hdr) 30 100 env) (\<lambda>env. Inr (with_record rs r, True, env))"
proof -
  have num: "word_of_nat (length rs + 1) = (ucast num :: u8)"
    unfolding assms(3) [symmetric] by (rule of_nat_unat)
  obtain s ss where first: "rs @ [r] = s # ss" by (cases rs) auto
  have st: "ps_readset (with_record rs r) = map kv_of (rs @ [r])" "ps_commit_payload (with_record rs r) = concat (map record_bytes (rs @ [r]))"
    "ps_op_num (with_record rs r) = ucast num"
    using num by (simp_all add: with_record_def after_records_def)
  have "index_slice (ps_readset (with_record rs r)) 0 = Inr (kv_of s)" unfolding st first by (simp add: index_slice_def)
  moreover have "native_lookups (unat num) (r_key s) (with_record rs r) = Inr ()"
    using native_lookups_linked [of s ss "rs @ [r]" "with_record rs r"] assms first st(1) by (metis length_append_singleton Suc_eq_plus1 order_refl)
  ultimately have "PushbackState_execute_task num (with_record rs r) = Inr ()"
    by (simp add: PushbackState_execute_task_def kv_of_def KV_new_def del: rbind_eq_Inr)
  then show ?thesis
    using linked_append [OF assms(1)] by (simp add: native_step_def update_after_records st del: rbind_eq_Inr)
qed

text \<open>The responses to the gets of a request, in the order in which they arrive, and a get request.\<close>

definition answers :: "get_response \<Rightarrow> rec list \<Rightarrow> packet list \<Rightarrow> bool" where
  "answers q = list_all2 (\<lambda>r p. \<exists>i net room. view_at UdpHeader i (net @ enc_get_response q @ record_bytes r) room p \<and>
     end_at UdpHeader i (net @ enc_get_response q @ record_bytes r) = length net)"

definition asks_for :: "sender \<Rightarrow> u32 \<Rightarrow> u64 \<Rightarrow> byte_string \<Rightarrow> packet \<Rightarrow> bool" where
  "asks_for s tenant stamp key p \<longleftrightarrow> (\<exists>room. view_at IpHeader 14 (request_bytes (s_mac s) (s_ip s) (s_udp s) (get_dst_port tenant s)
     (enc_get_request (GetRequest_new tenant 1 (word_of_nat (length key)) stamp SandstormClient) @ key)) room p)"

lemma native_packet:
  assumes "view_at UdpHeader i (net @ enc_get_response q @ bytes) room packet" and "end_at UdpHeader i (net @ enc_get_response q @ bytes) = length net"
    and "rs_opcode q = SandstormGetRpc" and "rs_status q = StatusOk" and "pc_native k" and "pc_native_state k (rs_stamp q) = Some st"
  shows "\<exists>p. pc_on_packet chk now packet (k, h) =
    rbind (native_step (pc_num k) (pc_key_len k) (pc_record_len k) (rpc_response_header.truncate q) bytes st (h_env h)) (\<lambda>(st, complete, env).
      Inr (k\<lparr>pc_native_state := (pc_native_state k)(rs_stamp q \<mapsto> st),
             pc_outstanding := (if complete then pc_outstanding k - 1 else pc_outstanding k)\<rparr>, free_packet p (set_env h env)))"
proof -
  have op: "parse_rpc_opcode packet = Inr SandstormGetRpc" using response_opcode [OF assms(1,2) enc_get_response_def] assms(3) by simp
  obtain p where p: "parse_header GetResponse packet = Inr p" "get_header p = Inr (enc_get_response q)" "get_payload p = Inr bytes"
    using response_packet [OF assms(1,2), of GetResponse] by (auto simp: hdr_offset_def)
  have hd: "response_header p = Inr (rpc_response_header.truncate q)" by (simp add: response_header_def p(2) enc_get_response_def)
  have q: "rs_status (rpc_response_header.truncate q) = StatusOk" "rs_stamp (rpc_response_header.truncate q) = rs_stamp q"
    using assms(4) by (simp_all add: rpc_response_header.truncate_def)
  show ?thesis
    by (rule exI [of _ p], cases "native_step (pc_num k) (pc_key_len k) (pc_record_len k) (rpc_response_header.truncate q) bytes st (h_env h)")
      (auto simp: pc_on_packet_def op assms(5,6) pc_on_native_get_def p(1,3) hd q)
qed

lemma accepting_free: "accepting n (h_env (free_packet p (set_env h env))) = accepting n env"
  "wire (snd (h_env (free_packet p (set_env h env)))) = wire (snd env)" "fst (h_env (free_packet p (set_env h env))) = fst env"
  by (cases env; simp add: free_packet_def set_env_def accepting_def free_packets_def)+

lemma asks_for_sent [simp]: "asks_for (s\<lparr>s_requests_sent := x\<rparr>) = asks_for s"
  by (simp add: asks_for_def fun_eq_iff get_dst_port_def)

lemma accepting_can_send:
  assumes "accepting n (s, net)" and "m \<le> n"
  shows "plain_network (s_mac s) (s_ip s)" "can_send m net"
proof -
  have "can_send n net" using assms(1) by (simp add: accepting_def can_send_def)
  then show "can_send m net" using assms(2) by (auto simp: can_send_def fresh_mbuf_def)
  show "plain_network (s_mac s) (s_ip s)" using assms(1) by (simp add: accepting_def)
qed

lemma send_get_asks:
  assumes "accepting n (s, net)" and "length key = 30" and "97 \<le> n"
  shows "\<exists>net' p. send_get tenant 1 key stamp (s, net) = Inr (s\<lparr>s_requests_sent := s_requests_sent s + 1\<rparr>, net') \<and>
    accepting n (s\<lparr>s_requests_sent := s_requests_sent s + 1\<rparr>, net') \<and> wire net' = wire net @ [p] \<and> asks_for s tenant stamp key p"
proof -
  have key: "key \<noteq> []" using assms(2) by auto
  have "plain_network (s_mac s) (s_ip s)" "can_send (67 + length key) net"
    using accepting_can_send [OF assms(1), of "67 + length key"] assms(2,3) by simp_all
  then obtain p r net' where sent: "send_get tenant 1 key stamp (s, net) = Inr (s\<lparr>s_requests_sent := s_requests_sent s + 1\<rparr>, net')"
      "wire net' = wire net @ [p]" "asks_for s tenant stamp key p"
    using send_get_view [of s key net tenant 1 stamp] key assms(2) by (auto simp: asks_for_def)
  moreover obtain env' where "send_get tenant 1 key stamp (s, net) = Inr env'" "accepting n env'"
    using send_get_accepted [OF assms(1) key, of tenant 1 stamp] assms(2,3) by auto
  ultimately show ?thesis by auto
qed

lemma byte_of_nat: "n < 256 \<Longrightarrow> unat (word_of_nat n :: u8) = n"
  by (simp add: unsigned_of_nat take_bit_nat_eq_self)

text \<open>All records but the last: each makes the client ask for the next.\<close>

lemma native_gets:
  assumes "answers q mids ps" and "linked (mids @ [r])" and "length (pre @ mids) < unat num" and "unat num < 256"
    and "rs_opcode q = SandstormGetRpc" and "rs_status q = StatusOk"
    and "pc_native k" and "pc_num k = num" and "pc_key_len k = 30" and "pc_record_len k = 139"
    and "pc_native_state k (rs_stamp q) = Some (after_records pre)" and "h_env h = (s, nw)" and "accepting n (s, nw)" and "97 \<le> n"
  shows "\<exists>h' x nw' gets. for_each (pc_on_packet chk now) ps (k, h) =
      Inr (k\<lparr>pc_native_state := (pc_native_state k)(rs_stamp q \<mapsto> after_records (pre @ mids))\<rparr>, h') \<and>
    h_env h' = (s\<lparr>s_requests_sent := x\<rparr>, nw') \<and> accepting n (h_env h') \<and> wire nw' = wire nw @ gets \<and>
    list_all2 (\<lambda>r. asks_for s (rs_tenant q) (rs_stamp q) (r_key r)) (tl (mids @ [r])) gets"
  using assms(1-3,7-13)
proof (induction mids arbitrary: ps pre k h s nw)
  case Nil
  then have "ps = []" by (simp add: answers_def)
  moreover have "(pc_native_state k)(rs_stamp q \<mapsto> after_records pre) = pc_native_state k" using Nil.prems(8) by auto
  ultimately show ?case
    by (intro exI [of _ h] exI [of _ "s_requests_sent s"] exI [of _ nw] exI [of _ "[]"]) (simp add: Nil.prems(9,10))
next
  case (Cons m mids)
  obtain p ps' i net room where ps: "ps = p # ps'" "answers q mids ps'"
      and view: "view_at UdpHeader i (net @ enc_get_response q @ record_bytes m) room p"
        "end_at UdpHeader i (net @ enc_get_response q @ record_bytes m) = length net"
    using Cons.prems(1) by (auto simp: answers_def list_all2_Cons1)
  obtain nxt rest where mids: "mids @ [r] = nxt # rest" by (cases mids) auto
  then have l: "linked [m]" "take 30 (r_object m) = r_key nxt" "length (r_key nxt) = 30" "linked (mids @ [r])"
    using Cons.prems(2) by simp_all
  have more: "word_of_nat (length pre + 1) \<noteq> (ucast num :: u8)"
  proof
    assume "word_of_nat (length pre + 1) = (ucast num :: u8)"
    then have "unat (word_of_nat (length pre + 1) :: u8) = unat (word_of_nat (unat num) :: u8)" by (simp only: of_nat_unat)
    moreover have "unat (word_of_nat (length pre + 1) :: u8) = length pre + 1" "unat (word_of_nat (unat num) :: u8) = unat num"
      using Cons.prems(3) assms(4) byte_of_nat [of "length pre + 1"] byte_of_nat [of "unat num"] by simp_all
    ultimately show False using Cons.prems(3) by simp
  qed
  obtain nw1 sent where get: "send_get (rs_tenant q) 1 (r_key nxt) (rs_stamp q) (s, nw) = Inr (s\<lparr>s_requests_sent := s_requests_sent s + 1\<rparr>, nw1)"
      "accepting n (s\<lparr>s_requests_sent := s_requests_sent s + 1\<rparr>, nw1)" "wire nw1 = wire nw @ [sent]" "asks_for s (rs_tenant q) (rs_stamp q) (r_key nxt) sent"
    using send_get_asks [OF Cons.prems(10) l(3) assms(14), of "rs_tenant q" "rs_stamp q"] by auto
  let ?s1 = "s\<lparr>s_requests_sent := s_requests_sent s + 1\<rparr>"
  let ?k1 = "k\<lparr>pc_native_state := (pc_native_state k)(rs_stamp q \<mapsto> after_records (pre @ [m]))\<rparr>"
  have step: "native_step num 30 139 (rpc_response_header.truncate q) (record_bytes m) (after_records pre) (s, nw) =
      Inr (after_records (pre @ [m]), False, (?s1, nw1))"
    by (rule native_step_next [OF l(1) more]) (simp add: l(2) get(1) rpc_response_header.truncate_def)
  obtain p' where here: "pc_on_packet chk now p (k, h) = Inr (?k1, free_packet p' (set_env h (?s1, nw1)))"
    using native_packet [OF view assms(5,6) Cons.prems(4,8), of chk now h] step by (auto simp: Cons.prems(5-7,9))
  let ?h1 = "free_packet p' (set_env h (?s1, nw1))"
  obtain nw2 where env: "h_env ?h1 = (?s1, nw2)" "wire nw2 = wire nw1" "accepting n (?s1, nw2)"
    using accepting_free [where p = p' and h = h and env = "(?s1, nw1)"] get(2) by (metis prod.collapse fst_conv snd_conv)
  have hyp: "length ((pre @ [m]) @ mids) < unat num" "pc_native ?k1" "pc_num ?k1 = num" "pc_key_len ?k1 = 30" "pc_record_len ?k1 = 139"
      "pc_native_state ?k1 (rs_stamp q) = Some (after_records (pre @ [m]))"
    using Cons.prems(3-7) by simp_all
  obtain h' x nw' gets where ih: "for_each (pc_on_packet chk now) ps' (?k1, ?h1) =
        Inr (?k1\<lparr>pc_native_state := (pc_native_state ?k1)(rs_stamp q \<mapsto> after_records ((pre @ [m]) @ mids))\<rparr>, h')"
      "h_env h' = (?s1\<lparr>s_requests_sent := x\<rparr>, nw')" "accepting n (h_env h')" "wire nw' = wire nw2 @ gets"
      "list_all2 (\<lambda>r. asks_for ?s1 (rs_tenant q) (rs_stamp q) (r_key r)) (tl (mids @ [r])) gets"
    using Cons.IH [OF ps(2) l(4) hyp env(1,3)] by blast
  have "for_each (pc_on_packet chk now) ps (k, h) =
      Inr (k\<lparr>pc_native_state := (pc_native_state k)(rs_stamp q \<mapsto> after_records (pre @ m # mids))\<rparr>, h')"
    using ih(1) by (simp add: ps(1) here)
  moreover have "h_env h' = (s\<lparr>s_requests_sent := x\<rparr>, nw')" "wire nw' = wire nw @ sent # gets"
    using ih(2,4) env(2) get(3) by simp_all
  moreover have "list_all2 (\<lambda>r. asks_for s (rs_tenant q) (rs_stamp q) (r_key r)) (tl ((m # mids) @ [r])) (sent # gets)"
    using ih(5) get(4) by (simp add: mids)
  ultimately show ?case using ih(3) by blast
qed

lemma for_each_snoc: "for_each f (xs @ [x]) s = rbind (for_each f xs s) (f x)"
proof (induction xs arbitrary: s)
  case Nil
  show ?case by (cases "f x s") simp_all
next
  case (Cons y xs)
  then show ?case by (cases "f y s") simp_all
qed

lemma list_all2_snoc: "list_all2 P (xs @ [x]) zs \<Longrightarrow> \<exists>ys y. zs = ys @ [y] \<and> list_all2 P xs ys \<and> P x y"
  by (auto simp: list_all2_append1 list_all2_Cons1)

lemma answers_snoc: "answers q (mids @ [l]) ps \<Longrightarrow> \<exists>ps' p. ps = ps' @ [p] \<and> answers q mids ps' \<and> answers q [l] [p]"
  unfolding answers_def by (drule list_all2_snoc) (simp only: list_all2_Cons list_all2_Nil simp_thms)

definition asks_to_commit :: "sender \<Rightarrow> u32 \<Rightarrow> u64 \<Rightarrow> rec list \<Rightarrow> packet \<Rightarrow> bool" where
  "asks_to_commit s tenant stamp recs p \<longleftrightarrow> (\<exists>room. view_at IpHeader 14 (request_bytes (s_mac s) (s_ip s) (s_udp s) (get_dst_port tenant s)
     (enc_commit_request (CommitRequest_new tenant stamp 1 30 100) @ concat (map record_bytes recs))) room p)"

text \<open>The last record: a request to commit fits for at most ten records.\<close>

lemma native_last:
  assumes "linked recs" and "recs = mids @ [r]" and "distinct (map r_key recs)" and "unat num = length recs" and "length recs \<le> 255"
    and "accepting m (s, nw)" and "68 + 139 * min 10 (length recs) \<le> m"
  shows "if length recs \<le> 10
    then \<exists>nw' p. native_step num 30 139 hdr (record_bytes r) (after_records mids) (s, nw) =
        Inr (with_record mids r, True, s\<lparr>s_requests_sent := s_requests_sent s + 1\<rparr>, nw') \<and> wire nw' = wire nw @ [p] \<and>
        asks_to_commit s (rs_tenant hdr) (rs_stamp hdr) recs p
    else native_step num 30 139 hdr (record_bytes r) (after_records mids) (s, nw) = Inl ExplicitPanic"
proof -
  let ?pay = "concat (map record_bytes recs)"
  have len: "length ?pay = 139 * length recs" using concat_record_bytes_length [of recs] record_bytes_length [OF assms(1)] by blast
  have step: "native_step num 30 139 hdr (record_bytes r) (after_records mids) (s, nw) =
      rbind (send_commit (rs_tenant hdr) 1 ?pay (rs_stamp hdr) 30 100 (s, nw)) (\<lambda>env. Inr (with_record mids r, True, env))"
    using native_step_last [of mids r num hdr "(s, nw)"] assms(1-5) by simp
  show ?thesis
  proof (cases "length recs \<le> 10")
    case True
    have "?pay \<noteq> []" using len assms(2) by (metis length_0_conv mult_eq_0_iff snoc_eq_iff_butlast zero_neq_numeral)
    then obtain p room nw' where "send_commit (rs_tenant hdr) 1 ?pay (rs_stamp hdr) 30 100 (s, nw) =
        Inr (s\<lparr>s_requests_sent := s_requests_sent s + 1\<rparr>, nw')" "wire nw' = wire nw @ [p]" "asks_to_commit s (rs_tenant hdr) (rs_stamp hdr) recs p"
      using send_commit_view [of s ?pay nw "rs_tenant hdr" 1 "rs_stamp hdr" 30 100] accepting_can_send [OF assms(6), of "68 + length ?pay"] assms(7) True len
      unfolding asks_to_commit_def by auto
    then show ?thesis using True by (simp add: step)
  next
    case False
    then have "send_commit (rs_tenant hdr) 1 ?pay (rs_stamp hdr) 30 100 (s, nw) = Inl ExplicitPanic"
      using len by (simp add: send_commit_def with_alloc_def create_commit_rpc_def)
    then show ?thesis using False by (simp add: step)
  qed
qed

section \<open>Properties\<close>

text \<open>C10: a chain of native gets and the extension agree. On records of which each leads to the next, invoking the extension \<open>pushback\<close> for
  as many lookups reads just these records and answers with the first byte of the last value. The native client, given the responses to its gets one after the other, asks for the next
  record each time and at the end asks to commit: with up to ten records it commits exactly the records of the extension's transaction and the request
  stops being outstanding. With more of them, the request to commit would not fit into a packet, and the client panics.\<close>

theorem native_chain_equivalent:
  assumes "Context_args (Context_new req off len res) = Inr (enc_u64 1 @ enc_u32 num @ enc_u32 order @ r_key r)"
    and "wf_packet res" and "8 \<le> tailroom res" and "unat num = length (r # rs)" and "length (r # rs) \<le> 255"
    and "linked (r # rs)" and "distinct (map r_key (r # rs))"
    and "\<And>s. s \<in> set (r # rs) \<Longrightarrow> stored tn 1 (r_key s) = Some (r_version s, r_object s)"
    and "answers q (r # rs) ps" and "rs_opcode q = SandstormGetRpc" and "rs_status q = StatusOk"
    and "pc_native k" and "pc_num k = num" and "pc_key_len k = 30" and "pc_record_len k = 139"
    and "pc_native_state k (rs_stamp q) = Some PushbackState_new" and "h_env h = (s, nw)" and "accepting m (s, nw)"
    and "68 + 139 * min 10 (length (r # rs)) \<le> m"
  shows "\<exists>fuel c. server_runs fuel ext_pushback_init grant clk n tn (Context_new req off len res) = Some (ExtComplete 0, tn, c) \<and>
    tx_records (c_tx c) = r # rs \<and> frame (c_response c) = frame res @ enc_u64 (ucast (r_object (last (r # rs)) ! 0)) \<and>
    (if length (r # rs) \<le> 10
     then \<exists>k' h' gets p. for_each (pc_on_packet chk now) ps (k, h) = Inr (k', h') \<and> pc_outstanding k' = pc_outstanding k - 1 \<and>
       wire (snd (h_env h')) = wire nw @ gets @ [p] \<and>
       list_all2 (\<lambda>r. asks_for s (rs_tenant q) (rs_stamp q) (r_key r)) rs gets \<and>
       asks_to_commit s (rs_tenant q) (rs_stamp q) (tx_records (c_tx c)) p
     else for_each (pc_on_packet chk now) ps (k, h) = Inl ExplicitPanic)"
proof -
  obtain fuel c where run: "server_runs fuel ext_pushback_init grant clk n tn (Context_new req off len res) = Some (ExtComplete 0, tn, c)"
      "tx_records (c_tx c) = r # rs" "frame (c_response c) = frame res @ enc_u64 (ucast (r_object (last (r # rs)) ! 0))"
    using pushback_runs [OF assms(1,4,6,8,2,3), where grant = grant and clk = clk and n = n] by blast
  define mids l where ml: "mids = butlast (r # rs)" "l = last (r # rs)"
  have recs: "r # rs = mids @ [l]" "tl (mids @ [l]) = rs" unfolding ml by simp_all
  obtain ps' p where ps: "ps = ps' @ [p]" "answers q mids ps'" "answers q [l] [p]"
    using answers_snoc [of q mids l ps] assms(9) unfolding recs(1) by blast
  obtain h1 x nw1 gets where pre: "for_each (pc_on_packet chk now) ps' (k, h) =
        Inr (k\<lparr>pc_native_state := (pc_native_state k)(rs_stamp q \<mapsto> after_records mids)\<rparr>, h1)"
      "h_env h1 = (s\<lparr>s_requests_sent := x\<rparr>, nw1)" "accepting m (h_env h1)" "wire nw1 = wire nw @ gets"
      "list_all2 (\<lambda>r. asks_for s (rs_tenant q) (rs_stamp q) (r_key r)) rs gets"
    using native_gets [OF ps(2), of l "[]" num k h s nw m chk now] assms(4-6,10-15,18,19) assms(16,17) recs
    by (auto simp: after_records_Nil)
  let ?k1 = "k\<lparr>pc_native_state := (pc_native_state k)(rs_stamp q \<mapsto> after_records mids)\<rparr>" and ?s1 = "s\<lparr>s_requests_sent := x\<rparr>"
  obtain i net room where view: "view_at UdpHeader i (net @ enc_get_response q @ record_bytes l) room p"
      "end_at UdpHeader i (net @ enc_get_response q @ record_bytes l) = length net"
    using ps(3) by (auto simp: answers_def)
  obtain p' where last: "pc_on_packet chk now p (?k1, h1) =
      rbind (native_step num 30 139 (rpc_response_header.truncate q) (record_bytes l) (after_records mids) (?s1, nw1)) (\<lambda>(st, complete, env).
        Inr (?k1\<lparr>pc_native_state := (pc_native_state ?k1)(rs_stamp q \<mapsto> st),
               pc_outstanding := (if complete then pc_outstanding ?k1 - 1 else pc_outstanding ?k1)\<rparr>, free_packet p' (set_env h1 env)))"
    using native_packet [OF view assms(10,11), of ?k1 "after_records mids" chk now h1] assms(12-15) by (auto simp: pre(2))
  note step = native_last [OF assms(6) recs(1) assms(7,4,5), of m ?s1 nw1 "rpc_response_header.truncate q"]
  have q: "rs_tenant (rpc_response_header.truncate q) = rs_tenant q" "rs_stamp (rpc_response_header.truncate q) = rs_stamp q"
    by (simp_all add: rpc_response_header.truncate_def)
  have whole: "for_each (pc_on_packet chk now) ps (k, h) = pc_on_packet chk now p (?k1, h1)" by (simp add: ps(1) for_each_snoc pre(1))
  show ?thesis
  proof (cases "length (r # rs) \<le> 10")
    case True
    then obtain nw2 cmt where commit: "native_step num 30 139 (rpc_response_header.truncate q) (record_bytes l) (after_records mids) (?s1, nw1) =
          Inr (with_record mids l, True, ?s1\<lparr>s_requests_sent := s_requests_sent ?s1 + 1\<rparr>, nw2)" "wire nw2 = wire nw1 @ [cmt]"
        "asks_to_commit s (rs_tenant q) (rs_stamp q) (r # rs) cmt"
      using step pre(2,3) assms(19) by (auto simp: q asks_to_commit_def get_dst_port_def)
    let ?h2 = "free_packet p' (set_env h1 (?s1\<lparr>s_requests_sent := s_requests_sent ?s1 + 1\<rparr>, nw2))"
    have "\<exists>k'. for_each (pc_on_packet chk now) ps (k, h) = Inr (k', ?h2) \<and> pc_outstanding k' = pc_outstanding k - 1"
      unfolding whole last commit(1) by simp
    moreover have "wire (snd (h_env ?h2)) = wire nw @ gets @ [cmt]" unfolding accepting_free(2) using commit(2) pre(4) by simp
    ultimately have "\<exists>k' h' gets p. for_each (pc_on_packet chk now) ps (k, h) = Inr (k', h') \<and> pc_outstanding k' = pc_outstanding k - 1 \<and>
        wire (snd (h_env h')) = wire nw @ gets @ [p] \<and> list_all2 (\<lambda>r. asks_for s (rs_tenant q) (rs_stamp q) (r_key r)) rs gets \<and>
        asks_to_commit s (rs_tenant q) (rs_stamp q) (tx_records (c_tx c)) p"
      using commit(3) pre(5) unfolding run(2) by blast
    then show ?thesis unfolding if_P [OF True] using run by blast
  next
    case False
    then have "native_step num 30 139 (rpc_response_header.truncate q) (record_bytes l) (after_records mids) (?s1, nw1) = Inl ExplicitPanic"
      using step pre(2,3) assms(19) by simp
    then have "for_each (pc_on_packet chk now) ps (k, h) = Inl ExplicitPanic" unfolding whole last by simp
    then show ?thesis unfolding if_not_P [OF False] using run by blast
  qed
qed

text \<open>This client hands the record an extension asked for to the task that waits for it, which the Kayak client does not
  (\<open>Control.extension_read_ignored\<close>). The status is not checked: when the record does not exist, the task becomes ready without it.\<close>

lemma requested_record_resumes:
  assumes "view_at UdpHeader i (net @ enc_get_response q @ concat (map record_bytes rs)) room packet"
    and "end_at UdpHeader i (net @ enc_get_response q @ concat (map record_bytes rs)) = length net" and "rs_opcode q = SandstormGetRpc"
    and "\<not> pc_native k" and "tm_waiting (pc_manager k) (rs_stamp q) = Some task" and "pc_record_len k = 9 + pc_key_len k + vl"
    and "records_shaped (pc_key_len k) vl rs" and "\<forall>r \<in> set rs. known_op r"
  shows "\<exists>k' h'. pc_on_packet False now packet (k, h) = Inr (k', h') \<and> tm_waiting (pc_manager k') (rs_stamp q) = None \<and>
    tm_ready (pc_manager k') = tm_ready (pc_manager k) @ [task\<lparr>cc_db := fold add_record rs (cc_db task)\<rparr>]"
proof -
  have op: "parse_rpc_opcode packet = Inr SandstormGetRpc" using response_opcode [OF assms(1,2) enc_get_response_def] assms(3) by simp
  obtain p where p: "parse_header GetResponse packet = Inr p" "get_header p = Inr (enc_get_response q)"
      "get_payload p = Inr (concat (map record_bytes rs))"
    using response_packet [OF assms(1,2), of GetResponse] by (auto simp: hdr_offset_def)
  have hd: "response_header p = Inr (rpc_response_header.truncate q)" by (simp add: response_header_def p(2) enc_get_response_def)
  have q: "rs_stamp (rpc_response_header.truncate q) = rs_stamp q" by (simp add: rpc_response_header.truncate_def)
  show ?thesis
    using update_rwset_records [OF assms(5,7,8)] assms(4,6) by (simp add: pc_on_packet_def op pc_on_get_def p(1,3) hd q)
qed

section \<open>Witness\<close>

definition wit_pushback_client :: "(unit, unit) pushback_client" where
  "wit_pushback_client = (fst (pc_new 10 True wit_ycsbt_config 10 ExtensionManager_new 2 5000 wit_host))\<lparr>pc_native_state := [42 \<mapsto> PushbackState_new]\<rparr>"

lemma wit_pushback_client_fields:
  "pc_native wit_pushback_client" "pc_num wit_pushback_client = 2" "pc_key_len wit_pushback_client = 30" "pc_record_len wit_pushback_client = 139"
  "pc_native_state wit_pushback_client 42 = Some PushbackState_new" "pc_outstanding wit_pushback_client = 0"
  by (simp_all add: wit_pushback_client_def pc_new_def Let_def case_prod_beta wit_ycsbt_config_def wit_config_def client_config.defs)

abbreviation wit_get_answer :: "rec \<Rightarrow> packet" where
  "wit_get_answer r \<equiv> demo_packet UdpHeader (enc_udp UdpHeader_new @ enc_get_response (GetResponse_new 42 SandstormGetRpc 7) @ record_bytes r)"

lemma wit_get_answers:
  assumes "\<And>r. r \<in> set rs \<Longrightarrow> length (record_bytes r) = 139"
  shows "answers (GetResponse_new 42 SandstormGetRpc 7) rs (map wit_get_answer rs)"
proof -
  have "\<exists>i net room. view_at UdpHeader i (net @ enc_get_response (GetResponse_new 42 SandstormGetRpc 7) @ record_bytes r) room (wit_get_answer r) \<and>
      end_at UdpHeader i (net @ enc_get_response (GetResponse_new 42 SandstormGetRpc 7) @ record_bytes r) = length net" if "r \<in> set rs" for r
  proof (intro exI conjI)
    let ?fr = "enc_udp UdpHeader_new @ enc_get_response (GetResponse_new 42 SandstormGetRpc 7) @ record_bytes r"
    show "view_at UdpHeader 0 ?fr (1024 - length ?fr) (wit_get_answer r)"
      by (rule demo_packet_view) (simp_all add: hdr_offset_def enc_get_response_def assms [OF that])
    show "end_at UdpHeader 0 ?fr = length (enc_udp UdpHeader_new)" by (simp add: hdr_offset_def)
  qed
  then show ?thesis unfolding answers_def list_all2_map2 by (intro list.rel_refl_strong) blast
qed

theorem native_chain_equivalent_witness:
  "\<exists>t tn r s fuel c k' h' get p. test_objects (\<lambda>n. n) 7 1 9 Table_default = Inr t \<and> tn = put_table 1 t (Tenant_new 7) \<and>
    r = test_record tn 1 3 \<and> s = test_record tn 1 4 \<and>
    server_runs fuel ext_pushback_init (\<lambda>n. n) (\<lambda>_. 0) 0 tn (wit_invocation (enc_u64 1 @ enc_u32 2 @ enc_u32 5000 @ r_key r)) =
      Some (ExtComplete 0, tn, c) \<and>
    for_each (pc_on_packet False 100) [wit_get_answer r, wit_get_answer s] (wit_pushback_client, wit_host) = Inr (k', h') \<and>
    pc_outstanding k' = - 1 \<and> wire (snd (h_env h')) = [get, p] \<and> asks_for wit_sender 7 42 (r_key s) get \<and> asks_to_commit wit_sender 7 42 [r, s] p"
proof -
  obtain t where t: "test_objects (\<lambda>n. n) 7 1 9 Table_default = Inr t" "holds 7 1 t (test_data 9)"
    using test_objects_holds [of "\<lambda>n. n" 9 7 1] by auto
  define tn where "tn = put_table 1 t (Tenant_new 7)"
  define r s where rs: "r = test_record tn 1 3" "s = test_record tn 1 4"
  have tab: "get_table tn 1 = Some t" by (simp add: tn_def)
  have chain: "chain_from (test_record tn 1) 3 2 = [r, s]" by (simp add: numeral_2_eq_2 rs)
  have lk: "linked [r, s]" "distinct (map r_key [r, s])" "\<And>x. x \<in> set [r, s] \<Longrightarrow> stored tn 1 (r_key x) = Some (r_version x, r_object x)"
    using test_chain_linked [OF t(2) tab, of 3 2] unfolding chain by auto
  let ?args = "enc_u64 1 @ enc_u32 2 @ enc_u32 5000 @ r_key r" and ?q = "GetResponse_new 42 SandstormGetRpc 7"
  have "length ?args \<le> 100" using lk(1) by simp
  then have args: "Context_args (wit_invocation ?args) = Inr ?args" by (rule wit_invocation_args)
  have "view_at InvokeResponse 0 (enc_response (InvokeResponse_new 42 SandstormInvokeRpc 7)) 1010 wit_response"
    using demo_packet_view [of "enc_response (InvokeResponse_new 42 SandstormInvokeRpc 7)" InvokeResponse] by (simp add: wit_response_def hdr_offset_def)
  note view = view_atD [OF this]
  have wf: "wf_packet wit_response" "8 \<le> tailroom wit_response" using view(1,5) by simp_all
  have q: "rs_opcode ?q = SandstormGetRpc" "rs_status ?q = StatusOk" "rs_tenant ?q = 7" "rs_stamp ?q = 42"
    by (simp_all add: GetResponse_new_def RpcResponseHeader_new_def)
  have ans: "answers ?q [r, s] [wit_get_answer r, wit_get_answer s]"
    using wit_get_answers [of "[r, s]"] record_bytes_length [OF lk(1)] by simp
  have st: "pc_native_state wit_pushback_client (rs_stamp ?q) = Some PushbackState_new" by (simp add: q wit_pushback_client_fields)
  have acc: "accepting 1024 (wit_sender, (wit_network demo_mbuf)\<lparr>net_rx := \<lambda>_. Some []\<rparr>)" using wit_accepting [of 1024] by (simp add: wit_host_env)
  note chained = native_chain_equivalent [OF args [unfolded wit_invocation_def] wf _ _ lk ans q(1,2) wit_pushback_client_fields(1-4) st wit_host_env acc,
      of "\<lambda>n. n" "\<lambda>_. 0" 0 False 100]
  obtain fuel c k' h' gets p where all:
      "server_runs fuel ext_pushback_init (\<lambda>n. n) (\<lambda>_. 0) 0 tn (wit_invocation ?args) = Some (ExtComplete 0, tn, c)" "tx_records (c_tx c) = [r, s]"
      "for_each (pc_on_packet False 100) [wit_get_answer r, wit_get_answer s] (wit_pushback_client, wit_host) = Inr (k', h')"
      "pc_outstanding k' = - 1" "wire (snd (h_env h')) = gets @ [p]" "list_all2 (\<lambda>r. asks_for wit_sender 7 42 (r_key r)) [s] gets"
      "asks_to_commit wit_sender 7 42 (tx_records (c_tx c)) p"
    using chained unfolding wit_invocation_def [symmetric] q(3,4) by (auto simp: wit_pushback_client_fields wit_network_wire simp del: for_each.simps)
  obtain get where "gets = [get]" "asks_for wit_sender 7 42 (r_key s) get" using all(6) by (auto simp: list_all2_Cons1)
  then have "wire (snd (h_env h')) = [get, p]" "asks_to_commit wit_sender 7 42 [r, s] p" "asks_for wit_sender 7 42 (r_key s) get"
    using all(2,5,7) by simp_all
  then show ?thesis using all(1,3,4) t(1) tn_def rs by blast
qed

end
