(* ===== verification/YcsbClient.thy ===== *)
theory YcsbClient
  imports Loads
begin

text \<open>
  The two clients of the YCSB benchmark: \<open>splinter/src/bin/client/ycsb.rs\<close>, an open loop in which a sender paces its requests and a receiver on
  another core takes the responses, and \<open>splinter/src/bin/client/ycsb-abce.rs\<close>, a closed loop with at most 32 outstanding requests that can also
  issue range scans. Requests are native gets and puts or invocations of the extensions \<open>get\<close>, \<open>put\<close> and \<open>scan\<close>. The workload is that of the Kayak
  client without the order.

  The frequency of the clock, \<open>cycles::cycles_per_second\<close>, is a parameter.
\<close>

section \<open>Issuing requests\<close>

record ycsb_config = ycsbt_config +
  cf_req_rate :: usize
  cf_enable_scan :: bool
  cf_scan_range :: u32

text \<open>What both senders keep.\<close>

record ycsb_load =
  yl_workload :: workload
  yl_requests :: u64
  yl_sent :: u64
  yl_native :: bool
  yl_payload_get :: byte_string
  yl_payload_put :: byte_string

definition get_name :: byte_string where
  "get_name = map of_char ''get''"

definition put_name :: byte_string where
  "put_name = map of_char ''put''"

definition scan_name :: byte_string where
  "scan_name = map of_char ''scan''"

definition yl_new :: "'z ycsb_config_scheme \<Rightarrow> u64 \<Rightarrow> ycsb_load" where
  "yl_new cf reqs =
     \<lparr>yl_workload = Pushback_new (cf_key_len cf) (cf_value_len cf) (cf_put_pct cf), yl_requests = reqs, yl_sent = 0,
      yl_native = (\<not> cf_use_invoke cf),
      yl_payload_get = resize (3 + 8 + cf_key_len cf) (get_name @ enc_u64 1),
      yl_payload_put = resize (3 + 8 + 2 + cf_key_len cf + cf_value_len cf)
        (put_name @ enc_u64 1 @ enc_u16 (word_of_nat (cf_key_len cf)))\<rparr>"

definition yl_invoke_get ::
    "u64 \<Rightarrow> u32 \<Rightarrow> byte_string \<Rightarrow> 'z ycsb_load_scheme \<Rightarrow> host \<Rightarrow> ('z ycsb_load_scheme \<times> host) rust" where
  "yl_invoke_get now tenant key4 k h =
     rbind (copy_from_slice_at 11 15 key4 (yl_payload_get k)) (\<lambda>p_get.
     rbind (send_invoke tenant 3 p_get now (h_env h)) (\<lambda>env. Inr (k\<lparr>yl_payload_get := p_get\<rparr>, set_env h env)))"

definition yl_invoke_put ::
    "u64 \<Rightarrow> u32 \<Rightarrow> byte_string \<Rightarrow> 'z ycsb_load_scheme \<Rightarrow> host \<Rightarrow> ('z ycsb_load_scheme \<times> host) rust" where
  "yl_invoke_put now tenant key4 k h =
     rbind (copy_from_slice_at 13 17 key4 (yl_payload_put k)) (\<lambda>p_put.
     rbind (send_invoke tenant 3 p_put now (h_env h)) (\<lambda>env. Inr (k\<lparr>yl_payload_put := p_put\<rparr>, set_env h env)))"

definition yl_native_request ::
    "u64 \<Rightarrow> bool \<Rightarrow> u32 \<Rightarrow> byte_string \<Rightarrow> byte_string \<Rightarrow> 'z ycsb_load_scheme \<Rightarrow> host \<Rightarrow> ('z ycsb_load_scheme \<times> host) rust" where
  "yl_native_request now is_get tenant key val k h =
     rbind (if is_get then send_get tenant 1 key now (h_env h) else send_put tenant 1 key val now (h_env h)) (\<lambda>env. Inr (k, set_env h env))"

text \<open>One request; \<open>on_get\<close> is what the callback for gets does when requests are invocations.\<close>

definition yl_issue ::
    "(u32 \<Rightarrow> byte_string \<Rightarrow> 'z ycsb_load_scheme \<Rightarrow> host \<Rightarrow> ('z ycsb_load_scheme \<times> host) rust) \<Rightarrow> u64 \<Rightarrow> 'z ycsb_load_scheme \<Rightarrow> host \<Rightarrow>
     ('z ycsb_load_scheme \<times> host) rust" where
  "yl_issue on_get now k h =
     (let (d, h) = next_draw h
      in rbind (abc d (yl_workload k)) (\<lambda>(w, is_get, tenant, key, val).
         let k = k\<lparr>yl_workload := w\<rparr>
         in if yl_native k then yl_native_request now is_get tenant key val k h
            else rbind (slice_range key 0 4) (\<lambda>key4.
                 if is_get then on_get tenant key4 k h else yl_invoke_put now tenant key4 k h)))"

section \<open>The open loop: sender\<close>

record ycsb_send = ycsb_load +
  ys_rate_inv :: u64
  ys_start :: u64
  ys_next :: u64

definition YcsbSend_new :: "u64 \<Rightarrow> ycsb_config \<Rightarrow> u64 \<Rightarrow> host \<Rightarrow> (ycsb_send \<times> host) rust" where
  "YcsbSend_new cycles_per_second cf reqs h =
     (if (word_of_nat (cf_req_rate cf) :: u64) = 0 then Inl DivisionByZero
      else let (start, h) = read_tsc h
           in Inr (ycsb_load.extend (yl_new cf reqs)
                \<lparr>ys_rate_inv = cycles_per_second div word_of_nat (cf_req_rate cf), ys_start = start, ys_next = 0\<rparr>, h))"

definition ys_execute :: "ycsb_send \<Rightarrow> host \<Rightarrow> (ycsb_send \<times> host \<times> bool) rust" where
  "ys_execute k h =
     (if yl_requests k \<le> yl_sent k then Inr (k, h, False)
      else let (now, h) = read_tsc h
           in if ys_next k \<le> now \<or> ys_next k = 0
              then rbind (yl_issue (yl_invoke_get now) now k h) (\<lambda>(k, h).
                   let k = k\<lparr>yl_sent := yl_sent k + 1\<rparr>
                   in Inr (k\<lparr>ys_next := ys_start k + yl_sent k * ys_rate_inv k\<rparr>, h, False))
              else Inr (k, h, False))"

section \<open>The open loop: receiver\<close>

record ycsb_recv =
  yr_responses_recv :: u64
  yr_responses :: u64
  yr_start :: u64
  yr_recvd :: u64
  yr_latencies :: "u64 list"
  yr_master :: bool
  yr_native :: bool
  yr_stop :: u64

definition YcsbRecv_new :: "u64 \<Rightarrow> bool \<Rightarrow> bool \<Rightarrow> host \<Rightarrow> ycsb_recv \<times> host" where
  "YcsbRecv_new resps master native h =
     (let (start, h) = read_tsc h
      in (\<lparr>yr_responses_recv = 0, yr_responses = resps, yr_start = start, yr_recvd = 0, yr_latencies = [], yr_master = master,
           yr_native = native, yr_stop = 0\<rparr>, h))"

text \<open>The latency of a response that is parsed with the header \<open>ty\<close>, and the host after it is freed.\<close>

definition timed :: "hdr_type \<Rightarrow> u64 \<Rightarrow> packet \<Rightarrow> host \<Rightarrow> (u64 \<times> host) rust" where
  "timed ty now packet h =
     rbind (parse_header ty packet) (\<lambda>p. rbind (response_header p) (\<lambda>hdr. Inr (now - rs_stamp hdr, free_packet p h)))"

text \<open>Latencies are measured by the master, after the first two million responses.\<close>

definition yr_on_packet :: "packet \<Rightarrow> ycsb_recv \<times> host \<Rightarrow> (ycsb_recv \<times> host) rust" where
  "yr_on_packet packet kh =
     (let (k, h) = kh; k = k\<lparr>yr_recvd := yr_recvd k + 1\<rparr>
      in if 2000000 < yr_recvd k \<and> yr_master k
         then let (now, h) = read_tsc h
              in rbind (if yr_native k then rbind (parse_rpc_opcode packet) (\<lambda>c. Inr
                          (if c = SandstormGetRpc then Some GetResponse else if c = SandstormPutRpc then Some PutResponse else None))
                        else Inr (Some InvokeResponse)) (\<lambda>ty.
                 case ty of
                   None \<Rightarrow> Inr (k, free_packet packet h)
                 | Some ty \<Rightarrow> rbind (timed ty now packet h) (\<lambda>(l, h). Inr (k\<lparr>yr_latencies := yr_latencies k @ [l]\<rparr>, h)))
         else Inr (k, free_packet packet h))"

definition yr_execute :: "ycsb_recv \<Rightarrow> host \<Rightarrow> (ycsb_recv \<times> host) rust" where
  "yr_execute k h =
     (if yr_responses k \<le> yr_recvd k then Inr (k, h)
      else rbind (poll_port (yr_responses_recv k) h) (\<lambda>(packets, n, h).
           rbind (for_each yr_on_packet (case packets of None \<Rightarrow> [] | Some ps \<Rightarrow> ps) (k\<lparr>yr_responses_recv := n\<rparr>, h)) (\<lambda>(k, h).
             if yr_responses k \<le> yr_recvd k
             then let (now, h) = read_tsc h in Inr (k\<lparr>yr_stop := now\<rparr>, h)
             else Inr (k, h))))"

text \<open>What is printed, but for the throughput.\<close>

definition yr_drop :: "ycsb_recv \<Rightarrow> (u64 \<times> u64) option rust" where
  "yr_drop k = (if yr_master k then rbind (latency_figures (yr_latencies k)) (\<lambda>mt. Inr (Some mt)) else Inr None)"

section \<open>The closed loop\<close>

record ycsb_abce = ycsb_load +
  ye_responses_recv :: u64
  ye_responses :: u64
  ye_start :: u64
  ye_recvd :: u64
  ye_latencies :: "u64 list"
  ye_master :: bool
  ye_stop :: u64
  ye_payload_scan :: byte_string
  ye_enable_scan :: bool
  ye_finished :: bool
  ye_outstanding :: u64

definition YcsbABCE_new :: "u64 \<Rightarrow> bool \<Rightarrow> ycsb_config \<Rightarrow> u64 \<Rightarrow> host \<Rightarrow> ycsb_abce \<times> host" where
  "YcsbABCE_new resps master cf reqs h =
     (let (start, h) = read_tsc h
      in (ycsb_load.extend (yl_new cf reqs)
           \<lparr>ye_responses_recv = 0, ye_responses = resps, ye_start = start, ye_recvd = 0, ye_latencies = [], ye_master = master, ye_stop = 0,
            ye_payload_scan = resize (4 + 8 + 4 + cf_key_len cf) (scan_name @ enc_u64 1 @ enc_u32 (cf_scan_range cf)),
            ye_enable_scan = cf_enable_scan cf, ye_finished = False, ye_outstanding = 0\<rparr>, h))"

definition ye_invoke_get :: "u64 \<Rightarrow> u32 \<Rightarrow> byte_string \<Rightarrow> ycsb_abce \<Rightarrow> host \<Rightarrow> (ycsb_abce \<times> host) rust" where
  "ye_invoke_get now tenant key4 k h =
     (if \<not> ye_enable_scan k then yl_invoke_get now tenant key4 k h
      else rbind (copy_from_slice_at 16 20 key4 (ye_payload_scan k)) (\<lambda>p_scan.
           rbind (send_invoke tenant 4 p_scan now (h_env h)) (\<lambda>env. Inr (k\<lparr>ye_payload_scan := p_scan\<rparr>, set_env h env))))"

definition ye_may_send :: "ycsb_abce \<times> host \<Rightarrow> bool" where
  "ye_may_send kh \<longleftrightarrow> ye_outstanding (fst kh) < 32"

definition ye_send_one :: "ycsb_abce \<times> host \<Rightarrow> (ycsb_abce \<times> host) rust" where
  "ye_send_one kh =
     (let (k, h) = kh; (now, h) = read_tsc h
      in rbind (yl_issue (ye_invoke_get now) now k h) (\<lambda>(k, h).
         Inr (k\<lparr>ye_outstanding := ye_outstanding k + 1, yl_sent := yl_sent k + 1\<rparr>, h)))"

definition ye_send :: "ycsb_abce \<Rightarrow> host \<Rightarrow> (ycsb_abce \<times> host) rust" where
  "ye_send k h =
     (if yl_requests k \<le> yl_sent k then Inr (k, h)
      else window_loop (32 - unat (ye_outstanding k)) ye_may_send ye_send_one (k, h))"

text \<open>Native scans are not implemented: the response to a get is neither measured nor freed then.\<close>

definition ye_on_packet :: "packet \<Rightarrow> ycsb_abce \<times> host \<Rightarrow> (ycsb_abce \<times> host) rust" where
  "ye_on_packet packet kh =
     (let (k, h) = kh; k = k\<lparr>ye_recvd := ye_recvd k + 1\<rparr>; (now, h) = read_tsc h;
          count = (\<lambda>ty. rbind (timed ty now packet h) (\<lambda>(l, h).
            Inr (k\<lparr>ye_latencies := ye_latencies k @ [l], ye_outstanding := ye_outstanding k - 1\<rparr>, h)))
      in if \<not> yl_native k then count InvokeResponse
         else rbind (parse_rpc_opcode packet) (\<lambda>c.
                if c = SandstormGetRpc
                then if \<not> ye_enable_scan k then count GetResponse else Inr (k\<lparr>ye_outstanding := ye_outstanding k - 1\<rparr>, h)
                else if c = SandstormPutRpc then count PutResponse
                else Inr (k, free_packet packet h)))"

definition ye_recv :: "ycsb_abce \<Rightarrow> host \<Rightarrow> (ycsb_abce \<times> host) rust" where
  "ye_recv k h =
     (if ye_responses k \<le> ye_recvd k then Inr (k\<lparr>ye_finished := True\<rparr>, h)
      else rbind (poll_port (ye_responses_recv k) h) (\<lambda>(packets, n, h).
           rbind (for_each ye_on_packet (case packets of None \<Rightarrow> [] | Some ps \<Rightarrow> ps) (k\<lparr>ye_responses_recv := n\<rparr>, h)) (\<lambda>(k, h).
             if ye_responses k \<le> ye_recvd k
             then let (now, h) = read_tsc h in Inr (k\<lparr>ye_stop := now\<rparr>, h)
             else Inr (k, h))))"

text \<open>The last component is the flag \<open>FINISHED\<close>, when it is set.\<close>

definition ye_execute :: "ycsb_abce \<Rightarrow> host \<Rightarrow> (ycsb_abce \<times> host \<times> bool) rust" where
  "ye_execute k h = rbind (ye_send k h) (\<lambda>(k, h). rbind (ye_recv k h) (\<lambda>(k, h). Inr (k, h, ye_finished k)))"

definition ye_drop :: "ycsb_abce \<Rightarrow> (u64 \<times> u64) option rust" where
  "ye_drop k =
     (if ye_stop k = 0 then Inl ExplicitPanic
      else if ye_master k then rbind (latency_figures (ye_latencies k)) (\<lambda>mt. Inr (Some mt)) else Inr None)"

section \<open>What issuing a request keeps\<close>

lemma yl_issue_frame:
  assumes "yl_issue on_get now k h = Inr (k', h')" and "\<And>w tenant key4 h k' h'. on_get tenant key4 (k\<lparr>yl_workload := w\<rparr>) h = Inr (k', h') \<Longrightarrow> P k'"
    and "\<And>w. P (k\<lparr>yl_workload := w\<rparr>)" and "\<And>w p. P (k\<lparr>yl_workload := w, yl_payload_put := p\<rparr>)"
  shows "P k'"
  using assms(1) by (auto simp: yl_issue_def yl_native_request_def yl_invoke_put_def Let_def case_prod_beta split: if_splits intro: assms(2-4))

lemma ye_send_one_outstanding: "ye_send_one kh = Inr kh' \<Longrightarrow> ye_outstanding (fst kh') = ye_outstanding (fst kh) + 1"
proof -
  assume "ye_send_one kh = Inr kh'"
  then obtain now h k1 h1 where one: "yl_issue (ye_invoke_get now) now (fst kh) h = Inr (k1, h1)" and out: "ye_outstanding (fst kh') = ye_outstanding k1 + 1"
    by (auto simp: ye_send_one_def Let_def case_prod_beta)
  from one have "ye_outstanding k1 = ye_outstanding (fst kh)"
    by (rule yl_issue_frame) (auto simp: ye_invoke_get_def yl_invoke_get_def split: if_splits)
  then show ?thesis using out by simp
qed

interpretation ye_window: window 32 "\<lambda>kh. ye_outstanding (fst kh)" ye_may_send ye_send_one
  by unfold_locales (simp_all add: ye_may_send_def word_less_nat_alt ye_send_one_outstanding)

end
