(* ===== verification/OpenLoop.thy ===== *)
theory OpenLoop
  imports Loads
begin

text \<open>
  Open loops: senders that are run over and over and send a request whenever its time has come, at \<open>start + sent * rate_inv\<close>. The locale \<open>open_loop\<close> states what a turn may do; that the
  configured rate is kept follows from it, and it is interpreted on every sender of this kind.
\<close>

section \<open>The contract of a turn\<close>

locale open_loop =
  fixes requests sent start rate due :: "'k \<Rightarrow> u64" and execute :: "'k \<Rightarrow> host \<Rightarrow> ('k \<times> host \<times> bool) rust"
  assumes turn: "execute k h = Inr (k', h', fin) \<Longrightarrow>
      h_clock h' = h_clock h \<and> start k' = start k \<and> rate k' = rate k \<and> requests k' = requests k \<and>
      (sent k' = sent k \<and> due k' = due k \<and> h_ticks h \<le> h_ticks h' \<or>
       sent k < requests k \<and> (due k \<le> h_clock h (h_ticks h) \<or> due k = 0) \<and>
       sent k' = sent k + 1 \<and> due k' = start k + (sent k + 1) * rate k \<and> h_ticks h < h_ticks h')"
begin

text \<open>The state between turns. While nothing has been sent, \<open>due\<close> is 0; afterwards it is the time of the next request.\<close>

definition paced :: "'k \<Rightarrow> bool" where
  "paced k \<longleftrightarrow> sent k \<le> requests k \<and> unat (start k) + unat (requests k) * unat (rate k) < 2 ^ 64 \<and>
     due k = (if sent k = 0 then 0 else start k + sent k * rate k)"

lemma paced_due:
  assumes "paced k"
  shows "unat (start k + sent k * rate k) = unat (start k) + unat (sent k) * unat (rate k)"
proof -
  have le: "unat (sent k) * unat (rate k) \<le> unat (requests k) * unat (rate k)"
    using assms by (simp add: paced_def word_le_nat_alt)
  then have lt: "unat (start k) + unat (sent k) * unat (rate k) < 2 ^ 64" using assms unfolding paced_def by linarith
  then have "unat (sent k * rate k) = unat (sent k) * unat (rate k)" by (simp add: unat_word_ariths)
  then show ?thesis using lt by (simp add: unat_word_ariths)
qed

text \<open>A turn sends nothing, or one request; the latter only if its time has come.\<close>

lemma turn_paced:
  assumes "execute k h = Inr (k', h', fin)" and "paced k"
  shows "paced k' \<and> (sent k' = sent k \<or> unat (sent k') = unat (sent k) + 1 \<and> h_ticks h < h_ticks h' \<and>
     (sent k = 0 \<or> unat (start k) + unat (sent k) * unat (rate k) \<le> unat (h_clock h (h_ticks h))))"
proof -
  note t = turn [OF assms(1)]
  show ?thesis
  proof (cases "sent k' = sent k \<and> due k' = due k")
    case True
    then show ?thesis using t assms(2) by (simp add: paced_def)
  next
    case False
    let ?now = "h_clock h (h_ticks h)"
    have one: "sent k < requests k" "due k \<le> ?now \<or> due k = 0" "sent k' = sent k + 1" "due k' = start k + (sent k + 1) * rate k" "h_ticks h < h_ticks h'"
      using t False by blast+
    have lt: "unat (sent k) < unat (requests k)" using one(1) by (simp add: word_less_nat_alt)
    then have "unat (sent k) + 1 < 2 ^ 64" using unsigned_less [of "requests k", where 'a = nat] by simp
    then have suc: "unat (sent k + 1) = unat (sent k) + 1" by (simp add: unat_word_ariths)
    have "sent k + 1 \<noteq> 0" using suc by (metis add_is_0 unsigned_0 zero_neq_one)
    moreover have "sent k + 1 \<le> requests k" using lt suc by (simp add: word_le_nat_alt)
    ultimately have "paced k'" using assms(2) t one(3,4) by (simp add: paced_def)
    moreover have "sent k = 0 \<or> unat (start k) + unat (sent k) * unat (rate k) \<le> unat ?now"
    proof (rule disjCI)
      assume "\<not> unat (start k) + unat (sent k) * unat (rate k) \<le> unat ?now"
      then have "\<not> start k + sent k * rate k \<le> ?now" using paced_due [OF assms(2)] by (simp add: word_le_nat_alt)
      moreover from this have "start k + sent k * rate k \<noteq> 0" by auto
      ultimately show "sent k = 0" using one(2) assms(2) by (auto simp: paced_def split: if_splits)
    qed
    ultimately show ?thesis using suc one(3,5) by simp
  qed
qed

lemma turn_clock: "execute k h = Inr (k', h', fin) \<Longrightarrow> h_clock h' = h_clock h \<and> h_ticks h \<le> h_ticks h'"
  by (drule turn) auto

lemma turns_clock: "turns execute n (k, h) = Inr (k', h') \<Longrightarrow> h_clock h' = h_clock h \<and> h_ticks h \<le> h_ticks h'"
  by (induction n arbitrary: k h) (fastforce dest!: turn_clock)+

text \<open>Over any number of turns: the last request that was sent was due by the time \<open>now\<close>.\<close>

definition on_pace :: "nat \<Rightarrow> 'k \<Rightarrow> bool" where
  "on_pace now k \<longleftrightarrow> paced k \<and> unat (start k) + (unat (sent k) - 1) * unat (rate k) \<le> now"

lemma turns_on_pace:
  assumes "turns execute n (k, h) = Inr (k', h')" and "on_pace now k" and "\<forall>i < h_ticks h'. unat (h_clock h i) \<le> now"
  shows "on_pace now k' \<and> start k' = start k \<and> rate k' = rate k \<and> requests k' = requests k"
  using assms
proof (induction n arbitrary: k h)
  case (Suc n)
  obtain k1 h1 fin where one: "execute k h = Inr (k1, h1, fin)" "turns execute n (k1, h1) = Inr (k', h')"
    using Suc.prems(1) by auto
  note clock = turn_clock [OF one(1)] turns_clock [OF one(2)]
  have step: "paced k1" "start k1 = start k" "rate k1 = rate k" "requests k1 = requests k"
    "sent k1 = sent k \<or> unat (sent k1) = unat (sent k) + 1 \<and> h_ticks h < h_ticks h1 \<and>
      (sent k = 0 \<or> unat (start k) + unat (sent k) * unat (rate k) \<le> unat (h_clock h (h_ticks h)))"
    using turn_paced [OF one(1)] turn [OF one(1)] Suc.prems(2) by (auto simp: on_pace_def)
  have "unat (start k) + (unat (sent k1) - 1) * unat (rate k) \<le> now"
  proof (cases "sent k1 = sent k")
    case True
    then show ?thesis using Suc.prems(2) by (simp add: on_pace_def)
  next
    case False
    then have "h_ticks h < h_ticks h'" using clock step(5) by (auto intro: less_le_trans)
    then have "unat (h_clock h (h_ticks h)) \<le> now" using Suc.prems(3) by blast
    then show ?thesis using step(5) False Suc.prems(2) by (auto simp: on_pace_def)
  qed
  then have "on_pace now k1" using step(1-3) by (simp add: on_pace_def)
  moreover have "\<forall>i < h_ticks h'. unat (h_clock h1 i) \<le> now" using Suc.prems(3) clock(1) by simp
  ultimately show ?case using Suc.IH [OF one(2)] step(2-4) by simp
qed simp

text \<open>A sender that starts at the time the clock showed last keeps its rate.\<close>

lemma rate_bounded:
  assumes "turns execute n (k, h) = Inr (k', h')" and "sent k = 0" and "due k = 0" and "i < h_ticks h" and "start k = h_clock h i"
    and "unat (start k) + unat (requests k) * unat (rate k) < 2 ^ 64" and "\<forall>i < h_ticks h'. unat (h_clock h i) \<le> now"
  shows "sent k' \<le> requests k \<and> (unat (sent k') - 1) * unat (rate k) \<le> now - unat (start k)"
proof -
  have "unat (start k) \<le> now" using turns_clock [OF assms(1)] assms(4,5,7) by simp
  then have "on_pace now k" using assms(2,3,6) by (simp add: on_pace_def paced_def)
  from turns_on_pace [OF assms(1) this assms(7)] show ?thesis by (auto simp: on_pace_def paced_def)
qed

end

end
