(* ===== verification/YcsbRuns.thy ===== *)
theory YcsbRuns
  imports YcsbClient OpenLoop
begin

text \<open>
  What the YCSB clients do over many turns: the open loop keeps its rate.
\<close>

section \<open>The open loop\<close>

lemma ys_issue_keeps:
  assumes "yl_issue (yl_invoke_get now) now k h = Inr (k', h')"
  shows "yl_sent k' = yl_sent k \<and> yl_requests k' = yl_requests k \<and> ys_start k' = ys_start k \<and> ys_rate_inv k' = ys_rate_inv k \<and> ys_next k' = ys_next (k :: ycsb_send)"
  using assms by (rule yl_issue_frame) (auto simp: yl_invoke_get_def)

lemma ys_issue_clock:
  fixes k k' :: ycsb_send
  assumes "yl_issue (yl_invoke_get now) now k h = Inr (k', h')"
  shows "h_clock h' = h_clock h \<and> h_ticks h' = h_ticks h"
  using assms
  by (auto simp: yl_issue_def yl_native_request_def yl_invoke_put_def yl_invoke_get_def next_draw_def set_env_def Let_def case_prod_beta split: if_splits)

interpretation ys_loop: open_loop yl_requests yl_sent ys_start ys_rate_inv ys_next ys_execute
proof
  fix k h k' h' fin
  assume run: "ys_execute k h = Inr (k', h', fin)"
  let ?now = "h_clock h (h_ticks h)" and ?h = "h\<lparr>h_ticks := h_ticks h + 1\<rparr>"
  show "h_clock h' = h_clock h \<and> ys_start k' = ys_start k \<and> ys_rate_inv k' = ys_rate_inv k \<and> yl_requests k' = yl_requests k \<and>
      (yl_sent k' = yl_sent k \<and> ys_next k' = ys_next k \<and> h_ticks h \<le> h_ticks h' \<or>
       yl_sent k < yl_requests k \<and> (ys_next k \<le> ?now \<or> ys_next k = 0) \<and> yl_sent k' = yl_sent k + 1 \<and>
       ys_next k' = ys_start k + (yl_sent k + 1) * ys_rate_inv k \<and> h_ticks h < h_ticks h')"
  proof (cases "yl_sent k < yl_requests k \<and> (ys_next k \<le> ?now \<or> ys_next k = 0)")
    case True
    then have "\<not> yl_requests k \<le> yl_sent k" by (simp add: linorder_not_le)
    then obtain k1 h1 where one: "yl_issue (yl_invoke_get ?now) ?now k ?h = Inr (k1, h1)"
        "k' = k1\<lparr>yl_sent := yl_sent k1 + 1, ys_next := ys_start k1 + (yl_sent k1 + 1) * ys_rate_inv k1\<rparr>" "h' = h1"
      using run conjunct2 [OF True] by (auto simp: ys_execute_def Let_def read_tsc_def)
    then show ?thesis using True ys_issue_keeps [OF one(1)] ys_issue_clock [OF one(1)] by simp
  next
    case False
    then show ?thesis using run by (auto simp: ys_execute_def Let_def read_tsc_def not_le split: if_splits)
  qed
qed

section \<open>Properties\<close>

text \<open>C28: the open loop keeps its rate. However often the sender of \<open>ycsb.rs\<close> is run, and whatever the clock shows, it never sends more than the number of requests it was
  asked for, and when \<open>now\<close> is the latest time it has seen, it has sent at most one request per interval of \<open>cycles_per_second / req_rate\<close> cycles since it was created,
  and the first one.\<close>

theorem ycsb_rate_bounded:
  assumes "YcsbSend_new cps cf reqs h = Inr (k, h0)" and "turns ys_execute n (k, h0) = Inr (k', h')"
    and "unat (h_clock h (h_ticks h)) + unat reqs * unat (cps div word_of_nat (cf_req_rate cf)) < 2 ^ 64"
    and "\<forall>i < h_ticks h'. unat (h_clock h i) \<le> now"
  shows "yl_sent k' \<le> reqs \<and>
    (unat (yl_sent k') - 1) * unat (cps div word_of_nat (cf_req_rate cf)) \<le> now - unat (h_clock h (h_ticks h))"
proof -
  have k: "yl_sent k = 0" "yl_requests k = reqs" "ys_start k = h_clock h (h_ticks h)" "ys_rate_inv k = cps div word_of_nat (cf_req_rate cf)" "ys_next k = 0"
      "h_clock h0 = h_clock h" "h_ticks h < h_ticks h0"
    using assms(1) by (auto simp: YcsbSend_new_def Let_def read_tsc_def yl_new_def ycsb_load.defs split: if_splits)
  show ?thesis
    using ys_loop.rate_bounded [OF assms(2) k(1,5,7), of now] assms(3,4) unfolding k by simp
qed

section \<open>Witness\<close>

definition wit_ycsb_config :: ycsb_config where
  "wit_ycsb_config = ycsbt_config.extend (wit_ycsbt_config\<lparr>cf_put_pct := 0\<rparr>) \<lparr>cf_req_rate = 1000, cf_enable_scan = False, cf_scan_range = 4\<rparr>"

lemma wit_ycsb_fields:
  "cf_key_len wit_ycsb_config = 30" "cf_value_len wit_ycsb_config = 100" "cf_put_pct wit_ycsb_config = 0" "\<not> cf_use_invoke wit_ycsb_config"
  "cf_req_rate wit_ycsb_config = 1000"
  by (simp_all add: wit_ycsb_config_def wit_ycsbt_config_def wit_config_def client_config.defs ycsbt_config.defs)

theorem ycsb_rate_bounded_witness:
  "\<exists>k h0 k' h'. YcsbSend_new 2400000000 wit_ycsb_config 10 wit_host = Inr (k, h0) \<and> turns ys_execute 2 (k, h0) = Inr (k', h') \<and> h_ticks h' = 3 \<and>
    yl_sent k' = 1 \<and> yl_sent k' \<le> 10 \<and> (unat (yl_sent k') - 1) * unat (2400000 :: u64) \<le> 2 - unat (0 :: u64)"
proof -
  define k where "k = ycsb_load.extend (yl_new wit_ycsb_config 10) \<lparr>ys_rate_inv = 2400000, ys_start = 0, ys_next = 0\<rparr>"
  define h where "h = wit_host\<lparr>h_ticks := 1\<rparr>"
  have k: "yl_sent k = 0" "yl_requests k = 10" "ys_next k = 0" "ys_start k = 0" "ys_rate_inv k = 2400000" "yl_native k"
      "yl_workload k = Pushback_new 30 100 0"
    by (simp_all add: k_def yl_new_def ycsb_load.defs wit_ycsb_fields)
  have h: "h_clock h = word_of_nat" "h_ticks h = 1" "h_env h = h_env wit_host" "h_draws h (h_drawn h) = \<lparr>dr_coin = 0, dr_put = 0, dr_tenant = 1, dr_key = 1, dr_order = 0\<rparr>"
    by (simp_all add: h_def wit_host_def)
  have new: "YcsbSend_new 2400000000 wit_ycsb_config 10 wit_host = Inr (k, h)"
    by (simp add: YcsbSend_new_def wit_ycsb_fields read_tsc_def wit_host_def k_def h_def)
  obtain env where env: "send_get 1 1 (stamped 26 1) 1 (h_env wit_host) = Inr env"
    using send_get_accepted [OF wit_accepting [of 1024], of "stamped 26 1" 1 1 1] by auto
  let ?k1 = "k\<lparr>yl_workload := (Pushback_new 30 100 0)\<lparr>wl_key_buf := stamped 26 1\<rparr>, yl_sent := 1, ys_next := 2400000\<rparr>"
  let ?h1 = "h\<lparr>h_ticks := 1 + 1, h_drawn := h_drawn h + 1, h_env := env\<rparr>"
  have first: "ys_execute k h = Inr (?k1, ?h1, False)"
    using env by (simp add: ys_execute_def read_tsc_def k h yl_issue_def next_draw_def Pushback_new_def abc_def copy_zeros yl_native_request_def set_env_def
        del: rbind_eq_Inr)
  have "\<not> (10 :: u64) \<le> 1" by (simp add: word_le_nat_alt)
  then have second: "ys_execute ?k1 ?h1 = Inr (?k1, ?h1\<lparr>h_ticks := 3\<rparr>, False)"
    by (simp add: ys_execute_def read_tsc_def k h numeral_3_eq_3)
  have two: "turns ys_execute 2 kh = turns ys_execute (Suc (Suc 0)) kh" for kh by (simp add: numeral_2_eq_2)
  have run: "turns ys_execute 2 (k, h) = Inr (?k1, ?h1\<lparr>h_ticks := 3\<rparr>)" unfolding two turns.simps Let_def prod.case first rbind_Inr second by simp
  have clock: "\<forall>i < h_ticks (?h1\<lparr>h_ticks := 3\<rparr>). unat (h_clock wit_host i) \<le> 2" by (simp add: wit_host_def)
  have "yl_sent ?k1 = 1 \<and> yl_sent ?k1 \<le> 10 \<and> (unat (yl_sent ?k1) - 1) * unat (2400000 :: u64) \<le> 2 - unat (0 :: u64)"
    using ycsb_rate_bounded [OF new run _ clock] by (simp add: wit_ycsb_fields wit_host_def)
  moreover have "h_ticks (?h1\<lparr>h_ticks := 3\<rparr>) = 3" by simp
  ultimately show ?thesis using new run by blast
qed

end
