(* ===== verification/AuthClient.thy ===== *)
theory AuthClient
  imports Loads
begin

text \<open>
  The client of the authentication benchmark, \<open>splinter/src/bin/client/auth.rs\<close>. It asks for users natively and hashes their passwords itself, or invokes the
  extension \<open>auth\<close> with an encrypted password.

  \<open>aes_ige key iv block\<close> is the encryption of a block: the ciphertext and the new initialisation vector, which the function leaves in its argument.
  \<open>bcrypt cost salt password\<close> is the hash. Both come from other crates and are parameters.
\<close>

section \<open>The client\<close>

record ('e, 'g) auth_client =
  au_responses_recv :: u64
  au_responses :: u64
  au_start :: u64
  au_recvd :: u64
  au_latencies :: "u64 list"
  au_master :: bool
  au_stop :: u64
  au_workload :: workload
  au_requests :: u64
  au_sent :: u64
  au_native :: bool
  au_payload_auth :: byte_string
  au_payload_put :: byte_string
  au_finished :: bool
  au_outstanding :: u64
  au_manager :: "('e, 'g) task_manager"
  au_native_state :: "u64 \<rightharpoonup> byte_string"
  au_key_len :: usize

definition AUTH_RECORD_SIZE :: usize where "AUTH_RECORD_SIZE = 79"

definition auth_name :: byte_string where
  "auth_name = map of_char ''auth''"

definition AuthRecvSend_new :: "u64 \<Rightarrow> bool \<Rightarrow> ycsbt_config \<Rightarrow> u64 \<Rightarrow> 'e ext_manager \<Rightarrow> host \<Rightarrow> ('e, 'g) auth_client \<times> host" where
  "AuthRecvSend_new resps master cf reqs exts h =
     (let (start, h) = read_tsc h
      in (\<lparr>au_responses_recv = 0, au_responses = resps, au_start = start, au_recvd = 0, au_latencies = [], au_master = master, au_stop = 0,
           au_workload = Pushback_new (cf_key_len cf) (cf_value_len cf) 0, au_requests = reqs, au_sent = 0, au_native = (\<not> cf_use_invoke cf),
           au_payload_auth = resize (4 + 8 + cf_key_len cf + cf_value_len cf) (auth_name @ enc_u64 1),
           au_payload_put = replicate (4 + 8 + 2 + cf_key_len cf + cf_value_len cf) 0,
           au_finished = False, au_outstanding = 0, au_manager = TaskManager_new exts, au_native_state = Map.empty, au_key_len = cf_key_len cf\<rparr>, h))"

section \<open>Sending\<close>

definition au_invoke_now ::
    "u64 \<Rightarrow> u32 \<Rightarrow> byte_string \<Rightarrow> ('e, 'g) auth_client \<Rightarrow> host \<Rightarrow> (('e, 'g) auth_client \<times> host) rust" where
  "au_invoke_now now tenant pay k h =
     rbind (create_task now pay tenant 4 (au_manager k)) (\<lambda>tm.
     rbind (send_invoke tenant 4 pay now (h_env h)) (\<lambda>env.
     Inr (k\<lparr>au_manager := tm\<rparr>, set_env h env)))"

definition au_send_native ::
    "u64 \<Rightarrow> bool \<Rightarrow> u32 \<Rightarrow> byte_string \<Rightarrow> byte_string \<Rightarrow> ('e, 'g) auth_client \<Rightarrow> host \<Rightarrow> (('e, 'g) auth_client \<times> host) rust" where
  "au_send_native now is_get tenant key val k h =
     rbind (if is_get then send_get tenant 1 key now (h_env h) else send_put tenant 1 key val now (h_env h)) (\<lambda>env.
     Inr (k\<lparr>au_native_state := (au_native_state k)(now \<mapsto> key)\<rparr>, set_env h env))"

text \<open>The password, which is the beginning of the key, is encrypted with what is left of the initialisation vector by the requests before.\<close>

definition au_send_extension ::
    "(byte_string \<Rightarrow> byte_string \<Rightarrow> byte_string \<Rightarrow> byte_string \<times> byte_string) \<Rightarrow> u64 \<Rightarrow> bool \<Rightarrow> u32 \<Rightarrow> byte_string \<Rightarrow>
     ('e, 'g) auth_client \<times> host \<times> byte_string \<Rightarrow> (('e, 'g) auth_client \<times> host \<times> byte_string) rust" where
  "au_send_extension aes_ige now is_get tenant key khv =
     (let (k, h, iv) = khv
      in rbind (slice_range key 0 4) (\<lambda>key4.
         if is_get
         then rbind (copy_from_slice_at 12 16 key4 (au_payload_auth k)) (\<lambda>p_get.
              rbind (slice_range key 0 16) (\<lambda>block.
              let (output, iv) = aes_ige auth_key iv block
              in rbind (copy_from_slice_at 42 58 output p_get) (\<lambda>p_get.
                 rbind (au_invoke_now now tenant p_get (k\<lparr>au_payload_auth := p_get\<rparr>) h) (\<lambda>(k, h). Inr (k, h, iv)))))
         else rbind (copy_from_slice_at 18 22 key4 (au_payload_put k)) (\<lambda>p_put.
              rbind (au_invoke_now now tenant p_put (k\<lparr>au_payload_put := p_put\<rparr>) h) (\<lambda>(k, h). Inr (k, h, iv)))))"

definition au_send_one ::
    "(byte_string \<Rightarrow> byte_string \<Rightarrow> byte_string \<Rightarrow> byte_string \<times> byte_string) \<Rightarrow>
     ('e, 'g) auth_client \<times> host \<times> byte_string \<Rightarrow> (('e, 'g) auth_client \<times> host \<times> byte_string) rust" where
  "au_send_one aes_ige khv =
     (let (k, h, iv) = khv; (now, h) = read_tsc h; (d, h) = next_draw h
      in rbind (abc d (au_workload k)) (\<lambda>(w, is_get, tenant, key, val).
         let k = k\<lparr>au_workload := w\<rparr>
         in rbind (if au_native k then rbind (au_send_native now is_get tenant key val k h) (\<lambda>(k, h). Inr (k, h, iv))
                   else au_send_extension aes_ige now is_get tenant key (k, h, iv)) (\<lambda>(k, h, iv).
            Inr (k\<lparr>au_outstanding := au_outstanding k + 1, au_sent := au_sent k + 1\<rparr>, h, iv))))"

definition au_may_send :: "('e, 'g) auth_client \<times> host \<times> byte_string \<Rightarrow> bool" where
  "au_may_send khv \<longleftrightarrow> au_outstanding (fst khv) < 32 \<and> get_queue_len (au_manager (fst khv)) < 32"

text \<open>The initialisation vector is set up once per call, in front of the loop.\<close>

definition au_send ::
    "(byte_string \<Rightarrow> byte_string \<Rightarrow> byte_string \<Rightarrow> byte_string \<times> byte_string) \<Rightarrow> ('e, 'g) auth_client \<Rightarrow> host \<Rightarrow>
     (('e, 'g) auth_client \<times> host) rust" where
  "au_send aes_ige k h =
     (if au_requests k \<le> au_sent k then Inr (k, h)
      else rbind (window_loop (32 - unat (au_outstanding k)) au_may_send (au_send_one aes_ige) (k, h, auth_iv)) (\<lambda>(k, h, _). Inr (k, h)))"

lemma au_invoke_now_outstanding: "au_invoke_now now tenant pay k h = Inr (k', h') \<Longrightarrow> au_outstanding k' = au_outstanding k"
  by (auto simp: au_invoke_now_def)

lemma au_send_extension_outstanding:
  "au_send_extension aes_ige now g tenant key (k, h, iv) = Inr (k', h', iv') \<Longrightarrow> au_outstanding k' = au_outstanding k"
  by (cases g) (auto simp: au_send_extension_def case_prod_beta Let_def dest!: au_invoke_now_outstanding)

lemma au_send_native_outstanding: "au_send_native now g tenant key val k h = Inr (k', h') \<Longrightarrow> au_outstanding k' = au_outstanding k"
  by (auto simp: au_send_native_def)

lemma au_send_one_outstanding: "au_send_one aes_ige khv = Inr khv' \<Longrightarrow> au_outstanding (fst khv') = au_outstanding (fst khv) + 1"
  by (cases "au_native (fst khv)")
    (auto simp: au_send_one_def Let_def case_prod_beta dest!: au_send_native_outstanding au_send_extension_outstanding)

interpretation au_window: window 32 "\<lambda>khv. au_outstanding (fst khv)" au_may_send "au_send_one aes_ige" for aes_ige
  by unfold_locales (simp_all add: au_may_send_def word_less_nat_alt au_send_one_outstanding)

section \<open>Receiving\<close>

definition au_on_commit :: "u64 \<Rightarrow> packet \<Rightarrow> ('e, 'g) auth_client \<Rightarrow> host \<Rightarrow> (('e, 'g) auth_client \<times> host) rust" where
  "au_on_commit now packet k h =
     rbind (parse_header CommitResponse packet) (\<lambda>p.
     rbind (response_header p) (\<lambda>hdr.
     let k = (if rs_status hdr = StatusOk then k\<lparr>au_latencies := au_latencies k @ [now - rs_stamp hdr]\<rparr> else k)
     in Inr (k\<lparr>au_recvd := au_recvd k + 1\<rparr>, free_packet p h)))"

definition au_on_invoke :: "bool \<Rightarrow> u64 \<Rightarrow> packet \<Rightarrow> ('e, 'g) auth_client \<Rightarrow> host \<Rightarrow> (('e, 'g) auth_client \<times> host) rust" where
  "au_on_invoke chk now packet k h =
     rbind (parse_header InvokeResponse packet) (\<lambda>p.
     rbind (response_header p) (\<lambda>hdr.
     rbind
       (if rs_status hdr = StatusOk
        then Inr (k\<lparr>au_recvd := au_recvd k + 1, au_latencies := au_latencies k @ [now - rs_stamp hdr],
                    au_outstanding := au_outstanding k - 1, au_manager := delete_task (rs_stamp hdr) (au_manager k)\<rparr>)
        else if rs_status hdr = StatusPushback
        then rbind (get_payload p) (\<lambda>records.
             rbind (update_rwset chk (rs_stamp hdr) records AUTH_RECORD_SIZE (au_key_len k) (au_manager k)) (\<lambda>tm.
             Inr (k\<lparr>au_manager := tm, au_outstanding := au_outstanding k - 1\<rparr>)))
        else Inr k) (\<lambda>k.
     Inr (k, free_packet p h))))"

text \<open>The password of a native request: the key it was issued for.\<close>

definition au_password :: "byte_string option \<Rightarrow> byte_string rust" where
  "au_password key = (case key of None \<Rightarrow> Inr (replicate 72 0) | Some key \<Rightarrow> copy_from_slice_at 0 30 key (replicate 72 0))"

text \<open>Whether the password is right; the client does nothing with it.\<close>

definition au_check :: "(u32 \<Rightarrow> byte_string \<Rightarrow> byte_string \<Rightarrow> byte_string) \<Rightarrow> byte_string \<Rightarrow> byte_string \<Rightarrow> bool" where
  "au_check bcrypt val password \<longleftrightarrow> bcrypt 1 (drop 24 val) password = take 24 val"

definition au_on_get ::
    "(u32 \<Rightarrow> byte_string \<Rightarrow> byte_string \<Rightarrow> byte_string) \<Rightarrow> packet \<Rightarrow> ('e, 'g) auth_client \<Rightarrow> host \<Rightarrow> (('e, 'g) auth_client \<times> host) rust" where
  "au_on_get bcrypt packet k h =
     rbind (parse_header GetResponse packet) (\<lambda>p.
     rbind (response_header p) (\<lambda>hdr.
     rbind
       (if rs_status hdr = StatusOk
        then rbind (get_payload p) (\<lambda>pay.
             rbind (split_at pay (au_key_len k + 9)) (\<lambda>(_, val).
               if length val \<noteq> 40 then Inr (k, h)
               else rbind (au_password (au_native_state k (rs_stamp hdr))) (\<lambda>password.
                    let _ = au_check bcrypt val password
                    in rbind (send_commit (rs_tenant hdr) 1 pay (rs_stamp hdr) 30 40 (h_env h)) (\<lambda>env.
                       Inr (k\<lparr>au_native_state := (au_native_state k)(rs_stamp hdr := None), au_outstanding := au_outstanding k - 1\<rparr>,
                            set_env h env)))))
        else Inr (k\<lparr>au_outstanding := au_outstanding k - 1\<rparr>, h)) (\<lambda>(k, h).
     Inr (k, free_packet p h))))"

definition au_on_packet ::
    "(u32 \<Rightarrow> byte_string \<Rightarrow> byte_string \<Rightarrow> byte_string) \<Rightarrow> bool \<Rightarrow> u64 \<Rightarrow> packet \<Rightarrow> ('e, 'g) auth_client \<times> host \<Rightarrow>
     (('e, 'g) auth_client \<times> host) rust" where
  "au_on_packet bcrypt chk now packet kh =
     (let (k, h) = kh
      in rbind (parse_rpc_opcode packet) (\<lambda>c.
           if c = SandstormCommitRpc then au_on_commit now packet k h
           else if \<not> au_native k \<and> c = SandstormInvokeRpc then au_on_invoke chk now packet k h
           else if au_native k \<and> c = SandstormGetRpc then au_on_get bcrypt packet k h
           else Inr (k, free_packet packet h)))"

definition au_recv ::
    "(u32 \<Rightarrow> byte_string \<Rightarrow> byte_string \<Rightarrow> byte_string) \<Rightarrow> bool \<Rightarrow> ('e, 'g) auth_client \<Rightarrow> host \<Rightarrow> (('e, 'g) auth_client \<times> host) rust" where
  "au_recv bcrypt chk k h =
     (if au_finished k \<and> 0 < au_stop k then Inr (k, h)
      else rbind (poll_port (au_responses_recv k) h) (\<lambda>(packets, n, h).
           let k = k\<lparr>au_responses_recv := n\<rparr>
           in rbind (case packets of
                       None \<Rightarrow> Inr (k, h)
                     | Some ps \<Rightarrow> (let (now, h) = read_tsc h in for_each (au_on_packet bcrypt chk now) ps (k, h))) (\<lambda>(k, h).
              if au_responses k \<le> au_recvd k
              then let (now, h) = read_tsc h in Inr (k\<lparr>au_stop := now, au_finished := True\<rparr>, h)
              else Inr (k, h))))"

section \<open>Running and statistics\<close>

text \<open>The last component is the flag \<open>FINISHED\<close>, when it is set.\<close>

definition au_execute ::
    "(byte_string \<Rightarrow> byte_string \<Rightarrow> byte_string \<Rightarrow> byte_string \<times> byte_string) \<Rightarrow> (u32 \<Rightarrow> byte_string \<Rightarrow> byte_string \<Rightarrow> byte_string) \<Rightarrow>
     bool \<Rightarrow> ('e, 'g) ext_init \<Rightarrow> 'g ext_resume \<Rightarrow> ('e, 'g) auth_client \<Rightarrow> host \<Rightarrow> (('e, 'g) auth_client \<times> host \<times> bool) rust" where
  "au_execute aes_ige bcrypt chk init resume k h =
     rbind (au_send aes_ige k h) (\<lambda>(k, h).
     rbind (au_recv bcrypt chk k h) (\<lambda>(k, h).
     rbind (run_task chk init resume (au_manager k) h) (\<lambda>(tm, h).
     Inr (k\<lparr>au_manager := tm\<rparr>, h, au_finished k))))"

definition au_drop :: "('e, 'g) auth_client \<Rightarrow> (u64 \<times> u64) option rust" where
  "au_drop k =
     (if au_stop k = 0 then Inl ExplicitPanic
      else if au_master k then rbind (latency_figures (au_latencies k)) (\<lambda>mt. Inr (Some mt)) else Inr None)"

end
