(* ===== verification/AuthRuns.thy ===== *)
theory AuthRuns
  imports AuthClient
begin

text \<open>
  Runs of the authentication client against the extension \<open>auth\<close> on the users \<open>fill_auth\<close> creates.
\<close>

section \<open>Requests\<close>

text \<open>The payload of an invocation: it keeps its shape whatever has been written into it.\<close>

definition auth_payload :: "u32 \<Rightarrow> byte_string \<Rightarrow> byte_string" where
  "auth_payload i block = auth_name @ enc_u64 1 @ stamped 26 i @ block @ replicate 56 0"

lemma auth_payload_updates:
  assumes "length block = 16" and "length block' = 16"
  shows "copy_from_slice_at 12 16 (enc_u32 i) (auth_payload j block) = Inr (auth_payload i block)"
    "copy_from_slice_at 42 58 block' (auth_payload i block) = Inr (auth_payload i block')"
  using assms by (simp_all add: auth_payload_def copy_from_slice_at_def auth_name_def write_at_def stamped_def)

lemma auth_payload_task: "length block = 16 \<Longrightarrow> \<exists>tm'. create_task now (auth_payload i block) tenant 4 tm = Inr tm'"
proof -
  have "split_at (auth_payload i block) 4 = Inr (auth_name, enc_u64 1 @ stamped 26 i @ block @ replicate 56 0)"
    by (simp add: auth_name_def split_at_def auth_payload_def)
  moreover have "utf8_valid auth_name" by code_simp
  ultimately show ?thesis by (auto simp: create_task_def split: option.splits)
qed

lemma user_password: "stamped 12 i @ replicate 56 0 = stamped 68 i"
  by (simp add: stamped_def flip: replicate_add)

text \<open>A native client finds the password it compares with right.\<close>

lemma native_check:
  assumes "length (bcrypt 1 (stamped 12 i) (stamped 68 i)) = 24"
  shows "au_password (Some (stamped 26 i)) = Inr (stamped 68 i)" "au_check bcrypt (user_entry bcrypt i) (stamped 68 i)"
  using assms by (simp_all add: au_password_def copy_from_slice_at_def write_at_def stamped_def drop_replicate au_check_def user_entry_def flip: replicate_add)

section \<open>Properties\<close>

text \<open>C25: which requests of a burst can be authenticated. An invoking client sends the first 16 bytes of a user's password, which are those of the user's name, encrypted under the
  initialisation vector the previous request of the same burst has left behind; the extension decrypts it under the initial one. So when a user is stored the way
  \<open>fill_auth\<close> stores it, the extension, run with the arguments the client has put on the wire, completes and answers 2, meaning that the password is right, for the first request of a burst. For a later one the
  answer depends on what a block encrypted under one vector and decrypted under another happens to hash to.\<close>

theorem auth_request_served:
  assumes "\<And>v b. length b = 16 \<Longrightarrow> length (fst (enc auth_key v b)) = 16 \<and> dec auth_key v (fst (enc auth_key v b)) = b"
    and "\<And>b. length b = 16 \<Longrightarrow> length (dec auth_key auth_iv b) = 16" and "\<And>s p. length (bcrypt 1 s p) = 24"
    and "\<not> au_native k" and "au_payload_auth k = auth_payload j block0" and "length block0 = 16"
    and "wl_put_pct (au_workload k) = 0" and "wl_key_buf (au_workload k) = stamped 26 j0"
    and "h_env h = (s, nw)" and "plain_network (s_mac s) (s_ip s)" and "can_send 178 nw"
    and "d = h_draws h (h_drawn h)" and "i = dr_key d" and "block = fst (enc auth_key iv (stamped 12 i))"
    and "stored tn 1 (stamped 26 i) = Some (ver, user_entry bcrypt i)"
    and "Context_args c = Inr (enc_u64 1 @ stamped 26 i @ block @ replicate 56 0)" and "wf_packet (c_response c)" and "1 \<le> tailroom (c_response c)"
  shows "\<exists>k' h' p r c'. au_send_one enc (k, h, iv) = Inr (k', h', snd (enc auth_key iv (stamped 12 i))) \<and>
    wire (snd (h_env h')) = wire nw @ [p] \<and>
    view_at IpHeader 14 (request_bytes (s_mac s) (s_ip s) (s_udp s) (get_dst_port (dr_tenant d) s)
      (enc_invoke_request (InvokeRequest_new (dr_tenant d) 4 110 (h_clock h (h_ticks h))) @ auth_name @ enc_u64 1 @ stamped 26 i @ block @ replicate 56 0)) r p \<and>
    server_runs 2 (ext_auth_init dec bcrypt) grant clk m tn c = Some (ExtComplete 0, tn, c') \<and>
    frame (c_response c') = frame (c_response c) @
      [if iv = auth_iv \<or> bcrypt 1 (stamped 12 i) (dec auth_key auth_iv block @ replicate 56 0) = bcrypt 1 (stamped 12 i) (stamped 68 i) then 2 else 3]"
proof -
  let ?now = "h_clock h (h_ticks h)" and ?pay = "auth_payload i block" and ?iv = "snd (enc auth_key iv (stamped 12 i))"
  have block: "length block = 16" using assms(1) [of "stamped 12 i" iv] by (simp add: assms(14))
  have len: "length ?pay = 114" "?pay \<noteq> []" using block by (auto simp: auth_payload_def auth_name_def simp flip: length_greater_0_conv)
  obtain sent r net' where send: "send_invoke (dr_tenant d) 4 ?pay ?now (s, nw) =
        Inr (s\<lparr>s_requests_sent := s_requests_sent s + 1\<rparr>, net')" "wire net' = wire nw @ [sent]"
      "view_at IpHeader 14 (request_bytes (s_mac s) (s_ip s) (s_udp s) (get_dst_port (dr_tenant d) s)
        (enc_invoke_request (InvokeRequest_new (dr_tenant d) 4 110 ?now) @ ?pay)) r sent"
    using send_invoke_view [OF assms(10) len(2), of 4 nw "dr_tenant d" ?now] assms(11) unfolding len(1) by auto
  obtain tm where tm: "create_task ?now ?pay (dr_tenant d) 4 (au_manager k) = Inr tm" using auth_payload_task [OF block] by blast
  have key: "copy_from_slice_at 0 4 (enc_u32 i) (stamped 26 j0) = Inr (stamped 26 i)" "slice_range (stamped 26 i) 0 4 = Inr (enc_u32 i)"
      "slice_range (stamped 26 i) 0 16 = Inr (stamped 12 i)"
    by (simp add: copy_stamped) (simp_all add: stamped_def slice_range_def)
  let ?h = "h\<lparr>h_ticks := h_ticks h + 1, h_drawn := h_drawn h + 1\<rparr>"
  let ?h' = "set_env ?h (s\<lparr>s_requests_sent := s_requests_sent s + 1\<rparr>, net')"
  have ext: "au_send_extension enc ?now True (dr_tenant d) (stamped 26 i) (k\<lparr>au_workload := w\<rparr>, ?h, iv) =
      Inr (k\<lparr>au_workload := w, au_payload_auth := ?pay, au_manager := tm\<rparr>, ?h', ?iv)" for w
    using auth_payload_updates [OF assms(6) block] assms(5,9)
    by (simp add: au_send_extension_def key case_prod_beta assms(14) [symmetric] au_invoke_now_def tm send(1) del: rbind_eq_Inr)
  have one: "\<exists>k'. au_send_one enc (k, h, iv) = Inr (k', ?h', ?iv)"
    using assms(4,7,8) ext
    by (simp add: au_send_one_def read_tsc_def next_draw_def abc_def assms(12) [symmetric] assms(13) [symmetric] key(1) del: rbind_eq_Inr)
  have wire: "wire (snd (h_env ?h')) = wire nw @ [sent]" using send(2) by (simp add: set_env_def)
  have pw: "take 16 (block @ replicate 56 0) = block" "drop 16 (block @ replicate 56 0) = replicate 56 0" using block by simp_all
  have same: "bcrypt 1 (stamped 12 i) (dec auth_key auth_iv block @ replicate 56 0) = bcrypt 1 (stamped 12 i) (stamped 68 i)" if "iv = auth_iv"
    using assms(1) [of "stamped 12 i" iv] by (simp add: assms(14) that user_password)
  have args: "length (block @ replicate 56 0) = 72" "length (dec auth_key auth_iv (take 16 (block @ replicate 56 0))) = 16"
    using block assms(2) by simp_all
  obtain c' where "server_runs 2 (ext_auth_init dec bcrypt) grant clk m tn c = Some (ExtComplete 0, tn, c')"
      "frame (c_response c') = frame (c_response c) @
        [if bcrypt 1 (stamped 12 i) (dec auth_key auth_iv block @ replicate 56 0) = bcrypt 1 (stamped 12 i) (stamped 68 i) then 2 else 3]"
    using auth_runs [where aes_ige = dec and bcrypt = bcrypt and tn = tn and i = i, OF assms(16) args(1,2) assms(15,3,17,18)] unfolding pw by blast
  then have "server_runs 2 (ext_auth_init dec bcrypt) grant clk m tn c = Some (ExtComplete 0, tn, c')"
      "frame (c_response c') = frame (c_response c) @
        [if iv = auth_iv \<or> bcrypt 1 (stamped 12 i) (dec auth_key auth_iv block @ replicate 56 0) = bcrypt 1 (stamped 12 i) (stamped 68 i) then 2 else 3]"
    using same by auto
  then show ?thesis using one wire send(3) unfolding auth_payload_def by blast
qed

section \<open>Witness\<close>

text \<open>The mode of operation with a toy cipher that increments every byte: a block is combined with one half of the vector before and with the other after it is enciphered, and the next
  vector consists of ciphertext and plaintext.\<close>

definition half :: "nat \<Rightarrow> byte_string \<Rightarrow> byte_string" where
  "half n iv = take 16 (drop n iv @ replicate 16 0)"

lemma length_half [simp]: "length (half n iv) = 16"
  by (simp add: half_def)

definition wit_enc :: "byte_string \<Rightarrow> byte_string \<Rightarrow> byte_string \<Rightarrow> byte_string \<times> byte_string" where
  "wit_enc key iv b = (let c = map2 (XOR) (map (\<lambda>x. x + 1) (map2 (XOR) b (half 0 iv))) (half 16 iv) in (c, c @ b))"

definition wit_dec :: "byte_string \<Rightarrow> byte_string \<Rightarrow> byte_string \<Rightarrow> byte_string" where
  "wit_dec key iv c = map2 (XOR) (map (\<lambda>x. x - 1) (map2 (XOR) c (half 16 iv))) (half 0 iv)"

lemma xor_cancel: "(x XOR y) XOR y = (x :: u8)"
  by (simp add: ac_simps)

lemma wit_enc_dec:
  assumes "length b = 16"
  shows "length (fst (wit_enc key v b)) = 16 \<and> wit_dec key v (fst (wit_enc key v b)) = b"
  using assms by (auto simp: wit_enc_def wit_dec_def Let_def xor_cancel intro!: nth_equalityI)

lemma length_wit_dec: "length b = 16 \<Longrightarrow> length (wit_dec key v b) = 16"
  by (simp add: wit_dec_def)

definition wit_auth_client :: "(unit, unit) auth_client" where
  "wit_auth_client = fst (AuthRecvSend_new 10 True (wit_ycsbt_config\<lparr>cf_value_len := 72, cf_use_invoke := True\<rparr>) 10 ExtensionManager_new wit_host)"

lemma wit_auth_client_fields:
  "\<not> au_native wit_auth_client" "au_payload_auth wit_auth_client = auth_payload 0 (replicate 16 0)"
  "wl_put_pct (au_workload wit_auth_client) = 0" "wl_key_buf (au_workload wit_auth_client) = stamped 26 0"
  by (simp_all add: wit_auth_client_def AuthRecvSend_new_def Let_def case_prod_beta wit_ycsbt_config_def wit_config_def client_config.defs
      resize_def auth_payload_def auth_name_def stamped_def Pushback_new_def) code_simp+

definition wit_block :: "byte_string \<Rightarrow> byte_string" where
  "wit_block iv = fst (wit_enc auth_key iv (stamped 12 1))"

abbreviation wit_auth_call :: "byte_string \<Rightarrow> ctxt" where
  "wit_auth_call iv \<equiv> wit_invocation (enc_u64 1 @ stamped 26 1 @ wit_block iv @ replicate 56 0)"

theorem auth_request_served_witness:
  "\<exists>t tn iv k h k' h' c c'. auth_users wit_hash (\<lambda>n. n) 7 1 3 Table_default = Inr t \<and> tn = put_table 1 t (Tenant_new 7) \<and>
    au_send_one wit_enc (wit_auth_client, wit_host, auth_iv) = Inr (k, h, iv) \<and>
    server_runs 2 (ext_auth_init wit_dec wit_hash) (\<lambda>n. n) (\<lambda>_. 0) 0 tn (wit_auth_call auth_iv) = Some (ExtComplete 0, tn, c) \<and>
    frame (c_response c) = frame wit_response @ [2] \<and>
    au_send_one wit_enc (wit_auth_client, wit_host, iv) = Inr (k', h', snd (wit_enc auth_key iv (stamped 12 1))) \<and>
    server_runs 2 (ext_auth_init wit_dec wit_hash) (\<lambda>n. n) (\<lambda>_. 0) 0 tn (wit_auth_call iv) = Some (ExtComplete 0, tn, c') \<and>
    frame (c_response c') = frame wit_response @ [3]"
proof -
  have hash: "length (wit_hash 1 s p) = 24" for s p by simp
  obtain t where t: "auth_users wit_hash (\<lambda>n. n) 7 1 3 Table_default = Inr t" "holds 7 1 t
      (fold (\<lambda>i m. m(stamped 26 i \<mapsto> user_entry wit_hash i)) (range_u32 1 (3 + 1)) Map.empty)"
    using auth_users_holds [where bcrypt = wit_hash and grant = "\<lambda>n. n", OF _ hash holds_default] by blast
  define tn where "tn = put_table 1 t (Tenant_new 7)"
  have "get_table tn 1 = Some t" by (simp add: tn_def)
  then obtain ver where user: "stored tn 1 (stamped 26 1) = Some (ver, user_entry wit_hash 1)"
    using user_stored [OF t(2), of tn 1] by auto
  let ?d = "\<lparr>dr_coin = 0, dr_put = 0, dr_tenant = 1, dr_key = 1, dr_order = 0\<rparr>"
  have d: "?d = h_draws wit_host (h_drawn wit_host)" "1 = dr_key ?d" by (simp_all add: wit_host_def)
  have block: "length (wit_block iv) = 16" for iv using wit_enc_dec [of "stamped 12 1" auth_key iv] by (simp add: wit_block_def)
  then have len: "length (enc_u64 1 @ stamped 26 1 @ wit_block iv @ replicate 56 0) \<le> 200" for iv by simp
  have res: "c_response (wit_auth_call iv) = wit_response" for iv by (simp add: wit_invocation_def Context_new_def)
  have served: "\<exists>k' h' c'. au_send_one wit_enc (wit_auth_client, wit_host, iv) = Inr (k', h', snd (wit_enc auth_key iv (stamped 12 1))) \<and>
      server_runs 2 (ext_auth_init wit_dec wit_hash) (\<lambda>n. n) (\<lambda>_. 0) 0 tn (wit_auth_call iv) = Some (ExtComplete 0, tn, c') \<and>
      frame (c_response c') = frame wit_response @
        [if iv = auth_iv \<or> wit_hash 1 (stamped 12 1) (wit_dec auth_key auth_iv (wit_block iv) @ replicate 56 0) = wit_hash 1 (stamped 12 1) (stamped 68 1) then 2 else 3]" for iv
    using auth_request_served [where enc = wit_enc and dec = wit_dec and bcrypt = wit_hash and iv = iv and grant = "\<lambda>n. n" and clk = "\<lambda>_. 0" and m = 0 and block = "wit_block iv",
        OF wit_enc_dec _ hash wit_auth_client_fields(1,2) _ wit_auth_client_fields(3,4) wit_host_env wit_sender_plain _ d(1,2) wit_block_def user
          wit_invocation_long(1,2) [OF len]] wit_can_send [of 178] wit_invocation_long(3) [OF len, of iv] length_wit_dec
    unfolding res by (auto simp: wit_host_env)
  let ?iv = "snd (wit_enc auth_key auth_iv (stamped 12 1))"
  have "wit_hash 1 (stamped 12 1) (wit_dec auth_key auth_iv (wit_block ?iv) @ replicate 56 0) \<noteq> wit_hash 1 (stamped 12 1) (stamped 68 1)" "?iv \<noteq> auth_iv"
    by code_simp+
  then show ?thesis using served [of auth_iv] served [of ?iv] t(1) tn_def by auto
qed

end
