(* ===== verification/ChecksumClient.thy ===== *)
theory ChecksumClient
  imports Loads
begin

text \<open>
  The client of the checksum benchmark, \<open>splinter/src/bin/client/checksum.rs\<close>. It gets a list of keys, then the records of these keys and digests them itself, or invokes the
  extension \<open>checksum\<close>. The workload is that of the YCSB-T client. \<open>digest algorithm bytes\<close> comes from another crate and is a parameter.
\<close>

section \<open>The client\<close>

record ('e, 'g) checksum_client =
  cs_responses_recv :: u64
  cs_responses :: u64
  cs_start :: u64
  cs_recvd :: u64
  cs_aborted :: u64
  cs_latencies :: "u64 list"
  cs_master :: bool
  cs_stop :: u64
  cs_workload :: yworkload
  cs_requests :: u64
  cs_sent :: u64
  cs_native :: bool
  cs_invoke_get :: byte_string
  cs_finished :: bool
  cs_outstanding :: u64
  cs_manager :: "('e, 'g) task_manager"
  cs_num :: u32
  cs_table_id :: u64
  cs_name_length :: u32

definition CHECKSUM_ALGO :: u8 where "CHECKSUM_ALGO = 1"

definition checksum_name :: byte_string where
  "checksum_name = map of_char ''checksum''"

definition ChecksumRecvSend_new ::
    "u64 \<Rightarrow> bool \<Rightarrow> ycsbt_config \<Rightarrow> u64 \<Rightarrow> 'e ext_manager \<Rightarrow> u32 \<Rightarrow> host \<Rightarrow> ('e, 'g) checksum_client \<times> host" where
  "ChecksumRecvSend_new resps master cf reqs exts num h =
     (let (start, h) = read_tsc h
      in (\<lparr>cs_responses_recv = 0, cs_responses = resps, cs_start = start, cs_recvd = 0, cs_aborted = 0, cs_latencies = [], cs_master = master, cs_stop = 0,
           cs_workload = YCSBT_new (cf_key_len cf) 0, cs_requests = reqs, cs_sent = 0, cs_native = (\<not> cf_use_invoke cf),
           cs_invoke_get = resize (8 + 8 + 4 + cf_key_len cf + 1) (checksum_name @ enc_u64 1 @ enc_u32 num @ replicate 8 0 @ [CHECKSUM_ALGO]),
           cs_finished = False, cs_outstanding = 0, cs_manager = TaskManager_new exts, cs_num = num, cs_table_id = 1, cs_name_length = 8\<rparr>, h))"

section \<open>Sending\<close>

definition cs_invoke_now ::
    "u64 \<Rightarrow> u32 \<Rightarrow> byte_string \<Rightarrow> ('e, 'g) checksum_client \<Rightarrow> host \<Rightarrow> (('e, 'g) checksum_client \<times> host) rust" where
  "cs_invoke_now now tenant key k h =
     rbind (slice_range key 0 4) (\<lambda>key4.
     rbind (copy_from_slice_at 20 24 key4 (cs_invoke_get k)) (\<lambda>p_get.
     rbind (create_task now p_get tenant (unat (cs_name_length k)) (cs_manager k)) (\<lambda>tm.
     rbind (send_invoke tenant (cs_name_length k) p_get now (h_env h)) (\<lambda>env.
     Inr (k\<lparr>cs_invoke_get := p_get, cs_manager := tm\<rparr>, set_env h env)))))"

text \<open>The callback for puts, which is never called, sends nothing.\<close>

definition cs_send_one :: "('e, 'g) checksum_client \<times> host \<Rightarrow> (('e, 'g) checksum_client \<times> host) rust" where
  "cs_send_one kh =
     (let (k, h) = kh; (now, h) = read_tsc h
      in rbind (YCSBT_abc (cs_workload k) h) (\<lambda>(w, is_get, tenant, key, h).
         let k = k\<lparr>cs_workload := w\<rparr>
         in rbind (if \<not> is_get then Inr (k, h)
                   else if cs_native k
                   then rbind (send_get tenant (cs_table_id k) key now (h_env h)) (\<lambda>env. Inr (k, set_env h env))
                   else cs_invoke_now now tenant key k h) (\<lambda>(k, h).
            Inr (k\<lparr>cs_outstanding := cs_outstanding k + 1, cs_sent := cs_sent k + 1\<rparr>, h))))"

definition cs_may_send :: "('e, 'g) checksum_client \<times> host \<Rightarrow> bool" where
  "cs_may_send kh \<longleftrightarrow> cs_outstanding (fst kh) < word_of_nat MAX_CREDIT \<and> get_queue_len (cs_manager (fst kh)) < MAX_CREDIT"

definition cs_send :: "('e, 'g) checksum_client \<Rightarrow> host \<Rightarrow> (('e, 'g) checksum_client \<times> host) rust" where
  "cs_send k h =
     (if cs_requests k \<le> cs_sent k then Inr (k, h)
      else window_loop (MAX_CREDIT - unat (cs_outstanding k)) cs_may_send cs_send_one (k, h))"

lemma cs_invoke_now_outstanding: "cs_invoke_now now tenant key k h = Inr (k', h') \<Longrightarrow> cs_outstanding k' = cs_outstanding k"
  by (auto simp: cs_invoke_now_def)

lemma cs_send_one_outstanding: "cs_send_one kh = Inr kh' \<Longrightarrow> cs_outstanding (fst kh') = cs_outstanding (fst kh) + 1"
  by (cases "cs_native (fst kh)")
    (auto simp: cs_send_one_def Let_def case_prod_beta split: if_splits dest!: cs_invoke_now_outstanding)

interpretation cs_window: window 32 "\<lambda>kh. cs_outstanding (fst kh)" cs_may_send cs_send_one
  by unfold_locales (simp_all add: cs_may_send_def MAX_CREDIT_def word_less_nat_alt cs_send_one_outstanding)

section \<open>Native execution\<close>

text \<open>The first bytes of the digests of all values. A record of another length ends the sum with 2, which makes the client panic.\<close>

fun digest_records :: "(u8 \<Rightarrow> byte_string \<Rightarrow> byte_string) \<Rightarrow> u64 \<Rightarrow> byte_string list \<Rightarrow> (u64 + u64) rust" where
  "digest_records digest aggr [] = Inr (Inr aggr)"
| "digest_records digest aggr (record # records) =
     rbind (split_at record 39) (\<lambda>(_, vals).
       if length vals = 100
       then rbind (if CHECKSUM_ALGO \<in> {1, 2, 3, 4}
                   then rbind (index_slice (digest CHECKSUM_ALGO vals) 0) (\<lambda>b. Inr (aggr + ucast b))
                   else Inr aggr) (\<lambda>aggr.
            digest_records digest aggr records)
       else Inr (Inl 2))"

definition cs_execute_task :: "(u8 \<Rightarrow> byte_string \<Rightarrow> byte_string) \<Rightarrow> byte_string \<Rightarrow> unit rust" where
  "cs_execute_task digest records =
     rbind (chunks records 139) (\<lambda>chs.
     rbind (digest_records digest 0 chs) (\<lambda>r.
     let val = (case r of Inl code \<Rightarrow> code | Inr aggr \<Rightarrow> if aggr \<noteq> 0 then aggr - aggr else aggr)
     in if val \<noteq> 0 then Inl ExplicitPanic else Inr ()))"

definition cs_process_multiget ::
    "(u8 \<Rightarrow> byte_string \<Rightarrow> byte_string) \<Rightarrow> rpc_response_header \<Rightarrow> byte_string \<Rightarrow> ('e, 'g) checksum_client \<Rightarrow> host \<Rightarrow> host rust" where
  "cs_process_multiget digest hdr records k h =
     rbind (cs_execute_task digest records) (\<lambda>_.
     rbind (send_commit (rs_tenant hdr) (cs_table_id k) records (rs_stamp hdr) 30 100 (h_env h)) (\<lambda>env. Inr (set_env h env)))"

text \<open>What a native client does with the payload of a get: it asks for the records of the first \<open>num\<close> keys.\<close>

definition cs_process_get :: "rpc_response_header \<Rightarrow> byte_string \<Rightarrow> ('e, 'g) checksum_client \<Rightarrow> host \<Rightarrow> host rust" where
  "cs_process_get hdr record k h =
     rbind (split_at record 17) (\<lambda>(_, keys).
     rbind (split_at keys (unat (cs_num k) * 30)) (\<lambda>(keys, _).
     rbind (send_multiget (rs_tenant hdr) (cs_table_id k) 30 (cs_num k) keys (rs_stamp hdr) (h_env h)) (\<lambda>env. Inr (set_env h env))))"

definition cs_on_native ::
    "hdr_type \<Rightarrow> (rpc_response_header \<Rightarrow> byte_string \<Rightarrow> ('e, 'g) checksum_client \<Rightarrow> host \<Rightarrow> host rust) \<Rightarrow> packet \<Rightarrow>
     ('e, 'g) checksum_client \<Rightarrow> host \<Rightarrow> (('e, 'g) checksum_client \<times> host) rust" where
  "cs_on_native ty process packet k h =
     rbind (parse_header ty packet) (\<lambda>p.
     rbind (response_header p) (\<lambda>hdr.
     rbind (if rs_status hdr = StatusOk then rbind (get_payload p) (\<lambda>pay. process hdr pay k h) else Inr h) (\<lambda>h.
     Inr (k, free_packet p h))))"

definition cs_recv_native ::
    "(u8 \<Rightarrow> byte_string \<Rightarrow> byte_string) \<Rightarrow> packet \<Rightarrow> ('e, 'g) checksum_client \<Rightarrow> host \<Rightarrow> (('e, 'g) checksum_client \<times> host) rust" where
  "cs_recv_native digest packet k h =
     rbind (parse_rpc_opcode packet) (\<lambda>c.
       if c = SandstormGetRpc then cs_on_native GetResponse cs_process_get packet k h
       else if c = SandstormMultiGetRpc then cs_on_native MultiGetResponse (cs_process_multiget digest) packet k h
       else Inr (k, free_packet packet h))"

section \<open>Receiving\<close>

text \<open>An aborted invocation is retried with the payload of the response.\<close>

definition cs_on_invoke :: "bool \<Rightarrow> u64 \<Rightarrow> packet \<Rightarrow> ('e, 'g) checksum_client \<Rightarrow> host \<Rightarrow> (('e, 'g) checksum_client \<times> host) rust" where
  "cs_on_invoke chk now packet k h =
     rbind (parse_header InvokeResponse packet) (\<lambda>p.
     rbind (response_header p) (\<lambda>hdr.
     rbind
       (if rs_status hdr = StatusOk
        then Inr (k\<lparr>cs_latencies := cs_latencies k @ [now - rs_stamp hdr], cs_manager := delete_task (rs_stamp hdr) (cs_manager k),
                    cs_recvd := cs_recvd k + 1, cs_outstanding := cs_outstanding k - 1\<rparr>, h)
        else if rs_status hdr = StatusPushback
        then rbind (get_payload p) (\<lambda>records.
             rbind (update_rwset chk (rs_stamp hdr) records 139 30 (cs_manager k)) (\<lambda>tm. Inr (k\<lparr>cs_manager := tm\<rparr>, h)))
        else if rs_status hdr = StatusTxAbort
        then rbind (get_payload p) (\<lambda>pay.
             rbind (send_invoke (rs_tenant hdr) (cs_name_length k) pay (rs_stamp hdr) (h_env h)) (\<lambda>env.
             Inr (k\<lparr>cs_aborted := cs_aborted k + 1\<rparr>, set_env h env)))
        else Inr (k, h)) (\<lambda>(k, h).
     Inr (k, free_packet p h))))"

definition cs_recv_invoke :: "bool \<Rightarrow> u64 \<Rightarrow> packet \<Rightarrow> ('e, 'g) checksum_client \<Rightarrow> host \<Rightarrow> (('e, 'g) checksum_client \<times> host) rust" where
  "cs_recv_invoke chk now packet k h =
     rbind (parse_rpc_opcode packet) (\<lambda>c.
       if c = SandstormInvokeRpc then cs_on_invoke chk now packet k h else Inr (k, free_packet packet h))"

definition cs_on_commit :: "u64 \<Rightarrow> packet \<Rightarrow> ('e, 'g) checksum_client \<Rightarrow> host \<Rightarrow> (('e, 'g) checksum_client \<times> host) rust" where
  "cs_on_commit now packet k h =
     rbind (parse_header CommitResponse packet) (\<lambda>p.
     rbind (response_header p) (\<lambda>hdr.
     let k = (if rs_status hdr = StatusTxAbort then k\<lparr>cs_aborted := cs_aborted k + 1\<rparr>
              else if rs_status hdr = StatusOk
              then k\<lparr>cs_recvd := cs_recvd k + 1, cs_latencies := cs_latencies k @ [now - rs_stamp hdr]\<rparr>
              else k)
     in Inr (k\<lparr>cs_outstanding := cs_outstanding k - 1\<rparr>, free_packet p h)))"

definition cs_on_packet ::
    "(u8 \<Rightarrow> byte_string \<Rightarrow> byte_string) \<Rightarrow> bool \<Rightarrow> u64 \<Rightarrow> packet \<Rightarrow> ('e, 'g) checksum_client \<times> host \<Rightarrow> (('e, 'g) checksum_client \<times> host) rust" where
  "cs_on_packet digest chk now packet kh =
     (let (k, h) = kh
      in rbind (parse_rpc_opcode packet) (\<lambda>c.
           if c = SandstormCommitRpc then cs_on_commit now packet k h
           else if cs_native k then cs_recv_native digest packet k h
           else cs_recv_invoke chk now packet k h))"

definition cs_recv ::
    "(u8 \<Rightarrow> byte_string \<Rightarrow> byte_string) \<Rightarrow> bool \<Rightarrow> ('e, 'g) checksum_client \<Rightarrow> host \<Rightarrow> (('e, 'g) checksum_client \<times> host) rust" where
  "cs_recv digest chk k h =
     (if cs_finished k \<and> 0 < cs_stop k then Inr (k, h)
      else rbind (poll_port (cs_responses_recv k) h) (\<lambda>(packets, n, h).
           let k = k\<lparr>cs_responses_recv := n\<rparr>
           in rbind (case packets of
                       None \<Rightarrow> Inr (k, h)
                     | Some ps \<Rightarrow> (let (now, h) = read_tsc h in for_each (cs_on_packet digest chk now) ps (k, h))) (\<lambda>(k, h).
              if cs_responses k \<le> cs_recvd k + cs_aborted k
              then let (now, h) = read_tsc h in Inr (k\<lparr>cs_stop := now, cs_finished := True\<rparr>, h)
              else Inr (k, h))))"

section \<open>Running and statistics\<close>

text \<open>The last component is the flag \<open>FINISHED\<close>, when it is set.\<close>

definition cs_execute ::
    "(u8 \<Rightarrow> byte_string \<Rightarrow> byte_string) \<Rightarrow> bool \<Rightarrow> ('e, 'g) ext_init \<Rightarrow> 'g ext_resume \<Rightarrow> ('e, 'g) checksum_client \<Rightarrow> host \<Rightarrow>
     (('e, 'g) checksum_client \<times> host \<times> bool) rust" where
  "cs_execute digest chk init resume k h =
     rbind (cs_send k h) (\<lambda>(k, h).
     rbind (cs_recv digest chk k h) (\<lambda>(k, h).
     rbind (run_tasks chk init resume MAX_CREDIT (cs_manager k, h)) (\<lambda>(tm, h).
     Inr (k\<lparr>cs_manager := tm\<rparr>, h, cs_finished k))))"

definition cs_drop :: "('e, 'g) checksum_client \<Rightarrow> host \<Rightarrow> (('e, 'g) checksum_client \<times> host \<times> (u64 \<times> u64) option) rust" where
  "cs_drop k h =
     (let (k, h) = (if cs_stop k = 0 then let (now, h) = read_tsc h in (k\<lparr>cs_stop := now\<rparr>, h) else (k, h))
      in if cs_master k then rbind (latency_figures (cs_latencies k)) (\<lambda>mt. Inr (k, h, Some mt)) else Inr (k, h, None))"

end
