(* ===== verification/GenClient.thy ===== *)
theory GenClient
  imports YcsbClient
begin

text \<open>
  The generic client, \<open>splinter/src/bin/client/client.rs\<close>: requests come from an implementation of the trait \<open>Workload\<close> (\<open>splinter/src/workload.rs\<close>), in an open or
  a closed loop, natively or as invocations. The trait is a record of functions; \<open>bank_workload\<close> is its one implementation, \<open>splinter/src/bin/client/ycsbt.rs\<close>. An implementation holds a
  reference to the sender of the client, which is part of the \<open>host\<close> here. \<open>process_put_response\<close> is never called and left out.

  The loop of \<open>send\<close> need not end, so \<open>gc_send\<close> returns an option, and \<open>None\<close> means that it runs forever.
\<close>

section \<open>The trait \<open>Workload\<close>\<close>

record 'w workload_impl =
  wi_next_optype :: "'w \<Rightarrow> host \<Rightarrow> opcode \<times> 'w \<times> host"
  wi_name_length :: "'w \<Rightarrow> u32"
  wi_get_invoke_request :: "'w \<Rightarrow> host \<Rightarrow> (u32 \<times> byte_string \<times> 'w \<times> host) rust"
  wi_get_get_request :: "'w \<Rightarrow> host \<Rightarrow> (u32 \<times> byte_string \<times> 'w \<times> host) rust"
  wi_get_put_request :: "'w \<Rightarrow> host \<Rightarrow> (u32 \<times> byte_string \<times> byte_string \<times> 'w \<times> host) rust"
  wi_get_multiget_request :: "'w \<Rightarrow> host \<Rightarrow> (u32 \<times> u32 \<times> byte_string \<times> 'w \<times> host) rust"
  wi_process_get_response :: "rpc_response_header \<Rightarrow> byte_string \<Rightarrow> 'w \<Rightarrow> host \<Rightarrow> ('w \<times> host) rust"
  wi_process_multiget_response :: "rpc_response_header \<Rightarrow> byte_string \<Rightarrow> 'w \<Rightarrow> host \<Rightarrow> ('w \<times> host) rust"

section \<open>Its implementation for YCSB-T\<close>

record gen_config = ycsb_config +
  cf_order :: u32
  cf_open_load :: bool
  cf_total_reqs :: usize

record bank =
  bk_put_pct :: usize
  bk_key_buf :: byte_string
  bk_value_buf :: byte_string
  bk_multikey_buf :: byte_string
  bk_invoke_get :: byte_string
  bk_invoke_get_modify :: byte_string
  bk_table_id :: u64

definition bank_get_payload :: "u64 \<Rightarrow> usize \<Rightarrow> u32 \<Rightarrow> byte_string" where
  "bank_get_payload table_id key_len order =
     resize (5 + 8 + key_len + 4 + 1) (ycsbt_name @ enc_u64 table_id @ replicate 30 0 @ enc_u32 order @ [1])"

definition bank_modify_payload :: "u64 \<Rightarrow> usize \<Rightarrow> u32 \<Rightarrow> byte_string" where
  "bank_modify_payload table_id key_len order =
     resize (5 + 8 + key_len + key_len + 4 + 1) (ycsbt_name @ enc_u64 table_id @ replicate 60 0 @ enc_u32 order @ [2])"

text \<open>The buffer for two keys has the length of two values.\<close>

definition bank_new :: "u64 \<Rightarrow> gen_config \<Rightarrow> bank" where
  "bank_new table_id cf =
     \<lparr>bk_put_pct = cf_put_pct cf, bk_key_buf = replicate (cf_key_len cf) 0, bk_value_buf = replicate (cf_value_len cf) 0,
      bk_multikey_buf = replicate (2 * cf_value_len cf) 0, bk_invoke_get = bank_get_payload table_id (cf_key_len cf) (cf_order cf),
      bk_invoke_get_modify = bank_modify_payload table_id (cf_key_len cf) (cf_order cf), bk_table_id = table_id\<rparr>"

definition bank_is_get :: "draw \<Rightarrow> bank \<Rightarrow> bool" where
  "bank_is_get d w \<longleftrightarrow> (word_of_nat (bk_put_pct w) :: u32) \<le> dr_put d mod 100"

definition bank_next_optype :: "bank \<Rightarrow> host \<Rightarrow> opcode \<times> bank \<times> host" where
  "bank_next_optype w h =
     (let (d, h) = next_draw h in (if bank_is_get d w then SandstormGetRpc else SandstormMultiGetRpc, w, h))"

definition bank_get_invoke_request :: "bank \<Rightarrow> host \<Rightarrow> (u32 \<times> byte_string \<times> bank \<times> host) rust" where
  "bank_get_invoke_request w h =
     (let (d, h) = next_draw h
      in if bank_is_get d w
         then rbind (copy_from_slice_at 13 17 (enc_u32 (dr_key d)) (bk_invoke_get w)) (\<lambda>pay.
              Inr (dr_tenant d, pay, w\<lparr>bk_invoke_get := pay\<rparr>, h))
         else let (d2, h) = next_draw h
              in rbind (copy_from_slice_at 13 17 (enc_u32 (dr_key d)) (bk_invoke_get_modify w)) (\<lambda>pay.
                 rbind (copy_from_slice_at 43 47 (enc_u32 (dr_key d2)) pay) (\<lambda>pay.
                 Inr (dr_tenant d, pay, w\<lparr>bk_invoke_get_modify := pay\<rparr>, h))))"

definition bank_get_get_request :: "bank \<Rightarrow> host \<Rightarrow> (u32 \<times> byte_string \<times> bank \<times> host) rust" where
  "bank_get_get_request w h =
     (let (d, h) = next_draw h
      in rbind (copy_from_slice_at 0 4 (enc_u32 (dr_key d)) (bk_key_buf w)) (\<lambda>key.
         Inr (dr_tenant d, key, w\<lparr>bk_key_buf := key\<rparr>, h)))"

definition bank_get_put_request :: "bank \<Rightarrow> host \<Rightarrow> (u32 \<times> byte_string \<times> byte_string \<times> bank \<times> host) rust" where
  "bank_get_put_request w h =
     (let (d, h) = next_draw h
      in rbind (copy_from_slice_at 0 4 (enc_u32 (dr_key d)) (bk_key_buf w)) (\<lambda>key.
         rbind (copy_from_slice_at 0 4 (enc_u32 (dr_key d)) (bk_value_buf w)) (\<lambda>val.
         Inr (dr_tenant d, key, val, w\<lparr>bk_key_buf := key, bk_value_buf := val\<rparr>, h))))"

definition bank_get_multiget_request :: "bank \<Rightarrow> host \<Rightarrow> (u32 \<times> u32 \<times> byte_string \<times> bank \<times> host) rust" where
  "bank_get_multiget_request w h =
     (let (d, h) = next_draw h; (d2, h) = next_draw h
      in rbind (copy_from_slice_at 0 4 (enc_u32 (dr_key d)) (bk_multikey_buf w)) (\<lambda>keys.
         rbind (copy_from_slice_at 30 34 (enc_u32 (dr_key d2)) keys) (\<lambda>keys.
         Inr (dr_tenant d, 2, keys, w\<lparr>bk_multikey_buf := keys\<rparr>, h))))"

definition bank_process_get_response :: "rpc_response_header \<Rightarrow> byte_string \<Rightarrow> bank \<Rightarrow> host \<Rightarrow> (bank \<times> host) rust" where
  "bank_process_get_response hdr record w h =
     rbind (send_commit (rs_tenant hdr) (bk_table_id w) record (rs_stamp hdr) 30 100 (h_env h)) (\<lambda>env. Inr (w, set_env h env))"

definition bank_process_multiget_response :: "rpc_response_header \<Rightarrow> byte_string \<Rightarrow> bank \<Rightarrow> host \<Rightarrow> (bank \<times> host) rust" where
  "bank_process_multiget_response hdr records w h =
     rbind (multiget_commit_payload records) (\<lambda>commit_payload.
     rbind (send_commit (rs_tenant hdr) (bk_table_id w) commit_payload (rs_stamp hdr) 30 100 (h_env h)) (\<lambda>env. Inr (w, set_env h env)))"

definition bank_workload :: "bank workload_impl" where
  "bank_workload =
     \<lparr>wi_next_optype = bank_next_optype, wi_name_length = (\<lambda>_. 5), wi_get_invoke_request = bank_get_invoke_request,
      wi_get_get_request = bank_get_get_request, wi_get_put_request = bank_get_put_request,
      wi_get_multiget_request = bank_get_multiget_request, wi_process_get_response = bank_process_get_response,
      wi_process_multiget_response = bank_process_multiget_response\<rparr>"

section \<open>The client\<close>

record ('w, 'e, 'g) gen_client =
  gc_responses_recv :: u64
  gc_workload :: 'w
  gc_open_load :: bool
  gc_native :: bool
  gc_rate_inv :: u64
  gc_next :: u64
  gc_table_id :: u64
  gc_responses :: u64
  gc_start :: u64
  gc_recvd :: u64
  gc_aborted :: u64
  gc_latencies :: "u64 list"
  gc_master :: bool
  gc_stop :: u64
  gc_requests :: u64
  gc_sent :: u64
  gc_outstanding :: u64
  gc_manager :: "('e, 'g) task_manager"
  gc_key_len :: usize
  gc_record_len :: usize
  gc_invoke_get_modify :: byte_string

definition Client_new ::
    "u64 \<Rightarrow> gen_config \<Rightarrow> 'w \<Rightarrow> bool \<Rightarrow> 'e ext_manager \<Rightarrow> u64 \<Rightarrow> host \<Rightarrow> (('w, 'e, 'g) gen_client \<times> host) rust" where
  "Client_new cycles_per_second cf workload master exts table_id h =
     (if (word_of_nat (cf_req_rate cf) :: u64) = 0 then Inl DivisionByZero
      else let (start, h) = read_tsc h
           in Inr (\<lparr>gc_responses_recv = 0, gc_workload = workload, gc_open_load = cf_open_load cf, gc_native = (\<not> cf_use_invoke cf),
                gc_rate_inv = cycles_per_second div word_of_nat (cf_req_rate cf), gc_next = 0, gc_table_id = table_id,
                gc_responses = 34000000, gc_start = start, gc_recvd = 0, gc_aborted = 0, gc_latencies = [], gc_master = master, gc_stop = 0,
                gc_requests = word_of_nat (cf_total_reqs cf), gc_sent = 0, gc_outstanding = 0, gc_manager = TaskManager_new exts,
                gc_key_len = cf_key_len cf, gc_record_len = cf_key_len cf + cf_value_len cf + 9,
                gc_invoke_get_modify = bank_modify_payload table_id (cf_key_len cf) (cf_order cf)\<rparr>, h))"

section \<open>Sending\<close>

text \<open>What follows every request.\<close>

definition gc_count :: "'w \<Rightarrow> ('w, 'e, 'g) gen_client \<Rightarrow> ('w, 'e, 'g) gen_client" where
  "gc_count w k = k\<lparr>gc_workload := w, gc_outstanding := gc_outstanding k + 1, gc_sent := gc_sent k + 1\<rparr>"

definition gc_send_native ::
    "'w workload_impl \<Rightarrow> ('w, 'e, 'g) gen_client \<times> host \<Rightarrow> (('w, 'e, 'g) gen_client \<times> host) rust" where
  "gc_send_native wi kh =
     (let (k, h) = kh; (now, h) = read_tsc h; (c, w, h) = wi_next_optype wi (gc_workload k) h
      in if c = SandstormGetRpc
         then rbind (wi_get_get_request wi w h) (\<lambda>(tenant, key, w, h).
              rbind (send_get tenant (gc_table_id k) key now (h_env h)) (\<lambda>env. Inr (gc_count w k, set_env h env)))
         else if c = SandstormPutRpc
         then rbind (wi_get_put_request wi w h) (\<lambda>(tenant, key, val, w, h).
              rbind (send_put tenant (gc_table_id k) key val now (h_env h)) (\<lambda>env. Inr (gc_count w k, set_env h env)))
         else if c = SandstormMultiGetRpc
         then rbind (wi_get_multiget_request wi w h) (\<lambda>(tenant, n_keys, keys, w, h).
              rbind (send_multiget tenant (gc_table_id k) (word_of_nat (gc_key_len k)) n_keys keys now (h_env h)) (\<lambda>env.
              Inr (gc_count w k, set_env h env)))
         else Inr (k\<lparr>gc_workload := w\<rparr>, h))"

definition gc_send_invoke ::
    "'w workload_impl \<Rightarrow> ('w, 'e, 'g) gen_client \<times> host \<Rightarrow> (('w, 'e, 'g) gen_client \<times> host) rust" where
  "gc_send_invoke wi kh =
     (let (k, h) = kh; (now, h) = read_tsc h; name_length = wi_name_length wi (gc_workload k)
      in rbind (wi_get_invoke_request wi (gc_workload k) h) (\<lambda>(tenant, request, w, h).
         rbind (send_invoke tenant name_length request now (h_env h)) (\<lambda>env.
         rbind (create_task now request tenant (unat name_length) (gc_manager k)) (\<lambda>tm.
         Inr ((gc_count w k)\<lparr>gc_manager := tm\<rparr>, set_env h env)))))"

text \<open>One turn of either loop: an invocation is only sent when fewer than 32 tasks are ready.\<close>

definition gc_send_one ::
    "'w workload_impl \<Rightarrow> ('w, 'e, 'g) gen_client \<times> host \<Rightarrow> (('w, 'e, 'g) gen_client \<times> host) rust" where
  "gc_send_one wi kh =
     (if gc_native (fst kh) then gc_send_native wi kh
      else if get_queue_len (gc_manager (fst kh)) < MAX_CREDIT then gc_send_invoke wi kh
      else Inr kh)"

partial_function (option) gc_send_closed ::
    "'w workload_impl \<Rightarrow> ('w, 'e, 'g) gen_client \<times> host \<Rightarrow> (('w, 'e, 'g) gen_client \<times> host) rust option" where
  "gc_send_closed wi kh =
     (if gc_outstanding (fst kh) < word_of_nat MAX_CREDIT
      then case gc_send_one wi kh of Inl e \<Rightarrow> Some (Inl e) | Inr kh \<Rightarrow> gc_send_closed wi kh
      else Some (Inr kh))"

definition gc_send_open ::
    "'w workload_impl \<Rightarrow> ('w, 'e, 'g) gen_client \<times> host \<Rightarrow> (('w, 'e, 'g) gen_client \<times> host) rust" where
  "gc_send_open wi kh =
     (let (k, h) = kh; (now, h) = read_tsc h
      in if gc_next k \<le> now \<or> gc_next k = 0
         then rbind (gc_send_one wi (k, h)) (\<lambda>(k, h). Inr (k\<lparr>gc_next := gc_start k + gc_sent k * gc_rate_inv k\<rparr>, h))
         else Inr (k, h))"

definition gc_send ::
    "'w workload_impl \<Rightarrow> ('w, 'e, 'g) gen_client \<times> host \<Rightarrow> (('w, 'e, 'g) gen_client \<times> host) rust option" where
  "gc_send wi kh =
     (if gc_requests (fst kh) \<le> gc_sent (fst kh) then Some (Inr kh)
      else if gc_open_load (fst kh) then Some (gc_send_open wi kh)
      else gc_send_closed wi kh)"

section \<open>Receiving\<close>

definition gc_on_native ::
    "hdr_type \<Rightarrow> (rpc_response_header \<Rightarrow> byte_string \<Rightarrow> 'w \<Rightarrow> host \<Rightarrow> ('w \<times> host) rust) \<Rightarrow> packet \<Rightarrow>
     ('w, 'e, 'g) gen_client \<Rightarrow> host \<Rightarrow> (('w, 'e, 'g) gen_client \<times> host) rust" where
  "gc_on_native ty process packet k h =
     rbind (parse_header ty packet) (\<lambda>p.
     rbind (response_header p) (\<lambda>hdr.
     rbind (if rs_status hdr = StatusOk then rbind (get_payload p) (\<lambda>pay. process hdr pay (gc_workload k) h) else Inr (gc_workload k, h)) (\<lambda>(w, h).
     Inr (k\<lparr>gc_workload := w\<rparr>, free_packet p h))))"

text \<open>Every packet that is not the response to a commit takes an outstanding request away.\<close>

definition gc_recv_native ::
    "'w workload_impl \<Rightarrow> packet \<Rightarrow> ('w, 'e, 'g) gen_client \<Rightarrow> host \<Rightarrow> (('w, 'e, 'g) gen_client \<times> host) rust" where
  "gc_recv_native wi packet k h =
     rbind (parse_rpc_opcode packet) (\<lambda>c.
     rbind (if c = SandstormGetRpc then gc_on_native GetResponse (wi_process_get_response wi) packet k h
            else if c = SandstormMultiGetRpc then gc_on_native MultiGetResponse (wi_process_multiget_response wi) packet k h
            else Inr (k, free_packet packet h)) (\<lambda>(k, h).
     Inr (k\<lparr>gc_outstanding := gc_outstanding k - 1\<rparr>, h)))"

definition gc_on_invoke ::
    "'w workload_impl \<Rightarrow> bool \<Rightarrow> u64 \<Rightarrow> packet \<Rightarrow> ('w, 'e, 'g) gen_client \<Rightarrow> host \<Rightarrow> (('w, 'e, 'g) gen_client \<times> host) rust" where
  "gc_on_invoke wi chk now packet k h =
     rbind (parse_header InvokeResponse packet) (\<lambda>p.
     rbind (response_header p) (\<lambda>hdr.
     rbind
       (if rs_status hdr = StatusOk
        then Inr (k\<lparr>gc_latencies := gc_latencies k @ [now - rs_stamp hdr], gc_manager := delete_task (rs_stamp hdr) (gc_manager k),
                    gc_recvd := gc_recvd k + 1, gc_outstanding := gc_outstanding k - 1\<rparr>, h)
        else if rs_status hdr = StatusPushback
        then rbind (get_payload p) (\<lambda>records.
             rbind (update_rwset chk (rs_stamp hdr) records (gc_record_len k) (gc_key_len k) (gc_manager k)) (\<lambda>tm.
             Inr (k\<lparr>gc_manager := tm, gc_outstanding := gc_outstanding k - 1\<rparr>, h)))
        else if rs_status hdr = StatusTxAbort
        then rbind (get_payload p) (\<lambda>pay.
             rbind (send_invoke (rs_tenant hdr) (wi_name_length wi (gc_workload k)) pay (rs_stamp hdr) (h_env h)) (\<lambda>env.
             Inr (k\<lparr>gc_aborted := gc_aborted k + 1\<rparr>, set_env h env)))
        else Inr (k, h)) (\<lambda>(k, h).
     Inr (k, free_packet p h))))"

definition gc_on_get ::
    "bool \<Rightarrow> packet \<Rightarrow> ('w, 'e, 'g) gen_client \<Rightarrow> host \<Rightarrow> (('w, 'e, 'g) gen_client \<times> host) rust" where
  "gc_on_get chk packet k h =
     rbind (parse_header GetResponse packet) (\<lambda>p.
     rbind (response_header p) (\<lambda>hdr.
     rbind (get_payload p) (\<lambda>pay.
     rbind (update_rwset chk (rs_stamp hdr) pay (gc_record_len k) (gc_key_len k) (gc_manager k)) (\<lambda>tm.
     Inr (k\<lparr>gc_manager := tm\<rparr>, free_packet p h)))))"

definition gc_recv_invoke ::
    "'w workload_impl \<Rightarrow> bool \<Rightarrow> u64 \<Rightarrow> packet \<Rightarrow> ('w, 'e, 'g) gen_client \<Rightarrow> host \<Rightarrow> (('w, 'e, 'g) gen_client \<times> host) rust" where
  "gc_recv_invoke wi chk now packet k h =
     rbind (parse_rpc_opcode packet) (\<lambda>c.
       if c = SandstormInvokeRpc then gc_on_invoke wi chk now packet k h
       else if c = SandstormGetRpc then gc_on_get chk packet k h
       else Inr (k, free_packet packet h))"

text \<open>An aborted transaction is run again: natively from its reads, whose keys the response carries, or as a transfer.\<close>

definition gc_retry_native ::
    "rpc_response_header \<Rightarrow> byte_string \<Rightarrow> ('w, 'e, 'g) gen_client \<Rightarrow> host \<Rightarrow> (('w, 'e, 'g) gen_client \<times> host) rust" where
  "gc_retry_native hdr pay k h =
     rbind (if length pay = gc_key_len k then send_get (rs_tenant hdr) (gc_table_id k) pay (rs_stamp hdr) (h_env h)
            else if gc_key_len k = 0 then Inl DivisionByZero
            else send_multiget (rs_tenant hdr) (gc_table_id k) (word_of_nat (gc_key_len k))
                   (word_of_nat (length pay div gc_key_len k)) pay (rs_stamp hdr) (h_env h)) (\<lambda>env.
     Inr (k, set_env h env))"

definition gc_retry_invoke ::
    "'w workload_impl \<Rightarrow> rpc_response_header \<Rightarrow> byte_string \<Rightarrow> ('w, 'e, 'g) gen_client \<Rightarrow> host \<Rightarrow> (('w, 'e, 'g) gen_client \<times> host) rust" where
  "gc_retry_invoke wi hdr records k h =
     (let name_length = wi_name_length wi (gc_workload k)
      in rbind (chunks records (gc_key_len k)) (\<lambda>keys.
         rbind (fill_keys 13 keys (gc_invoke_get_modify k)) (\<lambda>pay.
         rbind (send_invoke (rs_tenant hdr) name_length pay (rs_stamp hdr) (h_env h)) (\<lambda>env.
         rbind (create_task (rs_stamp hdr) pay (rs_tenant hdr) (unat name_length) (gc_manager k)) (\<lambda>tm.
         Inr (k\<lparr>gc_invoke_get_modify := pay, gc_manager := tm\<rparr>, set_env h env))))))"

definition gc_on_commit ::
    "'w workload_impl \<Rightarrow> u64 \<Rightarrow> packet \<Rightarrow> ('w, 'e, 'g) gen_client \<Rightarrow> host \<Rightarrow> (('w, 'e, 'g) gen_client \<times> host) rust" where
  "gc_on_commit wi now packet k h =
     rbind (parse_header CommitResponse packet) (\<lambda>p.
     rbind (response_header p) (\<lambda>hdr.
     rbind
       (if rs_status hdr = StatusTxAbort
        then rbind (get_payload p) (\<lambda>pay.
             rbind (if gc_native k then gc_retry_native hdr pay k h else gc_retry_invoke wi hdr pay k h) (\<lambda>(k, h).
             Inr (k\<lparr>gc_aborted := gc_aborted k + 1, gc_outstanding := gc_outstanding k + 1\<rparr>, h)))
        else if rs_status hdr = StatusOk
        then Inr (k\<lparr>gc_recvd := gc_recvd k + 1, gc_latencies := gc_latencies k @ [now - rs_stamp hdr]\<rparr>, h)
        else Inr (k, h)) (\<lambda>(k, h).
     Inr (k, free_packet p h))))"

definition gc_on_packet ::
    "'w workload_impl \<Rightarrow> bool \<Rightarrow> u64 \<Rightarrow> packet \<Rightarrow> ('w, 'e, 'g) gen_client \<times> host \<Rightarrow> (('w, 'e, 'g) gen_client \<times> host) rust" where
  "gc_on_packet wi chk now packet kh =
     (let (k, h) = kh
      in rbind (parse_rpc_opcode packet) (\<lambda>c.
           if c = SandstormCommitRpc then gc_on_commit wi now packet k h
           else if gc_native k then gc_recv_native wi packet k h
           else gc_recv_invoke wi chk now packet k h))"

definition gc_recv ::
    "'w workload_impl \<Rightarrow> bool \<Rightarrow> ('w, 'e, 'g) gen_client \<times> host \<Rightarrow> (('w, 'e, 'g) gen_client \<times> host) rust" where
  "gc_recv wi chk kh =
     (let (k, h) = kh
      in if 0 < gc_stop k then Inr (k, h)
         else rbind (poll_port (gc_responses_recv k) h) (\<lambda>(packets, n, h).
              let k = k\<lparr>gc_responses_recv := n\<rparr>
              in rbind (case packets of
                          None \<Rightarrow> Inr (k, h)
                        | Some ps \<Rightarrow> (let (now, h) = read_tsc h in for_each (gc_on_packet wi chk now) ps (k, h))) (\<lambda>(k, h).
                 if gc_responses k \<le> gc_recvd k + gc_aborted k
                 then let (now, h) = read_tsc h in Inr (k\<lparr>gc_stop := now\<rparr>, h)
                 else Inr (k, h))))"

section \<open>Running and statistics\<close>

definition gc_run_tasks ::
    "bool \<Rightarrow> ('e, 'g) ext_init \<Rightarrow> 'g ext_resume \<Rightarrow> ('w, 'e, 'g) gen_client \<times> host \<Rightarrow> (('w, 'e, 'g) gen_client \<times> host) rust" where
  "gc_run_tasks chk init resume kh =
     (let (k, h) = kh
      in if \<not> gc_native k \<and> 0 < get_queue_len (gc_manager k)
         then rbind (run_tasks chk init resume MAX_CREDIT (gc_manager k, h)) (\<lambda>(tm, h). Inr (k\<lparr>gc_manager := tm\<rparr>, h))
         else Inr (k, h))"

text \<open>A turn; the client is finished when \<open>gc_stop\<close> is set.\<close>

definition gc_execute ::
    "'w workload_impl \<Rightarrow> bool \<Rightarrow> ('e, 'g) ext_init \<Rightarrow> 'g ext_resume \<Rightarrow> ('w, 'e, 'g) gen_client \<times> host \<Rightarrow>
     (('w, 'e, 'g) gen_client \<times> host) rust option" where
  "gc_execute wi chk init resume kh =
     map_option (\<lambda>r. rbind r (\<lambda>kh. rbind (gc_recv wi chk kh) (gc_run_tasks chk init resume))) (gc_send wi kh)"

text \<open>When it ends, the client sends one more invocation with the last byte of its payload, the operation of \<open>ycsbt\<close>, set to 3.\<close>

definition gc_drop ::
    "'w workload_impl \<Rightarrow> ('w, 'e, 'g) gen_client \<times> host \<Rightarrow> (('w, 'e, 'g) gen_client \<times> host \<times> (u64 \<times> u64) option) rust" where
  "gc_drop wi kh =
     (let (k, h) = kh;
          (k, h) = (if gc_stop k = 0 then let (now, h) = read_tsc h in (k\<lparr>gc_stop := now\<rparr>, h) else (k, h))
      in rbind (wi_get_invoke_request wi (gc_workload k) h) (\<lambda>(tenant, request, w, h).
         if request = [] then Inl IndexOutOfBounds
         else let (now, h) = read_tsc h
              in rbind (send_invoke tenant 5 (request[length request - 1 := 3]) now (h_env h)) (\<lambda>env.
                 let k = k\<lparr>gc_workload := w\<rparr>; h = set_env h env
                 in if gc_master k then rbind (latency_figures (gc_latencies k)) (\<lambda>mt. Inr (k, h, Some mt)) else Inr (k, h, None))))"

end
