(* ===== verification/GenRuns.thy ===== *)
theory GenRuns
  imports GenClient
begin

text \<open>
  The generic client: its state stays well-typed, whatever arrives, and when the loop that fills its window ends. Both rest on a contract of the trait \<open>Workload\<close>, the locale
  \<open>request_source\<close>.
\<close>

section \<open>A contract for workloads\<close>

text \<open>A source of read requests that never panics and whose requests fit into packets with room for \<open>room\<close> bytes.\<close>

locale request_source =
  fixes wi :: "'w workload_impl" and good :: "'w \<Rightarrow> bool" and room :: usize
  assumes next_optype: "good w \<Longrightarrow> wi_next_optype wi w h = (c, w', h') \<Longrightarrow>
      c \<in> {SandstormGetRpc, SandstormMultiGetRpc} \<and> good w' \<and> h_env h' = h_env h"
    and get_request: "good w \<Longrightarrow> \<exists>tenant key w' h'. wi_get_get_request wi w h = Inr (tenant, key, w', h') \<and> good w' \<and> h_env h' = h_env h \<and>
      key \<noteq> [] \<and> 67 + length key \<le> room \<and> length key \<le> 65535"
    and multiget_request: "good w \<Longrightarrow> \<exists>tenant n keys w' h'. wi_get_multiget_request wi w h = Inr (tenant, n, keys, w', h') \<and> good w' \<and>
      h_env h' = h_env h \<and> keys \<noteq> [] \<and> 70 + length keys \<le> room"
    and invoke_request: "good w \<Longrightarrow> \<exists>tenant req w' h'. wi_get_invoke_request wi w h = Inr (tenant, req, w', h') \<and> good w' \<and> h_env h' = h_env h \<and>
      req \<noteq> [] \<and> 64 + length req \<le> room \<and> length req < 2 ^ 32 \<and> unat (wi_name_length wi w) \<le> length req \<and>
      utf8_valid (take (unat (wi_name_length wi w)) req)"

lemma create_task_valid:
  assumes "n \<le> length req" and "utf8_valid (take n req)"
  shows "\<exists>tm'. create_task i req tenant n tm = Inr tm' \<and> tm_ready tm' = tm_ready tm"
  using assms by (auto simp: create_task_def split: option.splits)

text \<open>What a request sent changes.\<close>

definition sent_one :: "('w \<Rightarrow> bool) \<Rightarrow> usize \<Rightarrow> ('w, 'e, 'g) gen_client \<times> host \<Rightarrow> ('w, 'e, 'g) gen_client \<times> host \<Rightarrow> bool" where
  "sent_one good room kh kh' \<longleftrightarrow> good (gc_workload (fst kh')) \<and> accepting room (h_env (snd kh')) \<and>
     gc_outstanding (fst kh') = gc_outstanding (fst kh) + 1 \<and> gc_sent (fst kh') = gc_sent (fst kh) + 1 \<and>
     gc_native (fst kh') = gc_native (fst kh) \<and> tm_ready (gc_manager (fst kh')) = tm_ready (gc_manager (fst kh)) \<and>
     length (wire (snd (h_env (snd kh')))) = length (wire (snd (h_env (snd kh)))) + 1"

context request_source
begin

lemma send_native_returns:
  assumes "good (gc_workload k)" and "accepting room (h_env h)"
  shows "\<exists>kh'. gc_send_native wi (k, h) = Inr kh' \<and> sent_one good room (k, h) kh'"
proof -
  obtain now h1 where now: "read_tsc h = (now, h1)" by fastforce
  then have env1: "h_env h1 = h_env h" by (auto simp: read_tsc_def)
  obtain c w h2 where c: "wi_next_optype wi (gc_workload k) h1 = (c, w, h2)" by (metis prod_cases3)
  note nx = next_optype [OF assms(1) c]
  show ?thesis
  proof (cases "c = SandstormGetRpc")
    case True
    obtain tenant key w' h3 where rq: "wi_get_get_request wi w h2 = Inr (tenant, key, w', h3)" "good w'" "h_env h3 = h_env h2"
        "key \<noteq> []" "67 + length key \<le> room" "length key \<le> 65535"
      using get_request [of w h2] nx by blast
    have acc: "accepting room (h_env h3)" using assms(2) env1 nx rq(3) by simp
    obtain env where env: "send_get tenant (gc_table_id k) key now (h_env h3) = Inr env" "accepting room env"
        "length (wire (snd env)) = length (wire (snd (h_env h3))) + 1"
      using send_get_accepted [OF acc rq(4-6)] by blast
    then show ?thesis
      using True nx env1 rq(1-3) by (simp add: gc_send_native_def now c sent_one_def gc_count_def set_env_def)
  next
    case False
    then have mg: "c = SandstormMultiGetRpc" using nx by blast
    obtain tenant n keys w' h3 where rq: "wi_get_multiget_request wi w h2 = Inr (tenant, n, keys, w', h3)" "good w'" "h_env h3 = h_env h2"
        "keys \<noteq> []" "70 + length keys \<le> room"
      using multiget_request [of w h2] nx by blast
    have acc: "accepting room (h_env h3)" using assms(2) env1 nx rq(3) by simp
    obtain env where env: "send_multiget tenant (gc_table_id k) (word_of_nat (gc_key_len k)) n keys now (h_env h3) = Inr env" "accepting room env"
        "length (wire (snd env)) = length (wire (snd (h_env h3))) + 1"
      using send_multiget_accepted [OF acc rq(4,5)] by blast
    then show ?thesis
      using mg nx env1 rq(1-3) by (simp add: gc_send_native_def now c sent_one_def gc_count_def set_env_def)
  qed
qed

lemma send_invoke_returns:
  assumes "good (gc_workload k)" and "accepting room (h_env h)"
  shows "\<exists>kh'. gc_send_invoke wi (k, h) = Inr kh' \<and> sent_one good room (k, h) kh'"
proof -
  obtain now h1 where now: "read_tsc h = (now, h1)" by fastforce
  then have env1: "h_env h1 = h_env h" by (auto simp: read_tsc_def)
  let ?n = "wi_name_length wi (gc_workload k)"
  obtain tenant req w h2 where rq: "wi_get_invoke_request wi (gc_workload k) h1 = Inr (tenant, req, w, h2)" "good w" "h_env h2 = h_env h1"
      "req \<noteq> []" "64 + length req \<le> room" "length req < 2 ^ 32" "unat ?n \<le> length req" "utf8_valid (take (unat ?n) req)"
    using invoke_request [OF assms(1), of h1] by blast
  have acc: "accepting room (h_env h2)" using assms(2) env1 rq(3) by simp
  obtain env where env: "send_invoke tenant ?n req now (h_env h2) = Inr env" "accepting room env"
      "length (wire (snd env)) = length (wire (snd (h_env h2))) + 1"
    using send_invoke_accepted [OF acc rq(4,5,7,6)] by blast
  obtain tm where tm: "create_task now req tenant (unat ?n) (gc_manager k) = Inr tm" "tm_ready tm = tm_ready (gc_manager k)"
    using create_task_valid [OF rq(7,8)] by blast
  show ?thesis using env1 rq(1-3) env tm by (simp add: gc_send_invoke_def now sent_one_def gc_count_def set_env_def)
qed

lemma send_one_returns:
  assumes "good (gc_workload k)" and "accepting room (h_env h)" and "gc_native k \<or> get_queue_len (gc_manager k) < 32"
  shows "\<exists>kh'. gc_send_one wi (k, h) = Inr kh' \<and> sent_one good room (k, h) kh'"
  using send_native_returns [OF assms(1,2)] send_invoke_returns [OF assms(1,2)] assms(3)
  by (cases "gc_native k") (simp_all add: gc_send_one_def MAX_CREDIT_def)

text \<open>The loop fills the window when it may send at all.\<close>

lemma closed_fills:
  assumes "good (gc_workload (fst kh))" and "accepting room (h_env (snd kh))"
    and "gc_native (fst kh) \<or> get_queue_len (gc_manager (fst kh)) < 32" and "unat (gc_outstanding (fst kh)) \<le> 32"
  shows "\<exists>kh'. gc_send_closed wi kh = Some (Inr kh') \<and> gc_outstanding (fst kh') = 32 \<and>
    gc_sent (fst kh') = gc_sent (fst kh) + (32 - gc_outstanding (fst kh)) \<and>
    length (wire (snd (h_env (snd kh')))) = length (wire (snd (h_env (snd kh)))) + (32 - unat (gc_outstanding (fst kh)))"
  using assms
proof (induction "32 - unat (gc_outstanding (fst kh))" arbitrary: kh)
  case 0
  then have "gc_outstanding (fst kh) = 32" by (simp add: word_unat_eq_iff)
  then show ?case by (simp add: gc_send_closed.simps MAX_CREDIT_def)
next
  case (Suc n)
  have lt: "unat (gc_outstanding (fst kh)) < 32" using Suc.hyps(2) by linarith
  obtain kh1 where one: "gc_send_one wi kh = Inr kh1" "sent_one good room kh kh1"
    using send_one_returns [of "fst kh" "snd kh"] Suc.prems by auto
  have out: "unat (gc_outstanding (fst kh1)) = unat (gc_outstanding (fst kh)) + 1"
    using lt outstanding_step [of "gc_outstanding (fst kh)"] one(2) by (simp add: sent_one_def)
  have "n = 32 - unat (gc_outstanding (fst kh1))" "unat (gc_outstanding (fst kh1)) \<le> 32" using Suc.hyps(2) lt out by linarith+
  moreover have "good (gc_workload (fst kh1))" "accepting room (h_env (snd kh1))"
      "gc_native (fst kh1) \<or> get_queue_len (gc_manager (fst kh1)) < 32"
    using one(2) Suc.prems(3) by (auto simp: sent_one_def get_queue_len_def)
  ultimately obtain kh' where rest: "gc_send_closed wi kh1 = Some (Inr kh')" "gc_outstanding (fst kh') = 32"
      "gc_sent (fst kh') = gc_sent (fst kh1) + (32 - gc_outstanding (fst kh1))"
      "length (wire (snd (h_env (snd kh')))) = length (wire (snd (h_env (snd kh1)))) + (32 - unat (gc_outstanding (fst kh1)))"
    using Suc.hyps(1) [of kh1] by blast
  have "gc_outstanding (fst kh) < word_of_nat MAX_CREDIT" using lt by (simp add: MAX_CREDIT_def word_less_nat_alt)
  then have "gc_send_closed wi kh = gc_send_closed wi kh1" using one(1) by (subst gc_send_closed.simps) simp
  then show ?case using rest one(2) out lt by (simp add: sent_one_def algebra_simps)
qed

lemma closed_at_limit: "\<not> gc_outstanding (fst kh) < 32 \<Longrightarrow> gc_send_closed wi kh = Some (Inr kh)"
  by (simp add: gc_send_closed.simps MAX_CREDIT_def)

end

text \<open>With 32 tasks ready and fewer requests outstanding, the loop does nothing, again and again.\<close>

lemma closed_stuck:
  fixes kh :: "('w, 'e, 'g) gen_client \<times> host"
  assumes "\<not> gc_native (fst kh)" and "32 \<le> get_queue_len (gc_manager (fst kh))" and "gc_outstanding (fst kh) < 32"
  shows "gc_send_closed wi kh = None"
proof -
  define stuck where "stuck x \<longleftrightarrow> \<not> gc_native (fst x) \<and> 32 \<le> get_queue_len (gc_manager (fst x)) \<and> gc_outstanding (fst x) < 32"
    for x :: "('w, 'e, 'g) gen_client \<times> host"
  have idle: "stuck x \<Longrightarrow> gc_send_one w x = Inr x" "stuck x \<Longrightarrow> gc_outstanding (fst x) < word_of_nat MAX_CREDIT" for w x
    by (simp_all add: stuck_def gc_send_one_def MAX_CREDIT_def)
  have never: "gc_send_closed wi x = Some y \<Longrightarrow> \<not> stuck x" for x y
    by (erule gc_send_closed.raw_induct [rotated]) (use idle in fastforce)
  have "stuck kh" using assms by (simp add: stuck_def)
  then show ?thesis using never [of kh] by (cases "gc_send_closed wi kh") auto
qed

section \<open>The workload of transfers\<close>

text \<open>Keys of 30 bytes; the buffer for two keys has any length up to that of two values of 100 bytes.\<close>

definition bank_ok :: "bank \<Rightarrow> bool" where
  "bank_ok w \<longleftrightarrow> length (bk_key_buf w) = 30 \<and> 34 \<le> length (bk_multikey_buf w) \<and> length (bk_multikey_buf w) \<le> 200 \<and>
     length (bk_invoke_get w) = 48 \<and> take 5 (bk_invoke_get w) = ycsbt_name \<and>
     length (bk_invoke_get_modify w) = 78 \<and> take 5 (bk_invoke_get_modify w) = ycsbt_name"

lemma utf8_ycsbt: "utf8_valid ycsbt_name"
  by code_simp

lemma copy_keeps:
  assumes "copy_from_slice_at i j src xs = Inr ys" and "5 \<le> i"
  shows "length ys = length xs" "take 5 ys = take 5 xs"
  using assms by (auto simp: copy_from_slice_at_def write_at_def split: if_splits)

lemma bank_get_request:
  assumes "bank_ok w"
  shows "\<exists>tenant key w' h'. bank_get_get_request w h = Inr (tenant, key, w', h') \<and> bank_ok w' \<and> h_env h' = h_env h \<and> length key = 30"
  using assms by (simp add: bank_get_get_request_def next_draw_def Let_def copy_from_slice_at_def bank_ok_def)

lemma bank_multiget_request:
  assumes "bank_ok w"
  shows "\<exists>tenant n keys w' h'. bank_get_multiget_request w h = Inr (tenant, n, keys, w', h') \<and> bank_ok w' \<and> h_env h' = h_env h \<and>
    length keys = length (bk_multikey_buf w)"
  using assms by (simp add: bank_get_multiget_request_def next_draw_def Let_def copy_from_slice_at_def bank_ok_def)

lemma bank_invoke_request:
  assumes "bank_ok w"
  shows "\<exists>tenant req w' h'. bank_get_invoke_request w h = Inr (tenant, req, w', h') \<and> bank_ok w' \<and> h_env h' = h_env h \<and>
    take 5 req = ycsbt_name \<and> length req \<in> {48, 78}"
  using assms by (simp add: bank_get_invoke_request_def next_draw_def Let_def copy_from_slice_at_def bank_ok_def write_at_def)

interpretation bank: request_source bank_workload bank_ok 300
proof
  fix w and h h' :: host and c w'
  assume "bank_ok w" and "wi_next_optype bank_workload w h = (c, w', h')"
  then show "c \<in> {SandstormGetRpc, SandstormMultiGetRpc} \<and> bank_ok w' \<and> h_env h' = h_env h"
    by (auto simp: bank_workload_def bank_next_optype_def next_draw_def split: if_splits)
next
  fix w and h :: host
  assume w: "bank_ok w"
  obtain tenant key w' h' where "bank_get_get_request w h = Inr (tenant, key, w', h')" "bank_ok w'" "h_env h' = h_env h" "length key = 30"
    using bank_get_request [OF w] by blast
  then show "\<exists>tenant key w' h'. wi_get_get_request bank_workload w h = Inr (tenant, key, w', h') \<and> bank_ok w' \<and> h_env h' = h_env h \<and>
      key \<noteq> [] \<and> 67 + length key \<le> 300 \<and> length key \<le> 65535"
    by (auto simp: bank_workload_def)
next
  fix w and h :: host
  assume w: "bank_ok w"
  obtain tenant n keys w' h' where "bank_get_multiget_request w h = Inr (tenant, n, keys, w', h')" "bank_ok w'" "h_env h' = h_env h"
      "length keys = length (bk_multikey_buf w)"
    using bank_multiget_request [OF w] by blast
  moreover have "34 \<le> length (bk_multikey_buf w)" "length (bk_multikey_buf w) \<le> 200" using w by (simp_all add: bank_ok_def)
  ultimately show "\<exists>tenant n keys w' h'. wi_get_multiget_request bank_workload w h = Inr (tenant, n, keys, w', h') \<and> bank_ok w' \<and>
      h_env h' = h_env h \<and> keys \<noteq> [] \<and> 70 + length keys \<le> 300"
    by (auto simp: bank_workload_def)
next
  fix w and h :: host
  assume w: "bank_ok w"
  obtain tenant req w' h' where "bank_get_invoke_request w h = Inr (tenant, req, w', h')" "bank_ok w'" "h_env h' = h_env h"
      "take 5 req = ycsbt_name" "length req \<in> {48, 78}"
    using bank_invoke_request [OF w] by blast
  moreover from this(5) have "req \<noteq> []" by auto
  ultimately show "\<exists>tenant req w' h'. wi_get_invoke_request bank_workload w h = Inr (tenant, req, w', h') \<and> bank_ok w' \<and> h_env h' = h_env h \<and>
      req \<noteq> [] \<and> 64 + length req \<le> 300 \<and> length req < 2 ^ 32 \<and> unat (wi_name_length bank_workload w) \<le> length req \<and>
      utf8_valid (take (unat (wi_name_length bank_workload w)) req)"
    using utf8_ycsbt by (auto simp: bank_workload_def)
qed

section \<open>Well-typed clients\<close>

definition gc_typed :: "(bank, 'e, 'g) gen_client \<Rightarrow> bool" where
  "gc_typed k \<longleftrightarrow> bank_ok (gc_workload k) \<and> length (gc_invoke_get_modify k) = 78 \<and> take 5 (gc_invoke_get_modify k) = ycsbt_name \<and>
     gc_key_len k = 30 \<and> gc_record_len k = 139"

lemma gc_typed_update [simp]:
  "gc_typed (k\<lparr>gc_manager := tm\<rparr>) = gc_typed k" "gc_typed (k\<lparr>gc_next := t\<rparr>) = gc_typed k" "gc_typed (k\<lparr>gc_stop := t\<rparr>) = gc_typed k"
  "gc_typed (k\<lparr>gc_responses_recv := n\<rparr>) = gc_typed k" "gc_typed (k\<lparr>gc_outstanding := n\<rparr>) = gc_typed k"
  "gc_typed (k\<lparr>gc_recvd := n\<rparr>) = gc_typed k" "gc_typed (k\<lparr>gc_aborted := n\<rparr>) = gc_typed k"
  "gc_typed (k\<lparr>gc_latencies := ls\<rparr>) = gc_typed k"
  by (simp_all add: gc_typed_def)

lemma gc_typed_count: "gc_typed k \<Longrightarrow> bank_ok w \<Longrightarrow> gc_typed (gc_count w k)"
  by (simp add: gc_typed_def gc_count_def)

lemma fill_keys_keeps:
  "fill_keys i keys pay = Inr pay' \<Longrightarrow> 5 \<le> i \<Longrightarrow> length pay' = length pay \<and> take 5 pay' = take 5 pay"
proof (induction keys arbitrary: i pay)
  case (Cons key keys)
  then obtain src pay1 where "copy_from_slice_at i (i + 4) src pay = Inr pay1" "fill_keys (i + 30) keys pay1 = Inr pay'" by auto
  then show ?case using Cons.IH [of "i + 30" pay1] Cons.prems(2) copy_keeps [of i "i + 4" src pay pay1] by simp
qed simp

lemma send_native_typed:
  assumes "gc_send_native bank_workload (k, h) = Inr (k', h')" and "gc_typed k"
  shows "gc_typed k'"
proof -
  obtain c w h1 where c: "wi_next_optype bank_workload (gc_workload k) (snd (read_tsc h)) = (c, w, h1)" by (metis prod_cases3)
  have w: "c \<in> {SandstormGetRpc, SandstormMultiGetRpc}" "bank_ok w"
    using bank.next_optype [OF _ c] assms(2) by (simp_all add: gc_typed_def)
  obtain w' where "bank_ok w'" "k' = gc_count w' k"
    using assms(1) w bank.get_request [OF w(2), of h1] bank.multiget_request [OF w(2), of h1]
    by (cases "c = SandstormGetRpc") (auto simp: gc_send_native_def c case_prod_beta Let_def)
  then show ?thesis using assms(2) gc_typed_count by blast
qed

lemma send_invoke_typed:
  assumes "gc_send_invoke bank_workload (k, h) = Inr (k', h')" and "gc_typed k"
  shows "gc_typed k'"
proof -
  have ok: "bank_ok (gc_workload k)" using assms(2) by (simp add: gc_typed_def)
  obtain w' tm where "bank_ok w'" "k' = (gc_count w' k)\<lparr>gc_manager := tm\<rparr>"
    using assms(1) bank.invoke_request [OF ok, of "snd (read_tsc h)"] by (auto simp: gc_send_invoke_def case_prod_beta Let_def)
  then show ?thesis using assms(2) gc_typed_count by simp
qed

lemma send_one_typed: "gc_send_one bank_workload kh = Inr kh' \<Longrightarrow> gc_typed (fst kh) \<Longrightarrow> gc_typed (fst kh')"
  using send_native_typed [of "fst kh" "snd kh"] send_invoke_typed [of "fst kh" "snd kh"]
  by (cases kh') (auto simp: gc_send_one_def split: if_splits)

lemma send_closed_typed:
  fixes kh :: "(bank, 'e, 'g) gen_client \<times> host"
  assumes run: "gc_send_closed bank_workload kh = Some (Inr kh')" and "gc_typed (fst kh)"
  shows "gc_typed (fst kh')"
proof -
  define P where "P wi x y \<longleftrightarrow> (wi = bank_workload \<longrightarrow> gc_typed (fst x) \<longrightarrow> (\<forall>kh'. y = Inr kh' \<longrightarrow> gc_typed (fst kh')))"
    for wi :: "bank workload_impl" and x :: "(bank, 'e, 'g) gen_client \<times> host" and y :: "((bank, 'e, 'g) gen_client \<times> host) rust"
  have "P bank_workload kh (Inr kh')"
  proof (rule gc_send_closed.raw_induct [OF _ run])
    fix loop :: "bank workload_impl \<Rightarrow> (bank, 'e, 'g) gen_client \<times> host \<Rightarrow> ((bank, 'e, 'g) gen_client \<times> host) rust option" and wi x y
    assume IH: "\<And>wi x y. loop wi x = Some y \<Longrightarrow> P wi x y"
      and step: "(if gc_outstanding (fst x) < word_of_nat MAX_CREDIT
        then case gc_send_one wi x of Inl e \<Rightarrow> Some (Inl e) | Inr kh \<Rightarrow> loop wi kh else Some (Inr x)) = Some y"
    show "P wi x y"
    proof (cases "gc_outstanding (fst x) < word_of_nat MAX_CREDIT \<and> (\<exists>x'. gc_send_one wi x = Inr x')")
      case True
      then obtain x' where x': "gc_send_one wi x = Inr x'" "loop wi x' = Some y" using step by auto
      then show ?thesis using IH [OF x'(2)] send_one_typed [of x x'] by (auto simp: P_def)
    next
      case False
      then show ?thesis using step by (auto simp: P_def split: if_splits sum.splits)
    qed
  qed
  then show ?thesis using assms(2) by (simp add: P_def)
qed

lemma send_open_typed: "gc_send_open bank_workload kh = Inr kh' \<Longrightarrow> gc_typed (fst kh) \<Longrightarrow> gc_typed (fst kh')"
  by (cases kh') (auto simp: gc_send_open_def case_prod_beta Let_def split: if_splits dest!: send_one_typed)

lemma send_typed: "gc_send bank_workload kh = Some (Inr kh') \<Longrightarrow> gc_typed (fst kh) \<Longrightarrow> gc_typed (fst kh')"
  by (auto simp: gc_send_def split: if_splits dest: send_open_typed send_closed_typed)

lemma on_native_typed:
  assumes "gc_on_native ty process packet k h = Inr (k', h')" and "gc_typed k"
    and "\<And>hdr pay w h w' h'. process hdr pay w h = Inr (w', h') \<Longrightarrow> w' = w"
  shows "gc_typed k'"
  using assms(1,2) by (auto simp: gc_on_native_def gc_typed_def split: if_splits dest!: assms(3))

lemma bank_process_keeps:
  "wi_process_get_response bank_workload hdr pay w h = Inr (w', h') \<Longrightarrow> w' = w"
  "wi_process_multiget_response bank_workload hdr pay w h = Inr (w', h') \<Longrightarrow> w' = w"
  by (auto simp: bank_workload_def bank_process_get_response_def bank_process_multiget_response_def)

lemma recv_native_typed:
  assumes "gc_recv_native bank_workload packet k h = Inr (k', h')" and "gc_typed k"
  shows "gc_typed k'"
proof -
  obtain k1 h1 where k1: "k' = k1\<lparr>gc_outstanding := gc_outstanding k1 - 1\<rparr>"
      "gc_on_native GetResponse (wi_process_get_response bank_workload) packet k h = Inr (k1, h1) \<or>
       gc_on_native MultiGetResponse (wi_process_multiget_response bank_workload) packet k h = Inr (k1, h1) \<or> k1 = k"
    using assms(1) by (auto simp: gc_recv_native_def split: if_splits)
  then have "gc_typed k1" using assms(2) on_native_typed bank_process_keeps by metis
  then show ?thesis by (simp add: k1(1))
qed

lemma on_invoke_typed: "gc_on_invoke wi chk now packet k h = Inr (k', h') \<Longrightarrow> gc_typed k \<Longrightarrow> gc_typed k'"
  unfolding gc_on_invoke_def rbind_eq_Inr by (auto split: if_splits)

lemma on_get_typed: "gc_on_get chk packet k h = Inr (k', h') \<Longrightarrow> gc_typed k \<Longrightarrow> gc_typed k'"
  by (auto simp: gc_on_get_def)

lemma recv_invoke_typed: "gc_recv_invoke wi chk now packet k h = Inr (k', h') \<Longrightarrow> gc_typed k \<Longrightarrow> gc_typed k'"
  unfolding gc_recv_invoke_def rbind_eq_Inr by (auto split: if_splits dest: on_invoke_typed on_get_typed)

lemma retry_invoke_typed:
  assumes "gc_retry_invoke wi hdr pay k h = Inr (k', h')" and "gc_typed k"
  shows "gc_typed k'"
proof -
  obtain keys pay' tm where "fill_keys 13 keys (gc_invoke_get_modify k) = Inr pay'" "k' = k\<lparr>gc_invoke_get_modify := pay', gc_manager := tm\<rparr>"
    using assms(1) by (auto simp: gc_retry_invoke_def Let_def)
  then show ?thesis using fill_keys_keeps [of 13 keys "gc_invoke_get_modify k" pay'] assms(2) by (simp add: gc_typed_def)
qed

lemma retry_native_typed: "gc_retry_native hdr pay k h = Inr (k', h') \<Longrightarrow> gc_typed k \<Longrightarrow> gc_typed k'"
  by (auto simp: gc_retry_native_def split: if_splits)

lemma on_commit_typed: "gc_on_commit wi now packet k h = Inr (k', h') \<Longrightarrow> gc_typed k \<Longrightarrow> gc_typed k'"
  by (auto simp: gc_on_commit_def split: if_splits dest: retry_native_typed retry_invoke_typed)

lemma on_packet_typed:
  "gc_on_packet bank_workload chk now packet kh = Inr kh' \<Longrightarrow> gc_typed (fst kh) \<Longrightarrow> gc_typed (fst kh')"
  by (cases kh; cases kh')
    (auto simp: gc_on_packet_def split: if_splits dest!: on_commit_typed recv_native_typed recv_invoke_typed)

lemma for_each_typed:
  "for_each (gc_on_packet bank_workload chk now) ps kh = Inr kh' \<Longrightarrow> gc_typed (fst kh) \<Longrightarrow> gc_typed (fst kh')"
  by (induction ps arbitrary: kh) (auto dest!: on_packet_typed)

lemma recv_typed:
  assumes "gc_recv bank_workload chk (k, h0) = Inr kh'" and "gc_typed k"
  shows "gc_typed (fst kh')"
proof (cases "0 < gc_stop k")
  case True
  then show ?thesis using assms by (auto simp: gc_recv_def)
next
  case False
  obtain packets n h where poll: "poll_port (gc_responses_recv k) h0 = Inr (packets, n, h)"
    using assms(1) False by (auto simp: gc_recv_def case_prod_beta)
  let ?k = "k\<lparr>gc_responses_recv := n\<rparr>"
  define burst where "burst = (case packets of None \<Rightarrow> Inr (?k, h)
      | Some ps \<Rightarrow> (let (now, h) = read_tsc h in for_each (gc_on_packet bank_workload chk now) ps (?k, h)))"
  have "rbind burst (\<lambda>(k, h). if gc_responses k \<le> gc_recvd k + gc_aborted k
      then let (now, h) = read_tsc h in Inr (k\<lparr>gc_stop := now\<rparr>, h) else Inr (k, h)) = Inr kh'"
    using assms(1) False poll unfolding burst_def by (simp add: gc_recv_def Let_def del: rbind_eq_Inr)
  then obtain k1 h1 where k1: "burst = Inr (k1, h1)" "gc_typed (fst kh') = gc_typed k1"
    by (cases burst) (auto simp: case_prod_beta Let_def split: if_splits)
  have "gc_typed k1"
  proof (cases packets)
    case None
    then show ?thesis using k1(1) assms(2) by (auto simp: burst_def)
  next
    case (Some ps)
    then have "for_each (gc_on_packet bank_workload chk (fst (read_tsc h))) ps (?k, snd (read_tsc h)) = Inr (k1, h1)"
      using k1(1) by (simp add: burst_def case_prod_beta)
    then show ?thesis using for_each_typed [of chk _ ps "(?k, snd (read_tsc h))" "(k1, h1)"] assms(2) by simp
  qed
  then show ?thesis using k1(2) by simp
qed

lemma run_tasks_typed: "gc_run_tasks chk init resume kh = Inr kh' \<Longrightarrow> gc_typed (fst kh) \<Longrightarrow> gc_typed (fst kh')"
  by (cases kh') (auto simp: gc_run_tasks_def case_prod_beta split: if_splits)

text \<open>Any number of turns of the main loop.\<close>

primrec gc_turns ::
    "'w workload_impl \<Rightarrow> bool \<Rightarrow> ('e, 'g) ext_init \<Rightarrow> 'g ext_resume \<Rightarrow> nat \<Rightarrow> ('w, 'e, 'g) gen_client \<times> host \<Rightarrow>
     (('w, 'e, 'g) gen_client \<times> host) rust option" where
  "gc_turns wi chk init resume 0 kh = Some (Inr kh)"
| "gc_turns wi chk init resume (Suc n) kh =
     (case gc_execute wi chk init resume kh of
        None \<Rightarrow> None
      | Some (Inl e) \<Rightarrow> Some (Inl e)
      | Some (Inr kh) \<Rightarrow> gc_turns wi chk init resume n kh)"

lemma execute_typed:
  assumes "gc_execute bank_workload chk init resume kh = Some (Inr kh')" and "gc_typed (fst kh)"
  shows "gc_typed (fst kh')"
proof -
  obtain kh1 kh2 where "gc_send bank_workload kh = Some (Inr kh1)" "gc_recv bank_workload chk kh1 = Inr kh2" "gc_run_tasks chk init resume kh2 = Inr kh'"
    using assms(1) by (auto simp: gc_execute_def)
  then show ?thesis
    using assms(2) send_typed [of kh kh1] recv_typed [of chk "fst kh1" "snd kh1" kh2] run_tasks_typed [of chk init resume kh2 kh'] by simp
qed

lemma turns_typed: "gc_turns bank_workload chk init resume n kh = Some (Inr kh') \<Longrightarrow> gc_typed (fst kh) \<Longrightarrow> gc_typed (fst kh')"
  by (induction n arbitrary: kh) (auto split: option.splits sum.splits dest: execute_typed)

lemma new_typed:
  assumes "Client_new cps cf (bank_new tb cf) master exts tb h = Inr (k, h')" and "cf_key_len cf = 30" and "cf_value_len cf = 100"
  shows "gc_typed k"
proof -
  have name: "take 5 (ycsbt_name @ xs) = ycsbt_name" "length ycsbt_name = 5" for xs by (simp_all add: ycsbt_name_def)
  have k: "gc_workload k = bank_new tb cf" "gc_key_len k = 30" "gc_record_len k = 139" "gc_invoke_get_modify k = bank_modify_payload tb 30 (cf_order cf)"
    using assms by (auto simp: Client_new_def case_prod_beta split: if_splits)
  have "bank_ok (bank_new tb cf)"
    using assms(2,3) name by (simp add: bank_ok_def bank_new_def bank_get_payload_def bank_modify_payload_def resize_def)
  then show ?thesis unfolding gc_typed_def k using name by (simp add: bank_modify_payload_def resize_def)
qed

text \<open>A source of requests makes \<open>send\<close> never panic.\<close>

context request_source
begin

lemma send_never_panics:
  assumes "good (gc_workload k)" and "accepting room (h_env h)"
  shows "gc_send wi (k, h) \<noteq> Some (Inl e)"
proof -
  let ?may = "gc_native k \<or> get_queue_len (gc_manager k) < 32"
  have one: "\<exists>kh'. gc_send_one wi (k, h') = Inr kh'" if "h_env h' = h_env h" for h'
    using send_one_returns [OF assms(1), of h'] that assms(2) by (cases ?may) (auto simp: gc_send_one_def MAX_CREDIT_def)
  have "\<exists>kh'. gc_send_open wi (k, h) = Inr kh'"
    using one [of "snd (read_tsc h)"] by (auto simp: gc_send_open_def read_tsc_def)
  moreover have "gc_send_closed wi (k, h) \<noteq> Some (Inl e)"
  proof (cases "gc_outstanding k < 32")
    case True
    then show ?thesis
      using closed_fills [of "(k, h)"] closed_stuck [of "(k, h)" wi] assms by (cases ?may) (auto simp: word_less_nat_alt)
  next
    case False
    then show ?thesis using closed_at_limit [of "(k, h)"] by simp
  qed
  ultimately show ?thesis by (auto simp: gc_send_def)
qed

lemma closed_loop:
  assumes "good (gc_workload k)" and "accepting room (h_env h)" and "gc_sent k < gc_requests k" and "\<not> gc_open_load k" and "unat (gc_outstanding k) \<le> 32"
  shows "if gc_native k \<or> get_queue_len (gc_manager k) < 32 \<or> gc_outstanding k = 32
    then \<exists>k' h'. gc_send wi (k, h) = Some (Inr (k', h')) \<and> gc_outstanding k' = 32 \<and> gc_sent k' = gc_sent k + (32 - gc_outstanding k) \<and>
      length (wire (snd (h_env h'))) = length (wire (snd (h_env h))) + (32 - unat (gc_outstanding k))
    else gc_send wi (k, h) = None"
proof -
  have send: "gc_send wi (k, h) = gc_send_closed wi (k, h)" using assms(3,4) by (simp add: gc_send_def linorder_not_le [symmetric])
  show ?thesis
  proof (cases "gc_native k \<or> get_queue_len (gc_manager k) < 32 \<or> gc_outstanding k = 32")
    case True
    have "\<exists>kh'. gc_send_closed wi (k, h) = Some (Inr kh') \<and> gc_outstanding (fst kh') = 32 \<and>
        gc_sent (fst kh') = gc_sent k + (32 - gc_outstanding k) \<and>
        length (wire (snd (h_env (snd kh')))) = length (wire (snd (h_env h))) + (32 - unat (gc_outstanding k))"
    proof (cases "gc_outstanding k = 32")
      case True
      then show ?thesis using closed_at_limit [of "(k, h)"] by simp
    next
      case False
      then show ?thesis using closed_fills [of "(k, h)"] assms(1,2,5) True by auto
    qed
    then show ?thesis using True by (auto simp: send)
  next
    case False
    then have "unat (gc_outstanding k) < 32" using assms(5) by (auto simp: word_unat_eq_iff)
    then show ?thesis using False closed_stuck [of "(k, h)" wi] by (simp add: send word_less_nat_alt not_less)
  qed
qed

end

section \<open>Properties\<close>


text \<open>C20: when the closed loop ends. A client that has requests left returns from \<open>send\<close> with exactly 32 outstanding requests, having sent what was missing, when it runs natively, when
  fewer than 32 pushed-back tasks are ready, or when the window is full to begin with. In the remaining case, with 32 tasks ready and fewer than 32 requests
  outstanding, the loop neither sends nor runs a task and never ends.\<close>

theorem closed_loop_returns:
  fixes k :: "(bank, 'e, 'g) gen_client"
  assumes "bank_ok (gc_workload k)" and "accepting 300 (h_env h)" and "gc_sent k < gc_requests k" and "\<not> gc_open_load k"
    and "unat (gc_outstanding k) \<le> 32"
  shows "if gc_native k \<or> get_queue_len (gc_manager k) < 32 \<or> gc_outstanding k = 32
    then \<exists>k' h'. gc_send bank_workload (k, h) = Some (Inr (k', h')) \<and> gc_outstanding k' = 32 \<and>
      gc_sent k' = gc_sent k + (32 - gc_outstanding k) \<and>
      length (wire (snd (h_env h'))) = length (wire (snd (h_env h))) + (32 - unat (gc_outstanding k))
    else gc_send bank_workload (k, h) = None"
  by (rule bank.closed_loop [OF assms])

section \<open>Witnesses\<close>

definition wit_gen_config :: "usize \<Rightarrow> gen_config" where
  "wit_gen_config reqs = ycsb_config.extend
     (ycsbt_config.extend (wit_ycsbt_config\<lparr>cf_use_invoke := True\<rparr>) \<lparr>cf_req_rate = 1000, cf_enable_scan = False, cf_scan_range = 4\<rparr>)
     \<lparr>cf_order = 5000, cf_open_load = False, cf_total_reqs = reqs\<rparr>"

lemma wit_gen_fields:
  "cf_key_len (wit_gen_config reqs) = 30" "cf_value_len (wit_gen_config reqs) = 100" "cf_use_invoke (wit_gen_config reqs)"
  "cf_req_rate (wit_gen_config reqs) = 1000" "cf_total_reqs (wit_gen_config reqs) = reqs" "\<not> cf_open_load (wit_gen_config reqs)"
  by (simp_all add: wit_gen_config_def ycsb_config.defs ycsbt_config.defs wit_ycsbt_config_def wit_config_def client_config.defs)

abbreviation wit_gen_new :: "usize \<Rightarrow> ((bank, unit, unit) gen_client \<times> host) rust" where
  "wit_gen_new reqs \<equiv> Client_new 2400000000 (wit_gen_config reqs) (bank_new 1 (wit_gen_config reqs)) True ExtensionManager_new 1 wit_host"

lemma wit_gen_client:
  "\<exists>k h. wit_gen_new reqs = Inr (k, h) \<and> h_env h = h_env wit_host \<and> \<not> gc_native k \<and> \<not> gc_open_load k \<and> gc_sent k = 0 \<and>
    gc_requests k = word_of_nat reqs \<and> gc_outstanding k = 0 \<and> gc_stop k = 0 \<and> gc_responses k = 34000000 \<and> gc_recvd k = 0 \<and> gc_aborted k = 0 \<and>
    get_queue_len (gc_manager k) = 0 \<and> gc_typed k"
proof -
  obtain k h where new: "wit_gen_new reqs = Inr (k, h)" by (auto simp: Client_new_def wit_gen_fields case_prod_beta)
  moreover have "gc_typed k" by (rule new_typed [OF new wit_gen_fields(1,2)])
  ultimately show ?thesis
    by (auto simp: Client_new_def wit_gen_fields case_prod_beta read_tsc_def get_queue_len_def TaskManager_new_def)
qed


text \<open>A client that has sent nothing, and the same client after 32 tasks have been pushed back.\<close>

theorem closed_loop_returns_witness:
  "\<exists>k h k' h'. wit_gen_new 10 = Inr (k, h) \<and> gc_send bank_workload (k, h) = Some (Inr (k', h')) \<and> gc_outstanding k' = 32 \<and>
    length (wire (snd (h_env h'))) = 32 \<and>
    gc_send bank_workload (k\<lparr>gc_manager := (gc_manager k)\<lparr>tm_ready :=
      replicate 32 (CContainer_new REQUEST (ProxyDB_new 7 42 ycsbt_name 5) () 42)\<rparr>\<rparr>, h) = None"
proof -
  obtain k h where k: "wit_gen_new 10 = Inr (k, h)" "h_env h = h_env wit_host" "\<not> gc_native k" "\<not> gc_open_load k" "gc_sent k = 0" "gc_requests k = 10"
      "gc_outstanding k = 0" "get_queue_len (gc_manager k) = 0" "bank_ok (gc_workload k)"
    using wit_gen_client [of 10] by (auto simp: gc_typed_def)
  have env: "accepting 300 (h_env h)" "wire (snd (h_env h)) = []" using wit_accepting [of 300] by (simp_all add: k(2) wit_host_env wit_network_wire)
  let ?k = "k\<lparr>gc_manager := (gc_manager k)\<lparr>tm_ready := replicate 32 (CContainer_new REQUEST (ProxyDB_new 7 42 ycsbt_name 5) () 42)\<rparr>\<rparr>"
  have "gc_sent k < gc_requests k" by (simp add: k(5,6))
  then obtain k' h' where "gc_send bank_workload (k, h) = Some (Inr (k', h'))" "gc_outstanding k' = 32" "length (wire (snd (h_env h'))) = 32"
    using closed_loop_returns [OF k(9) env(1) _ k(4)] k(7,8) env(2) by auto
  moreover have "gc_send bank_workload (?k, h) = None"
    using closed_loop_returns [of ?k h] k env(1) by (simp add: get_queue_len_def)
  ultimately show ?thesis using k(1) by blast
qed

end
