(* ===== verification/AnalysisClient.thy ===== *)
theory AnalysisClient
  imports PushbackClient
begin

text \<open>
  The client of the analysis benchmark, \<open>splinter/src/bin/client/analysis.rs\<close>. It gets a batch of records one after the other and classifies each of them itself, or invokes the
  extension \<open>analysis\<close>. The workload is that of the pushback client.

  Deserialisation (crate \<open>bincode\<close>) and the models (crate \<open>rustlearn\<close>) are parameters: \<open>deserialize\<close> turns a value into a vector of features, and
  \<open>model\<close> is the entry for \<open>analysis\<close> of the models of the thread, as the function from the selected model and a vector to its prediction.
\<close>

section \<open>The client\<close>

record ('e, 'g) analysis_client =
  an_responses_recv :: u64
  an_responses :: u64
  an_start :: u64
  an_recvd :: u64
  an_latencies :: "u64 list"
  an_master :: bool
  an_stop :: u64
  an_workload :: workload
  an_requests :: u64
  an_sent :: u64
  an_native :: bool
  an_payload_analysis :: byte_string
  an_payload_put :: byte_string
  an_finished :: bool
  an_outstanding :: u64
  an_manager :: "('e, 'g) task_manager"
  an_native_state :: "u64 \<rightharpoonup> pushback_state"
  an_number :: u32
  an_key_len :: usize
  an_record_len :: usize

definition ML_MODEL :: u8 where "ML_MODEL = 1"

definition analysis_name :: byte_string where
  "analysis_name = map of_char ''analysis''"

definition AnalysisRecvSend_new ::
    "u64 \<Rightarrow> bool \<Rightarrow> ycsbt_config \<Rightarrow> u64 \<Rightarrow> 'e ext_manager \<Rightarrow> u32 \<Rightarrow> host \<Rightarrow> ('e, 'g) analysis_client \<times> host" where
  "AnalysisRecvSend_new resps master cf reqs exts num h =
     (let (start, h) = read_tsc h
      in (\<lparr>an_responses_recv = 0, an_responses = resps, an_start = start, an_recvd = 0, an_latencies = [], an_master = master, an_stop = 0,
           an_workload = Pushback_new (cf_key_len cf) (cf_value_len cf) 0, an_requests = reqs, an_sent = 0, an_native = (\<not> cf_use_invoke cf),
           an_payload_analysis = resize (8 + 8 + 4 + 1 + cf_key_len cf) (analysis_name @ enc_u64 1 @ enc_u32 num @ [ML_MODEL]),
           an_payload_put = resize (8 + 8 + 2 + cf_key_len cf + cf_value_len cf)
             (analysis_name @ enc_u64 1 @ enc_u16 (word_of_nat (cf_key_len cf))),
           an_finished = False, an_outstanding = 0, an_manager = TaskManager_new exts, an_native_state = Map.empty,
           an_number = num, an_key_len = cf_key_len cf, an_record_len = 1 + 8 + cf_key_len cf + cf_value_len cf\<rparr>, h))"

section \<open>Sending\<close>

definition an_invoke_now ::
    "u64 \<Rightarrow> u32 \<Rightarrow> byte_string \<Rightarrow> ('e, 'g) analysis_client \<Rightarrow> host \<Rightarrow> (('e, 'g) analysis_client \<times> host) rust" where
  "an_invoke_now now tenant pay k h =
     rbind (create_task now pay tenant 8 (an_manager k)) (\<lambda>tm.
     rbind (send_invoke tenant 8 pay now (h_env h)) (\<lambda>env.
     Inr (k\<lparr>an_manager := tm\<rparr>, set_env h env)))"

text \<open>A native request for a key the workload draws, under the time stamp of the request it belongs to.\<close>

definition an_native_request ::
    "u64 \<Rightarrow> bool \<Rightarrow> u32 \<Rightarrow> byte_string \<Rightarrow> byte_string \<Rightarrow> cenv \<Rightarrow> cenv rust" where
  "an_native_request stamp is_get tenant key val env =
     (if is_get then send_get tenant 1 key stamp env else send_put tenant 1 key val stamp env)"

definition an_send_extension ::
    "u64 \<Rightarrow> bool \<Rightarrow> u32 \<Rightarrow> byte_string \<Rightarrow> ('e, 'g) analysis_client \<Rightarrow> host \<Rightarrow> (('e, 'g) analysis_client \<times> host) rust" where
  "an_send_extension now is_get tenant key k h =
     rbind (slice_range key 0 4) (\<lambda>key4.
     if is_get
     then rbind (copy_from_slice_at 21 25 key4 (an_payload_analysis k)) (\<lambda>p_get.
          an_invoke_now now tenant p_get (k\<lparr>an_payload_analysis := p_get\<rparr>) h)
     else rbind (copy_from_slice_at 19 23 key4 (an_payload_put k)) (\<lambda>p_put.
          an_invoke_now now tenant p_put (k\<lparr>an_payload_put := p_put\<rparr>) h))"

definition an_send_one :: "('e, 'g) analysis_client \<times> host \<Rightarrow> (('e, 'g) analysis_client \<times> host) rust" where
  "an_send_one kh =
     (let (k, h) = kh; (now, h) = read_tsc h; (d, h) = next_draw h
      in rbind (pc_abc d (an_workload k)) (\<lambda>(w, is_get, tenant, key, val, _).
         let k = k\<lparr>an_workload := w\<rparr>
         in rbind (if an_native k
                   then rbind (an_native_request now is_get tenant key val (h_env h)) (\<lambda>env.
                        Inr (k\<lparr>an_native_state := (an_native_state k)(now \<mapsto> PushbackState_new)\<rparr>, set_env h env))
                   else an_send_extension now is_get tenant key k h) (\<lambda>(k, h).
            Inr (k\<lparr>an_outstanding := an_outstanding k + 1, an_sent := an_sent k + 1\<rparr>, h))))"

definition an_may_send :: "('e, 'g) analysis_client \<times> host \<Rightarrow> bool" where
  "an_may_send kh \<longleftrightarrow> an_outstanding (fst kh) < 32 \<and> get_queue_len (an_manager (fst kh)) < 32"

definition an_send :: "('e, 'g) analysis_client \<Rightarrow> host \<Rightarrow> (('e, 'g) analysis_client \<times> host) rust" where
  "an_send k h =
     (if an_requests k \<le> an_sent k then Inr (k, h)
      else window_loop (32 - unat (an_outstanding k)) an_may_send an_send_one (k, h))"

lemma an_send_extension_outstanding:
  assumes "an_send_extension now g tenant key k h = Inr (k', h')"
  shows "an_outstanding k' = an_outstanding k"
proof -
  obtain f where "an_invoke_now now tenant f (k\<lparr>an_payload_analysis := f\<rparr>) h = Inr (k', h') \<or>
      an_invoke_now now tenant f (k\<lparr>an_payload_put := f\<rparr>) h = Inr (k', h')"
    using assms by (cases g) (auto simp: an_send_extension_def)
  then show ?thesis by (auto simp: an_invoke_now_def)
qed

lemma an_send_one_outstanding: "an_send_one kh = Inr kh' \<Longrightarrow> an_outstanding (fst kh') = an_outstanding (fst kh) + 1"
  by (cases "an_native (fst kh)") (auto simp: an_send_one_def Let_def case_prod_beta dest!: an_send_extension_outstanding)

interpretation an_window: window 32 "\<lambda>kh. an_outstanding (fst kh)" an_may_send an_send_one
  by unfold_locales (simp_all add: an_may_send_def word_less_nat_alt an_send_one_outstanding)

section \<open>Receiving\<close>

definition an_on_commit ::
    "u64 \<Rightarrow> packet \<Rightarrow> ('e, 'g) analysis_client \<Rightarrow> host \<Rightarrow> (('e, 'g) analysis_client \<times> host) rust" where
  "an_on_commit now packet k h =
     rbind (parse_header CommitResponse packet) (\<lambda>p.
     rbind (response_header p) (\<lambda>hdr.
     let stamp = rs_stamp hdr;
         k = (if rs_status hdr = StatusOk then k\<lparr>an_latencies := an_latencies k @ [now - stamp]\<rparr> else k)\<lparr>an_recvd := an_recvd k + 1\<rparr>
     in Inr (if an_native k then k\<lparr>an_native_state := (an_native_state k)(stamp := None)\<rparr> else k, free_packet p h)))"

definition an_on_invoke ::
    "bool \<Rightarrow> u64 \<Rightarrow> packet \<Rightarrow> ('e, 'g) analysis_client \<Rightarrow> host \<Rightarrow> (('e, 'g) analysis_client \<times> host) rust" where
  "an_on_invoke chk now packet k h =
     rbind (parse_header InvokeResponse packet) (\<lambda>p.
     rbind (response_header p) (\<lambda>hdr.
     rbind
       (if rs_status hdr = StatusOk
        then Inr (k\<lparr>an_recvd := an_recvd k + 1, an_latencies := an_latencies k @ [now - rs_stamp hdr],
                    an_outstanding := an_outstanding k - 1, an_manager := delete_task (rs_stamp hdr) (an_manager k)\<rparr>)
        else if rs_status hdr = StatusPushback
        then rbind (get_payload p) (\<lambda>records.
             rbind (update_rwset chk (rs_stamp hdr) records (an_record_len k) (an_key_len k) (an_manager k)) (\<lambda>tm.
             Inr (k\<lparr>an_manager := tm, an_outstanding := an_outstanding k - 1\<rparr>)))
        else Inr k) (\<lambda>k.
     Inr (k, free_packet p h))))"

definition an_on_get :: "bool \<Rightarrow> packet \<Rightarrow> ('e, 'g) analysis_client \<Rightarrow> host \<Rightarrow> (('e, 'g) analysis_client \<times> host) rust" where
  "an_on_get chk packet k h =
     rbind (parse_header GetResponse packet) (\<lambda>p.
     rbind (response_header p) (\<lambda>hdr.
     rbind (get_payload p) (\<lambda>pay.
     rbind (update_rwset chk (rs_stamp hdr) pay (an_record_len k) (an_key_len k) (an_manager k)) (\<lambda>tm.
     Inr (k\<lparr>an_manager := tm\<rparr>, free_packet p h)))))"

text \<open>The next step of a native request whose state is \<open>st\<close>: the commit of all records, or the get of another key that is drawn, with its tenant.\<close>

definition an_next_get ::
    "rpc_response_header \<Rightarrow> byte_string \<Rightarrow> pushback_state \<Rightarrow> ('e, 'g) analysis_client \<Rightarrow> host \<Rightarrow> (('e, 'g) analysis_client \<times> host) rust" where
  "an_next_get hdr record st k h =
     rbind (PushbackState_update_rwset record (an_key_len k) st) (\<lambda>st.
       if ps_op_num st = ucast (an_number k)
       then rbind (send_commit (rs_tenant hdr) 1 (ps_commit_payload st) (rs_stamp hdr) (word_of_nat (an_key_len k))
              (word_of_nat (usize_sub (usize_sub (an_record_len k) (an_key_len k)) 9)) (h_env h)) (\<lambda>env.
            Inr (k\<lparr>an_outstanding := an_outstanding k - 1, an_native_state := (an_native_state k)(rs_stamp hdr \<mapsto> st)\<rparr>, set_env h env))
       else let (d, h) = next_draw h
            in rbind (pc_abc d (an_workload k)) (\<lambda>(w, is_get, tenant, key, val, _).
               rbind (an_native_request (rs_stamp hdr) is_get tenant key val (h_env h)) (\<lambda>env.
               Inr (k\<lparr>an_workload := w, an_native_state := (an_native_state k)(rs_stamp hdr \<mapsto> st\<lparr>ps_op_num := ps_op_num st + 1\<rparr>)\<rparr>, set_env h env))))"

text \<open>The classification of a record, and the latency that is noted for it.\<close>

definition an_predict ::
    "(byte_string \<Rightarrow> 'v rust) \<Rightarrow> (u8 \<Rightarrow> 'v \<Rightarrow> f32 rust) option \<Rightarrow> byte_string \<Rightarrow> usize \<Rightarrow> f32 rust" where
  "an_predict deserialize model record key_len =
     rbind (split_at record (key_len + 9)) (\<lambda>(_, value).
     rbind (deserialize value) (\<lambda>features.
     case model of
       None \<Rightarrow> Inr (Zero False)
     | Some predict \<Rightarrow> if ML_MODEL \<in> {1, 2, 3} then predict ML_MODEL features else Inr (Zero False)))"

definition an_classify ::
    "(byte_string \<Rightarrow> 'v rust) \<Rightarrow> (u8 \<Rightarrow> 'v \<Rightarrow> f32 rust) option \<Rightarrow> rpc_response_header \<Rightarrow> packet \<Rightarrow> ('e, 'g) analysis_client \<Rightarrow> host \<Rightarrow>
     (('e, 'g) analysis_client \<times> host) rust" where
  "an_classify deserialize model hdr p k h =
     (if rs_status hdr = StatusOk
      then rbind (get_payload p) (\<lambda>record.
           rbind (an_predict deserialize model record (an_key_len k)) (\<lambda>response.
           let (now, h) = read_tsc h
           in Inr (k\<lparr>an_latencies := an_latencies k @ [now - rs_stamp hdr - word_of_nat (f32_as_uint 64 response)]\<rparr>, h)))
      else Inr (k\<lparr>an_outstanding := an_outstanding k - 1\<rparr>, h))"

definition an_on_native_get ::
    "(byte_string \<Rightarrow> 'v rust) \<Rightarrow> (u8 \<Rightarrow> 'v \<Rightarrow> f32 rust) option \<Rightarrow> packet \<Rightarrow> ('e, 'g) analysis_client \<Rightarrow> host \<Rightarrow>
     (('e, 'g) analysis_client \<times> host) rust" where
  "an_on_native_get deserialize model packet k h =
     rbind (parse_header GetResponse packet) (\<lambda>p.
     rbind (response_header p) (\<lambda>hdr.
     rbind (case an_native_state k (rs_stamp hdr) of
              None \<Rightarrow> Inr (k, h)
            | Some st \<Rightarrow>
                if rs_status hdr \<noteq> StatusOk then Inr (k, h)
                else rbind (get_payload p) (\<lambda>record. an_next_get hdr record st k h)) (\<lambda>(k, h).
     rbind (an_classify deserialize model hdr p k h) (\<lambda>(k, h).
     Inr (k, free_packet p h)))))"

definition an_on_packet ::
    "(byte_string \<Rightarrow> 'v rust) \<Rightarrow> (u8 \<Rightarrow> 'v \<Rightarrow> f32 rust) option \<Rightarrow> bool \<Rightarrow> packet \<Rightarrow> ('e, 'g) analysis_client \<times> host \<Rightarrow>
     (('e, 'g) analysis_client \<times> host) rust" where
  "an_on_packet deserialize model chk packet kh =
     (let (k, h) = kh; (now, h) = read_tsc h
      in rbind (parse_rpc_opcode packet) (\<lambda>c.
           if c = SandstormCommitRpc then an_on_commit now packet k h
           else if \<not> an_native k
           then if c = SandstormInvokeRpc then an_on_invoke chk now packet k h
                else if c = SandstormGetRpc then an_on_get chk packet k h
                else Inr (k, free_packet packet h)
           else if c = SandstormGetRpc then an_on_native_get deserialize model packet k h
           else Inr (k, free_packet packet h)))"

definition an_recv ::
    "(byte_string \<Rightarrow> 'v rust) \<Rightarrow> (u8 \<Rightarrow> 'v \<Rightarrow> f32 rust) option \<Rightarrow> bool \<Rightarrow> ('e, 'g) analysis_client \<Rightarrow> host \<Rightarrow>
     (('e, 'g) analysis_client \<times> host) rust" where
  "an_recv deserialize model chk k h =
     (if an_finished k \<and> 0 < an_stop k then Inr (k, h)
      else rbind (poll_port (an_responses_recv k) h) (\<lambda>(packets, n, h).
           let k = k\<lparr>an_responses_recv := n\<rparr>
           in rbind (case packets of
                       None \<Rightarrow> Inr (k, h)
                     | Some ps \<Rightarrow> for_each (an_on_packet deserialize model chk) ps (k, h)) (\<lambda>(k, h).
              if an_responses k \<le> an_recvd k
              then let (now, h) = read_tsc h in Inr (k\<lparr>an_stop := now, an_finished := True\<rparr>, h)
              else Inr (k, h))))"

section \<open>Running and statistics\<close>

text \<open>The last component is the flag \<open>FINISHED\<close>, when it is set.\<close>

definition an_execute ::
    "(byte_string \<Rightarrow> 'v rust) \<Rightarrow> (u8 \<Rightarrow> 'v \<Rightarrow> f32 rust) option \<Rightarrow> bool \<Rightarrow> ('e, 'g) ext_init \<Rightarrow> 'g ext_resume \<Rightarrow> ('e, 'g) analysis_client \<Rightarrow>
     host \<Rightarrow> (('e, 'g) analysis_client \<times> host \<times> bool) rust" where
  "an_execute deserialize model chk init resume k h =
     rbind (an_send k h) (\<lambda>(k, h).
     rbind (an_recv deserialize model chk k h) (\<lambda>(k, h).
     rbind (run_tasks chk init resume 8 (an_manager k, h)) (\<lambda>(tm, h).
     Inr (k\<lparr>an_manager := tm\<rparr>, h, an_finished k))))"

definition an_drop :: "('e, 'g) analysis_client \<Rightarrow> host \<Rightarrow> (('e, 'g) analysis_client \<times> host \<times> (u64 \<times> u64) option) rust" where
  "an_drop k h =
     (let (k, h) = (if an_stop k = 0 then let (now, h) = read_tsc h in (k\<lparr>an_stop := now\<rparr>, h) else (k, h))
      in if an_master k then rbind (latency_figures (an_latencies k)) (\<lambda>mt. Inr (k, h, Some mt)) else Inr (k, h, None))"

end
