(* ===== verification/AnalysisRuns.thy ===== *)
theory AnalysisRuns
  imports AnalysisClient PushbackRuns
begin

text \<open>
  What a native request of the analysis client does: it collects a batch of records, each of a key and a tenant drawn at random, and asks the tenant of the last one to commit all of them.
\<close>

section \<open>A step of a batch\<close>

text \<open>The state of a client between two responses to the gets of a request.\<close>

definition batching :: "u32 \<Rightarrow> u64 \<Rightarrow> pushback_state \<Rightarrow> ('e, 'g) analysis_client \<Rightarrow> bool" where
  "batching num stamp st k \<longleftrightarrow> an_native k \<and> an_number k = num \<and> an_key_len k = 30 \<and> an_record_len k = 139 \<and>
     wl_put_pct (an_workload k) = 0 \<and> (\<exists>j. wl_key_buf (an_workload k) = stamped 26 j) \<and> an_native_state k stamp = Some st"

text \<open>The response \<open>q\<close> with the record \<open>r\<close>.\<close>

definition answer :: "get_response \<times> rec \<Rightarrow> packet \<Rightarrow> bool" where
  "answer qr p \<longleftrightarrow> (\<exists>i net room. view_at UdpHeader i (net @ enc_get_response (fst qr) @ record_bytes (snd qr)) room p \<and>
     end_at UdpHeader i (net @ enc_get_response (fst qr) @ record_bytes (snd qr)) = length net)"

text \<open>Responses of one request, with records that can be classified.\<close>

definition batch :: "(byte_string \<Rightarrow> 'v rust) \<Rightarrow> (u8 \<Rightarrow> 'v \<Rightarrow> f32 rust) option \<Rightarrow> u64 \<Rightarrow> get_response \<times> rec \<Rightarrow> bool" where
  "batch deserialize model stamp qr \<longleftrightarrow> rs_opcode (fst qr) = SandstormGetRpc \<and> rs_status (fst qr) = StatusOk \<and> rs_stamp (fst qr) = stamp \<and>
     linked [snd qr] \<and> (\<exists>y. an_predict deserialize model (record_bytes (snd qr)) 30 = Inr y)"

lemma on_answer:
  assumes "answer (q, r) packet" and "batch deserialize model stamp (q, r)" and "batching num stamp st k"
    and "an_next_get (rpc_response_header.truncate q) (record_bytes r) st k (snd (read_tsc h)) = Inr (k1, h1)" and "an_key_len k1 = 30"
  shows "\<exists>p l. an_on_packet deserialize model chk packet (k, h) =
    Inr (k1\<lparr>an_latencies := an_latencies k1 @ [l]\<rparr>, free_packet p (snd (read_tsc h1)))"
proof -
  obtain i net room where view: "view_at UdpHeader i (net @ enc_get_response q @ record_bytes r) room packet"
      "end_at UdpHeader i (net @ enc_get_response q @ record_bytes r) = length net"
    using assms(1) by (auto simp: answer_def)
  have q: "rs_opcode q = SandstormGetRpc" "rs_status q = StatusOk" "rs_stamp q = stamp" using assms(2) by (simp_all add: batch_def)
  obtain y where y: "an_predict deserialize model (record_bytes r) 30 = Inr y" using assms(2) by (auto simp: batch_def)
  have op: "parse_rpc_opcode packet = Inr SandstormGetRpc" using response_opcode [OF view enc_get_response_def] q(1) by simp
  obtain p where p: "parse_header GetResponse packet = Inr p" "get_header p = Inr (enc_get_response q)" "get_payload p = Inr (record_bytes r)"
    using response_packet [OF view, of GetResponse] by (auto simp: hdr_offset_def)
  have hd: "response_header p = Inr (rpc_response_header.truncate q)" by (simp add: response_header_def p(2) enc_get_response_def)
  have tr: "rs_status (rpc_response_header.truncate q) = StatusOk" "rs_stamp (rpc_response_header.truncate q) = stamp"
    using q by (simp_all add: rpc_response_header.truncate_def)
  have k: "an_native k" "an_native_state k stamp = Some st" using assms(3) by (simp_all add: batching_def)
  have "an_classify deserialize model (rpc_response_header.truncate q) p k1 h1 =
      Inr (k1\<lparr>an_latencies := an_latencies k1 @ [fst (read_tsc h1) - stamp - word_of_nat (f32_as_uint 64 y)]\<rparr>, snd (read_tsc h1))"
    by (simp add: an_classify_def tr p(3) assms(5) y case_prod_beta del: rbind_eq_Inr)
  then show ?thesis
    using assms(4) by (auto simp: an_on_packet_def case_prod_beta op k an_on_native_get_def p(1,3) hd tr simp del: rbind_eq_Inr)
qed

lemma abc_draws:
  assumes "wl_put_pct w = 0" and "wl_key_buf w = stamped 26 j"
  shows "pc_abc d w = Inr (w\<lparr>wl_key_buf := stamped 26 (dr_key d)\<rparr>, True, dr_tenant d, stamped 26 (dr_key d), wl_value_buf w, dr_order d)"
proof -
  have "copy_from_slice_at 0 4 (enc_u32 (dr_key d)) (stamped 26 j) = Inr (stamped 26 (dr_key d))"
    by (rule copy_stamped) (simp_all add: stamped_def)
  then show ?thesis by (simp add: pc_abc_def assms)
qed

lemma with_record_next: "(with_record pre r)\<lparr>ps_op_num := ps_op_num (with_record pre r) + 1\<rparr> = after_records (pre @ [r])"
  by (simp add: with_record_def after_records_def)

text \<open>A record that is not the last one makes the client ask for another.\<close>

lemma next_get_more:
  assumes "linked [r]" and "batching num (rs_stamp hdr) (after_records pre) k" and "word_of_nat (length pre + 1) \<noteq> (ucast num :: u8)"
    and "h_env h = (s, nw)" and "accepting n (s, nw)" and "97 \<le> n" and "d = h_draws h (h_drawn h)"
  shows "\<exists>k1 nw1 p. an_next_get hdr (record_bytes r) (after_records pre) k h =
      Inr (k1, set_env (h\<lparr>h_drawn := h_drawn h + 1\<rparr>) (s\<lparr>s_requests_sent := s_requests_sent s + 1\<rparr>, nw1)) \<and>
    batching num (rs_stamp hdr) (after_records (pre @ [r])) k1 \<and> an_outstanding k1 = an_outstanding k \<and> an_latencies k1 = an_latencies k \<and>
    accepting n (s\<lparr>s_requests_sent := s_requests_sent s + 1\<rparr>, nw1) \<and> wire nw1 = wire nw @ [p] \<and>
    asks_for s (dr_tenant d) (rs_stamp hdr) (stamped 26 (dr_key d)) p"
proof -
  obtain j where k: "an_number k = num" "an_key_len k = 30" "wl_put_pct (an_workload k) = 0" "wl_key_buf (an_workload k) = stamped 26 j"
    using assms(2) by (auto simp: batching_def)
  obtain nw1 p where get: "send_get (dr_tenant d) 1 (stamped 26 (dr_key d)) (rs_stamp hdr) (s, nw) = Inr (s\<lparr>s_requests_sent := s_requests_sent s + 1\<rparr>, nw1)"
      "accepting n (s\<lparr>s_requests_sent := s_requests_sent s + 1\<rparr>, nw1)" "wire nw1 = wire nw @ [p]" "asks_for s (dr_tenant d) (rs_stamp hdr) (stamped 26 (dr_key d)) p"
    using send_get_asks [OF assms(5) _ assms(6), of "stamped 26 (dr_key d)" "dr_tenant d" "rs_stamp hdr"] by (auto simp: stamped_def)
  have more: "ps_op_num (with_record pre r) \<noteq> ucast num" using assms(3) by (simp add: with_record_def)
  let ?k1 = "k\<lparr>an_workload := (an_workload k)\<lparr>wl_key_buf := stamped 26 (dr_key d)\<rparr>,
    an_native_state := (an_native_state k)(rs_stamp hdr \<mapsto> after_records (pre @ [r]))\<rparr>"
  have "an_next_get hdr (record_bytes r) (after_records pre) k h =
      Inr (?k1, set_env (h\<lparr>h_drawn := h_drawn h + 1\<rparr>) (s\<lparr>s_requests_sent := s_requests_sent s + 1\<rparr>, nw1))"
    using more get(1)
    by (simp add: an_next_get_def update_after_records [OF assms(1)] k next_draw_def assms(7) [symmetric] abc_draws an_native_request_def assms(4)
        with_record_next del: rbind_eq_Inr)
  moreover have "batching num (rs_stamp hdr) (after_records (pre @ [r])) ?k1" using assms(2) by (auto simp: batching_def)
  ultimately show ?thesis using get(2-4) by (intro exI [of _ ?k1] exI [of _ nw1] exI [of _ p]) simp
qed

text \<open>The last record makes it ask for a commit.\<close>

lemma next_get_last:
  assumes "\<And>x. x \<in> set (pre @ [r]) \<Longrightarrow> linked [x]" and "batching num (rs_stamp hdr) (after_records pre) k" and "unat num = length pre + 1"
    and "length pre < 10" and "h_env h = (s, nw)" and "accepting n (s, nw)" and "68 + 139 * (length pre + 1) \<le> n"
  shows "\<exists>k1 nw1 p. an_next_get hdr (record_bytes r) (after_records pre) k h =
      Inr (k1, set_env h (s\<lparr>s_requests_sent := s_requests_sent s + 1\<rparr>, nw1)) \<and> an_key_len k1 = 30 \<and>
    an_outstanding k1 = an_outstanding k - 1 \<and> an_latencies k1 = an_latencies k \<and> wire nw1 = wire nw @ [p] \<and>
    asks_to_commit s (rs_tenant hdr) (rs_stamp hdr) (pre @ [r]) p"
proof -
  have k: "an_number k = num" "an_key_len k = 30" "an_record_len k = 139" using assms(2) by (simp_all add: batching_def)
  let ?pay = "concat (map record_bytes (pre @ [r]))"
  have num: "ps_op_num (with_record pre r) = ucast num"
    using assms(3) by (simp add: with_record_def) (metis Suc_eq_plus1 of_nat_unat of_nat_Suc add.commute)
  have len: "length ?pay = 139 * (length pre + 1)"
    using concat_record_bytes_length [of "pre @ [r]"] record_bytes_length [of "[x]" x for x] assms(1) by simp
  then have "0 < length ?pay" unfolding len by simp
  then have "?pay \<noteq> []" by (simp only: length_greater_0_conv) simp
  then obtain p room nw1 where sent: "send_commit (rs_tenant hdr) 1 ?pay (rs_stamp hdr) 30 100 (s, nw) =
        Inr (s\<lparr>s_requests_sent := s_requests_sent s + 1\<rparr>, nw1)" "wire nw1 = wire nw @ [p]" "asks_to_commit s (rs_tenant hdr) (rs_stamp hdr) (pre @ [r]) p"
    using send_commit_view [of s ?pay nw "rs_tenant hdr" 1 "rs_stamp hdr" 30 100] accepting_can_send [OF assms(6), of "68 + length ?pay"] assms(4,7) len
    unfolding asks_to_commit_def by auto
  let ?k1 = "k\<lparr>an_outstanding := an_outstanding k - 1, an_native_state := (an_native_state k)(rs_stamp hdr \<mapsto> with_record pre r)\<rparr>"
  have pay: "ps_commit_payload (with_record pre r) = ?pay" by (simp add: with_record_def after_records_def)
  have "linked [r]" using assms(1) by simp
  then have "an_next_get hdr (record_bytes r) (after_records pre) k h = Inr (?k1, set_env h (s\<lparr>s_requests_sent := s_requests_sent s + 1\<rparr>, nw1))"
    using num sent(1) by (simp add: an_next_get_def update_after_records k pay assms(5) del: rbind_eq_Inr concat.simps map_append concat_append)
  then show ?thesis using sent(2,3) k(2) by (intro exI [of _ ?k1] exI [of _ nw1] exI [of _ p]) simp
qed

section \<open>A batch\<close>

definition drawn_gets :: "sender \<Rightarrow> u64 \<Rightarrow> host \<Rightarrow> nat \<Rightarrow> packet list \<Rightarrow> bool" where
  "drawn_gets s stamp h n = list_all2 (\<lambda>i. asks_for s (dr_tenant (h_draws h i)) stamp (stamped 26 (dr_key (h_draws h i)))) [h_drawn h ..< h_drawn h + n]"

lemma drawn_gets_Cons:
  assumes "asks_for s (dr_tenant (h_draws h (h_drawn h))) stamp (stamped 26 (dr_key (h_draws h (h_drawn h)))) p"
    and "drawn_gets (s\<lparr>s_requests_sent := x\<rparr>) stamp h' n ps" and "h_draws h' = h_draws h" and "h_drawn h' = h_drawn h + 1"
  shows "drawn_gets s stamp h (Suc n) (p # ps)"
proof -
  have "[h_drawn h ..< h_drawn h + Suc n] = h_drawn h # [h_drawn h' ..< h_drawn h' + n]" by (simp add: upt_conv_Cons assms(4))
  then show ?thesis using assms(1,2) by (simp add: drawn_gets_def assms(3))
qed

lemma free_frame:
  "h_draws (free_packet p (snd (read_tsc (set_env h env)))) = h_draws h" "h_drawn (free_packet p (snd (read_tsc (set_env h env)))) = h_drawn h"
  "accepting n (h_env (free_packet p (snd (read_tsc (set_env h env))))) = accepting n env"
  "wire (snd (h_env (free_packet p (snd (read_tsc (set_env h env)))))) = wire (snd env)"
  "fst (h_env (free_packet p (snd (read_tsc (set_env h env))))) = fst env"
  by (cases env; simp add: free_packet_def set_env_def accepting_def free_packets_def read_tsc_def)+

lemma not_the_last: "n < unat num \<Longrightarrow> unat num < 256 \<Longrightarrow> word_of_nat n \<noteq> (ucast (num :: u32) :: u8)"
  by (metis byte_of_nat of_nat_unat nat_neq_iff order.strict_trans)

lemma batch_more:
  assumes "answer qr packet" and "batch deserialize model stamp qr" and "batching num stamp (after_records pre) k" and "length pre + 1 < unat num" and "unat num < 256"
    and "h_env h = (s, nw)" and "accepting n (s, nw)" and "97 \<le> n"
  shows "\<exists>k' h' nw' p. an_on_packet deserialize model chk packet (k, h) = Inr (k', h') \<and> batching num stamp (after_records (pre @ [snd qr])) k' \<and>
    an_outstanding k' = an_outstanding k \<and> length (an_latencies k') = length (an_latencies k) + 1 \<and> h_draws h' = h_draws h \<and> h_drawn h' = h_drawn h + 1 \<and>
    h_env h' = (s\<lparr>s_requests_sent := s_requests_sent s + 1\<rparr>, nw') \<and> accepting n (h_env h') \<and> wire nw' = wire nw @ [p] \<and>
    asks_for s (dr_tenant (h_draws h (h_drawn h))) stamp (stamped 26 (dr_key (h_draws h (h_drawn h)))) p"
proof -
  obtain q r where qr: "qr = (q, r)" by fastforce
  let ?hdr = "rpc_response_header.truncate q" and ?h = "snd (read_tsc h)"
  have hdr: "rs_stamp ?hdr = stamp" "linked [r]" using assms(2) by (simp_all add: qr batch_def rpc_response_header.truncate_def)
  have h: "h_env ?h = (s, nw)" "h_draws ?h = h_draws h" "h_drawn ?h = h_drawn h" using assms(6) by (simp_all add: read_tsc_def)
  obtain k1 nw1 p where step: "an_next_get ?hdr (record_bytes r) (after_records pre) k ?h =
        Inr (k1, set_env (?h\<lparr>h_drawn := h_drawn ?h + 1\<rparr>) (s\<lparr>s_requests_sent := s_requests_sent s + 1\<rparr>, nw1))"
      "batching num stamp (after_records (pre @ [r])) k1" "an_outstanding k1 = an_outstanding k" "an_latencies k1 = an_latencies k"
      "accepting n (s\<lparr>s_requests_sent := s_requests_sent s + 1\<rparr>, nw1)" "wire nw1 = wire nw @ [p]"
      "asks_for s (dr_tenant (h_draws h (h_drawn h))) stamp (stamped 26 (dr_key (h_draws h (h_drawn h)))) p"
    using next_get_more [of r num ?hdr pre k ?h s nw n, OF hdr(2) _ not_the_last [OF assms(4,5)] h(1) assms(7,8) refl] assms(3) hdr(1) h by auto
  have "an_key_len k1 = 30" using step(2) by (simp add: batching_def)
  then obtain p' l where here: "an_on_packet deserialize model chk packet (k, h) = Inr (k1\<lparr>an_latencies := an_latencies k1 @ [l]\<rparr>,
      free_packet p' (snd (read_tsc (set_env (?h\<lparr>h_drawn := h_drawn ?h + 1\<rparr>) (s\<lparr>s_requests_sent := s_requests_sent s + 1\<rparr>, nw1)))))"
    using on_answer [OF assms(1) [unfolded qr] assms(2) [unfolded qr] assms(3) step(1)] by blast
  let ?h1 = "free_packet p' (snd (read_tsc (set_env (?h\<lparr>h_drawn := h_drawn ?h + 1\<rparr>) (s\<lparr>s_requests_sent := s_requests_sent s + 1\<rparr>, nw1))))"
  have env: "h_env ?h1 = (s\<lparr>s_requests_sent := s_requests_sent s + 1\<rparr>, snd (h_env ?h1))" "wire (snd (h_env ?h1)) = wire nw @ [p]" "accepting n (h_env ?h1)"
      "h_draws ?h1 = h_draws h" "h_drawn ?h1 = h_drawn h + 1"
    using step(5,6) h by (simp_all add: free_frame prod_eq_iff)
  have "batching num stamp (after_records (pre @ [snd qr])) (k1\<lparr>an_latencies := an_latencies k1 @ [l]\<rparr>)" using step(2) by (simp add: batching_def qr)
  then show ?thesis using here env step(3,4,7) by (intro exI [of _ "k1\<lparr>an_latencies := an_latencies k1 @ [l]\<rparr>"] exI [of _ ?h1] exI [of _ "snd (h_env ?h1)"] exI [of _ p]) simp
qed

lemma batch_gets:
  assumes "list_all2 answer xs ps" and "\<forall>qr \<in> set xs. batch deserialize model stamp qr" and "batching num stamp (after_records pre) k"
    and "length pre + length xs < unat num" and "unat num < 256" and "h_env h = (s, nw)" and "accepting n (s, nw)" and "97 \<le> n"
  shows "\<exists>k' h' x nw' gets. for_each (an_on_packet deserialize model chk) ps (k, h) = Inr (k', h') \<and>
    batching num stamp (after_records (pre @ map snd xs)) k' \<and> an_outstanding k' = an_outstanding k \<and>
    length (an_latencies k') = length (an_latencies k) + length xs \<and> h_env h' = (s\<lparr>s_requests_sent := x\<rparr>, nw') \<and> accepting n (h_env h') \<and>
    wire nw' = wire nw @ gets \<and> drawn_gets s stamp h (length xs) gets"
  using assms(1-4,6,7)
proof (induction xs arbitrary: ps pre k h s nw)
  case Nil
  then show ?case
    by (intro exI [of _ k] exI [of _ h] exI [of _ "s_requests_sent s"] exI [of _ nw] exI [of _ "[]"]) (simp add: drawn_gets_def)
next
  case (Cons qr xs)
  obtain p ps' where ps: "ps = p # ps'" "answer qr p" "list_all2 answer xs ps'" using Cons.prems(1) by (auto simp: list_all2_Cons1)
  have qr: "batch deserialize model stamp qr" "\<forall>qr \<in> set xs. batch deserialize model stamp qr" using Cons.prems(2) by simp_all
  have lt: "length pre + 1 < unat num" using Cons.prems(4) by simp
  obtain k1 h1 nw1 get where one: "an_on_packet deserialize model chk p (k, h) = Inr (k1, h1)" "batching num stamp (after_records (pre @ [snd qr])) k1"
      "an_outstanding k1 = an_outstanding k" "length (an_latencies k1) = length (an_latencies k) + 1" "h_draws h1 = h_draws h" "h_drawn h1 = h_drawn h + 1"
      "h_env h1 = (s\<lparr>s_requests_sent := s_requests_sent s + 1\<rparr>, nw1)" "accepting n (h_env h1)" "wire nw1 = wire nw @ [get]"
      "asks_for s (dr_tenant (h_draws h (h_drawn h))) stamp (stamped 26 (dr_key (h_draws h (h_drawn h)))) get"
    using batch_more [OF ps(2) qr(1) Cons.prems(3) lt assms(5) Cons.prems(5,6) assms(8), of chk] by blast
  have len: "length (pre @ [snd qr]) + length xs < unat num" using Cons.prems(4) by simp
  obtain k' h' x nw' gets where ih: "for_each (an_on_packet deserialize model chk) ps' (k1, h1) = Inr (k', h')"
      "batching num stamp (after_records ((pre @ [snd qr]) @ map snd xs)) k'" "an_outstanding k' = an_outstanding k1"
      "length (an_latencies k') = length (an_latencies k1) + length xs" "h_env h' = (s\<lparr>s_requests_sent := s_requests_sent s + 1\<rparr>\<lparr>s_requests_sent := x\<rparr>, nw')"
      "accepting n (h_env h')" "wire nw' = wire nw1 @ gets" "drawn_gets (s\<lparr>s_requests_sent := s_requests_sent s + 1\<rparr>) stamp h1 (length xs) gets"
    using Cons.IH [OF ps(3) qr(2) one(2) len one(7)] one(7,8) by auto
  have "drawn_gets s stamp h (length (qr # xs)) (get # gets)" using drawn_gets_Cons [OF one(10) ih(8) one(5,6)] by simp
  moreover have "for_each (an_on_packet deserialize model chk) ps (k, h) = Inr (k', h')" using ih(1) by (simp add: ps(1) one(1))
  ultimately show ?case
    using ih(2-7) one(3,4,9)
    by (intro exI [of _ k'] exI [of _ h'] exI [of _ x] exI [of _ nw'] exI [of _ "get # gets"]) simp
qed

lemma batch_last:
  assumes "answer qr packet" and "batch deserialize model stamp qr" and "batching num stamp (after_records pre) k" and "unat num = length pre + 1"
    and "length pre < 10" and "\<forall>r \<in> set pre. linked [r]" and "h_env h = (s, nw)" and "accepting n (s, nw)" and "68 + 139 * (length pre + 1) \<le> n"
  shows "\<exists>k' h' p. an_on_packet deserialize model chk packet (k, h) = Inr (k', h') \<and> an_outstanding k' = an_outstanding k - 1 \<and>
    length (an_latencies k') = length (an_latencies k) + 1 \<and> wire (snd (h_env h')) = wire nw @ [p] \<and>
    asks_to_commit s (rs_tenant (fst qr)) stamp (pre @ [snd qr]) p"
proof -
  obtain q r where qr: "qr = (q, r)" by fastforce
  let ?hdr = "rpc_response_header.truncate q" and ?h = "snd (read_tsc h)"
  have hdr: "rs_stamp ?hdr = stamp" "rs_tenant ?hdr = rs_tenant q" "linked [r]"
    using assms(2) by (simp_all add: qr batch_def rpc_response_header.truncate_def)
  have h: "h_env ?h = (s, nw)" using assms(7) by (simp add: read_tsc_def)
  obtain k1 nw1 p where step: "an_next_get ?hdr (record_bytes r) (after_records pre) k ?h =
        Inr (k1, set_env ?h (s\<lparr>s_requests_sent := s_requests_sent s + 1\<rparr>, nw1))" "an_key_len k1 = 30"
      "an_outstanding k1 = an_outstanding k - 1" "an_latencies k1 = an_latencies k" "wire nw1 = wire nw @ [p]" "asks_to_commit s (rs_tenant q) stamp (pre @ [r]) p"
    using next_get_last [of pre r num ?hdr k ?h s nw n] assms(3-6,8,9) hdr h by auto
  obtain p' l where "an_on_packet deserialize model chk packet (k, h) = Inr (k1\<lparr>an_latencies := an_latencies k1 @ [l]\<rparr>,
      free_packet p' (snd (read_tsc (set_env ?h (s\<lparr>s_requests_sent := s_requests_sent s + 1\<rparr>, nw1)))))"
    using on_answer [OF assms(1) [unfolded qr] assms(2) [unfolded qr] assms(3) step(1,2)] by blast
  then show ?thesis using step(3-6) by (simp add: qr free_frame)
qed

section \<open>Properties\<close>

text \<open>C27: a native batch of up to ten records. The client, given the responses to its gets one after the other, asks for a key and a tenant that are drawn anew each time, notes a latency
  for every record, and asks for the commit of all of them from the tenant of the last response, whichever tenants the others were read from: the versions it read
  are validated against the table of another tenant.\<close>

theorem native_batch_commits:
  assumes "list_all2 answer (xs @ [y]) ps" and "\<forall>qr \<in> set (xs @ [y]). batch deserialize model stamp qr" and "unat num = length (xs @ [y])" and "length (xs @ [y]) \<le> 10"
    and "batching num stamp PushbackState_new k" and "h_env h = (s, nw)" and "accepting n (s, nw)" and "68 + 139 * length (xs @ [y]) \<le> n"
  shows "\<exists>k' h' gets p. for_each (an_on_packet deserialize model chk) ps (k, h) = Inr (k', h') \<and> an_outstanding k' = an_outstanding k - 1 \<and>
    length (an_latencies k') = length (an_latencies k) + length (xs @ [y]) \<and> wire (snd (h_env h')) = wire nw @ gets @ [p] \<and>
    drawn_gets s stamp h (length xs) gets \<and> asks_to_commit s (rs_tenant (fst y)) stamp (map snd (xs @ [y])) p"
proof -
  obtain ps' p' where ps: "ps = ps' @ [p']" "list_all2 answer xs ps'" "answer y p'" using list_all2_snoc [OF assms(1)] by blast
  have sized: "length [] + length xs < unat num" "unat num < 256" "97 \<le> n" using assms(3,4,8) by simp_all
  obtain k1 h1 x nw1 gets where pre: "for_each (an_on_packet deserialize model chk) ps' (k, h) = Inr (k1, h1)"
      "batching num stamp (after_records (map snd xs)) k1" "an_outstanding k1 = an_outstanding k" "length (an_latencies k1) = length (an_latencies k) + length xs"
      "h_env h1 = (s\<lparr>s_requests_sent := x\<rparr>, nw1)" "accepting n (h_env h1)" "wire nw1 = wire nw @ gets" "drawn_gets s stamp h (length xs) gets"
    using batch_gets [OF ps(2) _ assms(5) [unfolded after_records_Nil] sized(1,2) assms(6,7) sized(3), of deserialize model chk] assms(2) by auto
  have last: "batch deserialize model stamp y" "unat num = length (map snd xs) + 1" "length (map snd xs) < 10" "\<forall>r \<in> set (map snd xs). linked [r]"
      "accepting n (s\<lparr>s_requests_sent := x\<rparr>, nw1)" "68 + 139 * (length (map snd xs) + 1) \<le> n"
    using assms(2-4,8) pre(5,6) by (auto simp: batch_def)
  obtain k' h' p where "an_on_packet deserialize model chk p' (k1, h1) = Inr (k', h')" "an_outstanding k' = an_outstanding k1 - 1"
      "length (an_latencies k') = length (an_latencies k1) + 1" "wire (snd (h_env h')) = wire nw1 @ [p]"
      "asks_to_commit (s\<lparr>s_requests_sent := x\<rparr>) (rs_tenant (fst y)) stamp (map snd xs @ [snd y]) p"
    using batch_last [OF ps(3) last(1) pre(2) last(2-4) pre(5) last(5,6), of chk] by blast
  then show ?thesis
    using pre(1,3,4,7,8) by (intro exI [of _ k'] exI [of _ h'] exI [of _ gets] exI [of _ p]) (simp add: ps(1) for_each_snoc asks_to_commit_def get_dst_port_def)
qed

section \<open>Witness\<close>

text \<open>A batch of two records, the first of the tenant 7 and the second of the tenant 8.\<close>

definition wit_analysis_client :: "(unit, unit) analysis_client" where
  "wit_analysis_client =
     (fst (AnalysisRecvSend_new 10 True wit_ycsbt_config 10 ExtensionManager_new 2 wit_host))\<lparr>an_native_state := [42 \<mapsto> PushbackState_new]\<rparr>"

lemma wit_analysis_batching:
  "batching 2 42 PushbackState_new wit_analysis_client" "an_outstanding wit_analysis_client = 0" "an_latencies wit_analysis_client = []"
  by (auto simp: batching_def wit_analysis_client_def AnalysisRecvSend_new_def Let_def case_prod_beta wit_ycsbt_config_def wit_config_def client_config.defs
      Pushback_new_def stamped_def intro!: exI [of _ "0 :: u32"]) code_simp

definition wit_row :: "u32 \<Rightarrow> rec" where
  "wit_row i = read_of (stamped 26 i) 1 (replicate 100 0)"

abbreviation wit_answered :: "u32 \<Rightarrow> u32 \<Rightarrow> get_response \<times> rec" where
  "wit_answered tenant i \<equiv> (GetResponse_new 42 SandstormGetRpc tenant, wit_row i)"

abbreviation wit_answer_packet :: "get_response \<times> rec \<Rightarrow> packet" where
  "wit_answer_packet qr \<equiv> demo_packet UdpHeader (enc_udp UdpHeader_new @ enc_get_response (fst qr) @ record_bytes (snd qr))"

lemma wit_row_linked: "linked [wit_row i]"
  by (simp add: wit_row_def read_of_def Record_new_def stamped_def)

lemma wit_answers_it: "answer (wit_answered tenant i) (wit_answer_packet (wit_answered tenant i))"
proof -
  let ?fr = "enc_udp UdpHeader_new @ enc_get_response (GetResponse_new 42 SandstormGetRpc tenant) @ record_bytes (wit_row i)"
  have "length (record_bytes (wit_row i)) = 139" using record_bytes_length [OF wit_row_linked, of "wit_row i" i] by simp
  then have "view_at UdpHeader 0 ?fr (1024 - length ?fr) (wit_answer_packet (wit_answered tenant i))"
    unfolding fst_conv snd_conv by (intro demo_packet_view) (simp_all add: hdr_offset_def enc_get_response_def)
  moreover have "end_at UdpHeader 0 ?fr = length (enc_udp UdpHeader_new)" by (simp add: hdr_offset_def)
  ultimately show ?thesis unfolding answer_def fst_conv snd_conv by blast
qed

lemma wit_batch: "batch (\<lambda>v. Inr v) (Some (\<lambda>m v. Inr (Zero False))) 42 (wit_answered tenant i)"
  using wit_row_linked [of i] record_bytes_length [OF wit_row_linked, of "wit_row i" i]
  by (simp add: batch_def GetResponse_new_def RpcResponseHeader_new_def an_predict_def split_at_def ML_MODEL_def)

theorem native_batch_commits_witness:
  "\<exists>k' h' get p. for_each (an_on_packet (\<lambda>v. Inr v) (Some (\<lambda>m v. Inr (Zero False))) False)
      [wit_answer_packet (wit_answered 7 1), wit_answer_packet (wit_answered 8 2)] (wit_analysis_client, wit_host) = Inr (k', h') \<and>
    length (an_latencies k') = 2 \<and> wire (snd (h_env h')) = [get, p] \<and> asks_for wit_sender 1 42 (stamped 26 1) get \<and>
    asks_to_commit wit_sender 8 42 [wit_row 1, wit_row 2] p"
proof -
  let ?x = "wit_answered 7 1" and ?y = "wit_answered 8 2"
  let ?ps = "[wit_answer_packet ?x, wit_answer_packet ?y]" and ?on = "an_on_packet (\<lambda>v. Inr v) (Some (\<lambda>m v. Inr (Zero False))) False"
  have ps: "list_all2 answer ([?x] @ [?y]) ?ps" unfolding append_Cons append_Nil list_all2_Cons using wit_answers_it by blast
  have all: "\<forall>qr \<in> set ([?x] @ [?y]). batch (\<lambda>v. Inr v) (Some (\<lambda>m v. Inr (Zero False))) 42 qr" using wit_batch by simp
  have acc: "accepting 1024 (wit_sender, (wit_network demo_mbuf)\<lparr>net_rx := \<lambda>_. Some []\<rparr>)" using wit_accepting [of 1024] by (simp add: wit_host_env)
  have sized: "unat (2 :: u32) = length ([?x] @ [?y])" "length ([?x] @ [?y]) \<le> 10" "68 + 139 * length ([?x] @ [?y]) \<le> 1024" by simp_all
  obtain k' h' gets p where run: "for_each ?on ?ps (wit_analysis_client, wit_host) = Inr (k', h')"
      "length (an_latencies k') = length (an_latencies wit_analysis_client) + length ([?x] @ [?y])"
      "wire (snd (h_env h')) = wire ((wit_network demo_mbuf)\<lparr>net_rx := \<lambda>_. Some []\<rparr>) @ gets @ [p]"
      "drawn_gets wit_sender 42 wit_host (length [?x]) gets" "asks_to_commit wit_sender (rs_tenant (fst ?y)) 42 (map snd ([?x] @ [?y])) p"
    using native_batch_commits [OF ps all sized(1,2) wit_analysis_batching(1) wit_host_env acc sized(3), of False] by blast
  obtain get where "gets = [get]" "asks_for wit_sender 1 42 (stamped 26 1) get"
    using run(4) by (auto simp: drawn_gets_def wit_host_def list_all2_Cons1)
  then show ?thesis
    using run(1-3,5) by (intro exI [of _ k'] exI [of _ h'] exI [of _ get] exI [of _ p])
      (simp add: wit_analysis_batching(3) wit_network_wire GetResponse_new_def RpcResponseHeader_new_def del: for_each.simps)
qed

end
