(* ===== verification/MixClient.thy ===== *)
theory MixClient
  imports YcsbClient OpenLoop
begin

text \<open>
  Two clients that mix invocations of \<open>get\<close> with those of an extension that keeps the server busy: \<open>splinter/src/bin/client/long.rs\<close>, where a percentage of the requests invokes \<open>long\<close>, and
  \<open>splinter/src/bin/client/bad.rs\<close>, where a few out of ten million invoke \<open>bad\<close>. The programs differ in the modulus of the coin, the payload of the second kind of
  invocation and the place of the key in it, which are parameters here. Their receivers are that of \<open>ycsb.rs\<close> for invocations.
\<close>

section \<open>The sender\<close>

record mix_config = ycsb_config +
  cf_long_pct :: usize
  cf_bad_ptm :: usize
  cf_yield_f :: u8

record mix_send =
  mx_other_pct :: usize
  mx_key_buf :: byte_string
  mx_requests :: u64
  mx_sent :: u64
  mx_rate_inv :: u64
  mx_start :: u64
  mx_next :: u64
  mx_payload_get :: byte_string
  mx_payload_other :: byte_string

definition mx_new :: "u64 \<Rightarrow> 'z ycsb_config_scheme \<Rightarrow> u64 \<Rightarrow> usize \<Rightarrow> byte_string \<Rightarrow> host \<Rightarrow> (mix_send \<times> host) rust" where
  "mx_new cycles_per_second cf reqs pct other h =
     (if (word_of_nat (cf_req_rate cf) :: u64) = 0 then Inl DivisionByZero
      else let (start, h) = read_tsc h
           in Inr (\<lparr>mx_other_pct = pct, mx_key_buf = replicate (cf_key_len cf) 0, mx_requests = reqs, mx_sent = 0,
                mx_rate_inv = cycles_per_second div word_of_nat (cf_req_rate cf), mx_start = start, mx_next = 0,
                mx_payload_get = resize (3 + 8 + cf_key_len cf) (get_name @ enc_u64 1), mx_payload_other = other\<rparr>, h))"

text \<open>Whether the callback is that for a get, and its arguments.\<close>

definition mx_abc :: "u32 \<Rightarrow> draw \<Rightarrow> mix_send \<Rightarrow> (mix_send \<times> bool \<times> u32 \<times> byte_string) rust" where
  "mx_abc modulus d k =
     rbind (copy_from_slice_at 0 4 (enc_u32 (dr_key d)) (mx_key_buf k)) (\<lambda>key.
     Inr (k\<lparr>mx_key_buf := key\<rparr>, (word_of_nat (mx_other_pct k) :: u32) \<le> dr_put d mod modulus, dr_tenant d, key))"

definition mx_invoke_get :: "u64 \<Rightarrow> u32 \<Rightarrow> byte_string \<Rightarrow> mix_send \<Rightarrow> host \<Rightarrow> (mix_send \<times> host) rust" where
  "mx_invoke_get now tenant key4 k h =
     rbind (copy_from_slice_at 11 15 key4 (mx_payload_get k)) (\<lambda>p_get.
     rbind (send_invoke tenant 3 p_get now (h_env h)) (\<lambda>env. Inr (k\<lparr>mx_payload_get := p_get\<rparr>, set_env h env)))"

definition mx_invoke_other :: "usize \<Rightarrow> u32 \<Rightarrow> u64 \<Rightarrow> u32 \<Rightarrow> byte_string \<Rightarrow> mix_send \<Rightarrow> host \<Rightarrow> (mix_send \<times> host) rust" where
  "mx_invoke_other off name_length now tenant key4 k h =
     rbind (copy_from_slice_at off (off + 4) key4 (mx_payload_other k)) (\<lambda>p_other.
     rbind (send_invoke tenant name_length p_other now (h_env h)) (\<lambda>env. Inr (k\<lparr>mx_payload_other := p_other\<rparr>, set_env h env)))"

definition mx_issue :: "u32 \<Rightarrow> usize \<Rightarrow> u32 \<Rightarrow> u64 \<Rightarrow> mix_send \<Rightarrow> host \<Rightarrow> (mix_send \<times> host) rust" where
  "mx_issue modulus off name_length now k h =
     (let (d, h) = next_draw h
      in rbind (mx_abc modulus d k) (\<lambda>(k, is_get, tenant, key).
         rbind (slice_range key 0 4) (\<lambda>key4.
         if is_get then mx_invoke_get now tenant key4 k h else mx_invoke_other off name_length now tenant key4 k h)))"

definition mx_execute :: "u32 \<Rightarrow> usize \<Rightarrow> u32 \<Rightarrow> mix_send \<Rightarrow> host \<Rightarrow> (mix_send \<times> host \<times> bool) rust" where
  "mx_execute modulus off name_length k h =
     (if mx_requests k \<le> mx_sent k then Inr (k, h, False)
      else let (now, h) = read_tsc h
           in if mx_next k \<le> now \<or> mx_next k = 0
              then rbind (mx_issue modulus off name_length now k h) (\<lambda>(k, h).
                   let k = k\<lparr>mx_sent := mx_sent k + 1\<rparr>
                   in Inr (k\<lparr>mx_next := mx_start k + mx_sent k * mx_rate_inv k\<rparr>, h, False))
              else Inr (k, h, False))"

section \<open>The two programs\<close>

definition long_name :: byte_string where
  "long_name = map of_char ''long''"

definition LongSend_new :: "u64 \<Rightarrow> mix_config \<Rightarrow> u64 \<Rightarrow> host \<Rightarrow> (mix_send \<times> host) rust" where
  "LongSend_new cycles_per_second cf reqs =
     mx_new cycles_per_second cf reqs (cf_long_pct cf) (resize (4 + 8 + 1 + cf_key_len cf) (long_name @ enc_u64 1 @ [cf_yield_f cf]))"

definition long_execute :: "mix_send \<Rightarrow> host \<Rightarrow> (mix_send \<times> host \<times> bool) rust" where
  "long_execute = mx_execute 100 13 4"

definition LongRecv_new :: "u64 \<Rightarrow> bool \<Rightarrow> host \<Rightarrow> ycsb_recv \<times> host" where
  "LongRecv_new resps master = YcsbRecv_new resps master False"

definition bad_name :: byte_string where
  "bad_name = map of_char ''bad''"

definition BadSend_new :: "u64 \<Rightarrow> mix_config \<Rightarrow> u64 \<Rightarrow> host \<Rightarrow> (mix_send \<times> host) rust" where
  "BadSend_new cycles_per_second cf reqs =
     mx_new cycles_per_second cf reqs (cf_bad_ptm cf) (resize (3 + 8 + cf_key_len cf) (bad_name @ enc_u64 1))"

definition bad_execute :: "mix_send \<Rightarrow> host \<Rightarrow> (mix_send \<times> host \<times> bool) rust" where
  "bad_execute = mx_execute 10000000 11 3"

definition BadRecv_new :: "u64 \<Rightarrow> bool \<Rightarrow> host \<Rightarrow> ycsb_recv \<times> host" where
  "BadRecv_new resps master = YcsbRecv_new resps master False"

section \<open>Both keep their rate\<close>

text \<open>What issuing a request leaves alone.\<close>

definition mx_same :: "mix_send \<times> host \<Rightarrow> mix_send \<times> host \<Rightarrow> bool" where
  "mx_same kh kh' \<longleftrightarrow> mx_sent (fst kh') = mx_sent (fst kh) \<and> mx_requests (fst kh') = mx_requests (fst kh) \<and> mx_start (fst kh') = mx_start (fst kh) \<and>
     mx_rate_inv (fst kh') = mx_rate_inv (fst kh) \<and> mx_next (fst kh') = mx_next (fst kh) \<and>
     h_clock (snd kh') = h_clock (snd kh) \<and> h_ticks (snd kh') = h_ticks (snd kh)"

lemma mx_invoke_frame:
  "mx_invoke_get now tenant key4 k h = Inr (k', h') \<Longrightarrow> mx_same (k, h) (k', h')"
  "mx_invoke_other off name_length now tenant key4 k h = Inr (k', h') \<Longrightarrow> mx_same (k, h) (k', h')"
  by (auto simp: mx_invoke_get_def mx_invoke_other_def mx_same_def set_env_def)

lemma mx_issue_frame:
  assumes "mx_issue modulus off name_length now k h = Inr (k', h')"
  shows "mx_same (k, h) (k', h')"
proof -
  obtain d h1 where draw: "next_draw h = (d, h1)" by fastforce
  obtain key key4 where "mx_invoke_get now (dr_tenant d) key4 (k\<lparr>mx_key_buf := key\<rparr>) h1 = Inr (k', h') \<or>
      mx_invoke_other off name_length now (dr_tenant d) key4 (k\<lparr>mx_key_buf := key\<rparr>) h1 = Inr (k', h')"
    using assms by (auto simp: mx_issue_def draw mx_abc_def split: if_splits)
  then have "mx_same (k\<lparr>mx_key_buf := key\<rparr>, h1) (k', h')" using mx_invoke_frame by blast
  moreover have "h1 = h\<lparr>h_drawn := h_drawn h + 1\<rparr>" using draw by (auto simp: next_draw_def)
  ultimately show ?thesis by (simp add: mx_same_def)
qed

interpretation mx_loop: open_loop mx_requests mx_sent mx_start mx_rate_inv mx_next "mx_execute modulus off name_length" for modulus off name_length
proof
  fix k h k' h' fin
  assume run: "mx_execute modulus off name_length k h = Inr (k', h', fin)"
  let ?now = "h_clock h (h_ticks h)" and ?h = "h\<lparr>h_ticks := h_ticks h + 1\<rparr>"
  show "h_clock h' = h_clock h \<and> mx_start k' = mx_start k \<and> mx_rate_inv k' = mx_rate_inv k \<and> mx_requests k' = mx_requests k \<and>
      (mx_sent k' = mx_sent k \<and> mx_next k' = mx_next k \<and> h_ticks h \<le> h_ticks h' \<or>
       mx_sent k < mx_requests k \<and> (mx_next k \<le> ?now \<or> mx_next k = 0) \<and> mx_sent k' = mx_sent k + 1 \<and>
       mx_next k' = mx_start k + (mx_sent k + 1) * mx_rate_inv k \<and> h_ticks h < h_ticks h')"
  proof (cases "mx_sent k < mx_requests k \<and> (mx_next k \<le> ?now \<or> mx_next k = 0)")
    case True
    then have "\<not> mx_requests k \<le> mx_sent k" by (simp add: linorder_not_le)
    then obtain k1 h1 where one: "mx_issue modulus off name_length ?now k ?h = Inr (k1, h1)"
        "k' = k1\<lparr>mx_sent := mx_sent k1 + 1, mx_next := mx_start k1 + (mx_sent k1 + 1) * mx_rate_inv k1\<rparr>" "h' = h1"
      using run conjunct2 [OF True] by (auto simp: mx_execute_def Let_def read_tsc_def)
    then show ?thesis using True mx_issue_frame [OF one(1)] by (simp add: mx_same_def)
  next
    case False
    then show ?thesis using run by (auto simp: mx_execute_def Let_def read_tsc_def not_le split: if_splits)
  qed
qed

lemma mx_new_fields:
  assumes "mx_new cps cf reqs pct other h = Inr (k, h0)"
  shows "mx_sent k = 0" "mx_requests k = reqs" "mx_start k = h_clock h (h_ticks h)" "mx_rate_inv k = cps div word_of_nat (cf_req_rate cf)" "mx_next k = 0"
    "h_clock h0 = h_clock h" "h_ticks h < h_ticks h0"
  using assms by (auto simp: mx_new_def Let_def read_tsc_def split: if_splits)

text \<open>For \<open>long_execute\<close> and \<open>bad_execute\<close> alike.\<close>

lemma mix_rate_bounded:
  assumes "mx_new cps cf reqs pct other h = Inr (k, h0)" and "turns (mx_execute modulus off name_length) n (k, h0) = Inr (k', h')"
    and "unat (h_clock h (h_ticks h)) + unat reqs * unat (cps div word_of_nat (cf_req_rate cf)) < 2 ^ 64"
    and "\<forall>i < h_ticks h'. unat (h_clock h i) \<le> now"
  shows "mx_sent k' \<le> reqs \<and> (unat (mx_sent k') - 1) * unat (cps div word_of_nat (cf_req_rate cf)) \<le> now - unat (h_clock h (h_ticks h))"
proof -
  note k = mx_new_fields [OF assms(1)]
  show ?thesis using mx_loop.rate_bounded [OF assms(2) k(1,5,7), of now] assms(3,4) unfolding k by simp
qed

end
