(* ===== verification/Installer.thy ===== *)
theory Installer
  imports Requests Fill
begin

text \<open>
  The installer, \<open>db/src/install.rs\<close>: a loop over TCP connections each of which carries one request to install an extension, handed to \<open>Master::install\<close>. What a connection yields is an
  argument: whether it was accepted, the bytes read until the client closes its side (or that reading failed), and whether the response could be written.
\<close>

section \<open>The loop\<close>

record connection =
  cn_accepted :: bool
  cn_data :: "byte_string option"
  cn_writable :: bool

text \<open>The state is the master service and the responses written.\<close>

definition serve_connection ::
    "(byte_string \<Rightarrow> 'l option) \<Rightarrow> ('l \<Rightarrow> 'p option) \<Rightarrow> (byte_string \<Rightarrow> byte_string \<Rightarrow> bool) \<Rightarrow> connection \<Rightarrow>
     'p master \<times> byte_string list \<Rightarrow> ('p master \<times> byte_string list) rust" where
  "serve_connection dl_new dl_get save cn st =
     (let (ms, written) = st
      in if \<not> cn_accepted cn then Inl UnwrapFailed
         else case cn_data cn of
                None \<Rightarrow> Inr (ms, written)
              | Some req \<Rightarrow>
                  if length req = 0 then Inr (ms, written)
                  else rbind (install dl_new dl_get save req ms) (\<lambda>(ms, res).
                       if cn_writable cn then Inr (ms, written @ [res]) else Inl UnwrapFailed))"

definition Installer_execute ::
    "(byte_string \<Rightarrow> 'l option) \<Rightarrow> ('l \<Rightarrow> 'p option) \<Rightarrow> (byte_string \<Rightarrow> byte_string \<Rightarrow> bool) \<Rightarrow> connection list \<Rightarrow>
     'p master \<times> byte_string list \<Rightarrow> ('p master \<times> byte_string list) rust" where
  "Installer_execute dl_new dl_get save = for_each (serve_connection dl_new dl_get save)"

section \<open>What a request does\<close>

definition install_bytes :: "u32 \<Rightarrow> u64 \<Rightarrow> byte_string \<Rightarrow> byte_string \<Rightarrow> byte_string" where
  "install_bytes tenant stamp name code =
     enc_install_request (InstallRequest_new tenant (word_of_nat (length name)) (word_of_nat (length code)) stamp) @ name @ code"

definition install_answer :: "u32 \<Rightarrow> u64 \<Rightarrow> rpc_status \<Rightarrow> byte_string" where
  "install_answer tenant stamp status = enc_response ((InstallResponse_new stamp SandstormInstallRpc tenant)\<lparr>rs_status := status\<rparr>)"

lemma install_fields:
  "hdr_tenant (enc_install_request q @ rest) = rq_tenant q" "hdr_stamp (enc_install_request q @ rest) = rq_stamp q"
  "hdr_u32 14 (enc_install_request q @ rest) = nq_name_length q" "hdr_u32 18 (enc_install_request q @ rest) = nq_extn_length q"
  by (simp_all add: enc_install_request_def enc_request_def hdr_tenant_def hdr_stamp_def hdr_u32_def)

lemma install_outcome:
  assumes "length name < 2 ^ 32" and "length code < 2 ^ 32"
  shows "install dl_new dl_get save (install_bytes tenant stamp name code) ms =
    (if get_tenant ms tenant = None then Inr (ms, install_answer tenant stamp StatusTenantDoesNotExist)
     else if \<not> utf8_valid name then Inr (ms, install_answer tenant stamp StatusInternalError)
     else if \<not> save (install_path name) code then Inl UnwrapFailed
     else let (em, ok) = ext_load dl_new dl_get (install_path name) tenant name (ms_extensions ms)
          in Inr (ms\<lparr>ms_extensions := em\<rparr>, install_answer tenant stamp (if ok then StatusOk else StatusInternalError)))"
proof -
  let ?q = "InstallRequest_new tenant (word_of_nat (length name)) (word_of_nat (length code)) stamp"
  have len: "length (enc_install_request ?q) = 22" by simp
  have un: "unat (word_of_nat (length name) :: u32) = length name" "unat (word_of_nat (length code) :: u32) = length code"
    using assms by (simp_all add: unsigned_of_nat take_bit_nat_eq_self)
  have "peek 0 22 (install_bytes tenant stamp name code) = Inr (enc_install_request ?q)"
    by (simp add: peek_def install_bytes_def)
  moreover have "hdr_tenant (enc_install_request ?q) = tenant" "hdr_stamp (enc_install_request ?q) = stamp"
      "hdr_u32 14 (enc_install_request ?q) = word_of_nat (length name)" "hdr_u32 18 (enc_install_request ?q) = word_of_nat (length code)"
    using install_fields [of ?q "[]"] by (simp_all add: InstallRequest_new_def)
  moreover have "length (install_bytes tenant stamp name code) = 22 + length name + length code" by (simp add: install_bytes_def)
  moreover have "split_at (install_bytes tenant stamp name code) 22 = Inr (enc_install_request ?q, name @ code)"
    by (simp add: split_at_def install_bytes_def)
  moreover have "split_at (name @ code) (length name) = Inr (name, code)" "split_at code (length code) = Inr (code, [])"
    by (simp_all add: split_at_def)
  ultimately show ?thesis
    by (cases "get_tenant ms tenant") (simp_all add: install_def un install_answer_def Let_def del: rbind_eq_Inr split_at_ok)
qed

section \<open>Properties\<close>


section \<open>Witness\<close>


end
