(* ===== verification/SanityClient.thy ===== *)
theory SanityClient
  imports YcsbClient Installer
begin

text \<open>
  A client that checks an installation, \<open>splinter/src/bin/client/sanity.rs\<close>: it installs the extension \<open>get\<close> under the name \<open>iget\<close>, puts a thousand records and gets them
  again, natively or by invocations. The library file and the exchange with the installer over a TCP connection are arguments; the pause before every request is left out.
\<close>

section \<open>The sender\<close>

record sanity_send =
  sn_puts :: u64
  sn_gets :: u64
  sn_native :: bool

definition SanitySend_new :: "ycsbt_config \<Rightarrow> sanity_send" where
  "SanitySend_new cf = \<lparr>sn_puts = 1000, sn_gets = 1000, sn_native = (\<not> cf_use_invoke cf)\<rparr>"

definition iget_name :: byte_string where
  "iget_name = map of_char ''iget''"

definition sn_install_request :: "byte_string \<Rightarrow> byte_string" where
  "sn_install_request code = enc_install_request (InstallRequest_new 100 4 (word_of_nat (length code)) 0) @ iget_name @ code"

text \<open>\<open>library\<close> is what the library file contains, if it can be opened, and \<open>exchange\<close> whether the connection carried the request and the response.\<close>

definition sn_install :: "byte_string option \<Rightarrow> (byte_string \<Rightarrow> bool) \<Rightarrow> sanity_send \<Rightarrow> unit rust" where
  "sn_install library exchange k =
     (if \<not> sn_native k \<and> sn_puts k = 1000 \<and> sn_gets k = 1000
      then rbind (expect library) (\<lambda>code. if exchange (sn_install_request code) then Inr () else Inl UnwrapFailed)
      else Inr ())"

definition sn_put :: "sanity_send \<Rightarrow> cenv \<Rightarrow> cenv rust" where
  "sn_put k env =
     (let temp = enc_u64 (sn_puts k)
      in if sn_native k then send_put 100 100 temp temp (sn_puts k) env
         else send_invoke 100 3 (put_name @ enc_u64 100 @ [8, 0] @ temp @ temp) (sn_puts k) env)"

definition sn_get :: "sanity_send \<Rightarrow> cenv \<Rightarrow> cenv rust" where
  "sn_get k env =
     (let temp = enc_u64 (sn_gets k)
      in if sn_native k then send_get 100 100 temp (sn_gets k) env
         else send_invoke 100 4 (iget_name @ enc_u64 100 @ temp) (sn_gets k) env)"

definition sn_execute :: "byte_string option \<Rightarrow> (byte_string \<Rightarrow> bool) \<Rightarrow> sanity_send \<Rightarrow> host \<Rightarrow> (sanity_send \<times> host \<times> bool) rust" where
  "sn_execute library exchange k h =
     rbind (sn_install library exchange k) (\<lambda>_.
       if 0 < sn_puts k
       then rbind (sn_put k (h_env h)) (\<lambda>env. Inr (k\<lparr>sn_puts := sn_puts k - 1\<rparr>, set_env h env, False))
       else if 0 < sn_gets k
       then rbind (sn_get k (h_env h)) (\<lambda>env. Inr (k\<lparr>sn_gets := sn_gets k - 1\<rparr>, set_env h env, False))
       else Inr (k, h, False))"

section \<open>The receiver\<close>

text \<open>The state is the number of bursts received and the payloads printed.\<close>

definition sn_on_packet :: "packet \<Rightarrow> byte_string list \<times> host \<Rightarrow> (byte_string list \<times> host) rust" where
  "sn_on_packet packet st = (let (printed, h) = st in rbind (get_payload packet) (\<lambda>pay. Inr (printed @ [pay], free_packet packet h)))"

definition sn_recv_execute :: "u64 \<times> byte_string list \<Rightarrow> host \<Rightarrow> ((u64 \<times> byte_string list) \<times> host) rust" where
  "sn_recv_execute st h =
     rbind (poll_port (fst st) h) (\<lambda>(packets, n, h).
     rbind (for_each sn_on_packet (case packets of None \<Rightarrow> [] | Some ps \<Rightarrow> ps) (snd st, h)) (\<lambda>(printed, h).
     Inr ((n, printed), h)))"

section \<open>What it does\<close>

text \<open>The request to install is one the installer understands.\<close>

lemma sanity_installs: "sn_install_request code = install_bytes 100 0 iget_name code"
  by (simp add: sn_install_request_def install_bytes_def iget_name_def)

text \<open>Requests are counted down: puts first, then gets, one per turn.\<close>

lemma sanity_turn:
  assumes "sn_execute library exchange k h = Inr (k', h', fin)"
  shows "unat (sn_puts k') = unat (sn_puts k) - 1 \<and> unat (sn_gets k') = (if sn_puts k = 0 then unat (sn_gets k) - 1 else unat (sn_gets k))"
proof -
  have dec: "unat (x - 1) = unat x - 1" if "0 < x" for x :: u64
    using that by (simp add: unat_sub word_less_nat_alt word_le_nat_alt)
  show ?thesis using assms dec by (auto simp: sn_execute_def word_less_nat_alt word_unat_eq_iff split: if_splits)
qed

lemma sanity_turns:
  "turns (sn_execute library exchange) n (k, h) = Inr (k', h') \<Longrightarrow>
    unat (sn_puts k') = unat (sn_puts k) - n \<and> unat (sn_gets k') = unat (sn_gets k) - (n - unat (sn_puts k))"
proof (induction n arbitrary: k h)
  case (Suc n)
  obtain k1 h1 fin where one: "sn_execute library exchange k h = Inr (k1, h1, fin)" "turns (sn_execute library exchange) n (k1, h1) = Inr (k', h')"
    using Suc.prems by auto
  have "sn_puts k = 0 \<longleftrightarrow> unat (sn_puts k) = 0" by (simp add: word_unat_eq_iff)
  then show ?case using sanity_turn [OF one(1)] Suc.IH [OF one(2)] by (auto split: if_splits)
qed simp

end
