(* ===== verification/Ring.thy ===== *)
theory Ring
  imports Prelude
begin

text \<open>
  The ring buffer of \<open>net/framework/src/state/ring_buffer.rs\<close>, and \<open>round_to_power_of_2\<close> of
  \<open>net/framework/src/utils/mod.rs\<close>, which chooses its size. The positions \<open>rb_head\<close> and \<open>rb_tail\<close> are words that
  run on and wrap; their low bits index the vector. \<open>pending\<close> is what a reader will get.
  The locale \<open>byte_pipe\<close> is the contract of a bounded first-in first-out channel of bytes; it is interpreted on the ring
  here and on the reordering buffer in \<open>Reorder\<close>.
\<close>

unbundle bit_operations_syntax

section \<open>The ring buffer\<close>

definition round_to_power_of_2 :: "u64 \<Rightarrow> u64" where
  "round_to_power_of_2 n =
     (let n = n - 1;
          n = n OR drop_bit 1 n;
          n = n OR drop_bit 2 n;
          n = n OR drop_bit 4 n;
          n = n OR drop_bit 8 n;
          n = n OR drop_bit 16 n;
          n = n OR drop_bit 32 n
      in n + 1)"

record ring_buffer =
  rb_head :: u64
  rb_tail :: u64
  rb_size :: usize
  rb_mask :: u64
  rb_vec :: byte_string

datatype ring_error = InvalidRingSize u64

text \<open>A vector of more than \<open>2 ^ 63 - 1\<close> bytes cannot be allocated.\<close>

definition RingBuffer_new :: "u64 \<Rightarrow> (ring_error + ring_buffer) rust" where
  "RingBuffer_new bytes =
     (if bytes AND (bytes - 1) \<noteq> 0 then Inr (Inl (InvalidRingSize bytes))
      else if 2 ^ 63 \<le> unat bytes then Inl CapacityExceeded
      else Inr (Inr \<lparr>rb_head = 0, rb_tail = 0, rb_size = unat bytes, rb_mask = bytes - 1, rb_vec = replicate (unat bytes) 0\<rparr>))"

text \<open>\<open>Read::read\<close> and \<open>Write::write\<close> of slices copy as much as both sides have.\<close>

definition copy_slice :: "'a list \<Rightarrow> 'a list \<Rightarrow> usize \<times> 'a list" where
  "copy_slice src dst = (let n = min (length src) (length dst) in (n, write_at 0 (take n src) dst))"

definition wrapped_read :: "usize \<Rightarrow> byte_string \<Rightarrow> ring_buffer \<Rightarrow> (usize \<times> byte_string) rust" where
  "wrapped_read offset data rb =
     rbind (rassert (offset < rb_size rb) AssertionFailed) (\<lambda>_.
     rbind (rassert (length data \<le> rb_size rb) AssertionFailed) (\<lambda>_.
     rbind (split_at (rb_vec rb) offset) (\<lambda>(_, src).
     let (bytes, data) = copy_slice src data
     in if rb_size rb < offset + length data
        then rbind (split_at (rb_vec rb) (length data - bytes)) (\<lambda>(src, _).
             rbind (split_at data bytes) (\<lambda>(front, back).
             let (more, back) = copy_slice src back in Inr (bytes + more, front @ back)))
        else Inr (bytes, data))))"

definition wrapped_write :: "usize \<Rightarrow> byte_string \<Rightarrow> ring_buffer \<Rightarrow> (usize \<times> ring_buffer) rust" where
  "wrapped_write offset data rb =
     rbind (rassert (offset < rb_size rb) AssertionFailed) (\<lambda>_.
     rbind (rassert (length data \<le> rb_size rb) AssertionFailed) (\<lambda>_.
     rbind (split_at (rb_vec rb) offset) (\<lambda>(front, back).
     let (bytes, back) = copy_slice data back; vec = front @ back
     in if rb_size rb < offset + length data
        then rbind (split_at vec (length data - bytes)) (\<lambda>(front, back).
             rbind (split_at data bytes) (\<lambda>(_, rest).
             let (more, front) = copy_slice rest front in Inr (bytes + more, rb\<lparr>rb_vec := front @ back\<rparr>)))
        else Inr (bytes, rb\<lparr>rb_vec := vec\<rparr>))))"

definition write_at_offset :: "usize \<Rightarrow> byte_string \<Rightarrow> ring_buffer \<Rightarrow> (usize \<times> ring_buffer) rust" where
  "write_at_offset offset data rb = wrapped_write offset data rb"

definition read_from_offset :: "usize \<Rightarrow> byte_string \<Rightarrow> ring_buffer \<Rightarrow> (usize \<times> byte_string) rust" where
  "read_from_offset offset data rb = wrapped_read offset data rb"

definition seek_tail :: "usize \<Rightarrow> ring_buffer \<Rightarrow> ring_buffer" where
  "seek_tail increment_by rb = rb\<lparr>rb_tail := rb_tail rb + word_of_nat increment_by\<rparr>"

definition write_at_tail :: "byte_string \<Rightarrow> ring_buffer \<Rightarrow> (usize \<times> ring_buffer) rust" where
  "write_at_tail data rb =
     (let available = rb_mask rb + rb_head rb - rb_tail rb;
          write = min (length data) (unat available);
          offset = unat (rb_tail rb AND rb_mask rb)
      in wrapped_write offset (take write data) (seek_tail write rb))"

definition write_at_offset_from_tail :: "usize \<Rightarrow> byte_string \<Rightarrow> ring_buffer \<Rightarrow> (usize \<times> ring_buffer) rust" where
  "write_at_offset_from_tail offset data rb =
     (if unat (rb_mask rb + rb_head rb - rb_tail rb) < offset then Inr (0, rb)
      else let offset_tail = rb_tail rb + word_of_nat offset;
               available_at_offset = rb_mask rb + rb_head rb - offset_tail;
               write = min (length data) (unat available_at_offset)
           in wrapped_write (unat (offset_tail AND rb_mask rb)) (take write data) rb)"

definition rb_available :: "ring_buffer \<Rightarrow> usize" where
  "rb_available rb = unat (rb_tail rb - rb_head rb)"

definition read_offset :: "ring_buffer \<Rightarrow> usize" where
  "read_offset rb = unat (rb_head rb AND rb_mask rb)"

definition read_from_head_with_increment :: "byte_string \<Rightarrow> usize \<Rightarrow> ring_buffer \<Rightarrow> (usize \<times> byte_string \<times> ring_buffer) rust" where
  "read_from_head_with_increment data increment rb =
     (let offset = read_offset rb;
          to_read = min (rb_available rb) (length data);
          rb = rb\<lparr>rb_head := rb_head rb + word_of_nat (min increment to_read)\<rparr>
      in rbind (wrapped_read offset (take to_read data) rb) (\<lambda>(n, front). Inr (n, front @ drop to_read data, rb)))"

definition read_from_head :: "byte_string \<Rightarrow> ring_buffer \<Rightarrow> (usize \<times> byte_string \<times> ring_buffer) rust" where
  "read_from_head data rb = read_from_head_with_increment data (length data) rb"

definition seek_head :: "usize \<Rightarrow> ring_buffer \<Rightarrow> ring_buffer rust" where
  "seek_head seek rb =
     rbind (rassert (seek \<le> rb_available rb) AssertionFailed) (\<lambda>_. Inr (rb\<lparr>rb_head := rb_head rb + word_of_nat seek\<rparr>))"

definition rb_len :: "ring_buffer \<Rightarrow> usize" where
  "rb_len rb = rb_size rb"

definition rb_clear :: "ring_buffer \<Rightarrow> ring_buffer" where
  "rb_clear rb = rb\<lparr>rb_head := 0, rb_tail := 0\<rparr>"

section \<open>Sizes that are powers of two\<close>

lemma power_of_two:
  assumes "w AND (w - 1) = (0 :: u64)" and "w \<noteq> 0"
  shows "\<exists>n < 64. w = 2 ^ n"
proof -
  have pos: "0 < unat w" using assms(2) by (simp add: unat_gt_0)
  obtain n where n: "2 ^ n \<le> unat w" "unat w < 2 ^ (n + 1)" using ex_power_ivl1 [of 2 "unat w"] pos by auto
  have "(2 :: nat) ^ n < 2 ^ 64" using n(1) unat_u64_lt [of w] by simp
  then have small: "n < 64" by (rule power_less_imp_less_exp [rotated]) simp
  have "unat w = 2 ^ n"
  proof (rule ccontr)
    assume "unat w \<noteq> 2 ^ n"
    then have "2 ^ n \<le> unat (w - 1)" "unat (w - 1) < 2 ^ (n + 1)" using n pos by (simp_all add: unat_minus_one assms(2))
    then have "unat (w - 1) div 2 ^ n = 1" "unat w div 2 ^ n = 1" using n by (auto simp: div_nat_eqI)
    then have "bit (unat (w - 1)) n" "bit (unat w) n" by (simp_all add: bit_iff_odd)
    then have "bit (w AND (w - 1)) n" using small by (simp add: bit_and_iff bit_unsigned_iff)
    then show False by (simp add: assms(1))
  qed
  then have "word_of_nat (unat w) = (2 ^ n :: u64)" by simp
  then have "w = 2 ^ n" by simp
  then show ?thesis using small by blast
qed

lemma mask_index:
  assumes "n < 64"
  shows "unat (p AND (2 ^ n - 1 :: u64)) = unat p mod 2 ^ n"
proof -
  have "p AND (2 ^ n - 1) = take_bit n p" by (simp add: take_bit_eq_mask mask_eq_decr_exp)
  then have "unat (p AND (2 ^ n - 1)) = take_bit n (unat p)" by (simp only: unsigned_take_bit_eq)
  then show ?thesis by (simp only: take_bit_eq_mod)
qed

lemma position_index:
  assumes "n < 64"
  shows "unat (p + word_of_nat i :: u64) mod 2 ^ n = (unat p mod 2 ^ n + i) mod 2 ^ n"
proof -
  have "(2 :: nat) ^ n dvd 2 ^ 64" using assms by (intro le_imp_power_dvd) simp
  moreover have "unat (p + word_of_nat i :: u64) = (unat p + i) mod 2 ^ 64"
    by (simp add: unat_word_ariths unat_of_nat mod_add_right_eq)
  ultimately show ?thesis by (simp add: mod_mod_cancel mod_add_left_eq)
qed

section \<open>The ring as a window\<close>

text \<open>Seen from the head, the vector is a window of \<open>rb_size\<close> bytes: first what is pending, then what has been written ahead of the tail.\<close>

definition ring_ok :: "ring_buffer \<Rightarrow> bool" where
  "ring_ok rb \<longleftrightarrow> (\<exists>n < 63. rb_size rb = 2 ^ n \<and> rb_mask rb = 2 ^ n - 1) \<and> length (rb_vec rb) = rb_size rb \<and> rb_available rb < rb_size rb"

definition ring_view :: "ring_buffer \<Rightarrow> byte_string" where
  "ring_view rb = rotate (unat (rb_head rb) mod rb_size rb) (rb_vec rb)"

definition pending :: "ring_buffer \<Rightarrow> byte_string" where
  "pending rb = take (rb_available rb) (ring_view rb)"

definition ring_room :: "ring_buffer \<Rightarrow> nat" where
  "ring_room rb = rb_size rb - 1 - rb_available rb"

lemma length_copy_slice [simp]: "length (snd (copy_slice src dst)) = length dst"
  by (simp add: copy_slice_def Let_def)

lemma copy_slice_fits: "length src \<le> length dst \<Longrightarrow> copy_slice src dst = (length src, src @ drop (length src) dst)"
  by (simp add: copy_slice_def write_at_def Let_def)

lemma copy_slice_full: "length dst \<le> length src \<Longrightarrow> copy_slice src dst = (length dst, take (length dst) src)"
  by (simp add: copy_slice_def write_at_def Let_def min_absorb2)

lemma wrapped_write_view:
  assumes "offset < rb_size rb" and "length data \<le> rb_size rb" and "length (rb_vec rb) = rb_size rb"
  shows "\<exists>vec. wrapped_write offset data rb = Inr (length data, rb\<lparr>rb_vec := vec\<rparr>) \<and>
    rotate offset vec = write_at 0 data (rotate offset (rb_vec rb)) \<and> length vec = rb_size rb"
proof (cases "offset + length data \<le> rb_size rb")
  case True
  then have "wrapped_write offset data rb = Inr (length data, rb\<lparr>rb_vec := take offset (rb_vec rb) @ data @ drop (offset + length data) (rb_vec rb)\<rparr>)"
    using assms by (simp add: wrapped_write_def copy_slice_fits add.commute)
  moreover have "rotate offset (take offset (rb_vec rb) @ data @ drop (offset + length data) (rb_vec rb)) = write_at 0 data (rotate offset (rb_vec rb))"
    using True assms by (simp add: rotate_drop_take write_at_def add.commute)
  ultimately show ?thesis using True assms by (intro exI) auto
next
  case False
  let ?k = "rb_size rb - offset" and ?m = "length data - (rb_size rb - offset)"
  let ?vec = "drop ?k data @ drop ?m (take offset (rb_vec rb)) @ take ?k data"
  have "wrapped_write offset data rb = Inr (length data, rb\<lparr>rb_vec := ?vec\<rparr>)"
    using False assms by (simp add: wrapped_write_def copy_slice_full min_absorb1 min_absorb2)
  moreover have "rotate offset ?vec = write_at 0 data (rotate offset (rb_vec rb))"
    using False assms by (simp add: rotate_drop_take write_at_def drop_take)
  ultimately show ?thesis using False assms by (intro exI) auto
qed

lemma wrapped_read_view:
  assumes "offset < rb_size rb" and "length data \<le> rb_size rb" and "length (rb_vec rb) = rb_size rb"
  shows "wrapped_read offset data rb = Inr (length data, take (length data) (rotate offset (rb_vec rb)))"
proof (cases "offset + length data \<le> rb_size rb")
  case True
  then have "copy_slice (drop offset (rb_vec rb)) data = (length data, take (length data) (drop offset (rb_vec rb)))"
    using assms by (simp add: copy_slice_full)
  then show ?thesis using True assms by (simp add: wrapped_read_def rotate_drop_take)
next
  case False
  let ?k = "rb_size rb - offset"
  have "copy_slice (drop offset (rb_vec rb)) data = (?k, drop offset (rb_vec rb) @ drop ?k data)"
    using False assms by (simp add: copy_slice_fits)
  moreover have "copy_slice (take (length data - ?k) (rb_vec rb)) (drop ?k data) = (length data - ?k, take (length data - ?k) (rb_vec rb))"
    using False assms by (simp add: copy_slice_full min_absorb2)
  ultimately show ?thesis using False assms by (simp add: wrapped_read_def rotate_drop_take min_absorb1)
qed

lemma rotate_cancel:
  assumes "rotate k xs = rotate k ys" and "length xs = length ys" and "k \<le> length ys"
  shows "xs = ys"
proof -
  have "rotate (length ys - k) (rotate k xs) = rotate (length ys - k) (rotate k ys)" by (simp only: assms(1))
  then show ?thesis using assms(2,3) by (simp add: rotate_rotate rotate_id)
qed

lemma rotate_write_at:
  assumes "k + length data \<le> length xs" and "k < length xs"
  shows "rotate k (write_at k data xs) = write_at 0 data (rotate k xs)"
  using assms by (simp add: rotate_drop_take write_at_def add.commute)

lemma ring_ok_index:
  assumes "ring_ok rb"
  shows "unat (p AND rb_mask rb) = unat p mod rb_size rb"
    and "unat (p + word_of_nat i) mod rb_size rb = (unat p mod rb_size rb + i) mod rb_size rb"
    and "length (ring_view rb) = rb_size rb" and "0 < rb_size rb" and "rb_size rb < 2 ^ 63"
proof -
  obtain n where n: "n < 63" "rb_size rb = 2 ^ n" "rb_mask rb = 2 ^ n - 1" using assms by (auto simp: ring_ok_def)
  show "unat (p AND rb_mask rb) = unat p mod rb_size rb" unfolding n(2,3) by (rule mask_index) (use n in simp)
  show "unat (p + word_of_nat i) mod rb_size rb = (unat p mod rb_size rb + i) mod rb_size rb"
    unfolding n(2) by (rule position_index) (use n in simp)
  show "length (ring_view rb) = rb_size rb" using assms by (simp add: ring_ok_def ring_view_def)
  show "0 < rb_size rb" by (simp add: n(2))
  show "rb_size rb < 2 ^ 63" unfolding n(2) by (rule power_strict_increasing) (use n in simp_all)
qed

lemma unat_mask:
  assumes "ring_ok rb"
  shows "unat (rb_mask rb) = rb_size rb - 1"
proof -
  obtain n where n: "n < 63" "rb_size rb = 2 ^ n" "rb_mask rb = 2 ^ n - 1" using assms by (auto simp: ring_ok_def)
  have "(2 :: nat) ^ n < 2 ^ 64" using n(1) by (intro power_strict_increasing) simp_all
  then have "unat (2 ^ n :: u64) = 2 ^ n" using unat_of_nat_lt(3) [of "2 ^ n"] by simp
  moreover have "(2 ^ n :: u64) \<noteq> 0" using calculation by (metis unat_0 power_not_zero zero_neq_numeral)
  ultimately show ?thesis by (simp add: n unat_minus_one)
qed

lemma unat_room:
  assumes "ring_ok rb" and "k \<le> ring_room rb"
  shows "unat (rb_mask rb + rb_head rb - (rb_tail rb + word_of_nat k)) = ring_room rb - k"
proof -
  let ?used = "rb_tail rb - rb_head rb + word_of_nat k"
  have lt: "rb_available rb < rb_size rb" "rb_size rb < 2 ^ 63" using assms(1) ring_ok_index(5) by (auto simp: ring_ok_def)
  then have "rb_available rb + k < 2 ^ 64" using assms(2) by (simp add: ring_room_def)
  then have used: "unat ?used = rb_available rb + k"
    using lt by (simp add: unat_word_ariths(1) rb_available_def)
  then have "?used \<le> rb_mask rb" using assms(2) lt by (simp add: word_le_nat_alt unat_mask [OF assms(1)] ring_room_def)
  then have "unat (rb_mask rb - ?used) = ring_room rb - k" by (simp add: unat_sub used unat_mask [OF assms(1)] ring_room_def)
  moreover have "rb_mask rb - ?used = rb_mask rb + rb_head rb - (rb_tail rb + word_of_nat k)" by simp
  ultimately show ?thesis by simp
qed

text \<open>A write at a position is a write into the window, at its distance from the head.\<close>

lemma view_write:
  assumes "ring_ok rb" and "k + length data \<le> rb_size rb" and "k < rb_size rb" and "p = rb_head rb + word_of_nat k"
  shows "\<exists>vec. wrapped_write (unat (p AND rb_mask rb)) data (rb\<lparr>rb_tail := t\<rparr>) = Inr (length data, rb\<lparr>rb_tail := t, rb_vec := vec\<rparr>) \<and>
    ring_view (rb\<lparr>rb_tail := t, rb_vec := vec\<rparr>) = write_at k data (ring_view rb) \<and> length vec = rb_size rb"
proof -
  let ?h = "unat (rb_head rb) mod rb_size rb" and ?off = "unat (p AND rb_mask rb)"
  have off: "?off = (?h + k) mod rb_size rb" by (simp add: assms(4) ring_ok_index [OF assms(1)])
  then have small: "?off < rb_size rb" using ring_ok_index(4) [OF assms(1)] by simp
  have len: "length (rb_vec rb) = rb_size rb" using assms(1) by (simp add: ring_ok_def)
  obtain vec where vec: "wrapped_write ?off data (rb\<lparr>rb_tail := t\<rparr>) = Inr (length data, rb\<lparr>rb_tail := t\<rparr>\<lparr>rb_vec := vec\<rparr>)"
      "rotate ?off vec = write_at 0 data (rotate ?off (rb_vec rb))" "length vec = rb_size rb"
    using wrapped_write_view [of ?off "rb\<lparr>rb_tail := t\<rparr>" data] small assms(2) len by auto
  have turn: "rotate ?off xs = rotate k (rotate ?h xs)" if "length xs = rb_size rb" for xs :: byte_string
    using rotate_conv_mod [of "?h + k" xs] that by (simp add: off rotate_rotate add.commute)
  have "rotate k (rotate ?h vec) = rotate k (write_at k data (ring_view rb))"
    using vec(2) rotate_write_at [of k data "ring_view rb"] assms(2,3) ring_ok_index(3) [OF assms(1)]
    by (simp add: turn vec(3) len ring_view_def)
  then have "rotate ?h vec = write_at k data (ring_view rb)"
    by (rule rotate_cancel) (use assms(2,3) vec(3) ring_ok_index(3) [OF assms(1)] in simp_all)
  then show ?thesis using vec by (intro exI [of _ vec]) (simp add: ring_view_def)
qed

section \<open>What the operations do to the window\<close>

lemma take_min_length: "take (min (length xs) n) xs = take n xs"
  by (simp add: min_def)

lemma write_ahead:
  assumes "ring_ok rb" and "k \<le> ring_room rb"
  shows "\<exists>rb'. write_at_offset_from_tail k data rb = Inr (min (length data) (ring_room rb - k), rb') \<and> ring_ok rb' \<and>
    ring_view rb' = write_at (rb_available rb + k) (take (ring_room rb - k) data) (ring_view rb) \<and>
    rb_head rb' = rb_head rb \<and> rb_tail rb' = rb_tail rb \<and> rb_size rb' = rb_size rb"
proof -
  have lt: "rb_available rb < rb_size rb" using assms(1) by (simp add: ring_ok_def)
  have room: "unat (rb_mask rb + rb_head rb - rb_tail rb) = ring_room rb" using unat_room [OF assms(1), of 0] by simp
  have at_tail: "rb_tail rb + word_of_nat k = rb_head rb + word_of_nat (rb_available rb + k)" by (simp add: rb_available_def)
  have fits: "rb_available rb + k + length (take (ring_room rb - k) data) \<le> rb_size rb" "rb_available rb + k < rb_size rb"
    using assms(2) lt by (simp_all add: ring_room_def)
  obtain vec where "wrapped_write (unat ((rb_tail rb + word_of_nat k) AND rb_mask rb)) (take (ring_room rb - k) data) (rb\<lparr>rb_tail := rb_tail rb\<rparr>) =
        Inr (length (take (ring_room rb - k) data), rb\<lparr>rb_tail := rb_tail rb, rb_vec := vec\<rparr>)"
      "ring_view (rb\<lparr>rb_tail := rb_tail rb, rb_vec := vec\<rparr>) = write_at (rb_available rb + k) (take (ring_room rb - k) data) (ring_view rb)"
      "length vec = rb_size rb"
    using view_write [OF assms(1) fits at_tail, of "rb_tail rb"] by auto
  moreover have "ring_ok (rb\<lparr>rb_vec := vec\<rparr>)" using assms(1) calculation(3) by (auto simp: ring_ok_def rb_available_def)
  ultimately show ?thesis using assms(2)
    by (intro exI [of _ "rb\<lparr>rb_vec := vec\<rparr>"])
      (simp add: write_at_offset_from_tail_def Let_def room unat_room [OF assms] take_min_length)
qed

lemma seek_tail_ok:
  assumes "ring_ok rb" and "k \<le> ring_room rb"
  shows "rb_available (seek_tail k rb) = rb_available rb + k" and "ring_ok (seek_tail k rb)" and "ring_view (seek_tail k rb) = ring_view rb"
proof -
  have lt: "rb_available rb < rb_size rb" "rb_size rb < 2 ^ 63" using assms(1) ring_ok_index(5) by (auto simp: ring_ok_def)
  have "rb_available (seek_tail k rb) = unat (rb_tail rb - rb_head rb + word_of_nat k)" by (simp add: rb_available_def seek_tail_def algebra_simps)
  also have "\<dots> = rb_available rb + k" using lt assms(2) by (simp add: unat_word_ariths(1) rb_available_def ring_room_def)
  finally show avail: "rb_available (seek_tail k rb) = rb_available rb + k" .
  show "ring_ok (seek_tail k rb)" using assms lt by (simp add: ring_ok_def avail) (simp add: seek_tail_def ring_room_def)
  show "ring_view (seek_tail k rb) = ring_view rb" by (simp add: ring_view_def seek_tail_def)
qed

lemma write_tail:
  assumes "ring_ok rb"
  shows "\<exists>rb'. write_at_tail data rb = Inr (min (length data) (ring_room rb), rb') \<and> ring_ok rb' \<and>
    ring_view rb' = write_at (rb_available rb) (take (ring_room rb) data) (ring_view rb) \<and> rb_head rb' = rb_head rb \<and>
    rb_available rb' = rb_available rb + min (length data) (ring_room rb) \<and> rb_size rb' = rb_size rb"
proof -
  let ?n = "min (length data) (ring_room rb)"
  have lt: "rb_available rb < rb_size rb" using assms by (simp add: ring_ok_def)
  have room: "unat (rb_mask rb + rb_head rb - rb_tail rb) = ring_room rb" using unat_room [OF assms, of 0] by simp
  have at_tail: "rb_tail rb = rb_head rb + word_of_nat (rb_available rb)" by (simp add: rb_available_def)
  have fits: "rb_available rb + length (take ?n data) \<le> rb_size rb" using lt by (simp add: ring_room_def)
  obtain vec where vec: "wrapped_write (unat (rb_tail rb AND rb_mask rb)) (take ?n data) (seek_tail ?n rb) = Inr (?n, seek_tail ?n rb\<lparr>rb_vec := vec\<rparr>)"
      "ring_view (seek_tail ?n rb\<lparr>rb_vec := vec\<rparr>) = write_at (rb_available rb) (take (ring_room rb) data) (ring_view rb)" "length vec = rb_size rb"
    using view_write [OF assms fits lt at_tail, of "rb_tail rb + word_of_nat ?n"] by (auto simp: seek_tail_def take_min_length)
  have "rb_available (seek_tail ?n rb\<lparr>rb_vec := vec\<rparr>) = rb_available rb + ?n"
    using seek_tail_ok(1) [OF assms, of ?n] by (simp add: rb_available_def)
  moreover have "ring_ok (seek_tail ?n rb\<lparr>rb_vec := vec\<rparr>)"
    using seek_tail_ok(2) [OF assms, of ?n] vec(3) by (auto simp: ring_ok_def rb_available_def seek_tail_def)
  ultimately show ?thesis using vec
    by (intro exI [of _ "seek_tail ?n rb\<lparr>rb_vec := vec\<rparr>"]) (auto simp: write_at_tail_def Let_def room seek_tail_def)
qed

lemma length_pending [simp]: "ring_ok rb \<Longrightarrow> length (pending rb) = rb_available rb"
  by (simp add: pending_def ring_ok_index ring_ok_def)

lemma write_tail_pending:
  assumes "ring_ok rb"
  shows "\<exists>rb'. write_at_tail data rb = Inr (min (length data) (ring_room rb), rb') \<and> ring_ok rb' \<and> pending rb' = pending rb @ take (ring_room rb) data \<and>
    rb_head rb' = rb_head rb \<and> rb_size rb' = rb_size rb \<and> rb_available rb' = rb_available rb + min (length data) (ring_room rb)"
proof -
  obtain rb' where rb': "write_at_tail data rb = Inr (min (length data) (ring_room rb), rb')" "ring_ok rb'"
      "ring_view rb' = write_at (rb_available rb) (take (ring_room rb) data) (ring_view rb)" "rb_head rb' = rb_head rb"
      "rb_available rb' = rb_available rb + min (length data) (ring_room rb)" "rb_size rb' = rb_size rb"
    using write_tail [OF assms, of data] by blast
  have "rb_available rb < length (ring_view rb)" using assms by (simp add: ring_ok_index ring_ok_def)
  then have "pending rb' = pending rb @ take (ring_room rb) data"
    by (simp add: pending_def rb'(3,5) write_at_def take_min_length)
  then show ?thesis using rb' by blast
qed

lemma read_head:
  assumes "ring_ok rb"
  shows "\<exists>rb'. read_from_head buf rb = Inr (min (rb_available rb) (length buf), take (length buf) (pending rb) @ drop (rb_available rb) buf, rb') \<and> ring_ok rb' \<and>
    pending rb' = drop (length buf) (pending rb) \<and> rb_tail rb' = rb_tail rb \<and> rb_size rb' = rb_size rb \<and> rb_available rb' = rb_available rb - length buf"
proof -
  let ?n = "min (rb_available rb) (length buf)" and ?h = "unat (rb_head rb) mod rb_size rb"
  let ?rb = "rb\<lparr>rb_head := rb_head rb + word_of_nat ?n\<rparr>"
  have lt: "rb_available rb < rb_size rb" "rb_size rb < 2 ^ 63" "length (rb_vec rb) = rb_size rb" using assms ring_ok_index(5) by (auto simp: ring_ok_def)
  have h: "read_offset rb = ?h" "?h < rb_size rb" using ring_ok_index [OF assms] by (simp_all add: read_offset_def)
  have "wrapped_read ?h (take ?n buf) ?rb = Inr (?n, take ?n (ring_view rb))"
    using wrapped_read_view [of ?h ?rb "take ?n buf"] h(2) lt by (simp add: ring_view_def)
  then have read: "read_from_head buf rb = Inr (?n, take ?n (ring_view rb) @ drop ?n buf, ?rb)"
    by (simp add: read_from_head_def read_from_head_with_increment_def Let_def h(1) min.absorb2)
  have "unat (word_of_nat ?n :: u64) = ?n" using lt by simp
  moreover have "rb_available ?rb = unat (rb_tail rb - rb_head rb - word_of_nat ?n)" by (simp add: rb_available_def algebra_simps)
  ultimately have avail: "rb_available ?rb = rb_available rb - length buf"
    by (simp only:) (simp add: unat_sub word_le_nat_alt rb_available_def [symmetric])
  have "rotate ((?h + ?n) mod rb_size rb) (rb_vec rb) = rotate ?n (ring_view rb)"
    using rotate_conv_mod [of "?h + ?n" "rb_vec rb"] lt(3) by (simp add: ring_view_def rotate_rotate add.commute)
  then have view: "ring_view ?rb = rotate ?n (ring_view rb)"
    using ring_ok_index(2) [OF assms, of "rb_head rb" ?n] by (simp add: ring_view_def)
  have "rb_available rb - length buf = rb_available rb - ?n" by simp
  then have "pending ?rb = take (rb_available rb - ?n) (rotate ?n (ring_view rb))" by (simp only: pending_def avail view)
  also have "\<dots> = drop ?n (pending rb)" using ring_ok_index(3) [OF assms] lt by (simp add: pending_def rotate_drop_take drop_take)
  finally have "pending ?rb = drop ?n (pending rb)" .
  then have "pending ?rb = drop (length buf) (pending rb)" using length_pending [OF assms] by (simp add: min_def split: if_splits)
  moreover have "ring_ok ?rb" using assms lt by (simp add: ring_ok_def avail)
  moreover have "take ?n (ring_view rb) = take (length buf) (pending rb)" "drop ?n buf = drop (rb_available rb) buf"
    by (simp_all add: pending_def min.commute) (simp add: min_def)
  ultimately show ?thesis by (intro exI [of _ ?rb]) (simp add: read avail)
qed

lemma new_ring_ok:
  assumes "bytes AND (bytes - 1) = 0" and "bytes \<noteq> 0" and "unat bytes < 2 ^ 63"
  shows "\<exists>rb. RingBuffer_new bytes = Inr (Inr rb) \<and> ring_ok rb \<and> pending rb = [] \<and> rb_size rb = unat bytes \<and> rb_available rb = 0"
proof -
  obtain n where n: "bytes = 2 ^ n" "n < 64" using power_of_two [OF assms(1,2)] by auto
  have "(2 :: nat) ^ n < 2 ^ 64" using n(2) by (intro power_strict_increasing) simp_all
  then have u: "unat bytes = 2 ^ n" using unat_of_nat_lt(3) [of "2 ^ n"] n(1) by simp
  then have "n < 63" using assms(3) by (auto intro: power_less_imp_less_exp [of 2])
  then show ?thesis using assms u
    by (intro exI [of _ "\<lparr>rb_head = 0, rb_tail = 0, rb_size = unat bytes, rb_mask = bytes - 1, rb_vec = replicate (unat bytes) 0\<rparr>"])
      (auto simp: RingBuffer_new_def ring_ok_def pending_def rb_available_def n(1))
qed

subsection \<open>Rounding\<close>

text \<open>Every step doubles the distance over which a bit spreads to the right, so that after six steps all bits below the highest are set.\<close>

definition smear :: "nat \<Rightarrow> u64 \<Rightarrow> u64 \<Rightarrow> bool" where
  "smear d w v \<longleftrightarrow> (\<forall>i. bit v i \<longleftrightarrow> (\<exists>j < d. bit w (i + j)))"

lemma smear_step:
  assumes "smear d w v"
  shows "smear (d + d) w (v OR drop_bit d v)"
  unfolding smear_def
proof
  fix i
  have "(\<exists>j < d + d. bit w (i + j)) \<longleftrightarrow> (\<exists>j < d. bit w (i + j)) \<or> (\<exists>j < d. bit w (i + d + j))"
  proof
    assume "\<exists>j < d + d. bit w (i + j)"
    then obtain j where j: "j < d + d" "bit w (i + j)" by blast
    show "(\<exists>j < d. bit w (i + j)) \<or> (\<exists>j < d. bit w (i + d + j))"
    proof (cases "j < d")
      case False
      then have "j - d < d" "i + d + (j - d) = i + j" using j(1) by auto
      then show ?thesis using j(2) by metis
    qed (use j in blast)
  next
    assume "(\<exists>j < d. bit w (i + j)) \<or> (\<exists>j < d. bit w (i + d + j))"
    then obtain j where j: "j < d" "bit w (i + j) \<or> bit w (i + (d + j))" by (auto simp: add.assoc)
    then have "j < d + d" "d + j < d + d" by simp_all
    then show "\<exists>j < d + d. bit w (i + j)" using j(2) by blast
  qed
  then show "bit (v OR drop_bit d v) i \<longleftrightarrow> (\<exists>j < d + d. bit w (i + j))"
    using assms by (simp add: smear_def bit_or_iff bit_drop_bit_eq add.commute)
qed

lemma smear_double: "smear d w v \<Longrightarrow> e = d + d \<Longrightarrow> smear e w (v OR drop_bit d v)"
  using smear_step by blast

lemma round_smears: "\<exists>v. round_to_power_of_2 n = v + 1 \<and> smear 64 (n - 1) v"
proof -
  let ?v1 = "(n - 1) OR drop_bit 1 (n - 1)"
  let ?v2 = "?v1 OR drop_bit 2 ?v1"
  let ?v3 = "?v2 OR drop_bit 4 ?v2"
  let ?v4 = "?v3 OR drop_bit 8 ?v3"
  let ?v5 = "?v4 OR drop_bit 16 ?v4"
  have s0: "smear 1 (n - 1) (n - 1)" by (simp add: smear_def)
  have s1: "smear 2 (n - 1) ?v1" by (rule smear_double [OF s0]) simp
  have s2: "smear 4 (n - 1) ?v2" by (rule smear_double [OF s1]) simp
  have s3: "smear 8 (n - 1) ?v3" by (rule smear_double [OF s2]) simp
  have s4: "smear 16 (n - 1) ?v4" by (rule smear_double [OF s3]) simp
  have s5: "smear 32 (n - 1) ?v5" by (rule smear_double [OF s4]) simp
  have "smear 64 (n - 1) (?v5 OR drop_bit 32 ?v5)" by (rule smear_double [OF s5]) simp
  then show ?thesis unfolding round_to_power_of_2_def Let_def by blast
qed

lemma smeared_is_mask:
  assumes "smear 64 w v" and "w \<noteq> 0" and "unat w < 2 ^ k" and "2 ^ k \<le> 2 * unat w" and "k \<le> 64"
  shows "v = mask k"
proof (rule bit_word_eqI)
  fix i assume "i < LENGTH(64)"
  then have i: "i < 64" by simp
  obtain k' where k': "k = Suc k'" using assms(2-4) by (cases k) (auto simp: unat_gt_0)
  have "unat w div 2 ^ k' = 1" using assms(3,4) by (intro div_nat_eqI) (simp_all add: k')
  then have "bit (unat w) k'" by (simp add: bit_iff_odd)
  then have top: "bit w k'" by (simp add: bit_unsigned_iff)
  show "bit v i \<longleftrightarrow> bit (mask k :: u64) i"
  proof (cases "i < k")
    case True
    then have "k' - i < 64" "bit w (i + (k' - i))" using top assms(5) k' by simp_all
    then have "bit v i" using assms(1) by (auto simp: smear_def)
    then show ?thesis using True i by (simp add: bit_mask_iff)
  next
    case False
    have "\<not> bit w (i + j)" for j
    proof -
      have "unat w < 2 ^ (i + j)" using assms(3) False by (meson le_add1 le_less_trans not_less order_less_le_trans power_increasing_iff one_less_numeral_iff semiring_norm(76))
      then have "\<not> bit (unat w) (i + j)" by (simp add: bit_iff_odd)
      then show ?thesis by (auto simp: bit_unsigned_iff dest: bit_imp_le_length)
    qed
    then have "\<not> bit v i" using assms(1) by (simp add: smear_def)
    then show ?thesis using False by (simp add: bit_mask_iff)
  qed
qed

lemma round_to_power_of_2_rounds:
  assumes "n \<noteq> 0" and "unat n \<le> 2 ^ 62"
  shows "\<exists>k \<le> 62. round_to_power_of_2 n = 2 ^ k \<and> unat n \<le> 2 ^ k \<and> 2 ^ k < 2 * unat n"
proof -
  obtain v where v: "round_to_power_of_2 n = v + 1" "smear 64 (n - 1) v" using round_smears by blast
  have u: "unat (n - 1) = unat n - 1" "0 < unat n" using assms(1) by (simp_all add: unat_minus_one unat_gt_0)
  show ?thesis
  proof (cases "unat n = 1")
    case True
    then have "n - 1 = 0" using u by (simp add: unat_eq_0)
    then have "v = 0" using v(2) by (intro bit_eqI) (simp add: smear_def)
    then show ?thesis using True v(1) by (intro exI [of _ 0]) simp
  next
    case False
    then have "1 \<le> unat (n - 1)" using u by linarith
    then obtain j where j: "2 ^ j \<le> unat (n - 1)" "unat (n - 1) < 2 ^ (j + 1)" using ex_power_ivl1 [of 2 "unat (n - 1)"] by auto
    have "(2 :: nat) ^ j < 2 ^ 62" using j(1) assms(2) u by simp
    then have "j < 62" by (rule power_less_imp_less_exp [rotated]) simp
    moreover have "v = mask (j + 1)"
      by (rule smeared_is_mask [OF v(2)]) (use j u False \<open>j < 62\<close> in \<open>auto simp: unat_eq_0 [symmetric] simp del: unat_eq_0\<close>)
    moreover have "unat n \<le> 2 ^ (j + 1)" "2 ^ (j + 1) < 2 * unat n" using j u by auto
    ultimately show ?thesis using v(1) by (intro exI [of _ "j + 1"]) (simp add: mask_eq_decr_exp)
  qed
qed

lemma rounded_ring:
  assumes "n \<noteq> 0" and "unat n \<le> 2 ^ 62"
  shows "\<exists>rb. RingBuffer_new (round_to_power_of_2 n) = Inr (Inr rb) \<and> ring_ok rb \<and> pending rb = [] \<and> rb_available rb = 0 \<and>
    rb_size rb = unat (round_to_power_of_2 n) \<and> unat n \<le> rb_size rb \<and> rb_size rb < 2 * unat n"
proof -
  obtain k where k: "k \<le> 62" "round_to_power_of_2 n = 2 ^ k" "unat n \<le> 2 ^ k" "2 ^ k < 2 * unat n"
    using round_to_power_of_2_rounds [OF assms] by blast
  have lt: "(2 :: nat) ^ k < 2 ^ 63" using k(1) by (intro power_strict_increasing) simp_all
  then have u: "unat (2 ^ k :: u64) = 2 ^ k" using unat_of_nat_lt(3) [of "2 ^ k"] by simp
  have "(2 ^ k :: u64) AND (2 ^ k - 1) = 0"
    by (rule bit_eqI) (simp add: bit_and_iff bit_exp_iff mask_eq_decr_exp [symmetric] bit_mask_iff)
  moreover have "(2 ^ k :: u64) \<noteq> 0" using u by (metis unat_0 power_not_zero zero_neq_numeral)
  ultimately show ?thesis using new_ring_ok [of "2 ^ k"] lt u k by auto
qed

section \<open>A channel of bytes\<close>

text \<open>A loop that may never end has the value \<open>None\<close>; otherwise it ends in a panic or with a result.\<close>

definition tbind :: "'a rust option \<Rightarrow> ('a \<Rightarrow> 'b rust option) \<Rightarrow> 'b rust option" where
  "tbind m f = (case m of None \<Rightarrow> None | Some r \<Rightarrow> (case r of Inl e \<Rightarrow> Some (Inl e) | Inr x \<Rightarrow> f x))"

lemma tbind_simps [simp]: "tbind None f = None" "tbind (Some (Inl e)) f = Some (Inl e)" "tbind (Some (Inr x)) f = f x"
  by (simp_all add: tbind_def)

datatype pipe_op = PutOp byte_string | GetOp byte_string

text \<open>A run of writers and readers: what was accepted so far, what was read so far, and the channel.\<close>

primrec pipe_run :: "(byte_string \<Rightarrow> 's \<Rightarrow> (usize \<times> 's) rust option) \<Rightarrow> (byte_string \<Rightarrow> 's \<Rightarrow> (usize \<times> byte_string \<times> 's) rust option) \<Rightarrow>
    pipe_op list \<Rightarrow> byte_string \<times> byte_string \<times> 's \<Rightarrow> (byte_string \<times> byte_string \<times> 's) rust option" where
  "pipe_run put get [] st = Some (Inr st)"
| "pipe_run put get (x # xs) st =
     (let (ins, outs, s) = st
      in case x of
           PutOp data \<Rightarrow> tbind (put data s) (\<lambda>(n, s). pipe_run put get xs (ins @ take n data, outs, s))
         | GetOp buf \<Rightarrow> tbind (get buf s) (\<lambda>(n, buf, s). pipe_run put get xs (ins, outs @ take n buf, s)))"

locale byte_pipe =
  fixes ok :: "'s \<Rightarrow> bool" and held :: "'s \<Rightarrow> byte_string" and room :: "'s \<Rightarrow> nat"
    and put :: "byte_string \<Rightarrow> 's \<Rightarrow> (usize \<times> 's) rust option" and get :: "byte_string \<Rightarrow> 's \<Rightarrow> (usize \<times> byte_string \<times> 's) rust option"
  assumes put_law: "ok s \<Longrightarrow> \<exists>s'. put data s = Some (Inr (min (length data) (room s), s')) \<and> ok s' \<and> held s' = held s @ take (room s) data \<and>
      room s' = room s - length data"
    and get_law: "ok s \<Longrightarrow> \<exists>s'. get buf s = Some (Inr (min (length (held s)) (length buf), take (length buf) (held s) @ drop (length (held s)) buf, s')) \<and>
      ok s' \<and> held s' = drop (length buf) (held s) \<and> room s' = room s + min (length (held s)) (length buf)"
begin

lemma run_in_order:
  assumes "ok s"
  shows "\<exists>ins' outs' s'. pipe_run put get xs (ins, outs, s) = Some (Inr (ins @ ins', outs @ outs', s')) \<and> ok s' \<and> outs' @ held s' = held s @ ins' \<and>
    room s' + length (held s') = room s + length (held s)"
  using assms
proof (induction xs arbitrary: ins outs s)
  case (Cons x xs)
  show ?case
  proof (cases x)
    case (PutOp data)
    obtain s1 where s1: "put data s = Some (Inr (min (length data) (room s), s1))" "ok s1" "held s1 = held s @ take (room s) data" "room s1 = room s - length data"
      using put_law [OF Cons.prems, of data] by blast
    obtain ins' outs' s' where "pipe_run put get xs (ins @ take (room s) data, outs, s1) = Some (Inr ((ins @ take (room s) data) @ ins', outs @ outs', s'))" "ok s'"
        "outs' @ held s' = held s1 @ ins'" "room s' + length (held s') = room s1 + length (held s1)"
      using Cons.IH [OF s1(2)] by blast
    then have "pipe_run put get (x # xs) (ins, outs, s) = Some (Inr (ins @ (take (room s) data @ ins'), outs @ outs', s'))"
        "outs' @ held s' = held s @ (take (room s) data @ ins')" "ok s'" "room s' + length (held s') = room s + length (held s)"
      using s1 PutOp by (simp_all add: take_min_length)
    then show ?thesis by blast
  next
    case (GetOp buf)
    obtain s1 where s1: "get buf s = Some (Inr (min (length (held s)) (length buf), take (length buf) (held s) @ drop (length (held s)) buf, s1))"
        "ok s1" "held s1 = drop (length buf) (held s)" "room s1 = room s + min (length (held s)) (length buf)"
      using get_law [OF Cons.prems, of buf] by blast
    obtain ins' outs' s' where "pipe_run put get xs (ins, outs @ take (length buf) (held s), s1) = Some (Inr (ins @ ins', (outs @ take (length buf) (held s)) @ outs', s'))" "ok s'"
        "outs' @ held s' = held s1 @ ins'" "room s' + length (held s') = room s1 + length (held s1)"
      using Cons.IH [OF s1(2)] by blast
    then have "pipe_run put get (x # xs) (ins, outs, s) = Some (Inr (ins @ ins', outs @ (take (length buf) (held s) @ outs'), s'))"
        "ok s'" "room s' + length (held s') = room s + length (held s)"
      using s1 GetOp by (simp_all add: take_min_length)
    moreover have "(take (length buf) (held s) @ outs') @ held s' = held s @ ins'"
      using \<open>outs' @ held s' = held s1 @ ins'\<close> s1(3) by (metis append.assoc append_take_drop_id)
    ultimately show ?thesis by blast
  qed
qed simp

end

interpretation ring_pipe: byte_pipe ring_ok pending ring_room "\<lambda>data rb. Some (write_at_tail data rb)" "\<lambda>buf rb. Some (read_from_head buf rb)"
proof (unfold_locales, goal_cases)
  case (1 s data)
  then show ?case using write_tail_pending [OF 1, of data] by (auto simp: ring_room_def)
next
  case (2 s buf)
  then show ?case using read_head [OF 2, of buf] by (auto simp: ring_room_def ring_ok_def)
qed

end
