(* ===== verification/Reorder.thy ===== *)
theory Reorder
  imports Ring
begin

text \<open>
  The reordering buffer of \<open>net/framework/src/state/reordered_buffer/reordered_buffer.rs\<close>: a ring of bytes, the segments received out of order as a doubly linked
  list inside a vector, and the state machine that switches between the two. Indices of nodes are \<open>isize\<close> with \<open>-1\<close> for none and are
  integers here; an index out of the vector panics. The loops over the list are \<open>partial_function\<close>s whose value \<open>None\<close> means that they never end.
\<close>

section \<open>Segments\<close>

record segment =
  sg_prev :: int
  sg_seq :: u32
  sg_length :: u16
  sg_next :: int
  sg_idx :: int

definition Segment_new :: "int \<Rightarrow> u32 \<Rightarrow> u16 \<Rightarrow> segment" where
  "Segment_new idx seq len = \<lparr>sg_prev = - 1, sg_seq = seq, sg_length = len, sg_next = - 1, sg_idx = idx\<rparr>"

record segment_list =
  sl_storage :: "segment list"
  sl_available :: "int list"
  sl_head :: int
  sl_tail :: int

definition SegmentList_new :: "usize \<Rightarrow> segment_list" where
  "SegmentList_new len =
     \<lparr>sl_storage = map (\<lambda>i. Segment_new (int i) 0 0) [0..<len], sl_available = map int [0..<len], sl_head = - 1, sl_tail = - 1\<rparr>"

definition get_segment :: "int \<Rightarrow> segment_list \<Rightarrow> segment rust" where
  "get_segment i sl = (if 0 \<le> i \<and> nat i < length (sl_storage sl) then Inr (sl_storage sl ! nat i) else Inl IndexOutOfBounds)"

definition set_segment :: "int \<Rightarrow> (segment \<Rightarrow> segment) \<Rightarrow> segment_list \<Rightarrow> segment_list rust" where
  "set_segment i f sl =
     (if 0 \<le> i \<and> nat i < length (sl_storage sl) then Inr (sl\<lparr>sl_storage := (sl_storage sl)[nat i := f (sl_storage sl ! nat i)]\<rparr>)
      else Inl IndexOutOfBounds)"

definition remove_node :: "int \<Rightarrow> segment_list \<Rightarrow> segment_list rust" where
  "remove_node node sl =
     rbind (set_segment node (\<lambda>s. s\<lparr>sg_length := 0\<rparr>) sl) (\<lambda>sl. Inr (sl\<lparr>sl_available := sl_available sl @ [node]\<rparr>))"

definition find_available_node :: "segment_list \<Rightarrow> int \<times> segment_list" where
  "find_available_node sl =
     (if sl_available sl \<noteq> [] then (last (sl_available sl), sl\<lparr>sl_available := butlast (sl_available sl)\<rparr>)
      else let idx = int (length (sl_storage sl)) in (idx, sl\<lparr>sl_storage := sl_storage sl @ [Segment_new idx 0 0]\<rparr>))"

definition insert_before_node :: "int \<Rightarrow> u32 \<Rightarrow> u16 \<Rightarrow> segment_list \<Rightarrow> (int \<times> segment_list) rust" where
  "insert_before_node next seq len sl =
     (let (idx, sl) = find_available_node sl
      in rbind (set_segment idx (\<lambda>s. s\<lparr>sg_seq := seq, sg_length := len, sg_next := next\<rparr>) sl) (\<lambda>sl.
         if next \<noteq> - 1
         then rbind (get_segment next sl) (\<lambda>n. let prev = sg_prev n in
              rbind (set_segment idx (\<lambda>s. s\<lparr>sg_prev := prev\<rparr>) sl) (\<lambda>sl.
              rbind (set_segment next (\<lambda>s. s\<lparr>sg_prev := idx\<rparr>) sl) (\<lambda>sl.
              if prev \<noteq> - 1 then rbind (set_segment prev (\<lambda>s. s\<lparr>sg_next := idx\<rparr>) sl) (\<lambda>sl. Inr (idx, sl))
              else Inr (idx, sl\<lparr>sl_head := idx\<rparr>))))
         else rbind (set_segment idx (\<lambda>s. s\<lparr>sg_prev := - 1\<rparr>) sl) (\<lambda>sl. Inr (idx, sl))))"

definition insert_after_node :: "int \<Rightarrow> u32 \<Rightarrow> u16 \<Rightarrow> segment_list \<Rightarrow> (int \<times> segment_list) rust" where
  "insert_after_node prev seq len sl =
     (let (idx, sl) = find_available_node sl
      in rbind (set_segment idx (\<lambda>s. s\<lparr>sg_seq := seq, sg_length := len, sg_prev := prev\<rparr>) sl) (\<lambda>sl.
         rbind (get_segment prev sl) (\<lambda>p.
         rbind (set_segment idx (\<lambda>s. s\<lparr>sg_next := sg_next p\<rparr>) sl) (\<lambda>sl.
         rbind (set_segment prev (\<lambda>s. s\<lparr>sg_next := idx\<rparr>) sl) (\<lambda>sl.
         rbind (get_segment idx sl) (\<lambda>s.
         Inr (idx, if sg_next s = - 1 then sl\<lparr>sl_tail := idx\<rparr> else sl)))))))"

definition insert_at_tail :: "u32 \<Rightarrow> u16 \<Rightarrow> segment_list \<Rightarrow> (int \<times> segment_list) rust" where
  "insert_at_tail seq len sl =
     (let (idx, sl) = find_available_node sl
      in rbind (set_segment idx (\<lambda>s. s\<lparr>sg_seq := seq, sg_length := len, sg_next := - 1, sg_prev := sl_tail sl\<rparr>) sl) (\<lambda>sl.
         rbind (set_segment (sl_tail sl) (\<lambda>s. s\<lparr>sg_next := idx\<rparr>) sl) (\<lambda>sl.
         Inr (idx, sl\<lparr>sl_tail := idx\<rparr>))))"

text \<open>One turn of the merging loop; \<open>None\<close> leaves it. When there is a gap before the next segment nothing changes, and the same turn follows.\<close>

definition seg_end :: "segment \<Rightarrow> u32" where
  "seg_end s = sg_seq s + ucast (sg_length s)"

definition merge_step :: "int \<Rightarrow> int \<Rightarrow> segment_list \<Rightarrow> (int option \<times> segment_list) rust" where
  "merge_step idx next sl =
     rbind (get_segment idx sl) (\<lambda>s.
     rbind (get_segment next sl) (\<lambda>n.
       if sg_seq n \<le> seg_end s
       then let merge_len = usize_sub (unat (sg_length n)) (unat (seg_end s - sg_seq n));
                new_len = as_usize (merge_len + unat (sg_length s))
            in if new_len \<le> 65535
               then rbind (set_segment idx (\<lambda>s. s\<lparr>sg_length := word_of_nat new_len\<rparr>) sl) (\<lambda>sl.
                    rbind (get_segment next sl) (\<lambda>n. let after = sg_next n in
                    rbind (set_segment idx (\<lambda>s. s\<lparr>sg_next := after\<rparr>) sl) (\<lambda>sl.
                    rbind (if after \<noteq> - 1 then set_segment after (\<lambda>s. s\<lparr>sg_prev := idx\<rparr>) sl else Inr sl) (\<lambda>sl.
                    rbind (remove_node next sl) (\<lambda>sl. Inr (Some after, sl))))))
               else let max_len = 65535 - sg_length s
                    in rbind (set_segment idx (\<lambda>s. s\<lparr>sg_length := sg_length s + max_len\<rparr>) sl) (\<lambda>sl.
                       rbind (set_segment next (\<lambda>n. n\<lparr>sg_length := sg_length n - max_len, sg_seq := sg_seq n + ucast max_len\<rparr>) sl) (\<lambda>sl.
                       Inr (None, sl)))
       else Inr (Some next, sl)))"

partial_function (option) merge_loop :: "int \<Rightarrow> int \<Rightarrow> segment_list \<Rightarrow> segment_list rust option" where
  "merge_loop idx next sl =
     (if next = - 1 then Some (Inr sl)
      else case merge_step idx next sl of
             Inl e \<Rightarrow> Some (Inl e)
           | Inr (going, sl) \<Rightarrow> (case going of None \<Rightarrow> Some (Inr sl) | Some next \<Rightarrow> merge_loop idx next sl))"

definition merge_at_idx :: "int \<Rightarrow> segment_list \<Rightarrow> segment_list rust option" where
  "merge_at_idx idx sl =
     tbind (Some (get_segment idx sl)) (\<lambda>s. merge_loop idx (sg_next s) sl)"

text \<open>One turn of the search for the place of a new segment, with the node it ends at, or the node to look at next.\<close>

definition place_step :: "u32 \<Rightarrow> u16 \<Rightarrow> int \<Rightarrow> segment_list \<Rightarrow> (bool \<times> int \<times> segment_list) rust" where
  "place_step seq len idx sl =
     rbind (get_segment idx sl) (\<lambda>s.
       let stop = seq + ucast len
       in if seg_end s = seq
          then let new_len = unat (sg_length s) + unat len
               in if new_len \<le> 65535
                  then rbind (set_segment idx (\<lambda>s. s\<lparr>sg_length := word_of_nat new_len\<rparr>) sl) (\<lambda>sl. Inr (True, idx, sl))
                  else let max_len = 65535 - sg_length s
                       in rbind (set_segment idx (\<lambda>s. s\<lparr>sg_length := sg_length s + max_len\<rparr>) sl) (\<lambda>sl.
                          rbind (insert_after_node idx (seq + ucast max_len) (len - max_len) sl) (\<lambda>(_, sl). Inr (True, idx, sl)))
          else if stop \<le> sg_seq s
          then rbind (insert_before_node idx seq len sl) (\<lambda>(idx, sl). Inr (True, idx, sl))
          else if sg_seq s \<le> seq
          then rbind (set_segment idx (\<lambda>s'. s'\<lparr>sg_length := ucast (max (seg_end s) stop - sg_seq s)\<rparr>) sl) (\<lambda>sl. Inr (True, idx, sl))
          else Inr (False, sg_next s, sl))"

partial_function (option) place_loop :: "u32 \<Rightarrow> u16 \<Rightarrow> int \<Rightarrow> segment_list \<Rightarrow> (int \<times> segment_list) rust option" where
  "place_loop seq len idx sl =
     (if idx = - 1 then Some (Inr (idx, sl))
      else case place_step seq len idx sl of
             Inl e \<Rightarrow> Some (Inl e)
           | Inr (placed, idx, sl) \<Rightarrow> if placed then Some (Inr (idx, sl)) else place_loop seq len idx sl)"

definition insert_segment :: "u32 \<Rightarrow> u16 \<Rightarrow> segment_list \<Rightarrow> (int \<times> segment_list) rust option" where
  "insert_segment seq len sl =
     (if sl_head sl = - 1
      then Some (rbind (insert_before_node (- 1) seq len sl) (\<lambda>(idx, sl). Inr (idx, sl\<lparr>sl_head := idx, sl_tail := idx\<rparr>)))
      else tbind (place_loop seq len (sl_head sl) sl) (\<lambda>(idx, sl).
           if idx = - 1 then Some (insert_at_tail seq len sl)
           else tbind (merge_at_idx idx sl) (\<lambda>sl. Some (Inr (idx, sl)))))"

definition is_head :: "int \<Rightarrow> segment_list \<Rightarrow> bool" where
  "is_head seg sl \<longleftrightarrow> sl_head sl = seg"

definition remove_head :: "segment_list \<Rightarrow> segment_list rust" where
  "remove_head sl =
     (let head = sl_head sl
      in rbind (get_segment head sl) (\<lambda>s. remove_node head (sl\<lparr>sl_head := sg_next s\<rparr>)))"

definition consume_head_data :: "u32 \<Rightarrow> u16 \<Rightarrow> segment_list \<Rightarrow> (bool \<times> segment_list) rust option" where
  "consume_head_data seq consumed sl =
     tbind (Some (get_segment (sl_head sl) sl)) (\<lambda>s.
       if sg_seq s \<noteq> seq then Some (Inr (False, sl))
       else let consume = min consumed (sg_length s)
            in tbind (Some (set_segment (sl_head sl) (\<lambda>s. s\<lparr>sg_seq := sg_seq s + ucast consume, sg_length := sg_length s - consume\<rparr>) sl)) (\<lambda>sl.
               tbind (if sg_length s - consume = 0 then Some (remove_head sl) else merge_at_idx (sl_head sl) sl) (\<lambda>sl.
               Some (Inr (consume = consumed, sl)))))"

partial_function (option) clear_loop :: "int \<Rightarrow> segment_list \<Rightarrow> segment_list rust option" where
  "clear_loop idx sl =
     (if idx = - 1 then Some (Inr sl)
      else case rbind (get_segment idx sl) (\<lambda>s. rbind (remove_node idx sl) (\<lambda>sl. Inr (sg_next s, sl))) of
             Inl e \<Rightarrow> Some (Inl e)
           | Inr (next, sl) \<Rightarrow> clear_loop next sl)"

definition sl_clear :: "segment_list \<Rightarrow> segment_list rust option" where
  "sl_clear sl = tbind (clear_loop (sl_head sl) sl) (\<lambda>sl. Some (Inr (sl\<lparr>sl_head := - 1, sl_tail := - 1\<rparr>)))"

definition one_segment :: "segment_list \<Rightarrow> bool rust" where
  "one_segment sl =
     (if sl_head sl = - 1 then Inr True else rbind (get_segment (sl_head sl) sl) (\<lambda>s. Inr (sg_next s = - 1)))"

section \<open>The buffer\<close>

datatype insertion_result = Inserted usize usize | OutOfMemory usize usize

primrec written :: "insertion_result \<Rightarrow> usize" where
  "written (Inserted n _) = n"
| "written (OutOfMemory n _) = n"

datatype connection_state = Closed | Connected | ConnectedOutOfOrder

record reordered_buffer =
  ro_data :: ring_buffer
  ro_segment_list :: segment_list
  ro_buffer_size :: usize
  ro_state :: connection_state
  ro_head_seq :: u32
  ro_tail_seq :: u32

definition ro_available :: "reordered_buffer \<Rightarrow> usize" where
  "ro_available r = rb_available (ro_data r)"

definition new_with_segments :: "u64 \<Rightarrow> usize \<Rightarrow> (ring_error + reordered_buffer) rust" where
  "new_with_segments buffer_size segment_size =
     (let rounded_bytes = round_to_power_of_2 buffer_size
      in rbind (RingBuffer_new rounded_bytes) (\<lambda>res. case res of
           Inl e \<Rightarrow> Inr (Inl e)
         | Inr rb \<Rightarrow> Inr (Inr \<lparr>ro_data = rb, ro_segment_list = SegmentList_new segment_size, ro_buffer_size = unat rounded_bytes,
             ro_state = Closed, ro_head_seq = 0, ro_tail_seq = 0\<rparr>)))"

definition ReorderedBuffer_new :: "u64 \<Rightarrow> (ring_error + reordered_buffer) rust" where
  "ReorderedBuffer_new buffer_size = new_with_segments buffer_size (unat (buffer_size div 64))"

definition ro_reset :: "reordered_buffer \<Rightarrow> reordered_buffer rust option" where
  "ro_reset r =
     tbind (sl_clear (ro_segment_list r)) (\<lambda>sl.
     Some (Inr (r\<lparr>ro_state := Closed, ro_segment_list := sl, ro_data := rb_clear (ro_data r)\<rparr>)))"

definition inserted :: "usize \<Rightarrow> byte_string \<Rightarrow> reordered_buffer \<Rightarrow> insertion_result" where
  "inserted n data r = (if n = length data then Inserted n (ro_available r) else OutOfMemory n (ro_available r))"

definition fast_path_insert :: "byte_string \<Rightarrow> reordered_buffer \<Rightarrow> (insertion_result \<times> reordered_buffer) rust" where
  "fast_path_insert data r =
     rbind (write_at_tail data (ro_data r)) (\<lambda>(n, rb).
     let r = r\<lparr>ro_data := rb, ro_tail_seq := ro_tail_seq r + word_of_nat n\<rparr>
     in Inr (inserted n data r, r))"

definition ro_seq :: "u32 \<Rightarrow> byte_string \<Rightarrow> reordered_buffer \<Rightarrow> (insertion_result \<times> reordered_buffer) rust" where
  "ro_seq seq data r =
     (if ro_state r = Closed then fast_path_insert data (r\<lparr>ro_state := Connected, ro_head_seq := seq, ro_tail_seq := seq\<rparr>)
      else Inl ExplicitPanic)"

function add_head_loop :: "usize \<Rightarrow> u32 \<Rightarrow> segment_list \<Rightarrow> segment_list rust option" where
  "add_head_loop to_insert seq sl =
     (if to_insert = 0 then Some (Inr sl)
      else let n = min 65535 to_insert
           in case insert_segment seq (word_of_nat n) sl of
                None \<Rightarrow> None
              | Some (Inl e) \<Rightarrow> Some (Inl e)
              | Some (Inr (_, sl)) \<Rightarrow> add_head_loop (to_insert - n) (seq + word_of_nat n) sl)"
  by pat_completeness auto
termination
  by (relation "measure (\<lambda>(to_insert, seq, sl). to_insert)") auto

declare add_head_loop.simps [simp del]

definition add_head_to_seg_list :: "reordered_buffer \<Rightarrow> reordered_buffer rust option" where
  "add_head_to_seg_list r =
     tbind (add_head_loop (rb_available (ro_data r)) (ro_head_seq r) (ro_segment_list r)) (\<lambda>sl. Some (Inr (r\<lparr>ro_segment_list := sl\<rparr>)))"

text \<open>The three cases of \<open>out_of_order_insert\<close>; the second calls the first, at the tail.\<close>

definition insert_at_tail_seq :: "byte_string \<Rightarrow> reordered_buffer \<Rightarrow> (insertion_result \<times> reordered_buffer) rust option" where
  "insert_at_tail_seq data r =
     (let seq = ro_tail_seq r
      in tbind (Some (write_at_tail data (ro_data r))) (\<lambda>(n, rb).
         let tail_seq = ro_tail_seq r + word_of_nat n
         in tbind (insert_segment seq (word_of_nat n) (ro_segment_list r)) (\<lambda>(seg, sl).
            tbind (Some (rassert (is_head seg sl) AssertionFailed)) (\<lambda>_.
            tbind (Some (get_segment seg sl)) (\<lambda>s.
            let incr = seg_end s - tail_seq;
                n = (if (word_of_nat n :: u32) < incr then unat incr else n);
                r = r\<lparr>ro_data := seek_tail (unat incr) rb, ro_segment_list := sl, ro_tail_seq := seg_end s\<rparr>
            in tbind (Some (one_segment sl)) (\<lambda>one.
               if one
               then tbind (sl_clear sl) (\<lambda>sl.
                    let r = r\<lparr>ro_segment_list := sl, ro_state := Connected\<rparr> in Some (Inr (Inserted n (ro_available r), r)))
               else Some (Inr (Inserted n (ro_available r), r))))))))"

definition out_of_order_insert :: "u32 \<Rightarrow> byte_string \<Rightarrow> reordered_buffer \<Rightarrow> (insertion_result \<times> reordered_buffer) rust option" where
  "out_of_order_insert seq data r =
     (if ro_tail_seq r = seq then insert_at_tail_seq data r
      else if seq \<le> ro_tail_seq r
      then let offset = unat (ro_tail_seq r - seq)
           in if offset < length data then insert_at_tail_seq (drop offset data) r
              else Some (Inr (Inserted 0 (ro_available r), r))
      else let offset = unat (seq - ro_tail_seq r)
           in tbind (Some (write_at_offset_from_tail offset data (ro_data r))) (\<lambda>(n, rb).
              tbind (insert_segment seq (word_of_nat n) (ro_segment_list r)) (\<lambda>(_, sl).
              let r = r\<lparr>ro_data := rb, ro_segment_list := sl\<rparr>
              in Some (Inr (inserted n data r, r)))))"

definition slow_path_insert :: "u32 \<Rightarrow> byte_string \<Rightarrow> reordered_buffer \<Rightarrow> (insertion_result \<times> reordered_buffer) rust option" where
  "slow_path_insert seq data r =
     (let stop = seq + word_of_nat (length data)
      in if seq < ro_tail_seq r \<and> ro_tail_seq r < stop
         then tbind (Some (split_at data (unat (ro_tail_seq r - seq)))) (\<lambda>(_, rest). Some (fast_path_insert rest r))
         else if stop < ro_tail_seq r then Some (Inr (Inserted 0 (ro_available r), r))
         else tbind (add_head_to_seg_list (r\<lparr>ro_state := ConnectedOutOfOrder\<rparr>)) (out_of_order_insert seq data))"

definition add_data :: "u32 \<Rightarrow> byte_string \<Rightarrow> reordered_buffer \<Rightarrow> (insertion_result \<times> reordered_buffer) rust option" where
  "add_data seq data r =
     (case ro_state r of
        Connected \<Rightarrow> if seq = ro_tail_seq r then Some (fast_path_insert data r) else slow_path_insert seq data r
      | ConnectedOutOfOrder \<Rightarrow> out_of_order_insert seq data r
      | Closed \<Rightarrow> Some (Inl ExplicitPanic))"

definition read_data_common :: "byte_string \<Rightarrow> reordered_buffer \<Rightarrow> (usize \<times> byte_string \<times> reordered_buffer) rust" where
  "read_data_common data r =
     rbind (read_from_head data (ro_data r)) (\<lambda>(n, data, rb).
     Inr (n, data, r\<lparr>ro_data := rb, ro_head_seq := ro_head_seq r + word_of_nat n\<rparr>))"

definition read_data :: "byte_string \<Rightarrow> reordered_buffer \<Rightarrow> (usize \<times> byte_string \<times> reordered_buffer) rust option" where
  "read_data data r =
     (case ro_state r of
        Connected \<Rightarrow> Some (read_data_common data r)
      | ConnectedOutOfOrder \<Rightarrow>
          tbind (Some (read_data_common data r)) (\<lambda>(n, data, r').
          tbind (consume_head_data (ro_head_seq r) (word_of_nat n) (ro_segment_list r')) (\<lambda>(_, sl).
          Some (Inr (n, data, r'\<lparr>ro_segment_list := sl\<rparr>))))
      | Closed \<Rightarrow> Some (Inr (0, data, r)))"

definition is_established :: "reordered_buffer \<Rightarrow> bool" where
  "is_established r \<longleftrightarrow> ro_state r \<noteq> Closed"

end
