(* ===== verification/ReorderRuns.thy ===== *)
theory ReorderRuns
  imports Reorder
begin

text \<open>
  What the reordering buffer does: in order it is a channel of bytes (an interpretation of \<open>byte_pipe\<close>); a segment that leaves a gap is
  delivered when the gap is filled at once; and what happens when the gap is filled in part.
\<close>

section \<open>Nodes of the list\<close>

definition free_ok :: "segment_list \<Rightarrow> bool" where
  "free_ok sl \<longleftrightarrow> distinct (sl_available sl) \<and> (\<forall>x \<in> set (sl_available sl). \<exists>m < length (sl_storage sl). x = int m)"

definition idle :: "segment_list \<Rightarrow> bool" where
  "idle sl \<longleftrightarrow> free_ok sl \<and> sl_head sl = - 1"

text \<open>\<open>single m q len sl\<close>: the list holds the one segment of \<open>len\<close> bytes from \<open>q\<close> on, in node \<open>m\<close>.\<close>

definition single :: "nat \<Rightarrow> u32 \<Rightarrow> u16 \<Rightarrow> segment_list \<Rightarrow> bool" where
  "single m q len sl \<longleftrightarrow> free_ok sl \<and> sl_head sl = int m \<and> m < length (sl_storage sl) \<and> int m \<notin> set (sl_available sl) \<and>
     sg_prev (sl_storage sl ! m) = - 1 \<and> sg_next (sl_storage sl ! m) = - 1 \<and> sg_seq (sl_storage sl ! m) = q \<and> sg_length (sl_storage sl ! m) = len"

lemma get_segment_int [simp]: "m < length (sl_storage sl) \<Longrightarrow> get_segment (int m) sl = Inr (sl_storage sl ! m)"
  by (simp add: get_segment_def)

lemma set_segment_int [simp]:
  "m < length (sl_storage sl) \<Longrightarrow> set_segment (int m) f sl = Inr (sl\<lparr>sl_storage := (sl_storage sl)[m := f (sl_storage sl ! m)]\<rparr>)"
  by (simp add: set_segment_def)

lemma remove_node_int [simp]:
  "m < length (sl_storage sl) \<Longrightarrow> remove_node (int m) sl =
     Inr (sl\<lparr>sl_storage := (sl_storage sl)[m := (sl_storage sl ! m)\<lparr>sg_length := 0\<rparr>], sl_available := sl_available sl @ [int m]\<rparr>)"
  by (simp add: remove_node_def)

lemma int_not_none [simp]: "int m \<noteq> - 1" "- 1 \<noteq> int m"
  by simp_all

lemma find_node:
  assumes "free_ok sl"
  shows "\<exists>m sl1. find_available_node sl = (int m, sl1) \<and> free_ok sl1 \<and> m < length (sl_storage sl1) \<and> int m \<notin> set (sl_available sl1) \<and>
    sl_head sl1 = sl_head sl \<and> length (sl_storage sl) \<le> length (sl_storage sl1) \<and> set (sl_available sl1) \<subseteq> set (sl_available sl) \<and>
    (\<forall>k < length (sl_storage sl). sl_storage sl1 ! k = sl_storage sl ! k \<and> (int k \<notin> set (sl_available sl) \<longrightarrow> k \<noteq> m))"
proof (cases "sl_available sl = []")
  case True
  then show ?thesis using assms
    by (intro exI [of _ "length (sl_storage sl)"]) (auto simp: find_available_node_def Let_def free_ok_def nth_append)
next
  case False
  then obtain xs x where xs: "sl_available sl = xs @ [x]" by (cases "sl_available sl" rule: rev_cases) auto
  then obtain m where "m < length (sl_storage sl)" "x = int m" using assms by (auto simp: free_ok_def)
  then show ?thesis using assms xs by (intro exI [of _ m]) (auto simp: find_available_node_def free_ok_def)
qed

lemma insert_first:
  assumes "idle sl"
  shows "\<exists>m sl'. insert_segment q len sl = Some (Inr (int m, sl')) \<and> single m q len sl'"
proof -
  obtain m sl1 where sl1: "find_available_node sl = (int m, sl1)" "free_ok sl1" "m < length (sl_storage sl1)" "int m \<notin> set (sl_available sl1)"
    using find_node assms unfolding idle_def by blast
  then show ?thesis using assms
    by (intro exI [of _ m]) (auto simp: insert_segment_def idle_def insert_before_node_def Let_def single_def free_ok_def)
qed

lemma merge_last [simp]: "m < length (sl_storage sl) \<Longrightarrow> sg_next (sl_storage sl ! m) = - 1 \<Longrightarrow> merge_at_idx (int m) sl = Some (Inr sl)"
  by (simp add: merge_at_idx_def merge_loop.simps)

text \<open>A segment behind the only one is taken for an overlap, whatever the distance: the gap becomes part of the segment.\<close>

lemma insert_swallowed:
  assumes "single m q len sl" and "q \<le> s" and "q + ucast len \<noteq> s" and "\<not> s + ucast l \<le> q"
  shows "\<exists>sl'. insert_segment s l sl = Some (Inr (int m, sl')) \<and> single m q (ucast (max (q + ucast len) (s + ucast l) - q)) sl'"
  using assms by (auto simp: insert_segment_def single_def place_loop.simps [of s l "int m"] place_step_def seg_end_def Let_def free_ok_def)

lemma clear_single:
  assumes "single m q len sl"
  shows "\<exists>sl'. sl_clear sl = Some (Inr sl') \<and> idle sl'"
proof -
  let ?sl = "sl\<lparr>sl_storage := (sl_storage sl)[m := (sl_storage sl ! m)\<lparr>sg_length := 0\<rparr>], sl_available := sl_available sl @ [int m]\<rparr>"
  have "clear_loop (int m) sl = Some (Inr ?sl)"
    using assms by (simp add: clear_loop.simps [of "int m"] clear_loop.simps [of "- 1"] single_def)
  then show ?thesis using assms
    by (auto simp: sl_clear_def single_def idle_def free_ok_def)
qed

text \<open>A segment in front of the only one: the two nodes, and what merging them does.\<close>

lemma merge_stuck:
  assumes "merge_step i j sl = Inr (Some j, sl)" and "j \<noteq> - 1"
  shows "merge_loop i j sl = None"
proof -
  have never: "merge_loop i j sl = Some y \<Longrightarrow> \<not> (merge_step i j sl = Inr (Some j, sl) \<and> j \<noteq> - 1)" for i j sl y
    by (erule merge_loop.raw_induct [rotated]) (auto split: if_splits)
  then show ?thesis using assms by (cases "merge_loop i j sl") auto
qed

text \<open>\<open>pair j m s l q len sl\<close>: the segment of \<open>l\<close> bytes from \<open>s\<close> on in node \<open>j\<close>, then that of \<open>len\<close> bytes from \<open>q\<close> on in node \<open>m\<close>.\<close>

definition pair :: "nat \<Rightarrow> nat \<Rightarrow> u32 \<Rightarrow> u16 \<Rightarrow> u32 \<Rightarrow> u16 \<Rightarrow> segment_list \<Rightarrow> bool" where
  "pair j m s l q len sl \<longleftrightarrow> free_ok sl \<and> sl_head sl = int j \<and> j < length (sl_storage sl) \<and> m < length (sl_storage sl) \<and> j \<noteq> m \<and>
     int j \<notin> set (sl_available sl) \<and> int m \<notin> set (sl_available sl) \<and>
     sg_prev (sl_storage sl ! j) = - 1 \<and> sg_next (sl_storage sl ! j) = int m \<and> sg_seq (sl_storage sl ! j) = s \<and> sg_length (sl_storage sl ! j) = l \<and>
     sg_next (sl_storage sl ! m) = - 1 \<and> sg_seq (sl_storage sl ! m) = q \<and> sg_length (sl_storage sl ! m) = len"

lemma place_in_front:
  assumes "single m q len sl" and "s + ucast l \<le> q" and "q + ucast len \<noteq> s"
  shows "\<exists>j sl'. place_loop s l (int m) sl = Some (Inr (int j, sl')) \<and> pair j m s l q len sl'"
proof -
  have free: "free_ok sl" using assms(1) by (simp add: single_def)
  obtain j sl1 where sl1: "find_available_node sl = (int j, sl1)" "free_ok sl1" "j < length (sl_storage sl1)" "int j \<notin> set (sl_available sl1)"
      "length (sl_storage sl) \<le> length (sl_storage sl1)" "set (sl_available sl1) \<subseteq> set (sl_available sl)"
      "\<forall>k < length (sl_storage sl). sl_storage sl1 ! k = sl_storage sl ! k \<and> (int k \<notin> set (sl_available sl) \<longrightarrow> k \<noteq> j)"
    using find_node [OF free] by blast
  have m: "m < length (sl_storage sl1)" "sl_storage sl1 ! m = sl_storage sl ! m" "j \<noteq> m" "int m \<notin> set (sl_available sl1)"
    using sl1(5-7) assms(1) by (auto simp: single_def)
  let ?sl2 = "sl1\<lparr>sl_storage := (sl_storage sl1)[j := (sl_storage sl1 ! j)\<lparr>sg_seq := s, sg_length := l, sg_next := int m, sg_prev := - 1\<rparr>,
    m := (sl_storage sl ! m)\<lparr>sg_prev := int j\<rparr>], sl_head := int j\<rparr>"
  have "insert_before_node (int m) s l sl = Inr (int j, ?sl2)"
    using assms(1) sl1(1-4) m by (simp add: insert_before_node_def Let_def single_def)
  then have "place_loop s l (int m) sl = Some (Inr (int j, ?sl2))"
    using assms by (simp add: place_loop.simps [of s l "int m"] place_step_def single_def seg_end_def Let_def)
  moreover have "pair j m s l q len ?sl2"
    using assms(1) sl1(2-4) m by (auto simp: pair_def single_def free_ok_def)
  ultimately show ?thesis by blast
qed

lemma merge_pair:
  assumes "pair j m s l q len sl" and "s + ucast l = q" and "unat l + unat len \<le> 65535"
  shows "\<exists>sl'. merge_at_idx (int j) sl = Some (Inr sl') \<and> single j s (word_of_nat (unat l + unat len)) sl'"
proof -
  let ?sl2 = "sl\<lparr>sl_storage := (sl_storage sl)[j := (sl_storage sl ! j)\<lparr>sg_length := word_of_nat (unat l + unat len), sg_next := - 1\<rparr>,
    m := (sl_storage sl ! m)\<lparr>sg_length := 0\<rparr>], sl_available := sl_available sl @ [int m]\<rparr>"
  have "merge_step (int j) (int m) sl = Inr (Some (- 1), ?sl2)"
    using assms by (simp add: merge_step_def pair_def seg_end_def Let_def add.commute)
  then have "merge_at_idx (int j) sl = Some (Inr ?sl2)"
    using assms(1) by (simp add: merge_at_idx_def merge_loop.simps [of "int j" "int m"] merge_loop.simps [of "int j" "- 1"] pair_def)
  moreover have "single j s (word_of_nat (unat l + unat len)) ?sl2"
    using assms(1) by (auto simp: pair_def single_def free_ok_def)
  ultimately show ?thesis by blast
qed

lemma merge_pair_stuck:
  assumes "pair j m s l q len sl" and "s + ucast l < q"
  shows "merge_at_idx (int j) sl = None"
proof -
  have "\<not> q \<le> s + ucast l" using assms(2) by simp
  then have "merge_step (int j) (int m) sl = Inr (Some (int m), sl)"
    using assms(1) by (simp add: merge_step_def pair_def seg_end_def)
  then have "merge_loop (int j) (int m) sl = None" by (rule merge_stuck) simp
  then show ?thesis using assms(1) by (simp add: merge_at_idx_def pair_def)
qed

lemma insert_in_front:
  assumes "single m q len sl" and "s + ucast l \<le> q" and "q + ucast len \<noteq> s" and "unat l + unat len \<le> 65535"
  shows "if s + ucast l = q then \<exists>j sl'. insert_segment s l sl = Some (Inr (int j, sl')) \<and> single j s (word_of_nat (unat l + unat len)) sl'
    else insert_segment s l sl = None"
proof -
  obtain j sl1 where sl1: "place_loop s l (int m) sl = Some (Inr (int j, sl1))" "pair j m s l q len sl1"
    using place_in_front [OF assms(1-3)] by blast
  have run: "insert_segment s l sl = tbind (merge_at_idx (int j) sl1) (\<lambda>sl. Some (Inr (int j, sl)))"
    using assms(1) sl1(1) by (simp add: insert_segment_def single_def)
  show ?thesis
  proof (cases "s + ucast l = q")
    case True
    then show ?thesis using merge_pair [OF sl1(2) True assms(4)] run by auto
  next
    case False
    then have "s + ucast l < q" using assms(2) by simp
    then show ?thesis using merge_pair_stuck [OF sl1(2)] run False by simp
  qed
qed

section \<open>A buffer in order\<close>

definition in_order :: "reordered_buffer \<Rightarrow> bool" where
  "in_order r \<longleftrightarrow> ring_ok (ro_data r) \<and> ro_state r = Connected \<and> idle (ro_segment_list r) \<and>
     ro_tail_seq r = ro_head_seq r + word_of_nat (ro_available r)"

definition add_next :: "byte_string \<Rightarrow> reordered_buffer \<Rightarrow> (usize \<times> reordered_buffer) rust option" where
  "add_next data r = tbind (add_data (ro_tail_seq r) data r) (\<lambda>(res, r). Some (Inr (written res, r)))"

lemma written_inserted [simp]: "written (inserted n data r) = n"
  by (simp add: inserted_def)

lemma fast_path:
  assumes "in_order r"
  shows "\<exists>r'. fast_path_insert data r = Inr (inserted (min (length data) (ring_room (ro_data r))) data r', r') \<and> in_order r' \<and>
    pending (ro_data r') = pending (ro_data r) @ take (ring_room (ro_data r)) data \<and> ring_room (ro_data r') = ring_room (ro_data r) - length data \<and>
    rb_size (ro_data r') = rb_size (ro_data r)"
proof -
  let ?n = "min (length data) (ring_room (ro_data r))"
  have ok: "ring_ok (ro_data r)" using assms by (simp add: in_order_def)
  obtain rb' where rb': "write_at_tail data (ro_data r) = Inr (?n, rb')" "ring_ok rb'" "pending rb' = pending (ro_data r) @ take (ring_room (ro_data r)) data"
      "rb_size rb' = rb_size (ro_data r)" "rb_available rb' = rb_available (ro_data r) + ?n"
    using write_tail_pending [OF ok, of data] by blast
  let ?r = "r\<lparr>ro_data := rb', ro_tail_seq := ro_tail_seq r + word_of_nat ?n\<rparr>"
  have "fast_path_insert data r = Inr (inserted ?n data ?r, ?r)" by (simp add: fast_path_insert_def Let_def rb'(1))
  moreover have "in_order ?r" using assms rb' by (simp add: in_order_def ro_available_def)
  moreover have "ring_room rb' = ring_room (ro_data r) - length data" using rb'(4,5) by (auto simp: ring_room_def)
  ultimately show ?thesis using rb'(3,4) by (intro exI [of _ ?r]) simp
qed

lemma read_in_order:
  assumes "in_order r"
  shows "\<exists>r'. read_data buf r = Some (Inr (min (ro_available r) (length buf), take (length buf) (pending (ro_data r)) @ drop (ro_available r) buf, r')) \<and>
    in_order r' \<and> pending (ro_data r') = drop (length buf) (pending (ro_data r)) \<and>
    ring_room (ro_data r') = ring_room (ro_data r) + min (ro_available r) (length buf) \<and> rb_size (ro_data r') = rb_size (ro_data r)"
proof -
  let ?n = "min (ro_available r) (length buf)"
  have ok: "ring_ok (ro_data r)" and st: "ro_state r = Connected" using assms by (simp_all add: in_order_def)
  obtain rb' where rb': "read_from_head buf (ro_data r) = Inr (?n, take (length buf) (pending (ro_data r)) @ drop (ro_available r) buf, rb')" "ring_ok rb'"
      "pending rb' = drop (length buf) (pending (ro_data r))" "rb_size rb' = rb_size (ro_data r)" "rb_available rb' = ro_available r - length buf"
    using read_head [OF ok, of buf] unfolding ro_available_def by blast
  let ?r = "r\<lparr>ro_data := rb', ro_head_seq := ro_head_seq r + word_of_nat ?n\<rparr>"
  have "ro_available r = ?n + (ro_available r - length buf)" by simp
  then have "word_of_nat (ro_available r) = (word_of_nat ?n + word_of_nat (ro_available r - length buf) :: u32)" by (metis of_nat_add)
  then have "in_order ?r" using assms rb' by (simp add: in_order_def ro_available_def)
  moreover have "ring_room rb' = ring_room (ro_data r) + ?n"
    using rb'(4,5) ok by (auto simp: ring_room_def ro_available_def ring_ok_def)
  ultimately show ?thesis using rb' by (intro exI [of _ ?r]) (simp add: read_data_def st read_data_common_def)
qed

interpretation reorder_pipe: byte_pipe in_order "\<lambda>r. pending (ro_data r)" "\<lambda>r. ring_room (ro_data r)" add_next read_data
proof (unfold_locales, goal_cases)
  case (1 s data)
  then have "add_data (ro_tail_seq s) data s = Some (fast_path_insert data s)" by (simp add: add_data_def in_order_def)
  then show ?case using fast_path [OF 1, of data] by (auto simp: add_next_def)
next
  case (2 s buf)
  then have "length (pending (ro_data s)) = ro_available s" by (simp add: in_order_def ro_available_def)
  then show ?case using read_in_order [OF 2, of buf] by auto
qed

lemma new_in_order:
  assumes "n \<noteq> 0" and "unat n \<le> 2 ^ 62"
  shows "\<exists>r0 r1. ReorderedBuffer_new n = Inr (Inr r0) \<and>
    ro_seq s data r0 = Inr (inserted (min (length data) (ro_buffer_size r0 - 1)) data r1, r1) \<and> in_order r1 \<and>
    pending (ro_data r1) = take (ro_buffer_size r0 - 1) data \<and> ring_room (ro_data r1) = ro_buffer_size r0 - 1 - length data \<and>
    unat n \<le> ro_buffer_size r0 \<and> ro_buffer_size r0 < 2 * unat n"
proof -
  obtain rb where rb: "RingBuffer_new (round_to_power_of_2 n) = Inr (Inr rb)" "ring_ok rb" "pending rb = []" "rb_available rb = 0"
      "rb_size rb = unat (round_to_power_of_2 n)" "unat n \<le> rb_size rb" "rb_size rb < 2 * unat n"
    using rounded_ring [OF assms] by blast
  let ?fresh = "\<lparr>ro_data = rb, ro_segment_list = SegmentList_new (unat (n div 64)), ro_buffer_size = rb_size rb, ro_state = Closed, ro_head_seq = 0, ro_tail_seq = 0\<rparr>"
  let ?r = "?fresh\<lparr>ro_state := Connected, ro_head_seq := s, ro_tail_seq := s\<rparr>"
  have "ReorderedBuffer_new n = Inr (Inr ?fresh)" by (simp add: ReorderedBuffer_new_def new_with_segments_def Let_def rb(1,5))
  moreover have "idle (SegmentList_new len)" for len by (auto simp: SegmentList_new_def idle_def free_ok_def distinct_map inj_on_def)
  then have "in_order ?r" using rb(2,4) by (simp add: in_order_def ro_available_def)
  then obtain r' where "fast_path_insert data ?r = Inr (inserted (min (length data) (ring_room rb)) data r', r')" "in_order r'"
      "pending (ro_data r') = take (ring_room rb) data" "ring_room (ro_data r') = ring_room rb - length data"
    using fast_path [of ?r data] rb(3) by auto
  moreover have "ring_room rb = rb_size rb - 1" by (simp add: ring_room_def rb(4))
  ultimately show ?thesis using rb(6,7) by (intro exI [of _ ?fresh] exI [of _ r']) (simp add: ro_seq_def)
qed

section \<open>A gap\<close>

lemma seq_at: "unat h + k < 2 ^ 32 \<Longrightarrow> unat (h + word_of_nat k :: u32) = unat h + k"
  by (simp add: unat_word_ariths unat_of_nat)

lemma ucast_u16 [simp]: "k < 65536 \<Longrightarrow> ucast (word_of_nat k :: u16) = (word_of_nat k :: u32)"
  by (simp add: word_unat_eq_iff unsigned_ucast_eq take_bit_nat_eq_self)

lemma ucast_seq: "k < 65536 \<Longrightarrow> ucast (h + word_of_nat k - h :: u32) = (word_of_nat k :: u16)"
  by (simp add: word_unat_eq_iff unsigned_ucast_eq take_bit_nat_eq_self)

text \<open>Room for a gap of \<open>g\<close> bytes and \<open>n\<close> bytes behind it, without wrapping of the sequence numbers or overflow of the length of a segment.\<close>

definition gap_fits :: "nat \<Rightarrow> nat \<Rightarrow> reordered_buffer \<Rightarrow> bool" where
  "gap_fits g n r \<longleftrightarrow> 0 < g \<and> 0 < n \<and> g + n \<le> ring_room (ro_data r) \<and> ro_available r + g + n \<le> 65535 \<and>
     unat (ro_head_seq r) + ro_available r + g + n < 2 ^ 32"

text \<open>\<open>gap_open\<close>: the bytes behind the gap are in the ring; the list holds one segment, which covers the gap when there was something to read.\<close>

definition gap_open :: "nat \<Rightarrow> byte_string \<Rightarrow> reordered_buffer \<Rightarrow> nat \<Rightarrow> reordered_buffer \<Rightarrow> bool" where
  "gap_open g d r m r' \<longleftrightarrow> ro_state r' = ConnectedOutOfOrder \<and> ro_head_seq r' = ro_head_seq r \<and> ro_tail_seq r' = ro_tail_seq r \<and>
     ring_ok (ro_data r') \<and> rb_available (ro_data r') = ro_available r \<and> rb_size (ro_data r') = rb_size (ro_data r) \<and>
     ring_view (ro_data r') = write_at (ro_available r + g) d (ring_view (ro_data r)) \<and>
     (if ro_available r = 0 then single m (ro_tail_seq r + word_of_nat g) (word_of_nat (length d)) (ro_segment_list r')
      else single m (ro_head_seq r) (word_of_nat (ro_available r + g + length d)) (ro_segment_list r'))"

lemma add_head:
  assumes "idle sl" and "a < 65536"
  shows "\<exists>sl'. add_head_loop a h sl = Some (Inr sl') \<and> (if a = 0 then sl' = sl else \<exists>m. single m h (word_of_nat a) sl')"
proof (cases "a = 0")
  case False
  obtain m sl' where "insert_segment h (word_of_nat a) sl = Some (Inr (int m, sl'))" "single m h (word_of_nat a) sl'"
    using insert_first [OF assms(1)] by blast
  moreover have "min 65535 a = a" using assms(2) by simp
  ultimately show ?thesis using False by (auto simp: add_head_loop.simps [of a] add_head_loop.simps [of 0] Let_def)
qed (simp add: add_head_loop.simps)

lemma gap_segment:
  assumes "idle sl" and "0 < g" and "0 < n" and "a + g + n \<le> 65535" and "unat h + a + g + n < 2 ^ 32"
  shows "\<exists>sl1 i m sl2. add_head_loop a h sl = Some (Inr sl1) \<and> insert_segment (h + word_of_nat (a + g)) (word_of_nat n) sl1 = Some (Inr (i, sl2)) \<and>
    (if a = 0 then single m (h + word_of_nat (a + g)) (word_of_nat n) sl2 else single m h (word_of_nat (a + g + n)) sl2)"
proof -
  obtain sl1 where sl1: "add_head_loop a h sl = Some (Inr sl1)" "if a = 0 then sl1 = sl else \<exists>m. single m h (word_of_nat a) sl1"
    using add_head [OF assms(1), of a h] assms(4) by auto
  show ?thesis
  proof (cases "a = 0")
    case True
    then have "idle sl1" using sl1(2) assms(1) by simp
    then show ?thesis using True insert_first [of sl1 "h + word_of_nat (a + g)" "word_of_nat n"] sl1(1) by auto
  next
    case False
    then obtain m where m: "single m h (word_of_nat a) sl1" using sl1(2) by auto
    have stop: "h + word_of_nat (a + g) + ucast (word_of_nat n :: u16) = h + word_of_nat (a + g + n)" using assms(4) by simp
    have le: "h \<le> h + word_of_nat (a + g)" "h + ucast (word_of_nat a :: u16) \<noteq> h + word_of_nat (a + g)"
        "\<not> h + word_of_nat (a + g + n) \<le> h" "h + ucast (word_of_nat a :: u16) \<le> h + word_of_nat (a + g + n)"
      using assms(2-5) False seq_at [of h a] seq_at [of h "a + g"] seq_at [of h "a + g + n"]
      by (simp_all only: word_le_nat_alt word_unat_eq_iff ucast_u16)
    have len: "ucast (max (h + ucast (word_of_nat a :: u16)) (h + word_of_nat (a + g + n)) - h) = (word_of_nat (a + g + n) :: u16)"
      unfolding max_absorb2 [OF le(4)] using assms(4) by (intro ucast_seq) simp
    show ?thesis using insert_swallowed [OF m le(1,2), of "word_of_nat n"] le(3) sl1(1) False unfolding stop len by auto
  qed
qed

lemma gap_opened:
  assumes "in_order r" and "gap_fits g (length d) r"
  shows "\<exists>m r'. add_data (ro_tail_seq r + word_of_nat g) d r = Some (Inr (Inserted (length d) (ro_available r), r')) \<and> gap_open g d r m r'"
proof -
  let ?h = "ro_head_seq r" and ?a = "ro_available r"
  let ?s = "ro_tail_seq r + word_of_nat g"
  have r: "ring_ok (ro_data r)" "ro_state r = Connected" "idle (ro_segment_list r)" "ro_tail_seq r = ?h + word_of_nat ?a"
    using assms(1) by (simp_all add: in_order_def)
  have fits: "0 < g" "0 < length d" "g + length d \<le> ring_room (ro_data r)" "?a + g + length d \<le> 65535" "unat ?h + ?a + g + length d < 2 ^ 32"
    using assms(2) by (simp_all add: gap_fits_def)
  have s: "?s = ?h + word_of_nat (?a + g)" by (simp add: r(4))
  obtain sl1 i m sl2 where sl: "add_head_loop ?a ?h (ro_segment_list r) = Some (Inr sl1)" "insert_segment ?s (word_of_nat (length d)) sl1 = Some (Inr (i, sl2))"
      "if ?a = 0 then single m ?s (word_of_nat (length d)) sl2 else single m ?h (word_of_nat (?a + g + length d)) sl2"
    using gap_segment [OF r(3) fits(1,2,4,5)] unfolding s by blast
  obtain rb' where rb': "write_at_offset_from_tail g d (ro_data r) = Inr (length d, rb')" "ring_ok rb'"
      "ring_view rb' = write_at (rb_available (ro_data r) + g) d (ring_view (ro_data r))"
      "rb_head rb' = rb_head (ro_data r)" "rb_tail rb' = rb_tail (ro_data r)" "rb_size rb' = rb_size (ro_data r)"
    using write_ahead [OF r(1), of g d] fits(3) by auto
  have u: "unat (ro_tail_seq r) = unat ?h + ?a" "unat ?s = unat ?h + (?a + g)" "unat (?s + word_of_nat (length d)) = unat ?h + (?a + g + length d)"
    using seq_at [of ?h ?a] seq_at [of ?h "?a + g"] seq_at [of ?h "?a + g + length d"] fits(5) by (simp_all add: s r(4) add.assoc)
  have cmp: "?s \<noteq> ro_tail_seq r" "\<not> ?s < ro_tail_seq r" "\<not> ?s + word_of_nat (length d) < ro_tail_seq r" "\<not> ?s \<le> ro_tail_seq r" "unat (?s - ro_tail_seq r) = g"
    using u fits(1,4) by (simp_all add: word_less_nat_alt word_le_nat_alt word_unat_eq_iff)
  let ?r = "r\<lparr>ro_state := ConnectedOutOfOrder, ro_segment_list := sl1\<rparr>"
  let ?r2 = "r\<lparr>ro_state := ConnectedOutOfOrder, ro_segment_list := sl2, ro_data := rb'\<rparr>"
  have avail: "rb_available rb' = ?a" using rb'(4,5) by (simp add: rb_available_def ro_available_def)
  have "out_of_order_insert ?s d ?r = Some (Inr (Inserted (length d) ?a, ?r2))"
    using cmp(1,4,5) by (simp add: out_of_order_insert_def Let_def rb'(1) sl(2) inserted_def ro_available_def avail [unfolded ro_available_def])
  moreover have "add_data ?s d r = out_of_order_insert ?s d ?r"
    using cmp(1-3) sl(1) by (simp add: add_data_def r(2) slow_path_insert_def Let_def add_head_to_seg_list_def ro_available_def)
  moreover have "gap_open g d r m ?r2" using rb'(2,3,6) [folded ro_available_def] sl(3) avail by (simp add: gap_open_def del: of_nat_add)
  ultimately show ?thesis by metis
qed

lemma fill_segment:
  assumes "0 < e" and "e \<le> g" and "0 < n" and "a + g + n \<le> 65535" and "unat h + a + g + n < 2 ^ 32"
    and "if a = 0 then single m (h + word_of_nat (a + g)) (word_of_nat n) sl else single m h (word_of_nat (a + g + n)) sl"
  shows "if a = 0 \<and> e < g then insert_segment (h + word_of_nat a) (word_of_nat e) sl = None
    else \<exists>j q len sl'. insert_segment (h + word_of_nat a) (word_of_nat e) sl = Some (Inr (int j, sl')) \<and> single j q len sl' \<and>
      q + ucast len = h + word_of_nat (a + g + n)"
proof (cases "a = 0")
  case True
  have u: "unat (h + word_of_nat e) = unat h + e" "unat (h + word_of_nat g) = unat h + g" "unat (h + word_of_nat (g + n)) = unat h + (g + n)"
    using seq_at [of h e] seq_at [of h g] seq_at [of h "g + n"] assms(2,5) True by simp_all
  have le: "h + ucast (word_of_nat e :: u16) \<le> h + word_of_nat g" "h + word_of_nat g + ucast (word_of_nat n :: u16) \<noteq> h"
      "h + ucast (word_of_nat e :: u16) = h + word_of_nat g \<longleftrightarrow> e = g"
    using u assms(1-4) by (simp_all add: word_le_nat_alt word_unat_eq_iff add.assoc)
  have len: "unat (word_of_nat e :: u16) = e" "unat (word_of_nat n :: u16) = n" using assms(2,4) by simp_all
  have one: "single m (h + word_of_nat g) (word_of_nat n) sl" using assms(6) True by simp
  show ?thesis
  proof (cases "e = g")
    case eq: True
    obtain j sl' where j: "insert_segment (h + word_of_nat a) (word_of_nat e) sl = Some (Inr (int j, sl'))" "single j h (word_of_nat (e + n)) sl'"
      using insert_in_front [OF one le(1,2)] len le(3) eq assms(4) True by auto
    have "h + ucast (word_of_nat (e + n) :: u16) = h + word_of_nat (a + g + n)" using ucast_u16 [of "e + n"] True eq assms(4) by simp
    with j have "\<exists>j q len sl'. insert_segment (h + word_of_nat a) (word_of_nat e) sl = Some (Inr (int j, sl')) \<and> single j q len sl' \<and>
        q + ucast len = h + word_of_nat (a + g + n)"
      by blast
    then show ?thesis using eq by simp
  next
    case False
    then have "insert_segment h (word_of_nat e) sl = None" using insert_in_front [OF one le(1,2)] len le(3) assms(2,4) by auto
    then show ?thesis using True False assms(2) by simp
  qed
next
  case False
  have one: "single m h (word_of_nat (a + g + n)) sl" using assms(6) False by simp
  have big: "ucast (word_of_nat (a + g + n) :: u16) = (word_of_nat (a + g + n) :: u32)"
      "h + word_of_nat a + ucast (word_of_nat e :: u16) = h + word_of_nat (a + e)"
    using assms(2,4) ucast_u16 [of "a + g + n"] ucast_u16 [of e] by (simp_all del: of_nat_add) simp
  have le: "h \<le> h + word_of_nat a" "h + word_of_nat (a + g + n) \<noteq> h + word_of_nat a" "\<not> h + word_of_nat (a + e) \<le> h"
      "h + word_of_nat (a + e) \<le> h + word_of_nat (a + g + n)"
    using assms(1-5) False seq_at [of h a] seq_at [of h "a + e"] seq_at [of h "a + g + n"]
    by (simp_all only: word_le_nat_alt word_unat_eq_iff)
  have len: "ucast (max (h + word_of_nat (a + g + n)) (h + word_of_nat (a + e)) - h) = (word_of_nat (a + g + n) :: u16)"
    unfolding max_absorb1 [OF le(4)] using assms(4) by (intro ucast_seq) simp
  obtain sl' where "insert_segment (h + word_of_nat a) (word_of_nat e) sl = Some (Inr (int m, sl'))" "single m h (word_of_nat (a + g + n)) sl'"
    using insert_swallowed [OF one le(1), of "word_of_nat e", unfolded big len] le(2,3) by blast
  with big(1) have "\<exists>j q len sl'. insert_segment (h + word_of_nat a) (word_of_nat e) sl = Some (Inr (int j, sl')) \<and> single j q len sl' \<and>
      q + ucast len = h + word_of_nat (a + g + n)"
    by (metis (no_types))
  then show ?thesis using False by simp
qed

lemma fill_at_tail:
  assumes "write_at_tail e (ro_data r) = Inr (n, rb)" and "insert_segment (ro_tail_seq r) (word_of_nat n) (ro_segment_list r) = Some (Inr (int j, sl))"
    and "single j q len sl" and "q + ucast len - (ro_tail_seq r + word_of_nat n) = word_of_nat k" and "k < 2 ^ 32" and "n < 2 ^ 32"
  shows "\<exists>sl'. idle sl' \<and> (let r' = r\<lparr>ro_data := seek_tail k rb, ro_segment_list := sl', ro_tail_seq := q + ucast len, ro_state := Connected\<rparr>
    in insert_at_tail_seq e r = Some (Inr (Inserted (max n k) (ro_available r'), r')))"
proof -
  obtain sl' where sl': "sl_clear sl = Some (Inr sl')" "idle sl'" using clear_single [OF assms(3)] by blast
  have seg: "is_head (int j) sl" "get_segment (int j) sl = Inr (sl_storage sl ! j)" "one_segment sl = Inr True"
    "seg_end (sl_storage sl ! j) = q + ucast len"
    using assms(3) by (simp_all add: single_def is_head_def one_segment_def seg_end_def)
  have "unat (word_of_nat k :: u32) = k" "(word_of_nat n :: u32) < word_of_nat k \<longleftrightarrow> n < k" using assms(5,6) by (simp_all add: word_less_nat_alt)
  then show ?thesis using sl'(2)
    by (intro exI [of _ sl']) (auto simp: insert_at_tail_seq_def Let_def assms(1,2,4) seg sl'(1) ro_available_def max_def)
qed

lemma filled_view:
  assumes "a + g + length d \<le> length xs" and "length e \<le> g"
  shows "take (a + g + length d) (write_at a e (write_at (a + g) d xs)) = take a xs @ e @ take (g - length e) (drop (a + length e) xs) @ d"
proof -
  have "write_at (a + g) d xs = take a xs @ take g (drop a xs) @ d @ drop (a + g + length d) xs"
    using assms(1) by (simp add: write_at_def take_add)
  moreover have "length (take a xs) = a" "length (take g (drop a xs)) = g" using assms(1) by simp_all
  ultimately have "write_at a e (write_at (a + g) d xs) = take a xs @ e @ drop (length e) (take g (drop a xs)) @ d @ drop (a + g + length d) xs"
    using assms(2) by (simp add: write_at_def)
  then show ?thesis using assms by (simp add: drop_take add.commute)
qed

lemma gap_filling:
  assumes "in_order r" and "gap_fits g (length d) r" and "gap_open g d r m r'" and "0 < length e" and "length e \<le> g"
  shows "if ro_available r = 0 \<and> length e < g then add_data (ro_tail_seq r) e r' = None
    else \<exists>r''. add_data (ro_tail_seq r) e r' =
        Some (Inr (Inserted (max (length e) (g + length d - length e)) (ro_available r + g + length d), r'')) \<and> in_order r'' \<and>
      pending (ro_data r'') = pending (ro_data r) @ e @ take (g - length e) (drop (ro_available r + length e) (ring_view (ro_data r))) @ d"
proof -
  let ?h = "ro_head_seq r" and ?a = "ro_available r" and ?k = "g + length d - length e"
  have r: "ring_ok (ro_data r)" "ro_tail_seq r = ?h + word_of_nat ?a" using assms(1) by (simp_all add: in_order_def)
  then have rb_lt: "rb_available (ro_data r) < rb_size (ro_data r)" by (simp add: ring_ok_def)
  have fits: "0 < length d" "g + length d \<le> ring_room (ro_data r)" "?a + g + length d \<le> 65535" "unat ?h + ?a + g + length d < 2 ^ 32"
    using assms(2) by (simp_all add: gap_fits_def)
  have r': "ro_state r' = ConnectedOutOfOrder" "ro_tail_seq r' = ?h + word_of_nat ?a" "ring_ok (ro_data r')" "rb_available (ro_data r') = ?a"
      "rb_size (ro_data r') = rb_size (ro_data r)" "ring_view (ro_data r') = write_at (?a + g) d (ring_view (ro_data r))" "ro_head_seq r' = ?h"
      "if ?a = 0 then single m (?h + word_of_nat (?a + g)) (word_of_nat (length d)) (ro_segment_list r')
       else single m ?h (word_of_nat (?a + g + length d)) (ro_segment_list r')"
    using assms(3) r(2) by (auto simp: gap_open_def add.assoc)
  have room: "ring_room (ro_data r') = ring_room (ro_data r)" using r'(4,5) by (simp add: ring_room_def ro_available_def)
  obtain rb where rb: "write_at_tail e (ro_data r') = Inr (length e, rb)" "ring_ok rb" "ring_view rb = write_at ?a e (ring_view (ro_data r'))"
      "rb_available rb = ?a + length e" "rb_size rb = rb_size (ro_data r)"
    using write_tail [OF r'(3), of e] room fits(2) assms(5) r'(4,5) by (auto simp: min_absorb1)
  have add: "add_data (ro_tail_seq r) e r' = insert_at_tail_seq e r'"
    by (simp add: add_data_def r'(1,2) out_of_order_insert_def r(2))
  note seg = fill_segment [OF assms(4,5) fits(1,3,4) r'(8)]
  show ?thesis
  proof (cases "?a = 0 \<and> length e < g")
    case True
    then have "insert_segment (?h + word_of_nat ?a) (word_of_nat (length e)) (ro_segment_list r') = None" using seg by simp
    then have "insert_at_tail_seq e r' = None" by (simp add: insert_at_tail_seq_def Let_def rb(1) r'(2))
    then show ?thesis using True add by simp
  next
    case False
    then obtain j q len sl where sl: "insert_segment (ro_tail_seq r') (word_of_nat (length e)) (ro_segment_list r') = Some (Inr (int j, sl))" "single j q len sl"
        "q + ucast len = ?h + word_of_nat (?a + g + length d)"
      using seg unfolding r'(2) by auto
    have k: "q + ucast len - (ro_tail_seq r' + word_of_nat (length e)) = word_of_nat ?k" "?k < 2 ^ 32" "length e < 2 ^ 32"
      using fits(3) assms(5) by (simp_all add: sl(3) r'(2) of_nat_diff)
    obtain sl' where fin: "idle sl'" "let r'' = r'\<lparr>ro_data := seek_tail ?k rb, ro_segment_list := sl', ro_tail_seq := q + ucast len, ro_state := Connected\<rparr>
        in insert_at_tail_seq e r' = Some (Inr (Inserted (max (length e) ?k) (ro_available r''), r''))"
      using fill_at_tail [OF rb(1) sl(1,2) k] by blast
    have "?k \<le> ring_room rb" using fits(2) assms(5) rb(4,5) by (simp add: ring_room_def ro_available_def)
    note tail = seek_tail_ok [OF rb(2) this]
    have avail: "rb_available (seek_tail ?k rb) = ?a + g + length d" using tail(1) rb(4) assms(5) by simp
    let ?r = "r'\<lparr>ro_data := seek_tail ?k rb, ro_segment_list := sl', ro_tail_seq := q + ucast len, ro_state := Connected\<rparr>"
    have "in_order ?r" using fin(1) tail(2) avail sl(3) r'(7) by (simp add: in_order_def ro_available_def)
    moreover have "?a + g + length d \<le> length (ring_view (ro_data r))"
      using fits(2) ring_ok_index(3) [OF r(1)] rb_lt by (simp add: ring_room_def ro_available_def)
    then have "pending (seek_tail ?k rb) = pending (ro_data r) @ e @ take (g - length e) (drop (?a + length e) (ring_view (ro_data r))) @ d"
      unfolding pending_def avail tail(3) rb(3) r'(6) by (subst filled_view [OF _ assms(5)]) (simp_all add: ro_available_def)
    moreover have "add_data (ro_tail_seq r) e r' = Some (Inr (Inserted (max (length e) ?k) (?a + g + length d), ?r))"
      using fin(2) by (simp add: add Let_def ro_available_def avail)
    ultimately show ?thesis using False by (auto intro: exI [of _ ?r])
  qed
qed

section \<open>Properties\<close>

text \<open>C29: in order, the reordering buffer is a bounded channel of bytes. A buffer made for up to \<open>2 ^ 62\<close> bytes is rounded up to a power of two;
  after \<open>seq\<close>, whatever mixture of additions at the tail and reads follows, nothing panics or blocks, what was read followed by what is still pending is exactly
  what was accepted, in order, and the free space is what remains of the size less one.\<close>

theorem reordered_stream:
  assumes "n \<noteq> 0" and "unat n \<le> 2 ^ 62"
  shows "\<exists>r0 res r1 ins outs r. ReorderedBuffer_new n = Inr (Inr r0) \<and> unat n \<le> ro_buffer_size r0 \<and> ro_buffer_size r0 < 2 * unat n \<and>
    ro_seq s data r0 = Inr (res, r1) \<and> written res = min (length data) (ro_buffer_size r0 - 1) \<and>
    pipe_run add_next read_data ops (take (written res) data, [], r1) = Some (Inr (ins, outs, r)) \<and>
    outs @ pending (ro_data r) = ins \<and> ring_room (ro_data r) + ro_available r = ro_buffer_size r0 - 1"
proof -
  obtain r0 r1 where new: "ReorderedBuffer_new n = Inr (Inr r0)" "ro_seq s data r0 = Inr (inserted (min (length data) (ro_buffer_size r0 - 1)) data r1, r1)"
      "in_order r1" "pending (ro_data r1) = take (ro_buffer_size r0 - 1) data" "ring_room (ro_data r1) = ro_buffer_size r0 - 1 - length data"
      "unat n \<le> ro_buffer_size r0" "ro_buffer_size r0 < 2 * unat n"
    using new_in_order [OF assms, of s data] by blast
  let ?first = "take (ro_buffer_size r0 - 1) data"
  obtain ins' outs' r where run: "pipe_run add_next read_data ops (?first, [], r1) = Some (Inr (?first @ ins', [] @ outs', r))" "in_order r"
      "outs' @ pending (ro_data r) = pending (ro_data r1) @ ins'"
      "ring_room (ro_data r) + length (pending (ro_data r)) = ring_room (ro_data r1) + length (pending (ro_data r1))"
    using reorder_pipe.run_in_order [OF new(3), of ops ?first "[]"] by blast
  have "length (pending (ro_data r)) = ro_available r" using run(2) by (simp add: in_order_def ro_available_def)
  then have "ring_room (ro_data r) + ro_available r = ro_buffer_size r0 - 1" using run(4) new(4,5) by simp
  then show ?thesis using new run(1,3) by (auto simp: take_min_length)
qed

text \<open>C30: data that arrives early is delivered in order once the gap before it is filled. A segment is added behind a gap, then the data that fills the gap exactly:
  both are accepted, and what can be read is what was pending, the data of the gap, and the early data. The buffer is then back on its fast path with an empty
  list of segments. The number of bytes it reports as written is the larger of the two lengths.\<close>

theorem gap_filled_delivers:
  assumes "in_order r" and "gap_fits (length e) (length d) r"
  shows "\<exists>r' r''. add_data (ro_tail_seq r + word_of_nat (length e)) d r = Some (Inr (Inserted (length d) (ro_available r), r')) \<and>
    add_data (ro_tail_seq r) e r' = Some (Inr (Inserted (max (length e) (length d)) (ro_available r + length e + length d), r'')) \<and>
    in_order r'' \<and> pending (ro_data r'') = pending (ro_data r) @ e @ d"
proof -
  obtain m r' where r': "add_data (ro_tail_seq r + word_of_nat (length e)) d r = Some (Inr (Inserted (length d) (ro_available r), r'))" "gap_open (length e) d r m r'"
    using gap_opened [OF assms] by blast
  have "0 < length e" using assms(2) by (simp add: gap_fits_def)
  then show ?thesis using gap_filling [OF assms r'(2), of e] r'(1) by auto
qed

text \<open>C31: a gap that is filled in part. When nothing was pending, merging the new segment with the early one never ends. When something was pending, the early
  segment has absorbed the gap: the buffer reports all of it as available, and what can be read contains, in place of the bytes that never arrived, whatever the ring held there.\<close>

theorem gap_partly_filled:
  assumes "in_order r" and "gap_fits g (length d) r" and "0 < length e" and "length e < g"
  shows "\<exists>r'. add_data (ro_tail_seq r + word_of_nat g) d r = Some (Inr (Inserted (length d) (ro_available r), r')) \<and>
    (if ro_available r = 0 then add_data (ro_tail_seq r) e r' = None
     else \<exists>r''. add_data (ro_tail_seq r) e r' =
         Some (Inr (Inserted (max (length e) (g + length d - length e)) (ro_available r + g + length d), r'')) \<and>
       pending (ro_data r'') = pending (ro_data r) @ e @ take (g - length e) (drop (ro_available r + length e) (ring_view (ro_data r))) @ d)"
proof -
  obtain m r' where "add_data (ro_tail_seq r + word_of_nat g) d r = Some (Inr (Inserted (length d) (ro_available r), r'))" "gap_open g d r m r'"
    using gap_opened [OF assms(1,2)] by blast
  then show ?thesis using gap_filling [OF assms(1,2) _ assms(3), of m r'] assms(4) by (intro exI [of _ r']) auto
qed

section \<open>Witnesses\<close>

theorem reordered_stream_witness:
  "\<exists>r0 res r1 ins outs r. ReorderedBuffer_new 100 = Inr (Inr r0) \<and> 100 \<le> ro_buffer_size r0 \<and> ro_buffer_size r0 < 200 \<and>
    ro_seq 7 [1, 2, 3] r0 = Inr (res, r1) \<and> written res = min 3 (ro_buffer_size r0 - 1) \<and>
    pipe_run add_next read_data [PutOp [4, 5], GetOp [0, 0]] (take (written res) [1, 2, 3], [], r1) = Some (Inr (ins, outs, r)) \<and>
    outs @ pending (ro_data r) = ins \<and> ring_room (ro_data r) + ro_available r = ro_buffer_size r0 - 1"
  using reordered_stream [of 100 7 "[1, 2, 3]" "[PutOp [4, 5], GetOp [0, 0]]"] by (simp add: numeral_3_eq_3)

definition sample_buffer :: "u64 \<Rightarrow> reordered_buffer" where
  "sample_buffer tail =
     \<lparr>ro_data = \<lparr>rb_head = 0, rb_tail = tail, rb_size = 16, rb_mask = 15, rb_vec = [1, 2, 9, 9, 9, 9, 9, 9, 9, 9, 9, 9, 9, 9, 9, 9]\<rparr>,
      ro_segment_list = SegmentList_new 0, ro_buffer_size = 16, ro_state = Connected, ro_head_seq = 100, ro_tail_seq = 100 + ucast tail\<rparr>"

lemma sample_in_order: "in_order (sample_buffer 0)" "in_order (sample_buffer 2)"
proof -
  have "\<exists>n < 63. (16 :: nat) = 2 ^ n \<and> (15 :: u64) = 2 ^ n - 1" by (rule exI [of _ 4]) simp
  then show "in_order (sample_buffer 0)" "in_order (sample_buffer 2)"
    by (simp_all only: in_order_def ring_ok_def) (simp_all add: sample_buffer_def rb_available_def ro_available_def idle_def free_ok_def SegmentList_new_def)
qed

lemma sample_contents:
  "pending (ro_data (sample_buffer 2)) = [1, 2]" "ro_tail_seq (sample_buffer 2) = 102" "ro_available (sample_buffer 2) = 2"
  "ro_tail_seq (sample_buffer 0) = 100" "ro_available (sample_buffer 0) = 0"
  "ring_view (ro_data (sample_buffer 2)) = [1, 2, 9, 9, 9, 9, 9, 9, 9, 9, 9, 9, 9, 9, 9, 9]"
  by (simp_all add: sample_buffer_def rb_available_def ro_available_def pending_def ring_view_def)

lemma sample_gaps: "gap_fits 2 3 (sample_buffer 2)" "gap_fits 4 2 (sample_buffer 0)" "gap_fits 2 2 (sample_buffer 2)"
  by (simp_all add: gap_fits_def sample_buffer_def ring_room_def rb_available_def ro_available_def)

theorem gap_filled_delivers_witness:
  "\<exists>r' r''. add_data 104 [7, 8, 6] (sample_buffer 2) = Some (Inr (Inserted 3 2, r')) \<and> add_data 102 [4, 5] r' = Some (Inr (Inserted 3 7, r'')) \<and>
    in_order r'' \<and> pending (ro_data r'') = [1, 2, 4, 5, 7, 8, 6]"
  using gap_filled_delivers [OF sample_in_order(2), of "[4, 5]" "[7, 8, 6]"] sample_gaps(1)
  by (simp add: sample_contents eval_nat_numeral)

theorem gap_partly_filled_witness:
  "(\<exists>r0. add_data 104 [7, 8] (sample_buffer 0) = Some (Inr (Inserted 2 0, r0)) \<and> add_data 100 [3] r0 = None) \<and>
   (\<exists>r1 r2. add_data 104 [7, 8] (sample_buffer 2) = Some (Inr (Inserted 2 2, r1)) \<and>
      add_data 102 [4] r1 = Some (Inr (Inserted 3 6, r2)) \<and> pending (ro_data r2) = [1, 2, 4, 9, 7, 8])"
  using gap_partly_filled [OF sample_in_order(1), of 4 "[7, 8]" "[3]"] gap_partly_filled [OF sample_in_order(2), of 2 "[7, 8]" "[4]"] sample_gaps(2,3)
  by (simp add: sample_contents eval_nat_numeral)

end
