(* ===== verification/Flows.thy ===== *)
theory Flows
  imports Prelude
begin

text \<open>
  Flows (\<open>net/framework/src/utils/flow.rs\<close>) and the stores that keep a value per flow (\<open>net/framework/src/state/cp_mergeable.rs\<close>,
  \<open>dp_mergeable.rs\<close>, \<open>mergeable.rs\<close>). The hash function, the checksum of the native library and the outcome of each attempt to take a lock or to send on a
  channel are arguments; a value type is given by its default and its \<open>add_assign\<close>. Hash maps are maps.
\<close>

unbundle bit_operations_syntax

section \<open>Flows\<close>

record flow =
  fl_src_ip :: u32
  fl_dst_ip :: u32
  fl_src_port :: u16
  fl_dst_port :: u16
  fl_proto :: u8

record ipv4_prefix =
  pf_ip_address :: u32
  pf_prefix :: u8
  pf_mask :: u32

text \<open>A shift by 32 or more bits uses the low five bits of the distance in a release build.\<close>

definition Ipv4Prefix_new :: "u32 \<Rightarrow> u8 \<Rightarrow> ipv4_prefix" where
  "Ipv4Prefix_new address prefix =
     (let mask = (if prefix = 0 then 0 else let inv_pfx = 32 - prefix in NOT (push_bit (unat inv_pfx mod 32) 1 - 1))
      in \<lparr>pf_ip_address = address AND mask, pf_prefix = prefix, pf_mask = mask\<rparr>)"

definition in_range :: "u32 \<Rightarrow> ipv4_prefix \<Rightarrow> bool" where
  "in_range address p \<longleftrightarrow> address AND pf_mask p = pf_ip_address p"

definition be_u32 :: "byte_string \<Rightarrow> u32" where "be_u32 bs = word_of_nat (be_nat bs)"
definition be_u16 :: "byte_string \<Rightarrow> u16" where "be_u16 bs = word_of_nat (be_nat bs)"

definition IHL_TO_BYTE_FACTOR :: usize where
  "IHL_TO_BYTE_FACTOR = 4"

definition port_start :: "byte_string \<Rightarrow> usize rust" where
  "port_start bytes = rbind (index_slice bytes 0) (\<lambda>b. Inr (unat (b AND 0xf) * IHL_TO_BYTE_FACTOR))"

definition ipv4_extract_flow :: "byte_string \<Rightarrow> flow option rust" where
  "ipv4_extract_flow bytes =
     rbind (port_start bytes) (\<lambda>ps.
     rbind (index_slice bytes 9) (\<lambda>proto.
     rbind (slice_range bytes 12 16) (\<lambda>src_ip.
     rbind (slice_range bytes 16 20) (\<lambda>dst_ip.
     rbind (slice_range bytes ps (ps + 2)) (\<lambda>src_port.
     rbind (slice_range bytes (ps + 2) (ps + 4)) (\<lambda>dst_port.
     Inr (Some \<lparr>fl_src_ip = be_u32 src_ip, fl_dst_ip = be_u32 dst_ip, fl_src_port = be_u16 src_port, fl_dst_port = be_u16 dst_port, fl_proto = proto\<rparr>)))))))"

definition reverse_flow :: "flow \<Rightarrow> flow" where
  "reverse_flow f = \<lparr>fl_src_ip = fl_dst_ip f, fl_dst_ip = fl_src_ip f, fl_src_port = fl_dst_port f, fl_dst_port = fl_src_port f, fl_proto = fl_proto f\<rparr>"

definition ipv4_stamp_flow :: "(byte_string \<Rightarrow> u16) \<Rightarrow> flow \<Rightarrow> byte_string \<Rightarrow> byte_string rust" where
  "ipv4_stamp_flow ipcsum f bytes =
     rbind (port_start bytes) (\<lambda>ps.
     rbind (copy_from_slice_at 12 16 (be_bytes 4 (unat (fl_src_ip f))) bytes) (\<lambda>bytes.
     rbind (copy_from_slice_at 16 20 (be_bytes 4 (unat (fl_dst_ip f))) bytes) (\<lambda>bytes.
     rbind (copy_from_slice_at ps (ps + 2) (be_bytes 2 (unat (fl_src_port f))) bytes) (\<lambda>bytes.
     rbind (copy_from_slice_at (ps + 2) (ps + 4) (be_bytes 2 (unat (fl_dst_port f))) bytes) (\<lambda>bytes.
     rbind (copy_from_slice_at 10 12 (be_bytes 2 0) bytes) (\<lambda>bytes.
     copy_from_slice_at 10 12 (be_bytes 2 (unat (ipcsum bytes))) bytes))))))"

definition flow_as_u8 :: "flow \<Rightarrow> byte_string" where
  "flow_as_u8 f = enc_u32 (fl_src_ip f) @ enc_u32 (fl_dst_ip f) @ enc_u16 (fl_src_port f) @ enc_u16 (fl_dst_port f) @ [fl_proto f]"

definition flow_hash :: "(byte_string \<Rightarrow> u64) \<Rightarrow> flow \<Rightarrow> u64" where
  "flow_hash hasher f = hasher (flow_as_u8 f)"

definition ipv4_flow_hash :: "(byte_string \<Rightarrow> u64) \<Rightarrow> byte_string \<Rightarrow> u32 \<Rightarrow> u64 rust" where
  "ipv4_flow_hash hasher bytes iv =
     rbind (ipv4_extract_flow bytes) (\<lambda>f. Inr (case f of Some f \<Rightarrow> flow_hash hasher f | None \<Rightarrow> 0))"

lemma reverse_flow_involutive: "reverse_flow (reverse_flow f) = f"
  by (simp add: reverse_flow_def)

lemma flow_as_u8_inj: "flow_as_u8 f = flow_as_u8 g \<longleftrightarrow> f = g"
proof
  assume "flow_as_u8 f = flow_as_u8 g"
  then have "enc_u32 (fl_src_ip f) = enc_u32 (fl_src_ip g)" "enc_u32 (fl_dst_ip f) = enc_u32 (fl_dst_ip g)"
    "enc_u16 (fl_src_port f) = enc_u16 (fl_src_port g)" "enc_u16 (fl_dst_port f) = enc_u16 (fl_dst_port g)" "fl_proto f = fl_proto g"
    by (simp_all add: flow_as_u8_def)
  then show "f = g" by (metis dec_enc_u32 dec_enc_u16 flow.equality old.unit.exhaust)
qed simp

text \<open>What was stamped on a packet is read back from it; the protocol is that of the packet.\<close>

lemma write_at_outside:
  assumes "i + length ys \<le> length xs" and "a + n \<le> i \<or> i + length ys \<le> a"
  shows "take n (drop a (write_at i ys xs)) = take n (drop a xs)"
proof (cases "a + n \<le> i")
  case True
  then have "take (a + n) (write_at i ys xs) = take (a + n) xs" using assms(1) by simp
  then show ?thesis by (metis take_drop add.commute)
next
  case False
  then show ?thesis using assms drop_write_at_after [of i ys a xs] by simp
qed

lemma nth_write_at_outside:
  assumes "i + length ys \<le> length xs" and "k < i"
  shows "write_at i ys xs ! k = xs ! k"
  using assms by (auto simp: write_at_def nth_append)

lemma port_start_nth: "xs \<noteq> [] \<Longrightarrow> port_start xs = Inr (unat (xs ! 0 AND 0xf) * 4)"
  by (simp add: port_start_def index_slice_def IHL_TO_BYTE_FACTOR_def)

lemma extract_fields:
  assumes "ps = unat (xs ! 0 AND 0xf) * 4" and "20 \<le> ps" and "ps + 4 \<le> length xs" and "take 4 (drop 12 xs) = be_bytes 4 (unat (fl_src_ip f))"
    and "take 4 (drop 16 xs) = be_bytes 4 (unat (fl_dst_ip f))" and "take 2 (drop ps xs) = be_bytes 2 (unat (fl_src_port f))"
    and "take 2 (drop (ps + 2) xs) = be_bytes 2 (unat (fl_dst_port f))"
  shows "ipv4_extract_flow xs = Inr (Some (f\<lparr>fl_proto := xs ! 9\<rparr>))"
proof -
  have "xs \<noteq> []" using assms(3) by auto
  moreover have "be_u32 (be_bytes 4 (unat w)) = w" for w using unat_u32_lt [of w] by (simp add: be_u32_def)
  moreover have "be_u16 (be_bytes 2 (unat w)) = w" for w using unat_u16_lt [of w] by (simp add: be_u16_def)
  ultimately show ?thesis using assms(2-7)
    by (simp add: ipv4_extract_flow_def port_start_nth assms(1) [symmetric] slice_range_def index_slice_def)
qed

lemma stamp_then_extract:
  assumes "bytes \<noteq> []" and "20 \<le> unat (hd bytes AND 0xf) * 4" and "unat (hd bytes AND 0xf) * 4 + 4 \<le> length bytes"
  shows "\<exists>bytes'. ipv4_stamp_flow ipcsum f bytes = Inr bytes' \<and> length bytes' = length bytes \<and>
    ipv4_extract_flow bytes' = Inr (Some (f\<lparr>fl_proto := bytes ! 9\<rparr>))"
proof -
  let ?ps = "unat (hd bytes AND 0xf) * 4"
  let ?b = "write_at (?ps + 2) (be_bytes 2 (unat (fl_dst_port f))) (write_at ?ps (be_bytes 2 (unat (fl_src_port f)))
    (write_at 16 (be_bytes 4 (unat (fl_dst_ip f))) (write_at 12 (be_bytes 4 (unat (fl_src_ip f))) bytes)))"
  let ?bytes = "write_at 10 (be_bytes 2 (unat (ipcsum (write_at 10 (be_bytes 2 0) ?b)))) (write_at 10 (be_bytes 2 0) ?b)"
  have hd: "bytes ! 0 = hd bytes" using assms(1) by (simp add: hd_conv_nth)
  define xs where "xs = ?bytes"
  have len: "length xs = length bytes" using assms(2,3) by (simp add: xs_def)
  have run: "ipv4_stamp_flow ipcsum f bytes = Inr xs"
    using assms by (simp add: xs_def ipv4_stamp_flow_def port_start_nth hd copy_from_slice_at_def)
  have keep: "xs ! 0 = bytes ! 0" "xs ! 9 = bytes ! 9" using assms(2,3) by (simp_all add: xs_def nth_write_at_outside)
  have parts: "take 4 (drop 12 xs) = be_bytes 4 (unat (fl_src_ip f))" "take 4 (drop 16 xs) = be_bytes 4 (unat (fl_dst_ip f))"
    "take 2 (drop ?ps xs) = be_bytes 2 (unat (fl_src_port f))" "take 2 (drop (?ps + 2) xs) = be_bytes 2 (unat (fl_dst_port f))"
    using assms(2,3) write_at_window [of 12 "be_bytes 4 (unat (fl_src_ip f))"] write_at_window [of 16 "be_bytes 4 (unat (fl_dst_ip f))"]
      write_at_window [of ?ps "be_bytes 2 (unat (fl_src_port f))"] write_at_window [of "?ps + 2" "be_bytes 2 (unat (fl_dst_port f))"]
    by (simp_all add: xs_def write_at_outside)
  have "ipv4_extract_flow xs = Inr (Some (f\<lparr>fl_proto := xs ! 9\<rparr>))"
    by (rule extract_fields [OF _ _ _ parts]) (use assms(2,3) len keep(1) hd in simp_all)
  then show ?thesis using run len keep(2) by simp
qed

text \<open>An address lies in the range of a prefix exactly when it agrees with the base address in the leading bits.\<close>

lemma in_range_iff:
  assumes "unat prefix \<le> 32"
  shows "in_range a (Ipv4Prefix_new base prefix) \<longleftrightarrow> drop_bit (32 - unat prefix) a = drop_bit (32 - unat prefix) base \<or> prefix = 0"
proof (cases "prefix = 0")
  case True
  then show ?thesis by (simp add: in_range_def Ipv4Prefix_new_def)
next
  case False
  let ?k = "32 - unat prefix"
  have k: "unat (32 - prefix) = ?k" "?k < 32" using assms False by (simp_all add: unat_sub word_le_nat_alt unat_gt_0 [symmetric])
  have mask: "pf_mask (Ipv4Prefix_new base prefix) = NOT (mask ?k)"
    using False k by (simp add: Ipv4Prefix_new_def Let_def mask_eq_decr_exp push_bit_of_1)
  have "a AND NOT (mask ?k) = base AND NOT (mask ?k) \<longleftrightarrow> drop_bit ?k a = drop_bit ?k base"
  proof
    assume eq: "a AND NOT (mask ?k) = base AND NOT (mask ?k)"
    have "drop_bit ?k x = drop_bit ?k (x AND NOT (mask ?k))" for x :: u32
      by (rule bit_word_eqI) (auto simp: bit_drop_bit_eq bit_and_iff bit_not_iff bit_mask_iff dest: bit_imp_le_length)
    then show "drop_bit ?k a = drop_bit ?k base" using eq by metis
  next
    assume eq: "drop_bit ?k a = drop_bit ?k base"
    have "x AND NOT (mask ?k) = push_bit ?k (drop_bit ?k x)" for x :: u32
      by (rule bit_word_eqI) (auto simp: bit_push_bit_iff bit_drop_bit_eq bit_and_iff bit_not_iff bit_mask_iff not_less)
    then show "a AND NOT (mask ?k) = base AND NOT (mask ?k)" using eq by metis
  qed
  then show ?thesis using False mask by (simp add: in_range_def Ipv4Prefix_new_def Let_def)
qed

section \<open>Values only the control plane reads\<close>

record 't cp_data_path =
  cd_cache :: "(flow \<times> 't) list"
  cd_updates :: usize
  cd_delay :: usize

type_synonym 't batch_channel = "(flow \<times> 't) list list"

text \<open>\<open>cp_update\<close>: the cache is drained whether or not the channel takes it (\<open>room\<close> of its slots are free).\<close>

definition cp_update :: "nat \<Rightarrow> flow \<Rightarrow> 't \<Rightarrow> 't cp_data_path \<times> 't batch_channel \<Rightarrow> 't cp_data_path \<times> 't batch_channel" where
  "cp_update channel_size f inc st =
     (let (d, ch) = st; cache = cd_cache d @ [(f, inc)]; updates = cd_updates d + 1
      in if cd_delay d \<le> updates
         then (d\<lparr>cd_cache := [], cd_updates := 0\<rparr>, if length ch < channel_size then ch @ [cache] else ch)
         else (d\<lparr>cd_cache := cache, cd_updates := updates\<rparr>, ch))"

primrec update_internal :: "('t \<Rightarrow> 't \<Rightarrow> 't) \<Rightarrow> 't \<Rightarrow> (flow \<times> 't) list \<Rightarrow> (flow \<rightharpoonup> 't) \<Rightarrow> (flow \<rightharpoonup> 't)" where
  "update_internal add dflt [] m = m"
| "update_internal add dflt (x # xs) m =
     update_internal add dflt xs (m(fst x \<mapsto> add (case m (fst x) of None \<Rightarrow> dflt | Some v \<Rightarrow> v) (snd x)))"

definition cp_recv :: "('t \<Rightarrow> 't \<Rightarrow> 't) \<Rightarrow> 't \<Rightarrow> (flow \<rightharpoonup> 't) \<times> 't batch_channel \<Rightarrow> (flow \<rightharpoonup> 't) \<times> 't batch_channel" where
  "cp_recv add dflt st = (case snd st of [] \<Rightarrow> st | v # ch \<Rightarrow> (update_internal add dflt v (fst st), ch))"

definition counter_get :: "'t \<Rightarrow> flow \<Rightarrow> (flow \<rightharpoonup> 't) \<Rightarrow> 't" where
  "counter_get dflt f m = (case m f of Some i \<Rightarrow> i | None \<Rightarrow> dflt)"

definition cp_remove :: "'t \<Rightarrow> flow \<Rightarrow> (flow \<rightharpoonup> 't) \<Rightarrow> 't \<times> (flow \<rightharpoonup> 't)" where
  "cp_remove dflt f m = (counter_get dflt f m, m(f := None))"

definition new_cp_mergeable_store :: "usize \<Rightarrow> 't cp_data_path \<times> (flow \<rightharpoonup> 't)" where
  "new_cp_mergeable_store delay = (\<lparr>cd_cache = [], cd_updates = 0, cd_delay = delay\<rparr>, Map.empty)"

text \<open>The amounts in a list that concern a flow.\<close>

definition amount :: "flow \<Rightarrow> (flow \<times> nat) list \<Rightarrow> nat" where
  "amount f xs = sum_list (map snd (filter (\<lambda>x. fst x = f) xs))"

lemma amount_simps [simp]:
  "amount f [] = 0" "amount f (x # xs) = (if fst x = f then snd x else 0) + amount f xs" "amount f (xs @ ys) = amount f xs + amount f ys"
  by (simp_all add: amount_def)

lemma update_internal_counts: "counter_get 0 f (update_internal (+) 0 xs m) = counter_get 0 f m + amount f xs"
proof (induction xs arbitrary: m)
  case (Cons x xs)
  then show ?case by (auto simp: counter_get_def split: option.splits)
qed simp

lemma cp_recv_counts: "counter_get 0 f (fst (cp_recv (+) 0 (m, ch))) + amount f (concat (snd (cp_recv (+) 0 (m, ch)))) = counter_get 0 f m + amount f (concat ch)"
  by (cases ch) (simp_all add: cp_recv_def update_internal_counts)

text \<open>As long as the channel has room, nothing is lost: what a flow was updated by is in the cache or on its way.\<close>

lemma cp_update_counts:
  assumes "length ch < slots"
  shows "amount g (cd_cache (fst (cp_update slots f inc (d, ch))) @ concat (snd (cp_update slots f inc (d, ch)))) =
    amount g (cd_cache d @ concat ch) + (if f = g then inc else 0)"
  using assms by (simp add: cp_update_def Let_def)

lemma cp_update_full_channel_loses:
  assumes "slots \<le> length ch" and "cd_delay d \<le> cd_updates d + 1"
  shows "cp_update slots f inc (d, ch) = (d\<lparr>cd_cache := [], cd_updates := 0\<rparr>, ch)"
  using assms by (simp add: cp_update_def)

section \<open>Values the data plane reads\<close>

record 't dp_store =
  ds_state :: "flow \<rightharpoonup> 't"
  ds_cache :: "(flow \<times> 't) list"
  ds_cache_size :: usize

text \<open>\<open>Extend\<close> for a hash map inserts every pair, so a later value replaces an earlier one.\<close>

primrec extend_map :: "(flow \<times> 't) list \<Rightarrow> (flow \<rightharpoonup> 't) \<Rightarrow> (flow \<rightharpoonup> 't)" where
  "extend_map [] m = m"
| "extend_map (x # xs) m = extend_map xs (m(fst x \<mapsto> snd x))"

definition dp_with_cache_and_size :: "usize \<Rightarrow> 't dp_store" where
  "dp_with_cache_and_size cache = \<lparr>ds_state = Map.empty, ds_cache = [], ds_cache_size = cache\<rparr>"

definition dp_merge_cache :: "'t dp_store \<Rightarrow> 't dp_store" where
  "dp_merge_cache d = d\<lparr>ds_state := extend_map (ds_cache d) (ds_state d), ds_cache := []\<rparr>"

definition dp_update :: "flow \<Rightarrow> 't \<Rightarrow> 't dp_store \<Rightarrow> 't dp_store" where
  "dp_update f inc d =
     (let d = d\<lparr>ds_cache := ds_cache d @ [(f, inc)]\<rparr>
      in if ds_cache_size d \<le> length (ds_cache d) then dp_merge_cache d else d)"

definition dp_remove :: "'t \<Rightarrow> flow \<Rightarrow> 't dp_store \<Rightarrow> 't \<times> 't dp_store" where
  "dp_remove dflt f d =
     (let d = dp_merge_cache d in (counter_get dflt f (ds_state d), d\<lparr>ds_state := (ds_state d)(f := None)\<rparr>))"

definition dp_iter :: "'t dp_store \<Rightarrow> (flow \<rightharpoonup> 't) \<times> 't dp_store" where
  "dp_iter d = (let d = dp_merge_cache d in (ds_state d, d))"

definition dp_len :: "'t dp_store \<Rightarrow> usize \<times> 't dp_store" where
  "dp_len d = (let d = dp_merge_cache d in (card (dom (ds_state d)), d))"

definition dp_is_empty :: "'t dp_store \<Rightarrow> bool" where
  "dp_is_empty d \<longleftrightarrow> ds_state d = Map.empty \<and> ds_cache d = []"

lemma extend_append: "extend_map (xs @ ys) m = extend_map ys (extend_map xs m)"
  by (induction xs arbitrary: m) simp_all

lemma dp_update_value: "ds_state (dp_merge_cache (dp_update f inc d)) = (ds_state (dp_merge_cache d))(f \<mapsto> inc)"
  by (simp add: dp_update_def dp_merge_cache_def Let_def extend_append)

text \<open>Two updates of a flow leave the second value, not their sum.\<close>

lemma dp_update_overwrites: "fst (dp_remove dflt f (dp_update f b (dp_update f a d))) = b"
proof -
  have "fst (dp_remove dflt f x) = counter_get dflt f (ds_state (dp_merge_cache x))" for x :: "'a dp_store" by (simp add: dp_remove_def Let_def)
  then show ?thesis by (simp add: dp_update_value counter_get_def)
qed

section \<open>Values both planes read\<close>

definition MAX_CACHE_SIZE :: usize where
  "MAX_CACHE_SIZE = 2 ^ 20"

text \<open>The maps are shared between the planes; a data plane knows its own by position.\<close>

record 't store_dp =
  md_map :: usize
  md_cache :: "(flow \<times> 't) list"
  md_base_cache_size :: usize
  md_cache_size :: usize
  md_len :: usize

definition dp_store_with_cache_and_size :: "usize \<Rightarrow> (flow \<rightharpoonup> 't) list \<Rightarrow> 't store_dp \<times> (flow \<rightharpoonup> 't) list" where
  "dp_store_with_cache_and_size cache maps =
     (\<lparr>md_map = length maps, md_cache = [], md_base_cache_size = cache, md_cache_size = cache, md_len = 0\<rparr>, maps @ [Map.empty])"

text \<open>\<open>sync\<close> copies the maps whose locks it gets (\<open>free\<close>) and merges the copies.\<close>

definition merge_copies :: "(flow \<rightharpoonup> 't) list \<Rightarrow> bool list \<Rightarrow> (flow \<rightharpoonup> 't)" where
  "merge_copies maps free = foldl (++) Map.empty (map fst (filter snd (zip maps free)))"

definition md_drain :: "'t store_dp \<times> (flow \<rightharpoonup> 't) list \<Rightarrow> 't store_dp \<times> (flow \<rightharpoonup> 't) list" where
  "md_drain st =
     (let (d, maps) = st; m = extend_map (md_cache d) (maps ! md_map d)
      in (d\<lparr>md_cache := [], md_cache_size := md_base_cache_size d, md_len := card (dom m)\<rparr>, maps[md_map d := m]))"

definition md_merge_cache :: "bool \<Rightarrow> 't store_dp \<times> (flow \<rightharpoonup> 't) list \<Rightarrow> 't store_dp \<times> (flow \<rightharpoonup> 't) list" where
  "md_merge_cache free st =
     (if free then md_drain st
      else ((fst st)\<lparr>md_cache_size := max (as_usize (md_cache_size (fst st) * 2)) MAX_CACHE_SIZE\<rparr>, snd st))"

definition md_update :: "bool \<Rightarrow> flow \<Rightarrow> 't \<Rightarrow> 't store_dp \<times> (flow \<rightharpoonup> 't) list \<Rightarrow> 't store_dp \<times> (flow \<rightharpoonup> 't) list" where
  "md_update free f inc st =
     (let (d, maps) = st; d = d\<lparr>md_cache := md_cache d @ [(f, inc)]\<rparr>
      in if md_cache_size d \<le> length (md_cache d) then md_merge_cache free (d, maps) else (d, maps))"

definition md_remove :: "'t \<Rightarrow> flow \<Rightarrow> 't store_dp \<times> (flow \<rightharpoonup> 't) list \<Rightarrow> 't \<times> 't store_dp \<times> (flow \<rightharpoonup> 't) list" where
  "md_remove dflt f st =
     (let (d, maps) = md_drain st; m = maps ! md_map d in (counter_get dflt f m, d, maps[md_map d := m(f := None)]))"

definition md_is_empty :: "'t store_dp \<Rightarrow> bool" where
  "md_is_empty d \<longleftrightarrow> md_len d \<noteq> 0"

text \<open>When the lock is taken, the cache may grow to at least its upper limit at once; a store that has values is reported as empty.\<close>

lemma md_contended_cache_size: "MAX_CACHE_SIZE \<le> md_cache_size (fst (md_merge_cache False st))"
  by (simp add: md_merge_cache_def)

lemma md_is_empty_inverted:
  assumes "md_map d < length maps" and "md_cache_size d \<le> length (md_cache d) + 1" and "finite (dom (maps ! md_map d))"
  shows "md_is_empty (fst (md_update True f inc (d, maps)))"
proof -
  have fin: "finite (dom (extend_map xs m))" if "finite (dom m)" for xs and m :: "flow \<rightharpoonup> 'a"
    using that by (induction xs arbitrary: m) simp_all
  have "extend_map (md_cache d @ [(f, inc)]) (maps ! md_map d) = (extend_map (md_cache d) (maps ! md_map d))(f \<mapsto> inc)" by (simp add: extend_append)
  moreover have "card (insert f (dom (extend_map (md_cache d) (maps ! md_map d)))) \<noteq> 0" using fin [OF assms(3)] by simp
  ultimately show ?thesis using assms(1,2)
    by (simp add: md_update_def md_merge_cache_def md_drain_def md_is_empty_def Let_def)
qed

end
