(* ===== verification/Batch.thy ===== *)
theory Batch
  imports Prelude
begin

text \<open>
  Batches of packets: \<open>net/framework/src/operators/packet_batch.rs\<close> and \<open>net/framework/src/operators/filter_batch.rs\<close>. A batch is a vector whose length
  is set by hand: \<open>pb_mem\<close> is all of its memory, with \<open>None\<close> where nothing was ever written, and \<open>pb_len\<close> the length in force. The
  buffers handed to \<open>mbuf_free_bulk\<close> are collected in \<open>pb_freed\<close>; what the native library and the ports answer are arguments.
\<close>

section \<open>Packet batches\<close>

record 'b packet_batch =
  pb_mem :: "'b option list"
  pb_len :: usize
  pb_scratch :: "'b option list"
  pb_parent_tasks :: "usize list"
  pb_freed :: "'b option list"

datatype batch_error = FailedAllocation | FailedDeallocation | PortError

definition pb_array :: "'b packet_batch \<Rightarrow> 'b option list" where
  "pb_array pb = take (pb_len pb) (pb_mem pb)"

definition pb_capacity :: "'b packet_batch \<Rightarrow> usize" where
  "pb_capacity pb = length (pb_mem pb)"

definition PacketBatch_new :: "usize \<Rightarrow> 'b packet_batch" where
  "PacketBatch_new cnt = \<lparr>pb_mem = replicate cnt None, pb_len = 0, pb_scratch = [], pb_parent_tasks = [], pb_freed = []\<rparr>"

definition add_parent_task :: "usize \<Rightarrow> 'b packet_batch \<Rightarrow> 'b packet_batch" where
  "add_parent_task task pb = pb\<lparr>pb_parent_tasks := pb_parent_tasks pb @ [task]\<rparr>"

definition pb_available :: "'b packet_batch \<Rightarrow> usize" where
  "pb_available pb = length (pb_array pb)"

definition consume_batch :: "'b packet_batch \<Rightarrow> 'b packet_batch" where
  "consume_batch pb = pb\<lparr>pb_len := 0\<rparr>"

definition add_to_batch :: "usize \<Rightarrow> 'b packet_batch \<Rightarrow> 'b packet_batch" where
  "add_to_batch added pb = pb\<lparr>pb_len := added\<rparr>"

text \<open>\<open>fresh\<close> is what \<open>mbuf_alloc_bulk\<close> delivers, or \<open>None\<close> when it fails.\<close>

definition alloc_packet_batch :: "'b list option \<Rightarrow> usize \<Rightarrow> 'b packet_batch \<Rightarrow> (batch_error + unit) \<times> 'b packet_batch" where
  "alloc_packet_batch fresh cnt pb =
     (if pb_capacity pb < cnt then (Inl FailedAllocation, pb)
      else case fresh of
             None \<Rightarrow> (Inl FailedAllocation, pb)
           | Some bs \<Rightarrow> (Inr (), pb\<lparr>pb_mem := write_at 0 (map Some (take cnt bs)) (pb_mem pb), pb_len := cnt\<rparr>))"

definition allocate_batch_with_size :: "'b list option \<Rightarrow> 'b packet_batch \<Rightarrow> (batch_error + unit) \<times> 'b packet_batch" where
  "allocate_batch_with_size fresh pb = alloc_packet_batch fresh (pb_capacity pb) pb"

definition allocate_partial_batch_with_size :: "'b list option \<Rightarrow> usize \<Rightarrow> 'b packet_batch \<Rightarrow> (batch_error + unit) \<times> 'b packet_batch" where
  "allocate_partial_batch_with_size fresh cnt pb =
     (let (res, pb) = alloc_packet_batch fresh cnt pb in (case res of Inl _ \<Rightarrow> Inl FailedAllocation | Inr u \<Rightarrow> Inr u, pb))"

definition free_packet_batch :: "bool \<Rightarrow> 'b packet_batch \<Rightarrow> bool \<times> 'b packet_batch" where
  "free_packet_batch freed pb =
     (if pb_array pb = [] then (True, pb)
      else (freed, pb\<lparr>pb_freed := pb_freed pb @ pb_array pb, pb_len := 0\<rparr>))"

definition deallocate_batch :: "bool \<Rightarrow> 'b packet_batch \<Rightarrow> (batch_error + unit) \<times> 'b packet_batch" where
  "deallocate_batch freed pb = (let (ok, pb) = free_packet_batch freed pb in (if ok then Inr () else Inl FailedDeallocation, pb))"

text \<open>\<open>got\<close> is the answer of the port: the buffers it wrote into the slice it was given, or an error.\<close>

definition recv_internal :: "'b list option \<Rightarrow> 'b packet_batch \<Rightarrow> (batch_error + u32) \<times> 'b packet_batch" where
  "recv_internal got pb =
     (let pb = add_to_batch (pb_capacity pb) pb
      in case got of
           None \<Rightarrow> (Inl PortError, pb)
         | Some bs \<Rightarrow> (Inr (word_of_nat (length bs)), add_to_batch (length bs) (pb\<lparr>pb_mem := write_at 0 (map Some bs) (pb_mem pb)\<rparr>)))"

definition batch_recv :: "bool \<Rightarrow> 'b list option \<Rightarrow> 'b packet_batch \<Rightarrow> (batch_error + u32) \<times> 'b packet_batch" where
  "batch_recv freed got pb =
     (case deallocate_batch freed pb of
        (Inl e, pb) \<Rightarrow> (Inl e, pb)
      | (Inr _, pb) \<Rightarrow> recv_internal got pb)"

text \<open>The two loops of \<open>drop_packets_stable\<close>: up to the last index to drop, and the rest.\<close>

function drop_loop :: "usize \<Rightarrow> usize \<Rightarrow> usize list \<Rightarrow> 'a list \<Rightarrow> 'a list \<Rightarrow> (usize \<times> usize \<times> usize list \<times> 'a list \<times> 'a list) rust" where
  "drop_loop idx_orig idx_new idxes arr scratch =
     (if idx_orig < length arr \<and> idxes \<noteq> []
      then if hd idxes < idx_orig then Inl AssertionFailed
           else if idx_orig = hd idxes then drop_loop (idx_orig + 1) idx_new (tl idxes) arr (scratch @ [arr ! idx_orig])
           else drop_loop (idx_orig + 1) (idx_new + 1) idxes (arr[idx_new := arr ! idx_orig]) scratch
      else Inr (idx_orig, idx_new, idxes, arr, scratch))"
  by pat_completeness auto
termination
  by (relation "measure (\<lambda>(idx_orig, idx_new, idxes, arr, scratch). length arr - idx_orig)") auto

function copy_loop :: "usize \<Rightarrow> usize \<Rightarrow> 'a list \<Rightarrow> usize \<times> 'a list" where
  "copy_loop idx_orig idx_new arr =
     (if idx_orig < length arr then copy_loop (idx_orig + 1) (idx_new + 1) (arr[idx_new := arr ! idx_orig]) else (idx_new, arr))"
  by pat_completeness auto
termination
  by (relation "measure (\<lambda>(idx_orig, idx_new, arr). length arr - idx_orig)") auto

declare drop_loop.simps [simp del] copy_loop.simps [simp del]

definition drop_packets_stable :: "bool \<Rightarrow> usize list \<Rightarrow> 'b packet_batch \<Rightarrow> (usize option \<times> 'b packet_batch) rust" where
  "drop_packets_stable freed idxes pb =
     (if idxes = [] then Inr (Some 0, pb)
      else rbind (drop_loop 0 0 idxes (pb_array pb) (pb_scratch pb)) (\<lambda>(idx_orig, idx_new, missing, arr, scratch).
           let (idx_new, arr) = copy_loop idx_orig idx_new arr;
               pb = pb\<lparr>pb_mem := arr @ drop (pb_len pb) (pb_mem pb), pb_scratch := scratch\<rparr>
           in if missing \<noteq> [] then Inr (None, pb)
              else let pb = pb\<lparr>pb_len := idx_new\<rparr>
                   in if scratch = [] then Inr (Some 0, pb)
                      else Inr (if freed then Some (length scratch) else None,
                             pb\<lparr>pb_scratch := [], pb_freed := pb_freed pb @ scratch\<rparr>)))"

definition consume_batch_partial :: "usize \<Rightarrow> 'b packet_batch \<Rightarrow> 'b packet_batch" where
  "consume_batch_partial consumed pb =
     (let len = pb_len pb; arr = pb_array pb
      in pb\<lparr>pb_mem := drop consumed arr @ drop (len - consumed) (pb_mem pb), pb_len := usize_sub len consumed\<rparr>)"

text \<open>\<open>accepted\<close> is the answer of the port: how many of the packets it took.\<close>

definition send_q :: "u32 option \<Rightarrow> 'b packet_batch \<Rightarrow> (batch_error + u32) \<times> 'b packet_batch" where
  "send_q accepted pb =
     (if 0 < pb_available pb
      then case accepted of
             None \<Rightarrow> (Inl PortError, pb)
           | Some n \<Rightarrow> (Inr n, consume_batch_partial (unat n) pb)
      else (Inr 0, pb))"

section \<open>Filtered batches\<close>

text \<open>The predicate may keep a state of its own.\<close>

primrec rejected :: "('b option \<Rightarrow> 's \<Rightarrow> bool \<times> 's) \<Rightarrow> usize \<Rightarrow> 'b option list \<Rightarrow> 's \<Rightarrow> usize list \<times> 's" where
  "rejected flt i [] s = ([], s)"
| "rejected flt i (p # ps) s =
     (let (keep, s) = flt p s; (rest, s) = rejected flt (i + 1) ps s in (if keep then rest else i # rest, s))"

definition filter_act :: "('b option \<Rightarrow> 's \<Rightarrow> bool \<times> 's) \<Rightarrow> bool \<Rightarrow> 'b packet_batch \<times> 's \<Rightarrow> ('b packet_batch \<times> 's) rust" where
  "filter_act flt freed st =
     (let (pb, s) = st; (remove, s) = rejected flt 0 (pb_array pb) s
      in if remove = [] then Inr (pb, s)
         else rbind (drop_packets_stable freed remove pb) (\<lambda>(res, pb). rbind (expect res) (\<lambda>_. Inr (pb, s))))"

section \<open>Dropping is filtering\<close>

lemma copy_rest:
  assumes "idx_new \<le> idx_orig" and "idx_orig \<le> length arr"
  shows "\<exists>arr'. copy_loop idx_orig idx_new arr = (idx_new + (length arr - idx_orig), arr') \<and> length arr' = length arr \<and>
    take (idx_new + (length arr - idx_orig)) arr' = take idx_new arr @ drop idx_orig arr"
  using assms
proof (induction idx_orig idx_new arr rule: copy_loop.induct)
  case (1 i j arr)
  show ?case
  proof (cases "i < length arr")
    case True
    let ?arr = "arr[j := arr ! i]"
    have pre: "j + 1 \<le> i + 1" "i + 1 \<le> length ?arr" using True 1(2) by simp_all
    obtain arr' where arr': "copy_loop (i + 1) (j + 1) ?arr = (j + 1 + (length ?arr - (i + 1)), arr')" "length arr' = length ?arr"
        "take (j + 1 + (length ?arr - (i + 1))) arr' = take (j + 1) ?arr @ drop (i + 1) ?arr"
      using "1.IH" [OF True pre] by blast
    have "take (j + 1) ?arr = take j arr @ [arr ! i]" using True 1(2) by (simp add: take_Suc_conv_app_nth)
    moreover have "drop (i + 1) ?arr = drop (i + 1) arr" using 1(2) by simp
    moreover have "drop i arr = arr ! i # drop (i + 1) arr" using True by (simp add: Cons_nth_drop_Suc)
    moreover have "j + 1 + (length arr - (i + 1)) = j + (length arr - i)" using True by simp
    ultimately show ?thesis using arr' True by (intro exI [of _ arr']) (simp add: copy_loop.simps [of i])
  next
    case False
    then have "copy_loop i j arr = (j, arr)" by (simp add: copy_loop.simps [of i j arr])
    then show ?thesis using False 1(3) by simp
  qed
qed

lemma drop_until_last:
  assumes "idx_new \<le> idx_orig" and "idx_orig \<le> length arr" and "sorted_wrt (<) idxes" and "\<forall>k \<in> set idxes. idx_orig \<le> k \<and> k < length arr"
  shows "\<exists>i j arr'. drop_loop idx_orig idx_new idxes arr scratch = Inr (i, j, [], arr', scratch @ map ((!) arr) idxes) \<and> length arr' = length arr \<and>
    j \<le> i \<and> i \<le> length arr \<and> take j arr' @ drop i arr' = take idx_new arr @ map ((!) arr) (filter (\<lambda>k. k \<notin> set idxes) [idx_orig..<length arr])"
  using assms
proof (induction idx_orig idx_new idxes arr scratch rule: drop_loop.induct)
  case (1 i j idxes arr scratch)
  show ?case
  proof (cases idxes)
    case Nil
    have "map ((!) arr) [i..<length arr] = drop i arr" by (metis drop_map map_nth drop_upt add_0)
    then show ?thesis using Nil 1(3,4) by (simp add: drop_loop.simps [of i])
  next
    case (Cons k ks)
    have i: "i < length arr" "i \<le> k" "k < length arr" using Cons 1(6) by auto
    have ks: "sorted_wrt (<) ks" "\<forall>x \<in> set ks. k < x \<and> x < length arr" using Cons 1(5,6) by auto
    have upt: "[i..<length arr] = i # [i + 1..<length arr]" using i(1) by (simp add: upt_conv_Cons)
    have guard: "i < length arr \<and> idxes \<noteq> []" "\<not> hd idxes < i" using i Cons by simp_all
    show ?thesis
    proof (cases "i = k")
      case True
      have "\<forall>x \<in> set (tl idxes). i + 1 \<le> x \<and> x < length arr" using ks(2) True Cons by auto
      moreover have "filter (\<lambda>x. x \<notin> set idxes) [i + 1..<length arr] = filter (\<lambda>x. x \<notin> set ks) [i + 1..<length arr]"
        using Cons True by (intro filter_cong) auto
      moreover have "drop_loop i j idxes arr scratch = drop_loop (i + 1) j (tl idxes) arr (scratch @ [arr ! i])"
        using guard True Cons by (subst drop_loop.simps) simp
      ultimately show ?thesis using "1.IH"(1) [OF guard] Cons True ks(1) 1(3) i(1) upt by simp
    next
      case False
      let ?arr = "arr[j := arr ! i]"
      have more: "\<forall>x \<in> set idxes. i + 1 \<le> x \<and> x < length ?arr" using ks(2) False Cons i by auto
      have same: "map ((!) ?arr) xs = map ((!) arr) xs" if "\<forall>x \<in> set xs. i < x" for xs using that 1(3) by auto
      have eqs: "take (j + 1) ?arr = take j arr @ [arr ! i]" "map ((!) ?arr) idxes = map ((!) arr) idxes"
          "map ((!) ?arr) (filter (\<lambda>x. x \<notin> set idxes) [i + 1..<length arr]) = map ((!) arr) (filter (\<lambda>x. x \<notin> set idxes) [i + 1..<length arr])"
      proof -
        show "take (j + 1) ?arr = take j arr @ [arr ! i]" using i(1) 1(3) by (simp add: take_Suc_conv_app_nth)
        show "map ((!) ?arr) idxes = map ((!) arr) idxes" by (rule same) (use more in auto)
        show "map ((!) ?arr) (filter (\<lambda>x. x \<notin> set idxes) [i + 1..<length arr]) = map ((!) arr) (filter (\<lambda>x. x \<notin> set idxes) [i + 1..<length arr])"
          by (rule same) simp
      qed
      have pre: "i \<noteq> hd idxes" "j + 1 \<le> i + 1" "i + 1 \<le> length ?arr" using False Cons 1(3) i(1) by simp_all
      obtain a b arr' where "drop_loop (i + 1) (j + 1) idxes ?arr scratch = Inr (a, b, [], arr', scratch @ map ((!) arr) idxes)" "length arr' = length ?arr"
          "b \<le> a" "a \<le> length ?arr" "take b arr' @ drop a arr' =
            (take j arr @ [arr ! i]) @ map ((!) arr) (filter (\<lambda>x. x \<notin> set idxes) [i + 1..<length arr])"
        using "1.IH"(2) [OF guard pre 1(5) more] unfolding length_list_update eqs by blast
      moreover have "drop_loop i j idxes arr scratch = drop_loop (i + 1) (j + 1) idxes ?arr scratch"
        using guard False Cons by (subst drop_loop.simps) simp
      moreover have "i \<notin> set idxes" using more by auto
      ultimately show ?thesis by (intro exI [of _ a] exI [of _ b] exI [of _ arr']) (simp add: upt)
    qed
  qed
qed

definition batch_ok :: "'b packet_batch \<Rightarrow> bool" where
  "batch_ok pb \<longleftrightarrow> pb_len pb \<le> pb_capacity pb \<and> pb_scratch pb = []"

lemma drop_packets:
  assumes "batch_ok pb" and "sorted_wrt (<) idxes" and "\<forall>k \<in> set idxes. k < pb_len pb"
  shows "\<exists>pb'. drop_packets_stable True idxes pb = Inr (Some (length idxes), pb') \<and> batch_ok pb' \<and> pb_capacity pb' = pb_capacity pb \<and>
    pb_array pb' = map ((!) (pb_array pb)) (filter (\<lambda>k. k \<notin> set idxes) [0..<pb_len pb]) \<and> pb_freed pb' = pb_freed pb @ map ((!) (pb_array pb)) idxes"
proof (cases "idxes = []")
  case True
  have "length (pb_array pb) = pb_len pb" using assms(1) by (simp add: batch_ok_def pb_capacity_def pb_array_def)
  then have "map ((!) (pb_array pb)) [0..<pb_len pb] = pb_array pb" by (metis map_nth)
  then show ?thesis using True assms(1) by (simp add: drop_packets_stable_def)
next
  case False
  have len: "length (pb_array pb) = pb_len pb" using assms(1) by (simp add: batch_ok_def pb_capacity_def pb_array_def)
  obtain i j arr1 where one: "drop_loop 0 0 idxes (pb_array pb) [] = Inr (i, j, [], arr1, map ((!) (pb_array pb)) idxes)" "length arr1 = pb_len pb"
      "j \<le> i" "i \<le> pb_len pb" "take j arr1 @ drop i arr1 = map ((!) (pb_array pb)) (filter (\<lambda>k. k \<notin> set idxes) [0..<pb_len pb])"
    using drop_until_last [of 0 0 "pb_array pb" idxes "[]"] assms(2,3) len by auto
  obtain arr2 where two: "copy_loop i j arr1 = (j + (pb_len pb - i), arr2)" "length arr2 = pb_len pb" "take (j + (pb_len pb - i)) arr2 = take j arr1 @ drop i arr1"
    using copy_rest [of j i arr1] one(2-4) by auto
  let ?pb = "pb\<lparr>pb_mem := arr2 @ drop (pb_len pb) (pb_mem pb), pb_scratch := [], pb_len := j + (pb_len pb - i), pb_freed := pb_freed pb @ map ((!) (pb_array pb)) idxes\<rparr>"
  have "drop_packets_stable True idxes pb = Inr (Some (length idxes), ?pb)"
    using False assms(1) one(1) two(1) by (simp add: drop_packets_stable_def batch_ok_def Let_def)
  moreover have "batch_ok ?pb" "pb_capacity ?pb = pb_capacity pb" "pb_array ?pb = take j arr1 @ drop i arr1"
    using assms(1) one(3,4) two(2,3) by (auto simp: batch_ok_def pb_capacity_def pb_array_def)
  ultimately show ?thesis using one(5) by (intro exI [of _ ?pb]) simp
qed

lemma rejected_sorted: "sorted_wrt (<) (fst (rejected flt i ps s)) \<and> (\<forall>k \<in> set (fst (rejected flt i ps s)). i \<le> k \<and> k < i + length ps)"
proof (induction ps arbitrary: i s)
  case (Cons p ps)
  obtain keep s1 where flt: "flt p s = (keep, s1)" by (cases "flt p s")
  obtain rest s2 where rest: "rejected flt (Suc i) ps s1 = (rest, s2)" by (cases "rejected flt (Suc i) ps s1")
  have "sorted_wrt (<) rest" "\<forall>k \<in> set rest. i + 1 \<le> k \<and> k < i + 1 + length ps" using Cons [of "Suc i" s1] by (simp_all add: rest)
  then show ?case using flt rest by auto
qed simp

text \<open>Filtering never panics when the buffers can be freed; it keeps, in order, exactly the packets the predicate accepted, and frees the others.\<close>

lemma filter_act_filters:
  assumes "batch_ok pb"
  shows "\<exists>pb'. filter_act flt True (pb, s) = Inr (pb', snd (rejected flt 0 (pb_array pb) s)) \<and> batch_ok pb' \<and>
    pb_array pb' = map ((!) (pb_array pb)) (filter (\<lambda>k. k \<notin> set (fst (rejected flt 0 (pb_array pb) s))) [0..<pb_len pb]) \<and>
    pb_freed pb' = pb_freed pb @ map ((!) (pb_array pb)) (fst (rejected flt 0 (pb_array pb) s))"
proof -
  obtain remove s' where r: "rejected flt 0 (pb_array pb) s = (remove, s')" by (cases "rejected flt 0 (pb_array pb) s")
  have len: "length (pb_array pb) = pb_len pb" using assms by (simp add: batch_ok_def pb_capacity_def pb_array_def)
  then have idx: "sorted_wrt (<) remove" "\<forall>k \<in> set remove. k < pb_len pb" using rejected_sorted [of flt 0 "pb_array pb" s] by (auto simp: r)
  show ?thesis
  proof (cases "remove = []")
    case True
    have "map ((!) (pb_array pb)) [0..<pb_len pb] = pb_array pb" using len by (metis map_nth)
    then show ?thesis using True assms r by (simp add: filter_act_def)
  next
    case False
    then show ?thesis using drop_packets [OF assms idx] by (auto simp: filter_act_def r)
  qed
qed

text \<open>A port that fails leaves the batch with its full length, so that the next reception frees whatever the memory held, a second time or uninitialised.\<close>

lemma failed_recv_frees_again:
  assumes "batch_ok pb" and "0 < pb_len pb"
  shows "\<exists>pb'. batch_recv True None pb = (Inl PortError, pb') \<and> pb_array pb' = pb_mem pb \<and>
    pb_freed (snd (batch_recv True got pb')) = pb_freed pb @ pb_array pb @ pb_mem pb"
  using assms
  by (auto simp: batch_recv_def deallocate_batch_def free_packet_batch_def recv_internal_def add_to_batch_def pb_array_def pb_capacity_def batch_ok_def Let_def
    split: option.splits)

end
