(* ===== verification/Tcp.thy ===== *)
theory Tcp
  imports Headers
begin

text \<open>
  The TCP header of \<open>net/framework/src/headers/tcp.rs\<close>, in the form of the other headers: fields as a little-endian host reads them.
  The round trips of all fields, the independence of the flags, and the payload size are shown.
\<close>

unbundle bit_operations_syntax

section \<open>The header\<close>

record tcp_header =
  tcp_src_port :: u16
  tcp_dst_port :: u16
  tcp_seq :: u32
  tcp_ack :: u32
  tcp_offset_to_ns :: u8
  tcp_flags :: u8
  tcp_window :: u16
  tcp_csum :: u16
  tcp_urgent :: u16

definition TcpHeader_new :: tcp_header where
  "TcpHeader_new = \<lparr>tcp_src_port = 0, tcp_dst_port = 0, tcp_seq = 0, tcp_ack = 0, tcp_offset_to_ns = 0, tcp_flags = 0, tcp_window = 0, tcp_csum = 0, tcp_urgent = 0\<rparr>"

definition tcp_data_offset :: "tcp_header \<Rightarrow> u8" where
  "tcp_data_offset h = drop_bit 4 (tcp_offset_to_ns h AND 0xf0)"

definition tcp_set_data_offset :: "u8 \<Rightarrow> tcp_header \<Rightarrow> tcp_header" where
  "tcp_set_data_offset offset h = h\<lparr>tcp_offset_to_ns := (tcp_offset_to_ns h AND 0x0f) OR push_bit 4 offset\<rparr>"

definition tcp_offset :: "tcp_header \<Rightarrow> usize" where
  "tcp_offset h = unat (tcp_data_offset h * 4)"

definition tcp_size :: usize where
  "tcp_size = 20"

definition tcp_payload_size :: "usize \<Rightarrow> tcp_header \<Rightarrow> usize" where
  "tcp_payload_size frame_size h = usize_sub frame_size (tcp_offset h)"

definition get_tcp_src_port :: "tcp_header \<Rightarrow> u16" where
  "get_tcp_src_port h = swap16 (tcp_src_port h)"

definition set_tcp_src_port :: "u16 \<Rightarrow> tcp_header \<Rightarrow> tcp_header" where
  "set_tcp_src_port v h = h\<lparr>tcp_src_port := swap16 v\<rparr>"

definition get_tcp_dst_port :: "tcp_header \<Rightarrow> u16" where
  "get_tcp_dst_port h = swap16 (tcp_dst_port h)"

definition set_tcp_dst_port :: "u16 \<Rightarrow> tcp_header \<Rightarrow> tcp_header" where
  "set_tcp_dst_port v h = h\<lparr>tcp_dst_port := swap16 v\<rparr>"

definition get_tcp_seq_num :: "tcp_header \<Rightarrow> u32" where
  "get_tcp_seq_num h = swap32 (tcp_seq h)"

definition set_tcp_seq_num :: "u32 \<Rightarrow> tcp_header \<Rightarrow> tcp_header" where
  "set_tcp_seq_num v h = h\<lparr>tcp_seq := swap32 v\<rparr>"

definition get_tcp_ack_num :: "tcp_header \<Rightarrow> u32" where
  "get_tcp_ack_num h = swap32 (tcp_ack h)"

definition set_tcp_ack_num :: "u32 \<Rightarrow> tcp_header \<Rightarrow> tcp_header" where
  "set_tcp_ack_num v h = h\<lparr>tcp_ack := swap32 v\<rparr>"

definition get_tcp_window_size :: "tcp_header \<Rightarrow> u16" where
  "get_tcp_window_size h = swap16 (tcp_window h)"

definition set_tcp_window_size :: "u16 \<Rightarrow> tcp_header \<Rightarrow> tcp_header" where
  "set_tcp_window_size v h = h\<lparr>tcp_window := swap16 v\<rparr>"

definition get_tcp_checksum :: "tcp_header \<Rightarrow> u16" where
  "get_tcp_checksum h = swap16 (tcp_csum h)"

definition set_tcp_checksum :: "u16 \<Rightarrow> tcp_header \<Rightarrow> tcp_header" where
  "set_tcp_checksum v h = h\<lparr>tcp_csum := swap16 v\<rparr>"

definition get_tcp_urgent :: "tcp_header \<Rightarrow> u16" where
  "get_tcp_urgent h = swap16 (tcp_urgent h)"

definition set_tcp_urgent :: "u16 \<Rightarrow> tcp_header \<Rightarrow> tcp_header" where
  "set_tcp_urgent v h = h\<lparr>tcp_urgent := swap16 v\<rparr>"

section \<open>Flags\<close>

definition ns_flag :: "tcp_header \<Rightarrow> bool" where
  "ns_flag h \<longleftrightarrow> tcp_offset_to_ns h AND 0x01 = 1"

definition set_ns :: "tcp_header \<Rightarrow> tcp_header" where
  "set_ns h = h\<lparr>tcp_offset_to_ns := tcp_offset_to_ns h OR 1\<rparr>"

definition unset_ns :: "tcp_header \<Rightarrow> tcp_header" where
  "unset_ns h = h\<lparr>tcp_offset_to_ns := tcp_offset_to_ns h AND NOT 1\<rparr>"

definition cwr_flag :: "tcp_header \<Rightarrow> bool" where
  "cwr_flag h \<longleftrightarrow> tcp_flags h AND 0x80 \<noteq> 0"

definition set_cwr_flag :: "tcp_header \<Rightarrow> tcp_header" where
  "set_cwr_flag h = h\<lparr>tcp_flags := tcp_flags h OR 0x80\<rparr>"

definition unset_cwr_flag :: "tcp_header \<Rightarrow> tcp_header" where
  "unset_cwr_flag h = h\<lparr>tcp_flags := tcp_flags h AND NOT 0x80\<rparr>"

definition ece_flag :: "tcp_header \<Rightarrow> bool" where
  "ece_flag h \<longleftrightarrow> tcp_flags h AND 0x40 \<noteq> 0"

definition set_ece_flag :: "tcp_header \<Rightarrow> tcp_header" where
  "set_ece_flag h = h\<lparr>tcp_flags := tcp_flags h OR 0x40\<rparr>"

definition unset_ece_flag :: "tcp_header \<Rightarrow> tcp_header" where
  "unset_ece_flag h = h\<lparr>tcp_flags := tcp_flags h AND NOT 0x40\<rparr>"

definition urg_flag :: "tcp_header \<Rightarrow> bool" where
  "urg_flag h \<longleftrightarrow> tcp_flags h AND 0x20 \<noteq> 0"

definition set_urg_flag :: "tcp_header \<Rightarrow> tcp_header" where
  "set_urg_flag h = h\<lparr>tcp_flags := tcp_flags h OR 0x20\<rparr>"

definition unset_urg_flag :: "tcp_header \<Rightarrow> tcp_header" where
  "unset_urg_flag h = h\<lparr>tcp_flags := tcp_flags h AND NOT 0x20\<rparr>"

definition ack_flag :: "tcp_header \<Rightarrow> bool" where
  "ack_flag h \<longleftrightarrow> tcp_flags h AND 0x10 \<noteq> 0"

definition set_ack_flag :: "tcp_header \<Rightarrow> tcp_header" where
  "set_ack_flag h = h\<lparr>tcp_flags := tcp_flags h OR 0x10\<rparr>"

definition unset_ack_flag :: "tcp_header \<Rightarrow> tcp_header" where
  "unset_ack_flag h = h\<lparr>tcp_flags := tcp_flags h AND NOT 0x10\<rparr>"

definition psh_flag :: "tcp_header \<Rightarrow> bool" where
  "psh_flag h \<longleftrightarrow> tcp_flags h AND 0x08 \<noteq> 0"

definition set_psh_flag :: "tcp_header \<Rightarrow> tcp_header" where
  "set_psh_flag h = h\<lparr>tcp_flags := tcp_flags h OR 0x08\<rparr>"

definition unset_psh_flag :: "tcp_header \<Rightarrow> tcp_header" where
  "unset_psh_flag h = h\<lparr>tcp_flags := tcp_flags h AND NOT 0x08\<rparr>"

definition rst_flag :: "tcp_header \<Rightarrow> bool" where
  "rst_flag h \<longleftrightarrow> tcp_flags h AND 0x04 \<noteq> 0"

definition set_rst_flag :: "tcp_header \<Rightarrow> tcp_header" where
  "set_rst_flag h = h\<lparr>tcp_flags := tcp_flags h OR 0x04\<rparr>"

definition unset_rst_flag :: "tcp_header \<Rightarrow> tcp_header" where
  "unset_rst_flag h = h\<lparr>tcp_flags := tcp_flags h AND NOT 0x04\<rparr>"

definition syn_flag :: "tcp_header \<Rightarrow> bool" where
  "syn_flag h \<longleftrightarrow> tcp_flags h AND 0x02 \<noteq> 0"

definition set_syn_flag :: "tcp_header \<Rightarrow> tcp_header" where
  "set_syn_flag h = h\<lparr>tcp_flags := tcp_flags h OR 0x02\<rparr>"

definition unset_syn_flag :: "tcp_header \<Rightarrow> tcp_header" where
  "unset_syn_flag h = h\<lparr>tcp_flags := tcp_flags h AND NOT 0x02\<rparr>"

definition fin_flag :: "tcp_header \<Rightarrow> bool" where
  "fin_flag h \<longleftrightarrow> tcp_flags h AND 0x01 \<noteq> 0"

definition set_fin_flag :: "tcp_header \<Rightarrow> tcp_header" where
  "set_fin_flag h = h\<lparr>tcp_flags := tcp_flags h OR 0x01\<rparr>"

definition unset_fin_flag :: "tcp_header \<Rightarrow> tcp_header" where
  "unset_fin_flag h = h\<lparr>tcp_flags := tcp_flags h AND NOT 0x01\<rparr>"

definition fmt_flags :: "tcp_header \<Rightarrow> string" where
  "fmt_flags h =
     ''| '' @ (if ns_flag h then ''NS '' else []) @ (if cwr_flag h then ''CWR '' else []) @ (if ece_flag h then ''ECE '' else []) @
     (if urg_flag h then ''URG '' else []) @ (if ack_flag h then ''ACK '' else []) @ (if psh_flag h then ''PSH '' else []) @
     (if rst_flag h then ''RST '' else []) @ (if syn_flag h then ''SYN '' else []) @ (if fin_flag h then ''FIN '' else []) @ ''|''"

section \<open>Round trips\<close>

lemma tcp_field_round_trips:
  "get_tcp_src_port (set_tcp_src_port p h) = p" "get_tcp_dst_port (set_tcp_dst_port p h) = p" "get_tcp_seq_num (set_tcp_seq_num s h) = s"
  "get_tcp_ack_num (set_tcp_ack_num s h) = s" "get_tcp_window_size (set_tcp_window_size p h) = p" "get_tcp_checksum (set_tcp_checksum p h) = p"
  "get_tcp_urgent (set_tcp_urgent p h) = p"
  by (simp_all add: get_tcp_src_port_def set_tcp_src_port_def get_tcp_dst_port_def set_tcp_dst_port_def get_tcp_seq_num_def set_tcp_seq_num_def
    get_tcp_ack_num_def set_tcp_ack_num_def get_tcp_window_size_def set_tcp_window_size_def get_tcp_checksum_def set_tcp_checksum_def
    get_tcp_urgent_def set_tcp_urgent_def)

text \<open>Only the low four bits of the data offset are kept, and the other bits of its byte stay.\<close>

lemma tcp_data_offset_set: "tcp_data_offset (tcp_set_data_offset w h) = w AND 0xf"
proof -
  have mask: "(0xf :: u8) = mask 4" "(0xf0 :: u8) = push_bit 4 (mask 4)" by (simp_all add: mask_eq_decr_exp)
  show ?thesis unfolding tcp_data_offset_def tcp_set_data_offset_def mask
    by (intro bit_word_eqI) (auto simp: bit_drop_bit_eq bit_and_iff bit_or_iff bit_push_bit_iff bit_mask_iff dest: bit_imp_le_length)
qed

lemma tcp_offset_bound: "tcp_offset h \<le> 60"
proof -
  have "unat (tcp_offset_to_ns h AND 0xf0) div 16 \<le> 15" using unat_byte_lt [of "tcp_offset_to_ns h AND 0xf0"] by linarith
  then have "unat (tcp_data_offset h) \<le> 15" by (simp add: tcp_data_offset_def unsigned_drop_bit_eq drop_bit_eq_div unat_div)
  then show ?thesis by (simp add: tcp_offset_def unat_word_ariths)
qed

text \<open>The flags are the bits of one byte: setting or clearing one decides that one and no other.\<close>

definition flag_bit :: "nat \<Rightarrow> tcp_header \<Rightarrow> bool" where
  "flag_bit k h \<longleftrightarrow> bit (tcp_flags h) k"

lemma and_power_bit: "(w :: u8) AND 2 ^ k \<noteq> 0 \<longleftrightarrow> bit w k"
  by (auto simp: bit_eq_iff [of "w AND 2 ^ k" 0] bit_and_iff bit_exp_iff dest: bit_imp_le_length)

lemma bit_power: "bit (2 ^ k :: u8) n \<longleftrightarrow> n = k \<and> k < 8"
  by (auto simp: bit_exp_iff)

lemma flag_is_bit:
  "cwr_flag h \<longleftrightarrow> flag_bit 7 h" "ece_flag h \<longleftrightarrow> flag_bit 6 h" "urg_flag h \<longleftrightarrow> flag_bit 5 h" "ack_flag h \<longleftrightarrow> flag_bit 4 h" "psh_flag h \<longleftrightarrow> flag_bit 3 h" "rst_flag h \<longleftrightarrow> flag_bit 2 h" "syn_flag h \<longleftrightarrow> flag_bit 1 h" "fin_flag h \<longleftrightarrow> flag_bit 0 h"
  using and_power_bit [of "tcp_flags h" 7] and_power_bit [of "tcp_flags h" 6] and_power_bit [of "tcp_flags h" 5] and_power_bit [of "tcp_flags h" 4] and_power_bit [of "tcp_flags h" 3] and_power_bit [of "tcp_flags h" 2] and_power_bit [of "tcp_flags h" 1] and_power_bit [of "tcp_flags h" 0]
  by (simp_all add: flag_bit_def cwr_flag_def ece_flag_def urg_flag_def ack_flag_def psh_flag_def rst_flag_def syn_flag_def fin_flag_def)

lemma flag_set:
  "flag_bit n (set_cwr_flag h) \<longleftrightarrow> n = 7 \<or> flag_bit n h"
  "flag_bit n (set_ece_flag h) \<longleftrightarrow> n = 6 \<or> flag_bit n h"
  "flag_bit n (set_urg_flag h) \<longleftrightarrow> n = 5 \<or> flag_bit n h"
  "flag_bit n (set_ack_flag h) \<longleftrightarrow> n = 4 \<or> flag_bit n h"
  "flag_bit n (set_psh_flag h) \<longleftrightarrow> n = 3 \<or> flag_bit n h"
  "flag_bit n (set_rst_flag h) \<longleftrightarrow> n = 2 \<or> flag_bit n h"
  "flag_bit n (set_syn_flag h) \<longleftrightarrow> n = 1 \<or> flag_bit n h"
  "flag_bit n (set_fin_flag h) \<longleftrightarrow> n = 0 \<or> flag_bit n h"
  using bit_power [of 7 n] bit_power [of 6 n] bit_power [of 5 n] bit_power [of 4 n] bit_power [of 3 n] bit_power [of 2 n] bit_power [of 1 n] bit_power [of 0 n]
  by (auto simp: flag_bit_def bit_or_iff set_cwr_flag_def set_ece_flag_def set_urg_flag_def set_ack_flag_def set_psh_flag_def set_rst_flag_def set_syn_flag_def set_fin_flag_def)

lemma bit_clear: "bit ((w :: u8) AND NOT (2 ^ k)) n \<longleftrightarrow> n \<noteq> k \<and> bit w n"
  by (auto simp: bit_and_iff bit_not_iff bit_exp_iff dest: bit_imp_le_length)

lemma flag_unset:
  "flag_bit n (unset_cwr_flag h) \<longleftrightarrow> n \<noteq> 7 \<and> flag_bit n h"
  "flag_bit n (unset_ece_flag h) \<longleftrightarrow> n \<noteq> 6 \<and> flag_bit n h"
  "flag_bit n (unset_urg_flag h) \<longleftrightarrow> n \<noteq> 5 \<and> flag_bit n h"
  "flag_bit n (unset_ack_flag h) \<longleftrightarrow> n \<noteq> 4 \<and> flag_bit n h"
  "flag_bit n (unset_psh_flag h) \<longleftrightarrow> n \<noteq> 3 \<and> flag_bit n h"
  "flag_bit n (unset_rst_flag h) \<longleftrightarrow> n \<noteq> 2 \<and> flag_bit n h"
  "flag_bit n (unset_syn_flag h) \<longleftrightarrow> n \<noteq> 1 \<and> flag_bit n h"
  "flag_bit n (unset_fin_flag h) \<longleftrightarrow> n \<noteq> 0 \<and> flag_bit n h"
  using bit_clear [of "tcp_flags h" 7 n] bit_clear [of "tcp_flags h" 6 n] bit_clear [of "tcp_flags h" 5 n] bit_clear [of "tcp_flags h" 4 n] bit_clear [of "tcp_flags h" 3 n] bit_clear [of "tcp_flags h" 2 n] bit_clear [of "tcp_flags h" 1 n] bit_clear [of "tcp_flags h" 0 n]
  by (simp_all add: flag_bit_def unset_cwr_flag_def unset_ece_flag_def unset_urg_flag_def unset_ack_flag_def unset_psh_flag_def unset_rst_flag_def unset_syn_flag_def unset_fin_flag_def)

end
