(* ===== verification/Settings.thy ===== *)
theory Settings
  imports Headers
begin

text \<open>
  The configuration of \<open>db/src/config.rs\<close>: the parsing of MAC addresses, and the two configurations with a default when the file cannot be
  read or parsed. \<open>toml\<close> stands for the parser of the file format, given the contents of the file.
\<close>

section \<open>MAC addresses\<close>

fun split_on :: "char \<Rightarrow> string \<Rightarrow> string list" where
  "split_on c [] = [[]]"
| "split_on c (x # xs) =
     (if x = c then [] # split_on c xs
      else case split_on c xs of [] \<Rightarrow> [[x]] | w # ws \<Rightarrow> (x # w) # ws)"

definition to_digit :: "char \<Rightarrow> nat option" where
  "to_digit c =
     (let n = of_char c :: nat
      in if 48 \<le> n \<and> n \<le> 57 then Some (n - 48)
         else if 97 \<le> n \<and> n \<le> 102 then Some (n - 87)
         else if 65 \<le> n \<and> n \<le> 70 then Some (n - 55)
         else None)"

primrec digits_u8 :: "nat \<Rightarrow> string \<Rightarrow> u8 option" where
  "digits_u8 acc [] = Some (word_of_nat acc)"
| "digits_u8 acc (c # cs) =
     (case to_digit c of
        None \<Rightarrow> None
      | Some d \<Rightarrow> if acc * 16 + d < 256 then digits_u8 (acc * 16 + d) cs else None)"

text \<open>\<open>u8::from_str_radix(s, 16)\<close>: a leading plus sign is skipped, an empty string and a lone sign are errors, and so is a value above 255.\<close>

definition from_str_radix_16 :: "string \<Rightarrow> u8 option" where
  "from_str_radix_16 s =
     (case s of
        [] \<Rightarrow> None
      | c # cs \<Rightarrow> if (c = CHR ''+'' \<or> c = CHR ''-'') \<and> cs = [] then None
                 else if c = CHR ''+'' then digits_u8 0 cs else digits_u8 0 s)"

definition parse_mac :: "string \<Rightarrow> mac_address option rust" where
  "parse_mac mac =
     (let bytes = map from_str_radix_16 (split_on CHR '':'' mac)
      in if None \<in> set bytes then Inr None
         else if length bytes = 6 then rbind (MacAddress_new_from_slice (map the bytes)) (\<lambda>m. Inr (Some m)) else Inr None)"

section \<open>Configurations\<close>

record server_config =
  sc_mac_address :: string
  sc_ip_address :: string
  sc_udp_port :: u16
  sc_nic_pci :: string
  sc_client_mac :: string
  sc_client_ip :: string
  sc_num_tenants :: u32
  sc_install_addr :: string
  sc_workload :: string
  sc_num_records :: u32

definition ServerConfig_default :: server_config where
  "ServerConfig_default = \<lparr>sc_mac_address = [], sc_ip_address = [], sc_udp_port = 0, sc_nic_pci = [], sc_client_mac = [], sc_client_ip = [],
     sc_num_tenants = 0, sc_install_addr = [], sc_workload = [], sc_num_records = 0\<rparr>"

text \<open>A file that cannot be opened or read leaves the contents empty.\<close>

definition load_config :: "(string \<Rightarrow> server_config option) \<Rightarrow> string option \<Rightarrow> server_config" where
  "load_config toml file =
     (case toml (case file of None \<Rightarrow> [] | Some contents \<Rightarrow> contents) of None \<Rightarrow> ServerConfig_default | Some c \<Rightarrow> c)"

definition sc_parse_mac :: "server_config \<Rightarrow> mac_address rust" where
  "sc_parse_mac c = rbind (parse_mac (sc_mac_address c)) expect"

definition sc_parse_client_mac :: "server_config \<Rightarrow> mac_address rust" where
  "sc_parse_client_mac c = rbind (parse_mac (sc_client_mac c)) expect"

section \<open>What is parsed\<close>

lemma parse_mac_never_panics: "\<exists>m. parse_mac s = Inr m"
proof -
  have "\<exists>m. MacAddress_new_from_slice bs = Inr m" if "length bs = 6" for bs
    using that by (simp add: MacAddress_new_from_slice_def index_slice_def)
  then show ?thesis by (auto simp: parse_mac_def Let_def)
qed

definition hex_digit :: "nat \<Rightarrow> char" where
  "hex_digit d = (if d < 10 then char_of (48 + d) else char_of (87 + d))"

definition show_byte :: "u8 \<Rightarrow> string" where
  "show_byte b = [hex_digit (unat b div 16), hex_digit (unat b mod 16)]"

primrec show_bytes :: "byte_string \<Rightarrow> string" where
  "show_bytes [] = []"
| "show_bytes (b # bs) = show_byte b @ (if bs = [] then [] else CHR '':'' # show_bytes bs)"

lemma hex_digit_parses:
  assumes "d < 16"
  shows "to_digit (hex_digit d) = Some d" and "hex_digit d \<noteq> CHR '':''" and "hex_digit d \<noteq> CHR ''+''" and "hex_digit d \<noteq> CHR ''-''"
proof -
  have n: "of_char (hex_digit d) = (if d < 10 then 48 + d else 87 + d)" using assms by (auto simp: hex_digit_def)
  show "to_digit (hex_digit d) = Some d" using assms by (auto simp: to_digit_def Let_def n)
  have "of_char (CHR '':'') = (58 :: nat)" "of_char (CHR ''+'') = (43 :: nat)" "of_char (CHR ''-'') = (45 :: nat)" by simp_all
  then show "hex_digit d \<noteq> CHR '':''" "hex_digit d \<noteq> CHR ''+''" "hex_digit d \<noteq> CHR ''-''" using n assms by (auto split: if_splits)
qed

lemma show_byte_parses: "from_str_radix_16 (show_byte b) = Some b"
proof -
  have u: "unat b < 256" by (rule unat_byte_lt)
  then have d: "unat b div 16 < 16" "unat b mod 16 < 16" by auto
  have "unat b div 16 * 16 + unat b mod 16 = unat b" by simp
  then show ?thesis using u hex_digit_parses [OF d(1)] hex_digit_parses [OF d(2)] d by (simp add: from_str_radix_16_def show_byte_def)
qed

lemma split_show_bytes: "bs \<noteq> [] \<Longrightarrow> split_on CHR '':'' (show_bytes bs) = map show_byte bs"
proof (induction bs)
  case (Cons b bs)
  have "unat b div 16 < 16" "unat b mod 16 < 16" using unat_byte_lt [of b] by auto
  then show ?case using Cons hex_digit_parses(2) by (auto simp: show_byte_def)
qed simp

text \<open>A MAC address in its usual notation is read back.\<close>

lemma parse_show_mac:
  assumes "length m = 6"
  shows "parse_mac (show_bytes m) = Inr (Some m)"
proof -
  have "m \<noteq> []" using assms by auto
  then have bytes: "map from_str_radix_16 (split_on CHR '':'' (show_bytes m)) = map Some m" by (simp add: split_show_bytes show_byte_parses o_def)
  obtain a b c d e f where m: "m = [a, b, c, d, e, f]" using assms by (auto simp: length_Suc_conv numeral_eq_Suc)
  show ?thesis unfolding parse_mac_def Let_def bytes by (simp add: m MacAddress_new_from_slice_def index_slice_def)
qed

text \<open>A missing or malformed file gives the default configuration, whose MAC address does not parse: the server panics when it asks for it.\<close>

lemma default_config_panics:
  assumes "toml [] = None"
  shows "sc_parse_mac (load_config toml None) = Inl UnwrapFailed"
  using assms by (simp add: load_config_def sc_parse_mac_def ServerConfig_default_def parse_mac_def from_str_radix_16_def)

end
