(* ===== verification/Spec2Isabelle.thy ===== *)
theory Spec2Isabelle
  imports Tao AggRuns TaoRuns PushbackRuns YcsbRuns AuthRuns ChecksumClient GenRuns AnalysisRuns MixClient SanityClient ReorderRuns Flows Batch Tcp Settings
begin

text \<open>
  A verification development for Kayak, the multi-tenant in-memory database whose clients may send
  code (extensions) to the server.

  \<^bold>\<open>The program.\<close> A server thread polls a network port, parses the packets up to UDP and hands
  each remote procedure call to the master service (\<open>db/src/master.rs\<close>), which makes a task of it: a
  native task for a get, put, multiget or commit, a container with an execution context
  (\<open>db/src/context.rs\<close>) for the invocation of an extension. A cooperative scheduler
  (\<open>db/src/sched.rs\<close>) runs the tasks and collects their responses; when requests queue up it pushes
  invocations back to the client, together with what they have read. Data lives in tables
  (\<open>db/src/table.rs\<close>) of versioned objects, laid out by an allocator (\<open>db/src/alloc.rs\<close>), one set of
  tables per tenant; transactions (\<open>db/src/tx.rs\<close>) are validated optimistically against the versions they read.
  A client (\<open>splinter/\<close>) sends requests and, when an invocation is pushed back, runs the extension itself
  against a cache of what it has read, fetches what is missing and asks the server to commit the outcome.
  The Kayak clients choose, by two feedback loops on the measured throughput and latency, how many requests are
  in flight and which share of them is an invocation.

  \<^bold>\<open>Theories\<close>, each with a longer description of its own:

  \<^item> \<open>Prelude\<close>: outcomes of Rust code that may panic, slices, integers and their byte encodings.
  \<^item> \<open>Alloc\<close>: \<open>db/src/alloc.rs\<close> and the buffers of \<open>sandstorm/src/buf.rs\<close>.
  \<^item> \<open>Table\<close>: \<open>db/src/table.rs\<close> and \<open>db/src/tx.rs\<close>; \<open>Table_get\<close>, \<open>Table_put\<close>, \<open>Table_delete\<close>, \<open>validate\<close>
    with its locks, and the abstraction \<open>contents\<close> of a table to a map.
  \<^item> \<open>Occ\<close>: the guarantees of versions and of validation. Its locale \<open>versioned_store\<close> states what the
    argument needs of a store (versions of a key only grow, also across a deletion) and is interpreted
    on the tables.
  \<^item> \<open>Tenant\<close>: \<open>db/src/tenant.rs\<close>.
  \<^item> \<open>Packet\<close>: message buffers (\<open>net/framework/src/native/zcsi/mbuf.rs\<close>) and typed packets
    (\<open>net/framework/src/interface/packet.rs\<close>) over bytes; \<open>view_at\<close> describes a packet by its frame, the
    position of its current header and the room at its end, and every operation has a rule on views.
  \<^item> \<open>Headers\<close>, \<open>Wireformat\<close>: the network headers (\<open>net/framework/src/headers\<close>) and the headers of the
    remote procedures (\<open>db/src/wireformat.rs\<close>), as records and as bytes.
  \<^item> \<open>Rpc\<close>: \<open>db/src/rpc.rs\<close>, construction and parsing of requests.
  \<^item> \<open>Context\<close>: \<open>db/src/context.rs\<close>, the database an extension sees, its commit and its pushback.
  \<^item> \<open>Task\<close>, \<open>Sched\<close>: \<open>db/src/task.rs\<close>, \<open>db/src/native.rs\<close>, \<open>db/src/container.rs\<close>, \<open>db/src/sched.rs\<close>. The \<open>Task\<close> trait
    is a record of functions; the locale \<open>cooperative_tasks\<close> states what the scheduler relies on and is
    interpreted on native tasks and containers.
  \<^item> \<open>Ext\<close>: \<open>sandstorm/src/ext.rs\<close>; its locale \<open>tenant_map\<close> is the contract of a bucketed map by tenant,
    interpreted on the extensions here and on the tenants in \<open>Registry\<close>.
  \<^item> \<open>Master\<close>: \<open>db/src/master.rs\<close>, every handler with its generator, dispatch and installation.
  \<^item> \<open>Service\<close>, \<open>Requests\<close>, \<open>Registry\<close>: what the master service promises: the remote procedures end to
    end, the requests that panic the server, and the isolation of tenants.
  \<^item> \<open>Dispatch\<close>: \<open>db/src/dispatch.rs\<close>, the dispatcher, which is itself a task of the scheduler, and \<open>any_impl\<close>,
    the instance of the \<open>Task\<close> trait for all tasks of a server.
  \<^item> \<open>Server\<close>: the server as a whole, from the frame received to the frame sent.
  \<^item> \<open>Client\<close>: \<open>splinter/src/dispatch.rs\<close>, the requests a client sends.
  \<^item> \<open>Proxy\<close>, \<open>Manager\<close>: \<open>splinter/src/proxy.rs\<close>, the database an extension sees on a client, and
    \<open>splinter/src/container.rs\<close> and \<open>splinter/src/sched.rs\<close>, the tasks of the extensions a client runs.
  \<^item> \<open>Pushback\<close>: the two ends together: what a server pushes back is what a client resumes from, and what
    the client commits is what the server would have committed.
  \<^item> \<open>Programs\<close>: an extension as a tree of calls of the \<open>DB\<close> trait, run by \<open>on_server\<close> against \<open>Context\<close> and
    by \<open>on_client\<close> against \<open>Proxy\<close>; a program that only reads replays on the client as on the server.
  \<^item> \<open>Extensions\<close>, \<open>Tao\<close>: the extensions of \<open>ext/\<close> as such programs; \<open>ExtRuns\<close>: what they do to the tables.
  \<^item> \<open>Float32\<close>: the single precision arithmetic the client uses. The locale \<open>f32_rounding\<close> states what is
    needed of a rounding and is interpreted on \<open>round32\<close>.
  \<^item> \<open>Kayak\<close>, \<open>Control\<close>: \<open>splinter/src/bin/client/pushback-kayak.rs\<close> and \<open>splinter/src/nativestate.rs\<close>, sending
    and receiving with the two control loops, and what holds of every run. The locale \<open>controlled_client\<close> is the contract of a
    client whose turns keep its control state within bounds, interpreted on both clients with control loops.
  \<^item> \<open>Ycsbt\<close>, \<open>YcsbtRuns\<close>: \<open>splinter/src/bin/client/ycsb-t.rs\<close> and \<open>splinter/src/bin/client/ycsb-t-kayak.rs\<close>, the clients of the
    transfer workload without and with control loops, and what they do.
  \<^item> \<open>Fill\<close>: the functions of \<open>db/src/master.rs\<close> that create tenants and fill their tables for the benchmarks, and that the extensions
    find there what they look for.
  \<^item> \<open>Installer\<close>: \<open>db/src/install.rs\<close>, the thread that takes requests to install extensions.
  \<^item> \<open>Loads\<close>, \<open>OpenLoop\<close>: what the load generators of \<open>splinter/src/bin/client\<close> share. The locale \<open>window\<close> is the contract of a client with a bounded number of
    outstanding requests, \<open>open_loop\<close> that of a client that sends at a fixed rate whatever comes back.
  \<^item> \<open>AggClient\<close>, \<open>TaoClient\<close>, \<open>PushbackClient\<close>, \<open>YcsbClient\<close>, \<open>AuthClient\<close>, \<open>AnalysisClient\<close>, \<open>ChecksumClient\<close>: the clients of the respective files
    (\<open>YcsbClient\<close> also \<open>ycsb-abce.rs\<close>), their workloads, sending and receiving; \<open>AggRuns\<close>, \<open>TaoRuns\<close>, \<open>PushbackRuns\<close>, \<open>YcsbRuns\<close>, \<open>AuthRuns\<close>, \<open>AnalysisRuns\<close>:
    what their requests do at the server, or what a run of them does.
  \<^item> \<open>GenClient\<close>, \<open>GenRuns\<close>: \<open>client.rs\<close> with the \<open>Workload\<close> trait (\<open>workload.rs\<close>) as a record of functions and \<open>ycsbt.rs\<close> as an implementation of it. The locale
    \<open>request_source\<close> states what the client relies on in a workload.
  \<^item> \<open>MixClient\<close>, \<open>SanityClient\<close>: \<open>long.rs\<close> and \<open>bad.rs\<close>, which mix in long-running and misbehaving extensions, and \<open>sanity.rs\<close>.
  \<^item> \<open>Ring\<close>, \<open>Reorder\<close>, \<open>ReorderRuns\<close>: the ring buffer and the buffer that puts segments of a stream in order
    (\<open>net/framework/src/state\<close>). The locale \<open>byte_pipe\<close> is the contract of a bounded channel of bytes, interpreted on both.
  \<^item> \<open>Flows\<close>, \<open>Batch\<close>, \<open>Tcp\<close>: flows and the stores of a value per flow, batches of packets and their filters, and the TCP header, of
    \<open>net/framework/src\<close>.
  \<^item> \<open>Settings\<close>: \<open>db/src/config.rs\<close>.

  \<^bold>\<open>Effects.\<close> A computation that can panic has type \<open>'a rust\<close>: \<open>Inl\<close> with the reason, or \<open>Inr\<close> with the
  result; a mutation is state passing. Unsafe reads outside an object and invalid enumeration
  values are the panic \<open>UndefinedBehaviour\<close>. Integers are words at their width and wrap as in a
  release build; \<open>usize\<close> is \<open>nat\<close> where the code only adds lengths of buffers in memory. Locks are held
  for whole methods, so methods are atomic; inside \<open>validate\<close> the locks are modelled because the code
  takes them bucket by bucket. The machine is the clock, the number of readings taken from it
  and the tenants by address.

  \<^bold>\<open>Parameters\<close> stand for code outside the repository: the growth of a byte buffer (\<open>grant\<close>, at least
  what was asked for), the memory pool (an optional buffer), the ports (the results of their calls, in order), the dynamic loader (\<open>dl_new\<close>, \<open>dl_get\<close>), the
  file system at installation (\<open>save\<close>), the code of an extension (its generator) and the clock. A client is also given its random draws and clock readings
  (\<open>host\<close>) and the order statistic of a library (\<open>kth_stat\<close>); the extensions and the
  functions that fill the tables are given the cipher, hash, digest, learning models and data sets they use. The installer is given its connections, the parts of
  the network framework the locks, channels and native calls they depend on, and the configuration its parser.

  \<^bold>\<open>Bounds.\<close> Nothing runs on fuel. The scheduler's endless loop is modelled by the list of clock readings
  its turns take, so a statement about \<open>k\<close> turns is one about lists of length \<open>k\<close>; in the same
  way a run of an extension is a number of resumptions (\<open>server_runs\<close>) and a run of a client a list of turns. The loops that
  need not end are \<open>partial_function\<close>s: the closed loop of the generic client and the loops over the segments of the reordering buffer; that they
  end, or in which states they do not, is proved. All other loops are over finite lists, or proved to terminate (a client's sending loop by the room left in
  its window). \<open>Occ\<close> assumes that a version or a commit time stays below \<open>2 ^ 64\<close>, \<open>ReorderRuns\<close> that sequence numbers do not wrap across a gap.

  \<^bold>\<open>What is shown.\<close> Validation is atomic and sound (\<open>Occ\<close>); tables implement maps; requests built by a
  client are parsed back by the server (\<open>Rpc\<close>); get, put, multiget and commit calls answer what the tables
  say and change exactly what they should (\<open>Requests\<close>); tenants and their extensions are isolated
  (\<open>Registry\<close>, \<open>Ext\<close>); an invocation without interference commits its writes, a pushed-back one returns its
  reads and writes (\<open>Context\<close>); tasks follow their state machine and every queued task gets its turn (\<open>Task\<close>,
  \<open>Sched\<close>), also with dispatchers among them; a get request that arrives in a frame is answered by one frame three
  turns later (\<open>Server\<close>). On the client, the cache implements a partial map of the database (\<open>Proxy\<close>), tasks are
  neither lost nor duplicated (\<open>Manager\<close>), a pushback loses nothing and replaying a program on the client
  gives what the server computes (\<open>Pushback\<close>, \<open>Programs\<close>); the transfer extension conserves the sum of its accounts
  (\<open>ExtRuns\<close>), a native transfer commits the very transaction the extension would (\<open>YcsbtRuns\<close>), the data of
  the authentication and aggregation benchmarks is what their extensions expect (\<open>Fill\<close>), and the control loops keep the window and the share of invocations within their bounds whatever is
  measured (\<open>Control\<close>, \<open>YcsbtRuns\<close>). Of the other clients it is shown that what they send is served as it is meant to be (\<open>AggRuns\<close>, \<open>AuthRuns\<close>,
  \<open>TaoRuns\<close>), that a native chain of gets commits what the pushed-back extension would (\<open>PushbackRuns\<close>), that a batch of reads ends in one commit (\<open>AnalysisRuns\<close>), that
  the open loop never exceeds its rate (\<open>YcsbRuns\<close>), and that the generic client is type sound and when its closed loop ends (\<open>GenRuns\<close>); a request to install an
  extension is answered on every branch (\<open>Installer\<close>). In order, the reordering buffer is a channel of bytes, and it delivers early data once a gap is
  filled (\<open>ReorderRuns\<close>). Other properties and lemmas pin down behaviour that a reader of the code would not expect: a
  panicking extension commits, the pushback scan stops at the first task within its credit, a
  transaction that writes a missing key is applied in part, the proxy takes one index for its sentinel, the put
  extension writes to another table than the one asked for, extensions of TAO reject their updates and lose
  entries, a Kayak client ignores the answers of its extensions' reads, an aborted read
  is retried as a transfer, the data for TAO refers to an object that does not exist, a gap filled in part hangs the reordering buffer or makes it deliver bytes that never
  arrived, and several malformed requests stop a server thread or are never answered.

  \<^bold>\<open>Not modelled:\<close> the set-up of ports, threads and sockets by the programs' \<open>main\<close> functions (\<open>db/src/bin\<close>, \<open>splinter/src/bin/client/setup.rs\<close>) and the
  microbenchmarks, which only call the DPDK library and the operating system; calibration of the clock; the learning models themselves, third-party code; the
  percentiles the clients print at the end; the extensions and implementations of the \<open>DB\<close> trait that only exist for tests; and the rest of the network
  framework (its own schedulers, control plane, shared memory and the remaining operators on batches), which the database does not call.
\<close>

end
